(* ===== verification/Prelude.thy ===== *)
theory Prelude
  imports Main "HOL-Library.Word" "HOL-Library.Sublist"
begin

text \<open>
  Shared vocabulary of the development: bytes, the parts of the Rust standard library the
  sources call (string searching and splitting, ASCII case folding, integer parsing and
  printing, little-endian integer encoding) and the generic list lemmas the component
  theories rest on.

  Conventions. A \<open>&str\<close> or \<open>String\<close> is a \<^typ>\<open>string\<close>, that is, its bytes; text is ASCII
  wherever the sources look at single characters (\<open>chars()\<close>, \<open>trim\<close>). Unsigned integers
  are \<^typ>\<open>nat\<close> with their width written out where the code truncates, wraps or checks it;
  bit patterns (IPv4 addresses, octets) are words. A panic is \<^const>\<open>None\<close>.
\<close>

section \<open>Collections of simplification rules\<close>

named_theorems rust_str \<open>laws of the modelled Rust string functions\<close>
named_theorems le_codec \<open>laws of the little-endian integer encoding\<close>

section \<open>Bytes and machine integers\<close>

type_synonym u8 = "8 word"
type_synonym bytes = "8 word list"

abbreviation U32_MAX :: nat where "U32_MAX \<equiv> 4294967295"
abbreviation U64_MAX :: nat where "U64_MAX \<equiv> 18446744073709551615"

text \<open>The \<open>as u32\<close> cast of a wider unsigned integer keeps the low 32 bits.\<close>

definition as_u32 :: "nat \<Rightarrow> nat" where
  "as_u32 n = n mod 2 ^ 32"

lemma as_u32_id: "n \<le> U32_MAX \<Longrightarrow> as_u32 n = n"
  by (simp add: as_u32_def)

definition as_bytes :: "string \<Rightarrow> bytes" where
  "as_bytes s = map of_char s"

lemma length_as_bytes [simp]: "length (as_bytes s) = length s"
  by (simp add: as_bytes_def)

fun le_bytes :: "nat \<Rightarrow> nat \<Rightarrow> bytes" where
  "le_bytes 0 n = []"
| "le_bytes (Suc k) n = of_nat n # le_bytes k (n div 256)"

fun from_le_bytes :: "bytes \<Rightarrow> nat" where
  "from_le_bytes [] = 0"
| "from_le_bytes (b # bs) = unat b + 256 * from_le_bytes bs"

lemma length_le_bytes [simp, le_codec]: "length (le_bytes k n) = k"
  by (induction k arbitrary: n) simp_all

lemma le_bytes_numeral [le_codec]: "le_bytes (numeral k) n = of_nat n # le_bytes (pred_numeral k) (n div 256)"
  using le_bytes.simps(2) [of "pred_numeral k" n] by (simp only: numeral_eq_Suc [symmetric])

lemma unat_of_nat_u8: "unat (of_nat n :: u8) = n mod 256"
  by (simp add: unat_of_nat)

lemma from_le_bytes_le_bytes_mod: "from_le_bytes (le_bytes k n) = n mod 256 ^ k"
proof (induction k arbitrary: n)
  case 0
  then show ?case by simp
next
  case (Suc k)
  have "n mod 256 ^ Suc k = 256 * (n div 256 mod 256 ^ k) + n mod 256"
    by (simp add: mod_mult2_eq)
  with Suc show ?case by (simp add: unat_of_nat_u8)
qed

lemma from_le_bytes_le_bytes [le_codec]: "n < 256 ^ k \<Longrightarrow> from_le_bytes (le_bytes k n) = n"
  by (simp add: from_le_bytes_le_bytes_mod)

lemma le_bytes_inj: "le_bytes k m = le_bytes k n \<Longrightarrow> m < 256 ^ k \<Longrightarrow> n < 256 ^ k \<Longrightarrow> m = n"
  by (metis from_le_bytes_le_bytes)

lemma unat_of_char: "unat (of_char c :: u8) = of_char c"
  by (metis of_nat_of_char of_char_mod_256 unat_of_nat_u8)

lemma as_bytes_inj: "as_bytes s = as_bytes t \<longleftrightarrow> s = t"
proof -
  have "inj (of_char :: char \<Rightarrow> u8)"
    by (rule injI) (metis unat_of_char of_char_eq_iff)
  then show ?thesis by (simp add: as_bytes_def inj_map_eq_map)
qed

section \<open>Rust string functions\<close>

definition starts_with :: "string \<Rightarrow> string \<Rightarrow> bool" where
  "starts_with s p \<longleftrightarrow> prefix p s"

definition ends_with :: "string \<Rightarrow> string \<Rightarrow> bool" where
  "ends_with s p \<longleftrightarrow> suffix p s"

definition contains_str :: "string \<Rightarrow> string \<Rightarrow> bool" where
  "contains_str s p \<longleftrightarrow> sublist p s"

definition strip_prefix :: "string \<Rightarrow> string \<Rightarrow> string option" where
  "strip_prefix s p = (if prefix p s then Some (drop (length p) s) else None)"

definition strip_suffix :: "string \<Rightarrow> string \<Rightarrow> string option" where
  "strip_suffix s p = (if suffix p s then Some (take (length s - length p) s) else None)"

lemma strip_prefix_append [simp, rust_str]: "strip_prefix (p @ s) p = Some s"
  by (simp add: strip_prefix_def)

lemma strip_prefix_Some [rust_str]: "strip_prefix s p = Some r \<longleftrightarrow> s = p @ r"
  by (auto simp: strip_prefix_def prefix_def)

lemma strip_suffix_Some [rust_str]: "strip_suffix s p = Some r \<longleftrightarrow> s = r @ p"
  by (auto simp: strip_suffix_def suffix_def)

text \<open>The em dash that some messages contain, in UTF-8.\<close>

definition em_dash :: string where
  "em_dash = [CHR 0xE2, CHR 0x80, CHR 0x94]"

text \<open>\<open>split_once(c)\<close> splits at the first occurrence, \<open>rsplit_once(pat)\<close> at the last.\<close>

fun split_once :: "char \<Rightarrow> string \<Rightarrow> (string \<times> string) option" where
  "split_once c [] = None"
| "split_once c (x # xs) =
     (if x = c then Some ([], xs)
      else (case split_once c xs of None \<Rightarrow> None | Some (a, b) \<Rightarrow> Some (x # a, b)))"

fun rsplit_once :: "string \<Rightarrow> string \<Rightarrow> (string \<times> string) option" where
  "rsplit_once p [] = None"
| "rsplit_once p (x # xs) =
     (case rsplit_once p xs of
        Some (a, b) \<Rightarrow> Some (x # a, b)
      | None \<Rightarrow> (case strip_prefix (x # xs) p of None \<Rightarrow> None | Some r \<Rightarrow> Some ([], r)))"

text \<open>\<open>split(c)\<close>: the pieces between the separators, empty ones included.\<close>

fun split_on :: "char \<Rightarrow> string \<Rightarrow> string list" where
  "split_on c [] = [[]]"
| "split_on c (x # xs) =
     (if x = c then [] # split_on c xs
      else (case split_on c xs of [] \<Rightarrow> [[x]] | y # ys \<Rightarrow> (x # y) # ys))"

lemma split_once_SomeD: "split_once c s = Some (a, b) \<Longrightarrow> s = a @ c # b \<and> c \<notin> set a"
  by (induction s arbitrary: a) (auto split: if_splits option.splits)

lemma split_once_append: "c \<notin> set a \<Longrightarrow> split_once c (a @ c # b) = Some (a, b)"
  by (induction a) auto

lemma split_once_Some [rust_str]:
  "split_once c s = Some (a, b) \<longleftrightarrow> s = a @ c # b \<and> c \<notin> set a"
  using split_once_SomeD split_once_append by blast

lemma split_once_None: "split_once c s = None \<longleftrightarrow> c \<notin> set s"
  by (induction s) (auto split: option.splits)

lemma split_on_nonempty [simp, rust_str]: "split_on c s \<noteq> []"
  by (induction s) (auto split: list.splits)

lemma split_on_no_sep: "t \<in> set (split_on c s) \<Longrightarrow> c \<notin> set t"
proof (induction s arbitrary: t)
  case Nil
  then show ?case by simp
next
  case (Cons x xs)
  then show ?case by (cases "split_on c xs") (auto split: if_splits)
qed

fun join :: "string \<Rightarrow> string list \<Rightarrow> string" where
  "join sep [] = []"
| "join sep [x] = x"
| "join sep (x # y # ys) = x @ sep @ join sep (y # ys)"

lemma join_split_on [rust_str]: "join [c] (split_on c s) = s"
proof (induction s)
  case Nil
  then show ?case by simp
next
  case (Cons x xs)
  obtain y ys where y: "split_on c xs = y # ys"
    by (cases "split_on c xs") simp_all
  with Cons show ?case by (cases ys) auto
qed

lemma split_on_append: "split_on c (a @ c # b) = split_on c a @ split_on c b"
proof (induction a)
  case (Cons x a)
  then show ?case by (cases "split_on c a") auto
qed simp

lemma split_on_single: "c \<notin> set s \<Longrightarrow> split_on c s = [s]"
  by (induction s) auto

lemma split_on_join: "xs \<noteq> [] \<Longrightarrow> \<forall>x \<in> set xs. c \<notin> set x \<Longrightarrow> split_on c (join [c] xs) = xs"
proof (induction xs)
  case (Cons a xs)
  then show ?case by (cases xs) (simp_all add: split_on_append split_on_single)
qed simp

lemma join_inj:
  assumes "join [c] xs = join [c] ys" "xs \<noteq> []" "ys \<noteq> []" "\<forall>x \<in> set xs. c \<notin> set x" "\<forall>y \<in> set ys. c \<notin> set y"
  shows "xs = ys"
  using assms by (metis split_on_join)

text \<open>\<open>trim\<close> and its one-sided variants, for the ASCII whitespace characters.\<close>

definition is_ws :: "char \<Rightarrow> bool" where
  "is_ws c \<longleftrightarrow> (let n = (of_char c :: nat) in n = 32 \<or> (9 \<le> n \<and> n \<le> 13))"

definition trim :: "string \<Rightarrow> string" where
  "trim s = rev (dropWhile is_ws (rev (dropWhile is_ws s)))"

definition trim_start_matches :: "char \<Rightarrow> string \<Rightarrow> string" where
  "trim_start_matches c s = dropWhile ((=) c) s"

definition trim_end_matches :: "char \<Rightarrow> string \<Rightarrow> string" where
  "trim_end_matches c s = rev (dropWhile ((=) c) (rev s))"

definition trim_matches :: "char \<Rightarrow> string \<Rightarrow> string" where
  "trim_matches c s = trim_end_matches c (trim_start_matches c s)"

lemma trim_id: "(\<And>c. c \<in> set s \<Longrightarrow> \<not> is_ws c) \<Longrightarrow> trim s = s"
proof -
  assume ns: "\<And>c. c \<in> set s \<Longrightarrow> \<not> is_ws c"
  have id: "(\<And>c. c \<in> set t \<Longrightarrow> \<not> is_ws c) \<Longrightarrow> dropWhile is_ws t = t" for t
    by (cases t) auto
  from ns id [of s] id [of "rev s"] show ?thesis by (simp add: trim_def)
qed

section \<open>ASCII classification and case folding\<close>

definition is_ascii_lowercase :: "char \<Rightarrow> bool" where
  "is_ascii_lowercase c \<longleftrightarrow> (let n = (of_char c :: nat) in 97 \<le> n \<and> n \<le> 122)"

definition is_ascii_uppercase :: "char \<Rightarrow> bool" where
  "is_ascii_uppercase c \<longleftrightarrow> (let n = (of_char c :: nat) in 65 \<le> n \<and> n \<le> 90)"

definition is_ascii_digit :: "char \<Rightarrow> bool" where
  "is_ascii_digit c \<longleftrightarrow> (let n = (of_char c :: nat) in 48 \<le> n \<and> n \<le> 57)"

definition is_ascii_alphanumeric :: "char \<Rightarrow> bool" where
  "is_ascii_alphanumeric c \<longleftrightarrow>
     is_ascii_lowercase c \<or> is_ascii_uppercase c \<or> is_ascii_digit c"

definition ascii_lower :: "char \<Rightarrow> char" where
  "ascii_lower c = (if is_ascii_uppercase c then char_of ((of_char c :: nat) + 32) else c)"

definition to_ascii_lowercase :: "string \<Rightarrow> string" where
  "to_ascii_lowercase s = map ascii_lower s"

definition eq_ignore_ascii_case :: "string \<Rightarrow> string \<Rightarrow> bool" where
  "eq_ignore_ascii_case a b \<longleftrightarrow> to_ascii_lowercase a = to_ascii_lowercase b"

lemma eq_ignore_ascii_case_refl [simp, rust_str]: "eq_ignore_ascii_case a a"
  by (simp add: eq_ignore_ascii_case_def)

lemma eq_ignore_ascii_case_sym: "eq_ignore_ascii_case a b \<longleftrightarrow> eq_ignore_ascii_case b a"
  by (auto simp: eq_ignore_ascii_case_def)

lemma eq_ignore_ascii_case_trans:
  "eq_ignore_ascii_case a b \<Longrightarrow> eq_ignore_ascii_case b c \<Longrightarrow> eq_ignore_ascii_case a c"
  by (simp add: eq_ignore_ascii_case_def)

section \<open>Parsing and printing decimal integers\<close>

definition digit_val :: "char \<Rightarrow> nat option" where
  "digit_val c = (if is_ascii_digit c then Some (of_char c - 48) else None)"

text \<open>
  \<open>FromStr\<close> for an unsigned type with \<open>bound\<close> values: an optional plus sign, then at
  least one digit, failing as soon as the accumulated value leaves the type.
\<close>

fun parse_digits :: "nat \<Rightarrow> nat \<Rightarrow> string \<Rightarrow> nat option" where
  "parse_digits bound acc [] = Some acc"
| "parse_digits bound acc (c # cs) =
     (case digit_val c of
        None \<Rightarrow> None
      | Some d \<Rightarrow> if acc * 10 + d < bound then parse_digits bound (acc * 10 + d) cs else None)"

definition parse_uint :: "nat \<Rightarrow> string \<Rightarrow> nat option" where
  "parse_uint bound s =
     (let ds = (case s of c # cs \<Rightarrow> if c = CHR ''+'' then cs else s | [] \<Rightarrow> [])
      in if ds = [] then None else parse_digits bound 0 ds)"

abbreviation parse_u8 :: "string \<Rightarrow> nat option" where "parse_u8 \<equiv> parse_uint (2 ^ 8)"
abbreviation parse_u32 :: "string \<Rightarrow> nat option" where "parse_u32 \<equiv> parse_uint (2 ^ 32)"
abbreviation parse_u64 :: "string \<Rightarrow> nat option" where "parse_u64 \<equiv> parse_uint (2 ^ 64)"

definition digit_char :: "nat \<Rightarrow> char" where
  "digit_char d = char_of (48 + d)"

fun show_nat :: "nat \<Rightarrow> string" where
  "show_nat n = (if n < 10 then [digit_char n] else show_nat (n div 10) @ [digit_char (n mod 10)])"

declare show_nat.simps [simp del]

lemma of_char_digit_char: "d < 10 \<Longrightarrow> (of_char (digit_char d) :: nat) = 48 + d"
  by (simp add: digit_char_def)

lemma digit_val_digit_char [simp]: "d < 10 \<Longrightarrow> digit_val (digit_char d) = Some d"
  by (simp add: digit_val_def is_ascii_digit_def of_char_digit_char)

lemma parse_digits_append:
  "parse_digits b acc (xs @ ys) =
     (case parse_digits b acc xs of None \<Rightarrow> None | Some a \<Rightarrow> parse_digits b a ys)"
  by (induction b acc xs rule: parse_digits.induct) (auto split: option.splits)

lemma parse_digits_show_nat: "n < b \<Longrightarrow> parse_digits b 0 (show_nat n) = Some n"
proof (induction n rule: show_nat.induct)
  case (1 n)
  show ?case
  proof (cases "n < 10")
    case True
    with "1.prems" show ?thesis by (simp add: show_nat.simps [of n])
  next
    case False
    with "1.prems" have "n div 10 < b" by linarith
    with "1.IH" False have "parse_digits b 0 (show_nat (n div 10)) = Some (n div 10)" by simp
    moreover have "n div 10 * 10 + n mod 10 = n" by presburger
    ultimately show ?thesis
      using False "1.prems" by (simp add: show_nat.simps [of n] parse_digits_append)
  qed
qed

lemma show_nat_Cons: "\<exists>d ds. show_nat n = digit_char d # ds \<and> d < 10"
proof (induction n rule: show_nat.induct)
  case (1 n)
  then show ?case by (cases "n < 10") (auto simp: show_nat.simps [of n])
qed

lemma parse_uint_show_nat [simp, rust_str]:
  assumes "n < b"
  shows "parse_uint b (show_nat n) = Some n"
proof -
  obtain d ds where s: "show_nat n = digit_char d # ds" and d: "d < 10"
    using show_nat_Cons by blast
  have "digit_char d \<noteq> CHR ''+''"
  proof
    assume "digit_char d = CHR ''+''"
    then have "(of_char (digit_char d) :: nat) = 43" by simp
    with of_char_digit_char [OF d] show False by simp
  qed
  with parse_digits_show_nat [OF assms] show ?thesis
    by (simp add: parse_uint_def s)
qed

lemma parse_digits_bound: "parse_digits b acc s = Some n \<Longrightarrow> acc < b \<Longrightarrow> n < b"
  by (induction b acc s rule: parse_digits.induct) (auto split: option.splits if_splits)

lemma parse_uint_bound: "parse_uint b s = Some n \<Longrightarrow> n < b"
proof -
  assume p: "parse_uint b s = Some n"
  then obtain ds where ds: "parse_digits b 0 ds = Some n" "ds \<noteq> []"
    by (auto simp: parse_uint_def Let_def split: list.splits if_splits)
  then obtain c cs where "ds = c # cs" by (cases ds) auto
  with ds have "0 < b" by (auto split: option.splits if_splits)
  with ds show "n < b" using parse_digits_bound by blast
qed

section \<open>Cutting a list into pieces\<close>

function chunks_of :: "nat \<Rightarrow> 'a list \<Rightarrow> 'a list list" where
  "chunks_of n xs = (if n = 0 \<or> xs = [] then [] else take n xs # chunks_of n (drop n xs))"
  by pat_completeness auto
termination
  by (relation "measure (\<lambda>(n, xs). length xs)") auto

declare chunks_of.simps [simp del]

lemma chunks_of_Nil [simp]: "chunks_of n [] = []"
  by (simp add: chunks_of.simps)

lemma chunks_of_step: "0 < n \<Longrightarrow> xs \<noteq> [] \<Longrightarrow> chunks_of n xs = take n xs # chunks_of n (drop n xs)"
  by (simp add: chunks_of.simps [of n xs])

lemma concat_chunks_of: "0 < n \<Longrightarrow> concat (chunks_of n xs) = xs"
proof (induction n xs rule: chunks_of.induct)
  case (1 n xs)
  then show ?case by (cases "xs = []") (simp_all add: chunks_of_step)
qed

lemma chunks_of_nonempty: "0 < n \<Longrightarrow> c \<in> set (chunks_of n xs) \<Longrightarrow> c \<noteq> [] \<and> length c \<le> n"
proof (induction n xs rule: chunks_of.induct)
  case (1 n xs)
  then show ?case by (cases "xs = []") (auto simp: chunks_of_step)
qed

lemma chunks_of_append_exact:
  "0 < n \<Longrightarrow> length xs = n \<Longrightarrow> chunks_of n (xs @ ys) = xs # chunks_of n ys"
  by (subst chunks_of_step) auto

lemma chunks_of_small: "xs \<noteq> [] \<Longrightarrow> length xs \<le> n \<Longrightarrow> chunks_of n xs = [xs]"
  by (subst chunks_of_step) (auto simp: neq_Nil_conv)

lemma length_chunks_of: "0 < n \<Longrightarrow> length (chunks_of n xs) = (length xs + n - 1) div n"
proof (induction n xs rule: chunks_of.induct)
  case (1 n xs)
  show ?case
  proof (cases "xs = []")
    case False
    have "(length xs + n - 1) div n = Suc ((length xs - 1) div n)"
      using False 1(2) by (cases xs) (simp_all add: div_add_self2)
    moreover have "(length xs - n + n - 1) div n = (length xs - 1) div n"
      using False 1(2) by (cases "n \<le> length xs") auto
    ultimately show ?thesis using 1 False by (simp add: chunks_of_step)
  qed (use 1 in simp)
qed

section \<open>Results\<close>

text \<open>
  A \<open>Result\<close> is a sum with the error on the left. \<open>bind_res\<close> is the question mark operator,
  \<open>try_each\<close> a loop whose body may return early with an error, \<open>any_opt\<close> the short-circuit
  \<open>any\<close> for a test that may panic.
\<close>

fun bind_res :: "'e + 'a \<Rightarrow> ('a \<Rightarrow> 'e + 'b) \<Rightarrow> 'e + 'b" where
  "bind_res (Inl e) f = Inl e"
| "bind_res (Inr a) f = f a"

fun try_each :: "('a \<Rightarrow> 'e + unit) \<Rightarrow> 'a list \<Rightarrow> 'e + unit" where
  "try_each f [] = Inr ()"
| "try_each f (x # xs) = bind_res (f x) (\<lambda>_. try_each f xs)"

fun any_opt :: "('a \<Rightarrow> bool option) \<Rightarrow> 'a list \<Rightarrow> bool option" where
  "any_opt f [] = Some False"
| "any_opt f (x # xs) =
     (case f x of None \<Rightarrow> None | Some True \<Rightarrow> Some True | Some False \<Rightarrow> any_opt f xs)"

lemma bind_res_Inr: "bind_res r f = Inr b \<longleftrightarrow> (\<exists>a. r = Inr a \<and> f a = Inr b)"
  by (cases r) auto

lemma bind_res_Inl: "bind_res r f = Inl e \<longleftrightarrow> r = Inl e \<or> (\<exists>a. r = Inr a \<and> f a = Inl e)"
  by (cases r) auto

lemma try_each_Inr: "try_each f xs = Inr () \<longleftrightarrow> (\<forall>x\<in>set xs. f x = Inr ())"
  by (induction xs) (auto simp: bind_res_Inr)

lemma any_opt_total:
  "(\<And>x. x \<in> set xs \<Longrightarrow> f x \<noteq> None) \<Longrightarrow> any_opt f xs = Some (\<exists>x\<in>set xs. f x = Some True)"
  by (induction xs) (auto split: option.splits bool.splits)

lemma any_opt_Some: "(\<And>x. x \<in> set xs \<Longrightarrow> f x = Some (g x)) \<Longrightarrow> any_opt f xs = Some (\<exists>x\<in>set xs. g x)"
  by (simp add: any_opt_total)

end
