(* ===== verification/Glob.thy ===== *)
theory Glob
  imports Prelude
begin

text \<open>
  Wildcard matching of \<open>policy.rs\<close>, \<open>glob_match\<close>: a single left-to-right scan that
  remembers the last star and backtracks to it. The indices \<open>pi\<close>, \<open>vi\<close> are represented by
  the suffixes \<open>p[pi..]\<close>, \<open>v[vi..]\<close>, the remembered pair \<open>(star_pi, star_vi)\<close> by
  \<open>(p[star_pi + 1..], v[star_vi..])\<close>. The specification is the usual recursive reading of
  a pattern; the theorem that the scan decides it needs the value to be free of the star
  character, because the scan compares characters before it looks for a star.
\<close>

text \<open>
  Why the scan stops: a new star lies further right in the pattern than the remembered one, a
  backtrack moves the remembered position in the value to the right, and a match moves the
  current one. The first component covers argument triples that no run reaches.
\<close>

definition glob_ahead :: "string \<Rightarrow> string \<Rightarrow> (string \<times> string) option \<Rightarrow> bool" where
  "glob_ahead ps vs star \<longleftrightarrow>
     (case star of None \<Rightarrow> True | Some (sp, sv) \<Rightarrow> length ps \<le> length sp \<and> length vs \<le> length sv)"

function glob_loop :: "string \<Rightarrow> string \<Rightarrow> (string \<times> string) option \<Rightarrow> bool" where
  "glob_loop ps [] star = list_all (\<lambda>c. c = CHR ''*'') ps"
| "glob_loop ps (x # vs) star =
     (if ps \<noteq> [] \<and> (hd ps = x \<or> hd ps = CHR ''?'') then glob_loop (tl ps) vs star
      else if ps \<noteq> [] \<and> hd ps = CHR ''*'' then glob_loop (tl ps) (x # vs) (Some (tl ps, x # vs))
      else (case star of
              Some (sp, sv) \<Rightarrow> glob_loop sp (tl sv) (Some (sp, tl sv))
            | None \<Rightarrow> False))"
  by pat_completeness auto

termination
  by (relation "measures
       [\<lambda>(ps, vs, star). if glob_ahead ps vs star then 0 else 1,
        \<lambda>(ps, vs, star). case star of None \<Rightarrow> Suc (length ps + length vs) | Some (sp, sv) \<Rightarrow> length sp,
        \<lambda>(ps, vs, star). case star of None \<Rightarrow> 0 | Some (sp, sv) \<Rightarrow> length sv,
        \<lambda>(ps, vs, star). length vs]")
     (auto simp: glob_ahead_def neq_Nil_conv split: option.splits)

definition glob_match :: "string \<Rightarrow> string \<Rightarrow> bool" where
  "glob_match pattern value = glob_loop pattern value None"

section \<open>Specification\<close>

fun glob :: "string \<Rightarrow> string \<Rightarrow> bool" where
  "glob [] v = (v = [])"
| "glob (c # p) [] = (c = CHR ''*'' \<and> glob p [])"
| "glob (c # p) (x # v) =
     (if c = CHR ''*'' then glob p (x # v) \<or> glob (c # p) v
      else (c = CHR ''?'' \<or> c = x) \<and> glob p v)"

definition lit_match :: "string \<Rightarrow> string \<Rightarrow> bool" where
  "lit_match seg w \<longleftrightarrow> CHR ''*'' \<notin> set seg \<and> list_all2 (\<lambda>c x. c = CHR ''?'' \<or> c = x) seg w"

lemma glob_Nil_iff: "glob ps [] \<longleftrightarrow> list_all (\<lambda>c. c = CHR ''*'') ps"
  by (induction ps) auto

lemma glob_star_Cons: "glob (CHR ''*'' # p) (x # v) \<longleftrightarrow> glob p (x # v) \<or> glob (CHR ''*'' # p) v"
  by simp

lemma glob_starI: "glob p v \<Longrightarrow> glob (CHR ''*'' # p) v"
  by (cases v) auto

lemma glob_star_append: "glob (CHR ''*'' # p) v \<Longrightarrow> glob (CHR ''*'' # p) (u @ v)"
  by (induction u) auto

lemma glob_star_suffix: "glob (CHR ''*'' # p) v \<longleftrightarrow> (\<exists>u w. v = u @ w \<and> glob p w)"
proof
  show "glob (CHR ''*'' # p) v \<Longrightarrow> \<exists>u w. v = u @ w \<and> glob p w"
  proof (induction v)
    case Nil
    then show ?case by simp
  next
    case (Cons x v)
    show ?case
    proof (cases "glob p (x # v)")
      case True
      then show ?thesis by (intro exI [of _ "[]"] exI [of _ "x # v"]) simp
    next
      case False
      with Cons obtain u w where "v = u @ w" "glob p w" by auto
      then show ?thesis by (intro exI [of _ "x # u"] exI [of _ w]) simp
    qed
  qed
next
  show "\<exists>u w. v = u @ w \<and> glob p w \<Longrightarrow> glob (CHR ''*'' # p) v"
    using glob_starI glob_star_append by blast
qed

lemma glob_segment:
  "glob (seg @ ps) u \<Longrightarrow> CHR ''*'' \<notin> set seg \<Longrightarrow>
     \<exists>u1 u2. u = u1 @ u2 \<and> length u1 = length seg \<and> glob ps u2"
proof (induction seg arbitrary: u)
  case Nil
  then show ?case by simp
next
  case (Cons c seg)
  then obtain x v where u: "u = x # v" by (cases u) auto
  with Cons.prems have "glob (seg @ ps) v" by auto
  moreover have "CHR ''*'' \<notin> set seg" using Cons.prems(2) by simp
  ultimately obtain u1 u2 where "v = u1 @ u2" "length u1 = length seg" "glob ps u2"
    using Cons.IH [of v] by blast
  with u show ?case by (intro exI [of _ "x # u1"] exI [of _ u2]) simp
qed

lemma lit_match_length: "lit_match seg w \<Longrightarrow> length seg = length w"
  by (auto simp: lit_match_def dest: list_all2_lengthD)

lemma lit_match_snoc:
  "lit_match seg w \<Longrightarrow> c \<noteq> CHR ''*'' \<Longrightarrow> c = CHR ''?'' \<or> c = x \<Longrightarrow> lit_match (seg @ [c]) (w @ [x])"
  by (auto simp: lit_match_def intro: list_all2_appendI)

text \<open>
  The remembered star becomes superfluous once a later star is reached: whatever the old
  one could match further right, the new one can absorb.
\<close>

lemma glob_star_supersedes:
  assumes lm: "lit_match seg w" and g: "glob (CHR ''*'' # seg @ CHR ''*'' # ps) (tl (w @ vs))"
  shows "glob (CHR ''*'' # ps) vs"
proof -
  from g obtain u0 u where u: "tl (w @ vs) = u0 @ u" and gu: "glob (seg @ CHR ''*'' # ps) u"
    unfolding glob_star_suffix by blast
  from glob_segment [OF gu] lm obtain u1 u2
    where u12: "u = u1 @ u2" "length u1 = length seg" and g2: "glob (CHR ''*'' # ps) u2"
    by (auto simp: lit_match_def)
  have len: "length u2 \<le> length vs"
    using arg_cong [OF u, of length] u12 lit_match_length [OF lm] by simp
  have "tl (w @ vs) = (u0 @ u1) @ u2" using u u12 by simp
  then have "suffix u2 (tl (w @ vs))" by (metis suffixI)
  moreover have "suffix (tl (w @ vs)) (w @ vs)" by (rule suffix_tl)
  ultimately have "suffix u2 (w @ vs)" by (rule suffix_order.trans)
  moreover have "suffix vs (w @ vs)" by (simp add: suffixI)
  ultimately have "suffix u2 vs" using len by (metis suffix_length_suffix)
  then obtain z where "vs = z @ u2" by (auto elim: suffixE)
  with g2 show ?thesis by (simp add: glob_star_append)
qed

lemma glob_exhausted:
  assumes lm: "lit_match seg w" and g: "glob (CHR ''*'' # seg @ ps) (tl w)" and ne: "w \<noteq> []"
  shows False
proof -
  from g obtain u0 u where u: "tl w = u0 @ u" and gu: "glob (seg @ ps) u"
    unfolding glob_star_suffix by blast
  from glob_segment [OF gu] lm obtain u1 u2 where "u = u1 @ u2" "length u1 = length seg"
    by (auto simp: lit_match_def)
  with u ne lit_match_length [OF lm] arg_cong [OF u, of length] show False
    by (cases w) auto
qed

definition star_state :: "string \<Rightarrow> string \<Rightarrow> (string \<times> string) option \<Rightarrow> bool" where
  "star_state ps vs star \<longleftrightarrow>
     (case star of None \<Rightarrow> True
      | Some (sp, sv) \<Rightarrow> \<exists>seg w. sp = seg @ ps \<and> sv = w @ vs \<and> lit_match seg w)"

definition later_match :: "(string \<times> string) option \<Rightarrow> bool" where
  "later_match star \<longleftrightarrow>
     (case star of None \<Rightarrow> False | Some (sp, sv) \<Rightarrow> sv \<noteq> [] \<and> glob (CHR ''*'' # sp) (tl sv))"

lemma star_state_fresh: "star_state ps vs (Some (ps, vs))"
  by (auto simp: star_state_def lit_match_def)

lemma star_state_lit:
  assumes "star_state (c # ps) (x # vs) star" and "c \<noteq> CHR ''*''" and "c = CHR ''?'' \<or> c = x"
  shows "star_state ps vs star"
proof (cases star)
  case None
  then show ?thesis by (simp add: star_state_def)
next
  case (Some st)
  obtain sp sv where st: "st = (sp, sv)" by (cases st)
  with Some assms obtain seg w where "sp = seg @ c # ps" "sv = w @ x # vs" "lit_match seg w"
    by (auto simp: star_state_def)
  then have "sp = (seg @ [c]) @ ps" "sv = (w @ [x]) @ vs" "lit_match (seg @ [c]) (w @ [x])"
    using lit_match_snoc assms(2,3) by auto
  with Some st show ?thesis unfolding star_state_def by auto
qed

lemma later_match_new_star:
  assumes "star_state (CHR ''*'' # ps) vs star" and "later_match star"
  shows "glob (CHR ''*'' # ps) vs"
  using assms by (auto simp: star_state_def later_match_def split: option.splits
      intro: glob_star_supersedes)

lemma later_match_end: "star_state ps [] star \<Longrightarrow> \<not> later_match star"
  by (auto simp: star_state_def later_match_def split: option.splits dest: glob_exhausted)

lemma later_match_backtrack:
  "sv \<noteq> [] \<Longrightarrow> later_match (Some (sp, sv)) \<longleftrightarrow> glob sp (tl sv) \<or> later_match (Some (sp, tl sv))"
  by (cases "tl sv") (auto simp: later_match_def intro: glob_starI)

lemma star_state_nonempty: "star_state ps (x # vs) (Some (sp, sv)) \<Longrightarrow> sv \<noteq> []"
  by (auto simp: star_state_def)

lemma glob_loop_correct:
  assumes "star_state ps vs star" and "CHR ''*'' \<notin> set vs"
    and "\<And>sp sv. star = Some (sp, sv) \<Longrightarrow> CHR ''*'' \<notin> set sv"
  shows "glob_loop ps vs star \<longleftrightarrow> glob ps vs \<or> later_match star"
  using assms
proof (induction ps vs star rule: glob_loop.induct)
  case (1 ps star)
  then show ?case by (simp add: glob_Nil_iff later_match_end)
next
  case (2 ps x vs star)
  consider (lit) c ps' where "ps = c # ps'" "c = x \<or> c = CHR ''?''"
    | (star) ps' where "ps = CHR ''*'' # ps'" "x \<noteq> CHR ''*''"
    | (mis) "\<not> (ps \<noteq> [] \<and> (hd ps = x \<or> hd ps = CHR ''?''))" "\<not> (ps \<noteq> [] \<and> hd ps = CHR ''*'')"
    using "2.prems"(2) by (cases ps) auto
  then show ?case
  proof cases
    case lit
    with "2.prems"(2) have c: "c \<noteq> CHR ''*''" by auto
    with lit "2.prems"(1) have "star_state ps' vs star" by (auto intro: star_state_lit)
    moreover have "CHR ''*'' \<notin> set vs" using "2.prems"(2) by simp
    ultimately have "glob_loop ps' vs star \<longleftrightarrow> glob ps' vs \<or> later_match star"
      using "2.IH"(1) "2.prems"(3) lit by simp
    with lit c show ?thesis by auto
  next
    case star
    have "glob_loop ps (x # vs) star = glob_loop ps' (x # vs) (Some (ps', x # vs))"
      using star by simp
    also have "\<dots> \<longleftrightarrow> glob ps' (x # vs) \<or> later_match (Some (ps', x # vs))"
    proof -
      have "\<not> (ps \<noteq> [] \<and> (hd ps = x \<or> hd ps = CHR ''?''))" "ps \<noteq> [] \<and> hd ps = CHR ''*''"
        using star by auto
      from "2.IH"(2) [OF this] star "2.prems"(2) show ?thesis by (simp add: star_state_fresh)
    qed
    also have "\<dots> \<longleftrightarrow> glob ps (x # vs)"
      using star by (simp add: later_match_def)
    finally show ?thesis using later_match_new_star star "2.prems"(1) by blast
  next
    case mis
    then have ng: "\<not> glob ps (x # vs)" by (cases ps) auto
    have step: "glob_loop ps (x # vs) star =
        (case star of Some (sp, sv) \<Rightarrow> glob_loop sp (tl sv) (Some (sp, tl sv)) | None \<Rightarrow> False)"
      by (subst glob_loop.simps(2), subst if_not_P [OF mis(1)], subst if_not_P [OF mis(2)]) (rule refl)
    show ?thesis
    proof (cases star)
      case None
      with step ng show ?thesis by (simp only: later_match_def option.case simp_thms)
    next
      case (Some st)
      obtain sp sv where st: "st = (sp, sv)" by (cases st)
      with Some "2.prems"(1) have ne: "sv \<noteq> []" by (simp add: star_state_nonempty)
      have "CHR ''*'' \<notin> set (tl sv)" using "2.prems"(3) Some st ne by (auto dest: list.set_sel(2))
      then have
        "glob_loop sp (tl sv) (Some (sp, tl sv)) \<longleftrightarrow> glob sp (tl sv) \<or> later_match (Some (sp, tl sv))"
        using "2.IH"(3) [OF mis Some st [symmetric]] by (simp add: star_state_fresh)
      with step later_match_backtrack [OF ne, of sp] ng Some st show ?thesis
        by (simp only: option.case prod.case simp_thms)
    qed
  qed
qed

lemma glob_match_correct: "CHR ''*'' \<notin> set value \<Longrightarrow> glob_match pattern value \<longleftrightarrow> glob pattern value"
  using glob_loop_correct [of pattern "value" None]
  by (simp add: glob_match_def star_state_def later_match_def)

text \<open>
  C7. Wildcard matching is correct: on every value that does not itself contain a star, the
  backtracking scan of \<open>glob_match\<close> returns exactly what the recursive reading of the
  pattern says (a star matches any sequence, a question mark any character).
\<close>

theorem glob_match_decides_glob:
  assumes "CHR ''*'' \<notin> set value"
  shows "glob_match pattern value = glob pattern value"
  using assms by (rule glob_match_correct)

theorem glob_match_decides_glob_witness:
  "glob_match ''*.tar.g?'' ''a.tar.tar.gz'' = glob ''*.tar.g?'' ''a.tar.tar.gz''
   \<and> glob ''*.tar.g?'' ''a.tar.tar.gz''"
  using glob_match_decides_glob [of "''a.tar.tar.gz''" "''*.tar.g?''"] by simp

lemma glob_prefix_star: "glob (p @ ''*'') (p @ s)"
proof (induction p)
  case Nil
  have "glob ''*'' s" by (induction s) auto
  then show ?case by simp
next
  case (Cons c p)
  then show ?case by (auto intro: glob_starI)
qed

text \<open>
  On a value that has a star where the pattern has its trailing star, the scan consumes both
  as equal characters and never records a star to fall back on.
\<close>

lemma glob_loop_literal: "CHR ''*'' \<notin> set p \<Longrightarrow> glob_loop (p @ q) (p @ v) None = glob_loop q v None"
  by (induction p) auto

lemma glob_match_star_value:
  "CHR ''*'' \<notin> set p \<Longrightarrow> \<not> glob_match (p @ ''*'') (p @ CHR ''*'' # x # s)"
  by (simp add: glob_match_def glob_loop_literal)

end
