(* ===== verification/Types.thy ===== *)
theory Types
  imports Prelude
begin

text \<open>
  The data model of \<open>crates/maxio-storage/src/lib.rs\<close>: the metadata records that are
  written beside every bucket and object, the storage error type, bucket name validation
  and the object-lock test. Field names carry a short record prefix (\<open>bm_\<close> bucket,
  \<open>om_\<close> object, \<open>em_\<close> encryption, \<open>um_\<close> upload, \<open>pm_\<close> part, \<open>cm_\<close> manifest, \<open>ci_\<close> chunk),
  since the source reuses names across its structs.
\<close>

section \<open>Errors\<close>

datatype io_kind = NotFoundKind | AlreadyExistsKind | DirectoryNotEmptyKind
  | InvalidDataKind | UnexpectedEofKind | OtherKind

record io_error =
  io_kind :: io_kind
  io_msg :: string

definition io_other :: "string \<Rightarrow> io_error" where
  "io_other m = \<lparr>io_kind = OtherKind, io_msg = m\<rparr>"

datatype StorageError =
    Io io_error
  | Json string
  | NotFound string
  | BucketNotEmpty
  | InvalidKey string
  | UploadNotFound string
  | VersionNotFound string
  | ChecksumMismatch string
  | EncryptionError string
  | DecryptionError string
  | IntegrityError string
  | ObjectTooLarge nat
  | InsufficientStorage string
  | ObjectLocked string

section \<open>Enumerations and records\<close>

datatype ChecksumAlgorithm = CRC32 | CRC32C | SHA1 | SHA256

datatype ObjectLockMode = Governance | Compliance

datatype LegalHoldStatus = LegalHoldOn | LegalHoldOff

datatype EncryptionMode = SseS3 | SseC | SseKms

datatype ChunkKind = DataChunk | ParityChunk

record LifecycleRule =
  lr_id :: string
  lr_prefix :: string
  lr_expiration_days :: "nat option"
  lr_transition_days :: "nat option"
  lr_noncurrent_expiration_days :: "nat option"
  lr_enabled :: bool

record ObjectLockConfig =
  olc_enabled :: bool
  olc_default_retention_mode :: "ObjectLockMode option"
  olc_default_retention_days :: "nat option"

record ObjectLockRetention =
  olr_mode :: ObjectLockMode
  olr_retain_until_date :: string

record BucketNotificationConfig =
  bn_webhook_url :: string
  bn_events :: "string list"

record CorsRule =
  cr_allowed_origins :: "string list"
  cr_allowed_methods :: "string list"
  cr_allowed_headers :: "string list"
  cr_expose_headers :: "string list"
  cr_max_age_seconds :: "nat option"

record BucketEncryptionConfig =
  bec_sse_algorithm :: string
  bec_kms_key_id :: "string option"

record BucketMeta =
  bm_name :: string
  bm_created_at :: string
  bm_region :: string
  bm_versioning :: bool
  bm_cors_rules :: "CorsRule list option"
  bm_encryption_config :: "BucketEncryptionConfig option"
  bm_public_read :: bool
  bm_public_list :: bool
  bm_bucket_policy :: "string option"
  bm_erasure_coding :: "bool option"
  bm_lifecycle_rules :: "LifecycleRule list option"
  bm_tenant_id :: "string option"
  bm_logging_target_bucket :: "string option"
  bm_logging_target_prefix :: "string option"
  bm_notification_config :: "BucketNotificationConfig option"
  bm_object_lock_enabled :: bool
  bm_object_lock_config :: "ObjectLockConfig option"

record EncryptionMeta =
  em_algorithm :: string
  em_mode :: EncryptionMode
  em_key_id :: "string option"
  em_kms_key_id :: "string option"
  em_wrapped_dek :: "string option"
  em_wrap_nonce :: "string option"
  em_customer_key_md5 :: "string option"
  em_nonce_prefix :: string
  em_chunk_size :: nat
  em_sidecar_mac :: string

record ObjectMeta =
  om_key :: string
  om_size :: nat
  om_etag :: string
  om_content_type :: string
  om_last_modified :: string
  om_version_id :: "string option"
  om_is_delete_marker :: bool
  om_storage_format :: "string option"
  om_checksum_algorithm :: "ChecksumAlgorithm option"
  om_checksum_value :: "string option"
  om_tags :: "(string \<times> string) list option"
  om_part_sizes :: "nat list option"
  om_encryption :: "EncryptionMeta option"
  om_object_lock_mode :: "ObjectLockMode option"
  om_retain_until_date :: "string option"
  om_legal_hold_status :: "LegalHoldStatus option"

record UploadEncryptionSpec =
  ue_mode :: EncryptionMode
  ue_customer_key_md5 :: "string option"
  ue_upload_dek_wrapped :: "string option"
  ue_upload_dek_wrap_nonce :: "string option"
  ue_upload_dek_key_id :: "string option"
  ue_kms_key_id :: "string option"
  ue_upload_nonce_prefix :: string

record MultipartUploadMeta =
  um_upload_id :: string
  um_bucket :: string
  um_key :: string
  um_content_type :: string
  um_initiated :: string
  um_checksum_algorithm :: "ChecksumAlgorithm option"
  um_encryption_spec :: "UploadEncryptionSpec option"

record PartMeta =
  pm_part_number :: nat
  pm_etag :: string
  pm_size :: nat
  pm_last_modified :: string
  pm_checksum_algorithm :: "ChecksumAlgorithm option"
  pm_checksum_value :: "string option"
  pm_encrypted :: bool
  pm_ciphertext_size :: "nat option"

record ChunkInfo =
  ci_index :: nat
  ci_size :: nat
  ci_sha256 :: string
  ci_kind :: ChunkKind

record ChunkManifest =
  cm_version :: nat
  cm_total_size :: nat
  cm_chunk_size :: nat
  cm_chunk_count :: nat
  cm_chunks :: "ChunkInfo list"
  cm_parity_shards :: "nat option"
  cm_shard_size :: "nat option"
  cm_plaintext_size :: "nat option"

text \<open>A customer key is 32 bytes; \<open>Zeroizing\<close> only affects what is left in memory.\<close>

record EncryptionRequest =
  er_mode :: EncryptionMode
  er_customer_key :: "bytes option"
  er_kms_key_id :: "string option"

definition sse_s3 :: EncryptionRequest where
  "sse_s3 = \<lparr>er_mode = SseS3, er_customer_key = None, er_kms_key_id = None\<rparr>"

definition sse_c :: "bytes \<Rightarrow> EncryptionRequest" where
  "sse_c key = \<lparr>er_mode = SseC, er_customer_key = Some key, er_kms_key_id = None\<rparr>"

definition sse_kms :: "string option \<Rightarrow> EncryptionRequest" where
  "sse_kms kid = \<lparr>er_mode = SseKms, er_customer_key = None, er_kms_key_id = kid\<rparr>"

section \<open>Checksum algorithm names\<close>

fun header_name :: "ChecksumAlgorithm \<Rightarrow> string" where
  "header_name CRC32 = ''x-amz-checksum-crc32''"
| "header_name CRC32C = ''x-amz-checksum-crc32c''"
| "header_name SHA1 = ''x-amz-checksum-sha1''"
| "header_name SHA256 = ''x-amz-checksum-sha256''"

definition ascii_upper :: "char \<Rightarrow> char" where
  "ascii_upper c = (if is_ascii_lowercase c then char_of ((of_char c :: nat) - 32) else c)"

definition from_header_str :: "string \<Rightarrow> ChecksumAlgorithm option" where
  "from_header_str s =
     (let u = map ascii_upper s
      in if u = ''CRC32'' then Some CRC32
         else if u = ''CRC32C'' then Some CRC32C
         else if u = ''SHA1'' then Some SHA1
         else if u = ''SHA256'' then Some SHA256
         else None)"

section \<open>Object lock\<close>

text \<open>
  \<open>rfc3339\<close> stands for \<open>chrono::DateTime::parse_from_rfc3339\<close>, \<open>now\<close> for
  \<open>chrono::Utc::now()\<close>; both as instants on one time line.
\<close>

definition is_object_protected :: "(string \<Rightarrow> int option) \<Rightarrow> int \<Rightarrow> ObjectMeta \<Rightarrow> bool" where
  "is_object_protected rfc3339 now meta =
     (if om_legal_hold_status meta = Some LegalHoldOn then True
      else (case om_retain_until_date meta of
              None \<Rightarrow> False
            | Some until \<Rightarrow> (case rfc3339 until of
                               None \<Rightarrow> False
                             | Some dt \<Rightarrow> if now < dt then True else False)))"

section \<open>Bucket names\<close>

definition is_valid_bucket_name :: "string \<Rightarrow> bool" where
  "is_valid_bucket_name name =
     (if length name < 3 \<or> length name > 63 then False
      else if \<not> list_all (\<lambda>c. is_ascii_lowercase c \<or> is_ascii_digit c \<or> c = CHR ''-'' \<or> c = CHR ''.'') name
      then False
      else if \<not> is_ascii_alphanumeric (hd name) \<or> \<not> is_ascii_alphanumeric (last name) then False
      else if contains_str name ''..'' \<or> contains_str name ''.-'' \<or> contains_str name ''-.'' then False
      else (let parts = split_on CHR ''.'' name
            in if length parts = 4 \<and> list_all (\<lambda>p. parse_u8 p \<noteq> None) parts then False else True))"

definition validate_bucket_name :: "string \<Rightarrow> StorageError + unit" where
  "validate_bucket_name name =
     (if is_valid_bucket_name name then Inr ()
      else Inl (InvalidKey (''invalid bucket name: '' @ name)))"

lemma valid_bucket_name_chars:
  assumes "is_valid_bucket_name b" and "c \<in> set b"
  shows "is_ascii_lowercase c \<or> is_ascii_digit c \<or> c = CHR ''-'' \<or> c = CHR ''.''"
  using assms by (auto simp: is_valid_bucket_name_def list_all_iff split: if_splits)

lemma valid_bucket_name_hd:
  assumes "is_valid_bucket_name b"
  shows "b \<noteq> [] \<and> is_ascii_alphanumeric (hd b)"
  using assms by (auto simp: is_valid_bucket_name_def split: if_splits)

lemma not_alnum_dot: "\<not> is_ascii_alphanumeric CHR ''.''"
  by (simp add: is_ascii_alphanumeric_def is_ascii_lowercase_def is_ascii_uppercase_def is_ascii_digit_def)

text \<open>The bucket record every creation path starts from.\<close>

definition new_bucket_meta :: "string \<Rightarrow> string \<Rightarrow> string \<Rightarrow> BucketMeta" where
  "new_bucket_meta name created_at region =
     \<lparr>bm_name = name, bm_created_at = created_at, bm_region = region, bm_versioning = False,
      bm_cors_rules = None, bm_encryption_config = None, bm_public_read = False,
      bm_public_list = False, bm_bucket_policy = None, bm_erasure_coding = None,
      bm_lifecycle_rules = None, bm_tenant_id = None, bm_logging_target_bucket = None,
      bm_logging_target_prefix = None, bm_notification_config = None,
      bm_object_lock_enabled = False, bm_object_lock_config = None\<rparr>"

text \<open>
  The buckets that \<open>provision_default_buckets\<close> asks the backend to create, in order: the
  comma-separated names, trimmed, without the empty and the invalid ones.
\<close>

definition default_bucket_requests :: "string \<Rightarrow> string \<Rightarrow> string \<Rightarrow> BucketMeta list" where
  "default_bucket_requests now default_buckets region =
     (if default_buckets = [] then []
      else map (\<lambda>n. new_bucket_meta n now region)
             (filter is_valid_bucket_name
                (filter (\<lambda>n. n \<noteq> []) (map trim (split_on CHR '','' default_buckets)))))"

end
