(* ===== verification/Policy.thy ===== *)
theory Policy
  imports Glob Types
begin

text \<open>
  Bucket policies (\<open>policy.rs\<close>): the document types, the v1 public flags, validation of a
  v2 document and its evaluation for a request, with the condition operators and the
  address parser and CIDR test they use.

  \<open>serde_json::from_str::<BucketPolicy>\<close> is the parameter \<open>de\<close> of the operations that parse
  a document; its left values are serde's message. JSON values inside a document keep their
  structure; \<open>serde_json::Map\<close> is an association list with distinct keys in key order. A
  panic is \<^const>\<open>None\<close>.
\<close>

section \<open>Documents, requests and decisions\<close>

datatype json =
    JNull
  | JBool bool
  | JNumber string
  | JString string
  | JArray "json list"
  | JObject "(string \<times> json) list"

fun as_str :: "json \<Rightarrow> string option" where
  "as_str (JString s) = Some s"
| "as_str _ = None"

fun as_object :: "json \<Rightarrow> (string \<times> json) list option" where
  "as_object (JObject m) = Some m"
| "as_object _ = None"

record PolicyEffects =
  pe_public_read :: bool
  pe_public_list :: bool

datatype PolicyDecision = Allow | Deny | ImplicitDeny

record PolicyContext =
  pc_principal_access_key :: "string option"
  pc_source_ip :: "string option"
  pc_is_anonymous :: bool
  pc_jwt_groups :: "string list"
  pc_jwt_roles :: "string list"
  pc_oidc_claims :: "(string \<times> json) list option"

record PolicyRequest =
  pr_action :: string
  pr_bucket :: string
  pr_object_key :: "string option"
  pr_list_prefix :: "string option"

datatype PolicyActions = OneAction string | ManyActions "string list"

datatype PolicyResources = OneResource string | ManyResources "string list"

record PolicyStatement =
  st_effect :: string
  st_principal :: json
  st_action :: PolicyActions
  st_resource :: PolicyResources
  st_condition :: "json option"

record BucketPolicy =
  bp_version :: string
  bp_statement :: "PolicyStatement list"

definition SUPPORTED_ACTIONS :: "string list" where
  "SUPPORTED_ACTIONS =
     [''s3:GetObject'', ''s3:PutObject'', ''s3:DeleteObject'', ''s3:ListBucket'', ''s3:*'']"

definition CONDITION_OPERATORS :: "string list" where
  "CONDITION_OPERATORS = [''StringEquals'', ''StringLike'', ''IpAddress'']"

section \<open>Principals, actions and resources\<close>

fun principal_is_wildcard :: "json \<Rightarrow> bool" where
  "principal_is_wildcard (JString s) = (s = ''*'')"
| "principal_is_wildcard (JObject m) =
     (case map_of m ''AWS'' of
        Some (JString s) \<Rightarrow> s = ''*''
      | Some (JArray arr) \<Rightarrow> list_ex (\<lambda>x. as_str x = Some ''*'') arr
      | _ \<Rightarrow> False)"
| "principal_is_wildcard _ = False"

fun principal_arns :: "json \<Rightarrow> string list" where
  "principal_arns (JString s) = (if s \<noteq> ''*'' then [s] else [])"
| "principal_arns (JObject m) =
     (case map_of m ''AWS'' of
        Some (JString s) \<Rightarrow> if s \<noteq> ''*'' then [s] else []
      | Some (JArray arr) \<Rightarrow> filter (\<lambda>s. s \<noteq> ''*'') (List.map_filter as_str arr)
      | _ \<Rightarrow> [])"
| "principal_arns _ = []"

definition access_key_from_principal_arn :: "string \<Rightarrow> string option" where
  "access_key_from_principal_arn arn =
     (case rsplit_once '':user/'' arn of
        None \<Rightarrow> None
      | Some (_, suf) \<Rightarrow> if suf = [] then None else Some suf)"

definition principal_matches :: "json \<Rightarrow> PolicyContext \<Rightarrow> bool" where
  "principal_matches prin ctx =
     (if principal_is_wildcard prin then True
      else (case pc_principal_access_key ctx of
              None \<Rightarrow> False
            | Some access_key \<Rightarrow>
                list_ex (\<lambda>arn. access_key_from_principal_arn arn = Some access_key)
                  (principal_arns prin)))"

definition normalize_action :: "string \<Rightarrow> string" where
  "normalize_action act =
     (case split_once CHR '':'' act of
        Some (service, rest) \<Rightarrow> if eq_ignore_ascii_case service ''s3'' then ''s3:'' @ rest else act
      | None \<Rightarrow> act)"

fun actions_list :: "PolicyActions \<Rightarrow> string list" where
  "actions_list (OneAction s) = [s]"
| "actions_list (ManyActions v) = v"

fun resources_list :: "PolicyResources \<Rightarrow> string list" where
  "resources_list (OneResource s) = [s]"
| "resources_list (ManyResources v) = v"

definition actions_match :: "PolicyActions \<Rightarrow> string \<Rightarrow> bool" where
  "actions_match actions requested =
     (let requested = normalize_action requested
      in list_ex (\<lambda>raw. let act = normalize_action raw in act = ''s3:*'' \<or> act = requested)
           (actions_list actions))"

definition resource_matches :: "string \<Rightarrow> string \<Rightarrow> bool" where
  "resource_matches res expected \<longleftrightarrow> res = expected \<or> res = ''*''"

definition any_resource :: "PolicyResources \<Rightarrow> string \<Rightarrow> bool" where
  "any_resource resources expected =
     (case resources of
        OneResource s \<Rightarrow> resource_matches s expected
      | ManyResources v \<Rightarrow> list_ex (\<lambda>s. resource_matches s expected) v)"

definition resource_pattern_matches :: "string \<Rightarrow> string \<Rightarrow> string \<Rightarrow> bool" where
  "resource_pattern_matches pattern target bucket_arn =
     (if pattern = ''*'' \<or> pattern = target then True
      else if CHR ''*'' \<in> set pattern \<or> CHR ''?'' \<in> set pattern then glob_match pattern target
      else pattern = bucket_arn \<and> starts_with target bucket_arn)"

definition resource_matches_request ::
  "PolicyResources \<Rightarrow> PolicyRequest \<Rightarrow> string \<Rightarrow> string \<Rightarrow> bool" where
  "resource_matches_request resources req bucket_arn object_arn =
     (let target = (if pr_action req = ''s3:ListBucket'' then bucket_arn else object_arn)
      in list_ex (\<lambda>pattern. resource_pattern_matches pattern target bucket_arn)
           (resources_list resources))"

section \<open>Parsing addresses\<close>

text \<open>
  \<open>IpAddr\<close> is kept as its octets, 4 or 16 of them. The parser is that of \<open>core::net\<close>: a
  number is read greedily with a limit on its digits, an octet has no leading zero, an
  IPv6 address is eight groups, or fewer with one \<open>::\<close>, the last two possibly in IPv4 form.
\<close>

datatype ip_addr = V4 bytes | V6 bytes

definition to_digit :: "nat \<Rightarrow> char \<Rightarrow> nat option" where
  "to_digit radix c =
     (let n = (of_char c :: nat);
          d = (if 48 \<le> n \<and> n \<le> 57 then Some (n - 48)
               else if 97 \<le> n \<and> n \<le> 122 then Some (n - 87)
               else if 65 \<le> n \<and> n \<le> 90 then Some (n - 55)
               else None)
      in case d of None \<Rightarrow> None | Some d \<Rightarrow> if d < radix then Some d else None)"

fun digit_run :: "nat \<Rightarrow> string \<Rightarrow> nat list \<times> string" where
  "digit_run radix [] = ([], [])"
| "digit_run radix (c # cs) =
     (case to_digit radix c of
        None \<Rightarrow> ([], c # cs)
      | Some d \<Rightarrow> (let (ds, rest) = digit_run radix cs in (d # ds, rest)))"

definition read_number :: "nat \<Rightarrow> nat \<Rightarrow> bool \<Rightarrow> nat \<Rightarrow> string \<Rightarrow> (nat \<times> string) option" where
  "read_number radix max_digits allow_zero_prefix bound s =
     (let (ds, rest) = digit_run radix s; n = foldl (\<lambda>a d. a * radix + d) 0 ds
      in if ds = [] \<or> max_digits < length ds then None
         else if \<not> allow_zero_prefix \<and> hd ds = 0 \<and> 1 < length ds then None
         else if n < bound then Some (n, rest) else None)"

fun read_given_char :: "char \<Rightarrow> string \<Rightarrow> string option" where
  "read_given_char c (x # xs) = (if x = c then Some xs else None)"
| "read_given_char c [] = None"

definition read_separator ::
  "char \<Rightarrow> nat \<Rightarrow> (string \<Rightarrow> ('a \<times> string) option) \<Rightarrow> string \<Rightarrow> ('a \<times> string) option" where
  "read_separator sep i p s =
     (if 0 < i then (case read_given_char sep s of None \<Rightarrow> None | Some s' \<Rightarrow> p s') else p s)"

fun read_octets :: "nat \<Rightarrow> nat \<Rightarrow> string \<Rightarrow> (bytes \<times> string) option" where
  "read_octets 0 i s = Some ([], s)"
| "read_octets (Suc k) i s =
     (case read_separator CHR ''.'' i (read_number 10 3 False 256) s of
        None \<Rightarrow> None
      | Some (n, s') \<Rightarrow> (case read_octets k (Suc i) s' of
                           None \<Rightarrow> None
                         | Some (os, s'') \<Rightarrow> Some (of_nat n # os, s'')))"

definition read_ipv4_addr :: "string \<Rightarrow> (bytes \<times> string) option" where
  "read_ipv4_addr s = read_octets 4 0 s"

text \<open>
  \<open>read_groups\<close> returns the octets read, two per group, and whether they end in an IPv4
  part. Its first argument is the number of groups that still fit, \<open>i\<close> the group's index.
\<close>

fun read_groups :: "nat \<Rightarrow> nat \<Rightarrow> string \<Rightarrow> bytes \<times> bool \<times> string" where
  "read_groups 0 i s = ([], False, s)"
| "read_groups (Suc k) i s =
     (case (if 0 < k then read_separator CHR '':'' i read_ipv4_addr s else None) of
        Some (os, s') \<Rightarrow> (os, True, s')
      | None \<Rightarrow>
          (case read_separator CHR '':'' i (read_number 16 4 True 65536) s of
             None \<Rightarrow> ([], False, s)
           | Some (g, s') \<Rightarrow>
               (let (os, v4, s'') = read_groups k (Suc i) s'
                in (of_nat (g div 256) # of_nat (g mod 256) # os, v4, s''))))"

definition read_ipv6_addr :: "string \<Rightarrow> (bytes \<times> string) option" where
  "read_ipv6_addr s =
     (let (hd_os, v4, s1) = read_groups 8 0 s
      in if length hd_os = 16 then Some (hd_os, s1)
         else if v4 then None
         else (case read_given_char CHR '':'' s1 of
                 None \<Rightarrow> None
               | Some s2 \<Rightarrow>
                   (case read_given_char CHR '':'' s2 of
                      None \<Rightarrow> None
                    | Some s3 \<Rightarrow>
                        (let (tl_os, _, s4) = read_groups (8 - (length hd_os div 2 + 1)) 0 s3
                         in Some (hd_os @ replicate (16 - length hd_os - length tl_os) 0 @ tl_os, s4)))))"

definition parse_ip :: "string \<Rightarrow> ip_addr option" where
  "parse_ip s =
     (case read_ipv4_addr s of
        Some (os, rest) \<Rightarrow> if rest = [] then Some (V4 os) else None
      | None \<Rightarrow> (case read_ipv6_addr s of
                   Some (os, rest) \<Rightarrow> if rest = [] then Some (V6 os) else None
                 | None \<Rightarrow> None))"

section \<open>CIDR blocks\<close>

unbundle bit_operations_syntax

definition be_u32 :: "bytes \<Rightarrow> 32 word" where
  "be_u32 os = foldl (\<lambda>a b. push_bit 8 a OR ucast b) 0 os"

definition v4_mask :: "nat \<Rightarrow> 32 word" where
  "v4_mask prefix_len =
     (if 32 \<le> prefix_len then - 1 else if prefix_len = 0 then 0 else push_bit (32 - prefix_len) (- 1))"

fun ip_in_network :: "ip_addr \<Rightarrow> ip_addr \<Rightarrow> nat \<Rightarrow> bool option" where
  "ip_in_network (V4 addr) (V4 net) prefix_len =
     (let mask = v4_mask prefix_len in Some (be_u32 net AND mask = be_u32 addr AND mask))"
| "ip_in_network (V6 addr) (V6 net) prefix_len =
     (let full_bytes = prefix_len div 8; remainder = prefix_len mod 8
      in if 16 < full_bytes then None
         else if take full_bytes net \<noteq> take full_bytes addr then Some False
         else if remainder = 0 then Some True
         else if 16 \<le> full_bytes then None
         else (let mask = push_bit (8 - remainder) (0xff :: u8)
               in Some (net ! full_bytes AND mask = addr ! full_bytes AND mask)))"
| "ip_in_network _ _ prefix_len = Some False"

definition ip_matches_cidr :: "string \<Rightarrow> string \<Rightarrow> bool option" where
  "ip_matches_cidr ip cidr =
     (case parse_ip ip of
        None \<Rightarrow> Some False
      | Some addr \<Rightarrow>
          (case split_once CHR ''/'' cidr of
             Some (network, pre) \<Rightarrow>
               (case parse_ip network of
                  None \<Rightarrow> Some False
                | Some net_addr \<Rightarrow>
                    (case parse_u8 pre of
                       None \<Rightarrow> Some False
                     | Some prefix_len \<Rightarrow> ip_in_network addr net_addr prefix_len))
           | None \<Rightarrow> Some (ip = cidr)))"

section \<open>Conditions\<close>

fun condition_values :: "json \<Rightarrow> string list" where
  "condition_values (JString s) = [s]"
| "condition_values (JArray arr) = List.map_filter as_str arr"
| "condition_values _ = []"

definition string_condition :: "string \<Rightarrow> string \<Rightarrow> string \<Rightarrow> bool" where
  "string_condition operator pattern value =
     (if eq_ignore_ascii_case operator ''StringEquals'' then value = pattern
      else if eq_ignore_ascii_case operator ''StringLike'' then glob_match pattern value
      else False)"

definition jwt_claim_condition_matches :: "string \<Rightarrow> json \<Rightarrow> string list \<Rightarrow> bool" where
  "jwt_claim_condition_matches operator expected actual =
     list_ex (\<lambda>pattern. list_ex (string_condition operator pattern) actual) (condition_values expected)"

definition request_prefix :: "PolicyRequest \<Rightarrow> string" where
  "request_prefix req =
     (case pr_list_prefix req of
        Some p \<Rightarrow> p
      | None \<Rightarrow> (case pr_object_key req of Some k \<Rightarrow> k | None \<Rightarrow> []))"

definition condition_key_matches ::
  "string \<Rightarrow> string \<Rightarrow> json \<Rightarrow> PolicyRequest \<Rightarrow> PolicyContext \<Rightarrow> bool option" where
  "condition_key_matches operator key expected req ctx =
     (if key = ''aws:SourceIp'' \<and> eq_ignore_ascii_case operator ''IpAddress'' then
        (case pc_source_ip ctx of
           None \<Rightarrow> Some False
         | Some ip \<Rightarrow> any_opt (ip_matches_cidr ip) (condition_values expected))
      else if key = ''s3:prefix'' then
        Some (list_ex (\<lambda>pattern. string_condition operator pattern (request_prefix req))
                (condition_values expected))
      else if key = ''jwt:groups'' then
        Some (jwt_claim_condition_matches operator expected (pc_jwt_groups ctx))
      else if key = ''jwt:roles'' then
        Some (jwt_claim_condition_matches operator expected (pc_jwt_roles ctx))
      else Some False)"

fun condition_keys_match ::
  "string \<Rightarrow> (string \<times> json) list \<Rightarrow> PolicyRequest \<Rightarrow> PolicyContext \<Rightarrow> bool option" where
  "condition_keys_match operator [] req ctx = Some True"
| "condition_keys_match operator ((key, expected) # ks) req ctx =
     (case condition_key_matches operator key expected req ctx of
        None \<Rightarrow> None
      | Some False \<Rightarrow> Some False
      | Some True \<Rightarrow> condition_keys_match operator ks req ctx)"

fun condition_operators_match ::
  "(string \<times> json) list \<Rightarrow> PolicyRequest \<Rightarrow> PolicyContext \<Rightarrow> bool option" where
  "condition_operators_match [] req ctx = Some True"
| "condition_operators_match ((operator, body) # ops) req ctx =
     (case as_object body of
        None \<Rightarrow> Some False
      | Some ks \<Rightarrow> (case condition_keys_match operator ks req ctx of
                      None \<Rightarrow> None
                    | Some False \<Rightarrow> Some False
                    | Some True \<Rightarrow> condition_operators_match ops req ctx))"

definition conditions_match :: "json \<Rightarrow> PolicyRequest \<Rightarrow> PolicyContext \<Rightarrow> bool option" where
  "conditions_match condition req ctx =
     (case as_object condition of
        None \<Rightarrow> Some False
      | Some obj \<Rightarrow> condition_operators_match obj req ctx)"

section \<open>Evaluation\<close>

definition statement_matches_request ::
  "PolicyStatement \<Rightarrow> PolicyRequest \<Rightarrow> string \<Rightarrow> string \<Rightarrow> PolicyContext \<Rightarrow> bool option" where
  "statement_matches_request stmt req bucket_arn object_arn ctx =
     (if \<not> principal_matches (st_principal stmt) ctx then Some False
      else if \<not> actions_match (st_action stmt) (pr_action req) then Some False
      else if \<not> resource_matches_request (st_resource stmt) req bucket_arn object_arn then Some False
      else (case st_condition stmt of
              None \<Rightarrow> Some True
            | Some cond \<Rightarrow> conditions_match cond req ctx))"

definition check_version :: "BucketPolicy \<Rightarrow> string + BucketPolicy" where
  "check_version policy =
     (if bp_version policy \<noteq> [] \<and> bp_version policy \<noteq> ''2012-10-17''
      then Inl (''MalformedPolicy: unsupported Version '' @ [CHR 0x27] @ bp_version policy @ [CHR 0x27]
                @ '', expected 2012-10-17'')
      else Inr policy)"

definition parse_policy :: "(string \<Rightarrow> string + BucketPolicy) \<Rightarrow> string \<Rightarrow> string + BucketPolicy" where
  "parse_policy de raw =
     (case de raw of
        Inl e \<Rightarrow> Inl (''MalformedPolicy: invalid JSON: '' @ e)
      | Inr policy \<Rightarrow> check_version policy)"

definition bucket_arn_of :: "string \<Rightarrow> string" where
  "bucket_arn_of bkt = ''arn:aws:s3:::'' @ bkt"

definition request_object_arn :: "PolicyRequest \<Rightarrow> string" where
  "request_object_arn req =
     (case pr_object_key req of
        Some key \<Rightarrow> ''arn:aws:s3:::'' @ pr_bucket req @ ''/'' @ key
      | None \<Rightarrow> ''arn:aws:s3:::'' @ pr_bucket req @ ''/'' @ ''*'')"

fun eval_statements ::
  "PolicyStatement list \<Rightarrow> PolicyRequest \<Rightarrow> string \<Rightarrow> string \<Rightarrow> PolicyContext \<Rightarrow> bool \<Rightarrow> bool
     \<Rightarrow> (string + bool \<times> bool) option" where
  "eval_statements [] req barn oarn ctx allow_match deny_match = Some (Inr (allow_match, deny_match))"
| "eval_statements (stmt # stmts) req barn oarn ctx allow_match deny_match =
     (case statement_matches_request stmt req barn oarn ctx of
        None \<Rightarrow> None
      | Some False \<Rightarrow> eval_statements stmts req barn oarn ctx allow_match deny_match
      | Some True \<Rightarrow>
          (if eq_ignore_ascii_case (st_effect stmt) ''Deny''
           then eval_statements stmts req barn oarn ctx allow_match True
           else if eq_ignore_ascii_case (st_effect stmt) ''Allow''
           then eval_statements stmts req barn oarn ctx True deny_match
           else Some (Inl (''MalformedPolicy: unsupported Effect '' @ [CHR 0x27] @ st_effect stmt @ [CHR 0x27]))))"

definition evaluate_policy_v2 ::
  "(string \<Rightarrow> string + BucketPolicy) \<Rightarrow> string \<Rightarrow> PolicyRequest \<Rightarrow> PolicyContext
     \<Rightarrow> (string + PolicyDecision) option" where
  "evaluate_policy_v2 de raw req ctx =
     (case parse_policy de raw of
        Inl e \<Rightarrow> Some (Inl e)
      | Inr policy \<Rightarrow>
          (case eval_statements (bp_statement policy) req (bucket_arn_of (pr_bucket req))
                  (request_object_arn req) ctx False False of
             None \<Rightarrow> None
           | Some (Inl e) \<Rightarrow> Some (Inl e)
           | Some (Inr (allow_match, deny_match)) \<Rightarrow>
               Some (Inr (if deny_match then Deny else if allow_match then Allow else ImplicitDeny))))"

section \<open>The v1 public flags\<close>

definition apply_action ::
  "string \<Rightarrow> string \<Rightarrow> PolicyStatement \<Rightarrow> string \<Rightarrow> PolicyEffects \<Rightarrow> string + PolicyEffects" where
  "apply_action bucket_arn object_arn stmt raw_action effects =
     (let act = normalize_action raw_action
      in if act = ''s3:GetObject'' then
           (if any_resource (st_resource stmt) object_arn then Inr (effects\<lparr>pe_public_read := True\<rparr>)
            else Inl (''MalformedPolicy: s3:GetObject requires Resource '' @ object_arn))
         else if act = ''s3:ListBucket'' then
           (if any_resource (st_resource stmt) bucket_arn then Inr (effects\<lparr>pe_public_list := True\<rparr>)
            else Inl (''MalformedPolicy: s3:ListBucket requires Resource '' @ bucket_arn))
         else Inl (''MalformedPolicy: unsupported Action '' @ [CHR 0x27] @ act @ [CHR 0x27]
                   @ '' in v1 (allowed: s3:GetObject, s3:ListBucket)''))"

fun apply_actions ::
  "string \<Rightarrow> string \<Rightarrow> PolicyStatement \<Rightarrow> string list \<Rightarrow> PolicyEffects \<Rightarrow> string + PolicyEffects" where
  "apply_actions barn oarn stmt [] effects = Inr effects"
| "apply_actions barn oarn stmt (a # as) effects =
     bind_res (apply_action barn oarn stmt a effects) (apply_actions barn oarn stmt as)"

definition v1_statement ::
  "string \<Rightarrow> string \<Rightarrow> PolicyStatement \<Rightarrow> PolicyEffects \<Rightarrow> string + PolicyEffects" where
  "v1_statement bucket_arn object_arn stmt effects =
     (if st_condition stmt \<noteq> None then Inl ''MalformedPolicy: Condition blocks are not supported in v1''
      else if \<not> eq_ignore_ascii_case (st_effect stmt) ''Allow''
      then Inl ''MalformedPolicy: only Effect=Allow statements are supported in v1''
      else if \<not> principal_is_wildcard (st_principal stmt)
      then Inl (''MalformedPolicy: only Principal='' @ [CHR 0x22] @ ''*'' @ [CHR 0x22] @ '' is supported in v1'')
      else (case st_action stmt of
              OneAction s \<Rightarrow> apply_action bucket_arn object_arn stmt s effects
            | ManyActions v \<Rightarrow> apply_actions bucket_arn object_arn stmt v effects))"

fun v1_statements ::
  "string \<Rightarrow> string \<Rightarrow> PolicyStatement list \<Rightarrow> PolicyEffects \<Rightarrow> string + PolicyEffects" where
  "v1_statements barn oarn [] effects = Inr effects"
| "v1_statements barn oarn (stmt # stmts) effects =
     bind_res (v1_statement barn oarn stmt effects) (v1_statements barn oarn stmts)"

definition evaluate_v1_policy ::
  "(string \<Rightarrow> string + BucketPolicy) \<Rightarrow> string \<Rightarrow> string \<Rightarrow> string + PolicyEffects" where
  "evaluate_v1_policy de bkt raw =
     bind_res (parse_policy de raw)
       (\<lambda>policy. v1_statements (''arn:aws:s3:::'' @ bkt) (''arn:aws:s3:::'' @ bkt @ ''/*'')
          (bp_statement policy) \<lparr>pe_public_read = False, pe_public_list = False\<rparr>)"

definition policy_requires_v2_enforcement ::
  "(string \<Rightarrow> string + BucketPolicy) \<Rightarrow> string \<Rightarrow> string \<Rightarrow> bool" where
  "policy_requires_v2_enforcement de bkt raw = isl (evaluate_v1_policy de bkt raw)"

section \<open>Validation\<close>

definition validate_effect :: "string \<Rightarrow> string + unit" where
  "validate_effect effect =
     (if eq_ignore_ascii_case effect ''Allow'' \<or> eq_ignore_ascii_case effect ''Deny'' then Inr ()
      else Inl (''MalformedPolicy: unsupported Effect '' @ [CHR 0x27] @ effect @ [CHR 0x27]
                @ '' (allowed: Allow, Deny)''))"

definition validate_principal :: "json \<Rightarrow> string + unit" where
  "validate_principal prin =
     (if principal_is_wildcard prin then Inr ()
      else try_each (\<lambda>arn.
             if access_key_from_principal_arn arn = None
             then Inl (''MalformedPolicy: unsupported Principal ARN '' @ [CHR 0x27] @ arn @ [CHR 0x27]
                       @ '' (expected arn:aws:iam:::user/ACCESS_KEY)'')
             else Inr ()) (principal_arns prin))"

definition validate_actions :: "PolicyActions \<Rightarrow> string + unit" where
  "validate_actions actions =
     (if actions_list actions = [] then Inl ''MalformedPolicy: Action must not be empty''
      else try_each (\<lambda>act.
             if normalize_action act \<notin> set SUPPORTED_ACTIONS
             then Inl (''MalformedPolicy: unsupported Action '' @ [CHR 0x27] @ act @ [CHR 0x27]
               @ '' (allowed: s3:GetObject, s3:PutObject, s3:DeleteObject, s3:ListBucket, s3:*)'')
             else Inr ()) (actions_list actions))"

definition wildcard_resource_matches_bucket :: "string \<Rightarrow> string \<Rightarrow> string \<Rightarrow> bool" where
  "wildcard_resource_matches_bucket res bucket_arn object_prefix =
     (if CHR ''*'' \<notin> set res then False
      else glob_match res bucket_arn \<or> glob_match res (object_prefix @ ''example-key''))"

definition validate_resources_for_bucket ::
  "PolicyResources \<Rightarrow> string \<Rightarrow> string \<Rightarrow> string + unit" where
  "validate_resources_for_bucket resources bucket_arn object_arn_prefix =
     (if resources_list resources = [] then Inl ''MalformedPolicy: Resource must not be empty''
      else try_each (\<lambda>res.
             if res = ''*'' \<or> res = bucket_arn \<or> starts_with res object_arn_prefix
                \<or> wildcard_resource_matches_bucket res bucket_arn object_arn_prefix
             then Inr ()
             else Inl (''MalformedPolicy: Resource '' @ [CHR 0x27] @ res @ [CHR 0x27]
                       @ '' must scope to bucket ARN '' @ bucket_arn @ '' or '' @ object_arn_prefix @ ''*''))
           (resources_list resources))"

definition is_supported_condition_key :: "string \<Rightarrow> bool" where
  "is_supported_condition_key key \<longleftrightarrow>
     key = ''aws:SourceIp'' \<or> key = ''s3:prefix'' \<or> key = ''jwt:groups'' \<or> key = ''jwt:roles''"

definition validate_condition_operator :: "string \<times> json \<Rightarrow> string + unit" where
  "validate_condition_operator = (\<lambda>(operator, body).
     if \<not> list_ex (\<lambda>op. eq_ignore_ascii_case op operator) CONDITION_OPERATORS
     then Inl (''MalformedPolicy: unsupported Condition operator '' @ [CHR 0x27] @ operator @ [CHR 0x27]
               @ '' (allowed: StringEquals, StringLike, IpAddress)'')
     else (case as_object body of
             None \<Rightarrow> Inl (''MalformedPolicy: Condition operator '' @ [CHR 0x27] @ operator @ [CHR 0x27]
                          @ '' must map condition keys to values'')
           | Some ks \<Rightarrow> try_each (\<lambda>(key, _).
                 if \<not> is_supported_condition_key key
                 then Inl (''MalformedPolicy: unsupported Condition key '' @ [CHR 0x27] @ key @ [CHR 0x27])
                 else Inr ()) ks))"

definition validate_condition :: "json \<Rightarrow> string + unit" where
  "validate_condition condition =
     (case as_object condition of
        None \<Rightarrow> Inl ''MalformedPolicy: Condition must be a JSON object''
      | Some obj \<Rightarrow>
          if obj = [] then Inl ''MalformedPolicy: Condition must not be empty''
          else try_each validate_condition_operator obj)"

definition validate_statement :: "string \<Rightarrow> string \<Rightarrow> PolicyStatement \<Rightarrow> string + unit" where
  "validate_statement bucket_arn object_arn_prefix stmt =
     bind_res (validate_effect (st_effect stmt)) (\<lambda>_.
     bind_res (validate_principal (st_principal stmt)) (\<lambda>_.
     bind_res (validate_actions (st_action stmt)) (\<lambda>_.
     bind_res (validate_resources_for_bucket (st_resource stmt) bucket_arn object_arn_prefix) (\<lambda>_.
       case st_condition stmt of None \<Rightarrow> Inr () | Some cond \<Rightarrow> validate_condition cond))))"

definition validate_policy_v2 ::
  "(string \<Rightarrow> string + BucketPolicy) \<Rightarrow> string \<Rightarrow> string \<Rightarrow> string + unit" where
  "validate_policy_v2 de bkt raw =
     bind_res (parse_policy de raw) (\<lambda>policy.
       if bp_statement policy = [] then Inl ''MalformedPolicy: Statement must not be empty''
       else try_each (validate_statement (''arn:aws:s3:::'' @ bkt) (''arn:aws:s3:::'' @ bkt @ ''/''))
              (bp_statement policy))"

section \<open>CIDR blocks: bits, totality and exactness\<close>

text \<open>Bit \<open>i\<close> of an address counts from the most significant bit of its first octet.\<close>


definition octet_bit :: "bytes \<Rightarrow> nat \<Rightarrow> bool" where
  "octet_bit os i = bit (os ! (i div 8)) (7 - i mod 8)"

definition leading_bits_agree :: "nat \<Rightarrow> bytes \<Rightarrow> bytes \<Rightarrow> bool" where
  "leading_bits_agree p a b \<longleftrightarrow> (\<forall>i<p. i < 8 * length a \<longrightarrow> octet_bit a i = octet_bit b i)"

fun ip_wf :: "ip_addr \<Rightarrow> bool" where
  "ip_wf (V4 os) = (length os = 4)"
| "ip_wf (V6 os) = (length os = 16)"

lemma read_octets_length: "read_octets k i s = Some (os, r) \<Longrightarrow> length os = k"
  by (induction k arbitrary: i s os r) (auto split: option.splits prod.splits)

lemma read_groups_length: "read_groups k i s = (os, v4, r) \<Longrightarrow> length os \<le> 2 * k \<and> even (length os)"
proof (induction k arbitrary: i s os v4 r)
  case 0
  then show ?case by simp
next
  case (Suc k)
  have v4l: "read_separator c i read_ipv4_addr s = Some (xs, t) \<Longrightarrow> length xs = 4" for c xs t
    by (auto simp: read_separator_def read_ipv4_addr_def split: option.splits if_splits dest: read_octets_length)
  from Suc.prems show ?case
    by (auto split: option.splits if_splits prod.splits dest!: v4l Suc.IH)
qed

lemma read_ipv6_length: "read_ipv6_addr s = Some (os, r) \<Longrightarrow> length os = 16"
  using read_groups_length [of 8 0 s]
  by (auto simp: read_ipv6_addr_def split: option.splits prod.splits if_splits dest!: read_groups_length elim!: evenE)

lemma parse_ip_wf: "parse_ip s = Some ip \<Longrightarrow> ip_wf ip"
  by (auto simp: parse_ip_def read_ipv4_addr_def split: option.splits prod.splits if_splits
      dest: read_octets_length read_ipv6_length)

lemma less_32_cases: "j < 32 \<Longrightarrow> j < 8 \<or> (\<exists>k<8. j = 8 + k) \<or> (\<exists>k<8. j = 16 + k) \<or> (\<exists>k<8. j = 24 + (k::nat))"
  by presburger

lemma bit_be_u32:
  assumes "length os = 4" and "j < 32"
  shows "bit (be_u32 os) j = octet_bit os (31 - j)"
proof -
  from assms(1) obtain a b c d where os: "os = [a, b, c, d]"
    by (auto simp: numeral_eq_Suc length_Suc_conv)
  have big: "\<not> bit (x :: u8) n" if "8 \<le> n" for x n using that by (auto dest: bit_imp_le_length)
  have ix: "7 - (31 - k) mod 8 = k" "7 - (23 - k) mod 8 = k" "7 - (15 - k) mod 8 = k"
    if "k < 8" for k :: nat
  proof -
    have "31 - k = (7 - k) + 3 * 8" "23 - k = (7 - k) + 2 * 8" "15 - k = (7 - k) + 1 * 8"
      using that by auto
    then show "7 - (31 - k) mod 8 = k" "7 - (23 - k) mod 8 = k" "7 - (15 - k) mod 8 = k"
      using that by (simp_all only: mod_mult_self1) auto
  qed
  from less_32_cases [OF assms(2)] show ?thesis
    unfolding os be_u32_def octet_bit_def
    by (elim disjE exE conjE) (auto simp: bit_simps big ix nth_Cons' div_eq_dividend_iff)
qed

lemma bit_v4_mask: "j < 32 \<Longrightarrow> bit (v4_mask p) j \<longleftrightarrow> 32 - p \<le> j"
  by (auto simp: v4_mask_def bit_simps)

lemma v4_network:
  assumes "length a = 4" and "length b = 4"
  shows "be_u32 b AND v4_mask p = be_u32 a AND v4_mask p \<longleftrightarrow> leading_bits_agree p a b"
proof -
  have "be_u32 b AND v4_mask p = be_u32 a AND v4_mask p \<longleftrightarrow>
      (\<forall>j<32. 32 - p \<le> j \<longrightarrow> octet_bit a (31 - j) = octet_bit b (31 - j))"
    by (subst bit_eq_iff) (auto simp: bit_and_iff bit_v4_mask bit_be_u32 assms)
  also have "\<dots> \<longleftrightarrow> (\<forall>i<p. i < 32 \<longrightarrow> octet_bit a i = octet_bit b i)" (is "?l \<longleftrightarrow> ?r")
  proof
    assume l: ?l
    show ?r
    proof (intro allI impI)
      fix i assume "i < p" and "i < (32 :: nat)"
      then have "31 - i < 32" "32 - p \<le> 31 - i" "31 - (31 - i) = i" by auto
      with l show "octet_bit a i = octet_bit b i" by metis
    qed
  next
    assume r: ?r
    show ?l
    proof (intro allI impI)
      fix j assume "j < (32 :: nat)" and "32 - p \<le> j"
      then have "31 - j < p" "31 - j < 32" by auto
      with r show "octet_bit a (31 - j) = octet_bit b (31 - j)" by blast
    qed
  qed
  finally show ?thesis by (simp add: leading_bits_agree_def assms)
qed

lemma octet_masked:
  fixes x y :: u8
  assumes "r \<le> 8"
  shows "x AND push_bit (8 - r) 0xff = y AND push_bit (8 - r) 0xff \<longleftrightarrow>
    (\<forall>i<r. bit x (7 - i) = bit y (7 - i))" (is "?l \<longleftrightarrow> ?r")
proof -
  have ff: "(0xff :: u8) = - 1" by simp
  have "?l \<longleftrightarrow> (\<forall>j<8. 8 - r \<le> j \<longrightarrow> bit x j = bit y j)"
    unfolding ff by (subst bit_eq_iff) (auto simp: bit_simps)
  also have "\<dots> \<longleftrightarrow> ?r"
  proof
    assume l: "\<forall>j<8. 8 - r \<le> j \<longrightarrow> bit x j = bit y j"
    show ?r
    proof (intro allI impI)
      fix i assume "i < r"
      with assms have "7 - i < 8" "8 - r \<le> 7 - i" by auto
      with l show "bit x (7 - i) = bit y (7 - i)" by blast
    qed
  next
    assume r: ?r
    show "\<forall>j<8. 8 - r \<le> j \<longrightarrow> bit x j = bit y j"
    proof (intro allI impI)
      fix j assume "j < (8 :: nat)" and "8 - r \<le> j"
      with assms have "7 - j < r" "7 - (7 - j) = j" by auto
      with r show "bit x j = bit y j" by metis
    qed
  qed
  finally show ?thesis .
qed

lemma octet_eq_iff: "x = y \<longleftrightarrow> (\<forall>i<8. bit x (7 - i) = bit (y :: u8) (7 - i))"
proof -
  have "x AND 0xff = x" for x :: u8
  proof -
    have "(0xff :: u8) = - 1" by simp
    then show ?thesis by (simp only: and.right_neutral)
  qed
  with octet_masked [of 8 x y] show ?thesis by simp
qed

lemma leading_bits_octets:
  assumes "length a = length b" and "f \<le> length a" and "r < 8" and "r \<noteq> 0 \<longrightarrow> f < length a"
  shows "leading_bits_agree (8 * f + r) a b \<longleftrightarrow>
    take f a = take f b \<and> (\<forall>i<r. bit (a ! f) (7 - i) = bit (b ! f) (7 - i))"
proof -
  have "take f a = take f b \<longleftrightarrow> (\<forall>k<f. a ! k = b ! k)"
    using assms by (auto simp: list_eq_iff_nth_eq)
  also have "\<dots> \<longleftrightarrow> (\<forall>k<f. \<forall>i<8. octet_bit a (8 * k + i) = octet_bit b (8 * k + i))"
    by (auto simp: octet_eq_iff octet_bit_def)
  also have "\<dots> \<longleftrightarrow> (\<forall>i<8 * f. octet_bit a i = octet_bit b i)"
  proof
    assume h: "\<forall>k<f. \<forall>i<8. octet_bit a (8 * k + i) = octet_bit b (8 * k + i)"
    show "\<forall>i<8 * f. octet_bit a i = octet_bit b i"
    proof (intro allI impI)
      fix i assume "i < 8 * f"
      then have "i div 8 < f" "i mod 8 < 8" "8 * (i div 8) + i mod 8 = i" by auto
      with h show "octet_bit a i = octet_bit b i" by metis
    qed
  qed auto
  finally have "take f a = take f b \<longleftrightarrow> (\<forall>i<8 * f. octet_bit a i = octet_bit b i)" .
  moreover have "(\<forall>i<r. bit (a ! f) (7 - i) = bit (b ! f) (7 - i)) \<longleftrightarrow>
      (\<forall>i<r. octet_bit a (8 * f + i) = octet_bit b (8 * f + i))"
    using assms(3) by (auto simp: octet_bit_def)
  moreover have "leading_bits_agree (8 * f + r) a b \<longleftrightarrow>
      (\<forall>i<8 * f. octet_bit a i = octet_bit b i) \<and> (\<forall>i<r. octet_bit a (8 * f + i) = octet_bit b (8 * f + i))"
    (is "?l \<longleftrightarrow> ?r")
  proof
    assume ?l
    moreover have "8 * f + r \<le> 8 * length a" using assms by (cases "r = 0") auto
    ultimately show ?r by (auto simp: leading_bits_agree_def)
  next
    assume ?r
    then show ?l unfolding leading_bits_agree_def
      by (metis add_diff_inverse_nat less_diff_conv2 linorder_not_less nat_add_left_cancel_less)
  qed
  ultimately show ?thesis by simp
qed

lemma ip_in_network_cases:
  assumes "ip_wf addr" and "ip_wf net" and "p < 256"
  shows "ip_in_network addr net p =
    (case (addr, net) of
       (V4 a, V4 n) \<Rightarrow> Some (leading_bits_agree p a n)
     | (V6 a, V6 n) \<Rightarrow>
         if p \<le> 128 then Some (leading_bits_agree p a n)
         else if p < 136 \<and> a \<noteq> n then Some False
         else None
     | _ \<Rightarrow> Some False)"
proof (cases addr; cases net)
  fix a n assume "addr = V4 a" "net = V4 n"
  with assms show ?thesis by (simp add: v4_network)
next
  fix a n assume ip: "addr = V6 a" "net = V6 n"
  have p: "p = 8 * (p div 8) + p mod 8" "p mod 8 < 8" by auto
  show ?thesis
  proof (cases "p \<le> 128")
    case True
    then have "p div 8 \<le> 16" "p mod 8 \<noteq> 0 \<longrightarrow> p div 8 < 16" by presburger+
    with ip assms leading_bits_octets [of a n "p div 8" "p mod 8"] octet_masked [of "p mod 8" "n ! (p div 8)" "a ! (p div 8)"]
      True p show ?thesis by (auto simp: Let_def)
  next
    case False
    then have "16 \<le> p div 8" "p < 136 \<longleftrightarrow> p div 8 = 16" "p < 136 \<Longrightarrow> p mod 8 \<noteq> 0" by presburger+
    with False ip assms show ?thesis by (auto simp: Let_def)
  qed
qed simp_all

text \<open>
  C8. The CIDR test compares exactly the leading \<open>p\<close> bits of the two addresses, for IPv4
  with every prefix length an \<open>u8\<close> can hold (lengths above 32 compare all bits) and for IPv6
  up to 128; mixed families never match. Above 128 an IPv6 test indexes past the sixteen
  octets and panics, except that lengths 129 to 135 first return false when the addresses differ.
\<close>

theorem ip_in_network_exact:
  assumes "ip_wf addr" and "ip_wf net" and "p < 256"
  shows "ip_in_network addr net p =
    (case (addr, net) of
       (V4 a, V4 n) \<Rightarrow> Some (leading_bits_agree p a n)
     | (V6 a, V6 n) \<Rightarrow>
         if p \<le> 128 then Some (leading_bits_agree p a n)
         else if p < 136 \<and> a \<noteq> n then Some False
         else None
     | _ \<Rightarrow> Some False)"
  using assms by (rule ip_in_network_cases)

theorem ip_in_network_exact_witness:
  "ip_in_network (V4 [10, 1, 2, 3]) (V4 [10, 1, 0, 0]) 16 = Some True
   \<and> leading_bits_agree 16 [10, 1, 2, 3] [10, 1, 0, 0]"
proof -
  have net: "ip_in_network (V4 [10, 1, 2, 3]) (V4 [10, 1, 0, 0]) 16 = Some True" by code_simp
  with ip_in_network_exact [of "V4 [10, 1, 2, 3]" "V4 [10, 1, 0, 0]" 16]
  show ?thesis by simp
qed

section \<open>Evaluation of validated documents\<close>

text \<open>
  The address conditions of a document that \<open>ip_in_network\<close> can evaluate: no IPv6 network
  with a prefix length above 128. \<open>validate_condition\<close> does not look at condition values.
\<close>


definition cidr_ok :: "string \<Rightarrow> bool" where
  "cidr_ok cidr =
     (case split_once CHR ''/'' cidr of
        None \<Rightarrow> True
      | Some (network, pre) \<Rightarrow>
          (case (parse_ip network, parse_u8 pre) of (Some (V6 _), Some l) \<Rightarrow> l \<le> 128 | _ \<Rightarrow> True))"

definition cidrs_ok :: "json \<Rightarrow> bool" where
  "cidrs_ok condition =
     (case as_object condition of
        None \<Rightarrow> True
      | Some ops \<Rightarrow> list_all (\<lambda>(operator, body).
          case as_object body of
            None \<Rightarrow> True
          | Some ks \<Rightarrow> list_all (\<lambda>(key, expected). list_all cidr_ok (condition_values expected)) ks) ops)"

definition statement_cidrs_ok :: "PolicyStatement \<Rightarrow> bool" where
  "statement_cidrs_ok stmt = (case st_condition stmt of None \<Rightarrow> True | Some c \<Rightarrow> cidrs_ok c)"

lemma ip_matches_cidr_total: "cidr_ok cidr \<Longrightarrow> ip_matches_cidr ip cidr \<noteq> None"
proof -
  assume ok: "cidr_ok cidr"
  have "ip_in_network addr net l \<noteq> None"
    if "parse_ip ip = Some addr" "split_once CHR ''/'' cidr = Some (n, p)" "parse_ip n = Some net"
      "parse_u8 p = Some l" for addr net l n p
  proof -
    have "l < 256" using parse_uint_bound [OF that(4)] by simp
    with ok that ip_in_network_cases [OF parse_ip_wf parse_ip_wf, of ip addr n net l] show ?thesis
      by (auto simp: cidr_ok_def split: ip_addr.splits)
  qed
  then show ?thesis by (auto simp: ip_matches_cidr_def split: option.splits)
qed

lemma condition_key_total: 
  assumes "list_all cidr_ok (condition_values expected)"
  shows "condition_key_matches operator key expected req ctx \<noteq> None"
proof -
  have "any_opt (ip_matches_cidr ip) (condition_values expected) \<noteq> None" for ip
    using assms any_opt_total [of _ "ip_matches_cidr ip", OF ip_matches_cidr_total]
    by (simp add: list_all_iff)
  then show ?thesis by (auto simp del: not_None_eq simp: condition_key_matches_def split: option.splits)
qed

lemma condition_keys_total:
  "list_all (\<lambda>(key, expected). list_all cidr_ok (condition_values expected)) ks \<Longrightarrow>
     condition_keys_match operator ks req ctx \<noteq> None"
proof (induction ks)
  case (Cons k ks)
  obtain key expected where "k = (key, expected)" by (cases k)
  with Cons condition_key_total [of expected operator key req ctx] show ?case
    by (auto split: option.splits bool.splits)
qed simp

lemma conditions_total: "cidrs_ok c \<Longrightarrow> conditions_match c req ctx \<noteq> None"
proof -
  have "list_all (\<lambda>(operator, body).
          case as_object body of
            None \<Rightarrow> True
          | Some ks \<Rightarrow> list_all (\<lambda>(key, expected). list_all cidr_ok (condition_values expected)) ks) ops
     \<Longrightarrow> condition_operators_match ops req ctx \<noteq> None" for ops
  proof (induction ops)
    case (Cons k ops)
    obtain operator body where k: "k = (operator, body)" by (cases k)
    show ?case
    proof (cases "as_object body")
      case (Some ks)
      with Cons k condition_keys_total [of ks operator req ctx] show ?thesis
        by (auto split: option.splits bool.splits)
    qed (simp add: k)
  qed simp
  then show "cidrs_ok c \<Longrightarrow> conditions_match c req ctx \<noteq> None"
    by (auto simp: cidrs_ok_def conditions_match_def split: option.splits)
qed

lemma statement_matches_total:
  "statement_cidrs_ok stmt \<Longrightarrow> statement_matches_request stmt req barn oarn ctx \<noteq> None"
  using conditions_total
  by (auto simp del: not_None_eq simp: statement_cidrs_ok_def statement_matches_request_def split: option.splits)

definition applies :: "PolicyRequest \<Rightarrow> PolicyContext \<Rightarrow> PolicyStatement \<Rightarrow> bool" where
  "applies req ctx stmt \<longleftrightarrow>
     statement_matches_request stmt req (bucket_arn_of (pr_bucket req)) (request_object_arn req) ctx = Some True"

definition spec_decision :: "PolicyStatement list \<Rightarrow> PolicyRequest \<Rightarrow> PolicyContext \<Rightarrow> PolicyDecision" where
  "spec_decision stmts req ctx =
     (if \<exists>s\<in>set stmts. applies req ctx s \<and> eq_ignore_ascii_case (st_effect s) ''Deny'' then Deny
      else if \<exists>s\<in>set stmts. applies req ctx s \<and> eq_ignore_ascii_case (st_effect s) ''Allow'' then Allow
      else ImplicitDeny)"

lemma deny_not_allow: "\<not> (eq_ignore_ascii_case e ''Deny'' \<and> eq_ignore_ascii_case e ''Allow'')"
proof -
  have "\<not> eq_ignore_ascii_case ''Deny'' ''Allow''" by code_simp
  then show ?thesis using eq_ignore_ascii_case_trans eq_ignore_ascii_case_sym by blast
qed

lemma eval_statements_total:
  assumes "\<And>s. s \<in> set stmts \<Longrightarrow> statement_matches_request s req barn oarn ctx \<noteq> None"
    and "\<And>s. s \<in> set stmts \<Longrightarrow> validate_effect (st_effect s) = Inr ()"
  shows "eval_statements stmts req barn oarn ctx al de = Some (Inr
    (al \<or> (\<exists>s\<in>set stmts. statement_matches_request s req barn oarn ctx = Some True \<and>
              eq_ignore_ascii_case (st_effect s) ''Allow''),
     de \<or> (\<exists>s\<in>set stmts. statement_matches_request s req barn oarn ctx = Some True \<and>
              eq_ignore_ascii_case (st_effect s) ''Deny'')))"
  using assms
proof (induction stmts arbitrary: al de)
  case (Cons s stmts)
  then obtain b where b: "statement_matches_request s req barn oarn ctx = Some b" by fastforce
  have "validate_effect (st_effect s) = Inr ()" using Cons.prems(2) by simp
  then have "eq_ignore_ascii_case (st_effect s) ''Deny'' \<or> eq_ignore_ascii_case (st_effect s) ''Allow''"
    by (auto simp: validate_effect_def split: if_splits)
  with b Cons deny_not_allow [of "st_effect s"] show ?case by (cases b) auto
qed simp

lemma validate_policy_v2D:
  assumes "validate_policy_v2 de bkt raw = Inr ()"
  obtains policy where "parse_policy de raw = Inr policy"
    and "\<And>s. s \<in> set (bp_statement policy) \<Longrightarrow> validate_effect (st_effect s) = Inr ()"
  using assms
  by (auto simp: validate_policy_v2_def validate_statement_def bind_res_Inr try_each_Inr split: if_splits)

text \<open>
  C9. A document that passed \<open>validate_policy_v2\<close>, and whose IPv6 networks have prefix
  lengths of at most 128, is evaluated for every request to a decision, without an error or
  a panic: Deny if any applicable statement denies, otherwise Allow if any allows, otherwise
  ImplicitDeny. So a Deny wins over every Allow, wherever the statements stand.
\<close>

theorem evaluate_policy_v2_decides:
  assumes "validate_policy_v2 de bkt raw = Inr ()" and "parse_policy de raw = Inr policy"
    and "list_all statement_cidrs_ok (bp_statement policy)"
  shows "evaluate_policy_v2 de raw req ctx = Some (Inr (spec_decision (bp_statement policy) req ctx))"
proof -
  obtain p where p: "parse_policy de raw = Inr p"
    and eff: "\<And>s. s \<in> set (bp_statement p) \<Longrightarrow> validate_effect (st_effect s) = Inr ()"
    using validate_policy_v2D [OF assms(1)] by blast
  have tot: "statement_matches_request s req (bucket_arn_of (pr_bucket req)) (request_object_arn req) ctx \<noteq> None"
    if "s \<in> set (bp_statement p)" for s
    using assms p that statement_matches_total by (auto simp: list_all_iff)
  from p assms(2) eval_statements_total [OF tot eff, of "bp_statement p" False False] show ?thesis
    by (auto simp: evaluate_policy_v2_def spec_decision_def applies_def)
qed

theorem evaluate_policy_v2_decides_witness:
  "evaluate_policy_v2 (\<lambda>_. Inr \<lparr>bp_version = ''2012-10-17'', bp_statement =
      [\<lparr>st_effect = ''Allow'', st_principal = JString ''*'', st_action = OneAction ''s3:*'',
         st_resource = OneResource ''*'', st_condition = None\<rparr>,
       \<lparr>st_effect = ''deny'', st_principal = JString ''*'', st_action = OneAction ''S3:PutObject'',
         st_resource = OneResource ''arn:aws:s3:::b/*'', st_condition = None\<rparr>]\<rparr>) ''doc''
     \<lparr>pr_action = ''s3:PutObject'', pr_bucket = ''b'', pr_object_key = Some ''k'', pr_list_prefix = None\<rparr>
     \<lparr>pc_principal_access_key = None, pc_source_ip = None, pc_is_anonymous = True, pc_jwt_groups = [],
       pc_jwt_roles = [], pc_oidc_claims = None\<rparr>
   = Some (Inr Deny)"
  (is "evaluate_policy_v2 ?de ?raw ?req ?ctx = _")
proof -
  have v: "validate_policy_v2 ?de ''b'' ?raw = Inr ()" by code_simp
  obtain policy where p: "parse_policy ?de ?raw = Inr policy"
    and pd: "policy = \<lparr>bp_version = ''2012-10-17'', bp_statement =
      [\<lparr>st_effect = ''Allow'', st_principal = JString ''*'', st_action = OneAction ''s3:*'',
         st_resource = OneResource ''*'', st_condition = None\<rparr>,
       \<lparr>st_effect = ''deny'', st_principal = JString ''*'', st_action = OneAction ''S3:PutObject'',
         st_resource = OneResource ''arn:aws:s3:::b/*'', st_condition = None\<rparr>]\<rparr>"
    by (simp add: parse_policy_def check_version_def)
  have c: "list_all statement_cidrs_ok (bp_statement policy)" unfolding pd by code_simp
  have "evaluate_policy_v2 ?de ?raw ?req ?ctx
      = Some (Inr (spec_decision (bp_statement policy) ?req ?ctx))"
    by (rule evaluate_policy_v2_decides [OF v p c])
  also have "spec_decision (bp_statement policy) ?req ?ctx = Deny" unfolding pd by code_simp
  finally show ?thesis .
qed

text \<open>
  An IPv6 network with a prefix length of 136 or more makes evaluation panic on every
  request from an IPv6 address, although \<open>validate_policy_v2\<close> accepts the document.
\<close>

theorem oversized_v6_prefix_panics:
  assumes "parse_ip ip = Some (V6 a)" and "parse_ip network = Some (V6 n)"
    and "CHR ''/'' \<notin> set network" and "parse_u8 pre = Some l" and "136 \<le> l"
    and "pc_source_ip ctx = Some ip"
    and "de raw = Inr \<lparr>bp_version = [], bp_statement =
      [\<lparr>st_effect = ''Allow'', st_principal = JString ''*'', st_action = OneAction ''s3:GetObject'',
        st_resource = OneResource ''*'',
        st_condition = Some (JObject [(''IpAddress'', JObject [(''aws:SourceIp'', JString (network @ ''/'' @ pre))])])\<rparr>]\<rparr>"
    and "pr_action req = ''s3:GetObject''"
  shows "validate_policy_v2 de bkt raw = Inr () \<and> evaluate_policy_v2 de raw req ctx = None"
proof
  have ops: "list_ex (\<lambda>op. eq_ignore_ascii_case op ''IpAddress'') CONDITION_OPERATORS"
    and act: "normalize_action ''s3:GetObject'' = ''s3:GetObject''"
    by code_simp+
  then show "validate_policy_v2 de bkt raw = Inr ()"
    by (simp add: assms(7) validate_policy_v2_def parse_policy_def check_version_def validate_statement_def
        validate_effect_def validate_principal_def validate_actions_def validate_resources_for_bucket_def
        validate_condition_def validate_condition_operator_def is_supported_condition_key_def SUPPORTED_ACTIONS_def)
  have "l < 256" using parse_uint_bound [OF assms(4)] by simp
  with assms(1-5) have cidr: "ip_matches_cidr ip (network @ CHR ''/'' # pre) = None"
    using ip_in_network_cases [OF parse_ip_wf parse_ip_wf, OF assms(1,2), of l]
    by (simp add: ip_matches_cidr_def split_once_append)
  show "evaluate_policy_v2 de raw req ctx = None"
    by (simp add: assms(6,7,8) evaluate_policy_v2_def parse_policy_def check_version_def cidr act
        statement_matches_request_def principal_matches_def actions_match_def
        resource_matches_request_def resource_pattern_matches_def conditions_match_def condition_key_matches_def)
qed


lemma read_ipv4_unroll: "read_ipv4_addr s = read_octets (Suc (Suc (Suc (Suc 0)))) 0 s"
  by (simp add: read_ipv4_addr_def numeral_eq_Suc)

lemmas read_groups_unroll = read_groups.simps(2) [of "pred_numeral k" for k, folded numeral_eq_Suc]

lemmas ip_eval = parse_ip_def read_ipv4_unroll read_ipv6_addr_def read_separator_def read_number_def
  to_digit_def read_groups_unroll


theorem oversized_v6_prefix_panics_witness:
  "\<exists>de ctx req. validate_policy_v2 de ''b'' ''doc'' = Inr () \<and> evaluate_policy_v2 de ''doc'' req ctx = None"
proof -
  have "parse_ip ''::'' = Some (V6 (replicate 16 0))" by (simp add: ip_eval)
  moreover have "parse_u8 ''200'' = Some 200" by (simp add: parse_uint_def digit_val_def is_ascii_digit_def)
  ultimately show ?thesis
    using oversized_v6_prefix_panics [of "''::''" "replicate 16 0" "''::''" "replicate 16 0" "''200''" 200
        "\<lparr>pc_principal_access_key = None, pc_source_ip = Some ''::'', pc_is_anonymous = True,
           pc_jwt_groups = [], pc_jwt_roles = [], pc_oidc_claims = None\<rparr>"
        "\<lambda>_. Inr \<lparr>bp_version = [], bp_statement =
          [\<lparr>st_effect = ''Allow'', st_principal = JString ''*'', st_action = OneAction ''s3:GetObject'',
            st_resource = OneResource ''*'',
            st_condition = Some (JObject [(''IpAddress'', JObject [(''aws:SourceIp'', JString (''::'' @ ''/'' @ ''200''))])])\<rparr>]\<rparr>"
        "''doc''"
        "\<lparr>pr_action = ''s3:GetObject'', pr_bucket = ''b'', pr_object_key = Some ''k'', pr_list_prefix = None\<rparr>" "''b''"]
    by auto
qed

text \<open>
  C10. A Deny on all objects of a bucket does not reach keys that begin with a star and go
  on: with a document that allows everything and denies \<open>arn:aws:s3:::b/*\<close>, a request for
  such a key is allowed.
\<close>

theorem deny_misses_star_keys:
  assumes "CHR ''*'' \<notin> set bkt"
    and "de raw = Inr \<lparr>bp_version = [], bp_statement =
      [\<lparr>st_effect = ''Allow'', st_principal = JString ''*'', st_action = OneAction ''s3:*'',
         st_resource = OneResource ''*'', st_condition = None\<rparr>,
       \<lparr>st_effect = ''Deny'', st_principal = JString ''*'', st_action = OneAction ''s3:*'',
         st_resource = OneResource (''arn:aws:s3:::'' @ bkt @ ''/*''), st_condition = None\<rparr>]\<rparr>"
  shows "evaluate_policy_v2 de raw \<lparr>pr_action = ''s3:PutObject'', pr_bucket = bkt,
           pr_object_key = Some (CHR ''*'' # x # s), pr_list_prefix = None\<rparr> ctx = Some (Inr Allow)"
proof -
  have miss: "\<not> glob_match (''arn:aws:s3:::'' @ bkt @ ''/*'') (''arn:aws:s3:::'' @ bkt @ ''/'' @ CHR ''*'' # x # s)"
    using glob_match_star_value [of "''arn:aws:s3:::'' @ bkt @ ''/''" x s] assms(1) by simp
  have norm: "normalize_action ''s3:*'' = ''s3:*''" by code_simp
  have ad: "\<not> eq_ignore_ascii_case ''Allow'' ''Deny''" by code_simp
  from miss norm ad show ?thesis
    by (simp add: assms(2) evaluate_policy_v2_def parse_policy_def check_version_def
        statement_matches_request_def principal_matches_def actions_match_def
        resource_matches_request_def resource_pattern_matches_def request_object_arn_def)
qed

theorem deny_misses_star_keys_witness:
  "evaluate_policy_v2 (\<lambda>_. Inr \<lparr>bp_version = [], bp_statement =
      [\<lparr>st_effect = ''Allow'', st_principal = JString ''*'', st_action = OneAction ''s3:*'',
         st_resource = OneResource ''*'', st_condition = None\<rparr>,
       \<lparr>st_effect = ''Deny'', st_principal = JString ''*'', st_action = OneAction ''s3:*'',
         st_resource = OneResource (''arn:aws:s3:::'' @ ''logs'' @ ''/*''), st_condition = None\<rparr>]\<rparr>) ''doc''
     \<lparr>pr_action = ''s3:PutObject'', pr_bucket = ''logs'', pr_object_key = Some ''*a'', pr_list_prefix = None\<rparr>
     \<lparr>pc_principal_access_key = None, pc_source_ip = None, pc_is_anonymous = True, pc_jwt_groups = [],
       pc_jwt_roles = [], pc_oidc_claims = None\<rparr> = Some (Inr Allow)"
  by (rule deny_misses_star_keys) simp_all


section \<open>The public flags against the evaluator\<close>

definition v1_grants :: "string \<Rightarrow> PolicyStatement list \<Rightarrow> bool" where
  "v1_grants act stmts \<longleftrightarrow> (\<exists>s\<in>set stmts. \<exists>a\<in>set (actions_list (st_action s)). normalize_action a = act)"

definition v1_ok :: "string \<Rightarrow> string \<Rightarrow> PolicyStatement \<Rightarrow> bool" where
  "v1_ok barn oarn s \<longleftrightarrow> st_condition s = None \<and> eq_ignore_ascii_case (st_effect s) ''Allow''
     \<and> principal_is_wildcard (st_principal s)
     \<and> (\<forall>a\<in>set (actions_list (st_action s)).
          normalize_action a = ''s3:GetObject'' \<and> any_resource (st_resource s) oarn
          \<or> normalize_action a = ''s3:ListBucket'' \<and> any_resource (st_resource s) barn)"

lemma apply_action_Inr:
  assumes "apply_action barn oarn s a eff = Inr eff'"
  shows "normalize_action a = ''s3:GetObject'' \<and> any_resource (st_resource s) oarn
       \<and> eff' = eff\<lparr>pe_public_read := True\<rparr>
     \<or> normalize_action a = ''s3:ListBucket'' \<and> any_resource (st_resource s) barn
       \<and> eff' = eff\<lparr>pe_public_list := True\<rparr>"
  using assms by (auto simp: apply_action_def Let_def split: if_splits)

lemma apply_actions_Inr:
  assumes "apply_actions barn oarn s as eff = Inr eff'"
  shows "(\<forall>a\<in>set as. normalize_action a = ''s3:GetObject'' \<and> any_resource (st_resource s) oarn
          \<or> normalize_action a = ''s3:ListBucket'' \<and> any_resource (st_resource s) barn)
     \<and> pe_public_read eff' = (pe_public_read eff \<or> (\<exists>a\<in>set as. normalize_action a = ''s3:GetObject''))
     \<and> pe_public_list eff' = (pe_public_list eff \<or> (\<exists>a\<in>set as. normalize_action a = ''s3:ListBucket''))"
  using assms
proof (induction as arbitrary: eff)
  case (Cons a as)
  then obtain e1 where "apply_action barn oarn s a eff = Inr e1" "apply_actions barn oarn s as e1 = Inr eff'"
    by (auto simp: bind_res_Inr)
  with Cons.IH [of e1] apply_action_Inr [of barn oarn s a eff e1] show ?case by auto
qed simp

lemma v1_statement_Inr:
  assumes "v1_statement barn oarn s eff = Inr eff'"
  shows "v1_ok barn oarn s
     \<and> pe_public_read eff' = (pe_public_read eff \<or> v1_grants ''s3:GetObject'' [s])
     \<and> pe_public_list eff' = (pe_public_list eff \<or> v1_grants ''s3:ListBucket'' [s])"
proof -
  have "apply_actions barn oarn s (actions_list (st_action s)) eff = Inr eff'"
    using assms by (auto simp: v1_statement_def bind_res_Inr split: if_splits PolicyActions.splits)
  moreover have "st_condition s = None" "eq_ignore_ascii_case (st_effect s) ''Allow''"
    "principal_is_wildcard (st_principal s)"
    using assms by (auto simp: v1_statement_def split: if_splits)
  ultimately show ?thesis using apply_actions_Inr by (simp add: v1_ok_def v1_grants_def)
qed

lemma v1_statements_Inr:
  assumes "v1_statements barn oarn stmts eff = Inr eff'"
  shows "(\<forall>s\<in>set stmts. v1_ok barn oarn s)
     \<and> pe_public_read eff' = (pe_public_read eff \<or> v1_grants ''s3:GetObject'' stmts)
     \<and> pe_public_list eff' = (pe_public_list eff \<or> v1_grants ''s3:ListBucket'' stmts)"
  using assms
proof (induction stmts arbitrary: eff)
  case Nil
  then show ?case by (simp add: v1_grants_def)
next
  case (Cons s stmts)
  then obtain e1 where "v1_statement barn oarn s eff = Inr e1" "v1_statements barn oarn stmts e1 = Inr eff'"
    by (auto simp: bind_res_Inr)
  with Cons.IH [of e1] v1_statement_Inr [of barn oarn s eff e1] show ?case
    by (auto simp: v1_grants_def)
qed

lemma any_resource_iff: "any_resource rs e \<longleftrightarrow> (\<exists>r\<in>set (resources_list rs). r = e \<or> r = ''*'')"
  by (cases rs) (auto simp: any_resource_def resource_matches_def list_ex_iff)

lemma v1_request_matches:
  assumes ok: "v1_ok barn oarn s"
    and act: "pr_action req = ''s3:GetObject'' \<and> glob_match oarn target
                \<or> pr_action req = ''s3:ListBucket''"
    and oarn: "CHR ''*'' \<in> set oarn"
  shows "statement_matches_request s req barn target ctx = Some (v1_grants (pr_action req) [s])"
proof -
  have norm: "normalize_action ''s3:GetObject'' = ''s3:GetObject''"
    "normalize_action ''s3:ListBucket'' = ''s3:ListBucket''" by code_simp+
  have "actions_match (st_action s) (pr_action req) = v1_grants (pr_action req) [s]"
    using ok act by (auto simp: actions_match_def v1_grants_def v1_ok_def list_ex_iff Let_def norm)
  moreover have "resource_matches_request (st_resource s) req barn target"
    if "v1_grants (pr_action req) [s]"
    using that ok act oarn
    by (auto simp: v1_grants_def v1_ok_def any_resource_iff resource_matches_request_def list_ex_iff
        resource_pattern_matches_def Let_def)
  ultimately show ?thesis
    using ok by (auto simp: statement_matches_request_def principal_matches_def v1_ok_def)
qed

lemma v1_eval:
  assumes v1: "evaluate_v1_policy de (pr_bucket req) raw = Inr eff"
    and act: "pr_action req = ''s3:GetObject'' \<and>
                glob_match (''arn:aws:s3:::'' @ pr_bucket req @ ''/*'') (request_object_arn req)
              \<or> pr_action req = ''s3:ListBucket''"
  shows "evaluate_policy_v2 de raw req ctx =
    Some (Inr (if (if pr_action req = ''s3:GetObject'' then pe_public_read eff else pe_public_list eff)
               then Allow else ImplicitDeny))"
proof -
  let ?barn = "''arn:aws:s3:::'' @ pr_bucket req" and ?oarn = "''arn:aws:s3:::'' @ pr_bucket req @ ''/*''"
  obtain policy where p: "parse_policy de raw = Inr policy"
    and st: "v1_statements ?barn ?oarn (bp_statement policy) \<lparr>pe_public_read = False, pe_public_list = False\<rparr> = Inr eff"
    using v1 by (auto simp: evaluate_v1_policy_def bind_res_Inr)
  note inr = v1_statements_Inr [OF st]
  have m: "statement_matches_request s req ?barn (request_object_arn req) ctx = Some (v1_grants (pr_action req) [s])"
    if "s \<in> set (bp_statement policy)" for s
    using v1_request_matches [of ?barn ?oarn s req "request_object_arn req" ctx] inr act that by auto
  have allow: "eq_ignore_ascii_case (st_effect s) ''Allow''" "\<not> eq_ignore_ascii_case (st_effect s) ''Deny''"
    if "s \<in> set (bp_statement policy)" for s
    using inr that deny_not_allow [of "st_effect s"] by (auto simp: v1_ok_def)
  have "eval_statements (bp_statement policy) req ?barn (request_object_arn req) ctx False False =
      Some (Inr (v1_grants (pr_action req) (bp_statement policy), False))"
    using m allow by (subst eval_statements_total) (auto simp: validate_effect_def v1_grants_def)
  with p inr act show ?thesis
    by (auto simp: evaluate_policy_v2_def bucket_arn_of_def)
qed

text \<open>
  C11. The public flags that \<open>evaluate_v1_policy\<close> extracts grant exactly what the v2
  evaluator decides for the same document: \<open>public_read\<close> for fetching an object,
  \<open>public_list\<close> for listing the bucket, for every caller (names without a star).
\<close>

theorem v1_flags_agree_with_v2:
  assumes "evaluate_v1_policy de bkt raw = Inr eff"
    and "CHR ''*'' \<notin> set bkt" and "CHR ''*'' \<notin> set key"
  shows "evaluate_policy_v2 de raw \<lparr>pr_action = ''s3:GetObject'', pr_bucket = bkt,
           pr_object_key = Some key, pr_list_prefix = None\<rparr> ctx =
         Some (Inr (if pe_public_read eff then Allow else ImplicitDeny))
     \<and> evaluate_policy_v2 de raw \<lparr>pr_action = ''s3:ListBucket'', pr_bucket = bkt,
           pr_object_key = None, pr_list_prefix = pfx\<rparr> ctx =
         Some (Inr (if pe_public_list eff then Allow else ImplicitDeny))"
proof
  have "glob_match (''arn:aws:s3:::'' @ bkt @ ''/*'') (''arn:aws:s3:::'' @ bkt @ ''/'' @ key)"
    using assms(2,3) glob_prefix_star [of "''arn:aws:s3:::'' @ bkt @ ''/''" key]
    by (subst glob_match_correct) auto
  then show "evaluate_policy_v2 de raw \<lparr>pr_action = ''s3:GetObject'', pr_bucket = bkt,
           pr_object_key = Some key, pr_list_prefix = None\<rparr> ctx =
         Some (Inr (if pe_public_read eff then Allow else ImplicitDeny))"
    using assms(1) by (subst v1_eval [of de _ raw eff]) (auto simp: request_object_arn_def)
  show "evaluate_policy_v2 de raw \<lparr>pr_action = ''s3:ListBucket'', pr_bucket = bkt,
           pr_object_key = None, pr_list_prefix = pfx\<rparr> ctx =
         Some (Inr (if pe_public_list eff then Allow else ImplicitDeny))"
    using assms(1) by (subst v1_eval [of de _ raw eff]) auto
qed

theorem v1_flags_agree_with_v2_witness:
  "evaluate_policy_v2 (\<lambda>_. Inr \<lparr>bp_version = [], bp_statement =
      [\<lparr>st_effect = ''Allow'', st_principal = JString ''*'', st_action = OneAction ''s3:GetObject'',
         st_resource = OneResource ''arn:aws:s3:::b/*'', st_condition = None\<rparr>]\<rparr>) ''doc''
     \<lparr>pr_action = ''s3:GetObject'', pr_bucket = ''b'', pr_object_key = Some ''k'', pr_list_prefix = None\<rparr>
     \<lparr>pc_principal_access_key = None, pc_source_ip = None, pc_is_anonymous = True, pc_jwt_groups = [],
       pc_jwt_roles = [], pc_oidc_claims = None\<rparr> = Some (Inr Allow)"
  (is "evaluate_policy_v2 ?de _ _ ?ctx = _")
proof -
  have "evaluate_v1_policy ?de ''b'' ''doc'' = Inr \<lparr>pe_public_read = True, pe_public_list = False\<rparr>"
    by code_simp
  from v1_flags_agree_with_v2 [OF this, of "''k''" ?ctx] show ?thesis by simp
qed

end
