(* ===== verification/Reader.thy ===== *)
theory Reader
  imports Types
begin

text \<open>
  The byte-stream interface that joins the components: \<open>tokio::io::AsyncRead\<close>. A reader
  is a state and a \<open>poll_read\<close> that, given the room left in the caller's buffer, suspends,
  fails, or delivers bytes. Request bodies, files, the quota reader, the chunk reader and
  the frame decryptor all have this type and are stacked on one another. A poll that never
  returns is represented as one that suspends without any progress, so that the read loop
  around it has no result either.

  The locale \<open>stream_reader\<close> states the contract that a caller of such a stack relies on;
  \<open>read_to_end\<close> is the read loop that every caller runs.
\<close>

datatype 'a poll = Pending | Ready 'a

type_synonym 's reader = "'s \<Rightarrow> nat \<Rightarrow> (io_error + bytes) poll \<times> 's"

text \<open>
  The loop \<open>loop { let n = body.read(&mut buf).await?; if n == 0 { break } ... }\<close> with a
  buffer of \<open>cap\<close> bytes: a suspended read is polled again, an error ends the loop, an empty
  read is the end of the stream.
\<close>

partial_function (option) read_to_end ::
  "'s reader \<Rightarrow> nat \<Rightarrow> 's \<Rightarrow> bytes \<Rightarrow> ((io_error + bytes) \<times> 's) option" where
  "read_to_end rd cap s acc =
     (case rd s cap of
        (Pending, s') \<Rightarrow> read_to_end rd cap s' acc
      | (Ready (Inl e), s') \<Rightarrow> Some (Inl e, s')
      | (Ready (Inr bs), s') \<Rightarrow>
          (if bs = [] then Some (Inr acc, s') else read_to_end rd cap s' (acc @ bs)))"

locale stream_reader =
  fixes rd :: "'s reader"
    and inv :: "'s \<Rightarrow> bool"
    and rest :: "'s \<Rightarrow> bytes"
    and wait :: "'s \<Rightarrow> nat"
  assumes reads: "\<lbrakk>inv s; 0 < n; rd s n = (Ready (Inr bs), s')\<rbrakk> \<Longrightarrow>
      inv s' \<and> rest s = bs @ rest s' \<and> length bs \<le> n \<and> (bs = [] \<longrightarrow> rest s = []) \<and> wait s' \<le> wait s"
    and never_fails: "\<lbrakk>inv s; 0 < n\<rbrakk> \<Longrightarrow> rd s n \<noteq> (Ready (Inl e), s')"
    and suspends: "\<lbrakk>inv s; 0 < n; rd s n = (Pending, s')\<rbrakk> \<Longrightarrow>
      inv s' \<and> rest s' = rest s \<and> wait s' < wait s"
begin

lemma poll_cases:
  assumes "inv s" and "0 < n"
  obtains (pending) s' where "rd s n = (Pending, s')" and "inv s'" and "rest s' = rest s"
      and "wait s' < wait s"
    | (eof) s' where "rd s n = (Ready (Inr []), s')" and "inv s'" and "rest s = []"
      and "rest s' = []" and "wait s' \<le> wait s"
    | (data) bs s' where "rd s n = (Ready (Inr bs), s')" and "bs \<noteq> []" and "length bs \<le> n"
      and "inv s'" and "rest s = bs @ rest s'" and "wait s' \<le> wait s"
proof -
  obtain p s' where p: "rd s n = (p, s')" by (cases "rd s n")
  show thesis
  proof (cases p)
    case Pending
    with p suspends [OF assms] show thesis by (intro that(1) [of s']) auto
  next
    case (Ready r)
    show thesis
    proof (cases r)
      case (Inl e)
      with p Ready never_fails [OF assms] show thesis by blast
    next
      case (Inr bs)
      with p Ready reads [OF assms] have
        *: "inv s'" "rest s = bs @ rest s'" "length bs \<le> n" "bs = [] \<longrightarrow> rest s = []"
          "wait s' \<le> wait s" by auto
      show thesis
      proof (cases "bs = []")
        case True
        with p Ready Inr * show thesis by (intro that(2) [of s']) auto
      next
        case False
        with p Ready Inr * show thesis by (intro that(3) [of bs s']) auto
      qed
    qed
  qed
qed

lemma read_to_end_all:
  assumes "inv s" and "0 < cap"
  shows "\<exists>s'. read_to_end rd cap s acc = Some (Inr (acc @ rest s), s') \<and> inv s' \<and> rest s' = []"
  using assms(1)
proof (induction s arbitrary: acc rule: wf_induct_rule
    [OF wf_measures [of "[\<lambda>s. length (rest s), wait]"]])
  case (1 s)
  from "1.prems" assms(2) show ?case
  proof (cases rule: poll_cases)
    case (pending s')
    with "1.IH" [of s' acc] show ?thesis by (simp add: read_to_end.simps [of rd cap s])
  next
    case (eof s')
    then show ?thesis by (simp add: read_to_end.simps [of rd cap s])
  next
    case (data bs s')
    with "1.IH" [of s' "acc @ bs"] show ?thesis
      by (simp add: read_to_end.simps [of rd cap s])
  qed
qed

end

text \<open>A \<open>poll_read\<close> with an inner loop may itself fail to return.\<close>

definition poll_or_hang ::
  "('s \<Rightarrow> nat \<Rightarrow> ((io_error + bytes) poll \<times> 's) option) \<Rightarrow> 's reader" where
  "poll_or_hang f s n = (case f s n of Some r \<Rightarrow> r | None \<Rightarrow> (Pending, s))"

text \<open>
  The contract of a single poll, as one predicate on its result: this is what a reader with
  an inner loop proves by induction over that loop.
\<close>

definition poll_ok ::
  "('s \<Rightarrow> bool) \<Rightarrow> ('s \<Rightarrow> bytes) \<Rightarrow> ('s \<Rightarrow> nat) \<Rightarrow> 's \<Rightarrow> nat \<Rightarrow> (io_error + bytes) poll \<times> 's \<Rightarrow> bool" where
  "poll_ok I R W s n r =
     (case r of
        (Pending, s') \<Rightarrow> I s' \<and> R s' = R s \<and> W s' < W s
      | (Ready (Inl e), s') \<Rightarrow> False
      | (Ready (Inr bs), s') \<Rightarrow>
          I s' \<and> R s = bs @ R s' \<and> length bs \<le> n \<and> (bs = [] \<longrightarrow> R s = []) \<and> W s' \<le> W s)"

lemma stream_reader_poll_or_hang:
  assumes "\<And>s n. I s \<Longrightarrow> 0 < n \<Longrightarrow> \<exists>r. f s n = Some r \<and> poll_ok I R W s n r"
  shows "stream_reader (poll_or_hang f) I R W"
proof (unfold_locales, goal_cases)
  case (1 s n bs s')
  with assms [of s n] show ?case by (auto simp: poll_or_hang_def poll_ok_def)
next
  case (2 s n e s')
  with assms [of s n] show ?case by (auto simp: poll_or_hang_def poll_ok_def)
next
  case (3 s n s')
  with assms [of s n] show ?case by (auto simp: poll_or_hang_def poll_ok_def)
qed

lemma poll_ok_dataI:
  "I s' \<Longrightarrow> R s = bs @ R s' \<Longrightarrow> length bs \<le> n \<Longrightarrow> bs \<noteq> [] \<Longrightarrow> W s' \<le> W s \<Longrightarrow>
     poll_ok I R W s n (Ready (Inr bs), s')"
  by (simp add: poll_ok_def)

text \<open>A step inside the loop that consumes nothing for the caller may be prefixed.\<close>

lemma poll_ok_step:
  assumes "poll_ok I R W s1 n r" and "R s1 = R s" and "W s1 \<le> W s"
  shows "poll_ok I R W s n r"
  using assms by (auto simp: poll_ok_def split: prod.splits poll.splits sum.splits)

section \<open>Two sources\<close>

text \<open>
  A file or \<open>std::io::Cursor\<close> at its current position always has an answer: the next
  bytes, as many as fit.
\<close>

definition cursor_read :: "bytes reader" where
  "cursor_read s n = (Ready (Inr (take n s)), drop n s)"

text \<open>
  A request body arrives in fragments, with waits (\<^const>\<open>None\<close>) in between; a fragment
  larger than the caller's buffer is delivered in several reads.
\<close>

fun body_read :: "bytes option list reader" where
  "body_read [] n = (Ready (Inr []), [])"
| "body_read (None # es) n = (Pending, es)"
| "body_read (Some bs # es) n =
     (Ready (Inr (take n bs)), if length bs \<le> n then es else Some (drop n bs) # es)"

definition body_inv :: "bytes option list \<Rightarrow> bool" where
  "body_inv es \<longleftrightarrow> Some [] \<notin> set es"

fun body_bytes :: "bytes option list \<Rightarrow> bytes" where
  "body_bytes [] = []"
| "body_bytes (None # es) = body_bytes es"
| "body_bytes (Some bs # es) = bs @ body_bytes es"

interpretation cursor: stream_reader cursor_read "\<lambda>_. True" "\<lambda>s. s" "\<lambda>_. 0"
  by unfold_locales (auto simp: cursor_read_def)

interpretation body: stream_reader body_read body_inv body_bytes length
proof unfold_locales
  fix s and n :: nat and bs s'
  assume "body_inv s" and "0 < n" and "body_read s n = (Ready (Inr bs), s')"
  then show "body_inv s' \<and> body_bytes s = bs @ body_bytes s' \<and> length bs \<le> n \<and>
      (bs = [] \<longrightarrow> body_bytes s = []) \<and> length s' \<le> length s"
    by (cases "(s, n)" rule: body_read.cases) (auto simp: body_inv_def split: if_splits)
next
  fix s and n :: nat and e s'
  assume "body_inv s" and "0 < n"
  then show "body_read s n \<noteq> (Ready (Inl e), s')"
    by (cases "(s, n)" rule: body_read.cases) auto
next
  fix s and n :: nat and s'
  assume "body_inv s" and "0 < n" and "body_read s n = (Pending, s')"
  then show "body_inv s' \<and> body_bytes s' = body_bytes s \<and> length s' < length s"
    by (cases "(s, n)" rule: body_read.cases) (auto simp: body_inv_def)
qed

end
