(* ===== verification/Quota.thy ===== *)
theory Quota
  imports Reader
begin

text \<open>
  Upload limits, \<open>crates/maxio-storage/src/quota.rs\<close>: the size and free-space checks, the
  reader that enforces them while a body is being consumed, and the encoding of quota
  errors in \<open>std::io::Error\<close> messages that lets them cross the \<open>AsyncRead\<close> interface.

  \<open>statvfs\<close> is the operating system's answer for the data directory: total blocks,
  available blocks and fragment size.
\<close>

record QuotaLimits =
  max_object_bytes :: nat
  min_free_disk_bytes :: nat

type_synonym statvfs = "nat \<times> nat \<times> nat"

definition from_config :: "nat \<Rightarrow> nat \<Rightarrow> QuotaLimits" where
  "from_config max_bytes min_free =
     \<lparr>max_object_bytes = max_bytes, min_free_disk_bytes = min_free\<rparr>"

definition available_disk_bytes :: "statvfs option \<Rightarrow> nat option" where
  "available_disk_bytes st =
     (case st of None \<Rightarrow> None
      | Some (f_blocks, f_bavail, f_frsize) \<Rightarrow> Some ((f_bavail * f_frsize) mod 2 ^ 64))"

definition disk_space_bytes :: "statvfs option \<Rightarrow> (nat \<times> nat) option" where
  "disk_space_bytes st =
     (case st of None \<Rightarrow> None
      | Some (f_blocks, f_bavail, f_frsize) \<Rightarrow>
          Some ((f_blocks * f_frsize) mod 2 ^ 64, (f_bavail * f_frsize) mod 2 ^ 64))"

definition check_object_size :: "QuotaLimits \<Rightarrow> nat \<Rightarrow> StorageError + unit" where
  "check_object_size l object_bytes =
     (if max_object_bytes l > 0 \<and> object_bytes > max_object_bytes l
      then Inl (ObjectTooLarge (max_object_bytes l)) else Inr ())"

definition check_declared_size :: "QuotaLimits \<Rightarrow> nat option \<Rightarrow> StorageError + unit" where
  "check_declared_size l declared =
     (case declared of None \<Rightarrow> Inr () | Some n \<Rightarrow> check_object_size l n)"

definition below_reserve_msg :: "nat \<Rightarrow> nat \<Rightarrow> string" where
  "below_reserve_msg available reserve =
     ''free disk space '' @ show_nat available @ '' bytes is below reserve '' @
     show_nat reserve @ '' bytes''"

definition check_disk_reserve :: "QuotaLimits \<Rightarrow> statvfs option \<Rightarrow> StorageError + unit" where
  "check_disk_reserve l st =
     (if min_free_disk_bytes l = 0 then Inr ()
      else (case available_disk_bytes st of
              None \<Rightarrow> Inl (InsufficientStorage ''unable to determine free disk space'')
            | Some available \<Rightarrow>
                if available < min_free_disk_bytes l
                then Inl (InsufficientStorage (below_reserve_msg available (min_free_disk_bytes l)))
                else Inr ()))"

definition check_write_progress ::
  "QuotaLimits \<Rightarrow> statvfs option \<Rightarrow> nat \<Rightarrow> StorageError + unit" where
  "check_write_progress l st written =
     (case check_object_size l written of
        Inl e \<Rightarrow> Inl e
      | Inr _ \<Rightarrow>
          if min_free_disk_bytes l > 0
          then (case available_disk_bytes st of
                  None \<Rightarrow> Inl (InsufficientStorage ''unable to determine free disk space'')
                | Some available \<Rightarrow>
                    if available < min_free_disk_bytes l
                    then Inl (InsufficientStorage (below_reserve_msg available (min_free_disk_bytes l)))
                    else Inr ())
          else Inr ())"

text \<open>\<open>check_upload_start\<close> of \<open>filesystem/mod.rs\<close>.\<close>

definition check_upload_start ::
  "QuotaLimits \<Rightarrow> statvfs option \<Rightarrow> nat option \<Rightarrow> StorageError + unit" where
  "check_upload_start l st declared =
     (case check_declared_size l declared of Inl e \<Rightarrow> Inl e | Inr _ \<Rightarrow> check_disk_reserve l st)"

section \<open>Quota errors as I/O errors\<close>

text \<open>The \<open>Display\<close> text of a storage error (the \<open>#[error(...)]\<close> attributes).\<close>

fun storage_error_to_string :: "StorageError \<Rightarrow> string" where
  "storage_error_to_string (Io e) = ''IO error: '' @ io_msg e"
| "storage_error_to_string (Json m) = ''JSON error: '' @ m"
| "storage_error_to_string (NotFound m) = ''Not found: '' @ m"
| "storage_error_to_string BucketNotEmpty = ''Bucket not empty''"
| "storage_error_to_string (InvalidKey m) = ''Invalid key: '' @ m"
| "storage_error_to_string (UploadNotFound m) = ''Multipart upload not found: '' @ m"
| "storage_error_to_string (VersionNotFound m) = ''Version not found: '' @ m"
| "storage_error_to_string (ChecksumMismatch m) = ''Checksum mismatch: '' @ m"
| "storage_error_to_string (EncryptionError m) = ''Encryption error: '' @ m"
| "storage_error_to_string (DecryptionError m) = ''Decryption error: '' @ m"
| "storage_error_to_string (IntegrityError m) = ''Integrity error: '' @ m"
| "storage_error_to_string (ObjectTooLarge n) =
     ''object exceeds maximum allowed size of '' @ show_nat n @ '' bytes''"
| "storage_error_to_string (InsufficientStorage m) = ''insufficient storage: '' @ m"
| "storage_error_to_string (ObjectLocked m) = ''object locked: '' @ m"

fun quota_io_error :: "StorageError \<Rightarrow> io_error" where
  "quota_io_error (ObjectTooLarge n) = io_other (''maxio:quota:object-too-large:'' @ show_nat n)"
| "quota_io_error (InsufficientStorage m) = io_other (''maxio:quota:insufficient-storage:'' @ m)"
| "quota_io_error e = io_other (storage_error_to_string e)"

definition map_read_quota_error :: "io_error \<Rightarrow> StorageError" where
  "map_read_quota_error err =
     (case Option.bind (strip_prefix (io_msg err) ''maxio:quota:object-too-large:'') parse_u64 of
        Some n \<Rightarrow> ObjectTooLarge n
      | None \<Rightarrow>
          (case strip_prefix (io_msg err) ''maxio:quota:insufficient-storage:'' of
             Some r \<Rightarrow> InsufficientStorage r
           | None \<Rightarrow> Io err))"

section \<open>The quota reader\<close>

record 's QuotaReader =
  qr_inner :: 's
  qr_written :: nat
  qr_limits :: QuotaLimits

definition QuotaReader_new :: "'s \<Rightarrow> QuotaLimits \<Rightarrow> 's QuotaReader" where
  "QuotaReader_new inner limits = \<lparr>qr_inner = inner, qr_written = 0, qr_limits = limits\<rparr>"

text \<open>
  \<open>poll_read\<close>. The free space is read again at every delivery; \<open>disk w\<close> is what
  \<open>statvfs\<close> answers once \<open>w\<close> bytes have been taken from the body.
\<close>

definition quota_poll_read ::
  "'s reader \<Rightarrow> (nat \<Rightarrow> statvfs option) \<Rightarrow> 's QuotaReader reader" where
  "quota_poll_read inner disk q n =
     (case inner (qr_inner q) n of
        (Pending, s') \<Rightarrow> (Pending, q\<lparr>qr_inner := s'\<rparr>)
      | (Ready (Inl e), s') \<Rightarrow> (Ready (Inl e), q\<lparr>qr_inner := s'\<rparr>)
      | (Ready (Inr bs), s') \<Rightarrow>
          (if length bs > 0
           then (let w = qr_written q + length bs; q' = q\<lparr>qr_inner := s', qr_written := w\<rparr>
                 in case check_write_progress (qr_limits q) (disk w) w of
                      Inl e \<Rightarrow> (Ready (Inl (quota_io_error e)), q')
                    | Inr _ \<Rightarrow> (Ready (Inr bs), q'))
           else (Ready (Inr bs), q\<lparr>qr_inner := s'\<rparr>)))"

definition quota_within :: "QuotaLimits \<Rightarrow> (nat \<Rightarrow> statvfs option) \<Rightarrow> nat \<Rightarrow> nat \<Rightarrow> bool" where
  "quota_within l disk lo hi \<longleftrightarrow>
     (\<forall>w. lo < w \<and> w \<le> hi \<longrightarrow> check_write_progress l (disk w) w = Inr ())"

lemma check_write_progress_no_reserve:
  "min_free_disk_bytes l = 0 \<Longrightarrow> check_write_progress l st w = check_object_size l w"
  by (simp add: check_write_progress_def split: sum.splits)

lemma check_object_size_Inr:
  "check_object_size l w = Inr () \<longleftrightarrow> max_object_bytes l = 0 \<or> w \<le> max_object_bytes l"
  by (auto simp: check_object_size_def)

text \<open>A size within the object limit, and a read that ends because the reserve is not free.\<close>

definition fits :: "QuotaLimits \<Rightarrow> nat \<Rightarrow> bool" where
  "fits l n \<longleftrightarrow> max_object_bytes l = 0 \<or> n \<le> max_object_bytes l"

definition no_room :: "QuotaLimits \<Rightarrow> (nat \<Rightarrow> statvfs option) \<Rightarrow> nat \<Rightarrow> io_error + bytes \<Rightarrow> bool" where
  "no_room l disk w r \<longleftrightarrow>
     0 < min_free_disk_bytes l
     \<and> (\<forall>available. available_disk_bytes (disk w) = Some available \<longrightarrow> available < min_free_disk_bytes l)
     \<and> (\<exists>m. r = Inl (quota_io_error (InsufficientStorage m)))"

section \<open>Wrapping a well-behaved body\<close>

context stream_reader
begin

text \<open>Below the limits the quota reader is invisible: it satisfies the inner contract.\<close>

lemma quota_stream:
  "stream_reader (quota_poll_read rd disk)
     (\<lambda>q. inv (qr_inner q) \<and>
        quota_within (qr_limits q) disk (qr_written q) (qr_written q + length (rest (qr_inner q))))
     (\<lambda>q. rest (qr_inner q)) (\<lambda>q. wait (qr_inner q))"
proof (unfold_locales, goal_cases)
  case (1 q n bs q')
  then have i: "inv (qr_inner q)" and n: "0 < n" by simp_all
  from i n show ?case
  proof (cases rule: poll_cases)
    case (pending s')
    with 1 show ?thesis by (simp add: quota_poll_read_def)
  next
    case (eof s')
    with 1 show ?thesis by (auto simp: quota_poll_read_def quota_within_def)
  next
    case (data bs' s')
    with 1 have "check_write_progress (qr_limits q) (disk (qr_written q + length bs'))
        (qr_written q + length bs') = Inr ()"
      by (auto simp: quota_within_def)
    with 1 data show ?thesis
      by (auto simp: quota_poll_read_def quota_within_def Let_def)
  qed
next
  case (2 q n e q')
  then have i: "inv (qr_inner q)" and n: "0 < n" by simp_all
  from i n show ?case
  proof (cases rule: poll_cases)
    case (data bs' s')
    with 2 have "check_write_progress (qr_limits q) (disk (qr_written q + length bs'))
        (qr_written q + length bs') = Inr ()"
      by (auto simp: quota_within_def)
    with data show ?thesis by (auto simp: quota_poll_read_def Let_def)
  qed (auto simp: quota_poll_read_def)
next
  case (3 q n q')
  then have i: "inv (qr_inner q)" and n: "0 < n" by simp_all
  from i n show ?case
  proof (cases rule: poll_cases)
    case (pending s')
    with 3 show ?thesis by (auto simp: quota_poll_read_def)
  next
    case (eof s')
    with 3 show ?thesis by (auto simp: quota_poll_read_def)
  next
    case (data bs s')
    with 3 show ?thesis by (auto simp: quota_poll_read_def Let_def split: sum.splits)
  qed
qed

text \<open>
  Every way in which reading a body through the quota reader ends: with the whole body, with the
  size error, or with the error of the check of the free space after some of its bytes.
\<close>

lemma quota_outcomes:
  assumes cap: "0 < cap" and "inv (qr_inner q)" and "qr_limits q = l"
    and "max_object_bytes l = 0 \<or> qr_written q \<le> max_object_bytes l"
  shows "\<exists>r q'. read_to_end (quota_poll_read rd disk) cap q acc = Some (r, q') \<and>
     (r = Inr (acc @ rest (qr_inner q)) \<and> fits l (qr_written q + length (rest (qr_inner q)))
      \<or> r = Inl (quota_io_error (ObjectTooLarge (max_object_bytes l))) \<and> \<not> fits l (qr_written q + length (rest (qr_inner q)))
      \<or> (\<exists>w. qr_written q < w \<and> w \<le> qr_written q + length (rest (qr_inner q)) \<and> no_room l disk w r))"
  using assms(2-)
proof (induction q arbitrary: acc rule: wf_induct_rule
    [OF wf_measures [of "[\<lambda>q. length (rest (qr_inner q)), \<lambda>q. wait (qr_inner q)]"]])
  case (1 q)
  note unfold = read_to_end.simps [of "quota_poll_read rd disk" cap q acc]
  from "1.prems"(1) cap show ?case
  proof (cases rule: poll_cases)
    case (pending s')
    then have "quota_poll_read rd disk q cap = (Pending, q\<lparr>qr_inner := s'\<rparr>)"
      by (simp add: quota_poll_read_def)
    with "1.IH" [of "q\<lparr>qr_inner := s'\<rparr>" acc] "1.prems" pending show ?thesis
      by (simp add: unfold)
  next
    case (eof s')
    then have "quota_poll_read rd disk q cap = (Ready (Inr []), q\<lparr>qr_inner := s'\<rparr>)"
      by (simp add: quota_poll_read_def)
    with "1.prems"(3) eof show ?thesis by (auto simp: unfold fits_def)
  next
    case (data bs s')
    let ?w = "qr_written q + length bs"
    let ?q = "q\<lparr>qr_inner := s', qr_written := ?w\<rparr>"
    have len: "?w + length (rest s') = qr_written q + length (rest (qr_inner q))" "qr_written q < ?w"
      using data by auto
    show ?thesis
    proof (cases "check_write_progress l (disk ?w) ?w")
      case (Inr u)
      then have run: "quota_poll_read rd disk q cap = (Ready (Inr bs), ?q)"
        using data "1.prems" by (simp add: quota_poll_read_def Let_def)
      have "max_object_bytes l = 0 \<or> ?w \<le> max_object_bytes l"
        using Inr by (auto simp: check_write_progress_def check_object_size_def split: if_splits)
      with "1.IH" [of ?q "acc @ bs"] "1.prems" data obtain r q' where
        "read_to_end (quota_poll_read rd disk) cap ?q (acc @ bs) = Some (r, q')"
        and out: "r = Inr (acc @ bs @ rest s') \<and> fits l (?w + length (rest s'))
          \<or> r = Inl (quota_io_error (ObjectTooLarge (max_object_bytes l))) \<and> \<not> fits l (?w + length (rest s'))
          \<or> (\<exists>w. ?w < w \<and> w \<le> ?w + length (rest s') \<and> no_room l disk w r)"
        by auto
      then have "read_to_end (quota_poll_read rd disk) cap q acc = Some (r, q')" using data by (simp add: unfold run)
      moreover have "bs @ rest s' = rest (qr_inner q)" using data by simp
      ultimately show ?thesis using out less_trans [OF len(2)] unfolding len(1) by metis
    next
      case (Inl e)
      then have "read_to_end (quota_poll_read rd disk) cap q acc = Some (Inl (quota_io_error e), ?q)"
        using data "1.prems" by (simp add: unfold quota_poll_read_def Let_def)
      moreover have "e = ObjectTooLarge (max_object_bytes l) \<and> \<not> fits l ?w \<or> no_room l disk ?w (Inl (quota_io_error e))"
        using Inl by (auto simp: check_write_progress_def check_object_size_def fits_def no_room_def split: if_splits option.splits)
      moreover have "\<not> fits l ?w \<Longrightarrow> \<not> fits l (qr_written q + length (rest (qr_inner q)))"
        using len(1) by (auto simp: fits_def)
      ultimately show ?thesis using len by (metis le_add1)
    qed
  qed
qed

end

section \<open>Properties\<close>

lemma quota_prefixes_differ:
  "strip_prefix (''maxio:quota:insufficient-storage:'' @ m) ''maxio:quota:object-too-large:'' = None"
  by (simp add: strip_prefix_def)

text \<open>
  A quota failure raised inside the reader stack is recovered unchanged on the other
  side: decoding the I/O error that encodes a size or a free-space failure gives that
  failure back.
\<close>

theorem quota_error_roundtrip:
  assumes "(\<exists>n. n \<le> U64_MAX \<and> e = ObjectTooLarge n) \<or> (\<exists>m. e = InsufficientStorage m)"
  shows "map_read_quota_error (quota_io_error e) = e"
  using assms
proof
  assume "\<exists>n. n \<le> U64_MAX \<and> e = ObjectTooLarge n"
  then obtain n where "n < 2 ^ 64" and e: "e = ObjectTooLarge n" by auto
  then have "parse_u64 (show_nat n) = Some n" by (intro parse_uint_show_nat)
  then show ?thesis
    by (simp only: e quota_io_error.simps map_read_quota_error_def io_other_def
        io_error.simps strip_prefix_append bind.simps option.case)
next
  assume "\<exists>m. e = InsufficientStorage m"
  then obtain m where e: "e = InsufficientStorage m" ..
  show ?thesis
    by (simp only: e quota_io_error.simps map_read_quota_error_def io_other_def io_error.simps
        quota_prefixes_differ strip_prefix_append bind.simps option.case)
qed

theorem quota_error_roundtrip_witness:
  "map_read_quota_error (quota_io_error (ObjectTooLarge 5368709120)) = ObjectTooLarge 5368709120"
  by (rule quota_error_roundtrip) simp

text \<open>
  C6. An upload body read through the quota reader, in every fragmentation and suspension and with
  every buffer size, ends in one of three ways: with the whole body, only if it fits the configured object size (0 meaning
  no limit); with the object-too-large error, only if it does not; or with the
  insufficient-storage error, only if a reserve of free space is configured and after some number
  of bytes of the body the space was below it or could not be read. So without a reserve, or with enough
  free space all along, the body is accepted exactly when it fits.
\<close>

theorem quota_upload_exact:
  assumes "body_inv es" and "0 < cap"
  shows "\<exists>r q'. read_to_end (quota_poll_read body_read disk) cap (QuotaReader_new es l) [] = Some (r, q')
    \<and> (r = Inr (body_bytes es) \<and> fits l (length (body_bytes es))
       \<or> r = Inl (quota_io_error (ObjectTooLarge (max_object_bytes l))) \<and> \<not> fits l (length (body_bytes es))
       \<or> (\<exists>w. 0 < w \<and> w \<le> length (body_bytes es) \<and> no_room l disk w r))"
  using body.quota_outcomes [of cap "QuotaReader_new es l" l disk "[]"] assms by (simp add: QuotaReader_new_def)

theorem quota_upload_exact_witness:
  "\<exists>q'. read_to_end (quota_poll_read body_read (\<lambda>_. None)) 2
       (QuotaReader_new [Some [1, 2, 3], None, Some [4]] (from_config 3 0)) [] =
     Some (Inl (quota_io_error (ObjectTooLarge 3)), q')"
  using quota_upload_exact [of "[Some [1, 2, 3], None, Some [4]]" 2 "\<lambda>_. None" "from_config 3 0"]
  by (auto simp: body_inv_def from_config_def fits_def no_room_def)

end
