(* ===== verification/Frames.thy ===== *)
theory Frames
  imports Quota
begin

text \<open>
  Encrypted object payloads: the frame format of \<open>crypto.rs\<close>, the frame writer that
  \<open>put_object\<close> drives (\<open>object_io.rs\<close>, with \<open>common.rs\<close>), \<open>FrameEncryptor\<close> and
  \<open>FrameDecryptor\<close>.

  AES-256-GCM is not part of the sources: sealing and opening are the parameters \<open>enc\<close> and
  \<open>dec\<close> (key, nonce, associated data, message), with \<open>aead_roundtrip\<close> for what the code
  relies on. So is SHA-256 (\<open>sha\<close>). Both readers loop inside one poll; the loops are
  \<open>partial_function\<close>s over an arbitrary inner reader.
\<close>

section \<open>Sealing\<close>

type_synonym aead = "bytes \<Rightarrow> bytes \<Rightarrow> bytes \<Rightarrow> bytes \<Rightarrow> bytes option"

text \<open>
  For a 32-byte key and a 12-byte nonce, sealing a message of at most \<open>2 ^ 36\<close> bytes succeeds,
  adds a 16-byte tag, and opening with the same key, nonce and associated data gives the
  message back.
\<close>

definition aead_roundtrip :: "aead \<Rightarrow> aead \<Rightarrow> bool" where
  "aead_roundtrip enc dec \<longleftrightarrow>
     (\<forall>k n a m. length k = 32 \<and> length n = 12 \<and> length m \<le> 2 ^ 36 \<longrightarrow>
        (\<exists>c. enc k n a m = Some c \<and> length c = length m + 16 \<and> dec k n a c = Some m))"

text \<open>A sealing function for witnesses: it keeps the message and appends a constant tag.\<close>

definition toy_enc :: aead where
  "toy_enc k n a m = Some (m @ replicate 16 0)"

definition toy_dec :: aead where
  "toy_dec k n a c = (if length c < 16 then None else Some (take (length c - 16) c))"

lemma toy_roundtrip: "aead_roundtrip toy_enc toy_dec"
  by (simp add: aead_roundtrip_def toy_enc_def toy_dec_def)

definition FRAME_CHUNK_SIZE :: nat where
  "FRAME_CHUNK_SIZE = 65536"

definition FRAME_OVERHEAD :: nat where
  "FRAME_OVERHEAD = 12 + 16"

lemma FRAME_CHUNK_SIZE_pos [simp]: "0 < FRAME_CHUNK_SIZE" "FRAME_CHUNK_SIZE \<noteq> 0"
  by (simp_all add: FRAME_CHUNK_SIZE_def)

section \<open>Nonces and associated data\<close>

definition make_nonce :: "bytes \<Rightarrow> nat \<Rightarrow> bytes" where
  "make_nonce pre chunk_index = pre @ le_bytes 8 chunk_index"

definition make_frame_nonce :: "bytes \<Rightarrow> nat \<Rightarrow> StorageError + bytes" where
  "make_frame_nonce pre chunk_index =
     (if length pre = 4 then Inr (pre @ le_bytes 8 chunk_index)
      else if length pre = 8 then
        (if chunk_index > U32_MAX
         then Inl (EncryptionError ''object has too many encrypted frames for nonce format'')
         else Inr (pre @ le_bytes 4 (as_u32 chunk_index)))
      else Inl (EncryptionError ''nonce_prefix must be 4 or 8 bytes''))"

definition build_frame_aad ::
  "(bytes \<Rightarrow> bytes) \<Rightarrow> string \<Rightarrow> string \<Rightarrow> string option \<Rightarrow> nat \<Rightarrow> bytes" where
  "build_frame_aad sha bucket key version_id chunk_index =
     sha (as_bytes bucket @ [0] @ as_bytes key @ [0]
          @ as_bytes (case version_id of None \<Rightarrow> [] | Some v \<Rightarrow> v) @ [0] @ le_bytes 8 chunk_index)"

definition build_part_aad :: "(bytes \<Rightarrow> bytes) \<Rightarrow> string \<Rightarrow> nat \<Rightarrow> nat \<Rightarrow> bytes" where
  "build_part_aad sha upload_id part_number chunk_index =
     sha (as_bytes ''PART'' @ [0] @ as_bytes upload_id @ [0] @ le_bytes 4 part_number @ [0]
          @ le_bytes 8 chunk_index)"

definition object_aad_builder ::
  "(bytes \<Rightarrow> bytes) \<Rightarrow> string \<Rightarrow> string \<Rightarrow> string option \<Rightarrow> nat \<Rightarrow> bytes" where
  "object_aad_builder sha bucket key version_id =
     (\<lambda>chunk_index. build_frame_aad sha bucket key version_id chunk_index)"

definition part_aad_builder :: "(bytes \<Rightarrow> bytes) \<Rightarrow> string \<Rightarrow> nat \<Rightarrow> nat \<Rightarrow> bytes" where
  "part_aad_builder sha upload_id part_number =
     (\<lambda>chunk_index. build_part_aad sha upload_id part_number chunk_index)"

definition no_aad :: "nat \<Rightarrow> bytes" where
  "no_aad = (\<lambda>_. [])"

definition encrypt_frame_to_vec ::
  "aead \<Rightarrow> bytes \<Rightarrow> bytes \<Rightarrow> nat \<Rightarrow> bytes \<Rightarrow> bytes \<Rightarrow> StorageError + bytes" where
  "encrypt_frame_to_vec enc cipher_key nonce_prefix chunk_index plaintext aad =
     bind_res (make_frame_nonce nonce_prefix chunk_index) (\<lambda>nonce_bytes.
       case enc cipher_key nonce_bytes aad plaintext of
         None \<Rightarrow> Inl (EncryptionError ''frame encryption failed'')
       | Some ciphertext \<Rightarrow> Inr (nonce_bytes @ ciphertext))"

text \<open>The specification of a payload: the frames of its pieces, numbered from \<open>i\<close>.\<close>

fun encode_frames ::
  "aead \<Rightarrow> bytes \<Rightarrow> bytes \<Rightarrow> (nat \<Rightarrow> bytes) \<Rightarrow> nat \<Rightarrow> bytes list \<Rightarrow> StorageError + bytes" where
  "encode_frames enc k pre aad i [] = Inr []"
| "encode_frames enc k pre aad i (c # cs) =
     bind_res (encrypt_frame_to_vec enc k pre i c (aad i)) (\<lambda>f.
     bind_res (encode_frames enc k pre aad (Suc i) cs) (\<lambda>r. Inr (f @ r)))"

section \<open>The frame writer of \<open>put_object\<close>\<close>

text \<open>
  The local variables of the upload loop: bytes written, \<open>frame_buf\<close>, \<open>chunk_index\<close>, \<open>size\<close>
  and everything fed to the hashers. The cipher is the key, the nonce prefix and the
  associated data of the object; without one the payload is written as it comes.
\<close>

record frame_writer =
  fw_out :: bytes
  fw_buf :: bytes
  fw_index :: nat
  fw_size :: nat
  fw_hashed :: bytes

type_synonym cipher = "bytes \<times> bytes \<times> (nat \<Rightarrow> bytes)"

definition fw_new :: frame_writer where
  "fw_new = \<lparr>fw_out = [], fw_buf = [], fw_index = 0, fw_size = 0, fw_hashed = []\<rparr>"

function write_full_frames :: "aead \<Rightarrow> cipher \<Rightarrow> frame_writer \<Rightarrow> StorageError + frame_writer" where
  "write_full_frames enc cph w =
     (if length (fw_buf w) \<ge> FRAME_CHUNK_SIZE
      then (case cph of (k, pre, aad) \<Rightarrow>
             (case encrypt_frame_to_vec enc k pre (fw_index w) (take FRAME_CHUNK_SIZE (fw_buf w)) (aad (fw_index w)) of
                Inl e \<Rightarrow> Inl e
              | Inr f \<Rightarrow> write_full_frames enc cph
                  (w\<lparr>fw_out := fw_out w @ f, fw_buf := drop FRAME_CHUNK_SIZE (fw_buf w),
                     fw_index := Suc (fw_index w)\<rparr>)))
      else Inr w)"
  by pat_completeness auto
termination
  by (relation "measure (\<lambda>(enc, cph, w). length (fw_buf w))") (auto simp: FRAME_CHUNK_SIZE_def)

declare write_full_frames.simps [simp del]

definition flush_frame :: "aead \<Rightarrow> cipher option \<Rightarrow> frame_writer \<Rightarrow> StorageError + frame_writer" where
  "flush_frame enc cipher_opt w =
     (case cipher_opt of
        Some (k, pre, aad) \<Rightarrow>
          (if fw_buf w \<noteq> []
           then bind_res (encrypt_frame_to_vec enc k pre (fw_index w) (fw_buf w) (aad (fw_index w)))
                  (\<lambda>f. Inr (w\<lparr>fw_out := fw_out w @ f\<rparr>))
           else Inr w)
      | None \<Rightarrow> Inr w)"

definition accept_bytes ::
  "aead \<Rightarrow> cipher option \<Rightarrow> bytes \<Rightarrow> frame_writer \<Rightarrow> StorageError + frame_writer" where
  "accept_bytes enc cipher_opt bs w =
     (let w = w\<lparr>fw_hashed := fw_hashed w @ bs, fw_size := fw_size w + length bs\<rparr>
      in case cipher_opt of
           Some cph \<Rightarrow> write_full_frames enc cph (w\<lparr>fw_buf := fw_buf w @ bs\<rparr>)
         | None \<Rightarrow> Inr (w\<lparr>fw_out := fw_out w @ bs\<rparr>))"

partial_function (option) put_payload ::
  "'s reader \<Rightarrow> nat \<Rightarrow> aead \<Rightarrow> cipher option \<Rightarrow> 's \<Rightarrow> frame_writer
     \<Rightarrow> ((StorageError + frame_writer) \<times> 's) option" where
  "put_payload rd cap enc cipher_opt s w =
     (case rd s cap of
        (Pending, s') \<Rightarrow> put_payload rd cap enc cipher_opt s' w
      | (Ready (Inl e), s') \<Rightarrow> Some (Inl (map_read_quota_error e), s')
      | (Ready (Inr bs), s') \<Rightarrow>
          (if bs = [] then Some (flush_frame enc cipher_opt w, s')
           else (case accept_bytes enc cipher_opt bs w of
                   Inl e \<Rightarrow> Some (Inl e, s')
                 | Inr w' \<Rightarrow> put_payload rd cap enc cipher_opt s' w')))"

text \<open>What the loop has to produce from here on, if \<open>t\<close> is the rest of the body.\<close>

definition payload_spec :: "aead \<Rightarrow> cipher option \<Rightarrow> frame_writer \<Rightarrow> bytes \<Rightarrow> StorageError + bytes" where
  "payload_spec enc cipher_opt w t =
     (case cipher_opt of
        None \<Rightarrow> Inr (fw_out w @ t)
      | Some (k, pre, aad) \<Rightarrow>
          bind_res (encode_frames enc k pre aad (fw_index w) (chunks_of FRAME_CHUNK_SIZE (fw_buf w @ t)))
            (\<lambda>ct. Inr (fw_out w @ ct)))"

lemma write_full_frames_spec:
  "case write_full_frames enc cph w of
     Inl e \<Rightarrow> payload_spec enc (Some cph) w t = Inl e
   | Inr w' \<Rightarrow> payload_spec enc (Some cph) w' t = payload_spec enc (Some cph) w t
       \<and> length (fw_buf w') < FRAME_CHUNK_SIZE \<and> fw_size w' = fw_size w \<and> fw_hashed w' = fw_hashed w"
proof (induction enc cph w rule: write_full_frames.induct)
  case (1 enc cph w)
  obtain k pre aad where cph: "cph = (k, pre, aad)" by (cases cph)
  let ?n = FRAME_CHUNK_SIZE
  show ?case
  proof (cases "?n \<le> length (fw_buf w)")
    case False
    then show ?thesis by (simp add: write_full_frames.simps [of enc cph w])
  next
    case full: True
    then have ch: "chunks_of ?n (fw_buf w @ t) = take ?n (fw_buf w) # chunks_of ?n (drop ?n (fw_buf w) @ t)"
      using chunks_of_append_exact [of ?n "take ?n (fw_buf w)" "drop ?n (fw_buf w) @ t"]
      by (metis FRAME_CHUNK_SIZE_pos(1) append.assoc append_take_drop_id length_take min.absorb2)
    let ?f = "encrypt_frame_to_vec enc k pre (fw_index w) (take ?n (fw_buf w)) (aad (fw_index w))"
    show ?thesis
    proof (cases ?f)
      case (Inl e)
      with full cph have "write_full_frames enc cph w = Inl e"
        by (subst write_full_frames.simps) simp
      with Inl cph ch show ?thesis by (simp add: payload_spec_def)
    next
      case (Inr f)
      let ?w = "w\<lparr>fw_out := fw_out w @ f, fw_buf := drop ?n (fw_buf w), fw_index := Suc (fw_index w)\<rparr>"
      have step: "write_full_frames enc cph w = write_full_frames enc cph ?w"
        using full cph Inr by (subst write_full_frames.simps) simp
      have "payload_spec enc (Some cph) ?w t = payload_spec enc (Some cph) w t"
        using cph ch Inr
        by (cases "encode_frames enc k pre aad (Suc (fw_index w)) (chunks_of ?n (drop ?n (fw_buf w) @ t))")
           (simp_all add: payload_spec_def)
      moreover note "1.IH" [OF full cph [symmetric] refl Inr]
      ultimately show ?thesis unfolding step by (simp split: sum.splits)
    qed
  qed
qed

lemma flush_frame_spec:
  assumes "length (fw_buf w) < FRAME_CHUNK_SIZE"
  shows "case flush_frame enc cipher_opt w of
     Inl e \<Rightarrow> payload_spec enc cipher_opt w [] = Inl e
   | Inr w' \<Rightarrow> payload_spec enc cipher_opt w [] = Inr (fw_out w')
       \<and> fw_size w' = fw_size w \<and> fw_hashed w' = fw_hashed w"
proof (cases cipher_opt)
  case None
  then show ?thesis by (simp add: flush_frame_def payload_spec_def)
next
  case (Some c)
  obtain k pre aad where c: "c = (k, pre, aad)" by (cases c)
  show ?thesis
  proof (cases "fw_buf w = []")
    case True
    with Some c show ?thesis by (simp add: flush_frame_def payload_spec_def)
  next
    case False
    with assms have "chunks_of FRAME_CHUNK_SIZE (fw_buf w) = [fw_buf w]" by (simp add: chunks_of_small)
    with False Some c show ?thesis
      by (cases "encrypt_frame_to_vec enc k pre (fw_index w) (fw_buf w) (aad (fw_index w))")
         (simp_all add: flush_frame_def payload_spec_def)
  qed
qed

lemma accept_bytes_spec:
  assumes "length (fw_buf w) < FRAME_CHUNK_SIZE"
  shows "case accept_bytes enc cipher_opt bs w of
     Inl e \<Rightarrow> payload_spec enc cipher_opt w (bs @ t) = Inl e
   | Inr w' \<Rightarrow> payload_spec enc cipher_opt w' t = payload_spec enc cipher_opt w (bs @ t)
       \<and> length (fw_buf w') < FRAME_CHUNK_SIZE \<and> fw_size w' = fw_size w + length bs
       \<and> fw_hashed w' = fw_hashed w @ bs"
proof (cases cipher_opt)
  case None
  with assms show ?thesis by (simp add: accept_bytes_def payload_spec_def)
next
  case (Some c)
  obtain k pre aad where c: "c = (k, pre, aad)" by (cases c)
  let ?w = "w\<lparr>fw_hashed := fw_hashed w @ bs, fw_size := fw_size w + length bs, fw_buf := fw_buf w @ bs\<rparr>"
  have "payload_spec enc (Some c) ?w t = payload_spec enc (Some c) w (bs @ t)"
    by (simp add: payload_spec_def c)
  with write_full_frames_spec [of enc c ?w t] Some show ?thesis
    by (simp add: accept_bytes_def split: sum.splits)
qed

context stream_reader
begin

text \<open>
  The upload loop writes the specified payload for every fragmentation of the body, counts
  and hashes exactly the body, and always ends.
\<close>

lemma put_payload_all:
  assumes "inv s" and "0 < cap" and "length (fw_buf w) < FRAME_CHUNK_SIZE"
  shows "\<exists>r s'. put_payload rd cap enc cipher_opt s w = Some (r, s') \<and>
    (case r of
       Inl e \<Rightarrow> payload_spec enc cipher_opt w (rest s) = Inl e
     | Inr w' \<Rightarrow> payload_spec enc cipher_opt w (rest s) = Inr (fw_out w')
         \<and> fw_size w' = fw_size w + length (rest s) \<and> fw_hashed w' = fw_hashed w @ rest s)"
  using assms(1,3)
proof (induction s arbitrary: w rule: wf_induct_rule
    [OF wf_measures [of "[\<lambda>s. length (rest s), wait]"]])
  case (1 s)
  note unfold = put_payload.simps [of rd cap enc cipher_opt s w]
  from "1.prems"(1) assms(2) show ?case
  proof (cases rule: poll_cases)
    case (pending s')
    then have "put_payload rd cap enc cipher_opt s w = put_payload rd cap enc cipher_opt s' w"
      by (simp add: unfold)
    moreover have "(s', s) \<in> measures [\<lambda>s. length (rest s), wait]" using pending by simp
    ultimately show ?thesis using "1.IH" [of s' w] pending "1.prems"(2) by (simp only:)
  next
    case (eof s')
    then have "put_payload rd cap enc cipher_opt s w = Some (flush_frame enc cipher_opt w, s')"
      by (simp add: unfold)
    with flush_frame_spec [OF "1.prems"(2), of enc cipher_opt] eof show ?thesis
      by (simp split: sum.splits)
  next
    case (data bs s')
    show ?thesis
    proof (cases "accept_bytes enc cipher_opt bs w")
      case (Inl e)
      with accept_bytes_spec [OF "1.prems"(2), of enc cipher_opt bs "rest s'"] data show ?thesis
        by (simp add: unfold)
    next
      case (Inr w')
      note spec = accept_bytes_spec [OF "1.prems"(2), of enc cipher_opt bs "rest s'", unfolded Inr]
      have st: "put_payload rd cap enc cipher_opt s w = put_payload rd cap enc cipher_opt s' w'"
        using Inr data by (simp add: unfold)
      from "1.IH" [of s' w'] data spec obtain r s'' where
        r: "put_payload rd cap enc cipher_opt s' w' = Some (r, s'')"
        and rs: "case r of
           Inl e \<Rightarrow> payload_spec enc cipher_opt w' (rest s') = Inl e
         | Inr v \<Rightarrow> payload_spec enc cipher_opt w' (rest s') = Inr (fw_out v)
             \<and> fw_size v = fw_size w' + length (rest s') \<and> fw_hashed v = fw_hashed w' @ rest s'"
        by auto
      from rs spec data have "case r of
           Inl e \<Rightarrow> payload_spec enc cipher_opt w (rest s) = Inl e
         | Inr v \<Rightarrow> payload_spec enc cipher_opt w (rest s) = Inr (fw_out v)
             \<and> fw_size v = fw_size w + length (rest s) \<and> fw_hashed v = fw_hashed w @ rest s"
        by (simp split: sum.splits)
      with st r show ?thesis by auto
    qed
  qed
qed

end

end
