(* ===== verification/FrameStreams.thy ===== *)
theory FrameStreams
  imports Frames
begin

text \<open>
  The stream adapters of \<open>crypto.rs\<close>. \<open>FrameEncryptor\<close> turns a plaintext reader into the
  frame stream, \<open>FrameDecryptor\<close> turns a frame stream, positioned at a frame boundary, into
  the requested range of the plaintext. Both keep the contract of \<open>stream_reader\<close>, so they
  can be stacked on any body and on one another.
\<close>

section \<open>Frames of a sealed payload\<close>

lemma make_frame_nonce_cases:
  assumes "make_frame_nonce pre i = Inr nn" and "i < 2 ^ 64"
  shows "length nn = 12 \<and> (from_le_bytes (take 8 (drop 4 nn)) = i \<or> from_le_bytes (take 4 (drop 8 nn)) = i)"
proof (cases "length pre = 4")
  case True
  then have nn: "nn = pre @ le_bytes 8 i" using assms(1) by (simp add: make_frame_nonce_def)
  have "from_le_bytes (le_bytes 8 i) = i" using assms(2) by (intro from_le_bytes_le_bytes) simp
  with True show ?thesis by (simp add: nn)
next
  case False
  then have nn: "length pre = 8" "i \<le> U32_MAX" "nn = pre @ le_bytes 4 (as_u32 i)"
    using assms(1) by (auto simp: make_frame_nonce_def split: if_splits)
  have "from_le_bytes (le_bytes 4 i) = i" using nn(2) by (intro from_le_bytes_le_bytes) simp
  with nn show ?thesis by (simp add: as_u32_id)
qed

lemma encrypt_frame_Inr:
  assumes "encrypt_frame_to_vec enc k pre i c a = Inr f"
  obtains nn ct where "make_frame_nonce pre i = Inr nn" and "enc k nn a c = Some ct" and "f = nn @ ct"
  using assms by (auto simp: encrypt_frame_to_vec_def bind_res_Inr split: option.splits)

lemma encrypt_frame_opens:
  assumes "aead_roundtrip enc dec" and "length k = 32" and "length c \<le> 2 ^ 36" and "i < 2 ^ 64"
    and "encrypt_frame_to_vec enc k pre i c a = Inr f"
  shows "length f = 12 + length c + 16 \<and> dec k (take 12 f) a (drop 12 f) = Some c
     \<and> (from_le_bytes (take 8 (drop 4 (take 12 f))) = i \<or> from_le_bytes (take 4 (drop 8 (take 12 f))) = i)"
proof -
  obtain nn ct where nn: "make_frame_nonce pre i = Inr nn" and ct: "enc k nn a c = Some ct" and f: "f = nn @ ct"
    using assms(5) by (rule encrypt_frame_Inr)
  note n12 = make_frame_nonce_cases [OF nn assms(4)]
  with assms(1-3) ct have "length ct = length c + 16 \<and> dec k nn a ct = Some c"
    unfolding aead_roundtrip_def by (metis option.inject)
  with n12 f show ?thesis by auto
qed

lemma encode_frames_total:
  assumes "aead_roundtrip enc dec" and "length k = 32" and "\<And>c. c \<in> set cs \<Longrightarrow> length c \<le> 2 ^ 36"
    and "length pre = 4 \<or> length pre = 8 \<and> i + length cs \<le> 2 ^ 32"
  shows "\<exists>ct. encode_frames enc k pre aad i cs = Inr ct"
  using assms(3,4)
proof (induction cs arbitrary: i)
  case (Cons c cs)
  have "\<exists>nn. make_frame_nonce pre i = Inr nn \<and> length nn = 12"
    using Cons.prems(2) by (auto simp: make_frame_nonce_def)
  then obtain nn where nn: "make_frame_nonce pre i = Inr nn" "length nn = 12" by blast
  with assms(1,2) Cons.prems(1) [of c] obtain e where "enc k nn (aad i) c = Some e"
    unfolding aead_roundtrip_def by fastforce
  with nn have "encrypt_frame_to_vec enc k pre i c (aad i) = Inr (nn @ e)"
    by (simp add: encrypt_frame_to_vec_def)
  moreover have "\<exists>ct. encode_frames enc k pre aad (Suc i) cs = Inr ct"
    using Cons.prems by (intro Cons.IH) auto
  ultimately show ?case by auto
qed simp

section \<open>The encryptor\<close>

text \<open>\<open>fe_pt\<close> is \<open>pt_buf[..pt_len]\<close>, \<open>fe_ct\<close> is \<open>ct_buf[ct_pos..]\<close>.\<close>

record 's FrameEncryptor =
  fe_inner :: 's
  fe_key :: bytes
  fe_nonce_prefix :: bytes
  fe_chunk_index :: nat
  fe_aad_builder :: "nat \<Rightarrow> bytes"
  fe_pt :: bytes
  fe_ct :: bytes
  fe_done :: bool

definition FrameEncryptor_new :: "'s \<Rightarrow> bytes \<Rightarrow> bytes \<Rightarrow> (nat \<Rightarrow> bytes) \<Rightarrow> 's FrameEncryptor" where
  "FrameEncryptor_new inner key nonce_prefix aad_builder =
     \<lparr>fe_inner = inner, fe_key = key, fe_nonce_prefix = nonce_prefix, fe_chunk_index = 0,
      fe_aad_builder = aad_builder, fe_pt = [], fe_ct = [], fe_done = False\<rparr>"

definition encrypt_current_chunk :: "aead \<Rightarrow> 's FrameEncryptor \<Rightarrow> io_error + 's FrameEncryptor" where
  "encrypt_current_chunk enc e =
     (let nonce_bytes = make_nonce (fe_nonce_prefix e) (fe_chunk_index e);
          aad = fe_aad_builder e (fe_chunk_index e)
      in case enc (fe_key e) nonce_bytes aad (fe_pt e) of
           None \<Rightarrow> Inl (io_other ''AES-GCM encryption failed'')
         | Some ct \<Rightarrow> Inr (e\<lparr>fe_ct := nonce_bytes @ ct, fe_chunk_index := Suc (fe_chunk_index e), fe_pt := []\<rparr>))"

partial_function (option) encryptor_poll ::
  "'s reader \<Rightarrow> aead \<Rightarrow> 's FrameEncryptor \<Rightarrow> nat \<Rightarrow> ((io_error + bytes) poll \<times> 's FrameEncryptor) option" where
  "encryptor_poll rd enc e n =
     (if fe_ct e \<noteq> [] then Some (Ready (Inr (take n (fe_ct e))), e\<lparr>fe_ct := drop n (fe_ct e)\<rparr>)
      else if fe_done e then Some (Ready (Inr []), e)
      else if length (fe_pt e) = FRAME_CHUNK_SIZE then
        (case encrypt_current_chunk enc e of
           Inl er \<Rightarrow> Some (Ready (Inl er), e)
         | Inr e' \<Rightarrow> encryptor_poll rd enc e' n)
      else
        (case rd (fe_inner e) (FRAME_CHUNK_SIZE - length (fe_pt e)) of
           (Pending, s') \<Rightarrow> Some (Pending, e\<lparr>fe_inner := s'\<rparr>)
         | (Ready (Inl er), s') \<Rightarrow> Some (Ready (Inl er), e\<lparr>fe_inner := s'\<rparr>)
         | (Ready (Inr bs), s') \<Rightarrow>
             (if bs = [] then
                (if fe_pt e \<noteq> [] then
                   (case encrypt_current_chunk enc (e\<lparr>fe_inner := s'\<rparr>) of
                      Inl er \<Rightarrow> Some (Ready (Inl er), e\<lparr>fe_inner := s'\<rparr>)
                    | Inr e' \<Rightarrow> encryptor_poll rd enc e' n)
                 else encryptor_poll rd enc (e\<lparr>fe_inner := s', fe_done := True\<rparr>) n)
              else encryptor_poll rd enc (e\<lparr>fe_inner := s', fe_pt := fe_pt e @ bs\<rparr>) n)))"

definition encryptor_read :: "'s reader \<Rightarrow> aead \<Rightarrow> 's FrameEncryptor reader" where
  "encryptor_read rd enc = poll_or_hang (encryptor_poll rd enc)"

definition frames_or_nil :: "StorageError + bytes \<Rightarrow> bytes" where
  "frames_or_nil r = (case r of Inr ct \<Rightarrow> ct | Inl _ \<Rightarrow> [])"

context stream_reader
begin

definition enc_inv :: "'s FrameEncryptor \<Rightarrow> bool" where
  "enc_inv e \<longleftrightarrow> inv (fe_inner e) \<and> length (fe_key e) = 32 \<and> length (fe_nonce_prefix e) = 4
     \<and> length (fe_pt e) \<le> FRAME_CHUNK_SIZE \<and> (fe_done e \<longrightarrow> fe_pt e = [] \<and> rest (fe_inner e) = [])"

definition enc_rest :: "aead \<Rightarrow> 's FrameEncryptor \<Rightarrow> bytes" where
  "enc_rest enc e = fe_ct e @ frames_or_nil
     (encode_frames enc (fe_key e) (fe_nonce_prefix e) (fe_aad_builder e) (fe_chunk_index e)
        (chunks_of FRAME_CHUNK_SIZE (fe_pt e @ rest (fe_inner e))))"

lemma encrypt_current_chunk_rest:
  assumes "aead_roundtrip enc dec" and "enc_inv e" and "fe_pt e \<noteq> []" and "fe_ct e = []"
    and full: "length (fe_pt e) = FRAME_CHUNK_SIZE \<or> rest (fe_inner e) = []"
  shows "\<exists>e'. encrypt_current_chunk enc e = Inr e' \<and> enc_inv e' \<and> fe_ct e' \<noteq> []
     \<and> enc_rest enc e' = enc_rest enc e \<and> fe_inner e' = fe_inner e"
proof -
  let ?nn = "make_nonce (fe_nonce_prefix e) (fe_chunk_index e)"
  let ?t = "rest (fe_inner e)" and ?i = "fe_chunk_index e"
  have nn: "make_frame_nonce (fe_nonce_prefix e) ?i = Inr ?nn" "length ?nn = 12"
    using assms(2) by (simp_all add: make_frame_nonce_def make_nonce_def enc_inv_def)
  have le: "length (fe_pt e) \<le> 2 ^ 36" using assms(2) by (simp add: enc_inv_def FRAME_CHUNK_SIZE_def)
  with assms(1,2) nn obtain ct where ct: "enc (fe_key e) ?nn (fe_aad_builder e ?i) (fe_pt e) = Some ct"
    unfolding aead_roundtrip_def enc_inv_def by metis
  let ?e = "e\<lparr>fe_ct := ?nn @ ct, fe_chunk_index := Suc ?i, fe_pt := []\<rparr>"
  have "chunks_of FRAME_CHUNK_SIZE (fe_pt e @ ?t) = fe_pt e # chunks_of FRAME_CHUNK_SIZE ?t"
    using full assms(2,3) by (auto simp: chunks_of_append_exact chunks_of_small enc_inv_def)
  moreover obtain r where "encode_frames enc (fe_key e) (fe_nonce_prefix e) (fe_aad_builder e) (Suc ?i)
      (chunks_of FRAME_CHUNK_SIZE ?t) = Inr r"
    using encode_frames_total [OF assms(1)] chunks_of_nonempty [OF FRAME_CHUNK_SIZE_pos(1)] assms(2)
    by (fastforce simp: enc_inv_def FRAME_CHUNK_SIZE_def)
  ultimately have "enc_rest enc ?e = enc_rest enc e"
    using nn ct assms(4) by (simp add: enc_rest_def frames_or_nil_def encrypt_frame_to_vec_def)
  moreover have "enc_inv ?e" "fe_ct ?e \<noteq> []" using assms(2) nn by (auto simp: enc_inv_def)
  ultimately show ?thesis using ct by (simp add: encrypt_current_chunk_def Let_def)
qed

lemma encryptor_poll_ok:
  assumes "aead_roundtrip enc dec" and "enc_inv e" and "0 < n"
  shows "\<exists>r. encryptor_poll rd enc e n = Some r \<and> poll_ok enc_inv (enc_rest enc) (\<lambda>e. wait (fe_inner e)) e n r"
  using assms(2)
proof (induction e rule: wf_induct_rule
    [OF wf_measures [of "[\<lambda>e. if fe_ct e = [] then 1 else 0, \<lambda>e. if fe_done e then 0 else 1,
       \<lambda>e. length (rest (fe_inner e))]"]])
  case (1 e)
  let ?ok = "poll_ok enc_inv (enc_rest enc) (\<lambda>e. wait (fe_inner e))"
  note unfold = encryptor_poll.simps [of rd enc e n]
  have step: ?case
    if "encryptor_poll rd enc e n = encryptor_poll rd enc e1 n" and "enc_inv e1"
      and "enc_rest enc e1 = enc_rest enc e" and "wait (fe_inner e1) \<le> wait (fe_inner e)"
      and "(e1, e) \<in> measures [\<lambda>e. if fe_ct e = [] then 1 else 0, \<lambda>e. if fe_done e then 0 else 1,
       \<lambda>e. length (rest (fe_inner e))]" for e1
    using "1.IH" [OF that(5,2)] that(1,3,4) poll_ok_step by fastforce
  show ?case
  proof (cases "fe_ct e = [] \<and> \<not> fe_done e")
    case False
    with "1.prems" assms(3) show ?thesis
      by (auto simp: unfold poll_ok_def enc_inv_def enc_rest_def frames_or_nil_def)
  next
    case True
    show ?thesis
    proof (cases "length (fe_pt e) = FRAME_CHUNK_SIZE")
      case full: True
      then have "fe_pt e \<noteq> []" by (auto simp: FRAME_CHUNK_SIZE_def)
      with encrypt_current_chunk_rest [OF assms(1) "1.prems"] full True obtain e' where
        "encrypt_current_chunk enc e = Inr e'" "enc_inv e'" "fe_ct e' \<noteq> []"
        "enc_rest enc e' = enc_rest enc e" "fe_inner e' = fe_inner e" by auto
      with full True show ?thesis by (intro step [of e']) (simp_all add: unfold)
    next
      case False
      with "1.prems" have "inv (fe_inner e)" and "0 < FRAME_CHUNK_SIZE - length (fe_pt e)"
        by (auto simp: enc_inv_def)
      then show ?thesis
      proof (cases rule: poll_cases)
        case (pending s')
        with True False "1.prems" show ?thesis
          by (simp add: unfold poll_ok_def enc_inv_def enc_rest_def)
      next
        case (data bs s')
        with True False "1.prems" show ?thesis
          by (intro step [of "e\<lparr>fe_inner := s', fe_pt := fe_pt e @ bs\<rparr>"])
             (auto simp: unfold enc_inv_def enc_rest_def)
      next
        case (eof s')
        let ?e = "e\<lparr>fe_inner := s'\<rparr>"
        have inv': "enc_inv ?e" "enc_rest enc ?e = enc_rest enc e" "fe_ct ?e = []" "rest (fe_inner ?e) = []"
          using eof True "1.prems" by (auto simp: enc_inv_def enc_rest_def)
        show ?thesis
        proof (cases "fe_pt e = []")
          case empty: True
          with eof True False inv' "1.prems" show ?thesis
            by (intro step [of "e\<lparr>fe_inner := s', fe_done := True\<rparr>"])
               (auto simp: unfold enc_inv_def enc_rest_def)
        next
          case ne: False
          with encrypt_current_chunk_rest [OF assms(1) inv'(1)] inv' obtain e' where
            "encrypt_current_chunk enc ?e = Inr e'" "enc_inv e'" "fe_ct e' \<noteq> []"
            "enc_rest enc e' = enc_rest enc ?e" "fe_inner e' = s'" by auto
          with eof True False ne inv' show ?thesis by (intro step [of e']) (simp_all add: unfold)
        qed
      qed
    qed
  qed
qed

lemma encryptor_stream:
  assumes "aead_roundtrip enc dec"
  shows "stream_reader (encryptor_read rd enc) enc_inv (enc_rest enc) (\<lambda>e. wait (fe_inner e))"
  unfolding encryptor_read_def
  by (rule stream_reader_poll_or_hang) (rule encryptor_poll_ok [OF assms])

end

section \<open>The decryptor\<close>

text \<open>
  \<open>fd_frame\<close> is \<open>frame_buf[..frame_filled]\<close>; the other fields are the source's. Offsets,
  lengths and frame numbers are \<open>u64\<close> values whose products stay below \<open>2 ^ 64\<close> for an
  object that has a \<open>u64\<close> size.
\<close>

record 's FrameDecryptor =
  fd_inner :: 's
  fd_key :: bytes
  fd_aad_builder :: "nat \<Rightarrow> bytes"
  fd_plaintext_size :: nat
  fd_chunk_size :: nat
  fd_chunk_index :: nat
  fd_skip_bytes :: nat
  fd_remaining :: nat
  fd_frame :: bytes
  fd_frame_target :: nat
  fd_out_buf :: bytes
  fd_out_pos :: nat
  fd_done :: bool

definition update_frame_target :: "'s FrameDecryptor \<Rightarrow> 's FrameDecryptor" where
  "update_frame_target d =
     (let bytes_before = fd_chunk_index d * fd_chunk_size d
      in if bytes_before \<ge> fd_plaintext_size d then d\<lparr>fd_frame_target := 0\<rparr>
         else d\<lparr>fd_frame_target := 12 + min (fd_plaintext_size d - bytes_before) (fd_chunk_size d) + 16\<rparr>)"

definition for_range_internal ::
  "'s \<Rightarrow> bytes \<Rightarrow> nat \<Rightarrow> nat \<Rightarrow> nat \<Rightarrow> nat \<Rightarrow> nat \<Rightarrow> (nat \<Rightarrow> bytes) \<Rightarrow> 's FrameDecryptor" where
  "for_range_internal inner key plaintext_size chunk_size start_frame remaining skip_bytes aad_builder =
     (let done = (plaintext_size = 0 \<or> remaining = 0);
          d = \<lparr>fd_inner = inner, fd_key = key, fd_aad_builder = aad_builder,
               fd_plaintext_size = plaintext_size, fd_chunk_size = chunk_size,
               fd_chunk_index = start_frame, fd_skip_bytes = skip_bytes, fd_remaining = remaining,
               fd_frame = [], fd_frame_target = 0, fd_out_buf = [], fd_out_pos = 0, fd_done = done\<rparr>
      in if \<not> done then update_frame_target d else d)"

definition FrameDecryptor_new ::
  "'s \<Rightarrow> bytes \<Rightarrow> nat \<Rightarrow> nat \<Rightarrow> (nat \<Rightarrow> bytes) \<Rightarrow> 's FrameDecryptor" where
  "FrameDecryptor_new inner key plaintext_size chunk_size aad_builder =
     for_range_internal inner key plaintext_size chunk_size 0 plaintext_size 0 aad_builder"

text \<open>The divisions panic on a chunk size of 0, which no stored object has.\<close>

definition for_range ::
  "'s \<Rightarrow> bytes \<Rightarrow> nat \<Rightarrow> nat \<Rightarrow> nat \<Rightarrow> nat \<Rightarrow> (nat \<Rightarrow> bytes) \<Rightarrow> 's FrameDecryptor option" where
  "for_range inner key plaintext_size chunk_size offset len aad_builder =
     (if chunk_size = 0 then None
      else Some (for_range_internal inner key plaintext_size chunk_size (offset div chunk_size) len
                   (offset mod chunk_size) aad_builder))"

definition ciphertext_offset :: "nat \<Rightarrow> nat \<Rightarrow> nat option" where
  "ciphertext_offset chunk_size offset =
     (if chunk_size = 0 then None else Some (offset div chunk_size * (chunk_size + FRAME_OVERHEAD)))"

definition fd_skip :: "'s FrameDecryptor \<Rightarrow> 's FrameDecryptor" where
  "fd_skip d =
     (if fd_out_pos d < length (fd_out_buf d) \<and> fd_skip_bytes d > 0
      then (let skip = min (fd_skip_bytes d) (length (fd_out_buf d) - fd_out_pos d)
            in d\<lparr>fd_out_pos := fd_out_pos d + skip, fd_skip_bytes := fd_skip_bytes d - skip\<rparr>)
      else d)"

definition invalid_data :: "string \<Rightarrow> io_error" where
  "invalid_data m = \<lparr>io_kind = InvalidDataKind, io_msg = m\<rparr>"

definition open_frame :: "aead \<Rightarrow> 's FrameDecryptor \<Rightarrow> io_error + 's FrameDecryptor" where
  "open_frame dec d =
     (if length (fd_frame d) < 12 then Inl (invalid_data ''ciphertext frame too short to contain a nonce'')
      else (let nonce_bytes = take 12 (fd_frame d);
                ct_with_tag = drop 12 (fd_frame d);
                stored_idx_v1 = from_le_bytes (take 8 (drop 4 nonce_bytes));
                stored_idx_v2 = from_le_bytes (take 4 (drop 8 nonce_bytes))
            in if stored_idx_v1 \<noteq> fd_chunk_index d \<and> stored_idx_v2 \<noteq> fd_chunk_index d
               then Inl (invalid_data (''frame index mismatch: expected '' @ show_nat (fd_chunk_index d)
                           @ '', got '' @ show_nat stored_idx_v1))
               else (case dec (fd_key d) nonce_bytes (fd_aad_builder d (fd_chunk_index d)) ct_with_tag of
                       Some pt \<Rightarrow> Inr (update_frame_target
                         (d\<lparr>fd_out_buf := pt, fd_out_pos := 0,
                            fd_chunk_index := Suc (fd_chunk_index d), fd_frame := []\<rparr>))
                     | None \<Rightarrow> Inl (invalid_data ''AES-GCM decryption failed: authentication error''))))"

partial_function (option) decryptor_poll ::
  "'s reader \<Rightarrow> aead \<Rightarrow> 's FrameDecryptor \<Rightarrow> nat \<Rightarrow> ((io_error + bytes) poll \<times> 's FrameDecryptor) option" where
  "decryptor_poll rd dec d0 n =
     (let d = fd_skip d0 in
      if fd_out_pos d < length (fd_out_buf d) \<and> fd_remaining d > 0 \<and> n > 0 then
        (let avail = min (min (length (fd_out_buf d) - fd_out_pos d) (fd_remaining d)) n
         in Some (Ready (Inr (take avail (drop (fd_out_pos d) (fd_out_buf d)))),
                  d\<lparr>fd_out_pos := fd_out_pos d + avail, fd_remaining := fd_remaining d - avail\<rparr>))
      else if fd_done d \<or> fd_remaining d = 0 \<or> fd_frame_target d = 0 then Some (Ready (Inr []), d)
      else if length (fd_frame d) = fd_frame_target d then
        (case open_frame dec d of
           Inl e \<Rightarrow> Some (Ready (Inl e), d)
         | Inr d' \<Rightarrow> decryptor_poll rd dec d' n)
      else
        (case rd (fd_inner d) (fd_frame_target d - length (fd_frame d)) of
           (Pending, s') \<Rightarrow> Some (Pending, d\<lparr>fd_inner := s'\<rparr>)
         | (Ready (Inl e), s') \<Rightarrow> Some (Ready (Inl e), d\<lparr>fd_inner := s'\<rparr>)
         | (Ready (Inr bs), s') \<Rightarrow>
             (if bs = [] then
                (if fd_frame d = [] then Some (Ready (Inr []), d\<lparr>fd_inner := s', fd_done := True\<rparr>)
                 else Some (Ready (Inl \<lparr>io_kind = UnexpectedEofKind, io_msg = ''truncated encrypted frame''\<rparr>),
                            d\<lparr>fd_inner := s'\<rparr>))
              else decryptor_poll rd dec (d\<lparr>fd_inner := s', fd_frame := fd_frame d @ bs\<rparr>) n)))"

definition decryptor_read :: "'s reader \<Rightarrow> aead \<Rightarrow> 's FrameDecryptor reader" where
  "decryptor_read rd dec = poll_or_hang (decryptor_poll rd dec)"

text \<open>
  \<open>preflight\<close> awaits one byte, then rewinds the output cursor. \<open>read\<close> with a one-byte buffer
  polls until the reader is ready.
\<close>

partial_function (option) read_once ::
  "'s reader \<Rightarrow> nat \<Rightarrow> 's \<Rightarrow> ((io_error + bytes) \<times> 's) option" where
  "read_once rd cap s =
     (case rd s cap of
        (Pending, s') \<Rightarrow> read_once rd cap s'
      | (Ready r, s') \<Rightarrow> Some (r, s'))"

definition preflight ::
  "'s reader \<Rightarrow> aead \<Rightarrow> 's FrameDecryptor \<Rightarrow> ((io_error + unit) \<times> 's FrameDecryptor) option" where
  "preflight rd dec d =
     (if fd_plaintext_size d = 0 \<or> fd_remaining d = 0 then Some (Inr (), d)
      else (case read_once (decryptor_read rd dec) 1 d of
              None \<Rightarrow> None
            | Some (Inl e, d') \<Rightarrow> Some (Inl e, d')
            | Some (Inr bs, d') \<Rightarrow>
                (if bs = []
                 then Some (Inl (invalid_data ''encrypted object truncated before first plaintext byte''), d')
                 else Some (Inr (), d'\<lparr>fd_out_pos := fd_out_pos d, fd_remaining := fd_remaining d\<rparr>))))"

section \<open>Decrypting what was sealed\<close>

definition fd_ahead :: "bytes \<Rightarrow> 's FrameDecryptor \<Rightarrow> bytes" where
  "fd_ahead pt d = drop (fd_chunk_index d * fd_chunk_size d) pt"

definition fd_pending :: "bytes \<Rightarrow> 's FrameDecryptor \<Rightarrow> bytes" where
  "fd_pending pt d = drop (fd_out_pos d) (fd_out_buf d) @ fd_ahead pt d"

definition dec_rest :: "bytes \<Rightarrow> 's FrameDecryptor \<Rightarrow> bytes" where
  "dec_rest pt d = take (fd_remaining d) (drop (fd_skip_bytes d) (fd_pending pt d))"

definition fd_shape :: "bytes \<Rightarrow> 's FrameDecryptor \<Rightarrow> bool" where
  "fd_shape pt d \<longleftrightarrow> \<not> fd_done d \<and> length (fd_key d) = 32 \<and> 0 < fd_chunk_size d \<and> fd_chunk_size d \<le> 2 ^ 36
     \<and> fd_plaintext_size d = length pt \<and> length pt < 2 ^ 64
     \<and> fd_frame_target d = (if fd_ahead pt d = [] then 0
          else 12 + min (length (fd_ahead pt d)) (fd_chunk_size d) + 16)
     \<and> fd_skip_bytes d + fd_remaining d \<le> length (fd_pending pt d)
     \<and> length (fd_frame d) \<le> fd_frame_target d"

lemma fd_skip_keeps:
  shows "fd_remaining (fd_skip d) = fd_remaining d" "fd_inner (fd_skip d) = fd_inner d"
    "fd_frame (fd_skip d) = fd_frame d" "fd_ahead pt (fd_skip d) = fd_ahead pt d"
    "fd_key (fd_skip d) = fd_key d" "fd_aad_builder (fd_skip d) = fd_aad_builder d"
    "fd_chunk_index (fd_skip d) = fd_chunk_index d" "fd_chunk_size (fd_skip d) = fd_chunk_size d"
    "fd_done (fd_skip d) = fd_done d" "fd_plaintext_size (fd_skip d) = fd_plaintext_size d"
    "fd_frame_target (fd_skip d) = fd_frame_target d"
  by (simp_all add: fd_skip_def fd_ahead_def Let_def)

lemma fd_skip_out: "fd_out_pos d \<le> length (fd_out_buf d) \<Longrightarrow> fd_out_pos (fd_skip d) \<le> length (fd_out_buf (fd_skip d))"
  by (auto simp: fd_skip_def Let_def)

lemma fd_skip_rest: "dec_rest pt (fd_skip d) = dec_rest pt d"
proof -
  have "drop (fd_skip_bytes (fd_skip d)) (fd_pending pt (fd_skip d)) = drop (fd_skip_bytes d) (fd_pending pt d)"
    unfolding fd_pending_def fd_skip_keeps
    by (cases "fd_skip_bytes d \<le> length (fd_out_buf d) - fd_out_pos d")
       (auto simp: fd_skip_def Let_def min_def add.commute)
  then show ?thesis by (simp add: dec_rest_def fd_skip_keeps)
qed

lemma fd_skip_shape: "fd_shape pt d \<Longrightarrow> fd_shape pt (fd_skip d)"
proof -
  assume sh: "fd_shape pt d"
  have "length (fd_pending pt (fd_skip d)) + fd_skip_bytes d = length (fd_pending pt d) + fd_skip_bytes (fd_skip d)"
    unfolding fd_pending_def fd_skip_keeps by (auto simp: fd_skip_def Let_def)
  then have "fd_skip_bytes (fd_skip d) + fd_remaining d \<le> length (fd_pending pt (fd_skip d))"
    using sh unfolding fd_shape_def by linarith
  with sh show ?thesis unfolding fd_shape_def fd_skip_keeps by simp
qed

lemma fd_skip_exhausts:
  "fd_out_pos d \<le> length (fd_out_buf d) \<Longrightarrow> fd_out_pos (fd_skip d) < length (fd_out_buf (fd_skip d)) \<Longrightarrow>
     fd_skip_bytes (fd_skip d) = 0"
  by (auto simp: fd_skip_def Let_def split: if_splits)

lemma fd_update_simps [simp]:
  "fd_ahead pt (d\<lparr>fd_inner := s\<rparr>) = fd_ahead pt d" "fd_ahead pt (d\<lparr>fd_frame := f\<rparr>) = fd_ahead pt d"
  "fd_pending pt (d\<lparr>fd_inner := s\<rparr>) = fd_pending pt d" "fd_pending pt (d\<lparr>fd_frame := f\<rparr>) = fd_pending pt d"
  "dec_rest pt (d\<lparr>fd_inner := s\<rparr>) = dec_rest pt d" "dec_rest pt (d\<lparr>fd_frame := f\<rparr>) = dec_rest pt d"
  by (simp_all add: fd_ahead_def fd_pending_def dec_rest_def)

lemma fd_shape_update:
  "fd_shape pt (d\<lparr>fd_inner := s\<rparr>) \<longleftrightarrow> fd_shape pt d"
  "fd_shape pt d \<Longrightarrow> length f \<le> fd_frame_target d \<Longrightarrow> fd_shape pt (d\<lparr>fd_frame := f\<rparr>)"
  by (auto simp: fd_shape_def)

lemma fd_serve:
  fixes d :: "'s FrameDecryptor"
  assumes "a \<le> fd_remaining d" and "a \<le> length (fd_out_buf d) - fd_out_pos d" and "fd_skip_bytes d = 0"
  defines "d' \<equiv> d\<lparr>fd_out_pos := fd_out_pos d + a, fd_remaining := fd_remaining d - a\<rparr>"
  shows "fd_shape pt d \<Longrightarrow> fd_shape pt d'"
    and "dec_rest pt d = take a (drop (fd_out_pos d) (fd_out_buf d)) @ dec_rest pt d'"
proof -
  have p: "fd_pending pt d' = drop a (fd_pending pt d)"
    using assms(2) by (simp add: d'_def fd_pending_def fd_ahead_def add.commute)
  have ah: "fd_ahead pt d' = fd_ahead pt d" by (simp add: d'_def fd_ahead_def)
  show "fd_shape pt d'" if "fd_shape pt d"
    using that assms(1,3) unfolding fd_shape_def p ah by (auto simp: d'_def)
  have "take a (fd_pending pt d) = take a (drop (fd_out_pos d) (fd_out_buf d))"
    using assms(2) by (simp add: fd_pending_def)
  moreover have "dec_rest pt d' = drop a (take (fd_remaining d) (fd_pending pt d))"
    unfolding dec_rest_def p by (simp add: d'_def assms(3) drop_take)
  ultimately show "dec_rest pt d = take a (drop (fd_out_pos d) (fd_out_buf d)) @ dec_rest pt d'"
    using assms(1,3) by (metis append_take_drop_id dec_rest_def drop_0 min.absorb1 take_take)
qed

lemma encode_frames_drop:
  assumes aead: "aead_roundtrip enc dec" and k: "length k = 32" and c: "0 < c" "c \<le> 2 ^ 36"
    and "length pt < 2 ^ 64" and "encode_frames enc k pre aad 0 (chunks_of c pt) = Inr ct" and "j * c \<le> length pt"
  shows "encode_frames enc k pre aad j (chunks_of c (drop (j * c) pt)) = Inr (drop (j * (c + 28)) ct)"
  using assms(5-)
proof (induction j)
  case (Suc j)
  let ?D = "drop (j * c) pt"
  have IH: "encode_frames enc k pre aad j (chunks_of c ?D) = Inr (drop (j * (c + 28)) ct)"
    using Suc by simp
  have lD: "c \<le> length ?D" using Suc.prems(3) by simp
  with c have ne: "?D \<noteq> []" by auto
  from IH ne c obtain f r where f: "encrypt_frame_to_vec enc k pre j (take c ?D) (aad j) = Inr f"
    and r: "encode_frames enc k pre aad (Suc j) (chunks_of c (drop c ?D)) = Inr r"
    and fr: "drop (j * (c + 28)) ct = f @ r"
    by (auto simp: chunks_of_step bind_res_Inr)
  have "j \<le> j * c" "j * c \<le> length pt" using c Suc.prems(3) by simp_all
  then have "j < 2 ^ 64" using Suc.prems(1) by linarith
  with encrypt_frame_opens [OF aead k _ _ f] lD c have "length f = c + 28" by simp
  with fr have "r = drop (c + 28) (drop (j * (c + 28)) ct)" by simp
  with r show ?case by (simp add: add.commute add.assoc)
qed simp

context stream_reader
begin

definition dec_inv :: "aead \<Rightarrow> bytes \<Rightarrow> bytes \<Rightarrow> 's FrameDecryptor \<Rightarrow> bool" where
  "dec_inv enc pre pt d \<longleftrightarrow> inv (fd_inner d) \<and> fd_out_pos d \<le> length (fd_out_buf d)
     \<and> (0 < fd_remaining d \<longrightarrow> fd_shape pt d
          \<and> encode_frames enc (fd_key d) pre (fd_aad_builder d) (fd_chunk_index d)
              (chunks_of (fd_chunk_size d) (fd_ahead pt d)) = Inr (fd_frame d @ rest (fd_inner d)))"

lemma dec_inv_skip: "dec_inv enc pre pt d \<Longrightarrow> dec_inv enc pre pt (fd_skip d)"
  by (simp add: dec_inv_def fd_skip_keeps fd_skip_shape fd_skip_out)

lemma dec_head:
  assumes aead: "aead_roundtrip enc dec" and i: "dec_inv enc pre pt d" and r: "0 < fd_remaining d"
    and t: "fd_frame_target d \<noteq> 0"
  obtains f cs where "fd_frame d @ rest (fd_inner d) = f @ cs" and "length f = fd_frame_target d"
    and "dec (fd_key d) (take 12 f) (fd_aad_builder d (fd_chunk_index d)) (drop 12 f)
           = Some (take (fd_chunk_size d) (fd_ahead pt d))"
    and "from_le_bytes (take 8 (drop 4 (take 12 f))) = fd_chunk_index d
         \<or> from_le_bytes (take 4 (drop 8 (take 12 f))) = fd_chunk_index d"
    and "encode_frames enc (fd_key d) pre (fd_aad_builder d) (Suc (fd_chunk_index d))
           (chunks_of (fd_chunk_size d) (drop (fd_chunk_size d) (fd_ahead pt d))) = Inr cs"
proof -
  let ?D = "fd_ahead pt d" and ?c = "fd_chunk_size d" and ?i = "fd_chunk_index d"
  have sh: "fd_shape pt d" and e: "encode_frames enc (fd_key d) pre (fd_aad_builder d) ?i (chunks_of ?c ?D)
      = Inr (fd_frame d @ rest (fd_inner d))"
    using i r by (auto simp: dec_inv_def)
  have D: "?D \<noteq> []" and c: "0 < ?c" "?c \<le> 2 ^ 36" using sh t by (auto simp: fd_shape_def)
  from D have "?i * ?c < length pt" by (simp add: fd_ahead_def)
  moreover have "?i \<le> ?i * ?c" using c by simp
  ultimately have i64: "?i < 2 ^ 64" using sh unfolding fd_shape_def by linarith
  from e D c obtain f cs where f: "encrypt_frame_to_vec enc (fd_key d) pre ?i (take ?c ?D) (fd_aad_builder d ?i) = Inr f"
    and cs: "encode_frames enc (fd_key d) pre (fd_aad_builder d) (Suc ?i) (chunks_of ?c (drop ?c ?D)) = Inr cs"
    and fcs: "fd_frame d @ rest (fd_inner d) = f @ cs"
    by (auto simp: chunks_of_step bind_res_Inr)
  have "length (take ?c ?D) \<le> 2 ^ 36" using c by simp
  from encrypt_frame_opens [OF aead _ this i64 f] sh D fcs cs show thesis
    by (intro that [of f cs]) (auto simp: fd_shape_def min.commute)
qed

lemma open_frame_ok:
  assumes aead: "aead_roundtrip enc dec" and i: "dec_inv enc pre pt d" and r: "0 < fd_remaining d"
    and t: "fd_frame_target d \<noteq> 0" and full: "length (fd_frame d) = fd_frame_target d"
    and ex: "drop (fd_out_pos d) (fd_out_buf d) = []"
  shows "\<exists>d'. open_frame dec d = Inr d' \<and> dec_inv enc pre pt d' \<and> dec_rest pt d' = dec_rest pt d
    \<and> fd_inner d' = fd_inner d \<and> length (fd_ahead pt d') < length (fd_ahead pt d)"
proof -
  let ?D = "fd_ahead pt d" and ?c = "fd_chunk_size d"
  obtain f cs where fcs: "fd_frame d @ rest (fd_inner d) = f @ cs" and lf: "length f = fd_frame_target d"
    and dd: "dec (fd_key d) (take 12 f) (fd_aad_builder d (fd_chunk_index d)) (drop 12 f) = Some (take ?c ?D)"
    and ix: "from_le_bytes (take 8 (drop 4 (take 12 f))) = fd_chunk_index d
         \<or> from_le_bytes (take 4 (drop 8 (take 12 f))) = fd_chunk_index d"
    and cs: "encode_frames enc (fd_key d) pre (fd_aad_builder d) (Suc (fd_chunk_index d))
           (chunks_of ?c (drop ?c ?D)) = Inr cs"
    using dec_head [OF aead i r t] by metis
  from fcs lf full have f: "fd_frame d = f" and rst: "rest (fd_inner d) = cs" by simp_all
  have sh: "fd_shape pt d" using i r by (simp add: dec_inv_def)
  with t have D: "?D \<noteq> []" and c: "0 < ?c" and l12: "12 \<le> length f" using lf by (auto simp: fd_shape_def split: if_splits)
  let ?d = "d\<lparr>fd_out_buf := take ?c ?D, fd_out_pos := 0, fd_chunk_index := Suc (fd_chunk_index d), fd_frame := []\<rparr>"
  let ?d' = "update_frame_target ?d"
  have op: "open_frame dec d = Inr ?d'"
    using ix l12 dd by (auto simp: open_frame_def f Let_def)
  have ahead: "fd_ahead pt ?d' = drop ?c ?D"
    by (simp add: fd_ahead_def update_frame_target_def Let_def add.commute)
  have keep: "fd_inner ?d' = fd_inner d" "fd_remaining ?d' = fd_remaining d" "fd_skip_bytes ?d' = fd_skip_bytes d"
    "fd_key ?d' = fd_key d" "fd_aad_builder ?d' = fd_aad_builder d" "fd_chunk_size ?d' = ?c"
    "fd_chunk_index ?d' = Suc (fd_chunk_index d)" "fd_frame ?d' = []" "fd_out_buf ?d' = take ?c ?D"
    "fd_out_pos ?d' = 0" "fd_done ?d' = fd_done d" "fd_plaintext_size ?d' = fd_plaintext_size d"
    by (simp_all add: update_frame_target_def Let_def)
  have pend: "fd_pending pt ?d' = fd_pending pt d"
    unfolding fd_pending_def ahead keep ex by simp
  have tgt: "fd_frame_target ?d' = (if drop ?c ?D = [] then 0 else 12 + min (length (drop ?c ?D)) ?c + 16)"
    using sh by (auto simp: update_frame_target_def fd_ahead_def fd_shape_def Let_def add.commute)
  have "fd_shape pt ?d'"
    using sh unfolding fd_shape_def pend keep ahead tgt by auto
  with cs rst i have "dec_inv enc pre pt ?d'"
    unfolding dec_inv_def ahead keep by simp
  moreover have "length (fd_ahead pt ?d') < length ?D" using D c by (simp add: ahead)
  ultimately show ?thesis
    using op pend by (intro exI [of _ ?d']) (simp add: dec_rest_def keep)
qed

lemma decryptor_poll_ok:
  assumes aead: "aead_roundtrip enc dec" and i: "dec_inv enc pre pt d0" and n: "0 < n"
  shows "\<exists>r. decryptor_poll rd dec d0 n = Some r
    \<and> poll_ok (dec_inv enc pre pt) (dec_rest pt) (\<lambda>d. wait (fd_inner d)) d0 n r"
  using i
proof (induction d0 rule: wf_induct_rule
    [OF wf_measures [of "[\<lambda>d. length (fd_ahead pt d), \<lambda>d. length (rest (fd_inner d))]"]])
  case (1 d0)
  let ?ok = "poll_ok (dec_inv enc pre pt) (dec_rest pt) (\<lambda>d. wait (fd_inner d))"
  define d where "d = fd_skip d0"
  note unfold = decryptor_poll.simps [of rd dec d0 n, folded d_def, unfolded Let_def]
  have di: "dec_inv enc pre pt d" using "1.prems" by (simp add: d_def dec_inv_skip)
  have d0: "dec_rest pt d0 = dec_rest pt d" "fd_inner d0 = fd_inner d" "fd_ahead pt d0 = fd_ahead pt d"
    by (simp_all add: d_def fd_skip_keeps fd_skip_rest)
  have ok0: "?ok d0 n r \<longleftrightarrow> ?ok d n r" for r
    by (auto simp: poll_ok_def d0 split: prod.splits poll.splits sum.splits)
  have step: ?case
    if "decryptor_poll rd dec d0 n = decryptor_poll rd dec d1 n" and "dec_inv enc pre pt d1"
      and "dec_rest pt d1 = dec_rest pt d" and "wait (fd_inner d1) \<le> wait (fd_inner d)"
      and "(d1, d0) \<in> measures [\<lambda>d. length (fd_ahead pt d), \<lambda>d. length (rest (fd_inner d))]" for d1
    using "1.IH" [OF that(5,2)] that(1,3,4) poll_ok_step [of "dec_inv enc pre pt" "dec_rest pt"] d0 by fastforce
  show ?case
  proof (cases "fd_remaining d = 0")
    case True
    with di have "?ok d n (Ready (Inr []), d)" by (simp add: poll_ok_def dec_rest_def)
    with True show ?thesis by (simp add: unfold ok0)
  next
    case rem: False
    then have r: "0 < fd_remaining d" by simp
    with di have sh: "fd_shape pt d" by (simp add: dec_inv_def)
    show ?thesis
    proof (cases "fd_out_pos d < length (fd_out_buf d)")
      case True
      define a where "a = min (min (length (fd_out_buf d) - fd_out_pos d) (fd_remaining d)) n"
      let ?d = "d\<lparr>fd_out_pos := fd_out_pos d + a, fd_remaining := fd_remaining d - a\<rparr>"
      let ?bs = "take a (drop (fd_out_pos d) (fd_out_buf d))"
      have sk: "fd_skip_bytes d = 0" using True "1.prems" fd_skip_exhausts by (auto simp: d_def dec_inv_def)
      have a: "0 < a" "a \<le> n" "a \<le> fd_remaining d" "a \<le> length (fd_out_buf d) - fd_out_pos d"
        using True r n by (auto simp: a_def)
      note serve = fd_serve [OF a(3,4) sk, of pt]
      have len: "fd_out_pos d + a \<le> length (fd_out_buf d)" "?bs \<noteq> []" "length ?bs \<le> n"
        using a True by auto
      then have inv': "dec_inv enc pre pt ?d"
        using di serve(1) sh by (simp add: dec_inv_def fd_ahead_def)
      have "?ok d n (Ready (Inr ?bs), ?d)"
        using inv' serve(2) len(3,2) by (rule poll_ok_dataI) simp
      moreover have "decryptor_poll rd dec d0 n = Some (Ready (Inr ?bs), ?d)"
        using True r n by (subst unfold) (simp only: a_def if_True simp_thms)
      ultimately show ?thesis using ok0 by blast
    next
      case ex: False
      with di have ex': "drop (fd_out_pos d) (fd_out_buf d) = []" by simp
      with sh rem have "fd_ahead pt d \<noteq> []" by (auto simp: fd_shape_def fd_pending_def)
      with sh have t: "fd_frame_target d \<noteq> 0" "\<not> fd_done d" by (auto simp: fd_shape_def)
      show ?thesis
      proof (cases "length (fd_frame d) = fd_frame_target d")
        case True
        obtain d' where "open_frame dec d = Inr d'" "dec_inv enc pre pt d'" "dec_rest pt d' = dec_rest pt d"
          "fd_inner d' = fd_inner d" "length (fd_ahead pt d') < length (fd_ahead pt d)"
          using open_frame_ok [OF aead di r t(1) True ex'] by blast
        with True rem ex t show ?thesis by (intro step [of d']) (simp_all add: unfold d0)
      next
        case False
        with sh have "inv (fd_inner d)" and pos: "0 < fd_frame_target d - length (fd_frame d)"
          using di by (auto simp: dec_inv_def fd_shape_def)
        then show ?thesis
        proof (cases rule: poll_cases)
          case (pending s')
          with False rem ex t have "decryptor_poll rd dec d0 n = Some (Pending, d\<lparr>fd_inner := s'\<rparr>)"
            by (simp add: unfold)
          moreover have "?ok d n (Pending, d\<lparr>fd_inner := s'\<rparr>)"
            using pending di by (simp add: poll_ok_def dec_inv_def fd_shape_update)
          ultimately show ?thesis by (simp add: ok0)
        next
          case (eof s')
          have "length (fd_frame d) \<ge> fd_frame_target d"
            using dec_head [OF aead di r t(1)] eof
            by (metis append_Nil2 le_add1 length_append)
          with pos show ?thesis by simp
        next
          case (data bs s')
          let ?d = "d\<lparr>fd_inner := s', fd_frame := fd_frame d @ bs\<rparr>"
          have "decryptor_poll rd dec d0 n = decryptor_poll rd dec ?d n"
            using data False rem ex t by (simp add: unfold)
          moreover have "dec_inv enc pre pt ?d"
            using di data r pos fd_shape_update(2) [of pt "d\<lparr>fd_inner := s'\<rparr>" "fd_frame d @ bs"] sh
            by (simp add: dec_inv_def fd_shape_update(1))
          ultimately show ?thesis
            using data by (intro step [of ?d]) (simp_all add: d0)
        qed
      qed
    qed
  qed
qed

lemma decryptor_stream:
  assumes "aead_roundtrip enc dec"
  shows "stream_reader (decryptor_read rd dec) (dec_inv enc pre pt) (dec_rest pt) (\<lambda>d. wait (fd_inner d))"
  unfolding decryptor_read_def
  by (rule stream_reader_poll_or_hang) (rule decryptor_poll_ok [OF assms])

text \<open>
  The preflight of a fresh decryptor consumes one byte and puts it back: the stream is the
  one it was, with the first frame already checked.
\<close>

lemma open_frame_fields:
  "open_frame dec d = Inr d' \<Longrightarrow> fd_out_pos d' = 0 \<and> fd_skip_bytes d' = fd_skip_bytes d \<and> fd_remaining d' = fd_remaining d"
  by (auto simp: open_frame_def update_frame_target_def Let_def split: if_splits option.splits)

definition fd_fresh :: "'s FrameDecryptor \<Rightarrow> bool" where
  "fd_fresh d \<longleftrightarrow> fd_out_buf d = [] \<and> fd_out_pos d = 0 \<and> fd_skip_bytes d = 0"

definition first_poll_ok ::
  "aead \<Rightarrow> bytes \<Rightarrow> bytes \<Rightarrow> 's FrameDecryptor \<Rightarrow> (io_error + bytes) poll \<times> 's FrameDecryptor \<Rightarrow> bool" where
  "first_poll_ok enc pre pt d r \<longleftrightarrow>
     (case r of
        (Pending, d') \<Rightarrow> dec_inv enc pre pt d' \<and> fd_fresh d' \<and> fd_remaining d' = fd_remaining d
           \<and> dec_rest pt d' = dec_rest pt d \<and> wait (fd_inner d') < wait (fd_inner d)
      | (Ready x, d') \<Rightarrow> (\<exists>b. x = Inr [b])
           \<and> dec_inv enc pre pt (d'\<lparr>fd_out_pos := 0, fd_remaining := fd_remaining d\<rparr>)
           \<and> dec_rest pt (d'\<lparr>fd_out_pos := 0, fd_remaining := fd_remaining d\<rparr>) = dec_rest pt d)"

lemma first_poll_step:
  assumes "first_poll_ok enc pre pt d1 r" "dec_rest pt d1 = dec_rest pt d" "fd_remaining d1 = fd_remaining d"
    "wait (fd_inner d1) \<le> wait (fd_inner d)"
  shows "first_poll_ok enc pre pt d r"
  using assms by (auto simp: first_poll_ok_def split: prod.splits poll.splits)

lemma first_poll:
  assumes aead: "aead_roundtrip enc dec" and i: "dec_inv enc pre pt d" "fd_out_pos d = 0" "fd_skip_bytes d = 0" "0 < fd_remaining d"
  shows "\<exists>r. decryptor_poll rd dec d 1 = Some r \<and> first_poll_ok enc pre pt d r"
  using i
proof (induction d rule: wf_induct_rule
    [OF wf_measures [of "[\<lambda>d. length (fd_ahead pt d), \<lambda>d. length (rest (fd_inner d))]"]])
  case (1 d)
  have sk: "fd_skip d = d" using "1.prems"(3) by (simp add: fd_skip_def)
  note unfold = decryptor_poll.simps [of rd dec d "Suc 0", unfolded sk Let_def]
  have step: ?case
    if "decryptor_poll rd dec d 1 = decryptor_poll rd dec d1 1" and "dec_inv enc pre pt d1" "fd_out_pos d1 = 0"
      "fd_skip_bytes d1 = 0" "fd_remaining d1 = fd_remaining d"
      and "dec_rest pt d1 = dec_rest pt d" and "wait (fd_inner d1) \<le> wait (fd_inner d)"
      and "(d1, d) \<in> measures [\<lambda>d. length (fd_ahead pt d), \<lambda>d. length (rest (fd_inner d))]" for d1
    using "1.IH" [OF that(8,2,3,4)] that "1.prems"(4) first_poll_step [of enc pre pt d1 _ d] by auto
  have sh: "fd_shape pt d" using "1.prems"(1,4) by (simp add: dec_inv_def)
  show ?case
  proof (cases "fd_out_buf d")
    case (Cons b bs)
    then have run: "decryptor_poll rd dec d 1 = Some (Ready (Inr [b]), d\<lparr>fd_out_pos := 1, fd_remaining := fd_remaining d - 1\<rparr>)"
      using "1.prems"(2,4) by (simp add: unfold)
    have keep: "d\<lparr>fd_out_pos := 0\<rparr> = d" using "1.prems"(2) by (intro FrameDecryptor.equality) simp_all
    show ?thesis using "1.prems" run by (simp add: first_poll_ok_def keep)
  next
    case Nil
    with sh "1.prems"(4) have "fd_ahead pt d \<noteq> []" by (auto simp: fd_shape_def fd_pending_def)
    with sh have t: "fd_frame_target d \<noteq> 0" "\<not> fd_done d" by (auto simp: fd_shape_def)
    show ?thesis
    proof (cases "length (fd_frame d) = fd_frame_target d")
      case True
      obtain d' where d': "open_frame dec d = Inr d'" "dec_inv enc pre pt d'" "dec_rest pt d' = dec_rest pt d"
        "fd_inner d' = fd_inner d" "length (fd_ahead pt d') < length (fd_ahead pt d)"
        using open_frame_ok [OF aead "1.prems"(1,4) t(1) True] Nil by auto
      with open_frame_fields [OF d'(1)] "1.prems" True Nil t show ?thesis
        by (intro step [of d']) (simp_all add: unfold)
    next
      case False
      with sh have "inv (fd_inner d)" and pos: "0 < fd_frame_target d - length (fd_frame d)"
        using "1.prems"(1) by (auto simp: dec_inv_def fd_shape_def)
      then show ?thesis
      proof (cases rule: poll_cases)
        case (pending s')
        with False Nil t "1.prems" have "decryptor_poll rd dec d 1 = Some (Pending, d\<lparr>fd_inner := s'\<rparr>)"
          by (simp add: unfold)
        moreover have "first_poll_ok enc pre pt d (Pending, d\<lparr>fd_inner := s'\<rparr>)"
          using pending "1.prems" Nil by (simp add: first_poll_ok_def dec_inv_def fd_shape_update fd_fresh_def)
        ultimately show ?thesis by blast
      next
        case (eof s')
        have "length (fd_frame d) \<ge> fd_frame_target d"
          using dec_head [OF aead "1.prems"(1,4) t(1)] eof by (metis append_Nil2 le_add1 length_append)
        with pos show ?thesis by simp
      next
        case (data bs s')
        let ?d = "d\<lparr>fd_inner := s', fd_frame := fd_frame d @ bs\<rparr>"
        have "decryptor_poll rd dec d 1 = decryptor_poll rd dec ?d 1"
          using data False Nil t "1.prems" by (simp add: unfold)
        moreover have "dec_inv enc pre pt ?d"
          using "1.prems"(1,4) data pos fd_shape_update(2) [of pt "d\<lparr>fd_inner := s'\<rparr>" "fd_frame d @ bs"] sh
          by (simp add: dec_inv_def fd_shape_update(1))
        ultimately show ?thesis
          using data "1.prems" by (intro step [of ?d]) simp_all
      qed
    qed
  qed
qed

lemma preflight_ok:
  assumes aead: "aead_roundtrip enc dec" and "dec_inv enc pre pt d" "fd_fresh d"
  shows "\<exists>d'. preflight rd dec d = Some (Inr (), d') \<and> dec_inv enc pre pt d' \<and> dec_rest pt d' = dec_rest pt d"
proof (cases "fd_plaintext_size d = 0 \<or> fd_remaining d = 0")
  case True
  with assms show ?thesis by (auto simp: preflight_def)
next
  case False
  have "\<exists>b d'. read_once (decryptor_read rd dec) 1 e = Some (Inr [b], d')
      \<and> dec_inv enc pre pt (d'\<lparr>fd_out_pos := 0, fd_remaining := fd_remaining e\<rparr>)
      \<and> dec_rest pt (d'\<lparr>fd_out_pos := 0, fd_remaining := fd_remaining e\<rparr>) = dec_rest pt e"
    if "dec_inv enc pre pt e" "fd_fresh e" "0 < fd_remaining e" for e
    using that
  proof (induction "wait (fd_inner e)" arbitrary: e rule: less_induct)
    case less
    obtain x e' where r: "decryptor_poll rd dec e 1 = Some (x, e')" and ok: "first_poll_ok enc pre pt e (x, e')"
      using first_poll [OF aead less.prems(1) _ _ less.prems(3)] less.prems(2) by (auto simp: fd_fresh_def)
    note once = read_once.simps [of "decryptor_read rd dec" "Suc 0" e]
    show ?case
    proof (cases x)
      case Pending
      with ok less.hyps [of e'] less.prems r once show ?thesis
        by (auto simp: first_poll_ok_def decryptor_read_def poll_or_hang_def)
    next
      case (Ready y)
      with ok r once show ?thesis by (auto simp: first_poll_ok_def decryptor_read_def poll_or_hang_def)
    qed
  qed
  from this [OF assms(2,3)] False assms(3) show ?thesis by (auto simp: preflight_def fd_fresh_def)
qed

text \<open>A decryptor positioned by \<open>for_range\<close> on the frames of \<open>pt\<close>.\<close>

lemma for_range_stream:
  assumes "aead_roundtrip enc dec" and "length k = 32" and "length pt < 2 ^ 64" and "offset + len \<le> length pt"
    and "encode_frames enc k pre aad 0 (chunks_of FRAME_CHUNK_SIZE pt) = Inr ct"
    and "inv s" and "rest s = drop (offset div FRAME_CHUNK_SIZE * (FRAME_CHUNK_SIZE + FRAME_OVERHEAD)) ct"
  defines "d \<equiv> for_range_internal s k (length pt) FRAME_CHUNK_SIZE (offset div FRAME_CHUNK_SIZE) len
      (offset mod FRAME_CHUNK_SIZE) aad"
  shows "dec_inv enc pre pt d" and "dec_rest pt d = take len (drop offset pt)"
proof -
  let ?c = FRAME_CHUNK_SIZE and ?co = "offset div FRAME_CHUNK_SIZE * (FRAME_CHUNK_SIZE + FRAME_OVERHEAD)"
  have le: "offset div ?c * ?c \<le> length pt" using assms(4) div_times_less_eq_dividend [of offset ?c] by linarith
  have ah: "fd_ahead pt d = drop (offset div ?c * ?c) pt"
    by (simp add: d_def fd_ahead_def for_range_internal_def update_frame_target_def Let_def)
  have oc: "offset mod ?c + offset div ?c * ?c = offset" by simp
  show "dec_inv enc pre pt d"
  proof (cases "len = 0")
    case True
    then show ?thesis using assms(6) by (simp add: d_def dec_inv_def for_range_internal_def Let_def)
  next
    case False
    with assms(4) have "pt \<noteq> []" by auto
    with False have f: "fd_done d = False" "fd_key d = k" "fd_chunk_size d = ?c" "fd_frame d = []"
      "fd_plaintext_size d = length pt" "fd_chunk_index d = offset div ?c" "fd_out_buf d = []"
      "fd_out_pos d = 0" "fd_skip_bytes d = offset mod ?c" "fd_remaining d = len" "fd_inner d = s"
      "fd_aad_builder d = aad"
      "fd_frame_target d = (if length pt \<le> offset div ?c * ?c then 0 else 12 + min (length pt - offset div ?c * ?c) ?c + 16)"
      by (simp_all add: d_def for_range_internal_def update_frame_target_def Let_def)
    have room: "offset mod ?c + len \<le> length pt - offset div ?c * ?c" using oc assms(4) by linarith
    have "fd_shape pt d"
      unfolding fd_shape_def fd_pending_def ah f using assms(2,3) room by (simp add: FRAME_CHUNK_SIZE_def)
    moreover have "encode_frames enc k pre aad (offset div ?c) (chunks_of ?c (drop (offset div ?c * ?c) pt)) = Inr (drop ?co ct)"
      using encode_frames_drop [OF assms(1,2) _ _ assms(3,5) le] by (simp add: FRAME_CHUNK_SIZE_def FRAME_OVERHEAD_def)
    ultimately show ?thesis unfolding dec_inv_def ah f using assms(6,7) by simp
  qed
  have "dec_rest pt d = take len (drop (offset mod ?c) (drop (offset div ?c * ?c) pt))"
    unfolding dec_rest_def fd_pending_def ah
    by (simp add: d_def for_range_internal_def update_frame_target_def Let_def)
  also have "\<dots> = take len (drop offset pt)" by (simp add: drop_drop oc)
  finally show "dec_rest pt d = take len (drop offset pt)" .
qed

lemma new_decryptor_stream:
  assumes "aead_roundtrip enc dec" and "length k = 32" and "length pt < 2 ^ 64"
    and "encode_frames enc k pre aad 0 (chunks_of FRAME_CHUNK_SIZE pt) = Inr (rest s)" and "inv s"
  defines "d \<equiv> FrameDecryptor_new s k (length pt) FRAME_CHUNK_SIZE aad"
  shows "\<exists>d'. preflight rd dec d = Some (Inr (), d') \<and> dec_inv enc pre pt d' \<and> dec_rest pt d' = pt"
proof -
  have "d = for_range_internal s k (length pt) FRAME_CHUNK_SIZE (0 div FRAME_CHUNK_SIZE) (length pt) (0 mod FRAME_CHUNK_SIZE) aad"
    by (simp add: d_def FrameDecryptor_new_def)
  with for_range_stream [OF assms(1-3), of 0 "length pt" pre aad "rest s" s] assms(4,5)
  have "dec_inv enc pre pt d" "dec_rest pt d = pt" by simp_all
  moreover have "fd_fresh d"
    by (simp add: fd_fresh_def d_def FrameDecryptor_new_def for_range_internal_def update_frame_target_def Let_def)
  ultimately show ?thesis using preflight_ok [OF assms(1)] by metis
qed

end

section \<open>Properties\<close>

text \<open>
  C12. Encrypted payloads read back exactly, in any range: whatever the fragmentation and the
  suspensions of the upload, the payload that \<open>put_object\<close> writes, read by a
  \<open>FrameDecryptor::for_range\<close> positioned at \<open>ciphertext_offset\<close>, gives the requested
  range of the uploaded bytes. The read loop ends, and no buffer size matters.
\<close>

theorem encrypted_range_read:
  assumes "aead_roundtrip enc dec" and "length k = 32"
    and "length pre = 4 \<and> length (body_bytes es) < 2 ^ 64
         \<or> length pre = 8 \<and> length (body_bytes es) \<le> 2 ^ 32 * FRAME_CHUNK_SIZE"
    and "body_inv es" and "0 < cap" and "0 < cap'" and "offset + len \<le> length (body_bytes es)"
  shows "\<exists>w es' co d d'.
    put_payload body_read cap enc (Some (k, pre, aad)) es fw_new = Some (Inr w, es')
    \<and> ciphertext_offset FRAME_CHUNK_SIZE offset = Some co
    \<and> for_range (drop co (fw_out w)) k (fw_size w) FRAME_CHUNK_SIZE offset len aad = Some d
    \<and> read_to_end (decryptor_read cursor_read dec) cap' d [] =
        Some (Inr (take len (drop offset (body_bytes es))), d')"
proof -
  let ?pt = "body_bytes es" and ?c = FRAME_CHUNK_SIZE
  have l64: "length ?pt < 2 ^ 64" using assms(3) by (auto simp: FRAME_CHUNK_SIZE_def)
  have clen: "length (chunks_of ?c ?pt) \<le> 2 ^ 32" if "length ?pt \<le> 2 ^ 32 * ?c"
    using that by (simp add: length_chunks_of FRAME_CHUNK_SIZE_def)
  obtain ct where ct: "encode_frames enc k pre aad 0 (chunks_of ?c ?pt) = Inr ct"
    using encode_frames_total [OF assms(1,2), of "chunks_of ?c ?pt" pre 0 aad] clen assms(3)
      chunks_of_nonempty [OF FRAME_CHUNK_SIZE_pos(1)] by (fastforce simp: FRAME_CHUNK_SIZE_def)
  have "payload_spec enc (Some (k, pre, aad)) fw_new ?pt = Inr ct"
    by (simp add: payload_spec_def fw_new_def ct)
  moreover obtain r es' where
    r: "put_payload body_read cap enc (Some (k, pre, aad)) es fw_new = Some (r, es')"
    "case r of Inl e \<Rightarrow> payload_spec enc (Some (k, pre, aad)) fw_new ?pt = Inl e
     | Inr w' \<Rightarrow> payload_spec enc (Some (k, pre, aad)) fw_new ?pt = Inr (fw_out w')
         \<and> fw_size w' = fw_size fw_new + length ?pt \<and> fw_hashed w' = fw_hashed fw_new @ ?pt"
    using body.put_payload_all [OF assms(4,5), of fw_new enc "Some (k, pre, aad)"] by (auto simp: fw_new_def)
  ultimately obtain w where
    w: "put_payload body_read cap enc (Some (k, pre, aad)) es fw_new = Some (Inr w, es')"
    and out: "fw_out w = ct" and sz: "fw_size w = length ?pt"
    by (cases r) (auto simp: fw_new_def)
  let ?co = "offset div ?c * (?c + FRAME_OVERHEAD)"
  let ?d = "for_range_internal (drop ?co ct) k (length ?pt) ?c (offset div ?c) len (offset mod ?c) aad"
  note range = cursor.for_range_stream [OF assms(1,2) l64 assms(7) ct, of "drop ?co ct"]
  then have inv: "cursor.dec_inv enc pre ?pt ?d" and "dec_rest ?pt ?d = take len (drop offset ?pt)" by simp_all
  with stream_reader.read_to_end_all [OF cursor.decryptor_stream [OF assms(1)] inv assms(6), of "[]"] obtain d' where
    "read_to_end (decryptor_read cursor_read dec) cap' ?d [] = Some (Inr (take len (drop offset ?pt)), d')"
    by auto
  with w out sz show ?thesis
    by (auto simp: ciphertext_offset_def for_range_def)
qed

theorem encrypted_range_read_witness:
  "\<exists>w es' co d d'.
    put_payload body_read 2 toy_enc (Some (replicate 32 7, [1, 2, 3, 4], no_aad)) [Some [10, 20, 30], None, Some [40]] fw_new
      = Some (Inr w, es')
    \<and> ciphertext_offset FRAME_CHUNK_SIZE 1 = Some co
    \<and> for_range (drop co (fw_out w)) (replicate 32 7) (fw_size w) FRAME_CHUNK_SIZE 1 2 no_aad = Some d
    \<and> read_to_end (decryptor_read cursor_read toy_dec) 5 d [] = Some (Inr [20, 30], d')"
  using encrypted_range_read [OF toy_roundtrip, of "replicate 32 7" "[1, 2, 3, 4]"
      "[Some [10, 20, 30], None, Some [40]]" 2 5 1 2 no_aad]
  by (simp add: body_inv_def)

text \<open>
  Stacking the adapters is the identity: a \<open>FrameDecryptor\<close> over a \<open>FrameEncryptor\<close>
  over any upload body, polled with any buffer, delivers the body and ends.
\<close>

theorem decryptor_encryptor_identity:
  assumes "aead_roundtrip enc dec" and "length k = 32" and "length pre = 4" and "length (body_bytes es) < 2 ^ 64"
    and "body_inv es" and "0 < cap"
  shows "\<exists>d'. read_to_end (decryptor_read (encryptor_read body_read enc) dec) cap
      (FrameDecryptor_new (FrameEncryptor_new es k pre aad) k (length (body_bytes es)) FRAME_CHUNK_SIZE aad) [] =
    Some (Inr (body_bytes es), d')"
proof -
  let ?pt = "body_bytes es" and ?c = FRAME_CHUNK_SIZE
  let ?e = "FrameEncryptor_new es k pre aad"
  let ?d = "FrameDecryptor_new ?e k (length ?pt) ?c aad"
  note es = body.encryptor_stream [OF assms(1)]
  obtain ct where ct: "encode_frames enc k pre aad 0 (chunks_of ?c ?pt) = Inr ct"
    using encode_frames_total [OF assms(1,2), of "chunks_of ?c ?pt" pre 0 aad] assms(3)
      chunks_of_nonempty [OF FRAME_CHUNK_SIZE_pos(1)] by (fastforce simp: FRAME_CHUNK_SIZE_def)
  have "body.enc_inv ?e" "body.enc_rest enc ?e = ct"
    using assms ct by (simp_all add: body.enc_inv_def body.enc_rest_def FrameEncryptor_new_def frames_or_nil_def)
  then have "stream_reader.dec_inv body.enc_inv (body.enc_rest enc) enc pre ?pt ?d"
    using assms(2,4) ct
    by (auto simp: stream_reader.dec_inv_def [OF es] fd_shape_def fd_ahead_def fd_pending_def FrameDecryptor_new_def
        for_range_internal_def update_frame_target_def Let_def FRAME_CHUNK_SIZE_def)
  from stream_reader.read_to_end_all [OF stream_reader.decryptor_stream [OF es assms(1)] this assms(6), of "[]"]
  show ?thesis
    by (auto simp: dec_rest_def fd_pending_def fd_ahead_def FrameDecryptor_new_def for_range_internal_def
        update_frame_target_def Let_def)
qed

theorem decryptor_encryptor_identity_witness:
  "\<exists>d'. read_to_end (decryptor_read (encryptor_read body_read toy_enc) toy_dec) 3
      (FrameDecryptor_new (FrameEncryptor_new [None, Some [1, 2], Some [3, 4, 5]] (replicate 32 0) [9, 9, 9, 9] no_aad)
         (replicate 32 0) 5 FRAME_CHUNK_SIZE no_aad) [] = Some (Inr [1, 2, 3, 4, 5], d')"
proof -
  have "length (body_bytes [None, Some [1, 2], Some [3, 4, 5]]) = 5" by simp
  from decryptor_encryptor_identity [OF toy_roundtrip, of "replicate 32 0" "[9, 9, 9, 9]"
      "[None, Some [1, 2], Some [3, 4, 5]]" 3 no_aad, unfolded this]
  show ?thesis by (simp add: body_inv_def)
qed

text \<open>
  C13. Under one prefix no two frames of an object share a nonce: the nonce determines the
  frame number, in both formats.
\<close>

theorem frame_nonce_injective:
  assumes "make_frame_nonce pre i = Inr nn" and "make_frame_nonce pre j = Inr nn"
    and "i < 2 ^ 64" and "j < 2 ^ 64"
  shows "i = j"
proof (cases "length pre = 4")
  case True
  with assms(1,2) have "pre @ le_bytes 8 i = pre @ le_bytes 8 j" by (simp add: make_frame_nonce_def)
  then show ?thesis using assms(3,4) by (intro le_bytes_inj [of 8 i j]) simp_all
next
  case False
  with assms(1,2) have "le_bytes 4 i = le_bytes 4 j" "i \<le> U32_MAX" "j \<le> U32_MAX"
    by (auto simp: make_frame_nonce_def as_u32_id split: if_splits)
  then show ?thesis by (intro le_bytes_inj [of 4]) simp_all
qed

theorem frame_nonce_injective_witness:
  "make_frame_nonce [1, 2, 3, 4] 7 = Inr [1, 2, 3, 4, 7, 0, 0, 0, 0, 0, 0, 0] \<and> (7 :: nat) = 7"
proof -
  have "make_frame_nonce [1, 2, 3, 4] 7 = Inr [1, 2, 3, 4, 7, 0, 0, 0, 0, 0, 0, 0]"
    by (simp add: make_frame_nonce_def le_bytes_numeral)
  with frame_nonce_injective [OF this this] show ?thesis by simp
qed

end
