(* ===== verification/Chunks.thy ===== *)
theory Chunks
  imports Quota
begin

text \<open>
  Chunked objects with Reed-Solomon parity: the chunk writer of \<open>put_object_chunked\<close> with
  \<open>compute_and_write_parity_from\<close> (\<open>object_io.rs\<close>, \<open>common.rs\<close>) and the
  \<open>VerifiedChunkReader\<close> (\<open>chunk_reader.rs\<close>).

  A chunk directory maps file names to contents; reading may also fail. Parameters are the
  hexadecimal SHA-256 (\<open>sha\<close>) and the Reed-Solomon code of \<open>reed_solomon_erasure\<close>
  (\<open>rs_encode k m\<close>, \<open>rs_reconstruct k m\<close>, whose left values are the library's messages),
  with \<open>rs_law\<close> for what the code relies on. A panic is \<^const>\<open>None\<close>.
\<close>

type_synonym rs_encoder = "nat \<Rightarrow> nat \<Rightarrow> bytes list \<Rightarrow> string + bytes list"
type_synonym rs_decoder = "nat \<Rightarrow> nat \<Rightarrow> bytes option list \<Rightarrow> string + bytes option list"

text \<open>
  The code for \<open>k\<close> data and \<open>m\<close> parity shards: encoding equally long nonempty data shards
  gives parity shards of that length, and from any \<open>k\<close> of the \<open>k + m\<close> shards all of them
  are rebuilt.
\<close>

definition rs_law :: "rs_encoder \<Rightarrow> rs_decoder \<Rightarrow> nat \<Rightarrow> nat \<Rightarrow> bool" where
  "rs_law rs_encode rs_reconstruct k m \<longleftrightarrow>
     (\<forall>ds l. 0 < k \<and> 0 < m \<and> k + m \<le> 256 \<and> length ds = k \<and> 0 < l \<and> (\<forall>d\<in>set ds. length d = l) \<longrightarrow>
        (\<exists>ps. rs_encode k m ds = Inr ps \<and> length ps = m \<and> (\<forall>p\<in>set ps. length p = l)
          \<and> (\<forall>ss. length ss = k + m \<and> (\<forall>i<k + m. ss ! i = None \<or> ss ! i = Some ((ds @ ps) ! i))
                   \<and> k \<le> length (filter (\<lambda>s. s \<noteq> None) ss)
               \<longrightarrow> rs_reconstruct k m ss = Inr (map Some (ds @ ps)))))"

section \<open>Chunk names and single chunks\<close>

text \<open>\<open>format!("{:06}", index)\<close>.\<close>

definition chunk_name :: "nat \<Rightarrow> string" where
  "chunk_name i = replicate (6 - length (show_nat i)) CHR ''0'' @ show_nat i"

lemma parse_digits_zeros: "0 < b \<Longrightarrow> parse_digits b 0 (replicate n CHR ''0'' @ s) = parse_digits b 0 s"
  by (induction n) (simp_all add: digit_val_def is_ascii_digit_def)

lemma chunk_name_inj:
  assumes "chunk_name i = chunk_name j"
  shows "i = j"
proof -
  have "parse_digits (Suc (i + j)) 0 (chunk_name n) = Some n" if "n \<le> i + j" for n
    using that by (simp add: chunk_name_def parse_digits_zeros parse_digits_show_nat)
  then have "Some i = parse_digits (Suc (i + j)) 0 (chunk_name i)"
    and "parse_digits (Suc (i + j)) 0 (chunk_name j) = Some j" by simp_all
  with assms show ?thesis by (metis option.inject)
qed

type_synonym chunk_files = "string \<rightharpoonup> bytes"
type_synonym chunk_dir = "string \<Rightarrow> io_error + bytes"

definition write_chunk_to_dir ::
  "(bytes \<Rightarrow> string) \<Rightarrow> nat \<Rightarrow> bytes \<Rightarrow> chunk_files \<Rightarrow> ChunkInfo \<times> chunk_files" where
  "write_chunk_to_dir sha index data dir =
     (\<lparr>ci_index = index, ci_size = length data, ci_sha256 = sha data, ci_kind = DataChunk\<rparr>,
      dir(chunk_name index \<mapsto> data))"

definition into_parity :: "ChunkInfo \<Rightarrow> ChunkInfo" where
  "into_parity ci = ci\<lparr>ci_kind := ParityChunk\<rparr>"

text \<open>\<open>Vec::resize(n, 0)\<close>.\<close>

definition resize :: "nat \<Rightarrow> bytes \<Rightarrow> bytes" where
  "resize n xs = take n xs @ replicate (n - length xs) 0"

lemma length_resize [simp]: "length (resize n xs) = n"
  by (simp add: resize_def)

lemma take_resize: "length xs \<le> n \<Longrightarrow> take (length xs) (resize n xs) = xs"
  by (simp add: resize_def)

section \<open>The reader\<close>

datatype ReaderState = NeedLoad | Serving | Done

record VerifiedChunkReader =
  cr_dir :: chunk_dir
  cr_manifest :: ChunkManifest
  cr_current_chunk :: nat
  cr_end_chunk :: nat
  cr_skip_bytes :: nat
  cr_remaining :: nat
  cr_buf :: bytes
  cr_buf_pos :: nat
  cr_state :: ReaderState

definition VerifiedChunkReader_new :: "chunk_dir \<Rightarrow> ChunkManifest \<Rightarrow> VerifiedChunkReader" where
  "VerifiedChunkReader_new dir manifest =
     \<lparr>cr_dir = dir, cr_manifest = manifest, cr_current_chunk = 0,
      cr_end_chunk = cm_chunk_count manifest - 1, cr_skip_bytes = 0,
      cr_remaining = cm_total_size manifest, cr_buf = [], cr_buf_pos = 0,
      cr_state = (if cm_total_size manifest = 0 then Done else NeedLoad)\<rparr>"

definition with_range :: "chunk_dir \<Rightarrow> ChunkManifest \<Rightarrow> nat \<Rightarrow> nat \<Rightarrow> VerifiedChunkReader option" where
  "with_range dir manifest offset len =
     (if len = 0 \<or> cm_total_size manifest = 0
      then Some \<lparr>cr_dir = dir, cr_manifest = manifest, cr_current_chunk = 0, cr_end_chunk = 0,
                 cr_skip_bytes = 0, cr_remaining = 0, cr_buf = [], cr_buf_pos = 0, cr_state = Done\<rparr>
      else if cm_chunk_size manifest = 0 then None
      else Some \<lparr>cr_dir = dir, cr_manifest = manifest,
                 cr_current_chunk = as_u32 (offset div cm_chunk_size manifest),
                 cr_end_chunk = as_u32 ((offset + len - 1) div cm_chunk_size manifest),
                 cr_skip_bytes = offset mod cm_chunk_size manifest, cr_remaining = len, cr_buf = [],
                 cr_buf_pos = 0, cr_state = NeedLoad\<rparr>)"

definition bad_data :: "string \<Rightarrow> io_error" where
  "bad_data m = \<lparr>io_kind = InvalidDataKind, io_msg = m\<rparr>"

text \<open>The closure that reads and verifies one chunk file.\<close>

definition read_verified ::
  "(bytes \<Rightarrow> string) \<Rightarrow> chunk_dir \<Rightarrow> nat \<Rightarrow> ChunkInfo \<Rightarrow> io_error + bytes" where
  "read_verified sha dir current info =
     (case dir (chunk_name current) of
        Inl e \<Rightarrow> Inl (e\<lparr>io_msg := ''failed to read chunk '' @ show_nat current @ '': '' @ io_msg e\<rparr>)
      | Inr data \<Rightarrow>
          if length data \<noteq> ci_size info
          then Inl (bad_data (''chunk '' @ show_nat current @ '' size mismatch: expected ''
                      @ show_nat (ci_size info) @ '', got '' @ show_nat (length data)))
          else if sha data \<noteq> ci_sha256 info
          then Inl (bad_data (''checksum mismatch on chunk '' @ show_nat current @ '': expected ''
                      @ ci_sha256 info @ '', got '' @ sha data))
          else Inr data)"

text \<open>The shards that \<open>try_reconstruct_data_chunk\<close> collects, for indices below \<open>n\<close>.\<close>

definition usable_shard :: "(bytes \<Rightarrow> string) \<Rightarrow> chunk_dir \<Rightarrow> nat \<Rightarrow> nat \<Rightarrow> ChunkInfo \<Rightarrow> bytes option" where
  "usable_shard sha dir shard_size i info =
     (case dir (chunk_name i) of
        Inl _ \<Rightarrow> None
      | Inr data \<Rightarrow> if sha data \<noteq> ci_sha256 info then None else Some (resize shard_size data))"

fun collect_shards ::
  "(bytes \<Rightarrow> string) \<Rightarrow> chunk_dir \<Rightarrow> ChunkInfo list \<Rightarrow> nat \<Rightarrow> nat \<Rightarrow> nat \<Rightarrow> io_error + bytes option list" where
  "collect_shards sha dir infos shard_size i 0 = Inr []"
| "collect_shards sha dir infos shard_size i (Suc n) =
     (if i < length infos
      then bind_res (collect_shards sha dir infos shard_size (Suc i) n)
             (\<lambda>ss. Inr (usable_shard sha dir shard_size i (infos ! i) # ss))
      else Inl (bad_data (''manifest missing shard '' @ show_nat i @ '' ('' @ show_nat (length infos) @ '' entries)'')))"

definition try_reconstruct_data_chunk ::
  "(bytes \<Rightarrow> string) \<Rightarrow> rs_decoder \<Rightarrow> chunk_dir \<Rightarrow> ChunkManifest \<Rightarrow> nat \<Rightarrow> (io_error + bytes) option" where
  "try_reconstruct_data_chunk sha rs_reconstruct dir manifest target =
     (let k = cm_chunk_count manifest;
          m = (case cm_parity_shards manifest of Some m \<Rightarrow> m | None \<Rightarrow> 0);
          shard_size = (case cm_shard_size manifest of Some s \<Rightarrow> s | None \<Rightarrow> cm_chunk_size manifest)
      in if k = 0 then Some (Inl (io_other ''RS init error: Too few data shards''))
         else if m = 0 then Some (Inl (io_other ''RS init error: Too few parity shards''))
         else if k + m > 256 then Some (Inl (io_other ''RS init error: Too many shards''))
         else (case collect_shards sha dir (cm_chunks manifest) shard_size 0 (k + m) of
                 Inl e \<Rightarrow> Some (Inl e)
               | Inr shards \<Rightarrow>
                   (let present = length (filter (\<lambda>s. s \<noteq> None) shards)
                    in if present < k
                       then Some (Inl (bad_data (''too many missing/corrupt shards: only '' @ show_nat present
                              @ '' of '' @ show_nat k @ '' required shards available (''
                              @ show_nat (k + m - present) @ '' missing)'')))
                       else (case rs_reconstruct k m shards of
                               Inl e \<Rightarrow> Some (Inl (io_other (''RS reconstruction failed: '' @ e)))
                             | Inr rebuilt \<Rightarrow>
                                 if target < length rebuilt \<and> target < length (cm_chunks manifest)
                                 then (case rebuilt ! target of
                                         None \<Rightarrow> Some (Inl (io_other ''reconstruction produced None for target shard''))
                                       | Some d \<Rightarrow> Some (Inr (take (ci_size (cm_chunks manifest ! target)) d)))
                                 else None))))"

text \<open>The data part of \<open>load_chunk_sync\<close>: direct read, or recovery when parity is configured.\<close>

definition load_chunk_data ::
  "(bytes \<Rightarrow> string) \<Rightarrow> rs_decoder \<Rightarrow> chunk_dir \<Rightarrow> ChunkManifest \<Rightarrow> nat \<Rightarrow> (io_error + bytes) option" where
  "load_chunk_data sha rs_reconstruct dir manifest current =
     (if current < length (cm_chunks manifest) then
        (case read_verified sha dir current (cm_chunks manifest ! current) of
           Inr data \<Rightarrow> Some (Inr data)
         | Inl original_err \<Rightarrow>
             if (case cm_parity_shards manifest of Some m \<Rightarrow> m | None \<Rightarrow> 0) > 0
             then try_reconstruct_data_chunk sha rs_reconstruct dir manifest current
             else Some (Inl original_err))
      else Some (Inl (bad_data (''manifest missing chunk '' @ show_nat current @ '' (''
                        @ show_nat (length (cm_chunks manifest)) @ '' entries)''))))"

definition load_chunk_sync ::
  "(bytes \<Rightarrow> string) \<Rightarrow> rs_decoder \<Rightarrow> VerifiedChunkReader \<Rightarrow> ((io_error + unit) \<times> VerifiedChunkReader) option" where
  "load_chunk_sync sha rs_reconstruct r =
     (case load_chunk_data sha rs_reconstruct (cr_dir r) (cr_manifest r) (cr_current_chunk r) of
        None \<Rightarrow> None
      | Some (Inl e) \<Rightarrow> Some (Inl e, r)
      | Some (Inr data) \<Rightarrow>
          Some (Inr (), r\<lparr>cr_buf := data, cr_buf_pos := cr_skip_bytes r, cr_skip_bytes := 0, cr_state := Serving\<rparr>))"

definition chunk_preflight ::
  "(bytes \<Rightarrow> string) \<Rightarrow> rs_decoder \<Rightarrow> VerifiedChunkReader \<Rightarrow> ((io_error + unit) \<times> VerifiedChunkReader) option" where
  "chunk_preflight sha rs_reconstruct r =
     (if cr_state r = Done then Some (Inr (), r) else load_chunk_sync sha rs_reconstruct r)"

partial_function (option) chunk_poll ::
  "(bytes \<Rightarrow> string) \<Rightarrow> rs_decoder \<Rightarrow> VerifiedChunkReader \<Rightarrow> nat
     \<Rightarrow> ((io_error + bytes) poll \<times> VerifiedChunkReader) option" where
  "chunk_poll sha rs_reconstruct r n =
     (case cr_state r of
        Done \<Rightarrow> Some (Ready (Inr []), r)
      | NeedLoad \<Rightarrow>
          (if cr_current_chunk r > cr_end_chunk r \<or> cr_remaining r = 0
           then Some (Ready (Inr []), r\<lparr>cr_state := Done\<rparr>)
           else (case load_chunk_sync sha rs_reconstruct r of
                   None \<Rightarrow> None
                 | Some (Inl e, r') \<Rightarrow> Some (Ready (Inl e), r')
                 | Some (Inr _, r') \<Rightarrow> chunk_poll sha rs_reconstruct r' n))
      | Serving \<Rightarrow>
          (if cr_buf_pos r > length (cr_buf r) then None
           else (let available = drop (cr_buf_pos r) (cr_buf r)
                 in if available = []
                    then chunk_poll sha rs_reconstruct
                           (r\<lparr>cr_current_chunk := Suc (cr_current_chunk r), cr_state := NeedLoad\<rparr>) n
                    else (let to_copy = min (min (length available) n) (cr_remaining r);
                              rem = cr_remaining r - to_copy
                          in Some (Ready (Inr (take to_copy available)),
                               r\<lparr>cr_buf_pos := cr_buf_pos r + to_copy, cr_remaining := rem,
                                 cr_state := (if rem = 0 then Done else Serving)\<rparr>)))))"

definition chunk_read :: "(bytes \<Rightarrow> string) \<Rightarrow> rs_decoder \<Rightarrow> VerifiedChunkReader reader" where
  "chunk_read sha rs_reconstruct = poll_or_hang (chunk_poll sha rs_reconstruct)"

section \<open>Reading through intact or recoverable chunks\<close>

text \<open>
  \<open>ds\<close> are the chunks up to the last one the reader may touch. \<open>chunk_inv\<close> says that each
  of them loads and that the bytes still wanted lie within them.
\<close>

definition chunk_inv ::
  "(bytes \<Rightarrow> string) \<Rightarrow> rs_decoder \<Rightarrow> bytes list \<Rightarrow> VerifiedChunkReader \<Rightarrow> bool" where
  "chunk_inv sha rs ds r \<longleftrightarrow>
     (case cr_state r of
        Done \<Rightarrow> True
      | st \<Rightarrow>
         (\<forall>i<length ds. load_chunk_data sha rs (cr_dir r) (cr_manifest r) i = Some (Inr (ds ! i)))
         \<and> Suc (cr_end_chunk r) = length ds \<and> 0 < cr_remaining r
         \<and> (if st = NeedLoad
            then cr_skip_bytes r + cr_remaining r \<le> length (concat (drop (cr_current_chunk r) ds))
                 \<and> (cr_current_chunk r < length ds \<longrightarrow> cr_skip_bytes r \<le> length (ds ! cr_current_chunk r))
            else cr_buf_pos r \<le> length (cr_buf r) \<and> cr_skip_bytes r = 0
                 \<and> cr_remaining r \<le> length (drop (cr_buf_pos r) (cr_buf r) @ concat (drop (Suc (cr_current_chunk r)) ds))))"

definition chunk_rest :: "bytes list \<Rightarrow> VerifiedChunkReader \<Rightarrow> bytes" where
  "chunk_rest ds r =
     (case cr_state r of
        Done \<Rightarrow> []
      | NeedLoad \<Rightarrow> take (cr_remaining r) (drop (cr_skip_bytes r) (concat (drop (cr_current_chunk r) ds)))
      | Serving \<Rightarrow> take (cr_remaining r)
          (drop (cr_buf_pos r) (cr_buf r) @ concat (drop (Suc (cr_current_chunk r)) ds)))"

lemma chunk_load_step:
  assumes inv: "chunk_inv sha rs ds r" and st: "cr_state r = NeedLoad"
  shows "\<exists>r'. load_chunk_sync sha rs r = Some (Inr (), r') \<and> chunk_inv sha rs ds r'
    \<and> chunk_rest ds r' = chunk_rest ds r \<and> cr_state r' = Serving \<and> cr_current_chunk r' = cr_current_chunk r
    \<and> cr_current_chunk r < length ds"
proof -
  let ?c = "cr_current_chunk r"
  have c: "?c < length ds"
    using inv st by (cases "?c < length ds") (auto simp: chunk_inv_def)
  then have ld: "load_chunk_data sha rs (cr_dir r) (cr_manifest r) ?c = Some (Inr (ds ! ?c))"
    and sk: "cr_skip_bytes r \<le> length (ds ! ?c)" "cr_skip_bytes r + cr_remaining r \<le> length (concat (drop ?c ds))"
    using inv st by (auto simp: chunk_inv_def)
  have cat: "concat (drop ?c ds) = ds ! ?c @ concat (drop (Suc ?c) ds)"
    using c by (simp flip: Cons_nth_drop_Suc)
  let ?r = "r\<lparr>cr_buf := ds ! ?c, cr_buf_pos := cr_skip_bytes r, cr_skip_bytes := 0, cr_state := Serving\<rparr>"
  have "chunk_inv sha rs ds ?r"
    using inv st sk by (auto simp: chunk_inv_def cat)
  moreover have "chunk_rest ds ?r = chunk_rest ds r"
    using st sk by (simp add: chunk_rest_def cat)
  ultimately show ?thesis using ld c by (simp add: load_chunk_sync_def)
qed

lemma chunk_serve_step:
  assumes inv: "chunk_inv sha rs ds r" and st: "cr_state r = Serving" and n: "0 < n"
    and av: "drop (cr_buf_pos r) (cr_buf r) \<noteq> []"
  shows "\<exists>bs r'. chunk_poll sha rs r n = Some (Ready (Inr bs), r') \<and> bs \<noteq> [] \<and> length bs \<le> n
    \<and> chunk_inv sha rs ds r' \<and> chunk_rest ds r = bs @ chunk_rest ds r'"
proof -
  define a where "a = min (min (length (drop (cr_buf_pos r) (cr_buf r))) n) (cr_remaining r)"
  let ?av = "drop (cr_buf_pos r) (cr_buf r)" and ?t = "concat (drop (Suc (cr_current_chunk r)) ds)"
  let ?r = "r\<lparr>cr_buf_pos := cr_buf_pos r + a, cr_remaining := cr_remaining r - a,
              cr_state := (if cr_remaining r - a = 0 then Done else Serving)\<rparr>"
  have pos: "cr_buf_pos r \<le> length (cr_buf r)" and rem: "0 < cr_remaining r" "cr_remaining r \<le> length (?av @ ?t)"
    using inv st by (auto simp: chunk_inv_def)
  have a: "0 < a" "a \<le> n" "a \<le> length ?av" "a \<le> cr_remaining r" using av n rem by (auto simp: a_def)
  have dr: "drop (cr_buf_pos r + a) (cr_buf r) = drop a ?av" by (simp add: add.commute)
  have "chunk_poll sha rs r n = Some (Ready (Inr (take a ?av)), ?r)"
    using st pos av by (simp add: chunk_poll.simps [of sha rs r n] a_def Let_def)
  moreover have "chunk_inv sha rs ds ?r"
    using inv st a rem by (auto simp: chunk_inv_def)
  moreover have "chunk_rest ds r = take a ?av @ chunk_rest ds ?r"
  proof -
    have "chunk_rest ds ?r = take (cr_remaining r - a) (drop a ?av @ ?t)"
      by (simp add: chunk_rest_def dr del: drop_drop)
    also have "\<dots> = drop a (take (cr_remaining r) (?av @ ?t))"
      using a by (simp add: drop_take del: drop_drop)
    finally have "chunk_rest ds ?r = drop a (chunk_rest ds r)" using st by (simp add: chunk_rest_def)
    moreover have "take a (chunk_rest ds r) = take a ?av" using st a by (simp add: chunk_rest_def)
    ultimately show ?thesis by (metis append_take_drop_id)
  qed
  moreover have "take a ?av \<noteq> []" "length (take a ?av) \<le> n" using a av by auto
  ultimately show ?thesis by blast
qed

lemma chunk_poll_ok:
  assumes "chunk_inv sha rs ds r" and n: "0 < n"
  shows "\<exists>x. chunk_poll sha rs r n = Some x \<and> poll_ok (chunk_inv sha rs ds) (chunk_rest ds) (\<lambda>_. 0) r n x"
  using assms(1)
proof (induction r rule: wf_induct_rule
    [OF wf_measures [of "[\<lambda>r. Suc (length ds) - cr_current_chunk r, \<lambda>r. if cr_state r = NeedLoad then 1 else 0]"]])
  case (1 r)
  have step: ?case
    if "chunk_poll sha rs r n = chunk_poll sha rs r1 n" and "chunk_inv sha rs ds r1" and "chunk_rest ds r1 = chunk_rest ds r"
      and "(r1, r) \<in> measures [\<lambda>r. Suc (length ds) - cr_current_chunk r, \<lambda>r. if cr_state r = NeedLoad then 1 else 0]" for r1
    using "1.IH" [OF that(4,2)] that(1,3) poll_ok_step [of "chunk_inv sha rs ds" "chunk_rest ds" "\<lambda>_. 0"] by fastforce
  show ?case
  proof (cases "cr_state r")
    case Done
    then show ?thesis by (simp add: chunk_poll.simps [of sha rs r n] poll_ok_def chunk_inv_def chunk_rest_def)
  next
    case NeedLoad
    from chunk_load_step [OF "1.prems" NeedLoad] obtain r' where r':
      "load_chunk_sync sha rs r = Some (Inr (), r')" "chunk_inv sha rs ds r'" "chunk_rest ds r' = chunk_rest ds r"
      "cr_state r' = Serving" "cr_current_chunk r' = cr_current_chunk r" "cr_current_chunk r < length ds" by blast
    have "cr_current_chunk r \<le> cr_end_chunk r" "cr_remaining r \<noteq> 0"
      using "1.prems" NeedLoad r'(6) by (auto simp: chunk_inv_def)
    with r' NeedLoad show ?thesis
      by (intro step [of r']) (simp_all add: chunk_poll.simps [of sha rs r n])
  next
    case Serving
    show ?thesis
    proof (cases "drop (cr_buf_pos r) (cr_buf r) = []")
      case False
      from chunk_serve_step [OF "1.prems" Serving n False] obtain bs r' where
        "chunk_poll sha rs r n = Some (Ready (Inr bs), r')" "bs \<noteq> []" "length bs \<le> n"
        "chunk_inv sha rs ds r'" "chunk_rest ds r = bs @ chunk_rest ds r'" by blast
      then show ?thesis by (auto intro: poll_ok_dataI)
    next
      case True
      let ?r = "r\<lparr>cr_current_chunk := Suc (cr_current_chunk r), cr_state := NeedLoad\<rparr>"
      have c: "cr_current_chunk r < length ds"
        using "1.prems" Serving True by (cases "cr_current_chunk r < length ds") (auto simp: chunk_inv_def)
      have "chunk_inv sha rs ds ?r" "chunk_rest ds ?r = chunk_rest ds r"
        using "1.prems" Serving True by (auto simp: chunk_inv_def chunk_rest_def)
      moreover have "chunk_poll sha rs r n = chunk_poll sha rs ?r n"
        using "1.prems" Serving True by (simp add: chunk_poll.simps [of sha rs r n] chunk_inv_def)
      ultimately show ?thesis using c by (intro step [of ?r]) simp_all
    qed
  qed
qed

lemma chunk_stream: "stream_reader (chunk_read sha rs) (chunk_inv sha rs ds) (chunk_rest ds) (\<lambda>_. 0)"
  unfolding chunk_read_def by (rule stream_reader_poll_or_hang) (rule chunk_poll_ok)

section \<open>The writer\<close>

text \<open>
  The local variables of \<open>put_object_chunked\<close>'s loop: the files of the temporary directory,
  \<open>chunks\<close>, \<open>chunk_index\<close>, \<open>chunk_buf\<close>, \<open>total_size\<close>, and what the hashers were fed. With
  a chunk size of 0 the inner loop never ends.
\<close>

record chunk_writer =
  cw_files :: chunk_files
  cw_chunks :: "ChunkInfo list"
  cw_index :: nat
  cw_buf :: bytes
  cw_total :: nat
  cw_hashed :: bytes

definition cw_new :: chunk_writer where
  "cw_new = \<lparr>cw_files = Map.empty, cw_chunks = [], cw_index = 0, cw_buf = [], cw_total = 0, cw_hashed = []\<rparr>"

definition push_chunk :: "(bytes \<Rightarrow> string) \<Rightarrow> bytes \<Rightarrow> chunk_writer \<Rightarrow> chunk_writer" where
  "push_chunk sha data w =
     (let (ci, files) = write_chunk_to_dir sha (cw_index w) data (cw_files w)
      in w\<lparr>cw_files := files, cw_chunks := cw_chunks w @ [ci]\<rparr>)"

partial_function (option) write_full_chunks ::
  "(bytes \<Rightarrow> string) \<Rightarrow> nat \<Rightarrow> chunk_writer \<Rightarrow> chunk_writer option" where
  "write_full_chunks sha chunk_size w =
     (if length (cw_buf w) \<ge> chunk_size
      then (let w' = push_chunk sha (take chunk_size (cw_buf w)) w
            in write_full_chunks sha chunk_size
                 (w'\<lparr>cw_buf := drop chunk_size (cw_buf w), cw_index := Suc (cw_index w)\<rparr>))
      else Some w)"

partial_function (option) put_chunks ::
  "'s reader \<Rightarrow> nat \<Rightarrow> (bytes \<Rightarrow> string) \<Rightarrow> nat \<Rightarrow> 's \<Rightarrow> chunk_writer
     \<Rightarrow> ((StorageError + chunk_writer) \<times> 's) option" where
  "put_chunks rd cap sha chunk_size s w =
     (case rd s cap of
        (Pending, s') \<Rightarrow> put_chunks rd cap sha chunk_size s' w
      | (Ready (Inl e), s') \<Rightarrow> Some (Inl (map_read_quota_error e), s')
      | (Ready (Inr bs), s') \<Rightarrow>
          (if bs = [] then Some (Inr (if cw_buf w \<noteq> [] then push_chunk sha (cw_buf w) w else w), s')
           else (case write_full_chunks sha chunk_size
                        (w\<lparr>cw_hashed := cw_hashed w @ bs, cw_total := cw_total w + length bs,
                           cw_buf := cw_buf w @ bs\<rparr>) of
                   None \<Rightarrow> None
                 | Some w' \<Rightarrow> put_chunks rd cap sha chunk_size s' w')))"

text \<open>
  \<open>compute_and_write_parity_from\<close>: the data chunks are read back from the directory, padded
  and encoded. A data file that cannot be read is an I/O error.
\<close>

fun read_back :: "chunk_files \<Rightarrow> nat \<Rightarrow> ChunkInfo list \<Rightarrow> StorageError + bytes list" where
  "read_back files shard_size [] = Inr []"
| "read_back files shard_size (ci # cis) =
     (case files (chunk_name (ci_index ci)) of
        None \<Rightarrow> Inl (Io \<lparr>io_kind = NotFoundKind, io_msg = ''No such file or directory (os error 2)''\<rparr>)
      | Some data \<Rightarrow> bind_res (read_back files shard_size cis) (\<lambda>ds. Inr (resize shard_size data # ds)))"

fun write_parity :: "(bytes \<Rightarrow> string) \<Rightarrow> nat \<Rightarrow> bytes list \<Rightarrow> chunk_files \<Rightarrow> ChunkInfo list \<times> chunk_files" where
  "write_parity sha i [] files = ([], files)"
| "write_parity sha i (p # ps) files =
     (let (ci, files') = write_chunk_to_dir sha i p files;
          (cis, files'') = write_parity sha (Suc i) ps files'
      in (into_parity ci # cis, files''))"

definition compute_and_write_parity_from ::
  "(bytes \<Rightarrow> string) \<Rightarrow> rs_encoder \<Rightarrow> nat \<Rightarrow> nat \<Rightarrow> chunk_files \<Rightarrow> ChunkInfo list
     \<Rightarrow> StorageError + (ChunkInfo list \<times> chunk_files)" where
  "compute_and_write_parity_from sha rs_encode chunk_size parity_shards files data_chunks =
     (let k = length data_chunks; m = parity_shards
      in if k + m > 255
         then Inl (InvalidKey (''too many shards: '' @ show_nat k @ '' data + '' @ show_nat m @ '' parity = ''
                    @ show_nat (k + m) @ '' > 255 (GF(2^8) limit). Increase --chunk-size''))
         else bind_res (read_back files chunk_size data_chunks) (\<lambda>shards.
              if k = 0 then Inl (InvalidKey ''Reed-Solomon init error: Too few data shards'')
              else if m = 0 then Inl (InvalidKey ''Reed-Solomon init error: Too few parity shards'')
              else (case rs_encode k m shards of
                      Inl e \<Rightarrow> Inl (InvalidKey (''Reed-Solomon encode error: '' @ e))
                    | Inr parity \<Rightarrow> Inr (write_parity sha k parity files))))"

definition chunk_manifest :: "bool \<Rightarrow> nat \<Rightarrow> nat \<Rightarrow> nat \<Rightarrow> nat \<Rightarrow> ChunkInfo list \<Rightarrow> ChunkManifest" where
  "chunk_manifest has_parity total_size chunk_size parity_shards data_chunk_count chunks =
     \<lparr>cm_version = (if has_parity then 2 else 1), cm_total_size = total_size, cm_chunk_size = chunk_size,
      cm_chunk_count = data_chunk_count, cm_chunks = chunks,
      cm_parity_shards = (if has_parity then Some parity_shards else None),
      cm_shard_size = (if has_parity then Some chunk_size else None), cm_plaintext_size = None\<rparr>"

text \<open>What follows the loop, up to the manifest.\<close>

definition finish_chunks ::
  "(bytes \<Rightarrow> string) \<Rightarrow> rs_encoder \<Rightarrow> nat \<Rightarrow> nat \<Rightarrow> chunk_writer \<Rightarrow> StorageError + (ChunkManifest \<times> chunk_files)" where
  "finish_chunks sha rs_encode chunk_size parity_shards w =
     (let w = (if cw_chunks w = [] then push_chunk sha [] (w\<lparr>cw_index := 0\<rparr>) else w);
          data_chunk_count = length (cw_chunks w);
          has_parity = (parity_shards > 0 \<and> cw_total w > 0)
      in bind_res
           (if has_parity
            then compute_and_write_parity_from sha rs_encode chunk_size parity_shards (cw_files w) (cw_chunks w)
            else Inr ([], cw_files w))
           (\<lambda>(parity_infos, files).
              Inr (chunk_manifest has_parity (cw_total w) chunk_size parity_shards data_chunk_count
                     (cw_chunks w @ parity_infos), files)))"

definition put_object_chunked_payload ::
  "'s reader \<Rightarrow> nat \<Rightarrow> (bytes \<Rightarrow> string) \<Rightarrow> rs_encoder \<Rightarrow> nat \<Rightarrow> nat \<Rightarrow> 's
     \<Rightarrow> (StorageError + (ChunkManifest \<times> chunk_files \<times> bytes)) option" where
  "put_object_chunked_payload rd cap sha rs_encode chunk_size parity_shards s =
     (case put_chunks rd cap sha chunk_size s cw_new of
        None \<Rightarrow> None
      | Some (Inl e, _) \<Rightarrow> Some (Inl e)
      | Some (Inr w, _) \<Rightarrow>
          Some (bind_res (finish_chunks sha rs_encode chunk_size parity_shards w)
                  (\<lambda>(manifest, files). Inr (manifest, files, cw_hashed w))))"

end
