(* ===== verification/Recovery.thy ===== *)
theory Recovery
  imports Chunks
begin

text \<open>
  The chunk writer against the chunk reader: what \<open>put_object_chunked\<close> stores, that
  \<open>load_chunk_sync\<close> rebuilds lost or altered chunks while enough shards are left, and that
  range reads over the result return the uploaded bytes.
\<close>

section \<open>What the writer stores\<close>

definition chunk_info :: "(bytes \<Rightarrow> string) \<Rightarrow> nat \<Rightarrow> bytes \<Rightarrow> ChunkInfo" where
  "chunk_info sha i d = \<lparr>ci_index = i, ci_size = length d, ci_sha256 = sha d, ci_kind = DataChunk\<rparr>"

definition chunk_infos :: "(bytes \<Rightarrow> string) \<Rightarrow> bytes list \<Rightarrow> ChunkInfo list" where
  "chunk_infos sha ds = map (\<lambda>i. chunk_info sha i (ds ! i)) [0..<length ds]"

definition holds :: "chunk_files \<Rightarrow> bytes list \<Rightarrow> bool" where
  "holds files ds \<longleftrightarrow> (\<forall>i<length ds. files (chunk_name i) = Some (ds ! i))"

lemma chunk_infos_snoc: "chunk_infos sha (ds @ [d]) = chunk_infos sha ds @ [chunk_info sha (length ds) d]"
  by (simp add: chunk_infos_def nth_append)

lemma length_chunk_infos [simp]: "length (chunk_infos sha ds) = length ds"
  by (simp add: chunk_infos_def)

lemma holds_snoc: "holds files ds \<Longrightarrow> holds (files(chunk_name (length ds) \<mapsto> d)) (ds @ [d])"
  by (auto simp: holds_def nth_append less_Suc_eq dest: chunk_name_inj)

definition cw_inv :: "nat \<Rightarrow> (bytes \<Rightarrow> string) \<Rightarrow> chunk_writer \<Rightarrow> bytes list \<Rightarrow> bool" where
  "cw_inv c sha w ds \<longleftrightarrow> cw_chunks w = chunk_infos sha ds \<and> holds (cw_files w) ds \<and> cw_index w = length ds
     \<and> (\<forall>d\<in>set ds. length d = c) \<and> cw_hashed w = concat ds @ cw_buf w \<and> cw_total w = length (cw_hashed w)"

lemma push_chunk_simps:
  assumes "cw_chunks w = chunk_infos sha ds" and "holds (cw_files w) ds" and "cw_index w = length ds"
  shows "cw_chunks (push_chunk sha d w) = chunk_infos sha (ds @ [d])"
    and "holds (cw_files (push_chunk sha d w)) (ds @ [d])"
    and "cw_hashed (push_chunk sha d w) = cw_hashed w" and "cw_total (push_chunk sha d w) = cw_total w"
  using assms by (simp_all add: push_chunk_def write_chunk_to_dir_def chunk_infos_snoc chunk_info_def holds_snoc)

lemma write_full_chunks_spec:
  assumes "0 < c" and "cw_inv c sha w ds"
  shows "\<exists>w' ds'. write_full_chunks sha c w = Some w' \<and> cw_inv c sha w' ds' \<and> length (cw_buf w') < c
    \<and> cw_hashed w' = cw_hashed w"
  using assms(2)
proof (induction "length (cw_buf w)" arbitrary: w ds rule: less_induct)
  case less
  show ?case
  proof (cases "c \<le> length (cw_buf w)")
    case False
    with less.prems show ?thesis by (auto simp: write_full_chunks.simps [of sha c w])
  next
    case True
    let ?w = "(push_chunk sha (take c (cw_buf w)) w)\<lparr>cw_buf := drop c (cw_buf w), cw_index := Suc (cw_index w)\<rparr>"
    have "cw_inv c sha ?w (ds @ [take c (cw_buf w)])"
      using less.prems True push_chunk_simps [of w sha ds "take c (cw_buf w)"]
      by (auto simp: cw_inv_def)
    moreover have "length (cw_buf ?w) < length (cw_buf w)" using True assms(1) by simp
    moreover have "cw_hashed ?w = cw_hashed w"
      using less.prems push_chunk_simps(3) [of w sha ds] by (simp add: cw_inv_def)
    moreover have "write_full_chunks sha c w = write_full_chunks sha c ?w"
      using True by (simp add: write_full_chunks.simps [of sha c w] Let_def)
    ultimately show ?thesis using less.hyps [of ?w] by fastforce
  qed
qed

lemma chunks_of_concat:
  assumes "0 < c" and "\<forall>d\<in>set ds. length d = c" and "length b < c"
  shows "chunks_of c (concat ds @ b) = ds @ (if b = [] then [] else [b])"
  using assms(2) by (induction ds) (use assms in \<open>auto simp: chunks_of_append_exact chunks_of_small\<close>)

definition cw_stored :: "nat \<Rightarrow> (bytes \<Rightarrow> string) \<Rightarrow> chunk_writer \<Rightarrow> bytes \<Rightarrow> bool" where
  "cw_stored c sha w pt \<longleftrightarrow> cw_chunks w = chunk_infos sha (chunks_of c pt) \<and> holds (cw_files w) (chunks_of c pt)
     \<and> cw_hashed w = pt \<and> cw_total w = length pt"

lemma flush_chunk_stored:
  assumes "0 < c" and "cw_inv c sha w ds" and "length (cw_buf w) < c"
  shows "cw_stored c sha (if cw_buf w \<noteq> [] then push_chunk sha (cw_buf w) w else w) (cw_hashed w)"
proof -
  have ch: "chunks_of c (cw_hashed w) = ds @ (if cw_buf w = [] then [] else [cw_buf w])"
    using assms chunks_of_concat [of c ds "cw_buf w"] by (simp add: cw_inv_def)
  show ?thesis
    using assms(2) push_chunk_simps [of w sha ds "cw_buf w"]
    unfolding cw_stored_def ch by (cases "cw_buf w = []") (simp_all add: cw_inv_def)
qed

context stream_reader
begin

lemma put_chunks_all:
  assumes c: "0 < c" and cap: "0 < cap" and "inv s" and "cw_inv c sha w ds" and "length (cw_buf w) < c"
  shows "\<exists>w' s'. put_chunks rd cap sha c s w = Some (Inr w', s') \<and> cw_stored c sha w' (cw_hashed w @ rest s)"
  using assms(3-)
proof (induction s arbitrary: w ds rule: wf_induct_rule
    [OF wf_measures [of "[\<lambda>s. length (rest s), wait]"]])
  case (1 s)
  note unfold = put_chunks.simps [of rd cap sha c s w]
  from "1.prems"(1) cap show ?case
  proof (cases rule: poll_cases)
    case (pending s')
    then have "put_chunks rd cap sha c s w = put_chunks rd cap sha c s' w" by (simp add: unfold)
    moreover have "(s', s) \<in> measures [\<lambda>s. length (rest s), wait]" using pending by simp
    ultimately show ?thesis using "1.IH" [of s' w ds] pending "1.prems"(2,3) by (simp only:)
  next
    case (eof s')
    with flush_chunk_stored [OF c "1.prems"(2,3)] show ?thesis by (simp add: unfold)
  next
    case (data bs s')
    let ?w = "w\<lparr>cw_hashed := cw_hashed w @ bs, cw_total := cw_total w + length bs, cw_buf := cw_buf w @ bs\<rparr>"
    have "cw_inv c sha ?w ds" using "1.prems"(2) by (simp add: cw_inv_def)
    from write_full_chunks_spec [OF c this] obtain w' ds' where
      w': "write_full_chunks sha c ?w = Some w'" "cw_inv c sha w' ds'" "length (cw_buf w') < c"
        "cw_hashed w' = cw_hashed w @ bs" by auto
    then have "put_chunks rd cap sha c s w = put_chunks rd cap sha c s' w'" using data by (simp add: unfold)
    with "1.IH" [of s' w' ds'] w' data show ?thesis by simp
  qed
qed

end

section \<open>Parity\<close>

lemma read_back_holds:
  "holds files ds \<Longrightarrow> read_back files c (chunk_infos sha ds) = Inr (map (resize c) ds)"
proof -
  assume h: "holds files ds"
  have "read_back files c (map (\<lambda>i. chunk_info sha i (ds ! i)) is) = Inr (map (\<lambda>i. resize c (ds ! i)) is)"
    if "set is \<subseteq> {..<length ds}" for "is"
    using that h by (induction "is") (auto simp: chunk_info_def holds_def)
  moreover have "map (\<lambda>i. resize c (ds ! i)) [0..<length ds] = map (resize c) ds"
    by (rule nth_equalityI) simp_all
  ultimately show ?thesis unfolding chunk_infos_def by (metis atLeast_upt order_refl)
qed

lemma write_parity_spec:
  assumes "write_parity sha i ps files = (cis, files')"
  shows "cis = map (\<lambda>j. into_parity (chunk_info sha (i + j) (ps ! j))) [0..<length ps]
    \<and> (\<forall>j<length ps. files' (chunk_name (i + j)) = Some (ps ! j)) \<and> (\<forall>j<i. files' (chunk_name j) = files (chunk_name j))"
  using assms
proof (induction ps arbitrary: i files cis files')
  case (Cons p ps)
  obtain cis1 files1 where r: "write_parity sha (Suc i) ps (files(chunk_name i \<mapsto> p)) = (cis1, files1)" by fastforce
  with Cons.prems have eq: "cis = into_parity (chunk_info sha i p) # cis1" "files' = files1"
    by (simp_all add: write_chunk_to_dir_def chunk_info_def)
  note IH = Cons.IH [OF r]
  have "files1 (chunk_name (i + j)) = Some ((p # ps) ! j)" if "j < length (p # ps)" for j
    using IH that by (cases j) auto
  moreover have "files1 (chunk_name j) = files (chunk_name j)" if "j < i" for j
  proof -
    have "chunk_name j \<noteq> chunk_name i" using that chunk_name_inj by fastforce
    with IH that show ?thesis by simp
  qed
  moreover have "cis = map (\<lambda>j. into_parity (chunk_info sha (i + j) ((p # ps) ! j))) [0..<length (p # ps)]"
    using IH eq by (simp add: upt_conv_Cons map_Suc_upt [symmetric] del: upt_Suc)
  ultimately show ?case using eq by blast
qed simp

text \<open>
  A stored object: \<open>ds\<close> are its data chunks, \<open>ps\<close> its parity shards, and the manifest and
  the files describe exactly these.
\<close>

definition stored_as :: "(bytes \<Rightarrow> string) \<Rightarrow> nat \<Rightarrow> nat \<Rightarrow> bytes \<Rightarrow> bytes list \<Rightarrow> bytes list \<Rightarrow> ChunkManifest \<Rightarrow> bool" where
  "stored_as sha c m pt ds ps manifest \<longleftrightarrow>
     cm_total_size manifest = length pt \<and> cm_chunk_size manifest = c \<and> cm_chunk_count manifest = length ds
     \<and> length (cm_chunks manifest) = length ds + length ps
     \<and> (\<forall>i<length ds + length ps. ci_size (cm_chunks manifest ! i) = length ((ds @ ps) ! i)
          \<and> ci_sha256 (cm_chunks manifest ! i) = sha ((ds @ ps) ! i))
     \<and> cm_parity_shards manifest = (if ps = [] then None else Some m)
     \<and> cm_shard_size manifest = (if ps = [] then None else Some c)"

lemma chunk_infos_nth: "i < length ds \<Longrightarrow> chunk_infos sha ds ! i = chunk_info sha i (ds ! i)"
  by (simp add: chunk_infos_def)

lemma finish_chunks_spec:
  assumes rs: "rs_law rs_encode rs_reconstruct (length (chunks_of c pt)) m" and c: "0 < c" and w: "cw_stored c sha w pt"
    and few: "0 < m \<longrightarrow> length (chunks_of c pt) + m \<le> 255"
  shows "\<exists>manifest files ds ps. finish_chunks sha rs_encode c m w = Inr (manifest, files)
    \<and> stored_as sha c m pt ds ps manifest \<and> ds = (if pt = [] then [[]] else chunks_of c pt)
    \<and> holds files (ds @ ps) \<and> (ps = [] \<longleftrightarrow> m = 0 \<or> pt = [])
    \<and> (ps \<noteq> [] \<longrightarrow> length ps = m \<and> rs_encode (length ds) m (map (resize c) ds) = Inr ps)"
proof (cases "pt = []")
  case True
  let ?w = "push_chunk sha [] (w\<lparr>cw_index := 0\<rparr>)"
  let ?M = "chunk_manifest False 0 c m 1 (chunk_infos sha [[]])"
  have cw: "cw_chunks ?w = chunk_infos sha ([] @ [[]])" "holds (cw_files ?w) ([] @ [[]])" "cw_total ?w = 0"
    using push_chunk_simps [of "w\<lparr>cw_index := 0\<rparr>" sha "[]" "[]"] w True
    by (simp_all add: cw_stored_def chunk_infos_def holds_def)
  then have fin: "finish_chunks sha rs_encode c m w = Inr (?M, cw_files ?w)"
    using w True by (simp add: finish_chunks_def cw_stored_def chunk_infos_def Let_def)
  moreover have "stored_as sha c m pt [[]] [] ?M"
    using True by (simp add: stored_as_def chunk_manifest_def chunk_infos_def chunk_info_def)
  ultimately show ?thesis using cw(2) True by fastforce
next
  case False
  let ?ds = "chunks_of c pt"
  from False c have ne: "?ds \<noteq> []" by (simp add: chunks_of_step)
  have cw: "cw_chunks w = chunk_infos sha ?ds" "holds (cw_files w) ?ds" "cw_total w = length pt"
    using w by (simp_all add: cw_stored_def)
  have ne': "cw_chunks w \<noteq> []" using cw(1) ne by (metis length_chunk_infos length_0_conv)
  show ?thesis
  proof (cases "m = 0")
    case True
    let ?M = "chunk_manifest False (length pt) c m (length ?ds) (chunk_infos sha ?ds)"
    have "finish_chunks sha rs_encode c m w = Inr (?M, cw_files w)"
      using cw ne' True by (simp add: finish_chunks_def Let_def)
    moreover have "stored_as sha c m pt ?ds [] ?M"
      by (simp add: stored_as_def chunk_manifest_def chunk_infos_nth chunk_info_def)
    ultimately show ?thesis using cw(2) True False by fastforce
  next
    case m: False
    have "\<exists>ps. rs_encode (length ?ds) m (map (resize c) ?ds) = Inr ps \<and> length ps = m"
      using rs [unfolded rs_law_def, rule_format, of "map (resize c) ?ds" c] ne m few c by auto
    then obtain ps where ps: "rs_encode (length ?ds) m (map (resize c) ?ds) = Inr ps" "length ps = m" by blast
    obtain cis files where wp: "write_parity sha (length ?ds) ps (cw_files w) = (cis, files)" by fastforce
    note wps = write_parity_spec [OF wp]
    let ?M = "chunk_manifest True (length pt) c m (length ?ds) (chunk_infos sha ?ds @ cis)"
    have "compute_and_write_parity_from sha rs_encode c m (cw_files w) (chunk_infos sha ?ds) = Inr (cis, files)"
      using few m ne ps wp read_back_holds [OF cw(2), of c sha]
      by (simp add: compute_and_write_parity_from_def Let_def)
    then have "finish_chunks sha rs_encode c m w = Inr (?M, files)"
      using cw ne' False m by (simp add: finish_chunks_def Let_def)
    moreover have "holds files (?ds @ ps)"
    proof -
      have "files (chunk_name i) = Some ((?ds @ ps) ! i)" if "i < length (?ds @ ps)" for i
      proof (cases "i < length ?ds")
        case True
        with wps cw(2) show ?thesis by (simp add: holds_def nth_append)
      next
        case False
        then have "i = length ?ds + (i - length ?ds)" "i - length ?ds < length ps" using that by auto
        with wps False show ?thesis by (metis nth_append)
      qed
      then show ?thesis by (simp add: holds_def)
    qed
    moreover have "stored_as sha c m pt ?ds ps ?M"
      using wps ps m
      by (auto simp: stored_as_def chunk_manifest_def nth_append chunk_infos_nth chunk_info_def into_parity_def)
    ultimately show ?thesis using ps m False
      by (intro exI [of _ ?M] exI [of _ files] exI [of _ "?ds"] exI [of _ ps]) auto
  qed
qed

section \<open>Recovery\<close>

text \<open>A file is damaged when it cannot be read or its hash differs from the recorded one.\<close>

definition damaged :: "(bytes \<Rightarrow> string) \<Rightarrow> chunk_dir \<Rightarrow> bytes list \<Rightarrow> nat \<Rightarrow> bool" where
  "damaged sha dir shards i \<longleftrightarrow>
     (case dir (chunk_name i) of Inl _ \<Rightarrow> True | Inr x \<Rightarrow> sha x \<noteq> sha (shards ! i))"

definition damage_detectable :: "(bytes \<Rightarrow> string) \<Rightarrow> chunk_dir \<Rightarrow> bytes list \<Rightarrow> bool" where
  "damage_detectable sha dir shards \<longleftrightarrow>
     (\<forall>i<length shards. dir (chunk_name i) = Inr (shards ! i) \<or> damaged sha dir shards i)"

lemma collect_shards_map:
  "i + n \<le> length infos \<Longrightarrow> collect_shards sha dir infos c i n =
     Inr (map (\<lambda>j. usable_shard sha dir c j (infos ! j)) [i..<i + n])"
  by (induction n arbitrary: i) (simp_all add: upt_conv_Cons del: upt_Suc)

lemma count_present:
  assumes "finite D" and "D \<subseteq> {..<n}" and "card D \<le> m" and "k + m \<le> n"
    and "\<And>j. j < n \<Longrightarrow> ss ! j = None \<longleftrightarrow> j \<in> D" and "length ss = n"
  shows "k \<le> length (filter (\<lambda>s. s \<noteq> None) ss)"
proof -
  have "length (filter (\<lambda>s. s \<noteq> None) ss) = card {j. j < n \<and> ss ! j \<noteq> None}"
    using assms(6) by (simp add: length_filter_conv_card)
  also have "{j. j < n \<and> ss ! j \<noteq> None} = {..<n} - D"
  proof (intro set_eqI)
    show "x \<in> {j. j < n \<and> ss ! j \<noteq> None} \<longleftrightarrow> x \<in> {..<n} - D" for x
      using assms(5) [of x] by (cases "x < n") (simp_all del: not_None_eq)
  qed
  also have "card \<dots> = n - card D" using assms(1,2) by (simp add: card_Diff_subset)
  finally show ?thesis using assms(3,4) by linarith
qed

lemma load_recovers:
  assumes rs: "rs_law rs_encode rs_reconstruct (length ds) m" and c: "0 < c"
    and st: "stored_as sha c m pt ds ps manifest" and det: "damage_detectable sha dir (ds @ ps)"
    and dsc: "\<forall>d\<in>set ds. length d \<le> c" and par: "ps \<noteq> [] \<longrightarrow> rs_encode (length ds) m (map (resize c) ds) = Inr ps"
    and pm: "length ps \<le> m" "ps \<noteq> [] \<longrightarrow> length ds + m \<le> 255 \<and> length ps = m" and ne: "ds \<noteq> []"
    and few: "card {i. i < length (ds @ ps) \<and> damaged sha dir (ds @ ps) i} \<le> length ps"
    and i: "i < length ds"
  shows "load_chunk_data sha rs_reconstruct dir manifest i = Some (Inr (ds ! i))"
proof -
  let ?n = "length ds + length ps" and ?infos = "cm_chunks manifest"
  have info: "ci_size (?infos ! j) = length ((ds @ ps) ! j)" "ci_sha256 (?infos ! j) = sha ((ds @ ps) ! j)"
    if "j < ?n" for j using st that by (simp_all add: stored_as_def)
  have len: "length ?infos = ?n" using st by (simp add: stored_as_def)
  show ?thesis
  proof (cases "damaged sha dir (ds @ ps) i")
    case False
    with det [unfolded damage_detectable_def, rule_format, of i] i
    have "dir (chunk_name i) = Inr ((ds @ ps) ! i)" by simp
    with info [of i] i len show ?thesis
      by (simp add: load_chunk_data_def read_verified_def nth_append)
  next
    case True
    let ?D = "{i. i < ?n \<and> damaged sha dir (ds @ ps) i}"
    have "i \<in> ?D" using True i by simp
    then have "?D \<noteq> {}" by blast
    then have "card ?D \<noteq> 0" by simp
    with few have ps: "ps \<noteq> []" by auto
    with pm have m: "0 < m" "length ps = m" "length ds + m \<le> 255" by auto
    have man: "cm_chunk_count manifest = length ds" "cm_parity_shards manifest = Some m" "cm_shard_size manifest = Some c"
      using st ps by (simp_all add: stored_as_def)
    let ?ss = "map (\<lambda>j. usable_shard sha dir c j (?infos ! j)) [0..<?n]"
    let ?all = "map (resize c) ds @ ps"
    obtain plen: "\<forall>p\<in>set ps. length p = c"
      and rec: "\<And>ss. length ss = length ds + m \<Longrightarrow>
        \<forall>j<length ds + m. ss ! j = None \<or> ss ! j = Some (?all ! j) \<Longrightarrow>
        length ds \<le> length (filter (\<lambda>s. s \<noteq> None) ss) \<Longrightarrow> rs_reconstruct (length ds) m ss = Inr (map Some ?all)"
      using rs [unfolded rs_law_def, rule_format, of "map (resize c) ds" c] ne m c par ps by auto
    have sj: "?ss ! j = (if damaged sha dir (ds @ ps) j then None else Some (?all ! j))" if "j < ?n" for j
    proof (cases "damaged sha dir (ds @ ps) j")
      case True
      then show ?thesis using that info [OF that] by (auto simp: usable_shard_def damaged_def split: sum.splits)
    next
      case False
      with det that have d: "dir (chunk_name j) = Inr ((ds @ ps) ! j)" by (auto simp: damage_detectable_def)
      have "resize c ((ds @ ps) ! j) = ?all ! j"
        using that plen by (auto simp: nth_append resize_def)
      with d False that info [OF that] show ?thesis by (simp add: usable_shard_def)
    qed
    have present: "length ds \<le> length (filter (\<lambda>s. s \<noteq> None) ?ss)"
      by (rule count_present [of ?D ?n m]) (use few m sj in auto)
    have rb: "rs_reconstruct (length ds) m ?ss = Inr (map Some ?all)"
      by (rule rec) (use m sj present in auto)
    have col: "collect_shards sha dir ?infos c 0 (length ds + m) = Inr ?ss"
      using collect_shards_map [of 0 ?n ?infos sha dir c] len m by simp
    have "take (ci_size (?infos ! i)) (?all ! i) = ds ! i"
      using info [of i] i dsc by (simp add: nth_append take_resize)
    then have "try_reconstruct_data_chunk sha rs_reconstruct dir manifest i = Some (Inr (ds ! i))"
      using man ne m present rb col i len
      by (simp add: try_reconstruct_data_chunk_def Let_def not_less nth_append)
    moreover obtain e where "read_verified sha dir i (?infos ! i) = Inl e"
    proof (cases "read_verified sha dir i (?infos ! i)")
      case (Inr d)
      then show thesis
        using True info [of i] i by (auto simp: damaged_def read_verified_def nth_append split: sum.splits if_splits)
    qed
    ultimately show ?thesis using i len man m by (simp add: load_chunk_data_def)
  qed
qed


section \<open>Ranges over chunks\<close>

lemma chunks_of_drop: "0 < c \<Longrightarrow> drop a (chunks_of c xs) = chunks_of c (drop (a * c) xs)"
proof (induction a arbitrary: xs)
  case (Suc a)
  show ?case
  proof (cases "xs = []")
    case False
    with Suc show ?thesis by (simp add: chunks_of_step add.commute)
  qed simp
qed simp

lemma chunks_of_take: "0 < c \<Longrightarrow> take b (chunks_of c xs) = chunks_of c (take (b * c) xs)"
proof (induction b arbitrary: xs)
  case (Suc b)
  show ?case
  proof (cases "xs = []")
    case False
    with Suc have "take (Suc b) (chunks_of c xs) = take c xs # chunks_of c (take (b * c) (drop c xs))"
      by (simp add: chunks_of_step)
    moreover have "chunks_of c (take (Suc b * c) xs) = take c xs # chunks_of c (take (b * c) (drop c xs))"
      using False Suc.prems by (simp add: chunks_of_step drop_take)
    ultimately show ?thesis by simp
  qed simp
qed simp

lemma with_range_inv:
  assumes c: "0 < c" and len: "0 < len" and rg: "offset + len \<le> length pt" and u32: "length pt < 2 ^ 32 * c"
    and man: "cm_chunk_size manifest = c" "cm_total_size manifest = length pt"
    and ld: "\<And>i. i < length (chunks_of c pt) \<Longrightarrow> load_chunk_data sha rs dir manifest i = Some (Inr (chunks_of c pt ! i))"
  shows "\<exists>r. with_range dir manifest offset len = Some r
    \<and> chunk_inv sha rs (take (Suc ((offset + len - 1) div c)) (chunks_of c pt)) r
    \<and> chunk_rest (take (Suc ((offset + len - 1) div c)) (chunks_of c pt)) r = take len (drop offset pt)"
proof -
  let ?e = "(offset + len - 1) div c" and ?s = "offset div c"
  let ?ds = "take (Suc ?e) (chunks_of c pt)"
  have lt: "offset + len - 1 < length pt" "offset < length pt" using len rg by auto
  have el: "?e < length (chunks_of c pt)"
  proof -
    have "?e * c \<le> offset + len - 1" by simp
    also have "\<dots> < length pt" by (rule lt)
    finally have "chunks_of c (drop (?e * c) pt) \<noteq> []" using c by (simp add: chunks_of_step)
    then have "drop ?e (chunks_of c pt) \<noteq> []" using c by (simp add: chunks_of_drop)
    then show ?thesis by simp
  qed
  have "?e < 2 ^ 32" "?s < 2 ^ 32"
    using lt u32 c by (auto simp: less_mult_imp_div_less)
  then have cast: "as_u32 ?e = ?e" "as_u32 ?s = ?s" by (simp_all add: as_u32_def)
  have se: "?s \<le> ?e" using len by (intro div_le_mono) simp
  have wide: "offset + len \<le> Suc ?e * c"
  proof -
    have "offset + len - 1 < Suc ?e * c" using c by (simp add: dividend_less_div_times)
    then show ?thesis using len by linarith
  qed
  have cat: "concat (drop ?s ?ds) = drop (?s * c) (take (Suc ?e * c) pt)"
    using c by (simp add: chunks_of_take chunks_of_drop concat_chunks_of)
  have so: "?s * c + offset mod c = offset" by simp
  have "?s * c + (offset mod c + len) = offset + len" using so by linarith
  then have "?s * c + (offset mod c + len) \<le> min (length pt) (Suc ?e * c)" using wide rg by simp
  then have catlen: "offset mod c + len \<le> length (concat (drop ?s ?ds))"
    unfolding cat length_drop length_take by linarith
  let ?r = "\<lparr>cr_dir = dir, cr_manifest = manifest, cr_current_chunk = ?s, cr_end_chunk = ?e,
      cr_skip_bytes = offset mod c, cr_remaining = len, cr_buf = [], cr_buf_pos = 0, cr_state = NeedLoad\<rparr>"
  have wr: "with_range dir manifest offset len = Some ?r"
    using len c lt man cast by (auto simp: with_range_def)
  have "offset mod c \<le> length (chunks_of c pt ! ?s)"
  proof -
    have lt': "?s * c < length pt" using so lt(2) by linarith
    have "chunks_of c pt ! ?s = hd (drop ?s (chunks_of c pt))" using se el by (simp add: hd_drop_conv_nth)
    also have "\<dots> = take c (drop (?s * c) pt)"
      using c lt' chunks_of_step [of c "drop (?s * c) pt"] by (simp add: chunks_of_drop)
    finally have "length (chunks_of c pt ! ?s) = min (length pt - ?s * c) c" by simp
    moreover have "offset mod c \<le> length pt - ?s * c" "offset mod c \<le> c"
      using mod_less_divisor [OF c, of offset] lt(2) so by linarith+
    ultimately show ?thesis by simp
  qed
  moreover have "length ?ds = Suc ?e" using el by simp
  ultimately have "chunk_inv sha rs ?ds ?r" using catlen len el ld by (simp add: chunk_inv_def)
  moreover have "chunk_rest ?ds ?r = take len (drop offset pt)"
  proof -
    have "chunk_rest ?ds ?r = take len (drop (offset mod c) (drop (?s * c) (take (Suc ?e * c) pt)))"
      using cat by (simp add: chunk_rest_def)
    also have "drop (offset mod c) (drop (?s * c) (take (Suc ?e * c) pt)) = drop offset (take (Suc ?e * c) pt)"
      unfolding drop_drop using so by (simp only: add.commute)
    also have "take len \<dots> = take len (drop offset pt)"
      using wide by (simp add: drop_take min_def)
    finally show ?thesis .
  qed
  ultimately show ?thesis using wr by blast
qed


section \<open>Properties\<close>

lemma chunked_write_spec:
  assumes "rs_law rs_encode rs_reconstruct (length (chunks_of c (body_bytes es))) m" and "0 < c" and "body_inv es" and "0 < cap"
    and "0 < m \<longrightarrow> length (chunks_of c (body_bytes es)) + m \<le> 255"
  shows "\<exists>manifest files ds ps.
    put_object_chunked_payload body_read cap sha rs_encode c m es = Some (Inr (manifest, files, body_bytes es))
    \<and> stored_as sha c m (body_bytes es) ds ps manifest
    \<and> ds = (if body_bytes es = [] then [[]] else chunks_of c (body_bytes es))
    \<and> holds files (ds @ ps) \<and> (ps = [] \<longleftrightarrow> m = 0 \<or> body_bytes es = [])
    \<and> (ps \<noteq> [] \<longrightarrow> length ps = m \<and> rs_encode (length ds) m (map (resize c) ds) = Inr ps)"
proof -
  have "cw_inv c sha cw_new []" "length (cw_buf cw_new) < c"
    using assms(2) by (simp_all add: cw_inv_def cw_new_def chunk_infos_def holds_def)
  from body.put_chunks_all [OF assms(2,4,3) this] obtain w es' where
    w: "put_chunks body_read cap sha c es cw_new = Some (Inr w, es')" "cw_stored c sha w (body_bytes es)"
    by (auto simp: cw_new_def)
  from finish_chunks_spec [OF assms(1,2) w(2) assms(5)] obtain manifest files ds ps where
    f: "finish_chunks sha rs_encode c m w = Inr (manifest, files)"
    and st: "stored_as sha c m (body_bytes es) ds ps manifest" "ds = (if body_bytes es = [] then [[]] else chunks_of c (body_bytes es))"
      "holds files (ds @ ps)" "ps = [] \<longleftrightarrow> m = 0 \<or> body_bytes es = []"
      "ps \<noteq> [] \<longrightarrow> length ps = m \<and> rs_encode (length ds) m (map (resize c) ds) = Inr ps" by blast
  have "cw_hashed w = body_bytes es" using w(2) by (simp add: cw_stored_def)
  with w f have "put_object_chunked_payload body_read cap sha rs_encode c m es = Some (Inr (manifest, files, body_bytes es))"
    by (simp add: put_object_chunked_payload_def)
  with st show ?thesis by blast
qed

text \<open>
  A state of the directory after some of the written files were lost or altered, detectably
  and no more of them than there are parity shards.
\<close>

definition tolerable_loss :: "(bytes \<Rightarrow> string) \<Rightarrow> ChunkManifest \<Rightarrow> chunk_files \<Rightarrow> chunk_dir \<Rightarrow> bool" where
  "tolerable_loss sha manifest files dir \<longleftrightarrow>
     (let lost = (\<lambda>i. case dir (chunk_name i) of
                        Inl _ \<Rightarrow> True | Inr x \<Rightarrow> sha x \<noteq> ci_sha256 (cm_chunks manifest ! i))
      in (\<forall>i<length (cm_chunks manifest). dir (chunk_name i) = Inr (the (files (chunk_name i))) \<or> lost i)
         \<and> card {i. i < length (cm_chunks manifest) \<and> lost i}
             \<le> length (cm_chunks manifest) - cm_chunk_count manifest)"

text \<open>
  C14. Erasure-coded objects survive the loss of as many shards as there are parity shards:
  after \<open>put_object_chunked\<close> with chunk size \<open>c\<close> and \<open>m\<close> parity shards, whichever at most
  \<open>m\<close> of the written files are later unreadable or altered (so that their hash differs),
  every range read through \<open>VerifiedChunkReader\<close> returns exactly the uploaded bytes. This
  holds for every fragmentation of the upload and every buffer size of the reader.
\<close>

theorem chunked_range_read_recovers:
  assumes "rs_law rs_encode rs_reconstruct (length (chunks_of c (body_bytes es))) m"
    and "0 < c" and "body_inv es" and "0 < cap" and "0 < cap'"
    and "0 < m \<longrightarrow> length (chunks_of c (body_bytes es)) + m \<le> 255"
    and "length (body_bytes es) < 2 ^ 32 * c" and "offset + len \<le> length (body_bytes es)"
  shows "\<exists>manifest files.
    put_object_chunked_payload body_read cap sha rs_encode c m es = Some (Inr (manifest, files, body_bytes es))
    \<and> length (cm_chunks manifest) - cm_chunk_count manifest = (if body_bytes es = [] then 0 else m)
    \<and> (\<forall>dir. tolerable_loss sha manifest files dir \<longrightarrow>
         (\<exists>r r'. with_range dir manifest offset len = Some r
            \<and> read_to_end (chunk_read sha rs_reconstruct) cap' r []
                = Some (Inr (take len (drop offset (body_bytes es))), r')))"
proof -
  let ?pt = "body_bytes es"
  obtain manifest files ds ps where
    put: "put_object_chunked_payload body_read cap sha rs_encode c m es = Some (Inr (manifest, files, ?pt))"
    and st: "stored_as sha c m ?pt ds ps manifest" and ds: "ds = (if ?pt = [] then [[]] else chunks_of c ?pt)"
    and hold: "holds files (ds @ ps)" and ps: "ps = [] \<longleftrightarrow> m = 0 \<or> ?pt = []"
      "ps \<noteq> [] \<longrightarrow> length ps = m \<and> rs_encode (length ds) m (map (resize c) ds) = Inr ps"
    using chunked_write_spec [OF assms(1-4,6), of sha] by blast
  have len: "length (cm_chunks manifest) = length (ds @ ps)" "cm_chunk_count manifest = length ds"
    "cm_chunk_size manifest = c" "cm_total_size manifest = length ?pt"
    and sh: "i < length (ds @ ps) \<Longrightarrow> ci_sha256 (cm_chunks manifest ! i) = sha ((ds @ ps) ! i)" for i
    using st by (simp_all add: stored_as_def)
  have read: "\<exists>r r'. with_range dir manifest offset len = Some r
       \<and> read_to_end (chunk_read sha rs_reconstruct) cap' r [] = Some (Inr (take len (drop offset ?pt)), r')"
    if det: "damage_detectable sha dir (ds @ ps)"
      and few: "card {i. i < length (ds @ ps) \<and> damaged sha dir (ds @ ps) i} \<le> length ps" for dir
  proof (cases "len = 0 \<or> ?pt = []")
    case True
    then obtain r where r: "with_range dir manifest offset len = Some r" "cr_state r = Done"
      using len by (auto simp: with_range_def)
    then have "chunk_poll sha rs_reconstruct r cap' = Some (Ready (Inr []), r)"
      by (simp add: chunk_poll.simps [of sha rs_reconstruct r cap'])
    then have "read_to_end (chunk_read sha rs_reconstruct) cap' r [] = Some (Inr [], r)"
      by (simp add: read_to_end.simps [of _ cap' r] chunk_read_def poll_or_hang_def)
    with r True show ?thesis by auto
  next
    case False
    then have ds': "ds = chunks_of c ?pt" using ds by simp
    have lens: "\<forall>d\<in>set ds. length d \<le> c" "ds \<noteq> []"
      using chunks_of_nonempty [OF assms(2)] False assms(2) by (auto simp: ds' chunks_of_step)
    have "load_chunk_data sha rs_reconstruct dir manifest i = Some (Inr (ds ! i))" if "i < length ds" for i
      using load_recovers [OF assms(1) [folded ds'] assms(2) st det lens(1) _ _ _ lens(2) few that] ps assms(6) ds'
      by fastforce
    with with_range_inv [OF assms(2) _ assms(8,7) len(3,4), of sha rs_reconstruct dir] False obtain r where
      r: "with_range dir manifest offset len = Some r"
      "chunk_inv sha rs_reconstruct (take (Suc ((offset + len - 1) div c)) ds) r"
      "chunk_rest (take (Suc ((offset + len - 1) div c)) ds) r = take len (drop offset ?pt)"
      unfolding ds' by auto
    from stream_reader.read_to_end_all [OF chunk_stream r(2) assms(5), of "[]"] r show ?thesis by auto
  qed
  have files: "the (files (chunk_name i)) = (ds @ ps) ! i" if "i < length (ds @ ps)" for i
    using hold that by (simp add: holds_def)
  have dam: "(case dir (chunk_name i) of Inl _ \<Rightarrow> True | Inr x \<Rightarrow> sha x \<noteq> ci_sha256 (cm_chunks manifest ! i))
      \<longleftrightarrow> damaged sha dir (ds @ ps) i" if "i < length (ds @ ps)" for dir i
    using sh [OF that] by (simp add: damaged_def split: sum.splits)
  have set: "{i. i < length (ds @ ps) \<and> (case dir (chunk_name i) of Inl _ \<Rightarrow> True | Inr x \<Rightarrow> sha x \<noteq> ci_sha256 (cm_chunks manifest ! i))}
      = {i. i < length (ds @ ps) \<and> damaged sha dir (ds @ ps) i}" for dir
    using dam [of _ dir] by blast
  show ?thesis
  proof (intro exI [of _ manifest] exI [of _ files] conjI allI impI)
    fix dir assume "tolerable_loss sha manifest files dir"
    then have "damage_detectable sha dir (ds @ ps)"
      "card {i. i < length (ds @ ps) \<and> damaged sha dir (ds @ ps) i} \<le> length ps"
      using files dam [of _ dir] set [of dir] len(1,2)
      by (auto simp: tolerable_loss_def damage_detectable_def Let_def)
    then show "\<exists>r r'. with_range dir manifest offset len = Some r
       \<and> read_to_end (chunk_read sha rs_reconstruct) cap' r [] = Some (Inr (take len (drop offset ?pt)), r')"
      by (rule read)
  qed (use put len ps in auto)
qed

text \<open>For the witness: exclusive or as the code with two data shards and one parity shard.\<close>

definition xor_bytes :: "bytes \<Rightarrow> bytes \<Rightarrow> bytes" where
  "xor_bytes a b = map2 (\<lambda>x y. xor x y) a b"

definition xor_encode :: rs_encoder where
  "xor_encode k m ds = Inr [xor_bytes (ds ! 0) (ds ! 1)]"

definition xor_reconstruct :: rs_decoder where
  "xor_reconstruct k m ss =
     (case ss of
        [None, Some b, Some p] \<Rightarrow> Inr [Some (xor_bytes b p), Some b, Some p]
      | [Some a, None, Some p] \<Rightarrow> Inr [Some a, Some (xor_bytes a p), Some p]
      | [Some a, Some b, None] \<Rightarrow> Inr [Some a, Some b, Some (xor_bytes a b)]
      | _ \<Rightarrow> Inr ss)"

lemma xor_bytes_cancel:
  "length a = length b \<Longrightarrow> xor_bytes b (xor_bytes a b) = a"
  "length a = length b \<Longrightarrow> xor_bytes a (xor_bytes a b) = b"
  by (induction a b rule: list_induct2) (simp_all add: xor_bytes_def ac_simps flip: xor.assoc)

lemma xor_law: "rs_law xor_encode xor_reconstruct 2 1"
  unfolding rs_law_def
proof (intro allI impI, elim conjE)
  fix ds :: "bytes list" and l
  assume "length ds = 2" and l: "\<forall>d\<in>set ds. length d = l"
  then obtain a b where ds: "ds = [a, b]" by (auto simp: numeral_2_eq_2 length_Suc_conv)
  with l have ab: "length a = length b" "length a = l" by auto
  let ?p = "xor_bytes a b"
  have "xor_reconstruct 2 1 ss = Inr (map Some (ds @ [?p]))"
    if "length ss = 2 + 1" "\<forall>i<2 + 1. ss ! i = None \<or> ss ! i = Some ((ds @ [?p]) ! i)"
      "2 \<le> length (filter (\<lambda>s. s \<noteq> None) ss)" for ss
  proof -
    from that(1) obtain x y z where ss: "ss = [x, y, z]" by (auto simp: numeral_3_eq_3 length_Suc_conv)
    have "x = None \<or> x = Some a" "y = None \<or> y = Some b" "z = None \<or> z = Some ?p"
      using that(2) [rule_format, of 0] that(2) [rule_format, of 1] that(2) [rule_format, of 2] by (simp_all add: ss ds)
    with that(3) show ?thesis
      by (auto simp: ss ds xor_reconstruct_def xor_bytes_cancel [OF ab(1)] split: option.splits)
  qed
  then show "\<exists>ps. xor_encode 2 1 ds = Inr ps \<and> length ps = 1 \<and> (\<forall>p\<in>set ps. length p = l)
      \<and> (\<forall>ss. length ss = 2 + 1 \<and> (\<forall>i<2 + 1. ss ! i = None \<or> ss ! i = Some ((ds @ ps) ! i))
               \<and> 2 \<le> length (filter (\<lambda>s. s \<noteq> None) ss)
           \<longrightarrow> xor_reconstruct 2 1 ss = Inr (map Some (ds @ ps)))"
    using ab by (intro exI [of _ "[?p]"]) (simp add: xor_encode_def ds xor_bytes_def)
qed

theorem chunked_range_read_recovers_witness:
  "\<exists>manifest files.
    put_object_chunked_payload body_read 3 (map (\<lambda>b. char_of (unat b))) xor_encode 2 1 [Some [1, 2, 3], None, Some [4]]
      = Some (Inr (manifest, files, [1, 2, 3, 4]))
    \<and> length (cm_chunks manifest) - cm_chunk_count manifest = 1
    \<and> (\<forall>dir. tolerable_loss (map (\<lambda>b. char_of (unat b))) manifest files dir \<longrightarrow>
         (\<exists>r r'. with_range dir manifest 1 2 = Some r
            \<and> read_to_end (chunk_read (map (\<lambda>b. char_of (unat b))) xor_reconstruct) 7 r [] = Some (Inr [2, 3], r')))"
proof -
  have ch: "chunks_of 2 (body_bytes [Some [1, 2, 3], None, Some [4]]) = [[1, 2], [3, 4]]"
    by (simp add: chunks_of.simps)
  show ?thesis
    using chunked_range_read_recovers [of xor_encode xor_reconstruct 2 "[Some [1, 2, 3], None, Some [4]]" 1 3 7 1 2
        "map (\<lambda>b. char_of (unat b))", unfolded ch] xor_law [unfolded numeral_2_eq_2]
    by (simp add: body_inv_def)
qed

end
