(* ===== verification/Keyring.thy ===== *)
theory Keyring
  imports Frames
begin

text \<open>
  Master keys: the keyring of \<open>keys.rs\<close> (loading, rotation, listing, wrapping of data
  keys) and the local key management backend of \<open>kms.rs\<close>.

  Parameters: base64 (\<open>b64_encode\<close>, \<open>b64_decode\<close>), SHA-256 and hexadecimal digits
  (\<open>sha\<close>, \<open>hex\<close>), serde for the keyring file (\<open>ser\<close>, \<open>de\<close>), AES-GCM (\<open>enc\<close>, \<open>dec\<close>). Random
  bytes and the current time are arguments. The keyring file is given by what reading it
  returns; \<open>fault\<close> is the first failure of the write, permission and rename calls, if any.
\<close>

type_synonym b64_codec = "(bytes \<Rightarrow> string) \<times> (string \<Rightarrow> bytes option)"

definition b64_law :: "b64_codec \<Rightarrow> bool" where
  "b64_law b64 \<longleftrightarrow> (\<forall>x. snd b64 (fst b64 x) = Some x)"

record KeyEntryJson =
  ke_id :: string
  ke_key_b64 :: string
  ke_created_at :: string
  ke_active :: bool

record KeyringFile =
  kf_keys :: "KeyEntryJson list"

record Keyring =
  kr_keys :: "string \<rightharpoonup> bytes"
  kr_active_id :: string

record KeyMetadata =
  km_id :: string
  km_created_at :: string
  km_active :: bool

record RotateResult =
  rr_new_active_id :: string
  rr_previous_active_id :: "string option"
  rr_total_keys :: nat

definition key_id_from_bytes :: "(bytes \<Rightarrow> bytes) \<Rightarrow> (bytes \<Rightarrow> string) \<Rightarrow> bytes \<Rightarrow> string" where
  "key_id_from_bytes sha hex key = hex (take 8 (sha key))"

definition decode_32 :: "b64_codec \<Rightarrow> string \<Rightarrow> string + bytes" where
  "decode_32 b64 s =
     (case snd b64 s of
        None \<Rightarrow> Inl ''bad base64''
      | Some raw \<Rightarrow> if length raw \<noteq> 32 then Inl (''expected 32 bytes, got '' @ show_nat (length raw)) else Inr raw)"

section \<open>Loading\<close>

fun merge_entries :: "b64_codec \<Rightarrow> KeyEntryJson list \<Rightarrow> (string \<rightharpoonup> bytes) \<Rightarrow> string \<rightharpoonup> bytes" where
  "merge_entries b64 [] ks = ks"
| "merge_entries b64 (e # es) ks =
     (case decode_32 b64 (ke_key_b64 e) of
        Inr kb \<Rightarrow> merge_entries b64 es (if ks (ke_id e) = None then ks(ke_id e \<mapsto> kb) else ks)
      | Inl _ \<Rightarrow> merge_entries b64 es ks)"

fun load_entries ::
  "b64_codec \<Rightarrow> KeyEntryJson list \<Rightarrow> (string \<rightharpoonup> bytes) \<Rightarrow> string option \<Rightarrow> (string \<rightharpoonup> bytes) \<times> string option" where
  "load_entries b64 [] ks found_active = (ks, found_active)"
| "load_entries b64 (e # es) ks found_active =
     (case decode_32 b64 (ke_key_b64 e) of
        Inr kb \<Rightarrow> load_entries b64 es (ks(ke_id e \<mapsto> kb)) (if ke_active e then Some (ke_id e) else found_active)
      | Inl _ \<Rightarrow> load_entries b64 es ks found_active)"

definition load_master ::
  "b64_codec \<Rightarrow> (bytes \<Rightarrow> bytes) \<Rightarrow> (bytes \<Rightarrow> string) \<Rightarrow> (string \<Rightarrow> string + KeyringFile) \<Rightarrow> io_error + string \<Rightarrow> string
     \<Rightarrow> string + Keyring" where
  "load_master b64 sha hex de file mk =
     (case snd b64 mk of
        None \<Rightarrow> Inl ''MAXIO_MASTER_KEY must be base64-encoded 32 bytes''
      | Some raw \<Rightarrow>
          if length raw \<noteq> 32 then Inl ''MAXIO_MASTER_KEY must be exactly 32 bytes when decoded''
          else (let id = key_id_from_bytes sha hex raw; ks = [id \<mapsto> raw];
                    ks' = (case file of
                             Inr data \<Rightarrow> (case de data of Inr kr \<Rightarrow> merge_entries b64 (kf_keys kr) ks | Inl _ \<Rightarrow> ks)
                           | Inl _ \<Rightarrow> ks)
                in Inr \<lparr>kr_keys = ks', kr_active_id = id\<rparr>))"

definition bootstrap_file ::
  "b64_codec \<Rightarrow> (bytes \<Rightarrow> bytes) \<Rightarrow> (bytes \<Rightarrow> string) \<Rightarrow> bytes \<Rightarrow> string \<Rightarrow> KeyringFile" where
  "bootstrap_file b64 sha hex new_key now =
     \<lparr>kf_keys = [\<lparr>ke_id = key_id_from_bytes sha hex new_key, ke_key_b64 = fst b64 new_key,
                  ke_created_at = now, ke_active = True\<rparr>]\<rparr>"

text \<open>\<open>Keyring::load\<close>; the second component is the keyring file afterwards.\<close>

definition load ::
  "b64_codec \<Rightarrow> (bytes \<Rightarrow> bytes) \<Rightarrow> (bytes \<Rightarrow> string) \<Rightarrow> (KeyringFile \<Rightarrow> string) \<Rightarrow> (string \<Rightarrow> string + KeyringFile)
     \<Rightarrow> bytes \<Rightarrow> string \<Rightarrow> io_error option \<Rightarrow> io_error + string \<Rightarrow> string option
     \<Rightarrow> (string + Keyring) \<times> (io_error + string)" where
  "load b64 sha hex ser de new_key now fault file master_key_b64 =
     (case master_key_b64 of
        Some mk \<Rightarrow> (load_master b64 sha hex de file mk, file)
      | None \<Rightarrow>
          (let step = (case file of
                 Inr data \<Rightarrow> (case de data of
                                Inl e \<Rightarrow> (Inl (''Failed to parse keyring file: '' @ e), file)
                              | Inr kr \<Rightarrow> (Inr kr, file))
               | Inl _ \<Rightarrow>
                   (let kr = bootstrap_file b64 sha hex new_key now
                    in case fault of
                         Some e \<Rightarrow> (Inl (io_msg e), file)
                       | None \<Rightarrow> (Inr kr, Inr (ser kr))))
           in case step of
                (Inl e, f) \<Rightarrow> (Inl e, f)
              | (Inr kr, f) \<Rightarrow>
                  (let (ks, found_active) = load_entries b64 (kf_keys kr) Map.empty None
                   in case found_active of
                        None \<Rightarrow> (Inl ''Keyring file has no active key'', f)
                      | Some a \<Rightarrow> (Inr \<lparr>kr_keys = ks, kr_active_id = a\<rparr>, f))))"

definition is_usable :: "Keyring \<Rightarrow> bool" where
  "is_usable kr \<longleftrightarrow> dom (kr_keys kr) \<noteq> {}"

section \<open>Wrapping data keys\<close>

definition get_key :: "Keyring \<Rightarrow> string \<Rightarrow> string + bytes" where
  "get_key kr key_id =
     (case kr_keys kr key_id of
        Some k \<Rightarrow> Inr k
      | None \<Rightarrow> Inl (''Key '' @ [CHR 0x27] @ key_id @ [CHR 0x27] @ '' not found in keyring; object may be unrecoverable ''
                    @ em_dash @ '' check your MAXIO_MASTER_KEY or keyring file''))"

definition wrap_dek :: "aead \<Rightarrow> bytes \<Rightarrow> Keyring \<Rightarrow> string \<Rightarrow> bytes \<Rightarrow> string + bytes \<times> bytes" where
  "wrap_dek enc nonce_bytes kr key_id dek =
     bind_res (get_key kr key_id) (\<lambda>master.
       case enc master nonce_bytes (as_bytes key_id) dek of
         None \<Rightarrow> Inl ''DEK wrapping failed''
       | Some wrapped \<Rightarrow> Inr (wrapped, nonce_bytes))"

definition unwrap_dek :: "aead \<Rightarrow> Keyring \<Rightarrow> string \<Rightarrow> bytes \<Rightarrow> bytes \<Rightarrow> string + bytes" where
  "unwrap_dek dec kr key_id wrapped nonce =
     bind_res (get_key kr key_id) (\<lambda>master.
       case (case dec master nonce (as_bytes key_id) wrapped of
               Some p \<Rightarrow> Some p
             | None \<Rightarrow> dec master nonce [] wrapped) of
         None \<Rightarrow> Inl ''DEK unwrapping failed: authentication error''
       | Some plaintext \<Rightarrow>
           if length plaintext \<noteq> 32
           then Inl (''Unwrapped DEK has wrong length: '' @ show_nat (length plaintext))
           else Inr plaintext)"

section \<open>Listing and rotation\<close>

definition list_metadata ::
  "(string \<Rightarrow> string + KeyringFile) \<Rightarrow> io_error + string \<Rightarrow> string + KeyMetadata list" where
  "list_metadata de file =
     (case file of
        Inl e \<Rightarrow> if io_kind e = NotFoundKind then Inr [] else Inl (io_msg e)
      | Inr data \<Rightarrow>
          (case de data of
             Inl e \<Rightarrow> Inl (''Failed to parse keyring file: '' @ e)
           | Inr kr \<Rightarrow> Inr (map (\<lambda>e. \<lparr>km_id = ke_id e, km_created_at = ke_created_at e, km_active = ke_active e\<rparr>)
                              (kf_keys kr))))"

definition rotate ::
  "b64_codec \<Rightarrow> (bytes \<Rightarrow> bytes) \<Rightarrow> (bytes \<Rightarrow> string) \<Rightarrow> (KeyringFile \<Rightarrow> string) \<Rightarrow> (string \<Rightarrow> string + KeyringFile)
     \<Rightarrow> bytes \<Rightarrow> string \<Rightarrow> io_error option \<Rightarrow> io_error + string
     \<Rightarrow> (string + RotateResult) \<times> (io_error + string)" where
  "rotate b64 sha hex ser de new_key now fault file =
     (case (case file of
              Inr data \<Rightarrow> (case de data of
                             Inl e \<Rightarrow> Inl (''Failed to parse keyring file: '' @ e)
                           | Inr kr \<Rightarrow> Inr kr)
            | Inl _ \<Rightarrow> Inr \<lparr>kf_keys = []\<rparr>) of
        Inl e \<Rightarrow> (Inl e, file)
      | Inr kr \<Rightarrow>
          (let previous_active = map_option ke_id (List.find ke_active (kf_keys kr));
               demoted = map (\<lambda>e. e\<lparr>ke_active := False\<rparr>) (kf_keys kr);
               new_id = key_id_from_bytes sha hex new_key
           in if new_id \<in> ke_id ` set demoted
              then (Inl (''keyring rotate: generated key id '' @ new_id @ '' already present (extremely unlikely)''), file)
              else (let kr' = \<lparr>kf_keys = demoted @ [\<lparr>ke_id = new_id, ke_key_b64 = fst b64 new_key,
                                                    ke_created_at = now, ke_active = True\<rparr>]\<rparr>
                    in case fault of
                         Some e \<Rightarrow> (Inl (io_msg e), file)
                       | None \<Rightarrow> (Inr \<lparr>rr_new_active_id = new_id, rr_previous_active_id = previous_active,
                                      rr_total_keys = length (kf_keys kr')\<rparr>, Inr (ser kr')))))"

section \<open>The local key management backend\<close>

datatype KmsError = NotConfigured | InvalidMasterKey string | OperationFailed string

record GeneratedDataKey =
  gd_plaintext :: bytes
  gd_ciphertext :: bytes
  gd_wrap_nonce :: bytes
  gd_kms_key_id :: string

record LocalKmsBackend =
  lk_master_key :: bytes
  lk_default_key_id :: string

definition DEFAULT_LOCAL_KMS_KEY_ID :: string where
  "DEFAULT_LOCAL_KMS_KEY_ID = ''maxio-local-kms''"

definition from_master_key_b64 :: "b64_codec \<Rightarrow> string \<Rightarrow> KmsError + LocalKmsBackend" where
  "from_master_key_b64 b64 b64_key =
     (case snd b64 (trim b64_key) of
        None \<Rightarrow> Inl (InvalidMasterKey ''must be base64'')
      | Some raw \<Rightarrow>
          if length raw \<noteq> 32 then Inl (InvalidMasterKey ''decoded key must be exactly 32 bytes'')
          else Inr \<lparr>lk_master_key = raw, lk_default_key_id = DEFAULT_LOCAL_KMS_KEY_ID\<rparr>)"

definition generate_data_key ::
  "aead \<Rightarrow> bytes \<Rightarrow> bytes \<Rightarrow> LocalKmsBackend \<Rightarrow> string option \<Rightarrow> KmsError + GeneratedDataKey" where
  "generate_data_key enc plaintext wrap_nonce kms key_id =
     (let kms_key_id = (case key_id of Some s \<Rightarrow> if s \<noteq> [] then s else lk_default_key_id kms
                        | None \<Rightarrow> lk_default_key_id kms)
      in case enc (lk_master_key kms) wrap_nonce (as_bytes kms_key_id) plaintext of
           None \<Rightarrow> Inl (OperationFailed ''DEK wrap failed'')
         | Some c \<Rightarrow> Inr \<lparr>gd_plaintext = plaintext, gd_ciphertext = c, gd_wrap_nonce = wrap_nonce,
                          gd_kms_key_id = kms_key_id\<rparr>)"

definition decrypt_data_key ::
  "aead \<Rightarrow> LocalKmsBackend \<Rightarrow> string \<Rightarrow> bytes \<Rightarrow> bytes \<Rightarrow> KmsError + bytes" where
  "decrypt_data_key dec kms kms_key_id ciphertext nonce =
     (case dec (lk_master_key kms) nonce (as_bytes kms_key_id) ciphertext of
        None \<Rightarrow> Inl (OperationFailed ''DEK unwrap failed'')
      | Some p \<Rightarrow> if length p \<noteq> 32
                  then Inl (OperationFailed (''unwrapped DEK length '' @ show_nat (length p) @ '' != 32''))
                  else Inr p)"

definition load_from_env :: "b64_codec \<Rightarrow> string option \<Rightarrow> KmsError + LocalKmsBackend option" where
  "load_from_env b64 var =
     (case var of
        Some v \<Rightarrow> if trim v \<noteq> [] then bind_res (from_master_key_b64 b64 v) (\<lambda>k. Inr (Some k)) else Inr None
      | None \<Rightarrow> Inr None)"

section \<open>Lemmas\<close>

lemma aead_seal:
  assumes "aead_roundtrip enc dec" and "length k = 32" and "length n = 12" and "length m \<le> 2 ^ 36"
  obtains c where "enc k n a m = Some c" and "dec k n a c = Some m"
  using assms unfolding aead_roundtrip_def by blast

lemma wrap_unwrap:
  assumes "aead_roundtrip enc dec" and "kr_keys kr key_id = Some k" and "length k = 32"
    and "length nonce = 12" and "length dek = 32"
  shows "\<exists>w. wrap_dek enc nonce kr key_id dek = Inr (w, nonce)
     \<and> (\<forall>kr'. kr_keys kr' key_id = Some k \<longrightarrow> unwrap_dek dec kr' key_id w nonce = Inr dek)"
proof -
  obtain c where "enc k nonce (as_bytes key_id) dek = Some c" "dec k nonce (as_bytes key_id) c = Some dek"
    using aead_seal [OF assms(1,3,4), of dek] assms(5) by auto
  with assms show ?thesis by (simp add: wrap_dek_def unwrap_dek_def get_key_def)
qed

lemma decode_32_encode: "b64_law b64 \<Longrightarrow> length k = 32 \<Longrightarrow> decode_32 b64 (fst b64 k) = Inr k"
  by (simp add: decode_32_def b64_law_def)

lemma merge_entries_keep: "ks i = Some v \<Longrightarrow> merge_entries b64 es ks i = Some v"
proof (induction es arbitrary: ks)
  case (Cons e es)
  have "(if ks (ke_id e) = None then ks(ke_id e \<mapsto> kb) else ks) i = Some v" for kb
    using Cons.prems by auto
  then have "merge_entries b64 es (if ks (ke_id e) = None then ks(ke_id e \<mapsto> kb) else ks) i = Some v" for kb
    by (rule Cons.IH)
  moreover have "merge_entries b64 es ks i = Some v" using Cons.prems by (rule Cons.IH)
  ultimately show ?case by (simp only: merge_entries.simps split: sum.split) blast
qed simp

lemma load_entries_append:
  "load_entries b64 (es @ fs) ks a =
     (let (ks', a') = load_entries b64 es ks a in load_entries b64 fs ks' a')"
  by (induction es arbitrary: ks a) (auto split: sum.splits)

lemma load_entries_keys_demoted:
  "load_entries b64 (map (\<lambda>e. e\<lparr>ke_active := False\<rparr>) es) ks a = (fst (load_entries b64 es ks b), a)"
  by (induction es arbitrary: ks b) (auto split: sum.splits)

lemma load_entries_dom:
  "fst (load_entries b64 es ks a) k \<noteq> ks k \<Longrightarrow> k \<in> ke_id ` set es"
proof (induction es arbitrary: ks a)
  case (Cons e es)
  show ?case
  proof (cases "decode_32 b64 (ke_key_b64 e)")
    case (Inl m)
    with Cons show ?thesis by auto
  next
    case (Inr kb)
    define ks' where "ks' = ks(ke_id e \<mapsto> kb)"
    have "k = ke_id e \<or> ks' k = ks k" by (simp add: ks'_def)
    moreover have "fst (load_entries b64 es ks' (if ke_active e then Some (ke_id e) else a)) k \<noteq> ks k"
      using Cons.prems Inr by (simp add: ks'_def)
    ultimately show ?thesis
      using Cons.IH [of ks' "if ke_active e then Some (ke_id e) else a"] by auto
  qed
qed simp

lemma load_entries_length:
  "fst (load_entries b64 es ks a) k = Some kb \<Longrightarrow> (\<And>x. ks k = Some x \<Longrightarrow> length x = 32) \<Longrightarrow> length kb = 32"
proof (induction es arbitrary: ks a)
  case (Cons e es)
  show ?case
  proof (cases "decode_32 b64 (ke_key_b64 e)")
    case (Inl m)
    with Cons.prems Cons.IH [of ks a] show ?thesis by simp
  next
    case (Inr x)
    then have "length x = 32" by (auto simp: decode_32_def split: option.splits if_splits)
    define ks' where "ks' = ks(ke_id e \<mapsto> x)"
    have "fst (load_entries b64 es ks' (if ke_active e then Some (ke_id e) else a)) k = Some kb"
      using Cons.prems(1) Inr by (simp add: ks'_def)
    moreover have "length y = 32" if "ks' k = Some y" for y
      using that \<open>length x = 32\<close> Cons.prems(2) by (auto simp: ks'_def split: if_splits)
    ultimately show ?thesis by (rule Cons.IH)
  qed
qed simp


section \<open>Properties\<close>

text \<open>
  C15. Rotation keeps every key: after a rotation that succeeds, reloading the file gives a
  keyring whose active key is the new one and in which every data key that was wrapped
  under the previous keyring still unwraps to the same bytes. Exactly one entry of the
  file is active, and no entry was dropped.
\<close>

theorem rotate_keeps_keys:
  assumes "aead_roundtrip enc dec" and "b64_law b64" and "de (ser kf') = Inr kf'"
    and "length new_key = 32" and "de data = Inr kf"
    and "load b64 sha hex ser de x now fault (Inr data) None = (Inr kr, f0)"
    and "key_id_from_bytes sha hex new_key \<notin> ke_id ` set (kf_keys kf)"
    and "kf' = \<lparr>kf_keys = map (\<lambda>e. e\<lparr>ke_active := False\<rparr>) (kf_keys kf)
           @ [\<lparr>ke_id = key_id_from_bytes sha hex new_key, ke_key_b64 = fst b64 new_key, ke_created_at = now, ke_active = True\<rparr>]\<rparr>"
  shows "\<exists>res kr'. rotate b64 sha hex ser de new_key now None (Inr data) = (Inr res, Inr (ser kf'))
    \<and> rr_total_keys res = Suc (length (kf_keys kf)) \<and> length (filter ke_active (kf_keys kf')) = 1
    \<and> load b64 sha hex ser de x now fault (Inr (ser kf')) None = (Inr kr', Inr (ser kf'))
    \<and> kr_active_id kr' = rr_new_active_id res
    \<and> (\<forall>key_id dek nonce k. kr_keys kr key_id = Some k \<and> length dek = 32 \<and> length nonce = 12 \<longrightarrow>
         (\<exists>w. wrap_dek enc nonce kr key_id dek = Inr (w, nonce) \<and> unwrap_dek dec kr' key_id w nonce = Inr dek))"
proof -
  let ?new = "key_id_from_bytes sha hex new_key"
  let ?res = "\<lparr>rr_new_active_id = ?new, rr_previous_active_id = map_option ke_id (List.find ke_active (kf_keys kf)),
      rr_total_keys = Suc (length (kf_keys kf))\<rparr>"
  obtain ks a where ld: "load_entries b64 (kf_keys kf) Map.empty None = (ks, Some a)" and kr: "kr_keys kr = ks"
    using assms(5,6) by (auto simp: load_def Let_def split: option.splits prod.splits)
  note dec32 = decode_32_encode [OF assms(2,4)]
  have ld': "load_entries b64 (kf_keys kf') Map.empty None = (ks(?new \<mapsto> new_key), Some ?new)"
    using ld dec32 load_entries_keys_demoted [of b64 "kf_keys kf" Map.empty None None]
    by (simp add: assms(8) load_entries_append)
  let ?kr' = "\<lparr>kr_keys = ks(?new \<mapsto> new_key), kr_active_id = ?new\<rparr>"
  have "load b64 sha hex ser de x now fault (Inr (ser kf')) None = (Inr ?kr', Inr (ser kf'))"
    by (simp add: load_def assms(3) ld')
  moreover have "rotate b64 sha hex ser de new_key now None (Inr data) = (Inr ?res, Inr (ser kf'))"
    using assms(5,7) by (simp add: rotate_def assms(8) image_image Let_def)
  moreover have "length (filter ke_active (kf_keys kf')) = 1"
    by (simp add: assms(8) filter_map comp_def)
  moreover have "\<exists>w. wrap_dek enc nonce kr key_id dek = Inr (w, nonce) \<and> unwrap_dek dec ?kr' key_id w nonce = Inr dek"
    if "kr_keys kr key_id = Some k" "length dek = 32" "length nonce = 12" for key_id dek nonce k
  proof -
    have k32: "length k = 32" using that(1) kr load_entries_length [of b64 "kf_keys kf" Map.empty None key_id k] ld by simp
    have "key_id \<in> ke_id ` set (kf_keys kf)"
      using that(1) kr ld load_entries_dom [of b64 "kf_keys kf" Map.empty None key_id] by simp
    with assms(7) have "key_id \<noteq> ?new" by metis
    with that(1) kr have "kr_keys ?kr' key_id = Some k" by simp
    with wrap_unwrap [OF assms(1) that(1) k32 that(3,2)] show ?thesis by blast
  qed
  ultimately show ?thesis by (intro exI [of _ ?res] exI [of _ ?kr']) simp
qed

text \<open>For the witness: base64 as the identity on printable bytes, and a one-entry file.\<close>

definition toy_b64 :: b64_codec where
  "toy_b64 = (\<lambda>x. map (\<lambda>b. char_of (unat b)) x, \<lambda>s. Some (as_bytes s))"

lemma toy_b64_law: "b64_law toy_b64"
proof -
  have "of_char (char_of (unat b) :: char) = b" for b :: u8
  proof -
    have "of_char (char_of (unat b) :: char) = (of_nat (unat b mod 256) :: u8)"
      by (metis of_char_of of_nat_of_char)
    also have "unat b mod 256 = unat b"
    proof -
      have "unat b < 2 ^ LENGTH(8)" by (rule unsigned_less)
      then show ?thesis by simp
    qed
    finally show ?thesis by simp
  qed
  then show ?thesis by (simp add: b64_law_def toy_b64_def as_bytes_def comp_def)
qed

definition toy_entry :: "bytes \<Rightarrow> bool \<Rightarrow> KeyEntryJson" where
  "toy_entry k act = \<lparr>ke_id = fst toy_b64 (take 8 k), ke_key_b64 = fst toy_b64 k, ke_created_at = ''t'', ke_active = act\<rparr>"

theorem rotate_keeps_keys_witness:
  "\<exists>res kr'. rotate toy_b64 (\<lambda>k. k) (fst toy_b64) (\<lambda>_. ''new'')
        (\<lambda>s. Inr \<lparr>kf_keys = (if s = ''old'' then [toy_entry (replicate 32 1) True]
                            else [toy_entry (replicate 32 1) False, toy_entry (replicate 32 2) True])\<rparr>)
        (replicate 32 2) ''t'' None (Inr ''old'') = (Inr res, Inr ''new'')
     \<and> rr_total_keys res = 2
     \<and> kr_active_id kr' = rr_new_active_id res
     \<and> (\<exists>w. wrap_dek toy_enc (replicate 12 0) \<lparr>kr_keys = [ke_id (toy_entry (replicate 32 1) True) \<mapsto> replicate 32 1],
               kr_active_id = ke_id (toy_entry (replicate 32 1) True)\<rparr> (ke_id (toy_entry (replicate 32 1) True)) (replicate 32 9)
             = Inr (w, replicate 12 0)
          \<and> unwrap_dek toy_dec kr' (ke_id (toy_entry (replicate 32 1) True)) w (replicate 12 0) = Inr (replicate 32 9))"
proof -
  let ?old = "\<lparr>kf_keys = [toy_entry (replicate 32 1) True]\<rparr>"
  let ?new = "\<lparr>kf_keys = [toy_entry (replicate 32 1) False, toy_entry (replicate 32 2) True]\<rparr>"
  let ?de = "\<lambda>s :: string. Inr \<lparr>kf_keys = (if s = ''old'' then [toy_entry (replicate 32 1) True]
      else [toy_entry (replicate 32 1) False, toy_entry (replicate 32 2) True])\<rparr> :: string + KeyringFile"
  let ?id = "ke_id (toy_entry (replicate 32 1) True)"
  let ?kr = "\<lparr>kr_keys = [?id \<mapsto> replicate 32 1], kr_active_id = ?id\<rparr>"
  have d: "decode_32 toy_b64 (fst toy_b64 (replicate 32 n)) = Inr (replicate 32 n)" for n
    by (rule decode_32_encode [OF toy_b64_law]) simp
  have ld: "load toy_b64 (\<lambda>k. k) (fst toy_b64) (\<lambda>_. ''new'') ?de [] ''t'' None (Inr ''old'') None = (Inr ?kr, Inr ''old'')"
    by (simp add: load_def d toy_entry_def Let_def)
  have ne: "key_id_from_bytes (\<lambda>k. k) (fst toy_b64) (replicate 32 2) \<notin> ke_id ` set (kf_keys ?old)"
    by (simp add: key_id_from_bytes_def toy_entry_def toy_b64_def)
  have new: "?new = \<lparr>kf_keys = map (\<lambda>e. e\<lparr>ke_active := False\<rparr>) (kf_keys ?old)
      @ [\<lparr>ke_id = key_id_from_bytes (\<lambda>k. k) (fst toy_b64) (replicate 32 2), ke_key_b64 = fst toy_b64 (replicate 32 2),
          ke_created_at = ''t'', ke_active = True\<rparr>]\<rparr>"
    by (simp add: toy_entry_def key_id_from_bytes_def)
  from rotate_keeps_keys [OF toy_roundtrip toy_b64_law _ _ _ ld ne new] obtain res kr' where
    r: "rotate toy_b64 (\<lambda>k. k) (fst toy_b64) (\<lambda>_. ''new'') ?de (replicate 32 2) ''t'' None (Inr ''old'') = (Inr res, Inr ''new'')"
    "rr_total_keys res = 2" "kr_active_id kr' = rr_new_active_id res"
    "\<exists>w. wrap_dek toy_enc (replicate 12 0) ?kr ?id (replicate 32 9) = Inr (w, replicate 12 0)
       \<and> unwrap_dek toy_dec kr' ?id w (replicate 12 0) = Inr (replicate 32 9)"
    by auto
  then show ?thesis by blast
qed

text \<open>
  C16. Rotation is not safe against a failing read: if the keyring file cannot be read, for
  whatever reason and not only because it is missing, \<open>rotate\<close> goes on as if there were no
  keys and replaces the file by one that holds the new key alone. Every data key wrapped
  under another key id is then refused.
\<close>

theorem rotate_after_read_error_drops_keys:
  assumes "b64_law b64" and "length new_key = 32" and "key_id \<noteq> key_id_from_bytes sha hex new_key"
    and "kf = \<lparr>kf_keys = [\<lparr>ke_id = key_id_from_bytes sha hex new_key, ke_key_b64 = fst b64 new_key,
                          ke_created_at = now, ke_active = True\<rparr>]\<rparr>"
    and "de (ser kf) = Inr kf"
  shows "\<exists>res kr. rotate b64 sha hex ser de new_key now None (Inl e) = (Inr res, Inr (ser kf))
    \<and> load b64 sha hex ser de x now' fault (Inr (ser kf)) None = (Inr kr, Inr (ser kf))
    \<and> (\<exists>m. unwrap_dek dec kr key_id w nonce = Inl m)"
proof -
  let ?new = "key_id_from_bytes sha hex new_key"
  have "rotate b64 sha hex ser de new_key now None (Inl e) =
      (Inr \<lparr>rr_new_active_id = ?new, rr_previous_active_id = None, rr_total_keys = 1\<rparr>, Inr (ser kf))"
    by (simp add: rotate_def Let_def assms(4))
  moreover have "load b64 sha hex ser de x now' fault (Inr (ser kf)) None =
      (Inr \<lparr>kr_keys = [?new \<mapsto> new_key], kr_active_id = ?new\<rparr>, Inr (ser kf))"
    by (simp add: load_def assms(5) Let_def) (simp add: assms(4) decode_32_encode [OF assms(1,2)])
  ultimately show ?thesis using assms(3) by (auto simp: unwrap_dek_def get_key_def)
qed

theorem rotate_after_read_error_drops_keys_witness:
  "\<exists>res kr. rotate toy_b64 (\<lambda>k. k) (fst toy_b64) (\<lambda>_. ''f'') (\<lambda>_. Inr \<lparr>kf_keys = [toy_entry (replicate 32 2) True]\<rparr>)
        (replicate 32 2) ''t'' None (Inl \<lparr>io_kind = OtherKind, io_msg = ''permission denied''\<rparr>) = (Inr res, Inr ''f'')
     \<and> load toy_b64 (\<lambda>k. k) (fst toy_b64) (\<lambda>_. ''f'') (\<lambda>_. Inr \<lparr>kf_keys = [toy_entry (replicate 32 2) True]\<rparr>)
        [] ''t'' None (Inr ''f'') None = (Inr kr, Inr ''f'')
     \<and> (\<exists>m. unwrap_dek toy_dec kr ''old key id'' [] [] = Inl m)"
proof -
  have "''old key id'' \<noteq> key_id_from_bytes (\<lambda>k. k) (fst toy_b64) (replicate 32 2)"
    by (simp add: key_id_from_bytes_def toy_b64_def eval_nat_numeral)
  moreover have "\<lparr>kf_keys = [toy_entry (replicate 32 2) True]\<rparr> =
      \<lparr>kf_keys = [\<lparr>ke_id = key_id_from_bytes (\<lambda>k. k) (fst toy_b64) (replicate 32 2),
        ke_key_b64 = fst toy_b64 (replicate 32 2), ke_created_at = ''t'', ke_active = True\<rparr>]\<rparr>"
    by (simp add: toy_entry_def key_id_from_bytes_def)
  ultimately show ?thesis
    by (intro rotate_after_read_error_drops_keys [OF toy_b64_law]) simp_all
qed

text \<open>
  With an explicit master key the key is active, and neither it nor the keyring file
  is changed by loading; every decodable entry of a readable file whose id is not the
  master key's stays available for unwrapping, the first one winning per id.
\<close>

theorem load_master_key:
  assumes "snd b64 mk = Some raw" and "length raw = 32"
  shows "\<exists>kr. load b64 sha hex ser de x now fault file (Some mk) = (Inr kr, file)
    \<and> kr_active_id kr = key_id_from_bytes sha hex raw \<and> kr_keys kr (kr_active_id kr) = Some raw
    \<and> (\<forall>data kf e k. file = Inr data \<and> de data = Inr kf \<and> e \<in> set (kf_keys kf) \<and> decode_32 b64 (ke_key_b64 e) = Inr k
         \<longrightarrow> ke_id e \<in> dom (kr_keys kr))"
proof -
  note keep = merge_entries_keep [of _ _ _ b64]
  have covers: "e \<in> set es \<Longrightarrow> decode_32 b64 (ke_key_b64 e) = Inr k \<Longrightarrow> \<exists>v. merge_entries b64 es ks (ke_id e) = Some v"
    for e es ks k
  proof (induction es arbitrary: ks)
    case (Cons e' es)
    show ?case
    proof (cases "e = e'")
      case True
      with Cons.prems(2) keep [of ks "ke_id e"] keep [of "ks(ke_id e \<mapsto> k)" "ke_id e" k] show ?thesis
        by (cases "ks (ke_id e)") auto
    next
      case False
      with Cons show ?thesis by (auto split: sum.splits)
    qed
  qed simp
  show ?thesis
    using assms keep [of _ _ raw] covers
    by (auto simp: load_def load_master_def Let_def split: sum.splits)
qed

theorem load_master_key_witness:
  "\<exists>kr. load toy_b64 (\<lambda>k. k) (fst toy_b64) (\<lambda>_. ''f'') (\<lambda>_. Inr \<lparr>kf_keys = [toy_entry (replicate 32 2) True]\<rparr>)
        [] ''t'' None (Inr ''f'') (Some (replicate 32 CHR ''m'')) = (Inr kr, Inr ''f'')
     \<and> kr_keys kr (kr_active_id kr) = Some (as_bytes (replicate 32 CHR ''m''))
     \<and> ke_id (toy_entry (replicate 32 2) True) \<in> dom (kr_keys kr)"
proof -
  have raw: "snd toy_b64 (replicate 32 CHR ''m'') = Some (as_bytes (replicate 32 CHR ''m''))"
    "length (as_bytes (replicate 32 CHR ''m'')) = 32" by (simp_all add: toy_b64_def)
  have d: "decode_32 toy_b64 (ke_key_b64 (toy_entry (replicate 32 2) True)) = Inr (replicate 32 2)"
    by (simp add: toy_entry_def decode_32_encode [OF toy_b64_law])
  from load_master_key [OF raw, of "\<lambda>k. k" "fst toy_b64" "\<lambda>_. ''f''" "\<lambda>_. Inr \<lparr>kf_keys = [toy_entry (replicate 32 2) True]\<rparr>"
      "[]" "''t''" None "Inr ''f''"] d
  show ?thesis by auto
qed

end
