(* ===== verification/Encryption.thy ===== *)
theory Encryption
  imports Keyring
begin

text \<open>
  Object encryption metadata: \<open>prepare_encryption\<close>, \<open>resolve_dek\<close> and \<open>resolve_upload_dek\<close>
  of \<open>encryption_io.rs\<close> and the sidecar MAC of \<open>common.rs\<close>.

  Parameters beside those of the keyring: MD5 (\<open>md5\<close>) and the hexadecimal HMAC-SHA256 of an
  object's canonical metadata (\<open>hmac dek meta\<close> stands for the HMAC of
  \<open>serde_json::to_vec(canonical_json_value(to_value(meta)))\<close>). The random data key, nonce
  prefix and wrap nonce are arguments.
\<close>

record key_store =
  ks_keyring :: Keyring
  ks_kms :: "LocalKmsBackend option"

record randomness =
  rnd_dek :: bytes
  rnd_prefix :: bytes
  rnd_nonce :: bytes

definition rnd_wf :: "randomness \<Rightarrow> bool" where
  "rnd_wf r \<longleftrightarrow> length (rnd_dek r) = 32 \<and> length (rnd_prefix r) = 8 \<and> length (rnd_nonce r) = 12"

fun kms_error_string :: "KmsError \<Rightarrow> string" where
  "kms_error_string NotConfigured = ''KMS not configured: set MAXIO_KMS_MASTER_KEY''"
| "kms_error_string (InvalidMasterKey m) = ''invalid KMS master key: '' @ m"
| "kms_error_string (OperationFailed m) = ''KMS operation failed: '' @ m"

definition map_err :: "('a \<Rightarrow> 'b) \<Rightarrow> 'a + 'c \<Rightarrow> 'b + 'c" where
  "map_err f r = (case r of Inl e \<Rightarrow> Inl (f e) | Inr x \<Rightarrow> Inr x)"

lemma map_err_simps [simp]: "map_err f (Inl e) = Inl (f e)" "map_err f (Inr x) = Inr x"
  by (simp_all add: map_err_def)

definition ok_or :: "'a option \<Rightarrow> 'e \<Rightarrow> 'e + 'a" where
  "ok_or x e = (case x of Some a \<Rightarrow> Inr a | None \<Rightarrow> Inl e)"

lemma ok_or_simps [simp]: "ok_or (Some a) e = Inr a" "ok_or None e = Inl e"
  by (simp_all add: ok_or_def)

section \<open>Creating the encryption metadata of an object\<close>

definition enc_meta :: "b64_codec \<Rightarrow> EncryptionMode \<Rightarrow> bytes \<Rightarrow> bytes \<Rightarrow> bytes \<Rightarrow> EncryptionMeta" where
  "enc_meta b64 mode wrapped wrap_nonce prefix8 =
     \<lparr>em_algorithm = ''AES256'', em_mode = mode, em_key_id = None, em_kms_key_id = None,
      em_wrapped_dek = Some (fst b64 wrapped), em_wrap_nonce = Some (fst b64 wrap_nonce),
      em_customer_key_md5 = None, em_nonce_prefix = fst b64 prefix8, em_chunk_size = FRAME_CHUNK_SIZE,
      em_sidecar_mac = []\<rparr>"

definition prepare_encryption ::
  "aead \<Rightarrow> b64_codec \<Rightarrow> (bytes \<Rightarrow> bytes) \<Rightarrow> randomness \<Rightarrow> key_store \<Rightarrow> EncryptionRequest \<Rightarrow> StorageError + EncryptionMeta" where
  "prepare_encryption enc b64 md5 rnd ks req =
     (case er_mode req of
        SseS3 \<Rightarrow>
          (let key_id = kr_active_id (ks_keyring ks)
           in bind_res (map_err EncryptionError (wrap_dek enc (rnd_nonce rnd) (ks_keyring ks) key_id (rnd_dek rnd)))
                (\<lambda>(wrapped, nonce). Inr ((enc_meta b64 SseS3 wrapped nonce (rnd_prefix rnd))\<lparr>em_key_id := Some key_id\<rparr>)))
      | SseKms \<Rightarrow>
          bind_res (ok_or (ks_kms ks) (EncryptionError ''SSE-KMS requires MAXIO_KMS_MASTER_KEY'')) (\<lambda>kms.
          bind_res (map_err (\<lambda>e. EncryptionError (kms_error_string e))
                      (generate_data_key enc (rnd_dek rnd) (rnd_nonce rnd) kms (er_kms_key_id req))) (\<lambda>g.
            Inr ((enc_meta b64 SseKms (gd_ciphertext g) (gd_wrap_nonce g) (rnd_prefix rnd))
                   \<lparr>em_kms_key_id := Some (gd_kms_key_id g)\<rparr>)))
      | SseC \<Rightarrow>
          bind_res (ok_or (er_customer_key req) (EncryptionError ''SSE-C requires customer key'')) (\<lambda>ck.
            case enc ck (rnd_nonce rnd) [] (rnd_dek rnd) of
              None \<Rightarrow> Inl (EncryptionError ''SSE-C DEK wrapping failed'')
            | Some wrapped \<Rightarrow>
                Inr ((enc_meta b64 SseC wrapped (rnd_nonce rnd) (rnd_prefix rnd))
                       \<lparr>em_customer_key_md5 := Some (fst b64 (md5 ck))\<rparr>)))"

section \<open>Recovering data keys\<close>

definition decode_b64 :: "b64_codec \<Rightarrow> string \<Rightarrow> 'e \<Rightarrow> 'e + bytes" where
  "decode_b64 b64 s e = ok_or (snd b64 s) e"

definition decode_nonce :: "b64_codec \<Rightarrow> string \<Rightarrow> 'e \<Rightarrow> 'e \<Rightarrow> 'e + bytes" where
  "decode_nonce b64 s bad wrong_len =
     bind_res (decode_b64 b64 s bad) (\<lambda>n. if length n \<noteq> 12 then Inl wrong_len else Inr n)"

definition resolve_dek ::
  "aead \<Rightarrow> b64_codec \<Rightarrow> (bytes \<Rightarrow> bytes) \<Rightarrow> key_store \<Rightarrow> EncryptionMeta \<Rightarrow> bytes option \<Rightarrow> StorageError + bytes" where
  "resolve_dek dec b64 md5 ks em customer_key =
     (case em_mode em of
        SseC \<Rightarrow>
          bind_res (ok_or customer_key (DecryptionError ''SSE-C: customer key required'')) (\<lambda>ck.
            if (case em_customer_key_md5 em of Some stored \<Rightarrow> fst b64 (md5 ck) \<noteq> stored | None \<Rightarrow> False)
            then Inl (DecryptionError ''SSE-C: customer key MD5 mismatch'')
            else (case (em_wrapped_dek em, em_wrap_nonce em) of
                    (Some wrapped, Some wrap_nonce) \<Rightarrow>
                      bind_res (decode_b64 b64 wrapped (DecryptionError ''bad wrapped_dek base64'')) (\<lambda>w.
                      bind_res (decode_nonce b64 wrap_nonce (DecryptionError ''bad wrap_nonce base64'')
                                  (DecryptionError ''wrap_nonce must be 12 bytes'')) (\<lambda>n.
                        case dec ck n [] w of
                          None \<Rightarrow> Inl (DecryptionError ''SSE-C DEK unwrap failed'')
                        | Some p \<Rightarrow> if length p \<noteq> 32 then Inl (DecryptionError ''SSE-C DEK length invalid'') else Inr p))
                  | _ \<Rightarrow> Inr ck))
      | SseS3 \<Rightarrow>
          bind_res (ok_or (em_key_id em) (DecryptionError ''missing key_id'')) (\<lambda>key_id.
          bind_res (ok_or (em_wrapped_dek em) (DecryptionError ''missing wrapped_dek'')) (\<lambda>wrapped.
          bind_res (ok_or (em_wrap_nonce em) (DecryptionError ''missing wrap_nonce'')) (\<lambda>wrap_nonce.
          bind_res (decode_b64 b64 wrapped (DecryptionError ''bad wrapped_dek base64'')) (\<lambda>w.
          bind_res (decode_nonce b64 wrap_nonce (DecryptionError ''bad wrap_nonce base64'')
                      (DecryptionError ''wrap_nonce must be 12 bytes'')) (\<lambda>n.
            map_err DecryptionError (unwrap_dek dec (ks_keyring ks) key_id w n))))))
      | SseKms \<Rightarrow>
          bind_res (ok_or (ks_kms ks) (DecryptionError ''SSE-KMS not configured'')) (\<lambda>kms.
          bind_res (ok_or (em_kms_key_id em) (DecryptionError ''missing kms_key_id'')) (\<lambda>kid.
          bind_res (ok_or (em_wrapped_dek em) (DecryptionError ''missing wrapped_dek'')) (\<lambda>wrapped.
          bind_res (ok_or (em_wrap_nonce em) (DecryptionError ''missing wrap_nonce'')) (\<lambda>wrap_nonce.
          bind_res (decode_b64 b64 wrapped (DecryptionError ''bad wrapped_dek base64'')) (\<lambda>w.
          bind_res (decode_nonce b64 wrap_nonce (DecryptionError ''bad wrap_nonce base64'')
                      (DecryptionError ''wrap_nonce must be 12 bytes'')) (\<lambda>n.
            map_err (\<lambda>e. DecryptionError (kms_error_string e)) (decrypt_data_key dec kms kid w n))))))))"

definition resolve_upload_dek ::
  "aead \<Rightarrow> b64_codec \<Rightarrow> (bytes \<Rightarrow> bytes) \<Rightarrow> key_store \<Rightarrow> UploadEncryptionSpec \<Rightarrow> bytes option \<Rightarrow> StorageError + bytes" where
  "resolve_upload_dek dec b64 md5 ks spec customer_key =
     (let err = EncryptionError;
          wrapped = ok_or (ue_upload_dek_wrapped spec) (err ''missing upload_dek_wrapped'');
          nonce = ok_or (ue_upload_dek_wrap_nonce spec) (err ''missing upload_dek_wrap_nonce'')
      in case ue_mode spec of
           SseC \<Rightarrow>
             bind_res (ok_or customer_key (err ''SSE-C multipart: customer key required'')) (\<lambda>ck.
               if (case ue_customer_key_md5 spec of Some stored \<Rightarrow> fst b64 (md5 ck) \<noteq> stored | None \<Rightarrow> False)
               then Inl (err ''SSE-C key MD5 mismatch'') else Inr ck)
         | SseS3 \<Rightarrow>
             bind_res wrapped (\<lambda>wb.
             bind_res nonce (\<lambda>nb.
             bind_res (ok_or (ue_upload_dek_key_id spec) (err ''missing upload_dek_key_id'')) (\<lambda>kid.
             bind_res (decode_b64 b64 wb (err ''bad upload_dek_wrapped base64'')) (\<lambda>w.
             bind_res (decode_nonce b64 nb (err ''bad upload_dek_wrap_nonce base64'')
                         (err ''upload_dek_wrap_nonce must be 12 bytes'')) (\<lambda>n.
               map_err err (unwrap_dek dec (ks_keyring ks) kid w n))))))
         | SseKms \<Rightarrow>
             bind_res (ok_or (ks_kms ks) (err ''SSE-KMS not configured'')) (\<lambda>kms.
             bind_res (ok_or (ue_kms_key_id spec) (err ''missing kms_key_id'')) (\<lambda>kid.
             bind_res wrapped (\<lambda>wb.
             bind_res nonce (\<lambda>nb.
             bind_res (decode_b64 b64 wb (err ''bad upload_dek_wrapped base64'')) (\<lambda>w.
             bind_res (decode_nonce b64 nb (err ''bad upload_dek_wrap_nonce base64'')
                         (err ''upload_dek_wrap_nonce must be 12 bytes'')) (\<lambda>n.
               map_err (\<lambda>e. err (kms_error_string e)) (decrypt_data_key dec kms kid w n))))))))"

section \<open>The sidecar MAC\<close>

definition mac_input :: "ObjectMeta \<Rightarrow> ObjectMeta" where
  "mac_input meta =
     meta\<lparr>om_tags := None, om_is_delete_marker := False,
          om_encryption := map_option (\<lambda>e. e\<lparr>em_sidecar_mac := []\<rparr>) (om_encryption meta)\<rparr>"

definition compute_sidecar_mac :: "(bytes \<Rightarrow> ObjectMeta \<Rightarrow> string) \<Rightarrow> bytes \<Rightarrow> ObjectMeta \<Rightarrow> string" where
  "compute_sidecar_mac hmac dek meta = hmac dek (mac_input meta)"

unbundle bit_operations_syntax

definition constant_time_eq :: "bytes \<Rightarrow> bytes \<Rightarrow> bool" where
  "constant_time_eq a b =
     (if length a \<noteq> length b then False
      else foldl (\<lambda>diff (x, y). diff OR (x XOR y)) 0 (zip a b) = 0)"

definition verify_sidecar_mac :: "(bytes \<Rightarrow> ObjectMeta \<Rightarrow> string) \<Rightarrow> ObjectMeta \<Rightarrow> bytes \<Rightarrow> StorageError + unit" where
  "verify_sidecar_mac hmac meta dek =
     bind_res (ok_or (om_encryption meta) (IntegrityError ''object has no encryption metadata'')) (\<lambda>e.
       if em_sidecar_mac e = [] then Inl (IntegrityError (''sidecar_mac missing '' @ em_dash @ '' object may be tampered''))
       else if \<not> constant_time_eq (as_bytes (compute_sidecar_mac hmac dek meta)) (as_bytes (em_sidecar_mac e))
       then Inl (IntegrityError (''sidecar_mac mismatch '' @ em_dash @ '' object metadata has been tampered''))
       else Inr ())"

text \<open>The last step of every encrypted upload: clear the MAC, compute it, store it.\<close>

definition seal_meta :: "(bytes \<Rightarrow> ObjectMeta \<Rightarrow> string) \<Rightarrow> bytes \<Rightarrow> ObjectMeta \<Rightarrow> ObjectMeta" where
  "seal_meta hmac dek meta =
     (let meta = meta\<lparr>om_encryption := map_option (\<lambda>e. e\<lparr>em_sidecar_mac := []\<rparr>) (om_encryption meta)\<rparr>;
          mac = compute_sidecar_mac hmac dek meta
      in meta\<lparr>om_encryption := map_option (\<lambda>e. e\<lparr>em_sidecar_mac := mac\<rparr>) (om_encryption meta)\<rparr>)"

definition reject_sse_c_on_plaintext :: "ObjectMeta \<Rightarrow> bool \<Rightarrow> StorageError + unit" where
  "reject_sse_c_on_plaintext meta has_customer_key =
     (if has_customer_key \<and> om_encryption meta = None
      then Inl (DecryptionError ''SSE-C headers supplied but object is not encrypted'') else Inr ())"

section \<open>Lemmas\<close>

lemma fold_xor_zero:
  "foldl (\<lambda>diff (x, y). diff OR (x XOR y)) d ps = (0 :: u8) \<longleftrightarrow> d = 0 \<and> (\<forall>(x, y) \<in> set ps. x = y)"
proof (induction ps arbitrary: d)
  case (Cons p ps)
  obtain x y where p: "p = (x, y)" by (cases p)
  have "d OR (x XOR y) = 0 \<longleftrightarrow> d = 0 \<and> x = y"
  proof
    assume "d OR (x XOR y) = 0"
    then have "d = 0" "x XOR y = 0" by (simp_all add: or_eq_0_iff)
    then show "d = 0 \<and> x = y" by (metis xor.assoc xor.right_neutral xor_self_eq)
  qed simp
  with Cons p show ?case by auto
qed simp

lemma constant_time_eq_iff: "constant_time_eq a b \<longleftrightarrow> a = b"
proof (cases "length a = length b")
  case True
  then have "(\<forall>(x, y) \<in> set (zip a b). x = y) \<longleftrightarrow> a = b"
    by (induction a b rule: list_induct2) auto
  with True show ?thesis by (simp add: constant_time_eq_def fold_xor_zero)
qed (auto simp: constant_time_eq_def)

lemma mac_input_seal: "mac_input (seal_meta hmac dek meta) = mac_input meta"
  by (simp add: mac_input_def seal_meta_def Let_def option.map_comp comp_def)

lemma verify_iff:
  "verify_sidecar_mac hmac meta dek = Inr () \<longleftrightarrow>
     (\<exists>e. om_encryption meta = Some e \<and> em_sidecar_mac e \<noteq> [] \<and> em_sidecar_mac e = hmac dek (mac_input meta))"
  by (cases "om_encryption meta")
     (auto simp: verify_sidecar_mac_def compute_sidecar_mac_def constant_time_eq_iff as_bytes_inj)


lemma decode_b64_encode [simp]: "b64_law b64 \<Longrightarrow> decode_b64 b64 (fst b64 x) e = Inr x"
  by (simp add: decode_b64_def b64_law_def)

lemma decode_nonce_encode [simp]:
  "b64_law b64 \<Longrightarrow> length n = 12 \<Longrightarrow> decode_nonce b64 (fst b64 n) e e' = Inr n"
  by (simp add: decode_nonce_def)

text \<open>The keys that a request needs, now and when the object is read.\<close>

definition keys_for :: "key_store \<Rightarrow> key_store \<Rightarrow> EncryptionRequest \<Rightarrow> bool" where
  "keys_for ks ks' req \<longleftrightarrow>
     (er_mode req = SseS3 \<longrightarrow>
        (\<exists>k. kr_keys (ks_keyring ks) (kr_active_id (ks_keyring ks)) = Some k \<and> length k = 32
             \<and> kr_keys (ks_keyring ks') (kr_active_id (ks_keyring ks)) = Some k))
     \<and> (er_mode req = SseKms \<longrightarrow> (\<exists>kms. ks_kms ks = Some kms \<and> ks_kms ks' = Some kms \<and> length (lk_master_key kms) = 32))
     \<and> (er_mode req = SseC \<longrightarrow> (\<exists>ck. er_customer_key req = Some ck \<and> length ck = 32))"

lemma prepared_dek:
  assumes "aead_roundtrip enc dec" and "b64_law b64" and "rnd_wf rnd" and "keys_for ks ks' req"
  shows "\<exists>em. prepare_encryption enc b64 md5 rnd ks req = Inr em
    \<and> resolve_dek dec b64 md5 ks' em (er_customer_key req) = Inr (rnd_dek rnd)
    \<and> em_nonce_prefix em = fst b64 (rnd_prefix rnd) \<and> em_chunk_size em = FRAME_CHUNK_SIZE
    \<and> (er_mode req = SseC \<longrightarrow> (\<forall>ck. md5 ck \<noteq> md5 (the (er_customer_key req)) \<longrightarrow>
         resolve_dek dec b64 md5 ks' em (Some ck) = Inl (DecryptionError ''SSE-C: customer key MD5 mismatch'')))"
proof -
  have r: "length (rnd_dek rnd) = 32" "length (rnd_dek rnd) \<le> 2 ^ 36" "length (rnd_nonce rnd) = 12"
    using assms(3) by (simp_all add: rnd_wf_def)
  have inj: "fst b64 x = fst b64 y \<longleftrightarrow> x = y" for x y
    using assms(2) unfolding b64_law_def by (metis option.inject)
  show ?thesis
  proof (cases "er_mode req")
    case SseS3
    with assms(4) [unfolded keys_for_def] obtain k where k: "kr_keys (ks_keyring ks) (kr_active_id (ks_keyring ks)) = Some k" "length k = 32"
      "kr_keys (ks_keyring ks') (kr_active_id (ks_keyring ks)) = Some k" by blast
    from wrap_unwrap [OF assms(1) k(1,2) r(3,1)] k(3) obtain w where
      "wrap_dek enc (rnd_nonce rnd) (ks_keyring ks) (kr_active_id (ks_keyring ks)) (rnd_dek rnd) = Inr (w, rnd_nonce rnd)"
      "unwrap_dek dec (ks_keyring ks') (kr_active_id (ks_keyring ks)) w (rnd_nonce rnd) = Inr (rnd_dek rnd)" by blast
    with SseS3 assms(2) r show ?thesis
      by (simp add: prepare_encryption_def resolve_dek_def enc_meta_def)
  next
    case SseKms
    with assms(4) [unfolded keys_for_def] obtain kms where k: "ks_kms ks = Some kms" "ks_kms ks' = Some kms" "length (lk_master_key kms) = 32"
      by blast
    define kid where "kid = (case er_kms_key_id req of Some s \<Rightarrow> if s \<noteq> [] then s else lk_default_key_id kms
                        | None \<Rightarrow> lk_default_key_id kms)"
    obtain c where c: "enc (lk_master_key kms) (rnd_nonce rnd) (as_bytes kid) (rnd_dek rnd) = Some c"
      "dec (lk_master_key kms) (rnd_nonce rnd) (as_bytes kid) c = Some (rnd_dek rnd)"
      using aead_seal [OF assms(1) k(3) r(3,2)] by blast
    from c(1) have "generate_data_key enc (rnd_dek rnd) (rnd_nonce rnd) kms (er_kms_key_id req) =
        Inr \<lparr>gd_plaintext = rnd_dek rnd, gd_ciphertext = c, gd_wrap_nonce = rnd_nonce rnd, gd_kms_key_id = kid\<rparr>"
      unfolding generate_data_key_def Let_def kid_def [symmetric] by simp
    with SseKms k c assms(2) r show ?thesis
      by (simp add: prepare_encryption_def resolve_dek_def enc_meta_def decrypt_data_key_def)
  next
    case SseC
    with assms(4) [unfolded keys_for_def] obtain ck where k: "er_customer_key req = Some ck" "length ck = 32" by blast
    obtain c where "enc ck (rnd_nonce rnd) [] (rnd_dek rnd) = Some c" "dec ck (rnd_nonce rnd) [] c = Some (rnd_dek rnd)"
      using aead_seal [OF assms(1) k(2) r(3,2)] by blast
    with SseC k assms(2) r inj show ?thesis
      by (simp add: prepare_encryption_def resolve_dek_def enc_meta_def)
  qed
qed

section \<open>Properties\<close>

text \<open>
  C17. Whatever the mode, the data key that an upload was encrypted with is the one that
  \<open>resolve_dek\<close> recovers: for SSE-S3 under any later keyring that still has the wrapping
  key, for SSE-KMS with the same backend, for SSE-C with the customer's key. A recorded
  customer key MD5 makes every key with another MD5 be refused.
\<close>

theorem resolve_dek_prepared:
  assumes "aead_roundtrip enc dec" and "b64_law b64" and "rnd_wf rnd" and "keys_for ks ks' req"
  shows "\<exists>em. prepare_encryption enc b64 md5 rnd ks req = Inr em
    \<and> resolve_dek dec b64 md5 ks' em (er_customer_key req) = Inr (rnd_dek rnd)
    \<and> em_nonce_prefix em = fst b64 (rnd_prefix rnd)
    \<and> (er_mode req = SseC \<longrightarrow> (\<forall>ck. md5 ck \<noteq> md5 (the (er_customer_key req)) \<longrightarrow>
         resolve_dek dec b64 md5 ks' em (Some ck) = Inl (DecryptionError ''SSE-C: customer key MD5 mismatch'')))"
  using prepared_dek [OF assms, of md5] by blast

theorem resolve_dek_prepared_witness:
  "\<exists>em. prepare_encryption toy_enc toy_b64 (\<lambda>k. k) \<lparr>rnd_dek = replicate 32 5, rnd_prefix = replicate 8 1, rnd_nonce = replicate 12 2\<rparr>
         \<lparr>ks_keyring = \<lparr>kr_keys = Map.empty, kr_active_id = []\<rparr>, ks_kms = None\<rparr> (sse_c (replicate 32 7)) = Inr em
     \<and> resolve_dek toy_dec toy_b64 (\<lambda>k. k) \<lparr>ks_keyring = \<lparr>kr_keys = Map.empty, kr_active_id = []\<rparr>, ks_kms = None\<rparr>
         em (Some (replicate 32 7)) = Inr (replicate 32 5)
     \<and> resolve_dek toy_dec toy_b64 (\<lambda>k. k) \<lparr>ks_keyring = \<lparr>kr_keys = Map.empty, kr_active_id = []\<rparr>, ks_kms = None\<rparr>
         em (Some [1]) = Inl (DecryptionError ''SSE-C: customer key MD5 mismatch'')"
proof -
  have ne: "[1] \<noteq> replicate 32 (7 :: u8)" by (auto dest: arg_cong [of _ _ length])
  from resolve_dek_prepared [OF toy_roundtrip toy_b64_law, of "\<lparr>rnd_dek = replicate 32 5, rnd_prefix = replicate 8 1, rnd_nonce = replicate 12 2\<rparr>"
      "\<lparr>ks_keyring = \<lparr>kr_keys = Map.empty, kr_active_id = []\<rparr>, ks_kms = None\<rparr>"
      "\<lparr>ks_keyring = \<lparr>kr_keys = Map.empty, kr_active_id = []\<rparr>, ks_kms = None\<rparr>" "sse_c (replicate 32 7)" "\<lambda>k. k"] ne
  show ?thesis by (simp add: rnd_wf_def sse_c_def keys_for_def) blast
qed

text \<open>
  C18. The sidecar MAC of a sealed record survives every change of the tags and of the delete
  marker flag, and nothing else: a record that carries the MAC of \<open>meta\<close> is accepted exactly
  when the HMAC of its canonical form is that of \<open>meta\<close>, so accepting a record that differs
  from \<open>meta\<close> in any other field needs an HMAC collision.
\<close>

theorem sidecar_mac_covers:
  assumes "om_encryption meta = Some em" and "\<And>m. hmac dek m \<noteq> []"
  shows "verify_sidecar_mac hmac ((seal_meta hmac dek meta)\<lparr>om_tags := tags, om_is_delete_marker := b\<rparr>) dek = Inr ()
    \<and> (map_option em_sidecar_mac (om_encryption meta') = map_option em_sidecar_mac (om_encryption (seal_meta hmac dek meta)) \<longrightarrow>
         (verify_sidecar_mac hmac meta' dek = Inr () \<longleftrightarrow> hmac dek (mac_input meta') = hmac dek (mac_input meta))
         \<and> (mac_input meta' = mac_input meta \<longrightarrow>
              meta' = (seal_meta hmac dek meta)\<lparr>om_tags := om_tags meta', om_is_delete_marker := om_is_delete_marker meta'\<rparr>))"
proof -
  let ?s = "seal_meta hmac dek meta"
  have m: "mac_input (?s\<lparr>om_tags := tags, om_is_delete_marker := b\<rparr>) = mac_input meta"
    using mac_input_seal [of hmac dek meta] by (simp add: mac_input_def)
  have e: "om_encryption ?s = Some (em\<lparr>em_sidecar_mac := hmac dek (mac_input meta)\<rparr>)"
    using assms(1) by (simp add: seal_meta_def compute_sidecar_mac_def mac_input_def Let_def)
  have v: "verify_sidecar_mac hmac (?s\<lparr>om_tags := tags, om_is_delete_marker := b\<rparr>) dek = Inr ()"
    using m e assms(2) by (auto simp: verify_iff)
  {
    assume h: "map_option em_sidecar_mac (om_encryption meta') = map_option em_sidecar_mac (om_encryption ?s)"
    then obtain em' where em': "om_encryption meta' = Some em'" "em_sidecar_mac em' = hmac dek (mac_input meta)"
      using e by auto
    then have "verify_sidecar_mac hmac meta' dek = Inr () \<longleftrightarrow> hmac dek (mac_input meta') = hmac dek (mac_input meta)"
      using assms(2) by (auto simp: verify_iff)
    moreover have "meta' = ?s\<lparr>om_tags := om_tags meta', om_is_delete_marker := om_is_delete_marker meta'\<rparr>"
      if "mac_input meta' = mac_input meta"
    proof -
      have "mac_input meta' = mac_input ?s" using that mac_input_seal by simp
      with em' e show ?thesis unfolding mac_input_def
        by (cases meta'; cases ?s; cases em'; cases em) simp
    qed
    ultimately have "(verify_sidecar_mac hmac meta' dek = Inr () \<longleftrightarrow> hmac dek (mac_input meta') = hmac dek (mac_input meta))
       \<and> (mac_input meta' = mac_input meta \<longrightarrow>
            meta' = ?s\<lparr>om_tags := om_tags meta', om_is_delete_marker := om_is_delete_marker meta'\<rparr>)" by blast
  }
  with v show ?thesis by blast
qed

definition toy_meta :: ObjectMeta where
  "toy_meta = \<lparr>om_key = ''k'', om_size = 3, om_etag = ''e'', om_content_type = [], om_last_modified = [],
     om_version_id = None, om_is_delete_marker = False, om_storage_format = None, om_checksum_algorithm = None,
     om_checksum_value = None, om_tags = None, om_part_sizes = None,
     om_encryption = Some (enc_meta toy_b64 SseS3 [] [] []), om_object_lock_mode = None,
     om_retain_until_date = None, om_legal_hold_status = None\<rparr>"

definition toy_hmac :: "bytes \<Rightarrow> ObjectMeta \<Rightarrow> string" where
  "toy_hmac dek m = ''h'' @ om_etag m"

theorem sidecar_mac_covers_witness:
  "verify_sidecar_mac toy_hmac ((seal_meta toy_hmac [7] toy_meta)\<lparr>om_tags := Some [(''a'', ''b'')], om_is_delete_marker := True\<rparr>) [7] = Inr ()
   \<and> verify_sidecar_mac toy_hmac ((seal_meta toy_hmac [7] toy_meta)\<lparr>om_etag := ''f''\<rparr>) [7] \<noteq> Inr ()"
proof -
  have "om_encryption toy_meta = Some (enc_meta toy_b64 SseS3 [] [] [])" by (simp add: toy_meta_def)
  from sidecar_mac_covers [OF this, of toy_hmac "[7]" True "Some [(''a'', ''b'')]" "(seal_meta toy_hmac [7] toy_meta)\<lparr>om_etag := ''f''\<rparr>"]
  show ?thesis by (simp add: toy_hmac_def toy_meta_def mac_input_def seal_meta_def Let_def)
qed

end
