(* ===== verification/FileSys.thy ===== *)
theory FileSys
  imports Types "HOL-Library.AList"
begin

text \<open>
  The operating system interface the storage engine is written against: \<open>tokio::fs\<close> and
  \<open>std::fs\<close> over a tree of directories and files, and the \<open>async fn ... -> Result\<close> bodies
  that call it.

  A \<open>node\<close> is a file with its contents or a directory with its entries in the order in
  which \<open>read_dir\<close> yields them. A path is the list of its components below the file system
  root; \<open>..\<close> is resolved by \<open>realpath\<close> the way the kernel does, component by component.
  Every system call first takes the next element of \<open>w_faults\<close>: \<open>Some e\<close> makes the call fail
  with \<open>e\<close> and change nothing, \<open>None\<close> (and an exhausted list) lets it run. A statement about
  all fault lists covers every placement of failing calls.

  \<open>w_draws\<close> counts the readings of the clock and of the random generator; their values are
  functions of it and parameters of the operations that use them.
\<close>

named_theorems fs_simps \<open>system calls on paths whose state is known\<close>

section \<open>The tree\<close>

datatype node = File bytes | Dir "(string \<times> node) list"

type_synonym path = "string list"

definition enoent :: io_error where "enoent = \<lparr>io_kind = NotFoundKind, io_msg = ''No such file or directory''\<rparr>"
definition eexist :: io_error where "eexist = \<lparr>io_kind = AlreadyExistsKind, io_msg = ''File exists''\<rparr>"
definition enotempty :: io_error where "enotempty = \<lparr>io_kind = DirectoryNotEmptyKind, io_msg = ''Directory not empty''\<rparr>"
definition enotdir :: io_error where "enotdir = io_other ''Not a directory''"
definition eisdir :: io_error where "eisdir = io_other ''Is a directory''"
definition einval :: io_error where "einval = io_other ''Invalid argument''"

fun resolve :: "path \<Rightarrow> node \<Rightarrow> io_error + node" where
  "resolve [] n = Inr n"
| "resolve (s # p) (File b) = Inl enotdir"
| "resolve (s # p) (Dir es) = (case map_of es s of None \<Rightarrow> Inl enoent | Some n \<Rightarrow> resolve p n)"

definition lookup :: "path \<Rightarrow> node \<Rightarrow> node option" where
  "lookup p t = (case resolve p t of Inl _ \<Rightarrow> None | Inr n \<Rightarrow> Some n)"

text \<open>Replace or remove the entry at a path whose parent is a directory.\<close>

fun set_node :: "path \<Rightarrow> node option \<Rightarrow> node \<Rightarrow> node" where
  "set_node [] v t = (case v of Some n \<Rightarrow> n | None \<Rightarrow> t)"
| "set_node (s # p) v (File b) = File b"
| "set_node (s # p) v (Dir es) =
     (if p = [] then Dir (case v of Some n \<Rightarrow> AList.update s n es | None \<Rightarrow> AList.delete s es)
      else (case map_of es s of None \<Rightarrow> Dir es | Some n \<Rightarrow> Dir (AList.update s (set_node p v n) es)))"

definition is_dir_at :: "path \<Rightarrow> node \<Rightarrow> bool" where
  "is_dir_at p t = (case lookup p t of Some (Dir _) \<Rightarrow> True | _ \<Rightarrow> False)"

text \<open>Neither path lies on the other.\<close>

definition apart :: "path \<Rightarrow> path \<Rightarrow> bool" where
  "apart p q \<longleftrightarrow> \<not> prefix p q \<and> \<not> prefix q p"

lemma apart_sym: "apart p q \<longleftrightarrow> apart q p"
  by (auto simp: apart_def)

lemma apart_append [simp]: "apart (d @ p) (d @ q) \<longleftrightarrow> apart p q"
  by (simp add: apart_def)

lemma apart_extend: "apart p q \<Longrightarrow> apart p (q @ r)"
  by (auto simp: apart_def prefix_def) (metis append_eq_append_conv2)

lemma apart_single [simp]: "apart [a] [b] \<longleftrightarrow> a \<noteq> b"
  by (auto simp: apart_def)

lemma lookup_Nil [simp]: "lookup [] t = Some t"
  by (simp add: lookup_def)

lemma lookup_Cons:
  "lookup (s # p) t = (case t of File _ \<Rightarrow> None | Dir es \<Rightarrow> (case map_of es s of None \<Rightarrow> None | Some n \<Rightarrow> lookup p n))"
  by (cases t) (auto simp: lookup_def split: option.splits)

lemma resolve_lookup: "lookup p t = Some n \<longleftrightarrow> resolve p t = Inr n"
  by (auto simp: lookup_def split: sum.splits)

lemma lookup_append: "lookup (p @ q) t = (case lookup p t of None \<Rightarrow> None | Some n \<Rightarrow> lookup q n)"
  by (induction p arbitrary: t) (auto simp: lookup_Cons split: option.splits node.splits)

lemma is_dir_at_Dir: "is_dir_at p t \<longleftrightarrow> (\<exists>es. lookup p t = Some (Dir es))"
  by (auto simp: is_dir_at_def split: option.splits node.splits)

lemma is_dir_at_prefix: "is_dir_at (p @ q) t \<Longrightarrow> is_dir_at p t"
  by (cases q) (auto simp: is_dir_at_Dir lookup_append lookup_Cons split: option.splits node.splits)

lemma exists_parent: "lookup p t = Some n \<Longrightarrow> p \<noteq> [] \<Longrightarrow> is_dir_at (butlast p) t"
proof -
  assume a: "lookup p t = Some n" "p \<noteq> []"
  then have "lookup (butlast p @ [last p]) t = Some n" by simp
  then show ?thesis
    by (auto simp: is_dir_at_Dir lookup_append lookup_Cons split: option.splits node.splits)
qed

text \<open>In a directory that exists, an entry is missing exactly with \<open>ENOENT\<close>.\<close>

lemma resolve_absent: "is_dir_at (butlast p) t \<Longrightarrow> p \<noteq> [] \<Longrightarrow> lookup p t = None \<Longrightarrow> resolve p t = Inl enoent"
proof (induction p t rule: resolve.induct)
  case (3 s p es)
  show ?case
  proof (cases "p = []")
    case False
    with 3 show ?thesis by (auto simp: is_dir_at_Dir lookup_Cons split: option.splits)
  qed (use 3 in \<open>auto simp: lookup_Cons split: option.splits\<close>)
qed (auto simp: is_dir_at_Dir lookup_Cons split: if_splits)

lemma lookup_set_same:
  "is_dir_at (butlast p) t \<Longrightarrow> p \<noteq> [] \<Longrightarrow> lookup p (set_node p v t) = v"
proof (induction p v t rule: set_node.induct)
  case (3 s p v es)
  show ?case
  proof (cases "p = []")
    case False
    with 3 show ?thesis
      by (auto simp: is_dir_at_Dir lookup_Cons update_conv' split: option.splits)
  qed (auto simp: lookup_Cons update_conv' delete_conv' split: option.splits)
qed (auto simp: is_dir_at_Dir lookup_Cons split: if_splits)

lemma resolve_set_apart: "apart p q \<Longrightarrow> resolve q (set_node p v t) = resolve q t"
proof (induction p v t arbitrary: q rule: set_node.induct)
  case (3 s p v es)
  obtain a r where q: "q = a # r" using 3(2) by (cases q) (auto simp: apart_def)
  show ?case
  proof (cases "a = s")
    case True
    with q 3(2) have "apart p r" "p \<noteq> []" by (auto simp: apart_def)
    with 3(1) q True show ?thesis by (auto simp: update_conv' split: option.splits)
  next
    case False
    with q show ?thesis by (auto simp: update_conv' delete_conv' split: option.splits)
  qed
qed (auto simp: apart_def)

lemma lookup_set_apart: "apart p q \<Longrightarrow> lookup q (set_node p v t) = lookup q t"
  by (simp add: lookup_def resolve_set_apart)

text \<open>A directory above the changed entry stays a directory.\<close>

lemma lookup_set_above:
  "lookup q t = Some n \<Longrightarrow> r \<noteq> [] \<Longrightarrow> lookup q (set_node (q @ r) v t) = Some (set_node r v n)"
proof (induction q arbitrary: t)
  case (Cons s q)
  then show ?case
    by (cases t) (auto simp: lookup_Cons update_conv' split: option.splits)
qed simp

lemma is_dir_set_node: "is_dir_at [] t \<Longrightarrow> p \<noteq> [] \<Longrightarrow> is_dir_at [] (set_node p v t)"
  by (cases p; cases t) (auto simp: is_dir_at_Dir split: option.splits)

lemma is_dir_at_set_above:
  assumes "is_dir_at q t" and "r \<noteq> []"
  shows "is_dir_at q (set_node (q @ r) v t)"
proof -
  from assms(1) obtain es where "lookup q t = Some (Dir es)" by (auto simp: is_dir_at_Dir)
  with lookup_set_above [OF this assms(2)] is_dir_set_node [of "Dir es" r] assms(2)
  show ?thesis by (auto simp: is_dir_at_Dir)
qed

lemma is_dir_at_set_apart: "apart p q \<Longrightarrow> is_dir_at q (set_node p v t) = is_dir_at q t"
  by (simp add: is_dir_at_def lookup_set_apart)

text \<open>Whatever is not at or below \<open>p\<close> keeps being a directory when \<open>p\<close> changes.\<close>

lemma is_dir_at_set: "is_dir_at q t \<Longrightarrow> \<not> prefix p q \<Longrightarrow> is_dir_at q (set_node p v t)"
proof (cases "prefix q p")
  case True
  assume a: "is_dir_at q t" "\<not> prefix p q"
  from True a(2) obtain r where "p = q @ r" "r \<noteq> []" by (auto simp: prefix_def)
  with is_dir_at_set_above a(1) show ?thesis by blast
qed (simp add: is_dir_at_set_apart apart_def)

lemma set_node_twice: "p \<noteq> [] \<Longrightarrow> set_node p v (set_node p (Some n) t) = set_node p v t"
proof (induction p v t rule: set_node.induct)
  case (3 s p v es)
  show ?case
  proof (cases "p = []")
    case False
    with 3 show ?thesis by (auto simp: update_conv' update_last split: option.splits)
  qed (auto simp: update_last delete_update_same split: option.splits)
qed (auto split: option.splits)

lemma update_same [simp]: "map_of es s = Some m \<Longrightarrow> AList.update s m es = es"
  by (induction es) auto

lemma set_node_triv: "lookup p t = Some n \<Longrightarrow> set_node p (Some n) t = t"
proof (induction p arbitrary: t)
  case (Cons s p)
  then show ?case by (cases t; cases "p = []") (auto simp: lookup_Cons split: option.splits)
qed simp

lemma set_node_under:
  "lookup p t = Some n \<Longrightarrow> r \<noteq> [] \<Longrightarrow> set_node (p @ r) v t = set_node p (Some (set_node r v n)) t"
proof (induction p arbitrary: t)
  case (Cons s p)
  then show ?case by (cases t) (auto simp: lookup_Cons split: option.splits)
qed simp

text \<open>Directories without duplicate names and without an entry called \<open>..\<close>.\<close>

fun wf_node :: "node \<Rightarrow> bool" where
  "wf_node (File b) = True"
| "wf_node (Dir es) = (distinct (map fst es) \<and> (\<forall>(x, n) \<in> set es. x \<noteq> ''..'' \<and> wf_node n))"

section \<open>Path resolution\<close>

fun walk :: "node \<Rightarrow> path \<Rightarrow> path \<Rightarrow> io_error + path" where
  "walk root acc [] = Inr (rev acc)"
| "walk root acc (s # p) =
     (if s = ''..'' then walk root (tl acc) p
      else if p = [] then Inr (rev (s # acc))
      else (case resolve (rev (s # acc)) root of
              Inl e \<Rightarrow> Inl e
            | Inr (File _) \<Rightarrow> Inl enotdir
            | Inr (Dir _) \<Rightarrow> walk root (s # acc) p))"

text \<open>Without \<open>..\<close> the path is already canonical; the calls report its missing components.\<close>

definition realpath :: "node \<Rightarrow> path \<Rightarrow> io_error + path" where
  "realpath root p = (if ''..'' \<in> set p then walk root [] p else Inr p)"

section \<open>Calls on the tree\<close>

definition stat_at :: "path \<Rightarrow> node \<Rightarrow> io_error + node" where
  "stat_at p t = bind_res (realpath t p) (\<lambda>p. resolve p t)"

definition parent_dir :: "path \<Rightarrow> node \<Rightarrow> io_error + (string \<times> node) list" where
  "parent_dir p t =
     (if p = [] then Inl einval
      else bind_res (resolve (butlast p) t) (\<lambda>n. case n of File _ \<Rightarrow> Inl enotdir | Dir es \<Rightarrow> Inr es))"

fun mkdirs :: "path \<Rightarrow> node \<Rightarrow> io_error + node" where
  "mkdirs [] (File b) = Inl eexist"
| "mkdirs [] (Dir es) = Inr (Dir es)"
| "mkdirs (s # p) (File b) = Inl enotdir"
| "mkdirs (s # p) (Dir es) =
     bind_res (mkdirs p (case map_of es s of None \<Rightarrow> Dir [] | Some n \<Rightarrow> n))
       (\<lambda>n. Inr (Dir (AList.update s n es)))"

definition write_at :: "path \<Rightarrow> bytes \<Rightarrow> node \<Rightarrow> io_error + node" where
  "write_at p0 data t =
     bind_res (realpath t p0) (\<lambda>p.
     bind_res (parent_dir p t) (\<lambda>_.
       if is_dir_at p t then Inl eisdir else Inr (set_node p (Some (File data)) t)))"

definition read_at :: "path \<Rightarrow> node \<Rightarrow> io_error + bytes" where
  "read_at p t = bind_res (stat_at p t) (\<lambda>n. case n of File b \<Rightarrow> Inr b | Dir _ \<Rightarrow> Inl eisdir)"

definition mkdir_at :: "path \<Rightarrow> node \<Rightarrow> io_error + node" where
  "mkdir_at p0 t =
     bind_res (realpath t p0) (\<lambda>p.
       if p = [] then Inl eexist
       else bind_res (parent_dir p t) (\<lambda>_.
         if lookup p t \<noteq> None then Inl eexist else Inr (set_node p (Some (Dir [])) t)))"

definition rename_at :: "path \<Rightarrow> path \<Rightarrow> node \<Rightarrow> io_error + node" where
  "rename_at src0 dst0 t =
     bind_res (realpath t src0) (\<lambda>src.
     bind_res (realpath t dst0) (\<lambda>dst.
     bind_res (resolve src t) (\<lambda>n.
     bind_res (parent_dir dst t) (\<lambda>_.
       if src = dst then Inr t
       else if prefix src dst then Inl einval
       else if prefix dst src then Inl enotempty
       else (case (n, lookup dst t) of
               (File _, Some (Dir _)) \<Rightarrow> Inl eisdir
             | (Dir _, Some (File _)) \<Rightarrow> Inl enotdir
             | (Dir _, Some (Dir (e # es))) \<Rightarrow> Inl enotempty
             | _ \<Rightarrow> Inr (set_node dst (Some n) (set_node src None t)))))))"

definition unlink_at :: "path \<Rightarrow> node \<Rightarrow> io_error + node" where
  "unlink_at p0 t =
     bind_res (realpath t p0) (\<lambda>p.
     bind_res (resolve p t) (\<lambda>n.
       case n of File _ \<Rightarrow> Inr (set_node p None t) | Dir _ \<Rightarrow> Inl eisdir))"

definition rmdir_at :: "path \<Rightarrow> node \<Rightarrow> io_error + node" where
  "rmdir_at p0 t =
     bind_res (realpath t p0) (\<lambda>p.
     bind_res (resolve p t) (\<lambda>n.
       case n of File _ \<Rightarrow> Inl enotdir
       | Dir es \<Rightarrow> if es = [] \<and> p \<noteq> [] then Inr (set_node p None t) else Inl enotempty))"

definition rmtree_at :: "path \<Rightarrow> node \<Rightarrow> io_error + node" where
  "rmtree_at p0 t =
     bind_res (realpath t p0) (\<lambda>p.
     bind_res (resolve p t) (\<lambda>n.
       case n of File _ \<Rightarrow> Inl enotdir | Dir _ \<Rightarrow> if p = [] then Inl einval else Inr (set_node p None t)))"

section \<open>Worlds and fallible actions\<close>

record world =
  w_root :: node
  w_faults :: "io_error option list"
  w_draws :: nat

type_synonym ('e, 'a) act = "world \<Rightarrow> ('e + 'a) \<times> world"

definition ok :: "'a \<Rightarrow> ('e, 'a) act" where
  "ok x w = (Inr x, w)"

definition fail :: "'e \<Rightarrow> ('e, 'a) act" where
  "fail e w = (Inl e, w)"

text \<open>\<open>let x = m?; k\<close>.\<close>

definition bind_act :: "('e, 'a) act \<Rightarrow> ('a \<Rightarrow> ('e, 'b) act) \<Rightarrow> ('e, 'b) act" where
  "bind_act m k w = (case m w of (Inl e, w') \<Rightarrow> (Inl e, w') | (Inr x, w') \<Rightarrow> k x w')"

text \<open>\<open>m.map_err(f)?\<close>, the result as a value (\<open>match m\<close>) and \<open>let _ = m\<close>.\<close>

definition map_err_act :: "('e \<Rightarrow> 'f) \<Rightarrow> ('e, 'a) act \<Rightarrow> ('f, 'a) act" where
  "map_err_act f m w = (case m w of (Inl e, w') \<Rightarrow> (Inl (f e), w') | (Inr x, w') \<Rightarrow> (Inr x, w'))"

definition attempt :: "('e, 'a) act \<Rightarrow> ('f, 'e + 'a) act" where
  "attempt m w = (let (r, w') = m w in (Inr r, w'))"

definition ignore :: "('e, 'a) act \<Rightarrow> ('f, unit) act" where
  "ignore m w = (let (r, w') = m w in (Inr (), w'))"

definition lift_res :: "'e + 'a \<Rightarrow> ('e, 'a) act" where
  "lift_res r w = (r, w)"

text \<open>A loop over a list that returns early on an error.\<close>

fun for_each :: "'a list \<Rightarrow> ('a \<Rightarrow> ('e, unit) act) \<Rightarrow> ('e, unit) act" where
  "for_each [] f = ok ()"
| "for_each (x # xs) f = bind_act (f x) (\<lambda>_. for_each xs f)"

definition draw :: "(nat \<Rightarrow> 'a) \<Rightarrow> ('e, 'a) act" where
  "draw f w = (Inr (f (w_draws w)), w\<lparr>w_draws := Suc (w_draws w)\<rparr>)"

definition next_fault :: "world \<Rightarrow> io_error option" where
  "next_fault w = (case w_faults w of [] \<Rightarrow> None | f # _ \<Rightarrow> f)"

definition query :: "(node \<Rightarrow> io_error + 'a) \<Rightarrow> (io_error, 'a) act" where
  "query f w =
     (let w' = w\<lparr>w_faults := tl (w_faults w)\<rparr>
      in case next_fault w of Some e \<Rightarrow> (Inl e, w') | None \<Rightarrow> (f (w_root w), w'))"

definition change :: "(node \<Rightarrow> io_error + node) \<Rightarrow> (io_error, unit) act" where
  "change f w =
     (let w' = w\<lparr>w_faults := tl (w_faults w)\<rparr>
      in case next_fault w of
           Some e \<Rightarrow> (Inl e, w')
         | None \<Rightarrow> (case f (w_root w) of Inl e \<Rightarrow> (Inl e, w') | Inr t \<Rightarrow> (Inr (), w'\<lparr>w_root := t\<rparr>)))"

text \<open>\<open>try_exists\<close> is an error for anything but \<open>NotFound\<close>; \<open>metadata(..)\<close> and \<open>is_dir\<close>.\<close>

definition fs_try_exists :: "path \<Rightarrow> (io_error, bool) act" where
  "fs_try_exists p = query (\<lambda>t. case stat_at p t of
      Inr _ \<Rightarrow> Inr True | Inl e \<Rightarrow> if io_kind e = NotFoundKind then Inr False else Inl e)"

definition fs_is_dir :: "path \<Rightarrow> ('e, bool) act" where
  "fs_is_dir p w =
     (case query (stat_at p) w of
        (Inr (Dir _), w') \<Rightarrow> (Inr True, w') | (_, w') \<Rightarrow> (Inr False, w'))"

definition fs_read :: "path \<Rightarrow> (io_error, bytes) act" where "fs_read p = query (read_at p)"
definition fs_write :: "path \<Rightarrow> bytes \<Rightarrow> (io_error, unit) act" where "fs_write p data = change (write_at p data)"
definition fs_create_dir :: "path \<Rightarrow> (io_error, unit) act" where "fs_create_dir p = change (mkdir_at p)"
definition fs_create_dir_all :: "path \<Rightarrow> (io_error, unit) act" where
  "fs_create_dir_all p = change (\<lambda>t. bind_res (realpath t p) (\<lambda>q. mkdirs q t))"
definition fs_rename :: "path \<Rightarrow> path \<Rightarrow> (io_error, unit) act" where "fs_rename a b = change (rename_at a b)"
definition fs_remove_file :: "path \<Rightarrow> (io_error, unit) act" where "fs_remove_file p = change (unlink_at p)"
definition fs_remove_dir :: "path \<Rightarrow> (io_error, unit) act" where "fs_remove_dir p = change (rmdir_at p)"
definition fs_remove_dir_all :: "path \<Rightarrow> (io_error, unit) act" where "fs_remove_dir_all p = change (rmtree_at p)"

definition fs_copy :: "path \<Rightarrow> path \<Rightarrow> (io_error, unit) act" where
  "fs_copy a b = change (\<lambda>t. bind_res (read_at a t) (\<lambda>data. write_at b data t))"

definition fs_read_dir :: "path \<Rightarrow> (io_error, (string \<times> node) list) act" where
  "fs_read_dir p = query (\<lambda>t. bind_res (stat_at p t) (\<lambda>n. case n of File _ \<Rightarrow> Inl enotdir | Dir es \<Rightarrow> Inr es))"

text \<open>\<open>read_to_string\<close> refuses contents that are not UTF-8.\<close>

definition utf8_cont :: "u8 \<Rightarrow> bool" where
  "utf8_cont b \<longleftrightarrow> 0x80 \<le> b \<and> b \<le> 0xBF"

fun utf8_valid :: "bytes \<Rightarrow> bool" where
  "utf8_valid [] = True"
| "utf8_valid (a # bs) =
     (if a \<le> 0x7F then utf8_valid bs
      else (case bs of
        [] \<Rightarrow> False
      | b # bs1 \<Rightarrow>
          if 0xC2 \<le> a \<and> a \<le> 0xDF then utf8_cont b \<and> utf8_valid bs1
          else (case bs1 of
            [] \<Rightarrow> False
          | c # bs2 \<Rightarrow>
              if 0xE0 \<le> a \<and> a \<le> 0xEF
              then utf8_cont b \<and> utf8_cont c \<and> (a = 0xE0 \<longrightarrow> 0xA0 \<le> b) \<and> (a = 0xED \<longrightarrow> b \<le> 0x9F) \<and> utf8_valid bs2
              else (case bs2 of
                [] \<Rightarrow> False
              | d # bs3 \<Rightarrow>
                  0xF0 \<le> a \<and> a \<le> 0xF4 \<and> utf8_cont b \<and> utf8_cont c \<and> utf8_cont d
                  \<and> (a = 0xF0 \<longrightarrow> 0x90 \<le> b) \<and> (a = 0xF4 \<longrightarrow> b \<le> 0x8F) \<and> utf8_valid bs3))))"

definition not_utf8 :: io_error where
  "not_utf8 = \<lparr>io_kind = InvalidDataKind, io_msg = ''stream did not contain valid UTF-8''\<rparr>"

definition fs_read_to_string :: "path \<Rightarrow> (io_error, bytes) act" where
  "fs_read_to_string p = query (\<lambda>t. bind_res (read_at p t) (\<lambda>b. if utf8_valid b then Inr b else Inl not_utf8))"

text \<open>\<open>?\<close> on an I/O result inside a function that returns a storage error.\<close>

definition io :: "(io_error, 'a) act \<Rightarrow> (StorageError, 'a) act" where
  "io = map_err_act Io"

definition or_not_found :: "StorageError \<Rightarrow> (io_error, 'a) act \<Rightarrow> (StorageError, 'a) act" where
  "or_not_found e = map_err_act (\<lambda>err. if io_kind err = NotFoundKind then e else Io err)"

section \<open>Laws of the calls\<close>

abbreviation plain :: "path \<Rightarrow> bool" where
  "plain p \<equiv> ''..'' \<notin> set p"

lemma kind_simps [simp]:
  "io_kind enoent = NotFoundKind" "io_kind eexist = AlreadyExistsKind" "io_kind enotempty = DirectoryNotEmptyKind"
  "io_kind enotdir = OtherKind" "io_kind eisdir = OtherKind" "io_kind einval = OtherKind"
  by (simp_all add: enoent_def eexist_def enotempty_def enotdir_def eisdir_def einval_def io_other_def)

lemma stat_at_plain [fs_simps]: "plain p \<Longrightarrow> stat_at p t = resolve p t"
  by (simp add: stat_at_def realpath_def)

lemma stat_absent [fs_simps]:
  "plain p \<Longrightarrow> is_dir_at (butlast p) t \<Longrightarrow> p \<noteq> [] \<Longrightarrow> lookup p t = None \<Longrightarrow> stat_at p t = Inl enoent"
  by (simp add: stat_at_plain resolve_absent)

lemma parent_dir_ok: "p \<noteq> [] \<Longrightarrow> is_dir_at (butlast p) t \<Longrightarrow> \<exists>es. parent_dir p t = Inr es"
  by (auto simp: parent_dir_def is_dir_at_Dir resolve_lookup)

lemma read_at_File [fs_simps]: "plain p \<Longrightarrow> lookup p t = Some (File b) \<Longrightarrow> read_at p t = Inr b"
  by (simp add: read_at_def stat_at_plain resolve_lookup)

lemma read_at_absent [fs_simps]:
  "plain p \<Longrightarrow> is_dir_at (butlast p) t \<Longrightarrow> p \<noteq> [] \<Longrightarrow> lookup p t = None \<Longrightarrow> read_at p t = Inl enoent"
  by (simp add: read_at_def stat_absent)

lemma write_at_ok [fs_simps]:
  "plain p \<Longrightarrow> p \<noteq> [] \<Longrightarrow> is_dir_at (butlast p) t \<Longrightarrow> \<not> is_dir_at p t \<Longrightarrow>
     write_at p data t = Inr (set_node p (Some (File data)) t)"
  using parent_dir_ok [of p t] by (auto simp: write_at_def realpath_def)

lemma rename_at_ok [fs_simps]:
  assumes "plain a" "plain b" "lookup a t = Some n" "is_dir_at (butlast b) t" "apart a b" "lookup b t = None"
  shows "rename_at a b t = Inr (set_node b (Some n) (set_node a None t))"
proof -
  have "b \<noteq> []" using assms(5) by (auto simp: apart_def)
  from parent_dir_ok [OF this assms(4)] assms show ?thesis
    by (auto simp: rename_at_def realpath_def resolve_lookup apart_def split: node.splits)
qed

lemma unlink_at_ok [fs_simps]: "plain p \<Longrightarrow> lookup p t = Some (File b) \<Longrightarrow> unlink_at p t = Inr (set_node p None t)"
  by (simp add: unlink_at_def realpath_def resolve_lookup)

lemma rmtree_at_ok [fs_simps]:
  "plain p \<Longrightarrow> p \<noteq> [] \<Longrightarrow> lookup p t = Some (Dir es) \<Longrightarrow> rmtree_at p t = Inr (set_node p None t)"
  by (simp add: rmtree_at_def realpath_def resolve_lookup)

lemma mkdirs_existing: "is_dir_at p t \<Longrightarrow> mkdirs p t = Inr t"
  by (induction p t rule: mkdirs.induct)
     (auto simp: is_dir_at_Dir lookup_Cons update_same split: option.splits)

text \<open>No component of \<open>p\<close> is a file.\<close>

definition no_file_on :: "path \<Rightarrow> node \<Rightarrow> bool" where
  "no_file_on p t \<longleftrightarrow> (\<forall>q b. prefix q p \<longrightarrow> lookup q t \<noteq> Some (File b))"

lemma mkdirs_Inr: "mkdirs p t = Inr t' \<Longrightarrow> is_dir_at p t'"
  by (induction p t arbitrary: t' rule: mkdirs.induct)
     (auto simp: is_dir_at_Dir lookup_Cons update_conv' bind_res_Inr)

lemma mkdirs_ok: "no_file_on p t \<Longrightarrow> \<exists>t'. mkdirs p t = Inr t'"
proof (induction p t rule: mkdirs.induct)
  case (4 s p es)
  have "no_file_on p (case map_of es s of None \<Rightarrow> Dir [] | Some n \<Rightarrow> n)"
  proof (cases "map_of es s")
    case None
    then show ?thesis by (auto simp: no_file_on_def lookup_def elim: resolve.elims split: sum.splits)
  next
    case (Some n)
    have "lookup q n \<noteq> Some (File b)" if "prefix q p" for q b
    proof -
      have "prefix (s # q) (s # p)" using that by simp
      with 4(2) have "lookup (s # q) (Dir es) \<noteq> Some (File b)" by (auto simp: no_file_on_def)
      with Some show ?thesis by (simp add: lookup_Cons)
    qed
    with Some show ?thesis by (simp add: no_file_on_def)
  qed
  with 4(1) show ?case by auto
qed (auto simp: no_file_on_def dest: spec [of _ "[]"])

lemma mkdirs_keeps: "mkdirs p t = Inr t' \<Longrightarrow> \<not> prefix q p \<Longrightarrow> lookup q t' = lookup q t"
proof (induction p t arbitrary: t' q rule: mkdirs.induct)
  case (4 s p es)
  from 4(2) obtain n where n: "mkdirs p (case map_of es s of None \<Rightarrow> Dir [] | Some n \<Rightarrow> n) = Inr n"
    "t' = Dir (AList.update s n es)" by (auto simp: bind_res_Inr)
  obtain a r where q: "q = a # r" using 4(3) by (cases q) auto
  show ?case
  proof (cases "a = s")
    case True
    with 4(3) q have "\<not> prefix r p" "r \<noteq> []" by auto
    from 4(1) [OF n(1) this(1)] this(2) True q n(2) show ?thesis
      by (cases r) (auto simp: lookup_Cons update_conv' split: option.splits)
  qed (simp add: q n(2) lookup_Cons update_conv')
qed auto

lemma mkdirs_keeps_dirs: "mkdirs p t = Inr t' \<Longrightarrow> is_dir_at q t \<Longrightarrow> is_dir_at q t'"
proof (cases "prefix q p")
  case True
  assume "mkdirs p t = Inr t'"
  from mkdirs_Inr [OF this] True show ?thesis by (auto simp: prefix_def intro: is_dir_at_prefix)
qed (simp add: is_dir_at_def mkdirs_keeps)

lemma mkdirs_keeps_files: "mkdirs p t = Inr t' \<Longrightarrow> lookup q t = Some (File b) \<Longrightarrow> lookup q t' = Some (File b)"
proof (cases "prefix q p")
  case True
  assume a: "mkdirs p t = Inr t'" "lookup q t = Some (File b)"
  from True obtain r where "p = q @ r" by (auto simp: prefix_def)
  with a have False
  proof (induction q arbitrary: p t t')
    case Nil
    then show ?case by (cases r) auto
  next
    case (Cons s q)
    then show ?case by (cases t) (auto simp: lookup_Cons bind_res_Inr split: option.splits)
  qed
  then show ?thesis ..
qed (simp add: mkdirs_keeps)

subsection \<open>Actions\<close>

lemmas act_defs = ok_def fail_def bind_act_def map_err_act_def attempt_def ignore_def lift_res_def draw_def io_def or_not_found_def

lemma bind_act_simps [simp]:
  "bind_act (lift_res (Inr x)) k = k x" "bind_act (lift_res (Inl e)) k = fail e"
  "bind_act (ok x) k = k x" "bind_act (fail e) k = fail e"
  by (simp_all add: fun_eq_iff act_defs)

lemma bind_act_ok: "m w = (Inr x, w') \<Longrightarrow> bind_act m f w = f x w'"
  by (simp add: bind_act_def)

lemma bind_act_err: "m w = (Inl e, w') \<Longrightarrow> bind_act m f w = (Inl e, w')"
  by (simp add: bind_act_def)

lemma query_quiet [fs_simps]: "w_faults w = [] \<Longrightarrow> query f w = (f (w_root w), w)"
  by (simp add: query_def next_fault_def Let_def)

lemma change_quiet [fs_simps]:
  "w_faults w = [] \<Longrightarrow> change f w = (case f (w_root w) of Inl e \<Rightarrow> (Inl e, w) | Inr t \<Rightarrow> (Inr (), w\<lparr>w_root := t\<rparr>))"
  by (simp add: change_def next_fault_def Let_def split: sum.splits)

lemma query_root: "query f w = (r, w') \<Longrightarrow> w_root w' = w_root w \<and> w_draws w' = w_draws w"
  by (auto simp: query_def Let_def split: option.splits)

end
