(* ===== verification/Publish.thy ===== *)
theory Publish
  imports FileSys
begin

text \<open>
  Publishing a finished upload (\<open>common.rs\<close>): temporary names beside the target, the backup
  of what is being replaced, the two renames that install payload and metadata, and the
  rollback. Every path involved lies in one directory, the one of the object.
\<close>

section \<open>The code\<close>

text \<open>\<open>temp_sibling_path\<close>; \<open>uuid n\<close> is the identifier the \<open>n\<close>-th draw gives.\<close>

definition tmp_name :: "string \<Rightarrow> string" where
  "tmp_name u = ''.maxio-tmp-'' @ u"

definition temp_sibling_path :: "(nat \<Rightarrow> string) \<Rightarrow> path \<Rightarrow> ('e, path) act" where
  "temp_sibling_path uuid p = draw (\<lambda>n. butlast p @ [tmp_name (uuid n)])"

definition remove_path_if_exists :: "path \<Rightarrow> bool \<Rightarrow> (StorageError, unit) act" where
  "remove_path_if_exists p is_dir = (if is_dir then ignore (fs_remove_dir_all p) else ignore (fs_remove_file p))"

definition backup_existing :: "(nat \<Rightarrow> string) \<Rightarrow> path \<Rightarrow> (StorageError, path option) act" where
  "backup_existing uuid p =
     bind_act (io (fs_try_exists p)) (\<lambda>b.
       if \<not> b then ok None
       else bind_act (temp_sibling_path uuid p) (\<lambda>backup.
            bind_act (io (fs_rename p backup)) (\<lambda>_. ok (Some backup))))"

definition restore_backup :: "path \<Rightarrow> path option \<Rightarrow> bool \<Rightarrow> (StorageError, unit) act" where
  "restore_backup final_path backup is_dir =
     (case backup of
        Some backup \<Rightarrow> bind_act (remove_path_if_exists final_path is_dir) (\<lambda>_. ignore (fs_rename backup final_path))
      | None \<Rightarrow> ok ())"

definition cleanup_backup :: "path option \<Rightarrow> bool \<Rightarrow> (StorageError, unit) act" where
  "cleanup_backup backup is_dir =
     (case backup of Some backup \<Rightarrow> remove_path_if_exists backup is_dir | None \<Rightarrow> ok ())"

definition create_parent :: "path \<Rightarrow> (StorageError, unit) act" where
  "create_parent p = (if p = [] then ok () else io (fs_create_dir_all (butlast p)))"

text \<open>The part after the backups, and the whole function.\<close>

definition publish_install ::
  "path \<Rightarrow> path \<Rightarrow> bool \<Rightarrow> path \<Rightarrow> path \<Rightarrow> path option \<Rightarrow> path option \<Rightarrow> (StorageError, unit) act" where
  "publish_install tmp_payload final_payload payload_is_dir tmp_meta final_meta payload_backup meta_backup =
     bind_act (attempt (fs_rename tmp_payload final_payload)) (\<lambda>r.
       case r of
         Inl e \<Rightarrow>
           bind_act (restore_backup final_meta meta_backup False) (\<lambda>_.
           bind_act (restore_backup final_payload payload_backup payload_is_dir) (\<lambda>_. fail (Io e)))
       | Inr _ \<Rightarrow>
     bind_act (attempt (fs_rename tmp_meta final_meta)) (\<lambda>r.
       case r of
         Inl e \<Rightarrow>
           bind_act (remove_path_if_exists final_payload payload_is_dir) (\<lambda>_.
           bind_act (restore_backup final_meta meta_backup False) (\<lambda>_.
           bind_act (restore_backup final_payload payload_backup payload_is_dir) (\<lambda>_. fail (Io e))))
       | Inr _ \<Rightarrow>
           bind_act (cleanup_backup payload_backup payload_is_dir) (\<lambda>_.
           cleanup_backup meta_backup False)))"

definition publish_temp_payload_and_meta ::
  "(nat \<Rightarrow> string) \<Rightarrow> path \<Rightarrow> path \<Rightarrow> bool \<Rightarrow> path \<Rightarrow> path \<Rightarrow> (StorageError, unit) act" where
  "publish_temp_payload_and_meta uuid tmp_payload final_payload payload_is_dir tmp_meta final_meta =
     bind_act (create_parent final_payload) (\<lambda>_.
     bind_act (create_parent final_meta) (\<lambda>_.
     bind_act (backup_existing uuid final_payload) (\<lambda>payload_backup.
     bind_act (backup_existing uuid final_meta) (\<lambda>meta_backup.
       publish_install tmp_payload final_payload payload_is_dir tmp_meta final_meta payload_backup meta_backup))))"

definition remove_file_if_exists :: "path \<Rightarrow> (StorageError, unit) act" where
  "remove_file_if_exists p =
     bind_act (attempt (fs_remove_file p)) (\<lambda>r.
       case r of Inr _ \<Rightarrow> ok () | Inl e \<Rightarrow> if io_kind e = NotFoundKind then ok () else fail (Io e))"

definition remove_dir_all_if_exists :: "path \<Rightarrow> (StorageError, unit) act" where
  "remove_dir_all_if_exists p =
     bind_act (attempt (fs_remove_dir_all p)) (\<lambda>r.
       case r of Inr _ \<Rightarrow> ok () | Inl e \<Rightarrow> if io_kind e = NotFoundKind then ok () else fail (Io e))"

text \<open>\<open>TempPathGuard\<close>: a guard that is dropped while armed removes its path.\<close>

definition with_guard :: "path \<Rightarrow> bool \<Rightarrow> (StorageError, 'a) act \<Rightarrow> (StorageError, 'a) act" where
  "with_guard p is_dir body w =
     (case body w of
        (Inr x, w') \<Rightarrow> (Inr x, w')
      | (Inl e, w') \<Rightarrow> (case remove_path_if_exists p is_dir w' of (_, w'') \<Rightarrow> (Inl e, w'')))"

section \<open>One directory\<close>

abbreviation view :: "path \<Rightarrow> node \<Rightarrow> string \<Rightarrow> node option" where
  "view d t x \<equiv> lookup (d @ [x]) t"

lemma view_set [simp]:
  "is_dir_at d t \<Longrightarrow> view d (set_node (d @ [y]) v t) x = (if x = y then v else view d t x)"
  by (auto simp: lookup_set_same lookup_set_apart apart_sym)

lemma dir_set [simp]: "is_dir_at d t \<Longrightarrow> is_dir_at d (set_node (d @ [y]) v t)"
  by (rule is_dir_at_set_above) simp_all

definition mv :: "path \<Rightarrow> string \<Rightarrow> string \<Rightarrow> node \<Rightarrow> node" where
  "mv d x y t = set_node (d @ [y]) (view d t x) (set_node (d @ [x]) None t)"

lemma view_mv [simp]:
  "is_dir_at d t \<Longrightarrow> x \<noteq> y \<Longrightarrow> view d (mv d x y t) z = (if z = y then view d t x else if z = x then None else view d t z)"
  by (simp add: mv_def)

lemma dir_mv [simp]: "is_dir_at d t \<Longrightarrow> is_dir_at d (mv d x y t)"
  by (simp add: mv_def)

text \<open>All changes stay inside the entries \<open>xs\<close> of \<open>d\<close>.\<close>

definition within :: "path \<Rightarrow> string set \<Rightarrow> node \<Rightarrow> node \<Rightarrow> bool" where
  "within d xs t t' \<longleftrightarrow> is_dir_at d t' \<and> (\<forall>q. (\<forall>x\<in>xs. apart (d @ [x]) q) \<longrightarrow> lookup q t' = lookup q t)"

lemma within_refl: "is_dir_at d t \<Longrightarrow> within d xs t t"
  by (simp add: within_def)

lemma within_trans: "within d xs t u \<Longrightarrow> within d xs u v \<Longrightarrow> within d xs t v"
  by (simp add: within_def)

lemma within_set: "within d xs t u \<Longrightarrow> x \<in> xs \<Longrightarrow> within d xs t (set_node (d @ [x]) v u)"
  by (simp add: within_def lookup_set_apart)

lemma within_mv: "within d xs t u \<Longrightarrow> x \<in> xs \<Longrightarrow> y \<in> xs \<Longrightarrow> within d xs t (mv d x y u)"
  by (simp add: mv_def within_set)

section \<open>Faults\<close>

definition quiet :: "world \<Rightarrow> bool" where
  "quiet w \<longleftrightarrow> (\<forall>f \<in> set (w_faults w). f = None)"

definition one_fault :: "world \<Rightarrow> bool" where
  "one_fault w \<longleftrightarrow> length (filter (\<lambda>f. f \<noteq> None) (w_faults w)) \<le> 1"

definition step_world :: "world \<Rightarrow> world" where
  "step_world w = w\<lparr>w_faults := tl (w_faults w)\<rparr>"

lemma step_world_simps [simp]:
  "w_root (step_world w) = w_root w" "w_draws (step_world w) = w_draws w"
  "w_root (step_world (w\<lparr>w_root := t\<rparr>)) = t" "next_fault (w\<lparr>w_root := t\<rparr>) = next_fault w"
  "step_world (w\<lparr>w_root := t\<rparr>) = (step_world w)\<lparr>w_root := t\<rparr>"
  "step_world (w\<lparr>w_draws := n\<rparr>) = (step_world w)\<lparr>w_draws := n\<rparr>"
  "next_fault (w\<lparr>w_draws := n\<rparr>) = next_fault w"
  "quiet (w\<lparr>w_root := t\<rparr>) = quiet w" "quiet (w\<lparr>w_draws := n\<rparr>) = quiet w"
  "one_fault (w\<lparr>w_root := t\<rparr>) = one_fault w" "one_fault (w\<lparr>w_draws := n\<rparr>) = one_fault w"
  by (simp_all add: step_world_def next_fault_def quiet_def one_fault_def)

lemma quiet_next [simp]: "quiet w \<Longrightarrow> next_fault w = None"
  by (auto simp: quiet_def next_fault_def split: list.splits)

lemma quiet_step [simp]: "quiet w \<Longrightarrow> quiet (step_world w)"
  by (cases "w_faults w") (simp_all add: quiet_def step_world_def)

lemma quiet_one_fault [simp]: "quiet w \<Longrightarrow> one_fault w"
  by (auto simp: quiet_def one_fault_def filter_empty_conv)

lemma one_fault_step [simp]: "one_fault w \<Longrightarrow> one_fault (step_world w)"
  by (cases "w_faults w") (auto simp: one_fault_def step_world_def split: if_splits)

lemma one_fault_used: "one_fault w \<Longrightarrow> next_fault w = Some e \<Longrightarrow> quiet (step_world w)"
  by (auto simp: one_fault_def next_fault_def step_world_def quiet_def filter_empty_conv split: list.splits)

lemma change_step: "change f w =
   (case next_fault w of Some e \<Rightarrow> (Inl e, step_world w)
    | None \<Rightarrow> (case f (w_root w) of Inl e \<Rightarrow> (Inl e, step_world w) | Inr t \<Rightarrow> (Inr (), (step_world w)\<lparr>w_root := t\<rparr>)))"
  unfolding change_def step_world_def Let_def ..

lemma query_step: "query f w =
   (case next_fault w of Some e \<Rightarrow> (Inl e, step_world w) | None \<Rightarrow> (f (w_root w), step_world w))"
  unfolding query_def step_world_def Let_def ..

section \<open>The calls in the directory of the object\<close>

lemma rename_in:
  assumes "is_dir_at d (w_root w)" "plain (d @ [x, y])" "x \<noteq> y" "view d (w_root w) y = None"
  shows "fs_rename (d @ [x]) (d @ [y]) w =
    (case next_fault w of
       Some e \<Rightarrow> (Inl e, step_world w)
     | None \<Rightarrow> if view d (w_root w) x = None then (Inl enoent, step_world w)
               else (Inr (), (step_world w)\<lparr>w_root := mv d x y (w_root w)\<rparr>))"
proof (cases "view d (w_root w) x")
  case None
  with assms have "rename_at (d @ [x]) (d @ [y]) (w_root w) = Inl enoent"
    by (simp add: rename_at_def realpath_def resolve_absent)
  with None show ?thesis by (simp add: fs_rename_def change_step split: option.split)
next
  case (Some n)
  with assms have "rename_at (d @ [x]) (d @ [y]) (w_root w) = Inr (mv d x y (w_root w))"
    by (simp add: rename_at_ok mv_def)
  with Some show ?thesis by (simp add: fs_rename_def change_step split: option.split)
qed

lemma exists_in:
  assumes "is_dir_at d (w_root w)" "plain (d @ [x])"
  shows "fs_try_exists (d @ [x]) w =
    (case next_fault w of Some e \<Rightarrow> (Inl e, step_world w) | None \<Rightarrow> (Inr (view d (w_root w) x \<noteq> None), step_world w))"
proof (cases "view d (w_root w) x")
  case None
  with assms show ?thesis
    by (simp add: fs_try_exists_def query_step stat_absent split: option.split)
next
  case (Some n)
  with assms show ?thesis
    by (simp add: fs_try_exists_def query_step stat_at_plain resolve_lookup split: option.split)
qed

text \<open>Removing an entry whose kind is known, or that is absent, always returns.\<close>

definition has_kind :: "bool \<Rightarrow> node option \<Rightarrow> bool" where
  "has_kind is_dir n \<longleftrightarrow> (case n of None \<Rightarrow> True | Some (File _) \<Rightarrow> \<not> is_dir | Some (Dir _) \<Rightarrow> is_dir)"

lemma remove_in:
  assumes "is_dir_at d (w_root w)" "plain (d @ [x])"
  shows "\<exists>w'. remove_path_if_exists (d @ [x]) k w = (Inr (), w')
    \<and> (w_root w' = w_root w \<or> w_root w' = set_node (d @ [x]) None (w_root w))
    \<and> (one_fault w \<longrightarrow> one_fault w')
    \<and> (quiet w \<longrightarrow> quiet w' \<and> (has_kind k (view d (w_root w) x) \<longrightarrow> view d (w_root w') x = None))"
proof (cases "next_fault w")
  case None
  have un: "unlink_at (d @ [x]) (w_root w) =
      (case view d (w_root w) x of Some (File _) \<Rightarrow> Inr (set_node (d @ [x]) None (w_root w))
         | Some (Dir _) \<Rightarrow> Inl eisdir | None \<Rightarrow> Inl enoent)"
    using assms by (auto simp: unlink_at_def realpath_def resolve_lookup resolve_absent split: option.splits node.splits)
  have rm: "rmtree_at (d @ [x]) (w_root w) =
      (case view d (w_root w) x of Some (Dir _) \<Rightarrow> Inr (set_node (d @ [x]) None (w_root w))
         | Some (File _) \<Rightarrow> Inl enotdir | None \<Rightarrow> Inl enoent)"
    using assms by (auto simp: rmtree_at_def realpath_def resolve_lookup resolve_absent split: option.splits node.splits)
  from None assms un rm show ?thesis
    by (auto simp: remove_path_if_exists_def ignore_def fs_remove_file_def fs_remove_dir_all_def change_step
        has_kind_def Let_def split: option.splits node.splits)
qed (auto simp: remove_path_if_exists_def ignore_def fs_remove_file_def fs_remove_dir_all_def change_step)

lemma create_parent_in:
  assumes "is_dir_at d (w_root w)" "plain d"
  shows "create_parent (d @ [x]) w =
    (case next_fault w of Some e \<Rightarrow> (Inl (Io e), step_world w) | None \<Rightarrow> (Inr (), (step_world w)))"
  using assms
  by (auto simp: create_parent_def io_def map_err_act_def fs_create_dir_all_def change_step realpath_def
      mkdirs_existing step_world_def split: option.splits)

lemma backup_in:
  fixes uuid x w
  defines "b \<equiv> tmp_name (uuid (w_draws w))"
  assumes "is_dir_at d (w_root w)" "plain (d @ [x, b])" "x \<noteq> b" "view d (w_root w) b = None" "one_fault w"
  obtains (fault) e w' where "backup_existing uuid (d @ [x]) w = (Inl e, w')" "w_root w' = w_root w"
      "quiet w'" "\<not> quiet w"
    | (absent) w' where "backup_existing uuid (d @ [x]) w = (Inr None, w')" "w_root w' = w_root w"
      "view d (w_root w) x = None" "w_draws w' = w_draws w" "one_fault w'" "quiet w \<longrightarrow> quiet w'"
    | (moved) w' where "backup_existing uuid (d @ [x]) w = (Inr (Some (d @ [b])), w')"
      "w_root w' = mv d x b (w_root w)" "view d (w_root w) x \<noteq> None" "w_draws w' = Suc (w_draws w)"
      "one_fault w'" "quiet w \<longrightarrow> quiet w'"
proof (cases "next_fault w")
  case (Some e)
  have "backup_existing uuid (d @ [x]) w = (Inl (Io e), step_world w)"
    using assms Some by (simp add: backup_existing_def act_defs exists_in)
  with fault [OF this] Some one_fault_used [OF assms(6) Some] quiet_next show ?thesis by fastforce
next
  case None
  have ex: "fs_try_exists (d @ [x]) w = (Inr (view d (w_root w) x \<noteq> None), step_world w)"
    using assms None by (simp add: exists_in)
  show ?thesis
  proof (cases "view d (w_root w) x")
    case None
    with ex have "backup_existing uuid (d @ [x]) w = (Inr None, step_world w)"
      by (simp add: backup_existing_def act_defs)
    from absent [OF this] None assms(6) show ?thesis by simp
  next
    case (Some n)
    define w1 where "w1 = (step_world w)\<lparr>w_draws := Suc (w_draws w)\<rparr>"
    have w1: "w_root w1 = w_root w" "one_fault w1" "quiet w \<longrightarrow> quiet w1" "w_draws w1 = Suc (w_draws w)"
      using assms(6) by (simp_all add: w1_def)
    have run: "backup_existing uuid (d @ [x]) w =
        (case fs_rename (d @ [x]) (d @ [b]) w1 of (Inl e, w') \<Rightarrow> (Inl (Io e), w') | (Inr _, w') \<Rightarrow> (Inr (Some (d @ [b])), w'))"
      using ex Some by (simp add: backup_existing_def act_defs temp_sibling_path_def b_def w1_def split: prod.split sum.split)
    have re: "fs_rename (d @ [x]) (d @ [b]) w1 =
        (case next_fault w1 of Some e \<Rightarrow> (Inl e, step_world w1)
         | None \<Rightarrow> (Inr (), (step_world w1)\<lparr>w_root := mv d x b (w_root w)\<rparr>))"
      using assms Some w1 by (subst rename_in) (auto split: option.split)
    show ?thesis
    proof (cases "next_fault w1")
      case None
      from moved [of "(step_world w1)\<lparr>w_root := mv d x b (w_root w)\<rparr>"] run re None w1 Some show ?thesis by simp
    next
      case (Some e)
      from fault [of "Io e" "step_world w1"] run re Some w1 one_fault_used [OF w1(2) Some] quiet_next [of w1]
      show ?thesis by force
    qed
  qed
qed

lemma restore_in:
  assumes "is_dir_at d (w_root w)" "plain (d @ [x, b])" "x \<noteq> b" "quiet w" "view d (w_root w) x = None"
    and "view d (w_root w) b \<noteq> None"
  shows "\<exists>w'. restore_backup (d @ [x]) (Some (d @ [b])) k w = (Inr (), w') \<and> quiet w' \<and> is_dir_at d (w_root w')
    \<and> within d {x, b} (w_root w) (w_root w')
    \<and> (\<forall>z. view d (w_root w') z = view d (mv d b x (w_root w)) z)"
proof -
  obtain w1 where w1: "remove_path_if_exists (d @ [x]) k w = (Inr (), w1)" "quiet w1"
    "w_root w1 = w_root w \<or> w_root w1 = set_node (d @ [x]) None (w_root w)"
    using remove_in [of d w x k] assms by auto
  have d1: "is_dir_at d (w_root w1)" and v1: "\<And>z. view d (w_root w1) z = view d (w_root w) z"
    using w1(3) assms by (auto)
  have "fs_rename (d @ [b]) (d @ [x]) w1 = (Inr (), (step_world w1)\<lparr>w_root := mv d b x (w_root w1)\<rparr>)"
    using assms d1 v1 w1(2) by (subst rename_in) auto
  with w1 have "restore_backup (d @ [x]) (Some (d @ [b])) k w = (Inr (), (step_world w1)\<lparr>w_root := mv d b x (w_root w1)\<rparr>)"
    by (simp add: restore_backup_def act_defs)
  moreover have "within d {x, b} (w_root w) (mv d b x (w_root w1))"
    using w1(3) assms(1) by (auto intro!: within_mv within_set within_refl)
  ultimately show ?thesis using w1(2) d1 v1 assms(1,3) by auto
qed

text \<open>Restoring from an optional backup of \<open>x\<close>: the entry is what it was when the backup was made.\<close>

lemma restore_opt_in:
  assumes "is_dir_at d (w_root w)" "plain (d @ [x, b])" "x \<noteq> b" "quiet w" "view d (w_root w) x = None"
    and "bk = (if old = None then None else Some (d @ [b]))" "old \<noteq> None \<longrightarrow> view d (w_root w) b = old"
  shows "\<exists>w'. restore_backup (d @ [x]) bk k w = (Inr (), w') \<and> quiet w' \<and> within d {x, b} (w_root w) (w_root w')
    \<and> view d (w_root w') x = old \<and> (\<forall>z. z \<noteq> x \<and> z \<noteq> b \<longrightarrow> view d (w_root w') z = view d (w_root w) z)"
proof (cases old)
  case None
  with assms show ?thesis by (auto simp: restore_backup_def ok_def within_refl)
next
  case (Some n)
  with assms restore_in [of d w x b k] show ?thesis by auto
qed

lemma remove_clears:
  assumes "is_dir_at d (w_root w)" "plain (d @ [x])" "quiet w" "has_kind k (view d (w_root w) x)"
  shows "\<exists>w'. remove_path_if_exists (d @ [x]) k w = (Inr (), w') \<and> quiet w' \<and> within d {x} (w_root w) (w_root w')
    \<and> (\<forall>z. view d (w_root w') z = (if z = x then None else view d (w_root w) z))"
proof -
  obtain w' where w': "remove_path_if_exists (d @ [x]) k w = (Inr (), w')" "quiet w'"
    "w_root w' = w_root w \<or> w_root w' = set_node (d @ [x]) None (w_root w)" "view d (w_root w') x = None"
    using remove_in [OF assms(1,2), of k] assms(3,4) by auto
  from w'(3,4) assms(1) have "within d {x} (w_root w) (w_root w')"
    "\<forall>z. view d (w_root w') z = (if z = x then None else view d (w_root w) z)"
    by (auto simp: within_refl within_set)
  with w' show ?thesis by blast
qed

lemma cleanup_in:
  assumes "is_dir_at d (w_root w)" "bk \<noteq> None \<longrightarrow> bk = Some (d @ [b]) \<and> plain (d @ [b])"
  shows "\<exists>w'. cleanup_backup bk k w = (Inr (), w') \<and> is_dir_at d (w_root w') \<and> within d {b} (w_root w) (w_root w')
    \<and> (\<forall>z. z \<noteq> b \<longrightarrow> view d (w_root w') z = view d (w_root w) z) \<and> (quiet w \<longrightarrow> quiet w')"
proof (cases bk)
  case None
  with assms show ?thesis by (auto simp: cleanup_backup_def ok_def within_refl)
next
  case (Some p)
  with assms(2) have p: "p = d @ [b]" "plain (d @ [b])" by auto
  obtain w' where "remove_path_if_exists (d @ [b]) k w = (Inr (), w')"
    "w_root w' = w_root w \<or> w_root w' = set_node (d @ [b]) None (w_root w)" "quiet w \<longrightarrow> quiet w'"
    using remove_in [OF assms(1) p(2), of k] by blast
  with Some p assms(1) show ?thesis by (auto simp: cleanup_backup_def within_refl within_set)
qed

section \<open>Installing payload and metadata\<close>

lemma bind_act_Inr: "m w = (Inr x, w') \<Longrightarrow> bind_act m k w = k x w'"
  by (simp add: bind_act_def)

lemma within_mono: "within d xs t u \<Longrightarrow> xs \<subseteq> ys \<Longrightarrow> within d ys t u"
  by (auto simp: within_def)

text \<open>Both rollback paths restore the two entries once nothing else fails.\<close>

lemma rollback_in:
  fixes oldp oldm :: "node option"
  defines "pbk b \<equiv> (if oldp = None then None else Some b)" and "mbk b \<equiv> (if oldm = None then None else Some b)"
  assumes "is_dir_at d (w_root w)" "plain d" "''..'' \<notin> {fp, fm, b1, b2}" "distinct [fp, fm, b1, b2]" "quiet w"
    and "view d (w_root w) fp = None" "view d (w_root w) fm = None"
    and "oldp \<noteq> None \<longrightarrow> view d (w_root w) b1 = oldp" "oldm \<noteq> None \<longrightarrow> view d (w_root w) b2 = oldm"
  shows "\<exists>w'. bind_act (restore_backup (d @ [fm]) (mbk (d @ [b2])) False)
       (\<lambda>_. bind_act (restore_backup (d @ [fp]) (pbk (d @ [b1])) k) (\<lambda>_. fail (Io e))) w = (Inl (Io e) :: StorageError + unit, w')
     \<and> within d {fp, fm, b1, b2} (w_root w) (w_root w') \<and> view d (w_root w') fp = oldp \<and> view d (w_root w') fm = oldm"
proof -
  obtain w1 where w1: "restore_backup (d @ [fm]) (mbk (d @ [b2])) False w = (Inr (), w1)" "quiet w1"
    "within d {fm, b2} (w_root w) (w_root w1)" "view d (w_root w1) fm = oldm"
    "\<forall>z. z \<noteq> fm \<and> z \<noteq> b2 \<longrightarrow> view d (w_root w1) z = view d (w_root w) z"
    using restore_opt_in [of d w fm b2 "mbk (d @ [b2])" oldm False] assms by (auto simp: mbk_def)
  have v1: "view d (w_root w1) fp = None" "oldp \<noteq> None \<longrightarrow> view d (w_root w1) b1 = oldp"
    using assms w1(5) by (auto simp: )
  obtain w2 where w2: "restore_backup (d @ [fp]) (pbk (d @ [b1])) k w1 = (Inr (), w2)" "quiet w2"
    "within d {fp, b1} (w_root w1) (w_root w2)" "view d (w_root w2) fp = oldp"
    "\<forall>z. z \<noteq> fp \<and> z \<noteq> b1 \<longrightarrow> view d (w_root w2) z = view d (w_root w1) z"
    using restore_opt_in [of d w1 fp b1 "pbk (d @ [b1])" oldp k] assms v1 w1(2,3) by (auto simp: pbk_def within_def)
  have "within d {fp, fm, b1, b2} (w_root w) (w_root w2)"
    by (rule within_trans [OF within_mono [OF w1(3)] within_mono [OF w2(3)]]) auto
  with w1 w2 assms(6) show ?thesis by (auto simp: bind_act_Inr fail_def)
qed

text \<open>The payload \<open>p\<close> and the metadata file \<open>m\<close> are ready under the temporary names \<open>tp\<close> and \<open>tm\<close>.\<close>

definition staged :: "path \<Rightarrow> string \<Rightarrow> string \<Rightarrow> string \<Rightarrow> string \<Rightarrow> bool \<Rightarrow> node \<Rightarrow> bytes \<Rightarrow> node \<Rightarrow> bool" where
  "staged d fp fm tp tm k p m t \<longleftrightarrow>
     is_dir_at d t \<and> ''..'' \<notin> set d \<union> {fp, fm, tp, tm} \<and> distinct [fp, fm, tp, tm]
     \<and> view d t tp = Some p \<and> has_kind k (Some p) \<and> view d t tm = Some (File m)"

lemma rename_free:
  assumes "is_dir_at d (w_root w)" "plain (d @ [x, y])" "x \<noteq> y" "view d (w_root w) y = None" "view d (w_root w) x = Some n"
    and "one_fault w"
  obtains (fault) e where "attempt (fs_rename (d @ [x]) (d @ [y])) w = (Inr (Inl e) :: StorageError + _, step_world w)" "quiet (step_world w)" "\<not> quiet w"
    | (moved) "attempt (fs_rename (d @ [x]) (d @ [y])) w = (Inr (Inr ()) :: StorageError + _, (step_world w)\<lparr>w_root := mv d x y (w_root w)\<rparr>)"
proof (cases "next_fault w")
  case None
  with assms rename_in [OF assms(1-4)] moved show ?thesis by (simp add: attempt_def)
next
  case (Some e)
  have "\<not> quiet w" using Some quiet_next by fastforce
  with Some assms rename_in [OF assms(1-4)] fault [of e] one_fault_used show ?thesis by (simp add: attempt_def)
qed

lemma install_outcomes:
  fixes oldp oldm :: "node option"
  defines "pb b \<equiv> (if oldp = None then None else Some b)" and "mb b \<equiv> (if oldm = None then None else Some b)"
  assumes st: "staged d fp fm tp tm k p m (w_root w)"
    and names: "''..'' \<notin> {b1, b2}" "distinct [fp, fm, tp, tm, b1, b2]" and "one_fault w"
    and "view d (w_root w) fp = None" "view d (w_root w) fm = None"
    and "oldp \<noteq> None \<longrightarrow> view d (w_root w) b1 = oldp" "oldm \<noteq> None \<longrightarrow> view d (w_root w) b2 = oldm"
  shows "\<exists>r w'. publish_install (d @ [tp]) (d @ [fp]) k (d @ [tm]) (d @ [fm]) (pb (d @ [b1])) (mb (d @ [b2])) w = (r, w')
     \<and> within d {fp, fm, tp, tm, b1, b2} (w_root w) (w_root w')
     \<and> (if r = Inr () then view d (w_root w') fp = Some p \<and> view d (w_root w') fm = Some (File m)
        else \<not> quiet w \<and> view d (w_root w') fp = oldp \<and> view d (w_root w') fm = oldm)"
proof -
  let ?S = "{fp, fm, tp, tm, b1, b2}" and ?t = "w_root w"
  note s = st [unfolded staged_def]
  have d: "is_dir_at d ?t" "plain d" using s by auto
  have pl: "plain (d @ [tp, fp])" "plain (d @ [tm, fm])" using s by auto
  from rename_free [OF d(1) pl(1) _ assms(7), of p] s \<open>one_fault w\<close>
  consider (fault1) e where "attempt (fs_rename (d @ [tp]) (d @ [fp])) w = (Inr (Inl e) :: StorageError + _, step_world w)" "quiet (step_world w)" "\<not> quiet w"
    | (ok1) "attempt (fs_rename (d @ [tp]) (d @ [fp])) w = (Inr (Inr ()) :: StorageError + _, (step_world w)\<lparr>w_root := mv d tp fp ?t\<rparr>)"
    by auto
  then show ?thesis
  proof cases
    case fault1
    from rollback_in [of d "step_world w" fp fm b1 b2 oldp oldm k e] s names fault1(2) assms(7-10)
    obtain w' where "bind_act (restore_backup (d @ [fm]) (mb (d @ [b2])) False)
        (\<lambda>_. bind_act (restore_backup (d @ [fp]) (pb (d @ [b1])) k) (\<lambda>_. fail (Io e))) (step_world w) = (Inl (Io e) :: StorageError + unit, w')"
      "within d {fp, fm, b1, b2} ?t (w_root w')" "view d (w_root w') fp = oldp" "view d (w_root w') fm = oldm"
      by (auto simp: pb_def mb_def)
    with fault1 within_mono [of d "{fp, fm, b1, b2}" ?t "w_root w'" ?S] show ?thesis
      by (intro exI [of _ "Inl (Io e)"] exI [of _ w']) (simp add: publish_install_def bind_act_Inr)
  next
    case ok1
    define w1 where "w1 = (step_world w)\<lparr>w_root := mv d tp fp ?t\<rparr>"
    have w1: "is_dir_at d (w_root w1)" "one_fault w1" "quiet w \<Longrightarrow> quiet w1" "within d ?S ?t (w_root w1)"
      using d(1) \<open>one_fault w\<close> by (auto simp: w1_def intro!: within_mv within_refl)
    have v1: "view d (w_root w1) z = (if z = fp then Some p else if z = tp then None else view d ?t z)" for z
      using d(1) s by (auto simp: w1_def)
    have f: "tm \<noteq> fm" "view d (w_root w1) fm = None" "view d (w_root w1) tm = Some (File m)"
      using v1 s assms(8) by auto
    consider (fault2) e where
        "attempt (fs_rename (d @ [tm]) (d @ [fm])) w1 = (Inr (Inl e) :: StorageError + _, step_world w1)" "quiet (step_world w1)" "\<not> quiet w1"
      | (ok2) "attempt (fs_rename (d @ [tm]) (d @ [fm])) w1 = (Inr (Inr ()) :: StorageError + _, (step_world w1)\<lparr>w_root := mv d tm fm (w_root w1)\<rparr>)"
      using rename_free [OF w1(1) pl(2) f w1(2)] by blast
    then show ?thesis
    proof cases
      case fault2
      obtain w2 where w2: "remove_path_if_exists (d @ [fp]) k (step_world w1) = (Inr (), w2)" "quiet w2"
        "within d {fp} (w_root w1) (w_root w2)"
        "\<forall>z. view d (w_root w2) z = (if z = fp then None else view d (w_root w1) z)"
        using remove_clears [of d "step_world w1" fp k] w1(1) s v1 fault2(2) by auto
      from rollback_in [of d w2 fp fm b1 b2 oldp oldm k e] s names w2 v1 assms(7-10)
      obtain w' where "bind_act (restore_backup (d @ [fm]) (mb (d @ [b2])) False)
          (\<lambda>_. bind_act (restore_backup (d @ [fp]) (pb (d @ [b1])) k) (\<lambda>_. fail (Io e))) w2 = (Inl (Io e) :: StorageError + unit, w')"
        "within d {fp, fm, b1, b2} (w_root w2) (w_root w')" "view d (w_root w') fp = oldp" "view d (w_root w') fm = oldm"
        by (auto simp: pb_def mb_def within_def)
      moreover have "within d ?S ?t (w_root w')"
        using within_trans [OF within_trans [OF w1(4) within_mono [OF w2(3)]] within_mono [OF calculation(2)]] by auto
      moreover have "\<not> quiet w" using fault2(3) w1(3) by blast
      moreover have "publish_install (d @ [tp]) (d @ [fp]) k (d @ [tm]) (d @ [fm]) (pb (d @ [b1])) (mb (d @ [b2])) w = (Inl (Io e), w')"
        using ok1 fault2(1) w2(1) calculation(1) by (simp add: publish_install_def bind_act_Inr w1_def [symmetric])
      ultimately show ?thesis by (intro exI [of _ "Inl (Io e)"] exI [of _ w']) simp
    next
      case ok2
      define w2 where "w2 = (step_world w1)\<lparr>w_root := mv d tm fm (w_root w1)\<rparr>"
      have w2: "is_dir_at d (w_root w2)" "within d ?S ?t (w_root w2)"
        using w1(1,4) by (auto simp: w2_def intro!: within_mv)
      have v2: "view d (w_root w2) z = (if z = fm then Some (File m) else if z = tm then None else view d (w_root w1) z)" for z
        using w1(1) s v1 by (auto simp: w2_def)
      have cpb: "pb (d @ [b1]) \<noteq> None \<longrightarrow> pb (d @ [b1]) = Some (d @ [b1]) \<and> plain (d @ [b1])"
        and cmb: "mb (d @ [b2]) \<noteq> None \<longrightarrow> mb (d @ [b2]) = Some (d @ [b2]) \<and> plain (d @ [b2])"
        using d names by (simp_all add: pb_def mb_def)
      obtain w3 where w3: "cleanup_backup (pb (d @ [b1])) k w2 = (Inr (), w3)" "is_dir_at d (w_root w3)"
        "within d {b1} (w_root w2) (w_root w3)" "\<forall>z. z \<noteq> b1 \<longrightarrow> view d (w_root w3) z = view d (w_root w2) z"
        using cleanup_in [OF w2(1) cpb, of k] by blast
      obtain w4 where w4: "cleanup_backup (mb (d @ [b2])) False w3 = (Inr (), w4)"
        "within d {b2} (w_root w3) (w_root w4)" "\<forall>z. z \<noteq> b2 \<longrightarrow> view d (w_root w4) z = view d (w_root w3) z"
        using cleanup_in [OF w3(2) cmb, of False] by blast
      have "within d ?S ?t (w_root w4)"
        using within_trans [OF within_trans [OF w2(2) within_mono [OF w3(3)]] within_mono [OF w4(2)]] by auto
      moreover have "view d (w_root w4) fp = Some p" "view d (w_root w4) fm = Some (File m)"
        using w4(3) w3(4) v2 v1 names(2) by auto
      moreover have "publish_install (d @ [tp]) (d @ [fp]) k (d @ [tm]) (d @ [fm]) (pb (d @ [b1])) (mb (d @ [b2])) w = (Inr (), w4)"
        using ok1 ok2 w3(1) w4(1) by (simp add: publish_install_def bind_act_Inr w1_def [symmetric] w2_def [symmetric])
      ultimately show ?thesis by (intro exI [of _ "Inr ()"] exI [of _ w4]) simp
    qed
  qed
qed

section \<open>Properties\<close>

lemma tmp_name_plain: "tmp_name u \<noteq> ''..''"
  by (simp add: tmp_name_def)

lemma staged_mv:
  "staged d fp fm tp tm k p m t \<Longrightarrow> x \<in> {fp, fm} \<Longrightarrow> b \<notin> {fp, fm, tp, tm} \<Longrightarrow> staged d fp fm tp tm k p m (mv d x b t)"
  by (auto simp: staged_def)

definition outcome :: "path \<Rightarrow> string \<Rightarrow> string \<Rightarrow> string set \<Rightarrow> string \<Rightarrow> node \<Rightarrow> bytes \<Rightarrow> node \<Rightarrow> bool \<Rightarrow> StorageError + unit \<Rightarrow> node \<Rightarrow> bool" where
  "outcome d fp fm names b1 p m t q r t' \<longleftrightarrow>
     within d names t t'
     \<and> (if r = Inr () then view d t' fp = Some p \<and> view d t' fm = Some (File m)
        else \<not> q \<and> view d t' fm = view d t fm
          \<and> (view d t' fp = view d t fp \<or> view d t' fp = None \<and> view d t' b1 = view d t fp))"

lemma outcome_if_restored:
  assumes "within d S t u" "within d S u t'"
    and "if r = Inr () then view d t' fp = Some p \<and> view d t' fm = Some (File m)
         else \<not> q' \<and> view d t' fp = view d t fp \<and> view d t' fm = view d t fm"
    and "q \<longrightarrow> q'"
  shows "outcome d fp fm S b1 p m t q r t'"
  using assms within_trans [OF assms(1,2)] by (auto simp: outcome_def split: if_splits)

lemma backup_cases:
  assumes "w_root w = t" "w_draws w = n" "b = tmp_name (uuid n)" "is_dir_at d t" "plain (d @ [x, b])" "x \<noteq> b"
    "view d t b = None" "one_fault w"
  shows "(\<exists>e w'. backup_existing uuid (d @ [x]) w = (Inl e, w') \<and> w_root w' = t \<and> \<not> quiet w)
    \<or> (\<exists>w'. backup_existing uuid (d @ [x]) w = (Inr None, w') \<and> w_root w' = t \<and> view d t x = None
          \<and> w_draws w' = n \<and> one_fault w' \<and> (quiet w \<longrightarrow> quiet w'))
    \<or> (\<exists>w'. backup_existing uuid (d @ [x]) w = (Inr (Some (d @ [b])), w') \<and> w_root w' = mv d x b t \<and> view d t x \<noteq> None
          \<and> w_draws w' = Suc n \<and> one_fault w' \<and> (quiet w \<longrightarrow> quiet w'))"
proof -
  have b: "tmp_name (uuid (w_draws w)) = b" using assms(2,3) by simp
  show ?thesis
  proof (rule backup_in [of d w x uuid, unfolded b], goal_cases)
    case (6 e w')
    then show ?thesis unfolding assms(1) by blast
  next
    case (7 w')
    then show ?thesis unfolding assms(1,2) by blast
  next
    case (8 w')
    then show ?thesis unfolding assms(1,2) by blast
  qed (use assms in auto)
qed

lemma publish_from_backups:
  assumes st: "staged d fp fm tp tm k p m t"
    and "b1 = tmp_name (uuid n)" "b2 = tmp_name (uuid (Suc n))"
    and "distinct [fp, fm, tp, tm, b1, b2]" "view d t b1 = None" "view d t b2 = None"
    and w: "w_root w = t" "w_draws w = n" "one_fault w"
  shows "\<exists>r w'. bind_act (backup_existing uuid (d @ [fp])) (\<lambda>pb. bind_act (backup_existing uuid (d @ [fm]))
            (\<lambda>mb. publish_install (d @ [tp]) (d @ [fp]) k (d @ [tm]) (d @ [fm]) pb mb)) w = (r, w')
     \<and> outcome d fp fm {fp, fm, tp, tm, b1, b2} b1 p m t (quiet w) r (w_root w')"
proof -
  let ?S = "{fp, fm, tp, tm, b1, b2}"
  note s = st [unfolded staged_def]
  have d: "is_dir_at d t" "plain d" using s by auto
  have bs: "b1 \<noteq> ''..''" "b2 \<noteq> ''..''" using assms(2,3) tmp_name_plain by auto
  have wrefl: "within d ?S t t" using d by (simp add: within_refl)
  have pl: "plain (d @ [fp, b1])" "plain (d @ [fm, b1])" "plain (d @ [fm, b2])" using s bs by auto
  have ne: "fp \<noteq> b1" "fm \<noteq> b1" "fm \<noteq> b2" using assms(4) by auto
  consider (f1) e w1 where "backup_existing uuid (d @ [fp]) w = (Inl e, w1)" "w_root w1 = t" "\<not> quiet w"
    | (a1) w1 where "backup_existing uuid (d @ [fp]) w = (Inr None, w1)" "w_root w1 = t" "view d t fp = None"
        "w_draws w1 = n" "one_fault w1" "quiet w \<longrightarrow> quiet w1"
    | (m1) w1 where "backup_existing uuid (d @ [fp]) w = (Inr (Some (d @ [b1])), w1)" "w_root w1 = mv d fp b1 t"
        "view d t fp \<noteq> None" "w_draws w1 = Suc n" "one_fault w1" "quiet w \<longrightarrow> quiet w1"
    using backup_cases [where uuid = uuid, OF w(1,2) assms(2) d(1) pl(1) ne(1) assms(5) w(3)] by blast
  then show ?thesis
  proof cases
    case f1
    with wrefl show ?thesis by (auto simp: bind_act_def outcome_def)
  next
    case a1
    consider (f2) e w2 where "backup_existing uuid (d @ [fm]) w1 = (Inl e, w2)" "w_root w2 = t" "\<not> quiet w1"
      | (a2) w2 where "backup_existing uuid (d @ [fm]) w1 = (Inr None, w2)" "w_root w2 = t" "view d t fm = None"
          "one_fault w2" "quiet w1 \<longrightarrow> quiet w2"
      | (m2) w2 where "backup_existing uuid (d @ [fm]) w1 = (Inr (Some (d @ [b1])), w2)" "w_root w2 = mv d fm b1 t"
          "view d t fm \<noteq> None" "one_fault w2" "quiet w1 \<longrightarrow> quiet w2"
      using backup_cases [where uuid = uuid, OF a1(2,4) assms(2) d(1) pl(2) ne(2) assms(5) a1(5)] by blast
    then show ?thesis
    proof cases
      case f2
      with a1 wrefl show ?thesis by (auto simp: bind_act_def outcome_def)
    next
      case a2
      from install_outcomes [of d fp fm tp tm k p m w2 b1 b2 None None] a2 a1 st bs assms(4)
      obtain r w' where "publish_install (d @ [tp]) (d @ [fp]) k (d @ [tm]) (d @ [fm]) None None w2 = (r, w')"
        "within d ?S t (w_root w')"
        "if r = Inr () then view d (w_root w') fp = Some p \<and> view d (w_root w') fm = Some (File m)
         else \<not> quiet w2 \<and> view d (w_root w') fp = None \<and> view d (w_root w') fm = None" by auto
      with a1 a2 outcome_if_restored [OF wrefl, of "w_root w'" r fp p fm m "quiet w2" "quiet w" b1] show ?thesis
        by (intro exI [of _ r] exI [of _ w']) (simp add: bind_act_Inr)
    next
      case m2
      have st2: "staged d fp fm tp tm k p m (w_root w2)" using staged_mv [OF st, of fm b1] m2(2) assms(4) by auto
      have v: "view d (w_root w2) fp = None" "view d (w_root w2) fm = None" "view d (w_root w2) b1 = view d t fm"
        using m2(2) a1(3) d assms(4) by auto
      have "within d ?S t (w_root w2)" using m2(2) wrefl by (simp add: within_mv)
      moreover from install_outcomes [of d fp fm tp tm k p m w2 b2 b1 None "view d t fm"] st2 bs assms(4) m2 v
      obtain r w' where "publish_install (d @ [tp]) (d @ [fp]) k (d @ [tm]) (d @ [fm]) None (Some (d @ [b1])) w2 = (r, w')"
        "within d ?S (w_root w2) (w_root w')"
        "if r = Inr () then view d (w_root w') fp = Some p \<and> view d (w_root w') fm = Some (File m)
         else \<not> quiet w2 \<and> view d (w_root w') fp = None \<and> view d (w_root w') fm = view d t fm" by (auto simp: insert_commute)
      ultimately show ?thesis
        using a1 m2 outcome_if_restored [of d ?S t "w_root w2" "w_root w'" r fp p fm m "quiet w2" "quiet w" b1]
        by (intro exI [of _ r] exI [of _ w']) (simp add: bind_act_Inr)
    qed
  next
    case m1
    have st1: "staged d fp fm tp tm k p m (w_root w1)" using staged_mv [OF st, of fp b1] m1(2) assms(4) by auto
    have v1: "view d (w_root w1) fp = None" "view d (w_root w1) fm = view d t fm" "view d (w_root w1) b1 = view d t fp"
      "view d (w_root w1) b2 = None" using m1(2) d assms(4,6) by auto
    have in1: "within d ?S t (w_root w1)" using m1(2) wrefl by (simp add: within_mv)
    have d1: "is_dir_at d (w_root w1)" using in1 by (simp add: within_def)
    consider (f2) e w2 where "backup_existing uuid (d @ [fm]) w1 = (Inl e, w2)" "w_root w2 = w_root w1" "\<not> quiet w1"
      | (a2) w2 where "backup_existing uuid (d @ [fm]) w1 = (Inr None, w2)" "w_root w2 = w_root w1" "view d t fm = None"
          "one_fault w2" "quiet w1 \<longrightarrow> quiet w2"
      | (m2) w2 where "backup_existing uuid (d @ [fm]) w1 = (Inr (Some (d @ [b2])), w2)" "w_root w2 = mv d fm b2 (w_root w1)"
          "view d t fm \<noteq> None" "one_fault w2" "quiet w1 \<longrightarrow> quiet w2"
      using backup_cases [where uuid = uuid, OF refl m1(4) assms(3) d1 pl(3) ne(3) v1(4) m1(5)] unfolding v1(2) by blast
    then show ?thesis
    proof cases
      case f2
      with m1 in1 v1 show ?thesis by (auto simp: bind_act_def outcome_def)
    next
      case a2
      from install_outcomes [of d fp fm tp tm k p m w2 b1 b2 "view d t fp" None] st1 bs assms(4) a2 m1(3) v1
      obtain r w' where "publish_install (d @ [tp]) (d @ [fp]) k (d @ [tm]) (d @ [fm]) (Some (d @ [b1])) None w2 = (r, w')"
        "within d ?S (w_root w2) (w_root w')"
        "if r = Inr () then view d (w_root w') fp = Some p \<and> view d (w_root w') fm = Some (File m)
         else \<not> quiet w2 \<and> view d (w_root w') fp = view d t fp \<and> view d (w_root w') fm = None" by auto
      with a2 m1 in1 outcome_if_restored [of d ?S t "w_root w2" "w_root w'" r fp p fm m "quiet w2" "quiet w" b1]
      show ?thesis by (intro exI [of _ r] exI [of _ w']) (simp add: bind_act_Inr)
    next
      case m2
      have st2: "staged d fp fm tp tm k p m (w_root w2)" using staged_mv [OF st1, of fm b2] m2(2) assms(4) by auto
      have v2: "view d (w_root w2) fp = None" "view d (w_root w2) fm = None" "view d (w_root w2) b1 = view d t fp"
        "view d (w_root w2) b2 = view d t fm" using m2(2) v1 st1 assms(4) by (auto simp: staged_def)
      have "within d ?S t (w_root w2)" using m2(2) in1 by (simp add: within_mv)
      moreover from install_outcomes [of d fp fm tp tm k p m w2 b1 b2 "view d t fp" "view d t fm"] st2 bs assms(4) m2 m1(3) v2
      obtain r w' where "publish_install (d @ [tp]) (d @ [fp]) k (d @ [tm]) (d @ [fm]) (Some (d @ [b1])) (Some (d @ [b2])) w2 = (r, w')"
        "within d ?S (w_root w2) (w_root w')"
        "if r = Inr () then view d (w_root w') fp = Some p \<and> view d (w_root w') fm = Some (File m)
         else \<not> quiet w2 \<and> view d (w_root w') fp = view d t fp \<and> view d (w_root w') fm = view d t fm" by auto
      ultimately show ?thesis
        using m1 m2 outcome_if_restored [of d ?S t "w_root w2" "w_root w'" r fp p fm m "quiet w2" "quiet w" b1]
        by (intro exI [of _ r] exI [of _ w']) (simp add: bind_act_Inr)
    qed
  qed
qed

text \<open>
  C19. Publishing under at most one failing system call: success installs the new payload and the
  new metadata; failure leaves the old metadata, and the old payload too, except that the old
  payload may be left behind under its backup name. Without a failing call it succeeds. Nothing
  outside the six names is touched.
\<close>

theorem publish_outcomes:
  assumes "staged d fp fm tp tm k p m (w_root w)" and "one_fault w"
    and "b1 = tmp_name (uuid (w_draws w))" and "b2 = tmp_name (uuid (Suc (w_draws w)))"
    and "distinct [fp, fm, tp, tm, b1, b2]" and "view d (w_root w) b1 = None" and "view d (w_root w) b2 = None"
  shows "\<exists>r w'. publish_temp_payload_and_meta uuid (d @ [tp]) (d @ [fp]) k (d @ [tm]) (d @ [fm]) w = (r, w')
    \<and> within d {fp, fm, tp, tm, b1, b2} (w_root w) (w_root w')
    \<and> (if r = Inr () then view d (w_root w') fp = Some p \<and> view d (w_root w') fm = Some (File m)
       else \<not> quiet w \<and> view d (w_root w') fm = view d (w_root w) fm
         \<and> (view d (w_root w') fp = view d (w_root w) fp
            \<or> view d (w_root w') fp = None \<and> view d (w_root w') b1 = view d (w_root w) fp))"
proof -
  let ?S = "{fp, fm, tp, tm, b1, b2}" and ?t = "w_root w"
  let ?goal = "\<lambda>r w'. within d ?S ?t (w_root w')
    \<and> (if r = Inr () then view d (w_root w') fp = Some p \<and> view d (w_root w') fm = Some (File m)
       else \<not> quiet w \<and> view d (w_root w') fm = view d ?t fm
         \<and> (view d (w_root w') fp = view d ?t fp \<or> view d (w_root w') fp = None \<and> view d (w_root w') b1 = view d ?t fp))"
  let ?run = "publish_temp_payload_and_meta uuid (d @ [tp]) (d @ [fp]) k (d @ [tm]) (d @ [fm])"
  note s = assms(1) [unfolded staged_def]
  have d: "is_dir_at d ?t" "plain d" using s by auto
  have bs: "b1 \<noteq> ''..''" "b2 \<noteq> ''..''" using assms(3,4) tmp_name_plain by auto
  have "\<exists>r w'. ?run w = (r, w') \<and> ?goal r w'"
  proof (cases "next_fault w")
    case (Some e)
    then have "?run w = (Inl (Io e), step_world w)" "\<not> quiet w"
      using d quiet_next [of w] by (auto simp: publish_temp_payload_and_meta_def bind_act_def create_parent_in)
    with d show ?thesis by (auto simp: within_refl)
  next
    case None
    define w1 where "w1 = step_world w"
    have w1: "create_parent (d @ [fp]) w = (Inr (), w1)" "w_root w1 = ?t" "w_draws w1 = w_draws w" "one_fault w1" "quiet w \<Longrightarrow> quiet w1"
      using None d assms(2) by (simp_all add: create_parent_in w1_def)
    show ?thesis
    proof (cases "next_fault w1")
      case (Some e)
      then have "?run w = (Inl (Io e), step_world w1)" "\<not> quiet w"
        using d w1 quiet_next [of w1]
        by (auto simp: publish_temp_payload_and_meta_def bind_act_def create_parent_in [of d w1])
      with d w1(2) show ?thesis by (auto simp: within_refl)
    next
      case None
      define w2 where "w2 = step_world w1"
      have w2: "create_parent (d @ [fm]) w1 = (Inr (), w2)" "w_root w2 = ?t" "w_draws w2 = w_draws w" "one_fault w2" "quiet w \<Longrightarrow> quiet w2"
        using None d w1 by (simp_all add: create_parent_in w2_def)
      have run2: "?run w = bind_act (backup_existing uuid (d @ [fp])) (\<lambda>pb. bind_act (backup_existing uuid (d @ [fm]))
          (\<lambda>mb. publish_install (d @ [tp]) (d @ [fp]) k (d @ [tm]) (d @ [fm]) pb mb)) w2"
        using w1(1) w2(1) by (simp add: publish_temp_payload_and_meta_def bind_act_Inr)
      from publish_from_backups [OF assms(1,3-7) w2(2,3,4)] w2(5) run2 show ?thesis
        by (auto simp: outcome_def split: if_splits)
    qed
  qed
  then show ?thesis by blast
qed

definition toy_dir :: node where
  "toy_dir = Dir [(''x'', File [1]), (''x.meta.json'', File [2]), (''t1'', File [3]), (''t2'', File [4])]"

lemma toy_staged:
  "staged [] ''x'' ''x.meta.json'' ''t1'' ''t2'' False (File [3]) [4] toy_dir
   \<and> view [] toy_dir (tmp_name u) = None \<and> distinct [''x'', ''x.meta.json'', ''t1'', ''t2'', tmp_name ''a'', tmp_name ''b'']"
  by (simp add: staged_def toy_dir_def is_dir_at_def has_kind_def tmp_name_def lookup_Cons)

theorem publish_outcomes_witness:
  "\<exists>r w'. publish_temp_payload_and_meta (\<lambda>n. if n = 0 then ''a'' else ''b'') [''t1''] [''x''] False [''t2''] [''x.meta.json'']
       \<lparr>w_root = toy_dir, w_faults = [None, None, None, None, None, None, None, Some enoent], w_draws = 0\<rparr> = (r, w')
     \<and> (r = Inr () \<or> view [] (w_root w') ''x.meta.json'' = Some (File [2]))"
proof -
  from publish_outcomes [of "[]" "''x''" "''x.meta.json''" "''t1''" "''t2''" False "File [3]" "[4]"
      "\<lparr>w_root = toy_dir, w_faults = [None, None, None, None, None, None, None, Some enoent], w_draws = 0\<rparr>"
      "tmp_name ''a''" "\<lambda>n. if n = 0 then ''a'' else ''b''" "tmp_name ''b''"]
    toy_staged [of "''a''"] toy_staged [of "''b''"]
  show ?thesis by (auto simp: one_fault_def toy_dir_def lookup_Cons split: if_splits)
qed

text \<open>
  C20. The backup of the old metadata is not covered by the rollback: when the existence test of the
  old metadata fails, the function returns the error with the old payload still under its backup
  name, so the object that was to be replaced has metadata and no payload.
\<close>

theorem publish_loses_old_payload:
  assumes "staged d fp fm tp tm k p m (w_root w)" and "b1 = tmp_name (uuid (w_draws w))"
    and "distinct [fp, fm, tp, tm, b1]" and "view d (w_root w) b1 = None"
    and "view d (w_root w) fp = Some old" and "view d (w_root w) fm = Some oldm"
    and "w_faults w = [None, None, None, None, Some e]"
  shows "\<exists>w'. publish_temp_payload_and_meta uuid (d @ [tp]) (d @ [fp]) k (d @ [tm]) (d @ [fm]) w = (Inl (Io e), w')
    \<and> view d (w_root w') fp = None \<and> view d (w_root w') fm = Some oldm \<and> view d (w_root w') b1 = Some old"
proof -
  note s = assms(1) [unfolded staged_def]
  have d: "is_dir_at d (w_root w)" "plain d" "fp \<noteq> ''..''" "fm \<noteq> ''..''" "b1 \<noteq> ''..''"
    using s assms(2) tmp_name_plain by auto
  have "backup_existing uuid (d @ [fp]) (w\<lparr>w_faults := [None, None, Some e]\<rparr>) =
      (Inr (Some (d @ [b1])), w\<lparr>w_faults := [Some e], w_draws := Suc (w_draws w), w_root := mv d fp b1 (w_root w)\<rparr>)"
    using assms d by (simp add: backup_existing_def act_defs exists_in rename_in temp_sibling_path_def next_fault_def step_world_def)
  moreover have "backup_existing uuid (d @ [fm]) (w\<lparr>w_faults := [Some e], w_draws := Suc (w_draws w), w_root := mv d fp b1 (w_root w)\<rparr>)
      = (Inl (Io e), w\<lparr>w_faults := [], w_draws := Suc (w_draws w), w_root := mv d fp b1 (w_root w)\<rparr>)"
    using assms d by (simp add: backup_existing_def act_defs exists_in next_fault_def step_world_def)
  moreover have "create_parent (d @ [fp]) w = (Inr (), w\<lparr>w_faults := [None, None, None, Some e]\<rparr>)"
    "create_parent (d @ [fm]) (w\<lparr>w_faults := [None, None, None, Some e]\<rparr>) = (Inr (), w\<lparr>w_faults := [None, None, Some e]\<rparr>)"
    using assms(7) d by (simp_all add: create_parent_in next_fault_def step_world_def)
  ultimately show ?thesis using assms d
    by (auto simp: publish_temp_payload_and_meta_def bind_act_def)
qed

theorem publish_loses_old_payload_witness:
  "\<exists>w'. publish_temp_payload_and_meta (\<lambda>_. ''a'') [''t1''] [''x''] False [''t2''] [''x.meta.json'']
       \<lparr>w_root = toy_dir, w_faults = [None, None, None, None, Some einval], w_draws = 0\<rparr> = (Inl (Io einval), w')
     \<and> view [] (w_root w') ''x'' = None \<and> view [] (w_root w') ''x.meta.json'' = Some (File [2])"
proof -
  from publish_loses_old_payload [of "[]" "''x''" "''x.meta.json''" "''t1''" "''t2''" False "File [3]" "[4]"
      "\<lparr>w_root = toy_dir, w_faults = [None, None, None, None, Some einval], w_draws = 0\<rparr>" "tmp_name ''a''" "\<lambda>_. ''a''"
      "File [1]" "File [2]" einval] toy_staged [of "''a''"]
  show ?thesis by (auto simp: toy_dir_def lookup_Cons)
qed

end
