(* ===== verification/Paths.thy ===== *)
theory Paths
  imports Publish
begin

text \<open>
  Object keys and the files they are stored under: \<open>validate_key\<close>, \<open>is_reserved_segment\<close> and
  \<open>validate_upload_id\<close> of \<open>common.rs\<close> and the path functions of \<open>filesystem/mod.rs\<close>.

  \<open>components\<close> is \<open>Path::components\<close>: repeated slashes and \<open>.\<close> components disappear, except a
  \<open>.\<close> at the start of a relative path. \<open>join_path\<close> is \<open>Path::join\<close> followed by what the
  kernel makes of repeated slashes and \<open>.\<close> components; an absolute argument replaces the
  base. \<open>bd\<close> is the storage's \<open>buckets_dir\<close>.
\<close>

datatype component = RootDir | CurDir | ParentDir | NormalComp string

definition segs :: "string \<Rightarrow> string list" where
  "segs s = filter (\<lambda>x. x \<noteq> [] \<and> x \<noteq> ''.'') (split_on CHR ''/'' s)"

definition component_of :: "string \<Rightarrow> component" where
  "component_of s = (if s = ''..'' then ParentDir else NormalComp s)"

definition components :: "string \<Rightarrow> component list" where
  "components s =
     (if starts_with s ''/'' then [RootDir]
      else if hd (split_on CHR ''/'' s) = ''.'' then [CurDir] else [])
     @ map component_of (segs s)"

section \<open>Validation\<close>

definition is_reserved_segment :: "string \<Rightarrow> bool" where
  "is_reserved_segment name \<longleftrightarrow>
     ends_with name ''.meta.json'' \<or> ends_with name ''.ec'' \<or> name = ''.bucket.json'' \<or> name = ''.uploads''
     \<or> name = ''.versions'' \<or> name = ''.folder'' \<or> starts_with name ''.maxio-tmp-''"

fun check_component :: "component \<Rightarrow> StorageError + unit" where
  "check_component ParentDir =
     Inl (InvalidKey (''Key must not contain '' @ [CHR 0x27] @ ''..'' @ [CHR 0x27] @ '' path components''))"
| "check_component RootDir = Inl (InvalidKey ''Key must not be an absolute path'')"
| "check_component (NormalComp name) =
     (if is_reserved_segment name
      then Inl (InvalidKey (''Key segment '' @ [CHR 0x27] @ name @ [CHR 0x27] @ '' collides with an internal storage name''))
      else Inr ())"
| "check_component CurDir = Inr ()"

definition validate_key :: "string \<Rightarrow> StorageError + unit" where
  "validate_key key =
     (if key = [] then Inl (InvalidKey ''Key must not be empty'')
      else if length key > 1024 then Inl (InvalidKey ''Key must not exceed 1024 bytes'')
      else try_each check_component (components key))"

definition validate_upload_id :: "string \<Rightarrow> StorageError + unit" where
  "validate_upload_id upload_id =
     (if upload_id = [] then Inl (UploadNotFound upload_id)
      else if CHR ''/'' \<in> set upload_id \<or> CHR 0x5C \<in> set upload_id \<or> contains_str upload_id ''..''
      then Inl (UploadNotFound upload_id) else Inr ())"

section \<open>Paths\<close>

definition join_path :: "path \<Rightarrow> string \<Rightarrow> path" where
  "join_path base s = (if starts_with s ''/'' then segs s else base @ segs s)"

fun trim_end_slashes_rev :: "string \<Rightarrow> string" where
  "trim_end_slashes_rev [] = []"
| "trim_end_slashes_rev (c # cs) = (if c = CHR ''/'' then trim_end_slashes_rev cs else c # cs)"

text \<open>\<open>trim_end_matches('/')\<close>.\<close>

definition trim_end_slashes :: "string \<Rightarrow> string" where
  "trim_end_slashes s = rev (trim_end_slashes_rev (rev s))"

definition bucket_meta_path :: "path \<Rightarrow> string \<Rightarrow> path" where
  "bucket_meta_path bd bucket = join_path bd bucket @ [''.bucket.json'']"

definition object_path :: "path \<Rightarrow> string \<Rightarrow> string \<Rightarrow> path" where
  "object_path bd bucket key =
     (if ends_with key ''/'' then join_path (join_path bd bucket) (trim_end_slashes key) @ [''.folder'']
      else join_path (join_path bd bucket) key)"

definition meta_path :: "path \<Rightarrow> string \<Rightarrow> string \<Rightarrow> path" where
  "meta_path bd bucket key =
     (if ends_with key ''/'' then join_path (join_path bd bucket) (trim_end_slashes key) @ [''.folder.meta.json'']
      else join_path (join_path bd bucket) (key @ ''.meta.json''))"

definition ec_dir :: "path \<Rightarrow> string \<Rightarrow> string \<Rightarrow> path" where
  "ec_dir bd bucket key = join_path (join_path bd bucket) (key @ ''.ec'')"

definition manifest_path :: "path \<Rightarrow> string \<Rightarrow> string \<Rightarrow> path" where
  "manifest_path bd bucket key = ec_dir bd bucket key @ [''manifest.json'']"

definition uploads_dir :: "path \<Rightarrow> string \<Rightarrow> path" where
  "uploads_dir bd bucket = join_path bd bucket @ [''.uploads'']"

definition upload_dir :: "path \<Rightarrow> string \<Rightarrow> string \<Rightarrow> path" where
  "upload_dir bd bucket upload_id = join_path (uploads_dir bd bucket) upload_id"

definition upload_meta_path :: "path \<Rightarrow> string \<Rightarrow> string \<Rightarrow> path" where
  "upload_meta_path bd bucket upload_id = upload_dir bd bucket upload_id @ [''.meta.json'']"

definition part_path :: "path \<Rightarrow> string \<Rightarrow> string \<Rightarrow> nat \<Rightarrow> path" where
  "part_path bd bucket upload_id part_number = upload_dir bd bucket upload_id @ [show_nat part_number]"

definition part_meta_path :: "path \<Rightarrow> string \<Rightarrow> string \<Rightarrow> nat \<Rightarrow> path" where
  "part_meta_path bd bucket upload_id part_number =
     upload_dir bd bucket upload_id @ [show_nat part_number @ ''.meta.json'']"

text \<open>\<open>file_name\<close> is the last component unless that is \<open>..\<close>; \<open>parent\<close> drops the last component.\<close>

definition versions_dir :: "path \<Rightarrow> string \<Rightarrow> string \<Rightarrow> path" where
  "versions_dir bd bucket key =
     (let ss = segs key; base = (if starts_with key ''/'' then [] else join_path bd bucket)
      in base @ butlast ss @ [''.versions'']
         @ (if ss = [] \<or> last ss = ''..'' then segs key else [last ss]))"

definition version_data_path :: "path \<Rightarrow> string \<Rightarrow> string \<Rightarrow> string \<Rightarrow> path" where
  "version_data_path bd bucket key version_id = join_path (versions_dir bd bucket key) (version_id @ ''.data'')"

definition version_meta_path :: "path \<Rightarrow> string \<Rightarrow> string \<Rightarrow> string \<Rightarrow> path" where
  "version_meta_path bd bucket key version_id = join_path (versions_dir bd bucket key) (version_id @ ''.meta.json'')"

definition version_ec_dir :: "path \<Rightarrow> string \<Rightarrow> string \<Rightarrow> string \<Rightarrow> path" where
  "version_ec_dir bd bucket key version_id = join_path (versions_dir bd bucket key) (version_id @ ''.ec'')"

section \<open>Splitting keys\<close>

lemma split_on_extend:
  "c \<notin> set t \<Longrightarrow> split_on c (s @ t) = butlast (split_on c s) @ [last (split_on c s) @ t]"
proof (induction s)
  case (Cons x s)
  then show ?case by (cases "split_on c s") auto
qed (simp add: split_on_single)

lemma no_slash_names [simp]:
  "CHR ''/'' \<notin> set ''.meta.json''" "CHR ''/'' \<notin> set ''.ec''" "CHR ''/'' \<notin> set ''.data''"
  by simp_all

lemma segs_slash: "segs (a @ ''/'' @ b) = segs a @ segs b"
  by (simp add: segs_def split_on_append)

lemma segs_Cons_slash [simp]: "segs (CHR ''/'' # s) = segs s"
  by (simp add: segs_def)

lemma segs_name: "CHR ''/'' \<notin> set s \<Longrightarrow> s \<noteq> [] \<Longrightarrow> s \<noteq> ''.'' \<Longrightarrow> segs s = [s]"
  by (simp add: segs_def split_on_single)

lemma starts_with_slash: "starts_with s ''/'' \<longleftrightarrow> (\<exists>r. s = CHR ''/'' # r)"
  by (auto simp: starts_with_def prefix_def)

lemma starts_with_append: "s \<noteq> [] \<Longrightarrow> starts_with (s @ t) ''/'' = starts_with s ''/''"
  by (cases s) (auto simp: starts_with_slash)

text \<open>A nonempty suffix other than a dot always extends or adds the last component.\<close>

lemma segs_extend:
  assumes "CHR ''/'' \<notin> set t" "length t > 1"
  shows "segs (s @ t) = (if last (split_on CHR ''/'' s) \<in> {[], ''.''} then segs s @ [last (split_on CHR ''/'' s) @ t]
                          else butlast (segs s) @ [last (segs s) @ t])"
proof -
  let ?l = "last (split_on CHR ''/'' s)" and ?b = "butlast (split_on CHR ''/'' s)"
  have sp: "split_on CHR ''/'' s = ?b @ [?l]" by simp
  have "?l @ t \<noteq> []" "?l @ t \<noteq> ''.''" using assms(2) by (cases t; auto simp: append_eq_Cons_conv)+
  then have "segs (s @ t) = filter (\<lambda>x. x \<noteq> [] \<and> x \<noteq> ''.'') ?b @ [?l @ t]"
    by (simp add: segs_def split_on_extend [OF assms(1)])
  moreover have "segs s = filter (\<lambda>x. x \<noteq> [] \<and> x \<noteq> ''.'') ?b @ (if ?l \<in> {[], ''.''} then [] else [?l])"
    unfolding segs_def by (subst sp) (simp del: append_butlast_last_id)
  ultimately show ?thesis by simp
qed

lemma join_bucket: "is_valid_bucket_name b \<Longrightarrow> join_path bd b = bd @ [b]"
proof -
  assume v: "is_valid_bucket_name b"
  have ne: "b \<noteq> []" and "is_ascii_alphanumeric (hd b)" using valid_bucket_name_hd [OF v] by auto
  then have "b \<noteq> ''.''" using not_alnum_dot by auto
  moreover have "CHR ''/'' \<notin> set b"
    using valid_bucket_name_chars [OF v, of "CHR ''/''"] by (auto simp: is_ascii_lowercase_def is_ascii_digit_def)
  moreover from this ne have "\<not> starts_with b ''/''" by (auto simp: starts_with_slash)
  ultimately show ?thesis using ne by (simp add: join_path_def segs_name)
qed

lemma valid_key_facts:
  assumes "validate_key k = Inr ()"
  shows "k \<noteq> []" "\<not> starts_with k ''/''" "x \<in> set (segs k) \<Longrightarrow> x \<noteq> ''..'' \<and> \<not> is_reserved_segment x"
proof -
  have t: "\<forall>c \<in> set (components k). check_component c = Inr ()" and ne: "k \<noteq> []"
    using assms by (auto simp: validate_key_def try_each_Inr split: if_splits)
  show "k \<noteq> []" by fact
  show "\<not> starts_with k ''/''" using t by (auto simp: components_def)
  show "x \<noteq> ''..'' \<and> \<not> is_reserved_segment x" if "x \<in> set (segs k)"
  proof -
    have "component_of x \<in> set (components k)" using that by (simp add: components_def)
    with t have "check_component (component_of x) = Inr ()" by blast
    then show ?thesis by (auto simp: component_of_def split: if_splits)
  qed
qed

lemma dots_extend: "length t > 2 \<Longrightarrow> s @ t \<noteq> ''..''"
  by (auto dest: arg_cong [of _ _ length])

lemma segs_extend_plain:
  assumes "''..'' \<notin> set (segs k)" "CHR ''/'' \<notin> set t" "length t > 2"
  shows "''..'' \<notin> set (segs (k @ t))"
proof -
  have "''..'' \<noteq> r @ t" for r using dots_extend [OF assms(3), of r] by metis
  moreover have "''..'' \<notin> set (butlast (segs k))" using assms(1) by (metis in_set_butlastD)
  ultimately show ?thesis using assms by (simp add: segs_extend)
qed

lemma segs_trim: "set (segs (trim_end_slashes k)) \<subseteq> set (segs k)"
proof -
  obtain n where "k = trim_end_slashes k @ replicate n CHR ''/''"
  proof -
    have "\<exists>n. r = replicate n CHR ''/'' @ trim_end_slashes_rev r" for r
    proof (induction r)
      case (Cons c r)
      then obtain n where n: "r = replicate n CHR ''/'' @ trim_end_slashes_rev r" by blast
      show ?case
      proof (cases "c = CHR ''/''")
        case True
        with n have "c # r = replicate (Suc n) CHR ''/'' @ trim_end_slashes_rev (c # r)" by simp
        then show ?thesis by blast
      qed (auto intro: exI [of _ 0])
    qed simp
    then obtain n where "rev k = replicate n CHR ''/'' @ trim_end_slashes_rev (rev k)" by blast
    then have "k = rev (trim_end_slashes_rev (rev k)) @ replicate n CHR ''/''"
      by (metis rev_append rev_replicate rev_rev_ident)
    with that show thesis by (simp add: trim_end_slashes_def)
  qed
  moreover have "segs (s @ replicate n CHR ''/'') = segs s" for s n
  proof (induction n arbitrary: s)
    case (Suc n)
    have "segs (s @ replicate (Suc n) CHR ''/'') = segs ((s @ ''/'') @ replicate n CHR ''/'')" by simp
    also have "\<dots> = segs s" using Suc [of "s @ ''/''"] segs_slash [of s "[]"] by (simp add: segs_def)
    finally show ?case .
  qed simp
  ultimately have "segs k = segs (trim_end_slashes k)" by (rule trans [OF arg_cong])
  then show ?thesis by simp
qed

lemma starts_with_trim: "\<not> starts_with k ''/'' \<Longrightarrow> \<not> starts_with (trim_end_slashes k) ''/''"
proof -
  have "prefix (trim_end_slashes k) k"
  proof -
    have "suffix (trim_end_slashes_rev r) r" for r by (induction r) (auto simp: suffix_ConsI)
    then have "suffix (trim_end_slashes_rev (rev k)) (rev k)" .
    then show ?thesis by (simp add: trim_end_slashes_def suffix_to_prefix)
  qed
  then show "\<not> starts_with k ''/'' \<Longrightarrow> \<not> starts_with (trim_end_slashes k) ''/''"
    by (auto simp: starts_with_def dest: prefix_order.trans)
qed

text \<open>A key without empty and \<open>.\<close> components is determined by its components.\<close>

definition canonical_key :: "string \<Rightarrow> bool" where
  "canonical_key k \<longleftrightarrow> segs k = split_on CHR ''/'' k"

lemma canonical_inj: "canonical_key k \<Longrightarrow> canonical_key k' \<Longrightarrow> segs k = segs k' \<Longrightarrow> k = k'"
  unfolding canonical_key_def by (metis join_split_on)

lemma canonical_not_folder: "canonical_key k \<Longrightarrow> \<not> ends_with k ''/''"
proof
  assume a: "canonical_key k" "ends_with k ''/''"
  then obtain r where "k = r @ ''/''" by (auto simp: ends_with_def suffix_def)
  then have "[] \<in> set (split_on CHR ''/'' k)" by (simp add: split_on_append)
  then have "[] \<in> set (segs k)" using a(1) by (simp add: canonical_key_def)
  then show False by (simp add: segs_def)
qed

lemma join_key: "\<not> starts_with k ''/'' \<Longrightarrow> join_path base k = base @ segs k"
  by (simp add: join_path_def)

lemma canonical_nonempty: "canonical_key k \<Longrightarrow> segs k \<noteq> []"
  by (simp add: canonical_key_def)

lemma canonical_extend:
  assumes "canonical_key k" "CHR ''/'' \<notin> set t" "length t > 1"
  shows "segs (k @ t) = butlast (segs k) @ [last (segs k) @ t]"
proof -
  have "last (split_on CHR ''/'' k) \<in> set (segs k)"
    using canonical_nonempty [OF assms(1)] assms(1) by (simp add: canonical_key_def)
  then have "last (split_on CHR ''/'' k) \<notin> {[], ''.''}" by (auto simp: segs_def)
  then show ?thesis by (simp add: segs_extend [OF assms(2,3)])
qed

text \<open>Where the files of a canonical key lie: one directory and one base name.\<close>

definition key_dir :: "path \<Rightarrow> string \<Rightarrow> string \<Rightarrow> path" where
  "key_dir bd b k = bd @ b # butlast (segs k)"

lemma key_paths:
  assumes "is_valid_bucket_name b" "validate_key k = Inr ()" "canonical_key k"
  shows "object_path bd b k = key_dir bd b k @ [last (segs k)]"
    and "meta_path bd b k = key_dir bd b k @ [last (segs k) @ ''.meta.json'']"
    and "ec_dir bd b k = key_dir bd b k @ [last (segs k) @ ''.ec'']"
    and "versions_dir bd b k = key_dir bd b k @ [''.versions'', last (segs k)]"
  using assms valid_key_facts [OF assms(2)] canonical_not_folder [OF assms(3)] canonical_nonempty [OF assms(3)]
    canonical_extend [OF assms(3), of "''.meta.json''"] canonical_extend [OF assms(3), of "''.ec''"]
  by (auto simp: object_path_def meta_path_def ec_dir_def versions_dir_def join_bucket join_key
      key_dir_def starts_with_append Let_def)

lemma last_seg_unreserved:
  assumes "validate_key k = Inr ()" "canonical_key k"
  shows "\<not> is_reserved_segment (last (segs k))" "last (segs k) \<noteq> ''..''"
  using valid_key_facts(3) [OF assms(1), of "last (segs k)"] canonical_nonempty [OF assms(2)] by simp_all

section \<open>Properties\<close>

lemma reserved_names [simp]:
  "is_reserved_segment (x @ ''.meta.json'')" "is_reserved_segment (x @ ''.ec'')" "is_reserved_segment ''.versions''"
  "is_reserved_segment (tmp_name u)"
  by (simp_all add: is_reserved_segment_def ends_with_def suffix_def starts_with_def tmp_name_def)

lemma valid_upload_segs: "validate_upload_id u = Inr () \<Longrightarrow> ''..'' \<notin> set (segs u) \<and> \<not> starts_with u ''/''"
proof -
  assume v: "validate_upload_id u = Inr ()"
  then have u: "CHR ''/'' \<notin> set u" "\<not> sublist ''..'' u" "u \<noteq> []"
    by (auto simp: validate_upload_id_def contains_str_def split: if_splits)
  then have "segs u = (if u = ''.'' then [] else [u])" by (simp add: segs_def split_on_single)
  with u show ?thesis by (auto simp: starts_with_slash)
qed

lemma accepted_key_confined:
  assumes "is_valid_bucket_name b" and "validate_key k = Inr ()"
  shows "(\<exists>r. object_path bd b k = bd @ b # r \<and> ''..'' \<notin> set r
            \<and> (\<forall>x\<in>set r. is_reserved_segment x \<longrightarrow> ends_with k ''/'' \<and> x = ''.folder''))
    \<and> (\<forall>p \<in> {meta_path bd b k, ec_dir bd b k, manifest_path bd b k, versions_dir bd b k}. \<exists>r. p = bd @ b # r \<and> ''..'' \<notin> set r)"
proof -
  note v = valid_key_facts [OF assms(2)] and jb = join_bucket [OF assms(1)]
  have dots: "''..'' \<notin> set (segs k)" using v(3) by blast
  have trim: "set (segs (trim_end_slashes k)) \<subseteq> set (segs k)" by (rule segs_trim)
  have jt: "join_path base (trim_end_slashes k) = base @ segs (trim_end_slashes k)" for base
    using starts_with_trim [OF v(2)] by (rule join_key)
  have je: "join_path base (k @ t) = base @ segs (k @ t)" for base t
    using v(1,2) by (simp add: join_key starts_with_append)
  have obj: "\<exists>r. object_path bd b k = bd @ b # r \<and> ''..'' \<notin> set r
      \<and> (\<forall>x\<in>set r. is_reserved_segment x \<longrightarrow> ends_with k ''/'' \<and> x = ''.folder'')"
  proof (cases "ends_with k ''/''")
    case True
    then show ?thesis using trim dots v(3) by (auto simp: object_path_def jb jt)
  next
    case False
    then show ?thesis using dots v(2,3) by (auto simp: object_path_def jb join_key)
  qed
  have ext: "''..'' \<notin> set (segs (k @ ''.meta.json''))" "''..'' \<notin> set (segs (k @ ''.ec''))"
    using segs_extend_plain [OF dots, of "''.meta.json''"] segs_extend_plain [OF dots, of "''.ec''"] by simp_all
  have met: "\<exists>r. meta_path bd b k = bd @ b # r \<and> ''..'' \<notin> set r"
    using trim dots ext(1) by (auto simp: meta_path_def jb jt je)
  have ec: "\<exists>r. ec_dir bd b k = bd @ b # r \<and> ''..'' \<notin> set r"
    using ext(2) by (simp add: ec_dir_def jb je)
  have ver: "\<exists>r. versions_dir bd b k = bd @ b # r \<and> ''..'' \<notin> set r"
    using v(2) dots by (auto simp: versions_dir_def jb Let_def dest: in_set_butlastD)
  have man: "\<exists>r. manifest_path bd b k = bd @ b # r \<and> ''..'' \<notin> set r"
    using ec by (auto simp: manifest_path_def)
  show ?thesis using obj met ec man ver by blast
qed

lemma validate_key_Inl:
  assumes "validate_key k \<noteq> Inr ()"
  shows "\<exists>m. validate_key k = Inl (InvalidKey m)"
proof -
  have "\<exists>m. check_component c = Inl (InvalidKey m)" if "check_component c \<noteq> Inr ()" for c
    using that by (cases c rule: check_component.cases) (auto split: if_splits)
  then have "\<exists>m. try_each check_component cs = Inl (InvalidKey m)" if "try_each check_component cs \<noteq> Inr ()" for cs
    using that
  proof (induction cs)
    case (Cons c cs)
    then show ?case by (cases "check_component c = Inr ()") (auto, metis bind_res.simps(1))
  qed simp
  with assms show ?thesis by (auto simp: validate_key_def split: if_splits)
qed



definition files_of :: "path \<Rightarrow> string \<Rightarrow> string \<Rightarrow> path set" where
  "files_of bd b k = {object_path bd b k, meta_path bd b k, ec_dir bd b k}"

lemma unreserved_not_suffixed: "\<not> is_reserved_segment x \<Longrightarrow> x \<noteq> y @ ''.meta.json'' \<and> x \<noteq> y @ ''.ec''"
  using reserved_names by metis

lemma suffixes_differ: "x @ ''.meta.json'' \<noteq> y @ ''.ec''"
  by (auto dest: arg_cong [of _ _ last])

text \<open>
  C22. Objects do not share files: two different objects with canonical accepted keys (no empty and
  no \<open>.\<close> component), in the same or in different buckets, have disjoint payload, metadata and
  chunk paths, and the three paths of one object differ.
\<close>

theorem key_files_disjoint:
  assumes "is_valid_bucket_name b" "validate_key k = Inr ()" "canonical_key k"
    and "is_valid_bucket_name b'" "validate_key k' = Inr ()" "canonical_key k'"
    and "(b, k) \<noteq> (b', k')"
  shows "files_of bd b k \<inter> files_of bd b' k' = {} \<and> card (files_of bd b k) = 3"
proof -
  let ?x = "last (segs k)" and ?x' = "last (segs k')"
  note p = key_paths [OF assms(1-3), of bd] and p' = key_paths [OF assms(4-6), of bd]
  have u: "?x \<noteq> y @ ''.meta.json'' \<and> ?x \<noteq> y @ ''.ec''" "?x' \<noteq> y @ ''.meta.json'' \<and> ?x' \<noteq> y @ ''.ec''" for y
    using unreserved_not_suffixed [OF last_seg_unreserved(1)] assms by blast+
  have "key_dir bd b k \<noteq> key_dir bd b' k' \<or> ?x \<noteq> ?x'"
  proof (rule ccontr)
    assume "\<not> ?thesis"
    then have "b = b'" "butlast (segs k) = butlast (segs k')" "?x = ?x'" by (auto simp: key_dir_def)
    then have "segs k = segs k'"
      using canonical_nonempty assms(3,6) by (metis append_butlast_last_id)
    with canonical_inj [OF assms(3,6)] \<open>b = b'\<close> assms(7) show False by simp
  qed
  then have "files_of bd b k \<inter> files_of bd b' k' = {}"
    unfolding files_of_def p(1-3) p'(1-3)
    using u suffixes_differ [of ?x ?x'] suffixes_differ [of ?x' ?x] by (auto simp: eq_commute)
  moreover have "card (files_of bd b k) = 3"
    unfolding files_of_def p(1-3) using u(1) suffixes_differ [of ?x ?x] by (simp add: eq_commute)
  ultimately show ?thesis ..
qed

theorem key_files_disjoint_witness:
  "files_of [''buckets''] ''photos'' ''a/b'' \<inter> files_of [''buckets''] ''photos'' ''a/b.c'' = {}
   \<and> card (files_of [''buckets''] ''photos'' ''a/b'') = 3"
  by (rule key_files_disjoint) code_simp+



end
