(* ===== verification/Store.thy ===== *)
theory Store
  imports Paths Encryption Chunks FrameStreams Policy
begin

text \<open>
  The storage engine \<open>FilesystemStorage\<close> (\<open>filesystem/mod.rs\<close>): its configuration, the
  environment it runs in, and the functions every operation shares.

  \<open>env\<close> collects what is not this program: identifiers, clock and random numbers by draw,
  time formatting and parsing, \<open>serde_json\<close> for the persisted records, the cryptographic
  primitives and the Reed-Solomon code. \<open>json_law\<close> states what the code relies on for a
  codec: a value that was serialised is read back, and JSON text is UTF-8.

  The storage is opened without the optional metadata index, so \<open>index_upsert\<close> and
  \<open>index_remove\<close> do nothing.
\<close>

type_synonym 'a json = "('a \<Rightarrow> bytes) \<times> (bytes \<Rightarrow> string + 'a)"

definition json_law :: "'a json \<Rightarrow> bool" where
  "json_law c \<longleftrightarrow> (\<forall>x. snd c (fst c x) = Inr x \<and> utf8_valid (fst c x))"

record env =
  e_uuid :: "nat \<Rightarrow> string"
  e_micros :: "nat \<Rightarrow> int"
  e_rand32 :: "nat \<Rightarrow> nat"
  e_rnd :: "nat \<Rightarrow> randomness"
  e_fmt :: "int \<Rightarrow> string"
  e_date :: "int \<Rightarrow> string"
  e_rfc3339 :: "string \<Rightarrow> int option"
  e_disk :: "nat \<Rightarrow> statvfs option"
  e_bucket :: "BucketMeta json"
  e_object :: "ObjectMeta json"
  e_manifest :: "ChunkManifest json"
  e_upload :: "MultipartUploadMeta json"
  e_part :: "PartMeta json"
  e_policy :: "string \<Rightarrow> string + BucketPolicy"
  e_enc :: aead
  e_dec :: aead
  e_b64 :: b64_codec
  e_md5 :: "bytes \<Rightarrow> bytes"
  e_sha256 :: "bytes \<Rightarrow> bytes"
  e_hex :: "bytes \<Rightarrow> string"
  e_unhex :: "string \<Rightarrow> bytes option"
  e_hmac :: "bytes \<Rightarrow> ObjectMeta \<Rightarrow> string"
  e_checksum :: "ChecksumAlgorithm \<Rightarrow> bytes \<Rightarrow> string"
  e_rs_encode :: rs_encoder
  e_rs_decode :: rs_decoder

record FilesystemStorage =
  st_data_root :: path
  st_buckets_dir :: path
  st_erasure_coding :: bool
  st_chunk_size :: nat
  st_parity_shards :: nat
  st_keys :: key_store
  st_quota :: QuotaLimits

definition storage_new ::
  "path \<Rightarrow> bool \<Rightarrow> nat \<Rightarrow> nat \<Rightarrow> key_store \<Rightarrow> QuotaLimits \<Rightarrow> (StorageError, FilesystemStorage) act" where
  "storage_new data_root erasure_coding chunk_size parity_shards ks quota =
     bind_act (io (fs_create_dir_all (data_root @ [''buckets'']))) (\<lambda>_.
       ok \<lparr>st_data_root = data_root, st_buckets_dir = data_root @ [''buckets''], st_erasure_coding = erasure_coding,
           st_chunk_size = chunk_size, st_parity_shards = parity_shards, st_keys = ks, st_quota = quota\<rparr>)"

definition from_json :: "'a json \<Rightarrow> bytes \<Rightarrow> StorageError + 'a" where
  "from_json c data = map_err Json (snd c data)"

definition read_json :: "'a json \<Rightarrow> StorageError \<Rightarrow> path \<Rightarrow> (StorageError, 'a) act" where
  "read_json c missing p =
     bind_act (or_not_found missing (fs_read_to_string p)) (\<lambda>data. lift_res (from_json c data))"

definition write_json :: "'a json \<Rightarrow> path \<Rightarrow> 'a \<Rightarrow> (StorageError, unit) act" where
  "write_json c p x = io (fs_write p (fst c x))"

section \<open>Bucket and object metadata\<close>

definition read_bucket_meta :: "env \<Rightarrow> FilesystemStorage \<Rightarrow> string \<Rightarrow> (StorageError, BucketMeta) act" where
  "read_bucket_meta E st bucket =
     bind_act (lift_res (validate_bucket_name bucket)) (\<lambda>_.
       read_json (e_bucket E) (NotFound bucket) (bucket_meta_path (st_buckets_dir st) bucket))"

definition effective_erasure_coding :: "env \<Rightarrow> FilesystemStorage \<Rightarrow> string \<Rightarrow> (StorageError, bool) act" where
  "effective_erasure_coding E st bucket =
     (if \<not> st_erasure_coding st then ok False
      else bind_act (read_bucket_meta E st bucket) (\<lambda>meta.
             ok (case bm_erasure_coding meta of Some b \<Rightarrow> b | None \<Rightarrow> True)))"

definition is_versioned :: "env \<Rightarrow> FilesystemStorage \<Rightarrow> string \<Rightarrow> (StorageError, bool) act" where
  "is_versioned E st bucket = bind_act (read_bucket_meta E st bucket) (\<lambda>meta. ok (bm_versioning meta))"

text \<open>\<open>is_versioned(bucket).await.unwrap_or(false)\<close>.\<close>

definition versioned_or_false :: "env \<Rightarrow> FilesystemStorage \<Rightarrow> string \<Rightarrow> (StorageError, bool) act" where
  "versioned_or_false E st bucket =
     bind_act (attempt (is_versioned E st bucket)) (\<lambda>r. ok (case r of Inr b \<Rightarrow> b | Inl _ \<Rightarrow> False))"

definition read_object_meta :: "env \<Rightarrow> FilesystemStorage \<Rightarrow> string \<Rightarrow> string \<Rightarrow> (StorageError, ObjectMeta) act" where
  "read_object_meta E st bucket key = read_json (e_object E) (NotFound key) (meta_path (st_buckets_dir st) bucket key)"

definition read_manifest :: "env \<Rightarrow> FilesystemStorage \<Rightarrow> string \<Rightarrow> string \<Rightarrow> (StorageError, ChunkManifest) act" where
  "read_manifest E st bucket key =
     read_json (e_manifest E) (NotFound key) (manifest_path (st_buckets_dir st) bucket key)"

text \<open>\<open>format!("{:016}-{:08x}", micros, rand_suffix)\<close>; the negative times before 1970 wrap.\<close>

fun hex_digit :: "nat \<Rightarrow> char" where
  "hex_digit n = (if n < 10 then char_of (48 + n) else char_of (87 + n))"

fun show_hex8 :: "nat \<Rightarrow> nat \<Rightarrow> string" where
  "show_hex8 0 n = []"
| "show_hex8 (Suc k) n = show_hex8 k (n div 16) @ [hex_digit (n mod 16)]"

definition show_nat_padded :: "nat \<Rightarrow> nat \<Rightarrow> string" where
  "show_nat_padded k n = replicate (k - length (show_nat n)) CHR ''0'' @ show_nat n"

definition generate_version_id :: "env \<Rightarrow> ('e, string) act" where
  "generate_version_id E =
     bind_act (draw (e_micros E)) (\<lambda>micros.
     bind_act (draw (e_rand32 E)) (\<lambda>r.
       ok (show_nat_padded 16 (nat (micros mod 2 ^ 64)) @ ''-'' @ show_hex8 8 (r mod 2 ^ 32))))"

definition now_string :: "env \<Rightarrow> ('e, string) act" where
  "now_string E = bind_act (draw (e_micros E)) (\<lambda>t. ok (e_fmt E t))"

definition plain_object_meta :: "string \<Rightarrow> nat \<Rightarrow> string \<Rightarrow> string \<Rightarrow> string \<Rightarrow> ObjectMeta" where
  "plain_object_meta key sz etag content_type now =
     \<lparr>om_key = key, om_size = sz, om_etag = etag, om_content_type = content_type, om_last_modified = now,
      om_version_id = None, om_is_delete_marker = False, om_storage_format = None, om_checksum_algorithm = None,
      om_checksum_value = None, om_tags = None, om_part_sizes = None, om_encryption = None,
      om_object_lock_mode = None, om_retain_until_date = None, om_legal_hold_status = None\<rparr>"

section \<open>Laws\<close>

lemma from_json_law: "json_law c \<Longrightarrow> from_json c (fst c x) = Inr x"
  by (simp add: json_law_def from_json_def)

lemma read_json_ok:
  assumes "json_law c" "plain p" "w_faults w = []" "lookup p (w_root w) = Some (File (fst c x))"
  shows "read_json c e p w = (Inr x, w)"
  using assms from_json_law [OF assms(1), of x]
  by (simp add: read_json_def act_defs fs_read_to_string_def query_quiet read_at_File json_law_def)

lemma read_json_missing:
  assumes "plain p" "p \<noteq> []" "is_dir_at (butlast p) (w_root w)" "w_faults w = []" "lookup p (w_root w) = None"
  shows "read_json c e p w = (Inl e, w)"
  using assms by (simp add: read_json_def act_defs fs_read_to_string_def query_quiet read_at_absent)

lemma write_json_ok:
  assumes "plain p" "p \<noteq> []" "w_faults w = []" "is_dir_at (butlast p) (w_root w)" "\<not> is_dir_at p (w_root w)"
  shows "write_json c p x w = (Inr (), w\<lparr>w_root := set_node p (Some (File (fst c x))) (w_root w)\<rparr>)"
  using assms by (simp add: write_json_def act_defs fs_write_def change_quiet write_at_ok)

text \<open>A storage whose directory exists and whose own path is plain.\<close>

definition store_ok :: "FilesystemStorage \<Rightarrow> node \<Rightarrow> bool" where
  "store_ok st t \<longleftrightarrow> plain (st_buckets_dir st) \<and> is_dir_at (st_buckets_dir st) t"

text \<open>The metadata of a bucket, as the file on disk says.\<close>

definition bucket_at :: "env \<Rightarrow> FilesystemStorage \<Rightarrow> node \<Rightarrow> string \<Rightarrow> BucketMeta \<Rightarrow> bool" where
  "bucket_at E st t b m \<longleftrightarrow> lookup (bucket_meta_path (st_buckets_dir st) b) t = Some (File (fst (e_bucket E) m))"

lemma valid_bucket_plain: "is_valid_bucket_name b \<Longrightarrow> b \<noteq> ''..'' \<and> b \<noteq> ''.'' \<and> b \<noteq> []"
proof -
  assume v: "is_valid_bucket_name b"
  have "b \<noteq> []" "is_ascii_alphanumeric (hd b)" using valid_bucket_name_hd [OF v] by auto
  then show ?thesis using not_alnum_dot by auto
qed

lemma bucket_meta_path_eq: "is_valid_bucket_name b \<Longrightarrow> bucket_meta_path bd b = bd @ [b, ''.bucket.json'']"
  by (simp add: bucket_meta_path_def join_bucket)

lemma read_bucket_meta_ok:
  assumes "json_law (e_bucket E)" "store_ok st (w_root w)" "w_faults w = []" "is_valid_bucket_name b"
    and "bucket_at E st (w_root w) b m"
  shows "read_bucket_meta E st b w = (Inr m, w)"
proof -
  have "plain (bucket_meta_path (st_buckets_dir st) b)"
    using assms(2,4) valid_bucket_plain [OF assms(4)] by (auto simp: bucket_meta_path_eq store_ok_def)
  from read_json_ok [OF assms(1) this assms(3)] assms(4,5) show ?thesis
    by (simp add: read_bucket_meta_def bind_act_def lift_res_def validate_bucket_name_def bucket_at_def)
qed

lemma effective_erasure_coding_ok:
  assumes "json_law (e_bucket E)" "store_ok st (w_root w)" "w_faults w = []" "is_valid_bucket_name b"
    and "bucket_at E st (w_root w) b m"
  shows "effective_erasure_coding E st b w =
    (Inr (st_erasure_coding st \<and> bm_erasure_coding m \<noteq> Some False), w)"
  using read_bucket_meta_ok [OF assms]
  by (auto simp: effective_erasure_coding_def bind_act_def ok_def split: option.splits)

lemma versioned_or_false_ok:
  assumes "json_law (e_bucket E)" "store_ok st (w_root w)" "w_faults w = []" "is_valid_bucket_name b"
    and "bucket_at E st (w_root w) b m"
  shows "versioned_or_false E st b w = (Inr (bm_versioning m), w)"
  using read_bucket_meta_ok [OF assms]
  by (simp add: versioned_or_false_def is_versioned_def act_defs)

end
