(* ===== verification/Toy.thy ===== *)
theory Toy
  imports Store "HOL-Library.Countable"
begin

text \<open>
  A concrete environment, for evaluating statements about the storage engine at an example: the
  persisted records are countable, and \<open>toy_json\<close> writes a record as that many letters. It
  satisfies every law that the properties assume of \<open>serde_json\<close> and of the primitives.
\<close>

instance ObjectLockMode :: countable by countable_datatype
instance LegalHoldStatus :: countable by countable_datatype
instance EncryptionMode :: countable by countable_datatype
instance ChecksumAlgorithm :: countable by countable_datatype
instance ChunkKind :: countable by countable_datatype

instance CorsRule_ext :: (countable) countable
  by (rule countable_classI [of "\<lambda>r. to_nat (cr_allowed_origins r, cr_allowed_methods r, cr_allowed_headers r, cr_expose_headers r,
    cr_max_age_seconds r, CorsRule.more r)"])
     (auto intro: CorsRule.equality)

instance LifecycleRule_ext :: (countable) countable
  by (rule countable_classI [of "\<lambda>r. to_nat (lr_id r, lr_prefix r, lr_expiration_days r, lr_transition_days r,
    lr_noncurrent_expiration_days r, lr_enabled r, LifecycleRule.more r)"])
     (auto intro: LifecycleRule.equality)

instance ObjectLockConfig_ext :: (countable) countable
  by (rule countable_classI [of "\<lambda>r. to_nat (olc_enabled r, olc_default_retention_mode r, olc_default_retention_days r, ObjectLockConfig.more r)"])
     (auto intro: ObjectLockConfig.equality)

instance BucketNotificationConfig_ext :: (countable) countable
  by (rule countable_classI [of "\<lambda>r. to_nat (bn_webhook_url r, bn_events r, BucketNotificationConfig.more r)"])
     (auto intro: BucketNotificationConfig.equality)

instance BucketEncryptionConfig_ext :: (countable) countable
  by (rule countable_classI [of "\<lambda>r. to_nat (bec_sse_algorithm r, bec_kms_key_id r, BucketEncryptionConfig.more r)"])
     (auto intro: BucketEncryptionConfig.equality)

instance BucketMeta_ext :: (countable) countable
  by (rule countable_classI [of "\<lambda>r. to_nat (bm_name r, bm_created_at r, bm_region r, bm_versioning r, bm_cors_rules r,
    bm_encryption_config r, bm_public_read r, bm_public_list r, bm_bucket_policy r, bm_erasure_coding r,
    bm_lifecycle_rules r, bm_tenant_id r, bm_logging_target_bucket r, bm_logging_target_prefix r,
    bm_notification_config r, bm_object_lock_enabled r, bm_object_lock_config r, BucketMeta.more r)"])
     (auto intro: BucketMeta.equality)

instance EncryptionMeta_ext :: (countable) countable
  by (rule countable_classI [of "\<lambda>r. to_nat (em_algorithm r, em_mode r, em_key_id r, em_kms_key_id r, em_wrapped_dek r, em_wrap_nonce r,
    em_customer_key_md5 r, em_nonce_prefix r, em_chunk_size r, em_sidecar_mac r, EncryptionMeta.more r)"])
     (auto intro: EncryptionMeta.equality)

instance ObjectMeta_ext :: (countable) countable
  by (rule countable_classI [of "\<lambda>r. to_nat (om_key r, om_size r, om_etag r, om_content_type r, om_last_modified r, om_version_id r,
    om_is_delete_marker r, om_storage_format r, om_checksum_algorithm r, om_checksum_value r, om_tags r,
    om_part_sizes r, om_encryption r, om_object_lock_mode r, om_retain_until_date r, om_legal_hold_status r, ObjectMeta.more r)"])
     (auto intro: ObjectMeta.equality)

instance ChunkInfo_ext :: (countable) countable
  by (rule countable_classI [of "\<lambda>r. to_nat (ci_index r, ci_size r, ci_sha256 r, ci_kind r, ChunkInfo.more r)"])
     (auto intro: ChunkInfo.equality)

instance ChunkManifest_ext :: (countable) countable
  by (rule countable_classI [of "\<lambda>r. to_nat (cm_version r, cm_total_size r, cm_chunk_size r, cm_chunk_count r, cm_chunks r,
    cm_parity_shards r, cm_shard_size r, cm_plaintext_size r, ChunkManifest.more r)"])
     (auto intro: ChunkManifest.equality)

instance UploadEncryptionSpec_ext :: (countable) countable
  by (rule countable_classI [of "\<lambda>r. to_nat (ue_mode r, ue_customer_key_md5 r, ue_upload_dek_wrapped r, ue_upload_dek_wrap_nonce r,
    ue_upload_dek_key_id r, ue_kms_key_id r, ue_upload_nonce_prefix r, UploadEncryptionSpec.more r)"])
     (auto intro: UploadEncryptionSpec.equality)

instance MultipartUploadMeta_ext :: (countable) countable
  by (rule countable_classI [of "\<lambda>r. to_nat (um_upload_id r, um_bucket r, um_key r, um_content_type r, um_initiated r,
    um_checksum_algorithm r, um_encryption_spec r, MultipartUploadMeta.more r)"])
     (auto intro: MultipartUploadMeta.equality)

instance PartMeta_ext :: (countable) countable
  by (rule countable_classI [of "\<lambda>r. to_nat (pm_part_number r, pm_etag r, pm_size r, pm_last_modified r, pm_checksum_algorithm r,
    pm_checksum_value r, pm_encrypted r, pm_ciphertext_size r, PartMeta.more r)"])
     (auto intro: PartMeta.equality)

definition toy_json :: "('a :: countable) json" where
  "toy_json = (\<lambda>x. replicate (to_nat x) 0x61, \<lambda>b. Inr (from_nat (length b)))"

lemma utf8_letters: "utf8_valid (replicate n 0x61)"
  by (induction n) simp_all

lemma toy_json_law: "json_law toy_json"
  by (simp add: json_law_def toy_json_def utf8_letters)

definition toy_env :: env where
  "toy_env = \<lparr>e_uuid = show_nat, e_micros = int, e_rand32 = (\<lambda>n. n),
     e_rnd = (\<lambda>n. \<lparr>rnd_dek = replicate 32 (of_nat n), rnd_prefix = replicate 8 (of_nat n), rnd_nonce = replicate 12 (of_nat n)\<rparr>),
     e_fmt = (\<lambda>t. show_nat (nat t)), e_date = (\<lambda>t. show_nat (nat t)), e_rfc3339 = (\<lambda>s. map_option int (parse_u64 s)),
     e_disk = (\<lambda>_. None), e_bucket = toy_json, e_object = toy_json, e_manifest = toy_json, e_upload = toy_json,
     e_part = toy_json, e_policy = (\<lambda>_. Inl ''no policy''), e_enc = toy_enc, e_dec = toy_dec, e_b64 = toy_b64,
     e_md5 = (\<lambda>b. b), e_sha256 = (\<lambda>b. b), e_hex = (\<lambda>b. ''h''), e_unhex = (\<lambda>_. None), e_hmac = toy_hmac,
     e_checksum = (\<lambda>_ _. ''c''), e_rs_encode = (\<lambda>_ _ _. Inl ''none''), e_rs_decode = (\<lambda>_ _ _. Inl ''none'')\<rparr>"

definition toy_storage :: FilesystemStorage where
  "toy_storage = \<lparr>st_data_root = [], st_buckets_dir = [''buckets''], st_erasure_coding = False, st_chunk_size = 4,
     st_parity_shards = 0, st_keys = \<lparr>ks_keyring = \<lparr>kr_keys = Map.empty, kr_active_id = []\<rparr>, ks_kms = None\<rparr>,
     st_quota = from_config 0 0\<rparr>"

definition toy_bucket :: BucketMeta where
  "toy_bucket = new_bucket_meta ''photos'' ''now'' ''here''"

text \<open>A storage with one empty bucket.\<close>

definition toy_world :: world where
  "toy_world = \<lparr>w_root = Dir [(''buckets'', Dir [(''photos'', Dir [(''.bucket.json'', File (fst toy_json toy_bucket))])])],
     w_faults = [], w_draws = 0\<rparr>"

lemma toy_env_simps [simp]:
  "e_bucket toy_env = toy_json" "e_object toy_env = toy_json" "e_manifest toy_env = toy_json"
  "e_uuid toy_env = show_nat" "e_enc toy_env = toy_enc" "e_dec toy_env = toy_dec" "e_b64 toy_env = toy_b64"
  "e_hmac toy_env = toy_hmac" "e_rfc3339 toy_env = (\<lambda>s. map_option int (parse_u64 s))"
  by (simp_all add: toy_env_def)

lemma toy_world_simps [simp]:
  "w_faults toy_world = []" "w_draws toy_world = 0" "st_buckets_dir toy_storage = [''buckets'']"
  "st_erasure_coding toy_storage = False" "st_quota toy_storage = from_config 0 0"
  by (simp_all add: toy_world_def toy_storage_def)

lemma toy_valid: "is_valid_bucket_name ''photos''"
  by code_simp

lemma toy_bucket_at: "bucket_at toy_env toy_storage (w_root toy_world) ''photos'' toy_bucket"
  using bucket_meta_path_eq [OF toy_valid] by (simp add: bucket_at_def toy_world_def lookup_Cons)

end
