(* ===== verification/Buckets.thy ===== *)
theory Buckets
  imports Toy
begin

text \<open>
  Buckets (\<open>filesystem/mod.rs\<close>, \<open>listing.rs\<close>, \<open>access_logging.rs\<close>): creation, existence,
  deletion with its two passes over the bucket's tree, and the configuration kept in
  \<open>.bucket.json\<close>.

  \<open>has_real_objects\<close> and \<open>purge_empty_bucket\<close> recurse over the directories that \<open>read_dir\<close>
  reported. The node a listing reported is passed along; reading that directory again is the
  system call \<open>list_node\<close>, which can fail like any other.
\<close>

section \<open>Creation and existence\<close>

definition create_bucket :: "env \<Rightarrow> FilesystemStorage \<Rightarrow> BucketMeta \<Rightarrow> (StorageError, bool) act" where
  "create_bucket E st meta =
     bind_act (lift_res (validate_bucket_name (bm_name meta))) (\<lambda>_.
     (let bucket_dir = join_path (st_buckets_dir st) (bm_name meta)
      in bind_act (attempt (fs_create_dir bucket_dir)) (\<lambda>r.
           case r of
             Inr _ \<Rightarrow>
               bind_act (attempt (fs_write (bucket_dir @ [''.bucket.json'']) (fst (e_bucket E) meta))) (\<lambda>r.
                 case r of
                   Inl e \<Rightarrow> bind_act (ignore (fs_remove_dir bucket_dir)) (\<lambda>_. fail (Io e))
                 | Inr _ \<Rightarrow> ok True)
           | Inl e \<Rightarrow> if io_kind e = AlreadyExistsKind then ok False else fail (Io e))))"

definition head_bucket :: "FilesystemStorage \<Rightarrow> string \<Rightarrow> (StorageError, bool) act" where
  "head_bucket st name =
     bind_act (lift_res (validate_bucket_name name)) (\<lambda>_.
       io (fs_try_exists (bucket_meta_path (st_buckets_dir st) name)))"

section \<open>Deletion\<close>

definition is_internal_entry :: "string \<Rightarrow> bool" where
  "is_internal_entry name \<longleftrightarrow>
     name = ''.bucket.json'' \<or> name = ''.uploads'' \<or> name = ''.versions'' \<or> ends_with name ''.meta.json''"

definition list_node :: "node \<Rightarrow> (StorageError, unit) act" where
  "list_node n = io (query (\<lambda>_. case n of File _ \<Rightarrow> Inl enotdir | Dir _ \<Rightarrow> Inr ()))"

fun has_real_objects :: "node \<Rightarrow> (StorageError, bool) act"
  and scan_real :: "(string \<times> node) list \<Rightarrow> (StorageError, bool) act" where
  "has_real_objects (File b) = bind_act (list_node (File b)) (\<lambda>_. ok False)"
| "has_real_objects (Dir es) = bind_act (list_node (Dir es)) (\<lambda>_. scan_real es)"
| "scan_real [] = ok False"
| "scan_real ((name, n) # es) =
     (if is_internal_entry name then scan_real es
      else (case n of
              File _ \<Rightarrow> ok True
            | Dir _ \<Rightarrow> if ends_with name ''.ec'' then ok True
                       else bind_act (has_real_objects n) (\<lambda>b. if b then ok True else scan_real es)))"

fun purge_empty_bucket :: "path \<Rightarrow> node \<Rightarrow> (StorageError, unit) act"
  and purge_entries :: "path \<Rightarrow> (string \<times> node) list \<Rightarrow> (StorageError, unit) act" where
  "purge_empty_bucket p (File b) = list_node (File b)"
| "purge_empty_bucket p (Dir es) = bind_act (list_node (Dir es)) (\<lambda>_. purge_entries p es)"
| "purge_entries p [] = ok ()"
| "purge_entries p ((name, n) # es) =
     (if is_internal_entry name
      then bind_act (io (case n of Dir _ \<Rightarrow> fs_remove_dir_all (p @ [name]) | File _ \<Rightarrow> fs_remove_file (p @ [name])))
             (\<lambda>_. purge_entries p es)
      else (case n of
              Dir _ \<Rightarrow> bind_act (purge_empty_bucket (p @ [name]) n) (\<lambda>_.
                       bind_act (io (fs_remove_dir (p @ [name]))) (\<lambda>_. purge_entries p es))
            | File _ \<Rightarrow> purge_entries p es))"

definition node_at :: "path \<Rightarrow> world \<Rightarrow> node" where
  "node_at p w = (case lookup p (w_root w) of Some n \<Rightarrow> n | None \<Rightarrow> Dir [])"

definition delete_bucket :: "FilesystemStorage \<Rightarrow> string \<Rightarrow> (StorageError, bool) act" where
  "delete_bucket st name =
     bind_act (lift_res (validate_bucket_name name)) (\<lambda>_.
     (let bucket_dir = join_path (st_buckets_dir st) name
      in bind_act (io (fs_try_exists bucket_dir)) (\<lambda>b.
         if \<not> b then ok False
         else bind_act (\<lambda>w. has_real_objects (node_at bucket_dir w) w) (\<lambda>real.
              if real then fail BucketNotEmpty
              else bind_act (\<lambda>w. purge_empty_bucket bucket_dir (node_at bucket_dir w) w) (\<lambda>_.
                   bind_act (attempt (fs_remove_dir bucket_dir)) (\<lambda>r.
                     case r of
                       Inr _ \<Rightarrow> ok True
                     | Inl e \<Rightarrow> if io_kind e = DirectoryNotEmptyKind then fail BucketNotEmpty else fail (Io e)))))))"

section \<open>Configuration\<close>

text \<open>The common shape: read \<open>.bucket.json\<close>, change the record, write it back.\<close>

definition edit_bucket_meta ::
  "env \<Rightarrow> FilesystemStorage \<Rightarrow> string \<Rightarrow> (BucketMeta \<Rightarrow> BucketMeta) \<Rightarrow> (StorageError, unit) act" where
  "edit_bucket_meta E st bucket f =
     bind_act (read_bucket_meta E st bucket) (\<lambda>meta.
       write_json (e_bucket E) (bucket_meta_path (st_buckets_dir st) bucket) (f meta))"

definition set_bucket_erasure_coding ::
  "env \<Rightarrow> FilesystemStorage \<Rightarrow> string \<Rightarrow> bool option \<Rightarrow> (StorageError, unit) act" where
  "set_bucket_erasure_coding E st bucket enabled =
     bind_act (lift_res (validate_bucket_name bucket)) (\<lambda>_.
       if enabled = Some True \<and> \<not> st_erasure_coding st
       then fail (InvalidKey ''per-bucket erasure coding requires server-wide MAXIO_ERASURE_CODING'')
       else edit_bucket_meta E st bucket (\<lambda>m. m\<lparr>bm_erasure_coding := enabled\<rparr>))"

definition check_lifecycle_rule :: "LifecycleRule \<Rightarrow> StorageError + unit" where
  "check_lifecycle_rule rule =
     (if lr_id rule = [] then Inl (InvalidKey ''lifecycle rule id must not be empty'')
      else if lr_expiration_days rule = Some 0 then Inl (InvalidKey ''lifecycle rule expiration_days must be > 0'')
      else Inr ())"

definition put_bucket_lifecycle ::
  "env \<Rightarrow> FilesystemStorage \<Rightarrow> string \<Rightarrow> LifecycleRule list \<Rightarrow> (StorageError, unit) act" where
  "put_bucket_lifecycle E st bucket rules =
     bind_act (lift_res (validate_bucket_name bucket)) (\<lambda>_.
     bind_act (lift_res (try_each check_lifecycle_rule rules)) (\<lambda>_.
       edit_bucket_meta E st bucket (\<lambda>m. m\<lparr>bm_lifecycle_rules := Some rules\<rparr>)))"

definition get_bucket_lifecycle :: "env \<Rightarrow> FilesystemStorage \<Rightarrow> string \<Rightarrow> (StorageError, LifecycleRule list option) act" where
  "get_bucket_lifecycle E st bucket = bind_act (read_bucket_meta E st bucket) (\<lambda>m. ok (bm_lifecycle_rules m))"

definition delete_bucket_lifecycle :: "env \<Rightarrow> FilesystemStorage \<Rightarrow> string \<Rightarrow> (StorageError, unit) act" where
  "delete_bucket_lifecycle E st bucket = edit_bucket_meta E st bucket (\<lambda>m. m\<lparr>bm_lifecycle_rules := None\<rparr>)"

definition set_versioning :: "env \<Rightarrow> FilesystemStorage \<Rightarrow> string \<Rightarrow> bool \<Rightarrow> (StorageError, unit) act" where
  "set_versioning E st bucket enabled = edit_bucket_meta E st bucket (\<lambda>m. m\<lparr>bm_versioning := enabled\<rparr>)"

definition get_bucket_public :: "env \<Rightarrow> FilesystemStorage \<Rightarrow> string \<Rightarrow> (StorageError, bool \<times> bool) act" where
  "get_bucket_public E st bucket =
     bind_act (read_bucket_meta E st bucket) (\<lambda>m. ok (bm_public_read m, bm_public_list m))"

definition policy_effects :: "env \<Rightarrow> string \<Rightarrow> string \<Rightarrow> StorageError + PolicyEffects" where
  "policy_effects E bucket policy =
     (case evaluate_v1_policy (e_policy E) bucket policy of
        Inr effects \<Rightarrow> Inr effects
      | Inl _ \<Rightarrow> bind_res (map_err InvalidKey (validate_policy_v2 (e_policy E) bucket policy))
                   (\<lambda>_. Inr \<lparr>pe_public_read = False, pe_public_list = False\<rparr>))"

definition put_bucket_policy :: "env \<Rightarrow> FilesystemStorage \<Rightarrow> string \<Rightarrow> string \<Rightarrow> (StorageError, unit) act" where
  "put_bucket_policy E st bucket policy =
     bind_act (lift_res (validate_bucket_name bucket)) (\<lambda>_.
     bind_act (lift_res (policy_effects E bucket policy)) (\<lambda>effects.
       edit_bucket_meta E st bucket (\<lambda>m. m\<lparr>bm_bucket_policy := Some policy,
          bm_public_read := pe_public_read effects, bm_public_list := pe_public_list effects\<rparr>)))"

definition get_bucket_policy :: "env \<Rightarrow> FilesystemStorage \<Rightarrow> string \<Rightarrow> (StorageError, string option) act" where
  "get_bucket_policy E st bucket = bind_act (read_bucket_meta E st bucket) (\<lambda>m. ok (bm_bucket_policy m))"

definition delete_bucket_policy :: "env \<Rightarrow> FilesystemStorage \<Rightarrow> string \<Rightarrow> (StorageError, unit) act" where
  "delete_bucket_policy E st bucket =
     edit_bucket_meta E st bucket (\<lambda>m. m\<lparr>bm_bucket_policy := None, bm_public_read := False, bm_public_list := False\<rparr>)"

definition set_bucket_public :: "env \<Rightarrow> FilesystemStorage \<Rightarrow> string \<Rightarrow> bool \<Rightarrow> bool \<Rightarrow> (StorageError, unit) act" where
  "set_bucket_public E st bucket rd ls =
     edit_bucket_meta E st bucket (\<lambda>m. m\<lparr>bm_public_read := rd, bm_public_list := ls\<rparr>)"

definition put_bucket_cors :: "env \<Rightarrow> FilesystemStorage \<Rightarrow> string \<Rightarrow> CorsRule list \<Rightarrow> (StorageError, unit) act" where
  "put_bucket_cors E st bucket rules = edit_bucket_meta E st bucket (\<lambda>m. m\<lparr>bm_cors_rules := Some rules\<rparr>)"

definition get_bucket_cors :: "env \<Rightarrow> FilesystemStorage \<Rightarrow> string \<Rightarrow> (StorageError, CorsRule list option) act" where
  "get_bucket_cors E st bucket = bind_act (read_bucket_meta E st bucket) (\<lambda>m. ok (bm_cors_rules m))"

definition delete_bucket_cors :: "env \<Rightarrow> FilesystemStorage \<Rightarrow> string \<Rightarrow> (StorageError, unit) act" where
  "delete_bucket_cors E st bucket = edit_bucket_meta E st bucket (\<lambda>m. m\<lparr>bm_cors_rules := None\<rparr>)"

definition put_bucket_encryption ::
  "env \<Rightarrow> FilesystemStorage \<Rightarrow> string \<Rightarrow> BucketEncryptionConfig \<Rightarrow> (StorageError, unit) act" where
  "put_bucket_encryption E st bucket config = edit_bucket_meta E st bucket (\<lambda>m. m\<lparr>bm_encryption_config := Some config\<rparr>)"

definition get_bucket_encryption ::
  "env \<Rightarrow> FilesystemStorage \<Rightarrow> string \<Rightarrow> (StorageError, BucketEncryptionConfig option) act" where
  "get_bucket_encryption E st bucket = bind_act (read_bucket_meta E st bucket) (\<lambda>m. ok (bm_encryption_config m))"

definition delete_bucket_encryption :: "env \<Rightarrow> FilesystemStorage \<Rightarrow> string \<Rightarrow> (StorageError, unit) act" where
  "delete_bucket_encryption E st bucket = edit_bucket_meta E st bucket (\<lambda>m. m\<lparr>bm_encryption_config := None\<rparr>)"

definition get_bucket_logging :: "env \<Rightarrow> FilesystemStorage \<Rightarrow> string \<Rightarrow> (StorageError, (string \<times> string) option) act" where
  "get_bucket_logging E st bucket =
     bind_act (read_bucket_meta E st bucket) (\<lambda>m.
       ok (case bm_logging_target_bucket m of
             Some target \<Rightarrow> Some (target, case bm_logging_target_prefix m of Some p \<Rightarrow> p | None \<Rightarrow> [])
           | None \<Rightarrow> None))"

definition put_bucket_logging ::
  "env \<Rightarrow> FilesystemStorage \<Rightarrow> string \<Rightarrow> string \<Rightarrow> string \<Rightarrow> (StorageError, unit) act" where
  "put_bucket_logging E st bucket target_bucket target_prefix =
     bind_act (lift_res (validate_bucket_name bucket)) (\<lambda>_.
     bind_act (lift_res (validate_bucket_name target_bucket)) (\<lambda>_.
       if bucket = target_bucket then fail (InvalidKey ''logging target bucket must differ from source bucket'')
       else bind_act (head_bucket st target_bucket) (\<lambda>b.
            if \<not> b then fail (NotFound target_bucket)
            else edit_bucket_meta E st bucket (\<lambda>m. m\<lparr>bm_logging_target_bucket := Some target_bucket,
                   bm_logging_target_prefix := (if target_prefix = [] then None else Some target_prefix)\<rparr>))))"

definition delete_bucket_logging :: "env \<Rightarrow> FilesystemStorage \<Rightarrow> string \<Rightarrow> (StorageError, unit) act" where
  "delete_bucket_logging E st bucket =
     edit_bucket_meta E st bucket (\<lambda>m. m\<lparr>bm_logging_target_bucket := None, bm_logging_target_prefix := None\<rparr>)"

definition get_bucket_notification ::
  "env \<Rightarrow> FilesystemStorage \<Rightarrow> string \<Rightarrow> (StorageError, BucketNotificationConfig option) act" where
  "get_bucket_notification E st bucket = bind_act (read_bucket_meta E st bucket) (\<lambda>m. ok (bm_notification_config m))"

definition put_bucket_notification ::
  "env \<Rightarrow> FilesystemStorage \<Rightarrow> string \<Rightarrow> BucketNotificationConfig \<Rightarrow> (StorageError, unit) act" where
  "put_bucket_notification E st bucket config =
     edit_bucket_meta E st bucket (\<lambda>m. m\<lparr>bm_notification_config := Some config\<rparr>)"

definition delete_bucket_notification :: "env \<Rightarrow> FilesystemStorage \<Rightarrow> string \<Rightarrow> (StorageError, unit) act" where
  "delete_bucket_notification E st bucket = edit_bucket_meta E st bucket (\<lambda>m. m\<lparr>bm_notification_config := None\<rparr>)"

definition put_bucket_object_lock ::
  "env \<Rightarrow> FilesystemStorage \<Rightarrow> string \<Rightarrow> ObjectLockConfig \<Rightarrow> (StorageError, unit) act" where
  "put_bucket_object_lock E st bucket config =
     bind_act (read_bucket_meta E st bucket) (\<lambda>meta.
       if \<not> bm_object_lock_enabled meta then fail (InvalidKey ''object lock must be enabled at bucket creation'')
       else write_json (e_bucket E) (bucket_meta_path (st_buckets_dir st) bucket)
              (meta\<lparr>bm_object_lock_config := Some config\<rparr>))"

definition get_bucket_object_lock :: "env \<Rightarrow> FilesystemStorage \<Rightarrow> string \<Rightarrow> (StorageError, ObjectLockConfig option) act" where
  "get_bucket_object_lock E st bucket =
     bind_act (read_bucket_meta E st bucket) (\<lambda>m.
       ok (if bm_object_lock_enabled m then bm_object_lock_config m else None))"

section \<open>The table of bucket records\<close>

text \<open>
  What the storage promises about bucket records, as an interface: a table from names to
  records that \<open>read\<close> returns and \<open>edit\<close> updates in one place.
\<close>

locale meta_table =
  fixes good :: "world \<Rightarrow> bool" and tab :: "world \<Rightarrow> string \<Rightarrow> BucketMeta option"
    and edit :: "string \<Rightarrow> (BucketMeta \<Rightarrow> BucketMeta) \<Rightarrow> (StorageError, unit) act"
    and read :: "string \<Rightarrow> (StorageError, BucketMeta) act"
  assumes edit_present: "\<lbrakk>good w; is_valid_bucket_name b; tab w b = Some m\<rbrakk> \<Longrightarrow>
      \<exists>w'. edit b f w = (Inr (), w') \<and> good w' \<and> tab w' b = Some (f m)
        \<and> (\<forall>c. is_valid_bucket_name c \<and> c \<noteq> b \<longrightarrow> tab w' c = tab w c)"
    and read_present: "\<lbrakk>good w; is_valid_bucket_name b; tab w b = Some m\<rbrakk> \<Longrightarrow> read b w = (Inr m, w)"
    and read_absent: "\<lbrakk>good w; is_valid_bucket_name b; tab w b = None\<rbrakk> \<Longrightarrow> read b w = (Inl (NotFound b), w)"
    and edit_absent: "\<lbrakk>good w; is_valid_bucket_name b; tab w b = None\<rbrakk> \<Longrightarrow> edit b f w = (Inl (NotFound b), w)"
begin

text \<open>An operation that returns an error or edits the record of its bucket.\<close>

definition refines ::
  "string \<Rightarrow> (StorageError, unit) act \<Rightarrow> ((string \<Rightarrow> BucketMeta option) \<Rightarrow> BucketMeta \<Rightarrow> StorageError + BucketMeta) \<Rightarrow> bool" where
  "refines b m spec \<longleftrightarrow> (\<forall>w old. good w \<and> tab w b = Some old \<longrightarrow>
     (\<exists>w'. good w' \<and> (\<forall>c. is_valid_bucket_name c \<and> c \<noteq> b \<longrightarrow> tab w' c = tab w c)
        \<and> (case spec (tab w) old of
             Inl e \<Rightarrow> m w = (Inl e, w') \<and> tab w' b = Some old
           | Inr new \<Rightarrow> m w = (Inr (), w') \<and> tab w' b = Some new)))"

lemma refines_edit: "is_valid_bucket_name b \<Longrightarrow> refines b (edit b f) (\<lambda>_ old. Inr (f old))"
  unfolding refines_def using edit_present by fastforce

lemma refines_guard:
  "refines b m spec \<Longrightarrow> refines b (bind_act (lift_res (Inr x)) (\<lambda>_. m)) spec"
  by simp

lemma refines_fail: "refines b (fail e) (\<lambda>_ _. Inl e)"
  by (auto simp: refines_def fail_def)

lemma refines_res:
  assumes "\<And>x. refines b (k x) (spec x)"
  shows "refines b (bind_act (lift_res r) k) (\<lambda>t old. bind_res r (\<lambda>x. spec x t old))"
proof (cases r)
  case (Inl e)
  then show ?thesis by (auto simp: refines_def fail_def)
next
  case (Inr x)
  with assms [of x] show ?thesis by simp
qed

lemma refines_cong: "refines b m spec' \<Longrightarrow> (\<And>t old. spec t old = spec' t old) \<Longrightarrow> refines b m spec"
  by (simp add: refines_def)

lemma refines_if:
  "refines b m s \<Longrightarrow> refines b m' s' \<Longrightarrow> refines b (if c then m else m') (\<lambda>t old. if c then s t old else s' t old)"
  by simp

end

definition bucket_table :: "env \<Rightarrow> FilesystemStorage \<Rightarrow> world \<Rightarrow> string \<Rightarrow> BucketMeta option" where
  "bucket_table E st w b =
     (case lookup (bucket_meta_path (st_buckets_dir st) b) (w_root w) of
        Some (File d) \<Rightarrow> (case snd (e_bucket E) d of Inr m \<Rightarrow> Some m | Inl _ \<Rightarrow> None)
      | _ \<Rightarrow> None)"

text \<open>Every bucket directory holds either no record or one that was written by the program.\<close>

definition bucket_entry_ok :: "env \<Rightarrow> FilesystemStorage \<Rightarrow> node \<Rightarrow> string \<Rightarrow> bool" where
  "bucket_entry_ok E st t b \<longleftrightarrow>
     lookup (st_buckets_dir st @ [b]) t = None
     \<or> is_dir_at (st_buckets_dir st @ [b]) t
       \<and> (lookup (st_buckets_dir st @ [b, ''.bucket.json'']) t = None
          \<or> (\<exists>m. lookup (st_buckets_dir st @ [b, ''.bucket.json'']) t = Some (File (fst (e_bucket E) m))))"

definition good_buckets :: "env \<Rightarrow> FilesystemStorage \<Rightarrow> world \<Rightarrow> bool" where
  "good_buckets E st w \<longleftrightarrow>
     json_law (e_bucket E) \<and> store_ok st (w_root w) \<and> w_faults w = []
     \<and> (\<forall>b. is_valid_bucket_name b \<longrightarrow> bucket_entry_ok E st (w_root w) b)"

lemma bucket_table_Some:
  assumes "good_buckets E st w" "is_valid_bucket_name b"
  shows "bucket_table E st w b = Some m \<longleftrightarrow> bucket_at E st (w_root w) b m"
proof -
  let ?p = "st_buckets_dir st @ [b, ''.bucket.json'']"
  have j: "snd (e_bucket E) (fst (e_bucket E) m) = Inr m" for m
    using assms(1) by (auto simp: good_buckets_def json_law_def)
  have sub: "lookup ?p (w_root w) = None" if "lookup (st_buckets_dir st @ [b]) (w_root w) = None"
    using that lookup_append [of "st_buckets_dir st @ [b]" "[''.bucket.json'']" "w_root w"] by simp
  have "lookup ?p (w_root w) = None \<or> (\<exists>m. lookup ?p (w_root w) = Some (File (fst (e_bucket E) m)))"
    using assms sub by (auto simp: good_buckets_def bucket_entry_ok_def)
  then show ?thesis
  proof
    assume "\<exists>m. lookup ?p (w_root w) = Some (File (fst (e_bucket E) m))"
    then obtain m' where "lookup ?p (w_root w) = Some (File (fst (e_bucket E) m'))" ..
    then show ?thesis using j [of m] j [of m']
      by (auto simp: bucket_table_def bucket_at_def bucket_meta_path_eq [OF assms(2)])
  qed (simp add: bucket_table_def bucket_at_def bucket_meta_path_eq [OF assms(2)])
qed

lemma bucket_table_None:
  assumes "good_buckets E st w" "is_valid_bucket_name b" "bucket_table E st w b = None"
  shows "lookup (st_buckets_dir st @ [b, ''.bucket.json'']) (w_root w) = None"
proof (cases "lookup (st_buckets_dir st @ [b]) (w_root w)")
  case None
  then show ?thesis using lookup_append [of "st_buckets_dir st @ [b]" "[''.bucket.json'']" "w_root w"] by simp
next
  case (Some n)
  have "\<not> bucket_at E st (w_root w) b m" for m using assms bucket_table_Some [OF assms(1,2)] by simp
  moreover have "bucket_entry_ok E st (w_root w) b" using assms(1,2) by (simp add: good_buckets_def)
  ultimately show ?thesis
    using Some by (auto simp: bucket_entry_ok_def bucket_at_def bucket_meta_path_eq [OF assms(2)])
qed

lemma resolve_below_missing:
  "is_dir_at d t \<Longrightarrow> lookup (d @ [x]) t = None \<Longrightarrow> resolve (d @ x # r) t = Inl enoent"
proof (induction d arbitrary: t)
  case Nil
  then show ?case by (cases t) (auto simp: is_dir_at_Dir lookup_Cons split: option.splits)
next
  case (Cons a d)
  then show ?case by (cases t) (auto simp: is_dir_at_Dir lookup_Cons split: option.splits)
qed

lemma bucket_resolve_missing:
  assumes "good_buckets E st w" "is_valid_bucket_name b" "bucket_table E st w b = None"
  shows "resolve (st_buckets_dir st @ [b, ''.bucket.json'']) (w_root w) = Inl enoent"
proof (cases "lookup (st_buckets_dir st @ [b]) (w_root w)")
  case None
  with assms(1) show ?thesis by (intro resolve_below_missing) (auto simp: good_buckets_def store_ok_def)
next
  case (Some n')
  have "bucket_entry_ok E st (w_root w) b" using assms(1,2) by (simp add: good_buckets_def)
  with Some have "is_dir_at (st_buckets_dir st @ [b]) (w_root w)" by (auto simp: bucket_entry_ok_def)
  with bucket_table_None [OF assms] show ?thesis by (simp add: resolve_absent butlast_append)
qed

lemma bucket_read_missing:
  assumes "good_buckets E st w" "is_valid_bucket_name b" "bucket_table E st w b = None"
  shows "read_bucket_meta E st b w = (Inl (NotFound b), w)"
proof -
  have "plain (st_buckets_dir st @ [b, ''.bucket.json''])" "w_faults w = []"
    using assms(1,2) valid_bucket_plain by (auto simp: good_buckets_def store_ok_def)
  with bucket_resolve_missing [OF assms] assms(2) show ?thesis
    by (simp add: read_bucket_meta_def read_json_def act_defs validate_bucket_name_def bucket_meta_path_eq
        fs_read_to_string_def query_quiet read_at_def stat_at_plain)
qed

lemma good_buckets_write:
  assumes "good_buckets E st w" "is_valid_bucket_name b" "is_dir_at (st_buckets_dir st @ [b]) (w_root w)"
  shows "good_buckets E st (w\<lparr>w_root := set_node (st_buckets_dir st @ [b, ''.bucket.json'']) (Some (File (fst (e_bucket E) m))) (w_root w)\<rparr>)"
proof -
  let ?bd = "st_buckets_dir st" and ?p = "st_buckets_dir st @ [b, ''.bucket.json'']"
  let ?t = "set_node ?p (Some (File (fst (e_bucket E) m))) (w_root w)"
  have bd: "is_dir_at ?bd ?t" using assms(1) is_dir_at_set_above [of ?bd "w_root w" "[b, ''.bucket.json'']"]
    by (simp add: good_buckets_def store_ok_def)
  have "bucket_entry_ok E st ?t c" if "is_valid_bucket_name c" for c
  proof (cases "c = b")
    case True
    have "is_dir_at (?bd @ [b]) ?t" using is_dir_at_set_above [OF assms(3), of "[''.bucket.json'']"] by simp
    moreover have "lookup ?p ?t = Some (File (fst (e_bucket E) m))"
      using assms(3) lookup_set_same [of ?p "w_root w"] by (simp add: butlast_append)
    ultimately show ?thesis using True by (auto simp: bucket_entry_ok_def)
  next
    case False
    then have "apart ?p (?bd @ [c])" "apart ?p (?bd @ [c, ''.bucket.json''])" by (auto simp: apart_def)
    then show ?thesis using assms(1) that
      by (simp add: bucket_entry_ok_def good_buckets_def lookup_set_apart is_dir_at_set_apart)
  qed
  with bd assms(1) show ?thesis by (simp add: good_buckets_def store_ok_def)
qed

lemma edit_bucket_meta_exact:
  assumes "good_buckets E st w" "is_valid_bucket_name b" "bucket_table E st w b = Some m"
  shows "edit_bucket_meta E st b f w =
      (Inr (), w\<lparr>w_root := set_node (st_buckets_dir st @ [b, ''.bucket.json'']) (Some (File (fst (e_bucket E) (f m)))) (w_root w)\<rparr>)
    \<and> is_dir_at (st_buckets_dir st @ [b]) (w_root w)"
proof -
  let ?p = "st_buckets_dir st @ [b, ''.bucket.json'']"
  have g: "json_law (e_bucket E)" "store_ok st (w_root w)" "w_faults w = []" using assms(1) by (auto simp: good_buckets_def)
  have at: "bucket_at E st (w_root w) b m" using assms bucket_table_Some by blast
  then have f: "lookup ?p (w_root w) = Some (File (fst (e_bucket E) m))"
    using assms(2) by (simp add: bucket_at_def bucket_meta_path_eq)
  have d: "is_dir_at (butlast ?p) (w_root w)" using exists_parent [OF f] by simp
  have pl: "plain ?p" using g(2) valid_bucket_plain [OF assms(2)] by (auto simp: store_ok_def)
  show ?thesis
    using read_bucket_meta_ok [OF g assms(2) at] write_json_ok [OF pl _ g(3) d] f assms(2) d
    by (simp add: edit_bucket_meta_def bind_act_def bucket_meta_path_eq is_dir_at_def butlast_append)
qed

interpretation bt: meta_table "good_buckets E st" "bucket_table E st" "edit_bucket_meta E st" "read_bucket_meta E st" for E st
proof (unfold_locales, goal_cases)
  case (1 w b m f)
  let ?p = "st_buckets_dir st @ [b, ''.bucket.json'']"
  let ?w = "w\<lparr>w_root := set_node ?p (Some (File (fst (e_bucket E) (f m)))) (w_root w)\<rparr>"
  have e: "edit_bucket_meta E st b f w = (Inr (), ?w)" and d': "is_dir_at (st_buckets_dir st @ [b]) (w_root w)"
    using edit_bucket_meta_exact [OF 1] by auto
  then have d: "is_dir_at (butlast ?p) (w_root w)" by (simp add: butlast_append)
  note e
  moreover have gw: "good_buckets E st ?w" by (rule good_buckets_write [OF 1(1,2) d'])
  moreover have "bucket_table E st ?w b = Some (f m)"
    using bucket_table_Some [OF gw 1(2)] lookup_set_same [OF d] 1(2) by (simp add: bucket_at_def bucket_meta_path_eq)
  moreover have "bucket_table E st ?w c = bucket_table E st w c" if "is_valid_bucket_name c" "c \<noteq> b" for c
  proof -
    have "apart ?p (st_buckets_dir st @ [c, ''.bucket.json''])" using that(2) by (auto simp: apart_def)
    then show ?thesis using that(1) by (simp add: bucket_table_def bucket_meta_path_eq lookup_set_apart)
  qed
  ultimately show ?case by blast
next
  case (2 w b m)
  then show ?case using bucket_table_Some [OF 2(1,2)] read_bucket_meta_ok [of E st w b m] by (auto simp: good_buckets_def)
next
  case (3 w b)
  then show ?case by (rule bucket_read_missing)
next
  case (4 w b f)
  from bucket_read_missing [OF 4] show ?case by (simp add: edit_bucket_meta_def bind_act_def)
qed

section \<open>The abstract table and its operations\<close>

datatype bucket_op =
    OpErasure "bool option" | OpLifecycle "LifecycleRule list" | OpNoLifecycle | OpVersioning bool
  | OpPolicy string | OpNoPolicy | OpPublic bool bool | OpCors "CorsRule list" | OpNoCors
  | OpEncryption BucketEncryptionConfig | OpNoEncryption | OpLogging string string | OpNoLogging
  | OpNotification BucketNotificationConfig | OpNoNotification | OpObjectLock ObjectLockConfig

fun run_bucket_op :: "env \<Rightarrow> FilesystemStorage \<Rightarrow> string \<Rightarrow> bucket_op \<Rightarrow> (StorageError, unit) act" where
  "run_bucket_op E st b (OpErasure v) = set_bucket_erasure_coding E st b v"
| "run_bucket_op E st b (OpLifecycle rs) = put_bucket_lifecycle E st b rs"
| "run_bucket_op E st b OpNoLifecycle = delete_bucket_lifecycle E st b"
| "run_bucket_op E st b (OpVersioning v) = set_versioning E st b v"
| "run_bucket_op E st b (OpPolicy p) = put_bucket_policy E st b p"
| "run_bucket_op E st b OpNoPolicy = delete_bucket_policy E st b"
| "run_bucket_op E st b (OpPublic r l) = set_bucket_public E st b r l"
| "run_bucket_op E st b (OpCors rs) = put_bucket_cors E st b rs"
| "run_bucket_op E st b OpNoCors = delete_bucket_cors E st b"
| "run_bucket_op E st b (OpEncryption c) = put_bucket_encryption E st b c"
| "run_bucket_op E st b OpNoEncryption = delete_bucket_encryption E st b"
| "run_bucket_op E st b (OpLogging t p) = put_bucket_logging E st b t p"
| "run_bucket_op E st b OpNoLogging = delete_bucket_logging E st b"
| "run_bucket_op E st b (OpNotification c) = put_bucket_notification E st b c"
| "run_bucket_op E st b OpNoNotification = delete_bucket_notification E st b"
| "run_bucket_op E st b (OpObjectLock c) = put_bucket_object_lock E st b c"

text \<open>What each operation does to the record of its bucket, given the whole table.\<close>

fun spec_bucket_op ::
  "env \<Rightarrow> FilesystemStorage \<Rightarrow> string \<Rightarrow> bucket_op \<Rightarrow> (string \<Rightarrow> BucketMeta option) \<Rightarrow> BucketMeta \<Rightarrow> StorageError + BucketMeta" where
  "spec_bucket_op E st b (OpErasure v) t m =
     (if v = Some True \<and> \<not> st_erasure_coding st
      then Inl (InvalidKey ''per-bucket erasure coding requires server-wide MAXIO_ERASURE_CODING'')
      else Inr (m\<lparr>bm_erasure_coding := v\<rparr>))"
| "spec_bucket_op E st b (OpLifecycle rs) t m =
     bind_res (try_each check_lifecycle_rule rs) (\<lambda>_. Inr (m\<lparr>bm_lifecycle_rules := Some rs\<rparr>))"
| "spec_bucket_op E st b OpNoLifecycle t m = Inr (m\<lparr>bm_lifecycle_rules := None\<rparr>)"
| "spec_bucket_op E st b (OpVersioning v) t m = Inr (m\<lparr>bm_versioning := v\<rparr>)"
| "spec_bucket_op E st b (OpPolicy p) t m =
     bind_res (policy_effects E b p) (\<lambda>e. Inr (m\<lparr>bm_bucket_policy := Some p,
        bm_public_read := pe_public_read e, bm_public_list := pe_public_list e\<rparr>))"
| "spec_bucket_op E st b OpNoPolicy t m = Inr (m\<lparr>bm_bucket_policy := None, bm_public_read := False, bm_public_list := False\<rparr>)"
| "spec_bucket_op E st b (OpPublic r l) t m = Inr (m\<lparr>bm_public_read := r, bm_public_list := l\<rparr>)"
| "spec_bucket_op E st b (OpCors rs) t m = Inr (m\<lparr>bm_cors_rules := Some rs\<rparr>)"
| "spec_bucket_op E st b OpNoCors t m = Inr (m\<lparr>bm_cors_rules := None\<rparr>)"
| "spec_bucket_op E st b (OpEncryption c) t m = Inr (m\<lparr>bm_encryption_config := Some c\<rparr>)"
| "spec_bucket_op E st b OpNoEncryption t m = Inr (m\<lparr>bm_encryption_config := None\<rparr>)"
| "spec_bucket_op E st b (OpLogging target pre) t m =
     (if \<not> is_valid_bucket_name target then Inl (InvalidKey (''invalid bucket name: '' @ target))
      else if b = target then Inl (InvalidKey ''logging target bucket must differ from source bucket'')
      else if t target = None then Inl (NotFound target)
      else Inr (m\<lparr>bm_logging_target_bucket := Some target,
                  bm_logging_target_prefix := (if pre = [] then None else Some pre)\<rparr>))"
| "spec_bucket_op E st b OpNoLogging t m = Inr (m\<lparr>bm_logging_target_bucket := None, bm_logging_target_prefix := None\<rparr>)"
| "spec_bucket_op E st b (OpNotification c) t m = Inr (m\<lparr>bm_notification_config := Some c\<rparr>)"
| "spec_bucket_op E st b OpNoNotification t m = Inr (m\<lparr>bm_notification_config := None\<rparr>)"
| "spec_bucket_op E st b (OpObjectLock c) t m =
     (if bm_object_lock_enabled m then Inr (m\<lparr>bm_object_lock_config := Some c\<rparr>)
      else Inl (InvalidKey ''object lock must be enabled at bucket creation''))"

lemma head_bucket_table:
  assumes "good_buckets E st w" "is_valid_bucket_name b"
  shows "head_bucket st b w = (Inr (bucket_table E st w b \<noteq> None), w)"
proof (cases "bucket_table E st w b")
  case None
  let ?p = "st_buckets_dir st @ [b, ''.bucket.json'']"
  have s: "plain ?p" "w_faults w = []"
    using assms valid_bucket_plain by (auto simp: good_buckets_def store_ok_def)
  from bucket_resolve_missing [OF assms None]
  None s assms(2) show ?thesis
    by (simp add: head_bucket_def validate_bucket_name_def io_def map_err_act_def fs_try_exists_def query_quiet
        bucket_meta_path_eq stat_at_plain)
next
  case (Some m)
  then have "lookup (st_buckets_dir st @ [b, ''.bucket.json'']) (w_root w) \<noteq> None"
    using bucket_table_Some [OF assms] assms(2) by (simp add: bucket_at_def bucket_meta_path_eq)
  then obtain n where "resolve (st_buckets_dir st @ [b, ''.bucket.json'']) (w_root w) = Inr n"
    by (auto simp: lookup_def split: sum.splits)
  moreover have "plain (st_buckets_dir st @ [b, ''.bucket.json''])" "w_faults w = []"
    using assms valid_bucket_plain by (auto simp: good_buckets_def store_ok_def)
  ultimately show ?thesis using Some assms(2)
    by (simp add: head_bucket_def validate_bucket_name_def io_def map_err_act_def fs_try_exists_def query_quiet
        bucket_meta_path_eq stat_at_plain)
qed

lemma bucket_op_refines:
  assumes v: "is_valid_bucket_name b"
  shows "bt.refines E st b (run_bucket_op E st b op) (spec_bucket_op E st b op)"
proof -
  note edit = bt.refines_edit [OF v]
  have val: "validate_bucket_name c = (if is_valid_bucket_name c then Inr () else Inl (InvalidKey (''invalid bucket name: '' @ c)))" for c
    by (simp add: validate_bucket_name_def)
  show ?thesis
  proof (cases op)
    case (OpErasure x)
    have "bt.refines E st b (run_bucket_op E st b op) (\<lambda>t m. if x = Some True \<and> \<not> st_erasure_coding st
        then Inl (InvalidKey ''per-bucket erasure coding requires server-wide MAXIO_ERASURE_CODING'')
        else Inr (m\<lparr>bm_erasure_coding := x\<rparr>))"
      using bt.refines_if [OF bt.refines_fail edit] by (simp only: OpErasure run_bucket_op.simps set_bucket_erasure_coding_def val v if_True bind_act_simps)
    then show ?thesis by (rule bt.refines_cong) (simp add: OpErasure)
  next
    case (OpLifecycle x)
    show ?thesis unfolding OpLifecycle run_bucket_op.simps put_bucket_lifecycle_def
      by (simp only: val v if_True bind_act_simps) (rule bt.refines_cong [OF bt.refines_res [OF edit]], simp)
  next
    case (OpPolicy p)
    show ?thesis unfolding OpPolicy run_bucket_op.simps put_bucket_policy_def
      by (simp only: val v if_True bind_act_simps) (rule bt.refines_cong [OF bt.refines_res [OF edit]], simp)
  next
    case (OpLogging t p)
    show ?thesis
      unfolding bt.refines_def
    proof (intro allI impI)
      fix w old
      assume w: "good_buckets E st w \<and> bucket_table E st w b = Some old"
      from bt.edit_present [OF _ v, of E st w old "\<lambda>m. m\<lparr>bm_logging_target_bucket := Some t,
           bm_logging_target_prefix := (if p = [] then None else Some p)\<rparr>"] w
        head_bucket_table [of E st w t]
      show "\<exists>w'. good_buckets E st w' \<and> (\<forall>c. is_valid_bucket_name c \<and> c \<noteq> b \<longrightarrow> bucket_table E st w' c = bucket_table E st w c)
        \<and> (case spec_bucket_op E st b op (bucket_table E st w) old of
             Inl e \<Rightarrow> run_bucket_op E st b op w = (Inl e, w') \<and> bucket_table E st w' b = Some old
           | Inr new \<Rightarrow> run_bucket_op E st b op w = (Inr (), w') \<and> bucket_table E st w' b = Some new)"
        by (cases "is_valid_bucket_name t"; cases "b = t"; cases "bucket_table E st w t")
           (auto simp: OpLogging put_bucket_logging_def val v bind_act_def fail_def)
    qed
  next
    case (OpObjectLock c)
    show ?thesis
      unfolding bt.refines_def
    proof (intro allI impI)
      fix w old
      assume w: "good_buckets E st w \<and> bucket_table E st w b = Some old"
      have rd: "read_bucket_meta E st b w = (Inr old, w)" using w v bt.read_present by blast
      from bt.edit_present [OF _ v, of E st w old "\<lambda>m. m\<lparr>bm_object_lock_config := Some c\<rparr>"] w rd
      show "\<exists>w'. good_buckets E st w' \<and> (\<forall>c. is_valid_bucket_name c \<and> c \<noteq> b \<longrightarrow> bucket_table E st w' c = bucket_table E st w c)
        \<and> (case spec_bucket_op E st b op (bucket_table E st w) old of
             Inl e \<Rightarrow> run_bucket_op E st b op w = (Inl e, w') \<and> bucket_table E st w' b = Some old
           | Inr new \<Rightarrow> run_bucket_op E st b op w = (Inr (), w') \<and> bucket_table E st w' b = Some new)"
        by (cases "bm_object_lock_enabled old")
           (auto simp: OpObjectLock put_bucket_object_lock_def edit_bucket_meta_def bind_act_def fail_def)
    qed
  qed (simp only: run_bucket_op.simps delete_bucket_lifecycle_def set_versioning_def delete_bucket_policy_def
      set_bucket_public_def put_bucket_cors_def delete_bucket_cors_def put_bucket_encryption_def
      delete_bucket_encryption_def delete_bucket_logging_def put_bucket_notification_def delete_bucket_notification_def;
      rule bt.refines_cong [OF edit]; simp)+
qed

text \<open>A sequence of configuration requests, each on a bucket of its own; failures are reported and skipped.\<close>

fun run_bucket_ops :: "env \<Rightarrow> FilesystemStorage \<Rightarrow> (string \<times> bucket_op) list \<Rightarrow> world \<Rightarrow> (StorageError + unit) list \<times> world" where
  "run_bucket_ops E st [] w = ([], w)"
| "run_bucket_ops E st ((b, op) # ops) w =
     (let (r, w') = run_bucket_op E st b op w; (rs, w'') = run_bucket_ops E st ops w' in (r # rs, w''))"

fun spec_bucket_ops ::
  "env \<Rightarrow> FilesystemStorage \<Rightarrow> (string \<times> bucket_op) list \<Rightarrow> (string \<Rightarrow> BucketMeta option)
     \<Rightarrow> (StorageError + unit) list \<times> (string \<Rightarrow> BucketMeta option)" where
  "spec_bucket_ops E st [] t = ([], t)"
| "spec_bucket_ops E st ((b, op) # ops) t =
     (case spec_bucket_op E st b op t (the (t b)) of
        Inl e \<Rightarrow> (let (rs, t') = spec_bucket_ops E st ops t in (Inl e # rs, t'))
      | Inr m \<Rightarrow> (let (rs, t') = spec_bucket_ops E st ops (t(b \<mapsto> m)) in (Inr () # rs, t')))"

lemma spec_bucket_op_cong:
  "(\<And>c. is_valid_bucket_name c \<Longrightarrow> t c = t' c) \<Longrightarrow> spec_bucket_op E st b op t m = spec_bucket_op E st b op t' m"
  by (cases op) auto

text \<open>
  C24. The bucket configuration refines an abstract table: any sequence of configuration requests
  (erasure coding, lifecycle, versioning, policy, public flags, CORS, encryption, logging,
  notification, object lock; puts and deletes) on existing buckets returns the results the
  abstract operations give and leaves on disk exactly the table they compute. In particular a
  refused request changes nothing and no request touches another bucket or another setting.
\<close>

theorem bucket_configuration_refines:
  assumes "good_buckets E st w" and "\<forall>(b, op) \<in> set ops. is_valid_bucket_name b \<and> bucket_table E st w b \<noteq> None"
    and "\<forall>b. is_valid_bucket_name b \<longrightarrow> t b = bucket_table E st w b"
  shows "\<exists>w'. run_bucket_ops E st ops w = (fst (spec_bucket_ops E st ops t), w') \<and> good_buckets E st w'
    \<and> (\<forall>b. is_valid_bucket_name b \<longrightarrow> bucket_table E st w' b = snd (spec_bucket_ops E st ops t) b)"
  using assms
proof (induction ops arbitrary: w t)
  case (Cons x ops)
  obtain b op where x: "x = (b, op)" by (cases x)
  from Cons.prems(2) x obtain old where v: "is_valid_bucket_name b" and old: "bucket_table E st w b = Some old" by auto
  have t: "t b = Some old" using Cons.prems(3) v old by simp
  have sp: "spec_bucket_op E st b op t m = spec_bucket_op E st b op (bucket_table E st w) m" for m
    by (rule spec_bucket_op_cong) (use Cons.prems(3) in simp)
  from bucket_op_refines [OF v, of E st op] Cons.prems(1) old obtain w1 where
    w1: "good_buckets E st w1" "\<forall>c. is_valid_bucket_name c \<and> c \<noteq> b \<longrightarrow> bucket_table E st w1 c = bucket_table E st w c"
    "case spec_bucket_op E st b op (bucket_table E st w) old of
       Inl e \<Rightarrow> run_bucket_op E st b op w = (Inl e, w1) \<and> bucket_table E st w1 b = Some old
     | Inr new \<Rightarrow> run_bucket_op E st b op w = (Inr (), w1) \<and> bucket_table E st w1 b = Some new"
    unfolding bt.refines_def by blast
  have keep: "\<forall>(c, op') \<in> set ops. is_valid_bucket_name c \<and> bucket_table E st w1 c \<noteq> None"
    using Cons.prems(2) w1(2,3) by (fastforce split: sum.splits)
  show ?case
  proof (cases "spec_bucket_op E st b op (bucket_table E st w) old")
    case (Inl e)
    with w1 have r: "run_bucket_op E st b op w = (Inl e, w1)" "bucket_table E st w1 b = Some old" by simp_all
    have "\<forall>c. is_valid_bucket_name c \<longrightarrow> t c = bucket_table E st w1 c"
      using Cons.prems(3) w1(2) r(2) old by metis
    from Cons.IH [OF w1(1) keep this] r(1) Inl x t sp show ?thesis by (auto simp: Let_def split: prod.splits)
  next
    case (Inr new)
    with w1 have r: "run_bucket_op E st b op w = (Inr (), w1)" "bucket_table E st w1 b = Some new" by simp_all
    define t' where "t' = t(b \<mapsto> new)"
    have "\<forall>c. is_valid_bucket_name c \<longrightarrow> t' c = bucket_table E st w1 c"
      using Cons.prems(3) w1(2) r(2) by (auto simp: t'_def)
    from Cons.IH [OF w1(1) keep this] r(1) Inr x t sp show ?thesis
      by (auto simp: Let_def t'_def [symmetric] split: prod.splits)
  qed
qed simp

lemma toy_good_buckets: "good_buckets toy_env toy_storage toy_world"
proof -
  have "bucket_entry_ok toy_env toy_storage (w_root toy_world) b" for b
    by (auto simp: bucket_entry_ok_def toy_world_def lookup_Cons is_dir_at_def)
  then show ?thesis
    by (simp add: good_buckets_def toy_json_law store_ok_def toy_world_def lookup_Cons is_dir_at_def)
qed

theorem bucket_configuration_refines_witness:
  "\<exists>w'. run_bucket_ops toy_env toy_storage [(''photos'', OpVersioning True), (''photos'', OpErasure (Some True)), (''photos'', OpPublic True False)] toy_world
       = ([Inr (), Inl (InvalidKey ''per-bucket erasure coding requires server-wide MAXIO_ERASURE_CODING''), Inr ()], w')
     \<and> bucket_table toy_env toy_storage w' ''photos'' =
         Some (toy_bucket\<lparr>bm_versioning := True, bm_public_read := True, bm_public_list := False\<rparr>)"
proof -
  have t: "bucket_table toy_env toy_storage toy_world ''photos'' = Some toy_bucket"
    using bucket_table_Some [OF toy_good_buckets toy_valid] toy_bucket_at by blast
  from bucket_configuration_refines [OF toy_good_buckets, of "[(''photos'', OpVersioning True), (''photos'', OpErasure (Some True)), (''photos'', OpPublic True False)]"
      "bucket_table toy_env toy_storage toy_world"] t toy_valid
  show ?thesis by (auto simp: )
qed

section \<open>Deleting a bucket\<close>

text \<open>
  Does the directory hold object data: a file, or a chunk directory, outside the internal names,
  at any depth?
\<close>

fun real_node :: "node \<Rightarrow> bool" where
  "real_node (File b) = False"
| "real_node (Dir es) =
     (\<exists>(name, n) \<in> set es. \<not> is_internal_entry name \<and> ((case n of File _ \<Rightarrow> True | Dir _ \<Rightarrow> ends_with name ''.ec'') \<or> real_node n))"

lemma list_node_quiet: "w_faults w = [] \<Longrightarrow> list_node (Dir es) w = (Inr (), w)"
  by (simp add: list_node_def io_def map_err_act_def query_quiet)

lemma has_real_objects_quiet:
  "w_faults w = [] \<Longrightarrow> n = Dir es \<Longrightarrow> has_real_objects n w = (Inr (real_node n), w)"
  "w_faults w = [] \<Longrightarrow> scan_real es w = (Inr (real_node (Dir es)), w)"
proof (induction n and es arbitrary: es and rule: has_real_objects_scan_real.induct)
  case (4 name n es)
  show ?case
  proof (cases n)
    case (File b)
    with 4 show ?thesis by (auto simp: ok_def)
  next
    case (Dir es')
    with 4 show ?thesis by (auto simp: ok_def bind_act_def)
  qed
qed (auto simp: list_node_quiet bind_act_def ok_def)

lemma remove_head_entry:
  assumes "lookup p t = Some (Dir ((x, n) # es))" "distinct (map fst ((x, n) # es))"
  shows "set_node (p @ [x]) None t = set_node p (Some (Dir es)) t"
proof -
  have "AList.delete x es = es" using assms(2) by (induction es) auto
  then show ?thesis by (simp add: set_node_under [OF assms(1)])
qed

lemma fs_remove_dir_quiet:
  assumes "w_faults w = []" "plain p" "lookup p (w_root w) = Some (Dir [])" "p \<noteq> []"
  shows "fs_remove_dir p w = (Inr (), w\<lparr>w_root := set_node p None (w_root w)\<rparr>)"
  using assms by (simp add: fs_remove_dir_def change_quiet rmdir_at_def realpath_def resolve_lookup)

lemma purge_quiet:
  "\<lbrakk>w_faults w = []; wf_node n; \<not> real_node n; n = Dir es; lookup p (w_root w) = Some n; plain p; p \<noteq> []\<rbrakk> \<Longrightarrow>
     purge_empty_bucket p n w = (Inr (), w\<lparr>w_root := set_node p (Some (Dir [])) (w_root w)\<rparr>)"
  "\<lbrakk>w_faults w = []; wf_node (Dir es); \<not> real_node (Dir es); lookup p (w_root w) = Some (Dir es); plain p; p \<noteq> []\<rbrakk> \<Longrightarrow>
     purge_entries p es w = (Inr (), w\<lparr>w_root := set_node p (Some (Dir [])) (w_root w)\<rparr>)"
proof (induction p n and p es arbitrary: w es and w rule: purge_empty_bucket_purge_entries.induct)
  case (2 p es)
  then show ?case by (simp add: bind_act_def list_node_quiet)
next
  case (3 p)
  then show ?case by (simp add: ok_def set_node_triv)
next
  case (4 p name n es)
  note prems = "4.prems" and ih = "4.IH"
  let ?q = "p @ [name]" and ?w1 = "w\<lparr>w_root := set_node p (Some (Dir es)) (w_root w)\<rparr>"
  have wf: "distinct (map fst ((name, n) # es))" "wf_node n" "name \<noteq> ''..''" "wf_node (Dir es)" using prems(2) by auto
  have lq: "lookup ?q (w_root w) = Some n" using prems(4) by (simp add: lookup_append lookup_Cons)
  have pq: "plain ?q" using prems(5) wf(3) by simp
  have dp: "is_dir_at (butlast p) (w_root w)" using exists_parent [OF prems(4,6)] .
  have w1: "lookup p (w_root ?w1) = Some (Dir es)" using lookup_set_same [OF dp prems(6)] by simp
  have rm: "set_node ?q None (w_root w) = set_node p (Some (Dir es)) (w_root w)" by (rule remove_head_entry [OF prems(4) wf(1)])
  have rest: "purge_entries p es ?w1 = (Inr (), w\<lparr>w_root := set_node p (Some (Dir [])) (w_root w)\<rparr>)"
    if "\<And>w. \<lbrakk>w_faults w = []; wf_node (Dir es); \<not> real_node (Dir es); lookup p (w_root w) = Some (Dir es); plain p; p \<noteq> []\<rbrakk> \<Longrightarrow>
     purge_entries p es w = (Inr (), w\<lparr>w_root := set_node p (Some (Dir [])) (w_root w)\<rparr>)"
    using that [of ?w1] prems(1,3,5,6) wf(4) w1 by (auto simp: set_node_twice)
  show ?case
  proof (cases "is_internal_entry name")
    case True
    have step: "io (case n of Dir _ \<Rightarrow> fs_remove_dir_all ?q | File _ \<Rightarrow> fs_remove_file ?q) w = (Inr (), ?w1)"
      using prems(1) lq pq rm
      by (cases n) (simp_all add: io_def map_err_act_def fs_remove_dir_all_def fs_remove_file_def change_quiet
          unlink_at_ok rmtree_at_ok)
    have rec: "purge_entries p es ?w1 = (Inr (), w\<lparr>w_root := set_node p (Some (Dir [])) (w_root w)\<rparr>)"
      by (rule rest) (rule ih(1) [OF True])
    show ?thesis by (simp only: purge_entries.simps if_P [OF True] bind_act_def step rec prod.case sum.case)
  next
    case False
    with prems(3) obtain es' where n: "n = Dir es'" and nr: "\<not> real_node n" by (cases n) auto
    let ?w0 = "w\<lparr>w_root := set_node ?q (Some (Dir [])) (w_root w)\<rparr>"
    have inner: "purge_empty_bucket ?q n w = (Inr (), ?w0)"
      by (rule ih(3) [OF False n prems(1) wf(2) nr n lq pq]) simp
    have "lookup ?q (w_root ?w0) = Some (Dir [])"
      using lookup_set_same [of ?q "w_root w" "Some (Dir [])"] prems(4) by (simp add: is_dir_at_def)
    with fs_remove_dir_quiet [of ?w0 ?q] prems(1) pq
    have "fs_remove_dir ?q ?w0 = (Inr (), w\<lparr>w_root := set_node ?q None (w_root w)\<rparr>)"
      by (simp add: set_node_twice)
    then have step: "io (fs_remove_dir ?q) ?w0 = (Inr (), ?w1)" by (simp only: rm io_def map_err_act_def prod.case sum.case)
    have rec: "purge_entries p es ?w1 = (Inr (), w\<lparr>w_root := set_node p (Some (Dir [])) (w_root w)\<rparr>)"
      by (rule rest) (rule ih(4) [OF False n])
    show ?thesis using inner
      by (simp only: purge_entries.simps if_not_P [OF False] n node.case bind_act_def step rec prod.case sum.case)
  qed
qed auto

lemma delete_bucket_calm:
  assumes "store_ok st (w_root w)" and "w_faults w = []" and "is_valid_bucket_name b"
    and "lookup (st_buckets_dir st @ [b]) (w_root w) = Some (Dir es)" and "wf_node (Dir es)"
  shows "delete_bucket st b w =
    (if real_node (Dir es) then (Inl BucketNotEmpty, w)
     else (Inr True, w\<lparr>w_root := set_node (st_buckets_dir st @ [b]) None (w_root w)\<rparr>))"
proof -
  let ?p = "st_buckets_dir st @ [b]" and ?t = "w_root w"
  have pl: "plain ?p" using assms(1,3) valid_bucket_plain by (auto simp: store_ok_def)
  have d: "is_dir_at (st_buckets_dir st) ?t" using assms(1) by (simp add: store_ok_def)
  have ex: "io (fs_try_exists ?p) w = (Inr True, w)"
    using assms(2,4) pl by (simp add: io_def map_err_act_def fs_try_exists_def query_quiet stat_at_plain resolve_lookup)
  have na: "node_at ?p w = Dir es" using assms(4) by (simp add: node_at_def)
  have hr: "has_real_objects (Dir es) w = (Inr (real_node (Dir es)), w)" using has_real_objects_quiet(1) assms(2) by blast
  have start: "delete_bucket st b w =
      (if real_node (Dir es) then (Inl BucketNotEmpty, w)
       else bind_act (\<lambda>w. purge_empty_bucket ?p (node_at ?p w) w) (\<lambda>_.
              bind_act (attempt (fs_remove_dir ?p)) (\<lambda>r. case r of Inr _ \<Rightarrow> ok True
                 | Inl e \<Rightarrow> if io_kind e = DirectoryNotEmptyKind then fail BucketNotEmpty else fail (Io e))) w)"
    using assms(3) ex na hr
    by (simp add: delete_bucket_def validate_bucket_name_def join_bucket Let_def bind_act_def fail_def)
  show ?thesis
  proof (cases "real_node (Dir es)")
    case True
    with start show ?thesis by simp
  next
    case False
    let ?w1 = "w\<lparr>w_root := set_node ?p (Some (Dir [])) ?t\<rparr>" and ?w2 = "w\<lparr>w_root := set_node ?p None ?t\<rparr>"
    have "purge_empty_bucket ?p (node_at ?p w) w = (Inr (), ?w1)"
      unfolding na by (rule purge_quiet(1) [OF assms(2,5) False refl assms(4) pl]) simp
    moreover have "attempt (fs_remove_dir ?p) ?w1 = (Inr (Inr ()) :: StorageError + _, ?w2)"
      using fs_remove_dir_quiet [of ?w1 ?p] assms(2) pl d
      by (simp add: attempt_def lookup_set_same set_node_twice)
    ultimately show ?thesis using start False by (simp add: bind_act_def ok_def)
  qed
qed

lemma delete_bucket_absent:
  assumes "store_ok st (w_root w)" "w_faults w = []" "is_valid_bucket_name b" "lookup (st_buckets_dir st @ [b]) (w_root w) = None"
  shows "delete_bucket st b w = (Inr False, w)"
proof -
  have "plain (st_buckets_dir st @ [b])" using assms(1,3) valid_bucket_plain by (auto simp: store_ok_def)
  then have "io (fs_try_exists (st_buckets_dir st @ [b])) w = (Inr False, w)"
    using assms(1,2,4)
    by (simp add: io_def map_err_act_def fs_try_exists_def query_quiet stat_absent store_ok_def)
  with assms(3) show ?thesis
    by (simp add: delete_bucket_def validate_bucket_name_def join_bucket Let_def bind_act_def ok_def)
qed

lemma delete_bucket_file:
  assumes "store_ok st (w_root w)" "w_faults w = []" "is_valid_bucket_name b" "lookup (st_buckets_dir st @ [b]) (w_root w) = Some (File d)"
  shows "delete_bucket st b w = (Inl (Io enotdir), w)"
proof -
  have "plain (st_buckets_dir st @ [b])" using assms(1,3) valid_bucket_plain by (auto simp: store_ok_def)
  then have "io (fs_try_exists (st_buckets_dir st @ [b])) w = (Inr True, w)"
    using assms(2,4) by (simp add: io_def map_err_act_def fs_try_exists_def query_quiet stat_at_plain resolve_lookup)
  with assms show ?thesis
    by (simp add: delete_bucket_def validate_bucket_name_def join_bucket Let_def bind_act_def node_at_def list_node_def
        io_def map_err_act_def query_quiet)
qed

lemma create_bucket_calm:
  assumes "store_ok st (w_root w)" "w_faults w = []" "is_valid_bucket_name (bm_name m)" "p = st_buckets_dir st @ [bm_name m]"
  shows "create_bucket E st m w =
    (if lookup p (w_root w) = None
     then (Inr True, w\<lparr>w_root := set_node p (Some (Dir [(''.bucket.json'', File (fst (e_bucket E) m))])) (w_root w)\<rparr>)
     else (Inr False, w))"
proof -
  let ?t1 = "set_node p (Some (Dir [])) (w_root w)"
  have pl: "plain p" using assms(1,4) valid_bucket_plain [OF assms(3)] by (auto simp: store_ok_def)
  have d: "is_dir_at (butlast p) (w_root w)" "p \<noteq> []" using assms(1,4) by (simp_all add: store_ok_def)
  obtain es where par: "parent_dir p (w_root w) = Inr es" using parent_dir_ok [OF d(2,1)] by blast
  have mk: "fs_create_dir p w = (if lookup p (w_root w) = None then (Inr (), w\<lparr>w_root := ?t1\<rparr>) else (Inl eexist, w))"
    using assms(2) pl d(2) par by (simp add: fs_create_dir_def change_quiet mkdir_at_def realpath_def)
  have l1: "lookup p ?t1 = Some (Dir [])" using lookup_set_same [OF d] by simp
  have "\<not> is_dir_at (p @ [''.bucket.json'']) ?t1" using l1 by (simp add: is_dir_at_def lookup_append lookup_Cons)
  then have wr: "fs_write (p @ [''.bucket.json'']) b (w\<lparr>w_root := ?t1\<rparr>) =
      (Inr (), w\<lparr>w_root := set_node p (Some (Dir [(''.bucket.json'', File b)])) (w_root w)\<rparr>)" for b
    using assms(2) pl l1 set_node_under [OF l1] d(2) by (simp add: fs_write_def change_quiet write_at_ok is_dir_at_Dir set_node_twice)
  show ?thesis
    using assms(3,4) mk wr
    by (simp add: create_bucket_def validate_bucket_name_def join_bucket Let_def bind_act_def attempt_def ok_def)
qed



end
