(* ===== verification/Faultless.thy ===== *)
theory Faultless
  imports Publish
begin

text \<open>
  The calls and the publish protocol when no system call fails (\<open>w_faults w = []\<close>): exact
  results, used by the theories on objects, versions and uploads.
\<close>

lemma step_world_calm [simp]: "w_faults w = [] \<Longrightarrow> step_world w = w"
  by (simp add: step_world_def)

lemma next_fault_calm [simp]: "w_faults w = [] \<Longrightarrow> next_fault w = None"
  by (simp add: next_fault_def)

lemma exists_calm:
  "w_faults w = [] \<Longrightarrow> is_dir_at d (w_root w) \<Longrightarrow> plain (d @ [x]) \<Longrightarrow>
     fs_try_exists (d @ [x]) w = (Inr (view d (w_root w) x \<noteq> None), w)"
  by (simp add: exists_in)

lemma resolve_no_file: "no_file_on p t \<Longrightarrow> lookup (p @ [x]) t = None \<Longrightarrow> resolve (p @ [x]) t = Inl enoent"
proof (induction p arbitrary: t)
  case Nil
  then show ?case by (cases t) (auto simp: no_file_on_def lookup_def split: sum.splits option.splits)
next
  case (Cons s p)
  obtain es where t: "t = Dir es" using Cons.prems(1) by (cases t) (auto simp: no_file_on_def dest: spec [of _ "[]"])
  show ?case
  proof (cases "map_of es s")
    case None
    then show ?thesis by (simp add: t)
  next
    case (Some n)
    have "no_file_on p n"
      unfolding no_file_on_def
    proof (intro allI impI)
      fix q b assume "prefix q p"
      then have "prefix (s # q) (s # p)" by simp
      with Cons.prems(1) have "lookup (s # q) t \<noteq> Some (File b)" unfolding no_file_on_def by blast
      then show "lookup q n \<noteq> Some (File b)" using Some by (simp add: t lookup_Cons)
    qed
    with Cons.IH [of n] Cons.prems(2) Some show ?thesis by (simp add: t lookup_Cons)
  qed
qed

lemma exists_free:
  assumes "w_faults w = []" "no_file_on d (w_root w)" "plain (d @ [x])"
  shows "fs_try_exists (d @ [x]) w = (Inr (view d (w_root w) x \<noteq> None), w)"
proof (cases "view d (w_root w) x")
  case None
  with resolve_no_file [OF assms(2) None] assms(1,3) show ?thesis
    by (simp add: fs_try_exists_def query_quiet stat_at_plain)
next
  case (Some n)
  with assms show ?thesis by (simp add: fs_try_exists_def query_quiet stat_at_plain resolve_lookup)
qed

lemma rename_calm:
  assumes "w_faults w = []" "is_dir_at d (w_root w)" "plain (d @ [x, y])" "x \<noteq> y" "view d (w_root w) y = None"
    and "view d (w_root w) x \<noteq> None"
  shows "fs_rename (d @ [x]) (d @ [y]) w = (Inr (), w\<lparr>w_root := mv d x y (w_root w)\<rparr>)"
  using assms by (simp add: rename_in)

lemma create_parent_calm:
  "w_faults w = [] \<Longrightarrow> is_dir_at d (w_root w) \<Longrightarrow> plain d \<Longrightarrow> create_parent (d @ [x]) w = (Inr (), w)"
  by (simp add: create_parent_in)

lemma remove_calm:
  assumes "w_faults w = []" "is_dir_at d (w_root w)" "plain (d @ [x])"
  shows "remove_path_if_exists (d @ [x]) k w =
    (Inr (), if view d (w_root w) x \<noteq> None \<and> has_kind k (view d (w_root w) x)
             then w\<lparr>w_root := set_node (d @ [x]) None (w_root w)\<rparr> else w)"
  using assms
  by (auto simp: remove_path_if_exists_def ignore_def fs_remove_file_def fs_remove_dir_all_def change_quiet has_kind_def
      unlink_at_def rmtree_at_def realpath_def resolve_lookup resolve_absent Let_def split: option.splits node.splits)

lemma backup_calm:
  assumes "w_faults w = []" "is_dir_at d (w_root w)" "plain (d @ [x])" "b = tmp_name (uuid (w_draws w))" "x \<noteq> b"
    and "view d (w_root w) b = None"
  shows "backup_existing uuid (d @ [x]) w =
    (if view d (w_root w) x = None then (Inr None, w)
     else (Inr (Some (d @ [b])), w\<lparr>w_draws := Suc (w_draws w), w_root := mv d x b (w_root w)\<rparr>))"
proof (cases "view d (w_root w) x = None")
  case True
  with assms show ?thesis by (simp add: backup_existing_def act_defs exists_calm)
next
  case False
  have pl: "plain (d @ [x, b])" using assms(3,4) tmp_name_plain [of "uuid (w_draws w)"] by auto
  have "fs_rename (d @ [x]) (d @ [b]) (w\<lparr>w_draws := Suc (w_draws w)\<rparr>)
      = (Inr (), w\<lparr>w_draws := Suc (w_draws w), w_root := mv d x b (w_root w)\<rparr>)"
    using rename_calm [of "w\<lparr>w_draws := Suc (w_draws w)\<rparr>" d x b] assms False pl by simp
  with assms False show ?thesis
    by (simp add: backup_existing_def act_defs exists_calm temp_sibling_path_def)
qed

text \<open>Names that the next draws give and that no entry of the directory has.\<close>

definition fresh_names :: "(nat \<Rightarrow> string) \<Rightarrow> path \<Rightarrow> world \<Rightarrow> bool" where
  "fresh_names uuid d w \<longleftrightarrow> inj uuid \<and> (\<forall>i \<ge> w_draws w. view d (w_root w) (tmp_name (uuid i)) = None)"

definition later_names :: "(nat \<Rightarrow> string) \<Rightarrow> nat \<Rightarrow> string set" where
  "later_names uuid n = {tmp_name (uuid i) | i. n \<le> i}"

lemma tmp_name_not_parent [simp]: "tmp_name u \<noteq> ''..''" "''..'' \<noteq> tmp_name u"
  "tmp_name u \<noteq> ''.bucket.json''" "''.bucket.json'' \<noteq> tmp_name u"
  by (simp_all add: tmp_name_def)

lemma tmp_name_inj: "tmp_name u = tmp_name v \<longleftrightarrow> u = v"
  by (simp add: tmp_name_def)

lemma later_names_simps [simp]:
  "inj uuid \<Longrightarrow> tmp_name (uuid i) \<in> later_names uuid n \<longleftrightarrow> n \<le> i"
  by (auto simp: later_names_def tmp_name_inj dest: injD)

lemma later_names_mono: "m \<le> n \<Longrightarrow> later_names uuid n \<subseteq> later_names uuid m"
  by (auto simp: later_names_def)

text \<open>The cleanup of an optional backup, and the two renames with it.\<close>

definition clear_entry :: "path \<Rightarrow> bool \<Rightarrow> string option \<Rightarrow> node \<Rightarrow> node" where
  "clear_entry d k b t =
     (case b of None \<Rightarrow> t
      | Some x \<Rightarrow> if view d t x \<noteq> None \<and> has_kind k (view d t x) then set_node (d @ [x]) None t else t)"

abbreviation in_dir :: "path \<Rightarrow> string option \<Rightarrow> path option" where
  "in_dir d b \<equiv> map_option (\<lambda>x. d @ [x]) b"

lemma clear_entry_dir [simp]: "is_dir_at d t \<Longrightarrow> is_dir_at d (clear_entry d k b t)"
  by (simp add: clear_entry_def split: option.split)

lemma clear_entry_view:
  "is_dir_at d t \<Longrightarrow> view d (clear_entry d k b t) x =
     (if b = Some x \<and> has_kind k (view d t x) then None else view d t x)"
  by (auto simp: clear_entry_def split: option.split)

lemma clear_entry_within: "within d xs t u \<Longrightarrow> set_option b \<subseteq> xs \<Longrightarrow> within d xs t (clear_entry d k b u)"
  by (auto simp: clear_entry_def within_set split: option.split)

lemma cleanup_calm:
  assumes "w_faults w = []" "is_dir_at d (w_root w)" "plain d" "''..'' \<notin> set_option b"
  shows "cleanup_backup (in_dir d b) k w = (Inr (), w\<lparr>w_root := clear_entry d k b (w_root w)\<rparr>)"
  using assms by (cases b) (auto simp: cleanup_backup_def ok_def clear_entry_def remove_calm)

lemma install_calm:
  assumes "w_faults w = []" "staged d fp fm tp tm k p m (w_root w)" "view d (w_root w) fp = None" "view d (w_root w) fm = None"
    and "''..'' \<notin> set_option b1 \<union> set_option b2"
  shows "publish_install (d @ [tp]) (d @ [fp]) k (d @ [tm]) (d @ [fm]) (in_dir d b1) (in_dir d b2) w =
    (Inr (), w\<lparr>w_root := clear_entry d False b2 (clear_entry d k b1 (mv d tm fm (mv d tp fp (w_root w))))\<rparr>)"
proof -
  let ?t = "w_root w"
  let ?w1 = "w\<lparr>w_root := mv d tp fp ?t\<rparr>" and ?w2 = "w\<lparr>w_root := mv d tm fm (mv d tp fp ?t)\<rparr>"
  note s = assms(2) [unfolded staged_def]
  have r1: "fs_rename (d @ [tp]) (d @ [fp]) w = (Inr (), ?w1)"
    using s assms(1,3) by (intro rename_calm) auto
  have r2: "fs_rename (d @ [tm]) (d @ [fm]) ?w1 = (Inr (), ?w2)"
    using rename_calm [of ?w1 d tm fm] s assms(1,4) by auto
  have c1: "cleanup_backup (in_dir d b1) k ?w2 = (Inr (), w\<lparr>w_root := clear_entry d k b1 (w_root ?w2)\<rparr>)"
    using cleanup_calm [of ?w2 d b1 k] s assms(1,5) by auto
  have c2: "cleanup_backup (in_dir d b2) False (w\<lparr>w_root := clear_entry d k b1 (w_root ?w2)\<rparr>) =
      (Inr (), w\<lparr>w_root := clear_entry d False b2 (clear_entry d k b1 (w_root ?w2))\<rparr>)"
    using cleanup_calm [of "w\<lparr>w_root := clear_entry d k b1 (w_root ?w2)\<rparr>" d b2 False] s assms(1,5) by auto
  show ?thesis using r1 r2 c1 c2 by (simp add: publish_install_def attempt_def bind_act_def)
qed

text \<open>
  Without failing calls publishing succeeds, installs both files, removes the temporary ones, and
  leaves what the payload replaced under a temporary name only if it was of the wrong kind.
\<close>

lemma publish_calm:
  assumes "w_faults w = []" "staged d fp fm tp tm k p m (w_root w)" "fresh_names uuid d w"
    and "{fp, fm, tp, tm} \<inter> later_names uuid (w_draws w) = {}" "has_kind False (view d (w_root w) fm)"
  shows "\<exists>w' b. publish_temp_payload_and_meta uuid (d @ [tp]) (d @ [fp]) k (d @ [tm]) (d @ [fm]) w = (Inr (), w')
    \<and> w_faults w' = [] \<and> w_draws w \<le> w_draws w' \<and> b \<in> later_names uuid (w_draws w)
    \<and> within d ({fp, fm, tp, tm} \<union> later_names uuid (w_draws w)) (w_root w) (w_root w')
    \<and> (\<forall>z. view d (w_root w') z =
      (if z = fp then Some p else if z = fm then Some (File m) else if z = tp \<or> z = tm then None
       else if z = b \<and> \<not> has_kind k (view d (w_root w) fp) then view d (w_root w) fp else view d (w_root w) z))
    \<and> fresh_names uuid d w'"
proof -
  let ?t = "w_root w" and ?n = "w_draws w"
  let ?S = "{fp, fm, tp, tm} \<union> later_names uuid ?n"
  note s = assms(2) [unfolded staged_def]
  have d: "is_dir_at d ?t" "plain d" using s by auto
  have inj: "inj uuid" and fr: "\<And>i. ?n \<le> i \<Longrightarrow> view d ?t (tmp_name (uuid i)) = None"
    using assms(3) by (auto simp: fresh_names_def)
  have ne: "\<And>i. ?n \<le> i \<Longrightarrow> tmp_name (uuid i) \<notin> {fp, fm, tp, tm}" using assms(4) by (auto simp: later_names_def)
  define b where "b = tmp_name (uuid ?n)"
  define b1 where "b1 = (if view d ?t fp = None then None else Some b)"
  define w1 where "w1 = (if b1 = None then w else w\<lparr>w_draws := Suc ?n, w_root := mv d fp b ?t\<rparr>)"
  define c where "c = tmp_name (uuid (w_draws w1))"
  define b2 where "b2 = (if view d ?t fm = None then None else Some c)"
  define w2 where "w2 = (if b2 = None then w1 else w1\<lparr>w_draws := Suc (w_draws w1), w_root := mv d fm c (w_root w1)\<rparr>)"
  define w3 where "w3 = w2\<lparr>w_root := clear_entry d False b2 (clear_entry d k b1 (mv d tm fm (mv d tp fp (w_root w2))))\<rparr>"
  have nb: "b \<notin> {fp, fm, tp, tm}" "view d ?t b = None" using ne fr by (auto simp: b_def)
  have nc: "c \<notin> {fp, fm, tp, tm}" "view d ?t c = None" "b1 \<noteq> None \<Longrightarrow> c \<noteq> b"
    using ne fr inj by (auto simp: c_def w1_def b_def tmp_name_inj dest: injD)
  have k1: "w_faults w1 = []" "is_dir_at d (w_root w1)" using assms(1) d by (simp_all add: w1_def)
  have v1: "view d (w_root w1) z = (if z = fp then None else if b1 = Some z then view d ?t fp else view d ?t z)" for z
    using d nb by (auto simp: w1_def b1_def)
  have r1: "backup_existing uuid (d @ [fp]) w = (Inr (in_dir d b1), w1)"
    using backup_calm [where uuid = uuid, OF assms(1) d(1) _ b_def] s nb by (auto simp: b1_def w1_def)
  have f1: "view d (w_root w1) fm = view d ?t fm" "view d (w_root w1) c = None"
    using v1 s nb nc by (auto simp: b1_def)
  have k2: "w_faults w2 = []" "is_dir_at d (w_root w2)" using k1 by (simp_all add: w2_def)
  have v2: "view d (w_root w2) z = (if z = fm then None else if b2 = Some z then view d ?t fm else view d (w_root w1) z)" for z
    using k1 nc f1 by (auto simp: w2_def b2_def)
  have r2: "backup_existing uuid (d @ [fm]) w1 = (Inr (in_dir d b2), w2)"
    using backup_calm [where uuid = uuid, OF k1 _ c_def] s nc f1 by (auto simp: b2_def w2_def)
  have st2: "staged d fp fm tp tm k p m (w_root w2)"
    using s nb nc k2 v1 v2 by (auto simp: staged_def b1_def b2_def)
  have fp2: "view d (w_root w2) fp = None" "view d (w_root w2) fm = None" using v1 v2 nc s by (auto simp: b2_def)
  have pb: "''..'' \<notin> set_option b1 \<union> set_option b2"
    using tmp_name_plain [of "uuid ?n"] tmp_name_plain [of "uuid (w_draws w1)"] by (auto simp: b1_def b2_def b_def c_def)
  have r3: "publish_install (d @ [tp]) (d @ [fp]) k (d @ [tm]) (d @ [fm]) (in_dir d b1) (in_dir d b2) w2 = (Inr (), w3)"
    unfolding w3_def by (rule install_calm [OF k2(1) st2 fp2 pb])
  have "create_parent (d @ [fp]) w = (Inr (), w)" "create_parent (d @ [fm]) w = (Inr (), w)"
    using create_parent_calm [OF assms(1) d] by auto
  then have run: "publish_temp_payload_and_meta uuid (d @ [tp]) (d @ [fp]) k (d @ [tm]) (d @ [fm]) w = (Inr (), w3)"
    using r1 r2 r3 by (simp add: publish_temp_payload_and_meta_def bind_act_def)
  have view3: "view d (w_root w3) z =
      (if z = fp then Some p else if z = fm then Some (File m) else if z = tp \<or> z = tm then None
       else if z = b \<and> \<not> has_kind k (view d ?t fp) then view d ?t fp else view d ?t z)" for z
    using k2 s nb nc v1 v2 assms(5) st2 [unfolded staged_def]
    by (auto simp: w3_def clear_entry_view b1_def b2_def has_kind_def split: if_splits)
  have "within d ?S ?t (w_root w1)"
    using d inj by (auto simp: w1_def b_def intro!: within_mv within_refl)
  moreover have "within d ?S (w_root w1) (w_root w2)"
    using k1 inj by (auto simp: w2_def c_def w1_def intro!: within_mv within_refl)
  moreover have "within d ?S (w_root w2) (w_root w3)"
    using k2 inj by (auto simp: w3_def b1_def b2_def b_def c_def w1_def intro!: clear_entry_within within_mv within_refl split: if_splits)
  ultimately have within: "within d ?S ?t (w_root w3)" using within_trans by blast
  have "fresh_names uuid d w3"
    unfolding fresh_names_def
  proof (intro conjI allI impI)
    fix i assume i: "w_draws w3 \<le> i"
    then have "?n \<le> i" by (simp add: w3_def w2_def w1_def split: if_splits)
    moreover have "tmp_name (uuid i) \<noteq> b \<or> has_kind k (view d ?t fp)"
      using i inj by (auto simp: b_def tmp_name_inj w3_def w2_def w1_def b1_def has_kind_def dest: injD split: if_splits)
    ultimately show "view d (w_root w3) (tmp_name (uuid i)) = None" using view3 ne [of i] fr [of i] by auto
  qed (rule inj)
  moreover have "b \<in> later_names uuid ?n" using inj by (simp add: b_def)
  moreover have "w_faults w3 = []" "?n \<le> w_draws w3" using k2 by (simp_all add: w3_def w2_def w1_def)
  ultimately show ?thesis using run within view3 by blast
qed

end
