(* ===== verification/Locks.thy ===== *)
theory Locks
  imports Buckets Faultless
begin

text \<open>
  Object lock (\<open>filesystem/object_lock.rs\<close>): the checks that every overwrite and deletion
  makes, the default retention of a bucket, and the retention and legal hold of an object or
  of one of its versions. Instants are microseconds; \<open>e_fmt\<close> formats them and \<open>e_rfc3339\<close>
  reads them back. Default periods stay inside the range of \<open>chrono\<close>'s calendar.
\<close>

section \<open>The code\<close>

definition locked_msg :: string where
  "locked_msg = ''object is protected by retention or legal hold''"

text \<open>\<open>is_object_protected(&meta)\<close> reads the clock.\<close>

definition protected_now :: "env \<Rightarrow> ObjectMeta \<Rightarrow> (StorageError, bool) act" where
  "protected_now E meta = bind_act (draw (e_micros E)) (\<lambda>now. ok (is_object_protected (e_rfc3339 E) now meta))"

definition ensure_can_delete_meta :: "env \<Rightarrow> ObjectMeta \<Rightarrow> (StorageError, unit) act" where
  "ensure_can_delete_meta E meta =
     bind_act (protected_now E meta) (\<lambda>b. if b then fail (ObjectLocked locked_msg) else ok ())"

definition ensure_can_overwrite :: "env \<Rightarrow> FilesystemStorage \<Rightarrow> string \<Rightarrow> string \<Rightarrow> (StorageError, unit) act" where
  "ensure_can_overwrite E st bucket key =
     bind_act (attempt (fs_try_exists (meta_path (st_buckets_dir st) bucket key))) (\<lambda>r.
       if r \<noteq> Inr True then ok ()
       else bind_act (read_object_meta E st bucket key) (\<lambda>meta.
            bind_act (protected_now E meta) (\<lambda>b. if b then fail (ObjectLocked locked_msg) else ok ())))"

definition micros_per_day :: int where
  "micros_per_day = 86400000000"

definition resolve_default_object_lock ::
  "env \<Rightarrow> FilesystemStorage \<Rightarrow> string \<Rightarrow> (StorageError, ObjectLockRetention option) act" where
  "resolve_default_object_lock E st bucket =
     bind_act (read_bucket_meta E st bucket) (\<lambda>meta.
       if \<not> bm_object_lock_enabled meta then ok None
       else (case bm_object_lock_config meta of
               None \<Rightarrow> ok None
             | Some config \<Rightarrow>
                 (case (olc_default_retention_mode config, olc_default_retention_days config) of
                    (Some mode, Some days) \<Rightarrow>
                      if days = 0 then ok None
                      else bind_act (draw (e_micros E)) (\<lambda>now.
                        ok (Some \<lparr>olr_mode = mode, olr_retain_until_date = e_fmt E (now + int days * micros_per_day)\<rparr>))
                  | _ \<Rightarrow> ok None)))"

definition apply_object_lock :: "ObjectMeta \<Rightarrow> ObjectLockRetention option \<Rightarrow> ObjectMeta" where
  "apply_object_lock meta lock =
     (case lock of
        None \<Rightarrow> meta
      | Some l \<Rightarrow> meta\<lparr>om_object_lock_mode := Some (olr_mode l), om_retain_until_date := Some (olr_retain_until_date l)\<rparr>)"

definition read_meta_at ::
  "env \<Rightarrow> FilesystemStorage \<Rightarrow> string \<Rightarrow> string \<Rightarrow> string option \<Rightarrow> (StorageError, ObjectMeta) act" where
  "read_meta_at E st bucket key version_id =
     bind_act (lift_res (validate_key key)) (\<lambda>_.
       case version_id of
         Some vid \<Rightarrow>
           if vid = ''null'' then read_object_meta E st bucket key
           else read_json (e_object E) (VersionNotFound vid) (version_meta_path (st_buckets_dir st) bucket key vid)
       | None \<Rightarrow> read_object_meta E st bucket key)"

definition write_meta_at ::
  "env \<Rightarrow> FilesystemStorage \<Rightarrow> string \<Rightarrow> string \<Rightarrow> string option \<Rightarrow> ObjectMeta \<Rightarrow> (StorageError, unit) act" where
  "write_meta_at E st bucket key version_id meta =
     (case version_id of
        Some vid \<Rightarrow>
          if vid = ''null'' then write_json (e_object E) (meta_path (st_buckets_dir st) bucket key) meta
          else write_json (e_object E) (version_meta_path (st_buckets_dir st) bucket key vid) meta
      | None \<Rightarrow> write_json (e_object E) (meta_path (st_buckets_dir st) bucket key) meta)"

definition require_lock_enabled :: "env \<Rightarrow> FilesystemStorage \<Rightarrow> string \<Rightarrow> (StorageError, unit) act" where
  "require_lock_enabled E st bucket =
     bind_act (read_bucket_meta E st bucket) (\<lambda>m.
       if \<not> bm_object_lock_enabled m then fail (InvalidKey ''object lock is not enabled for this bucket'') else ok ())"

definition put_object_retention ::
  "env \<Rightarrow> FilesystemStorage \<Rightarrow> string \<Rightarrow> string \<Rightarrow> string option \<Rightarrow> ObjectLockRetention \<Rightarrow> (StorageError, unit) act" where
  "put_object_retention E st bucket key version_id retention =
     bind_act (lift_res (validate_bucket_name bucket)) (\<lambda>_.
     bind_act (lift_res (validate_key key)) (\<lambda>_.
     bind_act (require_lock_enabled E st bucket) (\<lambda>_.
     bind_act (read_meta_at E st bucket key version_id) (\<lambda>meta.
       write_meta_at E st bucket key version_id
         (meta\<lparr>om_object_lock_mode := Some (olr_mode retention),
               om_retain_until_date := Some (olr_retain_until_date retention)\<rparr>)))))"

definition get_object_retention ::
  "env \<Rightarrow> FilesystemStorage \<Rightarrow> string \<Rightarrow> string \<Rightarrow> string option \<Rightarrow> (StorageError, ObjectLockRetention) act" where
  "get_object_retention E st bucket key version_id =
     bind_act (read_meta_at E st bucket key version_id) (\<lambda>meta.
       case (om_object_lock_mode meta, om_retain_until_date meta) of
         (Some mode, Some until) \<Rightarrow> ok \<lparr>olr_mode = mode, olr_retain_until_date = until\<rparr>
       | _ \<Rightarrow> fail (NotFound key))"

definition put_object_legal_hold ::
  "env \<Rightarrow> FilesystemStorage \<Rightarrow> string \<Rightarrow> string \<Rightarrow> string option \<Rightarrow> LegalHoldStatus \<Rightarrow> (StorageError, unit) act" where
  "put_object_legal_hold E st bucket key version_id status =
     bind_act (lift_res (validate_bucket_name bucket)) (\<lambda>_.
     bind_act (lift_res (validate_key key)) (\<lambda>_.
     bind_act (require_lock_enabled E st bucket) (\<lambda>_.
     bind_act (read_meta_at E st bucket key version_id) (\<lambda>meta.
       write_meta_at E st bucket key version_id (meta\<lparr>om_legal_hold_status := Some status\<rparr>)))))"

definition get_object_legal_hold ::
  "env \<Rightarrow> FilesystemStorage \<Rightarrow> string \<Rightarrow> string \<Rightarrow> string option \<Rightarrow> (StorageError, LegalHoldStatus) act" where
  "get_object_legal_hold E st bucket key version_id =
     bind_act (read_meta_at E st bucket key version_id) (\<lambda>meta.
       lift_res (ok_or (om_legal_hold_status meta) (NotFound key)))"

end
