(* ===== verification/Versions.thy ===== *)
theory Versions
  imports Locks "HOL-Library.List_Lexorder" "HOL-Library.Char_ord"
begin

text \<open>
  The version store (\<open>filesystem/encryption_io.rs\<close>): every version of a key has its payload
  and metadata under \<open>.versions/<key>\<close>, named by the version id; the current version is also
  kept at the key's own path. Version ids are ordered as strings.
\<close>

section \<open>The code\<close>

definition write_version ::
  "env \<Rightarrow> FilesystemStorage \<Rightarrow> string \<Rightarrow> string \<Rightarrow> ObjectMeta \<Rightarrow> path \<Rightarrow> (StorageError, unit) act" where
  "write_version E st bucket key meta data_path =
     bind_act (lift_res (ok_or (om_version_id meta) (IntegrityError ''write_version called without version_id''))) (\<lambda>vid.
     bind_act (io (fs_create_dir_all (versions_dir (st_buckets_dir st) bucket key))) (\<lambda>_.
     bind_act (io (fs_copy data_path (version_data_path (st_buckets_dir st) bucket key vid))) (\<lambda>_.
       write_json (e_object E) (version_meta_path (st_buckets_dir st) bucket key vid) meta)))"

text \<open>Copy the entries of a chunk directory into another directory.\<close>

definition copy_entries :: "path \<Rightarrow> path \<Rightarrow> (StorageError, unit) act" where
  "copy_entries src dst =
     bind_act (io (fs_read_dir src)) (\<lambda>es.
       for_each es (\<lambda>(name, _). io (fs_copy (src @ [name]) (dst @ [name]))))"

definition write_version_chunked ::
  "env \<Rightarrow> FilesystemStorage \<Rightarrow> string \<Rightarrow> string \<Rightarrow> ObjectMeta \<Rightarrow> (StorageError, unit) act" where
  "write_version_chunked E st bucket key meta =
     bind_act (lift_res (ok_or (om_version_id meta) (IntegrityError ''write_version_chunked called without version_id''))) (\<lambda>vid.
     bind_act (io (fs_create_dir_all (versions_dir (st_buckets_dir st) bucket key))) (\<lambda>_.
     let src_ec = ec_dir (st_buckets_dir st) bucket key;
         dst_ec = version_ec_dir (st_buckets_dir st) bucket key vid
     in bind_act (io (fs_create_dir_all dst_ec)) (\<lambda>_.
        bind_act (copy_entries src_ec dst_ec) (\<lambda>_.
          write_json (e_object E) (version_meta_path (st_buckets_dir st) bucket key vid) meta))))"

text \<open>The three removals of the current version whose errors are ignored.\<close>

definition drop_current :: "FilesystemStorage \<Rightarrow> string \<Rightarrow> string \<Rightarrow> (StorageError, unit) act" where
  "drop_current st bucket key =
     bind_act (ignore (fs_remove_file (object_path (st_buckets_dir st) bucket key))) (\<lambda>_.
     bind_act (ignore (fs_remove_file (meta_path (st_buckets_dir st) bucket key))) (\<lambda>_.
       ignore (fs_remove_dir_all (ec_dir (st_buckets_dir st) bucket key))))"

record DeleteResult =
  dr_version_id :: "string option"
  dr_is_delete_marker :: bool

definition write_delete_marker ::
  "env \<Rightarrow> FilesystemStorage \<Rightarrow> string \<Rightarrow> string \<Rightarrow> (StorageError, DeleteResult) act" where
  "write_delete_marker E st bucket key =
     bind_act (generate_version_id E) (\<lambda>version_id.
     bind_act (now_string E) (\<lambda>now.
     let marker_meta = (plain_object_meta key 0 [] [] now)\<lparr>om_version_id := Some version_id, om_is_delete_marker := True\<rparr>
     in bind_act (io (fs_create_dir_all (versions_dir (st_buckets_dir st) bucket key))) (\<lambda>_.
        bind_act (write_json (e_object E) (version_meta_path (st_buckets_dir st) bucket key version_id) marker_meta) (\<lambda>_.
        bind_act (drop_current st bucket key) (\<lambda>_.
          ok \<lparr>dr_version_id = Some version_id, dr_is_delete_marker = True\<rparr>)))))"

text \<open>Put the files of a stored version at the key's own path.\<close>

definition restore_version ::
  "env \<Rightarrow> FilesystemStorage \<Rightarrow> string \<Rightarrow> string \<Rightarrow> ObjectMeta \<Rightarrow> (StorageError, unit) act" where
  "restore_version E st bucket key meta =
     bind_act (lift_res (ok_or (om_version_id meta) (IntegrityError ''version metadata missing version_id''))) (\<lambda>vid.
     let ver_ec = version_ec_dir (st_buckets_dir st) bucket key vid;
         obj_meta_path = meta_path (st_buckets_dir st) bucket key
     in bind_act (fs_is_dir ver_ec) (\<lambda>chunked.
        bind_act
          (if chunked
           then (let dst_ec = ec_dir (st_buckets_dir st) bucket key
                 in bind_act (create_parent dst_ec) (\<lambda>_.
                    bind_act (ignore (fs_remove_dir_all dst_ec)) (\<lambda>_.
                    bind_act (io (fs_create_dir_all dst_ec)) (\<lambda>_.
                      copy_entries ver_ec dst_ec))))
           else (let obj_path = object_path (st_buckets_dir st) bucket key
                 in bind_act (create_parent obj_path) (\<lambda>_.
                      io (fs_copy (version_data_path (st_buckets_dir st) bucket key vid) obj_path))))
          (\<lambda>_. bind_act (create_parent obj_meta_path) (\<lambda>_.
                 write_json (e_object E) obj_meta_path meta))))"

fun restore_newest ::
  "env \<Rightarrow> FilesystemStorage \<Rightarrow> string \<Rightarrow> string \<Rightarrow> string list \<Rightarrow> (StorageError, unit) act" where
  "restore_newest E st bucket key [] = drop_current st bucket key"
| "restore_newest E st bucket key (meta_fname # fnames) =
     bind_act (io (fs_read_to_string (versions_dir (st_buckets_dir st) bucket key @ [meta_fname]))) (\<lambda>data.
     bind_act (lift_res (from_json (e_object E) data)) (\<lambda>meta.
       if \<not> om_is_delete_marker meta then restore_version E st bucket key meta
       else restore_newest E st bucket key fnames))"

definition version_files :: "(string \<times> node) list \<Rightarrow> string list" where
  "version_files es = rev (sort (filter (\<lambda>fname. ends_with fname ''.meta.json'') (map fst es)))"

definition update_current_version ::
  "env \<Rightarrow> FilesystemStorage \<Rightarrow> string \<Rightarrow> string \<Rightarrow> (StorageError, unit) act" where
  "update_current_version E st bucket key =
     (let ver_dir = versions_dir (st_buckets_dir st) bucket key
      in bind_act (attempt (fs_try_exists ver_dir)) (\<lambda>r.
           if r \<noteq> Inr True then ok ()
           else bind_act (io (fs_read_dir ver_dir)) (\<lambda>es.
                  restore_newest E st bucket key (version_files es))))"

end
