(* ===== verification/Objects.thy ===== *)
theory Objects
  imports Versions Recovery
begin

text \<open>
  Object uploads (\<open>filesystem/object_io.rs\<close>, \<open>put_folder_marker\<close> of \<open>multipart.rs\<close>): the
  whole of \<open>put_object\<close> with its flat, encrypted and chunked variants.

  An upload reads its body in a loop that need not end and the chunk and frame code can
  panic, so these functions are partial: \<^const>\<open>None\<close> is the call that does not return.
  The bytes that a \<open>BufWriter\<close> passes on to a temporary file, or that are written as chunk
  files, appear in the tree when the loop is over; until the final renames nothing but the
  temporary names is touched.
\<close>

section \<open>Operations that may not return\<close>

type_synonym ('e, 'a) pact = "world \<Rightarrow> (('e + 'a) \<times> world) option"

definition total :: "('e, 'a) act \<Rightarrow> ('e, 'a) pact" where
  "total m w = Some (m w)"

definition lift_opt :: "('e + 'a) option \<Rightarrow> ('e, 'a) pact" where
  "lift_opt r w = map_option (\<lambda>x. (x, w)) r"

definition bind_p :: "('e, 'a) pact \<Rightarrow> ('a \<Rightarrow> ('e, 'b) pact) \<Rightarrow> ('e, 'b) pact" where
  "bind_p m k w =
     (case m w of
        None \<Rightarrow> None
      | Some (Inl e, w') \<Rightarrow> Some (Inl e, w')
      | Some (Inr x, w') \<Rightarrow> k x w')"

text \<open>\<open>TempPathGuard\<close> around a block.\<close>

definition guard_p :: "path \<Rightarrow> bool \<Rightarrow> (StorageError, 'a) pact \<Rightarrow> (StorageError, 'a) pact" where
  "guard_p p is_dir body w =
     (case body w of
        None \<Rightarrow> None
      | Some (Inr x, w') \<Rightarrow> Some (Inr x, w')
      | Some (Inl e, w') \<Rightarrow> Some (Inl e, snd (remove_path_if_exists p is_dir w')))"

section \<open>The code\<close>

definition IO_BUFFER_SIZE :: nat where "IO_BUFFER_SIZE = 256 * 1024"
definition SMALL_OBJECT_THRESHOLD :: nat where "SMALL_OBJECT_THRESHOLD = 256 * 1024"

record PutResult =
  pr_size :: nat
  pr_etag :: string
  pr_version_id :: "string option"
  pr_checksum_algorithm :: "ChecksumAlgorithm option"
  pr_checksum_value :: "string option"

definition put_folder_marker :: "env \<Rightarrow> FilesystemStorage \<Rightarrow> string \<Rightarrow> string \<Rightarrow> (StorageError, PutResult) act" where
  "put_folder_marker E st bucket key =
     (let folder_dir = join_path (join_path (st_buckets_dir st) bucket) (trim_end_slashes key);
          etag = [CHR 0x22] @ ''d41d8cd98f00b204e9800998ecf8427e'' @ [CHR 0x22]
      in bind_act (io (fs_create_dir_all folder_dir)) (\<lambda>_.
         bind_act (io (fs_write (folder_dir @ [''.folder'']) [])) (\<lambda>_.
         bind_act (now_string E) (\<lambda>now.
         bind_act (write_json (e_object E) (folder_dir @ [''.folder.meta.json''])
                     (plain_object_meta key 0 etag ''application/x-directory'' now)) (\<lambda>_.
           ok \<lparr>pr_size = 0, pr_etag = etag, pr_version_id = None, pr_checksum_algorithm = None, pr_checksum_value = None\<rparr>)))))"

definition etag_of :: "env \<Rightarrow> bytes \<Rightarrow> string" where
  "etag_of E hashed = [CHR 0x22] @ e_hex E (e_md5 E hashed) @ [CHR 0x22]"

text \<open>The version id, drawn before the payload because it is part of the associated data.\<close>

definition new_version :: "env \<Rightarrow> FilesystemStorage \<Rightarrow> string \<Rightarrow> (StorageError, string option) act" where
  "new_version E st bucket =
     bind_act (versioned_or_false E st bucket) (\<lambda>versioned.
       if versioned then bind_act (generate_version_id E) (\<lambda>v. ok (Some v)) else ok None)"

definition as_encryption_error :: "StorageError + 'a \<Rightarrow> StorageError + 'a" where
  "as_encryption_error r = map_err (\<lambda>e. EncryptionError (storage_error_to_string e)) r"

text \<open>Encryption metadata, data key and cipher of an encrypted upload.\<close>

definition new_cipher ::
  "env \<Rightarrow> FilesystemStorage \<Rightarrow> string \<Rightarrow> string \<Rightarrow> string option \<Rightarrow> EncryptionRequest
     \<Rightarrow> (StorageError, EncryptionMeta \<times> bytes \<times> cipher) act" where
  "new_cipher E st bucket key version_id req =
     bind_act (draw (e_rnd E)) (\<lambda>rnd.
     bind_act (lift_res (as_encryption_error (prepare_encryption (e_enc E) (e_b64 E) (e_md5 E) rnd (st_keys st) req))) (\<lambda>em.
     bind_act (lift_res (as_encryption_error (resolve_dek (e_dec E) (e_b64 E) (e_md5 E) (st_keys st) em (er_customer_key req)))) (\<lambda>dek.
     bind_act (lift_res (decode_b64 (e_b64 E) (em_nonce_prefix em) (EncryptionError ''invalid nonce_prefix''))) (\<lambda>prefix_bytes.
       ok (em, dek, (dek, prefix_bytes, object_aad_builder (e_sha256 E) bucket key version_id))))))"

definition new_cipher_opt ::
  "env \<Rightarrow> FilesystemStorage \<Rightarrow> string \<Rightarrow> string \<Rightarrow> string option \<Rightarrow> EncryptionRequest option
     \<Rightarrow> (StorageError, (EncryptionMeta \<times> bytes \<times> cipher) option) act" where
  "new_cipher_opt E st bucket key version_id encryption =
     (case encryption of
        None \<Rightarrow> ok None
      | Some req \<Rightarrow> bind_act (new_cipher E st bucket key version_id req) (\<lambda>c. ok (Some c)))"

definition seal_opt :: "env \<Rightarrow> (EncryptionMeta \<times> bytes \<times> cipher) option \<Rightarrow> ObjectMeta \<Rightarrow> ObjectMeta" where
  "seal_opt E c meta =
     (case c of None \<Rightarrow> meta | Some (_, dek, _) \<Rightarrow> seal_meta (e_hmac E) dek meta)"

text \<open>
  The checksum of the upload is computed and compared with the one the client sent; on a
  mismatch the temporary payload is removed.
\<close>

definition check_checksum ::
  "env \<Rightarrow> path \<Rightarrow> bool \<Rightarrow> (ChecksumAlgorithm \<times> string option) option \<Rightarrow> bytes
     \<Rightarrow> (StorageError, ChecksumAlgorithm option \<times> string option) act" where
  "check_checksum E tmp is_dir checksum hashed =
     (case checksum of
        None \<Rightarrow> ok (None, None)
      | Some (algo, expected) \<Rightarrow>
          (let computed = e_checksum E algo hashed
           in case expected of
                Some v \<Rightarrow>
                  if computed \<noteq> v
                  then bind_act (remove_path_if_exists tmp is_dir) (\<lambda>_.
                         fail (ChecksumMismatch (''expected '' @ v @ '', got '' @ computed)))
                  else ok (Some algo, Some computed)
              | None \<Rightarrow> ok (Some algo, Some computed)))"

definition upload_meta ::
  "string \<Rightarrow> nat \<Rightarrow> string \<Rightarrow> string \<Rightarrow> string \<Rightarrow> string option \<Rightarrow> string option
     \<Rightarrow> ChecksumAlgorithm option \<Rightarrow> string option \<Rightarrow> EncryptionMeta option \<Rightarrow> ObjectMeta" where
  "upload_meta key sz etag content_type now version_id format algo value em =
     (plain_object_meta key sz etag content_type now)
       \<lparr>om_version_id := version_id, om_storage_format := format, om_checksum_algorithm := algo,
        om_checksum_value := value, om_encryption := em\<rparr>"

text \<open>Writing the temporary metadata and publishing it with the payload.\<close>

definition publish_upload ::
  "env \<Rightarrow> FilesystemStorage \<Rightarrow> string \<Rightarrow> string \<Rightarrow> ObjectMeta \<Rightarrow> path \<Rightarrow> path \<Rightarrow> bool \<Rightarrow> (StorageError, unit) act" where
  "publish_upload E st bucket key meta tmp_payload final_payload is_dir =
     (let mp = meta_path (st_buckets_dir st) bucket key
      in bind_act (create_parent mp) (\<lambda>_.
         bind_act (temp_sibling_path (e_uuid E) mp) (\<lambda>tmp_meta.
           with_guard tmp_meta False
             (bind_act (write_json (e_object E) tmp_meta meta) (\<lambda>_.
                publish_temp_payload_and_meta (e_uuid E) tmp_payload final_payload is_dir tmp_meta mp)))))"

definition put_result :: "ObjectMeta \<Rightarrow> PutResult" where
  "put_result meta =
     \<lparr>pr_size = om_size meta, pr_etag = om_etag meta, pr_version_id = om_version_id meta,
      pr_checksum_algorithm = om_checksum_algorithm meta, pr_checksum_value = om_checksum_value meta\<rparr>"

text \<open>What follows the payload loop of the flat upload, while the payload's guard is armed.\<close>

definition finish_flat ::
  "env \<Rightarrow> FilesystemStorage \<Rightarrow> string \<Rightarrow> string \<Rightarrow> string \<Rightarrow> string option
     \<Rightarrow> (EncryptionMeta \<times> bytes \<times> cipher) option \<Rightarrow> (ChecksumAlgorithm \<times> string option) option
     \<Rightarrow> path \<Rightarrow> frame_writer \<Rightarrow> (StorageError, ObjectMeta) act" where
  "finish_flat E st bucket key content_type version_id c checksum tmp_obj fw =
     bind_act (io (fs_write tmp_obj (fw_out fw))) (\<lambda>_.
     bind_act (check_checksum E tmp_obj False checksum (fw_hashed fw)) (\<lambda>(algo, value).
     bind_act (now_string E) (\<lambda>now.
     bind_act (resolve_default_object_lock E st bucket) (\<lambda>default_lock.
     let meta = seal_opt E c (apply_object_lock
                  (upload_meta key (fw_size fw) (etag_of E (fw_hashed fw)) content_type now version_id None algo value
                     (map_option fst c)) default_lock)
     in bind_act (publish_upload E st bucket key meta tmp_obj (object_path (st_buckets_dir st) bucket key) False) (\<lambda>_.
          ok meta)))))"

definition put_object_flat ::
  "env \<Rightarrow> FilesystemStorage \<Rightarrow> 's reader \<Rightarrow> string \<Rightarrow> string \<Rightarrow> string \<Rightarrow> 's
     \<Rightarrow> (ChecksumAlgorithm \<times> string option) option \<Rightarrow> EncryptionRequest option \<Rightarrow> (StorageError, PutResult) pact" where
  "put_object_flat E st rd bucket key content_type body checksum encryption =
     bind_p (total (new_version E st bucket)) (\<lambda>version_id.
     bind_p (total (new_cipher_opt E st bucket key version_id encryption)) (\<lambda>c.
     let obj_path = object_path (st_buckets_dir st) bucket key
     in bind_p (total (create_parent obj_path)) (\<lambda>_.
        bind_p (total (temp_sibling_path (e_uuid E) obj_path)) (\<lambda>tmp_obj.
        bind_p
          (guard_p tmp_obj False
             (bind_p (total (io (fs_write tmp_obj []))) (\<lambda>_.
              bind_p (lift_opt (map_option fst (put_payload rd IO_BUFFER_SIZE (e_enc E) (map_option (snd \<circ> snd) c) body fw_new))) (\<lambda>fw.
                total (finish_flat E st bucket key content_type version_id c checksum tmp_obj fw)))))
          (\<lambda>meta. total (bind_act (if version_id \<noteq> None then write_version E st bucket key meta obj_path else ok ()) (\<lambda>_.
             ok (put_result meta))))))))"

section \<open>Chunked uploads\<close>

text \<open>The chunk files, in the order of their chunks, and the manifest.\<close>

definition write_chunk_files :: "env \<Rightarrow> path \<Rightarrow> ChunkManifest \<Rightarrow> chunk_files \<Rightarrow> (StorageError, unit) act" where
  "write_chunk_files E dir manifest files =
     bind_act (for_each (cm_chunks manifest) (\<lambda>ci.
         case files (chunk_name (ci_index ci)) of
           Some data \<Rightarrow> io (fs_write (dir @ [chunk_name (ci_index ci)]) data)
         | None \<Rightarrow> ok ())) (\<lambda>_.
       write_json (e_manifest E) (dir @ [''manifest.json'']) manifest)"

definition chunk_format :: "ChunkManifest \<Rightarrow> string" where
  "chunk_format m = (if cm_parity_shards m \<noteq> None then ''chunked-v2'' else ''chunked-v1'')"

definition put_object_chunked ::
  "env \<Rightarrow> FilesystemStorage \<Rightarrow> 's reader \<Rightarrow> string \<Rightarrow> string \<Rightarrow> string \<Rightarrow> 's
     \<Rightarrow> ChecksumAlgorithm option \<Rightarrow> (StorageError, PutResult) pact" where
  "put_object_chunked E st rd bucket key content_type body checksum_algo =
     bind_p (total (lift_res (validate_bucket_name bucket))) (\<lambda>_.
     let ec = ec_dir (st_buckets_dir st) bucket key
     in bind_p (total (temp_sibling_path (e_uuid E) ec)) (\<lambda>tmp_ec.
        bind_p
          (guard_p tmp_ec True
             (bind_p (total (bind_act (create_parent ec) (\<lambda>_. io (fs_create_dir_all tmp_ec)))) (\<lambda>_.
              bind_p (lift_opt (put_object_chunked_payload rd IO_BUFFER_SIZE (e_hex E \<circ> e_sha256 E) (e_rs_encode E)
                        (st_chunk_size st) (st_parity_shards st) body)) (\<lambda>(manifest, files, hashed).
                total
                  (bind_act (write_chunk_files E tmp_ec manifest files) (\<lambda>_.
                   bind_act (now_string E) (\<lambda>now.
                   bind_act (new_version E st bucket) (\<lambda>version_id.
                   let meta = upload_meta key (cm_total_size manifest) (etag_of E hashed) content_type now version_id
                                (Some (chunk_format manifest)) checksum_algo
                                (map_option (\<lambda>a. e_checksum E a hashed) checksum_algo) None
                   in bind_act (publish_upload E st bucket key meta tmp_ec ec True) (\<lambda>_. ok meta)))))))))
          (\<lambda>meta. total (bind_act (if om_version_id meta \<noteq> None then write_version_chunked E st bucket key meta else ok ()) (\<lambda>_.
             ok (put_result meta))))))"

text \<open>
  The loop of \<open>put_object_chunked_encrypted\<close>: the plaintext is cut into frames, the encrypted
  frames are collected in \<open>chunk_buf\<close> and cut into chunks. \<open>cw_total\<close> is \<open>ct_size\<close>,
  \<open>cw_buf\<close> is \<open>chunk_buf\<close>.
\<close>

record enc_chunk_writer =
  ew_frame_buf :: bytes
  ew_frame_index :: nat
  ew_plaintext_size :: nat
  ew_hashed :: bytes
  ew_chunks :: chunk_writer

definition ew_new :: enc_chunk_writer where
  "ew_new = \<lparr>ew_frame_buf = [], ew_frame_index = 0, ew_plaintext_size = 0, ew_hashed = [], ew_chunks = cw_new\<rparr>"

partial_function (option) cut_chunks :: "(bytes \<Rightarrow> string) \<Rightarrow> nat \<Rightarrow> chunk_writer \<Rightarrow> chunk_writer option" where
  "cut_chunks sha chunk_size w =
     (if length (cw_buf w) \<ge> chunk_size
      then (let w' = push_chunk sha (take chunk_size (cw_buf w)) w
            in cut_chunks sha chunk_size
                 (w'\<lparr>cw_buf := drop chunk_size (cw_buf w), cw_index := Suc (cw_index w),
                     cw_total := cw_total w + length (take chunk_size (cw_buf w))\<rparr>))
      else Some w)"

partial_function (option) seal_frames ::
  "aead \<Rightarrow> cipher \<Rightarrow> (bytes \<Rightarrow> string) \<Rightarrow> nat \<Rightarrow> enc_chunk_writer \<Rightarrow> (StorageError + enc_chunk_writer) option" where
  "seal_frames enc cph sha chunk_size w =
     (if length (ew_frame_buf w) \<ge> FRAME_CHUNK_SIZE
      then (case encrypt_frame_to_vec enc (fst cph) (fst (snd cph)) (ew_frame_index w) (take FRAME_CHUNK_SIZE (ew_frame_buf w))
                   (snd (snd cph) (ew_frame_index w)) of
              Inl e \<Rightarrow> Some (Inl e)
            | Inr ct \<Rightarrow>
                (case cut_chunks sha chunk_size ((ew_chunks w)\<lparr>cw_buf := cw_buf (ew_chunks w) @ ct\<rparr>) of
                   None \<Rightarrow> None
                 | Some cw \<Rightarrow> seal_frames enc cph sha chunk_size
                     (w\<lparr>ew_frame_buf := drop FRAME_CHUNK_SIZE (ew_frame_buf w), ew_frame_index := Suc (ew_frame_index w),
                        ew_chunks := cw\<rparr>)))
      else Some (Inr w))"

text \<open>At the end of the body: the trailing frame, the full chunks, the remainder.\<close>

definition seal_rest ::
  "aead \<Rightarrow> cipher \<Rightarrow> (bytes \<Rightarrow> string) \<Rightarrow> nat \<Rightarrow> enc_chunk_writer \<Rightarrow> (StorageError + enc_chunk_writer) option" where
  "seal_rest enc cph sha chunk_size w =
     (case (if ew_frame_buf w \<noteq> []
            then encrypt_frame_to_vec enc (fst cph) (fst (snd cph)) (ew_frame_index w) (ew_frame_buf w) (snd (snd cph) (ew_frame_index w))
            else Inr []) of
        Inl e \<Rightarrow> Some (Inl e)
      | Inr ct \<Rightarrow>
          (case cut_chunks sha chunk_size ((ew_chunks w)\<lparr>cw_buf := cw_buf (ew_chunks w) @ ct\<rparr>) of
             None \<Rightarrow> None
           | Some cw \<Rightarrow>
               Some (Inr (w\<lparr>ew_frame_buf := [],
                 ew_chunks := (if cw_buf cw \<noteq> []
                               then (push_chunk sha (cw_buf cw) cw)\<lparr>cw_buf := [], cw_total := cw_total cw + length (cw_buf cw)\<rparr>
                               else cw)\<rparr>))))"

partial_function (option) put_chunks_encrypted ::
  "'s reader \<Rightarrow> nat \<Rightarrow> aead \<Rightarrow> cipher \<Rightarrow> (bytes \<Rightarrow> string) \<Rightarrow> nat \<Rightarrow> 's \<Rightarrow> enc_chunk_writer
     \<Rightarrow> (StorageError + enc_chunk_writer) option" where
  "put_chunks_encrypted rd cap enc cph sha chunk_size s w =
     (case rd s cap of
        (Pending, s') \<Rightarrow> put_chunks_encrypted rd cap enc cph sha chunk_size s' w
      | (Ready (Inl e), s') \<Rightarrow> Some (Inl (map_read_quota_error e))
      | (Ready (Inr bs), s') \<Rightarrow>
          (if bs = [] then seal_rest enc cph sha chunk_size w
           else (case seal_frames enc cph sha chunk_size
                        (w\<lparr>ew_hashed := ew_hashed w @ bs, ew_plaintext_size := ew_plaintext_size w + length bs,
                           ew_frame_buf := ew_frame_buf w @ bs\<rparr>) of
                   None \<Rightarrow> None
                 | Some (Inl e) \<Rightarrow> Some (Inl e)
                 | Some (Inr w') \<Rightarrow> put_chunks_encrypted rd cap enc cph sha chunk_size s' w')))"

definition put_object_chunked_encrypted ::
  "env \<Rightarrow> FilesystemStorage \<Rightarrow> 's reader \<Rightarrow> string \<Rightarrow> string \<Rightarrow> string \<Rightarrow> 's
     \<Rightarrow> (ChecksumAlgorithm \<times> string option) option \<Rightarrow> EncryptionRequest \<Rightarrow> (StorageError, PutResult) pact" where
  "put_object_chunked_encrypted E st rd bucket key content_type body checksum encryption =
     bind_p (total (lift_res (validate_bucket_name bucket))) (\<lambda>_.
     let ec = ec_dir (st_buckets_dir st) bucket key; sha = e_hex E \<circ> e_sha256 E
     in bind_p (total (temp_sibling_path (e_uuid E) ec)) (\<lambda>tmp_ec.
        bind_p
          (guard_p tmp_ec True
             (bind_p (total (bind_act (create_parent ec) (\<lambda>_. io (fs_create_dir_all tmp_ec)))) (\<lambda>_.
              bind_p (total (new_version E st bucket)) (\<lambda>version_id.
              bind_p (total (new_cipher E st bucket key version_id encryption)) (\<lambda>c.
              bind_p (lift_opt (put_chunks_encrypted rd IO_BUFFER_SIZE (e_enc E) (snd (snd c)) sha (st_chunk_size st) body ew_new)) (\<lambda>ew.
              bind_p (lift_opt (Some (finish_chunks sha (e_rs_encode E) (st_chunk_size st) (st_parity_shards st) (ew_chunks ew)))) (\<lambda>(m, files).
                total
                  (let manifest = m\<lparr>cm_plaintext_size := Some (ew_plaintext_size ew)\<rparr>
                   in bind_act (write_chunk_files E tmp_ec manifest files) (\<lambda>_.
                      bind_act (check_checksum E tmp_ec True checksum (ew_hashed ew)) (\<lambda>(algo, value).
                      bind_act (now_string E) (\<lambda>now.
                      let meta = seal_meta (e_hmac E) (fst (snd c))
                            (upload_meta key (ew_plaintext_size ew) (etag_of E (ew_hashed ew)) content_type now version_id
                               (Some (chunk_format manifest)) algo value (Some (fst c)))
                      in bind_act (publish_upload E st bucket key meta tmp_ec ec True) (\<lambda>_. ok meta))))))))))))
          (\<lambda>meta. total (bind_act (if om_version_id meta \<noteq> None then write_version_chunked E st bucket key meta else ok ()) (\<lambda>_.
             ok (put_result meta))))))"

section \<open>The request\<close>

definition put_object ::
  "env \<Rightarrow> FilesystemStorage \<Rightarrow> 's reader \<Rightarrow> string \<Rightarrow> string \<Rightarrow> string \<Rightarrow> 's
     \<Rightarrow> (ChecksumAlgorithm \<times> string option) option \<Rightarrow> EncryptionRequest option \<Rightarrow> nat option \<Rightarrow> (StorageError, PutResult) pact" where
  "put_object E st rd bucket key content_type body checksum encryption declared_size =
     bind_p (total
       (bind_act (lift_res (validate_bucket_name bucket)) (\<lambda>_.
        bind_act (lift_res (validate_key key)) (\<lambda>_.
        bind_act (ensure_can_overwrite E st bucket key) (\<lambda>_.
        lift_res (check_upload_start (st_quota st) (e_disk E 0) declared_size)))))) (\<lambda>_.
     let q = QuotaReader_new body (st_quota st); qrd = quota_poll_read rd (e_disk E)
     in if ends_with key ''/'' then total (put_folder_marker E st bucket key)
        else bind_p (total (effective_erasure_coding E st bucket)) (\<lambda>ec.
          if ec
          then (case encryption of
                  Some req \<Rightarrow> put_object_chunked_encrypted E st qrd bucket key content_type q checksum req
                | None \<Rightarrow> put_object_chunked E st qrd bucket key content_type q (map_option fst checksum))
          else put_object_flat E st qrd bucket key content_type q checksum encryption))"

end
