(* ===== verification/ObjectReads.thy ===== *)
theory ObjectReads
  imports Objects
begin

text \<open>
  Reading, tagging and deleting objects and their versions (\<open>filesystem/object_io.rs\<close>,
  \<open>filesystem/encryption_io.rs\<close>).

  A successful read returns one of four streams. A stream over a file or a chunk directory
  reads what was there when it was opened: uploads install new files by renaming and never
  write into an installed one. A directory in the place of a payload file is reported when
  it is opened, not at the first read.
\<close>

section \<open>The streams\<close>

datatype object_reader =
    MemStream bytes
  | ChunkStream VerifiedChunkReader
  | FrameStream "bytes FrameDecryptor"
  | ChunkFrameStream "VerifiedChunkReader FrameDecryptor"

abbreviation chunk_sha :: "env \<Rightarrow> bytes \<Rightarrow> string" where
  "chunk_sha E \<equiv> e_hex E \<circ> e_sha256 E"

abbreviation chunks_rd :: "env \<Rightarrow> VerifiedChunkReader reader" where
  "chunks_rd E \<equiv> chunk_read (chunk_sha E) (e_rs_decode E)"

fun object_read :: "env \<Rightarrow> object_reader reader" where
  "object_read E (MemStream s) n = (case cursor_read s n of (r, s') \<Rightarrow> (r, MemStream s'))"
| "object_read E (ChunkStream s) n = (case chunks_rd E s n of (r, s') \<Rightarrow> (r, ChunkStream s'))"
| "object_read E (FrameStream s) n = (case decryptor_read cursor_read (e_dec E) s n of (r, s') \<Rightarrow> (r, FrameStream s'))"
| "object_read E (ChunkFrameStream s) n =
     (case decryptor_read (chunks_rd E) (e_dec E) s n of (r, s') \<Rightarrow> (r, ChunkFrameStream s'))"

definition chunk_dir_at :: "path \<Rightarrow> node \<Rightarrow> chunk_dir" where
  "chunk_dir_at p t = (\<lambda>name. read_at (p @ [name]) t)"

section \<open>Opening\<close>

definition open_file :: "StorageError \<Rightarrow> path \<Rightarrow> (StorageError, bytes) act" where
  "open_file missing p = or_not_found missing (fs_read p)"

text \<open>Resolve the data key and check the sidecar MAC under it.\<close>

definition unlock :: "env \<Rightarrow> FilesystemStorage \<Rightarrow> ObjectMeta \<Rightarrow> EncryptionMeta \<Rightarrow> bytes option \<Rightarrow> StorageError + bytes" where
  "unlock E st meta em customer_key =
     bind_res (resolve_dek (e_dec E) (e_b64 E) (e_md5 E) (st_keys st) em customer_key) (\<lambda>dek.
     bind_res (verify_sidecar_mac (e_hmac E) meta dek) (\<lambda>_. Inr dek))"

definition preflight_chunk_reader :: "env \<Rightarrow> VerifiedChunkReader option \<Rightarrow> (StorageError + VerifiedChunkReader) option" where
  "preflight_chunk_reader E r =
     (case r of
        None \<Rightarrow> None
      | Some r \<Rightarrow>
          (case chunk_preflight (chunk_sha E) (e_rs_decode E) r of
             None \<Rightarrow> None
           | Some (Inl e, _) \<Rightarrow> Some (Inl (IntegrityError (io_msg e)))
           | Some (Inr _, r') \<Rightarrow> Some (Inr r')))"

definition preflight_frame_decryptor ::
  "env \<Rightarrow> 's reader \<Rightarrow> 's FrameDecryptor \<Rightarrow> (StorageError + 's FrameDecryptor) option" where
  "preflight_frame_decryptor E rd d =
     (case preflight rd (e_dec E) d of
        None \<Rightarrow> None
      | Some (Inl e, _) \<Rightarrow> Some (Inl (DecryptionError (io_msg e)))
      | Some (Inr _, d') \<Rightarrow> Some (Inr d'))"

text \<open>The whole of a chunked object, and of a flat encrypted one.\<close>

definition open_chunked ::
  "env \<Rightarrow> FilesystemStorage \<Rightarrow> string \<Rightarrow> string \<Rightarrow> path \<Rightarrow> ChunkManifest \<Rightarrow> ObjectMeta \<Rightarrow> bytes option
     \<Rightarrow> (StorageError, object_reader) pact" where
  "open_chunked E st bucket key dir manifest meta customer_key =
     (let chunks = (\<lambda>w. lift_opt (preflight_chunk_reader E
                          (Some (VerifiedChunkReader_new (chunk_dir_at dir (w_root w)) manifest))) w)
      in case om_encryption meta of
           Some em \<Rightarrow>
             bind_p (total (lift_res (unlock E st meta em customer_key))) (\<lambda>dek.
             bind_p chunks (\<lambda>r.
             bind_p (lift_opt (preflight_frame_decryptor E (chunks_rd E)
                       (FrameDecryptor_new r dek (om_size meta) (em_chunk_size em)
                          (object_aad_builder (e_sha256 E) bucket key (om_version_id meta))))) (\<lambda>d.
               total (ok (ChunkFrameStream d)))))
         | None \<Rightarrow> bind_p chunks (\<lambda>r. total (ok (ChunkStream r))))"

definition open_encrypted ::
  "env \<Rightarrow> FilesystemStorage \<Rightarrow> string \<Rightarrow> string \<Rightarrow> StorageError \<Rightarrow> path \<Rightarrow> ObjectMeta \<Rightarrow> EncryptionMeta \<Rightarrow> bytes option
     \<Rightarrow> (StorageError, object_reader) pact" where
  "open_encrypted E st bucket key missing p meta em customer_key =
     bind_p (total (lift_res (unlock E st meta em customer_key))) (\<lambda>dek.
     bind_p (total (open_file missing p)) (\<lambda>file.
     bind_p (lift_opt (preflight_frame_decryptor E cursor_read
               (FrameDecryptor_new file dek (om_size meta) (em_chunk_size em)
                  (object_aad_builder (e_sha256 E) bucket key (om_version_id meta))))) (\<lambda>d.
       total (ok (FrameStream d)))))"

section \<open>Reads\<close>

definition checked_meta ::
  "env \<Rightarrow> FilesystemStorage \<Rightarrow> string \<Rightarrow> string \<Rightarrow> bytes option \<Rightarrow> (StorageError, ObjectMeta) act" where
  "checked_meta E st bucket key customer_key =
     bind_act (lift_res (validate_bucket_name bucket)) (\<lambda>_.
     bind_act (lift_res (validate_key key)) (\<lambda>_.
     bind_act (read_object_meta E st bucket key) (\<lambda>meta.
     bind_act (lift_res (reject_sse_c_on_plaintext meta (customer_key \<noteq> None))) (\<lambda>_. ok meta))))"

definition get_object ::
  "env \<Rightarrow> FilesystemStorage \<Rightarrow> string \<Rightarrow> string \<Rightarrow> bytes option \<Rightarrow> (StorageError, object_reader \<times> ObjectMeta) pact" where
  "get_object E st bucket key customer_key =
     bind_p (total (checked_meta E st bucket key customer_key)) (\<lambda>meta.
     let ec = ec_dir (st_buckets_dir st) bucket key; obj_path = object_path (st_buckets_dir st) bucket key
     in bind_p (total (fs_is_dir ec)) (\<lambda>chunked.
        bind_p
          (if chunked
           then bind_p (total (read_manifest E st bucket key)) (\<lambda>manifest.
                  open_chunked E st bucket key ec manifest meta customer_key)
           else (case om_encryption meta of
                   Some em \<Rightarrow> open_encrypted E st bucket key (NotFound key) obj_path meta em customer_key
                 | None \<Rightarrow> bind_p (total (open_file (NotFound key) obj_path)) (\<lambda>data. total (ok (MemStream data)))))
          (\<lambda>r. total (ok (r, meta)))))"

text \<open>
  \<open>file.seek(..)\<close> then \<open>read_exact\<close> for short ranges, \<open>take(length)\<close> for long ones.
\<close>

definition early_eof :: io_error where
  "early_eof = \<lparr>io_kind = UnexpectedEofKind, io_msg = ''early eof''\<rparr>"

definition file_range :: "bytes \<Rightarrow> nat \<Rightarrow> nat \<Rightarrow> StorageError + bytes" where
  "file_range data offset len =
     (if len \<le> SMALL_OBJECT_THRESHOLD \<and> length (drop offset data) < len then Inl (Io early_eof)
      else Inr (take len (drop offset data)))"

definition get_object_range ::
  "env \<Rightarrow> FilesystemStorage \<Rightarrow> string \<Rightarrow> string \<Rightarrow> nat \<Rightarrow> nat \<Rightarrow> bytes option \<Rightarrow> (StorageError, object_reader \<times> ObjectMeta) pact" where
  "get_object_range E st bucket key offset len customer_key =
     bind_p (total (checked_meta E st bucket key customer_key)) (\<lambda>meta.
     let ec = ec_dir (st_buckets_dir st) bucket key; obj_path = object_path (st_buckets_dir st) bucket key;
         aad = object_aad_builder (e_sha256 E) bucket key (om_version_id meta)
     in bind_p (total (fs_is_dir ec)) (\<lambda>chunked.
        bind_p
          (if chunked
           then bind_p (total (read_manifest E st bucket key)) (\<lambda>manifest.
                  case om_encryption meta of
                    Some em \<Rightarrow>
                      bind_p (total (lift_res (unlock E st meta em customer_key))) (\<lambda>dek.
                      bind_p (lift_opt (map_option Inr (ciphertext_offset (em_chunk_size em) offset))) (\<lambda>ct_offset.
                      bind_p (\<lambda>w. lift_opt (preflight_chunk_reader E
                                (with_range (chunk_dir_at ec (w_root w)) manifest ct_offset (cm_total_size manifest - ct_offset))) w) (\<lambda>r.
                      bind_p (lift_opt (map_option Inr (for_range r dek (om_size meta) (em_chunk_size em) offset len aad))) (\<lambda>d.
                        total (ok (ChunkFrameStream d))))))
                  | None \<Rightarrow>
                      bind_p (\<lambda>w. lift_opt (preflight_chunk_reader E
                                (with_range (chunk_dir_at ec (w_root w)) manifest offset len)) w) (\<lambda>r.
                        total (ok (ChunkStream r))))
           else (case om_encryption meta of
                   Some em \<Rightarrow>
                     bind_p (total (lift_res (unlock E st meta em customer_key))) (\<lambda>dek.
                     bind_p (lift_opt (map_option Inr (ciphertext_offset (em_chunk_size em) offset))) (\<lambda>ct_offset.
                     bind_p (total (open_file (NotFound key) obj_path)) (\<lambda>file.
                     bind_p (lift_opt (map_option Inr
                               (for_range (drop ct_offset file) dek (om_size meta) (em_chunk_size em) offset len aad))) (\<lambda>d.
                       total (ok (FrameStream d))))))
                 | None \<Rightarrow>
                     bind_p (total (open_file (NotFound key) obj_path)) (\<lambda>data.
                     bind_p (lift_opt (Some (file_range data offset len))) (\<lambda>part. total (ok (MemStream part))))))
          (\<lambda>r. total (ok (r, meta)))))"

definition head_object :: "env \<Rightarrow> FilesystemStorage \<Rightarrow> string \<Rightarrow> string \<Rightarrow> (StorageError, ObjectMeta) act" where
  "head_object E st bucket key =
     bind_act (lift_res (validate_bucket_name bucket)) (\<lambda>_.
     bind_act (lift_res (validate_key key)) (\<lambda>_. read_object_meta E st bucket key))"

definition get_object_tagging :: "env \<Rightarrow> FilesystemStorage \<Rightarrow> string \<Rightarrow> string \<Rightarrow> (StorageError, (string \<times> string) list) act" where
  "get_object_tagging E st bucket key =
     bind_act (lift_res (validate_key key)) (\<lambda>_.
     bind_act (read_object_meta E st bucket key) (\<lambda>meta.
       ok (case om_tags meta of Some tags \<Rightarrow> tags | None \<Rightarrow> [])))"

definition put_object_tagging ::
  "env \<Rightarrow> FilesystemStorage \<Rightarrow> string \<Rightarrow> string \<Rightarrow> (string \<times> string) list \<Rightarrow> (StorageError, unit) act" where
  "put_object_tagging E st bucket key tags =
     bind_act (lift_res (validate_key key)) (\<lambda>_.
     bind_act (read_object_meta E st bucket key) (\<lambda>meta.
       write_json (e_object E) (meta_path (st_buckets_dir st) bucket key)
         (meta\<lparr>om_tags := (if tags = [] then None else Some tags)\<rparr>)))"

definition delete_object_tagging :: "env \<Rightarrow> FilesystemStorage \<Rightarrow> string \<Rightarrow> string \<Rightarrow> (StorageError, unit) act" where
  "delete_object_tagging E st bucket key =
     bind_act (lift_res (validate_key key)) (\<lambda>_.
     bind_act (read_object_meta E st bucket key) (\<lambda>meta.
       write_json (e_object E) (meta_path (st_buckets_dir st) bucket key) (meta\<lparr>om_tags := None\<rparr>)))"

section \<open>Deletion\<close>

text \<open>Remove the parent directories that have become empty, up to the bucket's own.\<close>

function remove_empty_parents :: "path \<Rightarrow> path \<Rightarrow> (StorageError, unit) act" where
  "remove_empty_parents bucket_dir d =
     (if d = bucket_dir then ok ()
      else bind_act (attempt (fs_remove_dir d)) (\<lambda>r.
             case r of
               Inl _ \<Rightarrow> ok ()
             | Inr _ \<Rightarrow> if d = [] then ok () else remove_empty_parents bucket_dir (butlast d)))"
  by pat_completeness auto
termination
  by (relation "measure (\<lambda>(b, d). length d)") auto

declare remove_empty_parents.simps [simp del]

definition no_delete_result :: DeleteResult where
  "no_delete_result = \<lparr>dr_version_id = None, dr_is_delete_marker = False\<rparr>"

definition delete_object :: "env \<Rightarrow> FilesystemStorage \<Rightarrow> string \<Rightarrow> string \<Rightarrow> (StorageError, DeleteResult) act" where
  "delete_object E st bucket key =
     bind_act (lift_res (validate_bucket_name bucket)) (\<lambda>_.
     bind_act (lift_res (validate_key key)) (\<lambda>_.
     bind_act (versioned_or_false E st bucket) (\<lambda>versioned.
     let obj_path = object_path (st_buckets_dir st) bucket key;
         mpath = meta_path (st_buckets_dir st) bucket key;
         ec = ec_dir (st_buckets_dir st) bucket key
     in if versioned
        then bind_act (attempt (fs_try_exists mpath)) (\<lambda>r.
             bind_act (if r = Inr True
                       then bind_act (read_object_meta E st bucket key) (\<lambda>meta. ensure_can_delete_meta E meta)
                       else ok ()) (\<lambda>_.
               write_delete_marker E st bucket key))
        else bind_act (io (fs_try_exists mpath)) (\<lambda>has_meta.
             bind_act (if has_meta then ok True else io (fs_try_exists obj_path)) (\<lambda>has_obj.
             bind_act (if has_obj then ok True else io (fs_try_exists ec)) (\<lambda>has_any.
               if \<not> has_any then ok no_delete_result
               else bind_act (io (fs_try_exists mpath)) (\<lambda>has_meta.
                    bind_act (if has_meta
                              then bind_act (read_object_meta E st bucket key) (\<lambda>meta. ensure_can_delete_meta E meta)
                              else ok ()) (\<lambda>_.
                    bind_act (remove_file_if_exists obj_path) (\<lambda>_.
                    bind_act (remove_file_if_exists mpath) (\<lambda>_.
                    bind_act (remove_dir_all_if_exists ec) (\<lambda>_.
                    bind_act (if obj_path = [] then ok ()
                              else remove_empty_parents (join_path (st_buckets_dir st) bucket) (butlast obj_path)) (\<lambda>_.
                      ok no_delete_result))))))))))))"

section \<open>Versions\<close>

definition read_version_meta ::
  "env \<Rightarrow> FilesystemStorage \<Rightarrow> string \<Rightarrow> string \<Rightarrow> string \<Rightarrow> (StorageError, ObjectMeta) act" where
  "read_version_meta E st bucket key version_id =
     read_json (e_object E) (VersionNotFound version_id) (version_meta_path (st_buckets_dir st) bucket key version_id)"

definition get_object_version ::
  "env \<Rightarrow> FilesystemStorage \<Rightarrow> string \<Rightarrow> string \<Rightarrow> string \<Rightarrow> bytes option \<Rightarrow> (StorageError, object_reader \<times> ObjectMeta) pact" where
  "get_object_version E st bucket key version_id customer_key =
     bind_p (total (bind_act (lift_res (validate_bucket_name bucket)) (\<lambda>_. lift_res (validate_key key)))) (\<lambda>_.
       if version_id = ''null'' then get_object E st bucket key customer_key
       else bind_p (total (read_version_meta E st bucket key version_id)) (\<lambda>meta.
         if om_is_delete_marker meta then total (fail (NotFound key))
         else
           bind_p (total (lift_res (reject_sse_c_on_plaintext meta (customer_key \<noteq> None)))) (\<lambda>_.
           let ver_ec = version_ec_dir (st_buckets_dir st) bucket key version_id;
               ver_data = version_data_path (st_buckets_dir st) bucket key version_id
           in bind_p (total (fs_is_dir ver_ec)) (\<lambda>chunked.
              bind_p
                (if chunked
                 then bind_p (total (read_json (e_manifest E) (VersionNotFound version_id) (ver_ec @ [''manifest.json'']))) (\<lambda>manifest.
                        open_chunked E st bucket key ver_ec manifest meta customer_key)
                 else (case om_encryption meta of
                         Some em \<Rightarrow> open_encrypted E st bucket key (VersionNotFound version_id) ver_data meta em customer_key
                       | None \<Rightarrow> bind_p (total (open_file (VersionNotFound version_id) ver_data)) (\<lambda>data.
                                   total (ok (MemStream data)))))
                (\<lambda>r. total (ok (r, meta)))))))"

definition head_object_version :: "env \<Rightarrow> FilesystemStorage \<Rightarrow> string \<Rightarrow> string \<Rightarrow> string \<Rightarrow> (StorageError, ObjectMeta) act" where
  "head_object_version E st bucket key version_id =
     bind_act (lift_res (validate_bucket_name bucket)) (\<lambda>_.
     bind_act (lift_res (validate_key key)) (\<lambda>_.
       if version_id = ''null'' then head_object E st bucket key
       else bind_act (read_version_meta E st bucket key version_id) (\<lambda>meta.
         if om_is_delete_marker meta then fail (NotFound key) else ok meta)))"

definition delete_object_version :: "env \<Rightarrow> FilesystemStorage \<Rightarrow> string \<Rightarrow> string \<Rightarrow> string \<Rightarrow> (StorageError, ObjectMeta) act" where
  "delete_object_version E st bucket key version_id =
     bind_act (lift_res (validate_bucket_name bucket)) (\<lambda>_.
     bind_act (lift_res (validate_key key)) (\<lambda>_.
       if version_id = ''null''
       then bind_act (read_object_meta E st bucket key) (\<lambda>meta.
            bind_act (ensure_can_delete_meta E meta) (\<lambda>_.
            bind_act (remove_file_if_exists (object_path (st_buckets_dir st) bucket key)) (\<lambda>_.
            bind_act (remove_file_if_exists (meta_path (st_buckets_dir st) bucket key)) (\<lambda>_.
            bind_act (remove_dir_all_if_exists (ec_dir (st_buckets_dir st) bucket key)) (\<lambda>_.
            bind_act (update_current_version E st bucket key) (\<lambda>_. ok meta))))))
       else bind_act (read_version_meta E st bucket key version_id) (\<lambda>meta.
            bind_act (protected_now E meta) (\<lambda>b.
              if b then fail (ObjectLocked ''object version is protected by retention or legal hold'')
              else
                bind_act (ignore (fs_remove_file (version_meta_path (st_buckets_dir st) bucket key version_id))) (\<lambda>_.
                bind_act (ignore (fs_remove_file (version_data_path (st_buckets_dir st) bucket key version_id))) (\<lambda>_.
                bind_act (ignore (fs_remove_dir_all (version_ec_dir (st_buckets_dir st) bucket key version_id))) (\<lambda>_.
                bind_act (ignore (fs_remove_dir (versions_dir (st_buckets_dir st) bucket key))) (\<lambda>_.
                bind_act (update_current_version E st bucket key) (\<lambda>_. ok meta)))))))))"

end
