(* ===== verification/ObjectLaws.thy ===== *)
theory ObjectLaws
  imports ObjectReads
begin

text \<open>
  Uploads and reads of objects when no system call fails: what \<open>put_object\<close> leaves in the
  tree, and that reading it gives the uploaded bytes.

  \<open>stage\<close> collects what every step of an upload to a key relies on: the storage and the
  bucket's record are there, the directory of the key exists and the identifiers still to be
  drawn name no entry of it.
\<close>

section \<open>The directory of a key\<close>

abbreviation kdir :: "FilesystemStorage \<Rightarrow> string \<Rightarrow> string \<Rightarrow> path" where
  "kdir st b k \<equiv> key_dir (st_buckets_dir st) b k"

definition good_key :: "string \<Rightarrow> string \<Rightarrow> bool" where
  "good_key b k \<longleftrightarrow> is_valid_bucket_name b \<and> validate_key k = Inr () \<and> canonical_key k"

abbreviation base_name :: "string \<Rightarrow> string" where "base_name k \<equiv> last (segs k)"

lemma good_key_simps:
  assumes "good_key b k"
  shows "is_valid_bucket_name b" "validate_key k = Inr ()" "canonical_key k" "validate_bucket_name b = Inr ()"
    "object_path (st_buckets_dir st) b k = kdir st b k @ [base_name k]"
    "meta_path (st_buckets_dir st) b k = kdir st b k @ [base_name k @ ''.meta.json'']"
    "ec_dir (st_buckets_dir st) b k = kdir st b k @ [base_name k @ ''.ec'']"
    "versions_dir (st_buckets_dir st) b k = kdir st b k @ [''.versions'', base_name k]"
    "bucket_meta_path (st_buckets_dir st) b = st_buckets_dir st @ [b, ''.bucket.json'']"
    "\<not> ends_with k ''/''" "\<not> is_reserved_segment (base_name k)" "base_name k \<noteq> ''..''"
  using assms key_paths [of b k "st_buckets_dir st"] bucket_meta_path_eq canonical_not_folder last_seg_unreserved
  by (auto simp: good_key_def validate_bucket_name_def)

lemma key_dir_plain:
  assumes "good_key b k" "plain (st_buckets_dir st)"
  shows "plain (kdir st b k)"
proof -
  have "''..'' \<notin> set (segs k)" using valid_key_facts(3) good_key_simps(2) [OF assms(1)] by blast
  with valid_bucket_plain [of b] good_key_simps(1) [OF assms(1)] assms(2) show ?thesis
    by (auto simp: key_dir_def dest: in_set_butlastD)
qed

lemma suffix_plain [simp]: "x @ ''.meta.json'' \<noteq> ''..''" "x @ ''.ec'' \<noteq> ''..''"
  by (auto simp: append_eq_Cons_conv)

lemma names_differ:
  assumes "good_key b k"
  shows "base_name k \<noteq> tmp_name u"
    "base_name k \<noteq> base_name k @ ''.meta.json''" "base_name k @ ''.ec'' \<noteq> base_name k @ ''.meta.json''"
    "base_name k \<noteq> ''.bucket.json''" "base_name k @ ''.meta.json'' \<noteq> ''.bucket.json''"
  using good_key_simps(11) [OF assms] reserved_names suffixes_differ [of "base_name k" "base_name k"]
  by (auto simp: is_reserved_segment_def tmp_name_def ends_with_def suffix_def starts_with_def append_eq_Cons_conv)

lemma dotted_not_tmp:
  assumes "good_key b k"
  shows "base_name k @ CHR ''.'' # t \<noteq> tmp_name u"
proof
  assume "base_name k @ CHR ''.'' # t = tmp_name u"
  then obtain us where "base_name k = ''.maxio-tmp-'' @ us
      \<or> ''.maxio-tmp-'' = base_name k @ us \<and> us @ u = CHR ''.'' # t"
    unfolding tmp_name_def using append_eq_append_conv2 [of "base_name k" "CHR ''.'' # t" "''.maxio-tmp-''" u] by metis
  then show False
  proof
    assume "base_name k = ''.maxio-tmp-'' @ us"
    then show False using good_key_simps(11) [OF assms] by (simp add: is_reserved_segment_def starts_with_def)
  next
    assume a: "''.maxio-tmp-'' = base_name k @ us \<and> us @ u = CHR ''.'' # t"
    have "base_name k \<noteq> []"
      using canonical_nonempty [of k] good_key_simps(3) [OF assms] last_in_set [of "segs k"] by (auto simp: segs_def)
    with a good_key_simps(11) [OF assms] show False
      by (auto simp: append_eq_Cons_conv Cons_eq_append_conv is_reserved_segment_def starts_with_def)
  qed
qed

lemmas meta_not_tmp = dotted_not_tmp [where t = "''meta.json''"]
lemmas ec_not_tmp = dotted_not_tmp [where t = "''ec''"]

text \<open>The bucket's record is no entry of a key's directory.\<close>

lemma bucket_meta_apart:
  assumes "good_key b k" "x \<noteq> ''.bucket.json''"
  shows "apart (kdir st b k @ [x]) (st_buckets_dir st @ [b, ''.bucket.json''])"
proof (cases "butlast (segs k)")
  case Nil
  with assms(2) show ?thesis by (simp add: key_dir_def apart_def)
next
  case (Cons s ss)
  then have "s \<in> set (segs k)" by (metis in_set_butlastD list.set_intros(1))
  then have "\<not> is_reserved_segment s" using valid_key_facts(3) good_key_simps(2) [OF assms(1)] by blast
  then have "s \<noteq> ''.bucket.json''" by (auto simp: is_reserved_segment_def)
  with Cons show ?thesis by (simp add: key_dir_def apart_def)
qed

section \<open>The state of an upload\<close>

definition stage :: "env \<Rightarrow> FilesystemStorage \<Rightarrow> string \<Rightarrow> BucketMeta \<Rightarrow> string \<Rightarrow> world \<Rightarrow> bool" where
  "stage E st b m k w \<longleftrightarrow>
     w_faults w = [] \<and> store_ok st (w_root w) \<and> bucket_at E st (w_root w) b m
     \<and> is_dir_at (kdir st b k) (w_root w) \<and> fresh_names (e_uuid E) (kdir st b k) w"

lemma stage_draws: "stage E st b m k w \<Longrightarrow> w_draws w \<le> n \<Longrightarrow> stage E st b m k (w\<lparr>w_draws := n\<rparr>)"
  by (auto simp: stage_def fresh_names_def)

lemma stage_within:
  assumes "stage E st b m k w" "good_key b k" "within (kdir st b k) xs (w_root w) (w_root w')" "''.bucket.json'' \<notin> xs"
    and "w_faults w' = []" "fresh_names (e_uuid E) (kdir st b k) w'"
  shows "stage E st b m k w'"
proof -
  note s = assms(1) [unfolded stage_def]
  have d: "is_dir_at (kdir st b k) (w_root w')" using assms(3) by (simp add: within_def)
  then have "is_dir_at (st_buckets_dir st) (w_root w')" using is_dir_at_prefix by (auto simp: key_dir_def)
  moreover have "\<forall>x\<in>xs. apart (kdir st b k @ [x]) (st_buckets_dir st @ [b, ''.bucket.json''])"
    using bucket_meta_apart [OF assms(2)] assms(4) by metis
  then have "lookup (st_buckets_dir st @ [b, ''.bucket.json'']) (w_root w') = lookup (st_buckets_dir st @ [b, ''.bucket.json'']) (w_root w)"
    using assms(3) unfolding within_def by blast
  ultimately show ?thesis
    using s d assms(5,6) by (simp add: stage_def store_ok_def bucket_at_def good_key_simps(9) [OF assms(2)])
qed

lemma stage_set:
  assumes "stage E st b m k w" "good_key b k" "x \<noteq> ''.bucket.json''" "x \<notin> later_names (e_uuid E) (w_draws w)"
  shows "stage E st b m k (w\<lparr>w_root := set_node (kdir st b k @ [x]) v (w_root w)\<rparr>)"
proof -
  have d: "is_dir_at (kdir st b k) (w_root w)" using assms(1) by (simp add: stage_def)
  have "within (kdir st b k) {x} (w_root w) (set_node (kdir st b k @ [x]) v (w_root w))"
    using d by (auto intro!: within_set within_refl)
  moreover have "fresh_names (e_uuid E) (kdir st b k) (w\<lparr>w_root := set_node (kdir st b k @ [x]) v (w_root w)\<rparr>)"
    using assms(1,4) d by (auto simp: stage_def fresh_names_def later_names_def)
  ultimately show ?thesis
    using assms(1-3) by (intro stage_within [OF assms(1,2), of "{x}"]) (auto simp: stage_def)
qed

lemma stage_reads:
  assumes "stage E st b m k w" "good_key b k" "json_law (e_bucket E)"
  shows "read_bucket_meta E st b w = (Inr m, w)" "versioned_or_false E st b w = (Inr (bm_versioning m), w)"
  using assms read_bucket_meta_ok [of E st w b m] versioned_or_false_ok [of E st w b m] good_key_simps(1) [OF assms(2)]
  by (auto simp: stage_def)

lemma default_lock_calm:
  assumes "stage E st b m k w" "good_key b k" "json_law (e_bucket E)"
  obtains lock n where "resolve_default_object_lock E st b w = (Inr lock, w\<lparr>w_draws := n\<rparr>)" "w_draws w \<le> n"
proof -
  note r = stage_reads(1) [OF assms]
  have "resolve_default_object_lock E st b w = (Inr None, w)
      \<or> (\<exists>l. resolve_default_object_lock E st b w = (Inr (Some l), w\<lparr>w_draws := Suc (w_draws w)\<rparr>))"
    unfolding resolve_default_object_lock_def bind_act_def [of "read_bucket_meta E st b"] r
    by (auto simp: ok_def bind_act_def draw_def split: option.split)
  then show thesis using that [of None "w_draws w"] that [of "Some _" "Suc (w_draws w)"] by auto
qed

text \<open>
  The end of an upload: with the payload under a temporary name, the metadata is staged and both
  are published.
\<close>

lemma publish_upload_calm:
  assumes "stage E st b m k w" "good_key b k"
    and "view (kdir st b k) (w_root w) tp = Some p" "has_kind isd (Some p)" "tp = tmp_name (e_uuid E j)" "j < w_draws w"
    and "fp = (if isd then base_name k @ ''.ec'' else base_name k)"
    and "has_kind False (view (kdir st b k) (w_root w) (base_name k @ ''.meta.json''))"
  shows "\<exists>w' c. publish_upload E st b k meta (kdir st b k @ [tp]) (kdir st b k @ [fp]) isd w = (Inr (), w')
    \<and> stage E st b m k w' \<and> c \<in> later_names (e_uuid E) (w_draws w)
    \<and> within (kdir st b k) ({fp, base_name k @ ''.meta.json'', tp} \<union> later_names (e_uuid E) (w_draws w)) (w_root w) (w_root w')
    \<and> (\<forall>z. view (kdir st b k) (w_root w') z =
      (if z = fp then Some p else if z = base_name k @ ''.meta.json'' then Some (File (fst (e_object E) meta))
       else if z = tp then None
       else if z = c \<and> \<not> has_kind isd (view (kdir st b k) (w_root w) fp) then view (kdir st b k) (w_root w) fp
       else view (kdir st b k) (w_root w) z))"
proof -
  let ?d = "kdir st b k" and ?t = "w_root w" and ?n = "w_draws w" and ?fm = "base_name k @ ''.meta.json''"
  note s = assms(1) [unfolded stage_def] and gk = good_key_simps [OF assms(2)]
  have d: "is_dir_at ?d ?t" "plain ?d" using s key_dir_plain [OF assms(2)] by (auto simp: store_ok_def)
  have inj: "inj (e_uuid E)" using s by (simp add: fresh_names_def)
  define tm where "tm = tmp_name (e_uuid E ?n)"
  define w1 where "w1 = w\<lparr>w_draws := Suc ?n\<rparr>"
  define w2 where "w2 = w1\<lparr>w_root := set_node (?d @ [tm]) (Some (File (fst (e_object E) meta))) ?t\<rparr>"
  have s1: "stage E st b m k w1" using stage_draws [OF assms(1)] by (simp add: w1_def)
  have tmn: "tm \<noteq> ''.bucket.json''" "tm \<notin> later_names (e_uuid E) (Suc ?n)" "tm \<noteq> tp" "tm \<noteq> fp" "tm \<noteq> ?fm" "tm \<noteq> ''..''"
    subgoal by (simp add: tm_def)
    subgoal using inj by (simp add: tm_def)
    subgoal using inj assms(5,6) by (auto simp: tm_def tmp_name_inj dest: injD)
    subgoal using names_differ(1) [OF assms(2)] ec_not_tmp [OF assms(2)] assms(7) unfolding tm_def by metis
    subgoal using meta_not_tmp [OF assms(2)] unfolding tm_def by metis
    subgoal using tmp_name_plain by (simp add: tm_def)
    done
  have fpn: "fp \<noteq> tmp_name u" "fp \<noteq> ?fm" "fp \<noteq> ''..''" "fp \<noteq> ''.bucket.json''" for u
    using names_differ [OF assms(2)] gk assms(7) ec_not_tmp [OF assms(2)] by (auto dest: arg_cong [of _ _ last])
  have s2: "stage E st b m k w2" using stage_set [OF s1 assms(2) tmn(1)] tmn(2) by (simp add: w2_def w1_def)
  have vm: "view ?d ?t tm = None" using s by (simp add: fresh_names_def tm_def)
  have "\<not> is_dir_at (?d @ [tm]) ?t" using vm by (simp add: is_dir_at_def)
  then have wr: "write_json (e_object E) (?d @ [tm]) meta w1 = (Inr (), w2)"
    using write_json_ok [of "?d @ [tm]" w1 "e_object E" meta] s d tmn(6) by (simp add: w1_def w2_def)
  have staged: "staged ?d fp ?fm tp tm isd p (fst (e_object E) meta) (w_root w2)"
    using d assms(3-5) tmn fpn meta_not_tmp [OF assms(2)]
    by (auto simp: staged_def w2_def w1_def)
  have disj: "{fp, ?fm, tp, tm} \<inter> later_names (e_uuid E) (w_draws w2) = {}"
    using fpn(1) meta_not_tmp [OF assms(2)] tmn(2) assms(5,6) inj by (auto simp: later_names_def w2_def w1_def tmp_name_inj dest: injD)
  have v2: "view ?d (w_root w2) z = (if z = tm then Some (File (fst (e_object E) meta)) else view ?d ?t z)" for z
    using d by (simp add: w2_def)
  have f2: "w_faults w2 = []" "fresh_names (e_uuid E) ?d w2" using s2 by (simp_all add: stage_def)
  have k2: "has_kind False (view ?d (w_root w2) ?fm)" using assms(8) v2 tmn(5) by auto
  obtain w3 c where
    run: "publish_temp_payload_and_meta (e_uuid E) (?d @ [tp]) (?d @ [fp]) isd (?d @ [tm]) (?d @ [?fm]) w2 = (Inr (), w3)"
    and w3: "w_faults w3 = []" "w_draws w2 \<le> w_draws w3"
      "c \<in> later_names (e_uuid E) (w_draws w2)"
      "within ?d ({fp, ?fm, tp, tm} \<union> later_names (e_uuid E) (w_draws w2)) (w_root w2) (w_root w3)"
    and v3: "\<And>z. view ?d (w_root w3) z = (if z = fp then Some p else if z = ?fm then Some (File (fst (e_object E) meta))
       else if z = tp \<or> z = tm then None
       else if z = c \<and> \<not> has_kind isd (view ?d (w_root w2) fp) then view ?d (w_root w2) fp else view ?d (w_root w2) z)"
    and fr3: "fresh_names (e_uuid E) ?d w3"
    using publish_calm [OF f2(1) staged f2(2) disj k2] by blast
  have "''.bucket.json'' \<notin> {fp, ?fm, tp, tm} \<union> later_names (e_uuid E) (w_draws w2)"
    using fpn names_differ [OF assms(2)] tmn assms(5) by (auto simp: later_names_def)
  from stage_within [OF s2 assms(2) w3(4) this w3(1) fr3] have s3: "stage E st b m k w3" .
  have cp: "create_parent (?d @ [?fm]) w = (Inr (), w)" using create_parent_calm d s by simp
  have out: "publish_upload E st b k meta (?d @ [tp]) (?d @ [fp]) isd w = (Inr (), w3)"
    using cp wr run
    by (simp add: publish_upload_def gk Let_def bind_act_def temp_sibling_path_def draw_def with_guard_def tm_def w1_def)
  have "within ?d ({fp, ?fm, tp} \<union> later_names (e_uuid E) ?n) ?t (w_root w2)"
    using d inj by (auto simp: w2_def w1_def tm_def intro!: within_set within_refl)
  moreover have "within ?d ({fp, ?fm, tp} \<union> later_names (e_uuid E) ?n) (w_root w2) (w_root w3)"
    using later_names_mono [of ?n "Suc ?n" "e_uuid E"] inj
    by (intro within_mono [OF w3(4)]) (auto simp: w2_def w1_def tm_def)
  ultimately have win: "within ?d ({fp, ?fm, tp} \<union> later_names (e_uuid E) ?n) ?t (w_root w3)"
    using within_trans by blast
  have "view ?d (w_root w3) z = (if z = fp then Some p else if z = ?fm then Some (File (fst (e_object E) meta))
       else if z = tp then None
       else if z = c \<and> \<not> has_kind isd (view ?d ?t fp) then view ?d ?t fp else view ?d ?t z)" for z
    using v3 [of z] v2 tmn vm w3(3) by (auto simp: w2_def w1_def)
  moreover have "c \<in> later_names (e_uuid E) ?n" using w3(3) later_names_mono [of ?n "Suc ?n"] by (auto simp: w2_def w1_def)
  ultimately show ?thesis using s3 out win by blast
qed

section \<open>Flat uploads\<close>

definition checksum_ok :: "env \<Rightarrow> (ChecksumAlgorithm \<times> string option) option \<Rightarrow> bytes \<Rightarrow> bool" where
  "checksum_ok E checksum body \<longleftrightarrow>
     (case checksum of Some (algo, Some v) \<Rightarrow> e_checksum E algo body = v | _ \<Rightarrow> True)"

lemma check_checksum_calm:
  "checksum_ok E checksum body \<Longrightarrow>
     check_checksum E tmp isd checksum body = ok (map_option fst checksum, map_option (\<lambda>c. e_checksum E (fst c) body) checksum)"
  by (auto simp: check_checksum_def checksum_ok_def Let_def split: option.splits prod.splits)

text \<open>The metadata that an upload writes.\<close>

definition flat_meta ::
  "env \<Rightarrow> string \<Rightarrow> string \<Rightarrow> bytes \<Rightarrow> string \<Rightarrow> string option \<Rightarrow> (ChecksumAlgorithm \<times> string option) option
     \<Rightarrow> (EncryptionMeta \<times> bytes \<times> cipher) option \<Rightarrow> ObjectLockRetention option \<Rightarrow> ObjectMeta" where
  "flat_meta E k content_type body now vid checksum c lock =
     seal_opt E c (apply_object_lock
       (upload_meta k (length body) (etag_of E body) content_type now vid None (map_option fst checksum)
          (map_option (\<lambda>c. e_checksum E (fst c) body) checksum) (map_option fst c)) lock)"

lemma finish_flat_calm:
  assumes "stage E st b m k w" "good_key b k" "json_law (e_bucket E)" "checksum_ok E checksum body"
    and "view (kdir st b k) (w_root w) tp = Some (File x)" "tp = tmp_name (e_uuid E j)" "j < w_draws w"
    and "has_kind False (view (kdir st b k) (w_root w) (base_name k @ ''.meta.json''))"
    and "fw_size fw = length body" "fw_hashed fw = body"
  shows "\<exists>w' now lock c'. finish_flat E st b k content_type vid c checksum (kdir st b k @ [tp]) fw w =
        (Inr (flat_meta E k content_type body now vid checksum c lock), w')
    \<and> stage E st b m k w' \<and> c' \<in> later_names (e_uuid E) (w_draws w)
    \<and> within (kdir st b k) ({base_name k, base_name k @ ''.meta.json'', tp} \<union> later_names (e_uuid E) (w_draws w)) (w_root w) (w_root w')
    \<and> (\<forall>z. view (kdir st b k) (w_root w') z =
      (if z = base_name k then Some (File (fw_out fw))
       else if z = base_name k @ ''.meta.json''
       then Some (File (fst (e_object E) (flat_meta E k content_type body now vid checksum c lock)))
       else if z = tp then None
       else if z = c' \<and> \<not> has_kind False (view (kdir st b k) (w_root w) (base_name k))
       then view (kdir st b k) (w_root w) (base_name k)
       else view (kdir st b k) (w_root w) z))"
proof -
  let ?d = "kdir st b k" and ?t = "w_root w" and ?fm = "base_name k @ ''.meta.json''"
  note s = assms(1) [unfolded stage_def] and gk = good_key_simps [OF assms(2)]
  have d: "is_dir_at ?d ?t" "plain ?d" using s key_dir_plain [OF assms(2)] by (auto simp: store_ok_def)
  have inj: "inj (e_uuid E)" using s by (simp add: fresh_names_def)
  define w1 where "w1 = w\<lparr>w_root := set_node (?d @ [tp]) (Some (File (fw_out fw))) ?t\<rparr>"
  have tpn: "tp \<notin> later_names (e_uuid E) (w_draws w)" "tp \<noteq> ''.bucket.json''" "tp \<noteq> ''..''"
    using inj assms(6,7) by auto
  have tpf: "tp \<noteq> base_name k" "tp \<noteq> ?fm"
    using names_differ(1) [OF assms(2)] meta_not_tmp [OF assms(2)] assms(6) by metis+
  have "\<not> is_dir_at (?d @ [tp]) ?t" using assms(5) by (simp add: is_dir_at_def)
  then have wr: "io (fs_write (?d @ [tp]) (fw_out fw)) w = (Inr (), w1)"
    using s d tpn(3) by (simp add: io_def map_err_act_def fs_write_def change_quiet write_at_ok w1_def)
  have s1: "stage E st b m k w1" unfolding w1_def by (rule stage_set [OF assms(1,2) tpn(2,1)])
  define w2 where "w2 = w1\<lparr>w_draws := Suc (w_draws w)\<rparr>"
  have s2: "stage E st b m k w2" unfolding w2_def using stage_draws [OF s1, of "Suc (w_draws w)"] by (simp add: w1_def)
  obtain lock n where lk: "resolve_default_object_lock E st b w2 = (Inr lock, w2\<lparr>w_draws := n\<rparr>)" "w_draws w2 \<le> n"
    using default_lock_calm [OF s2 assms(2,3)] by blast
  let ?w3 = "w2\<lparr>w_draws := n\<rparr>" and ?now = "e_fmt E (e_micros E (w_draws w))"
  let ?meta = "flat_meta E k content_type body ?now vid checksum c lock"
  have s3: "stage E st b m k ?w3" by (rule stage_draws [OF s2 lk(2)])
  have v1: "view ?d (w_root ?w3) z = (if z = tp then Some (File (fw_out fw)) else view ?d ?t z)" for z
    using d by (simp add: w2_def w1_def)
  have "\<exists>w' c'. publish_upload E st b k ?meta (?d @ [tp]) (?d @ [base_name k]) False ?w3 = (Inr (), w')
    \<and> stage E st b m k w' \<and> c' \<in> later_names (e_uuid E) (w_draws ?w3)
    \<and> within ?d ({base_name k, ?fm, tp} \<union> later_names (e_uuid E) (w_draws ?w3)) (w_root ?w3) (w_root w')
    \<and> (\<forall>z. view ?d (w_root w') z =
      (if z = base_name k then Some (File (fw_out fw)) else if z = ?fm then Some (File (fst (e_object E) ?meta))
       else if z = tp then None
       else if z = c' \<and> \<not> has_kind False (view ?d (w_root ?w3) (base_name k)) then view ?d (w_root ?w3) (base_name k)
       else view ?d (w_root ?w3) z))"
    using assms(7,8) lk(2) tpf
    by (intro publish_upload_calm [OF s3 assms(2) _ _ assms(6)]) (auto simp: v1 w2_def w1_def d has_kind_def)
  then obtain w' c' where pu: "publish_upload E st b k ?meta (?d @ [tp]) (?d @ [base_name k]) False ?w3 = (Inr (), w')"
    and w': "stage E st b m k w'" "c' \<in> later_names (e_uuid E) (w_draws ?w3)"
      "within ?d ({base_name k, ?fm, tp} \<union> later_names (e_uuid E) (w_draws ?w3)) (w_root ?w3) (w_root w')"
    and v': "\<forall>z. view ?d (w_root w') z =
      (if z = base_name k then Some (File (fw_out fw)) else if z = ?fm then Some (File (fst (e_object E) ?meta))
       else if z = tp then None
       else if z = c' \<and> \<not> has_kind False (view ?d (w_root ?w3) (base_name k)) then view ?d (w_root ?w3) (base_name k)
       else view ?d (w_root ?w3) z)" by blast
  have now: "now_string E w1 = (Inr ?now, w2)"
    by (simp add: now_string_def bind_act_def draw_def ok_def w2_def w1_def)
  have meta: "seal_opt E c (apply_object_lock (upload_meta k (fw_size fw) (etag_of E (fw_hashed fw)) content_type ?now vid None
      (map_option fst checksum) (map_option (\<lambda>c. e_checksum E (fst c) body) checksum) (map_option fst c)) lock) = ?meta"
    unfolding flat_meta_def assms(9,10) ..
  have run: "finish_flat E st b k content_type vid c checksum (?d @ [tp]) fw w = (Inr ?meta, w')"
    unfolding finish_flat_def gk(5)
    by (simp only: bind_act_def wr assms(10) check_checksum_calm [OF assms(4)] ok_def now lk(1) prod.case sum.case Let_def
        meta [unfolded assms(10)] pu)
  have sub: "later_names (e_uuid E) (w_draws ?w3) \<subseteq> later_names (e_uuid E) (w_draws w)"
    using lk(2) by (intro later_names_mono) (simp add: w2_def w1_def)
  have "within ?d ({base_name k, ?fm, tp} \<union> later_names (e_uuid E) (w_draws w)) ?t (w_root ?w3)"
    using d by (auto simp: w2_def w1_def intro!: within_set within_refl)
  moreover have "within ?d ({base_name k, ?fm, tp} \<union> later_names (e_uuid E) (w_draws w)) (w_root ?w3) (w_root w')"
    using sub by (intro within_mono [OF w'(3)]) blast
  ultimately have win: "within ?d ({base_name k, ?fm, tp} \<union> later_names (e_uuid E) (w_draws w)) ?t (w_root w')"
    by (rule within_trans)
  have views: "\<forall>z. view ?d (w_root w') z =
      (if z = base_name k then Some (File (fw_out fw)) else if z = ?fm then Some (File (fst (e_object E) ?meta))
       else if z = tp then None
       else if z = c' \<and> \<not> has_kind False (view ?d ?t (base_name k)) then view ?d ?t (base_name k)
       else view ?d ?t z)"
    using v' v1 tpf by auto
  from run w'(1,2) sub win views show ?thesis by blast
qed

text \<open>What an upload to a key needs to begin.\<close>

definition upload_ready :: "env \<Rightarrow> FilesystemStorage \<Rightarrow> string \<Rightarrow> BucketMeta \<Rightarrow> string \<Rightarrow> world \<Rightarrow> bool" where
  "upload_ready E st b m k w \<longleftrightarrow>
     json_law (e_bucket E) \<and> json_law (e_object E) \<and> json_law (e_manifest E) \<and> good_key b k
     \<and> w_faults w = [] \<and> store_ok st (w_root w) \<and> bucket_at E st (w_root w) b m
     \<and> no_file_on (kdir st b k) (w_root w) \<and> fresh_names (e_uuid E) (kdir st b k) w"

definition kept_outside :: "path \<Rightarrow> string set \<Rightarrow> node \<Rightarrow> node \<Rightarrow> bool" where
  "kept_outside d xs t t' \<longleftrightarrow> (\<forall>q. \<not> prefix q d \<and> (\<forall>x\<in>xs. apart (d @ [x]) q) \<longrightarrow> lookup q t' = lookup q t)"

lemma kept_outside_within: "kept_outside d xs t u \<Longrightarrow> within d xs u v \<Longrightarrow> kept_outside d xs t v"
  by (simp add: kept_outside_def within_def)

lemma ready_draws: "upload_ready E st b m k w \<Longrightarrow> w_draws w \<le> n \<Longrightarrow> upload_ready E st b m k (w\<lparr>w_draws := n\<rparr>)"
  by (auto simp: upload_ready_def fresh_names_def)

lemma prepare_dir:
  assumes "upload_ready E st b m k w"
  shows "\<exists>t'. create_parent (kdir st b k @ [x]) w = (Inr (), w\<lparr>w_root := t'\<rparr>) \<and> stage E st b m k (w\<lparr>w_root := t'\<rparr>)
    \<and> (\<forall>z. view (kdir st b k) t' z = view (kdir st b k) (w_root w) z) \<and> kept_outside (kdir st b k) xs (w_root w) t'"
proof -
  let ?d = "kdir st b k"
  note r = assms [unfolded upload_ready_def]
  have pl: "plain ?d" using r key_dir_plain by (auto simp: store_ok_def)
  obtain t' where t': "mkdirs ?d (w_root w) = Inr t'" using r mkdirs_ok by blast
  have "create_parent (?d @ [x]) w = (Inr (), w\<lparr>w_root := t'\<rparr>)"
    using r pl t' by (simp add: create_parent_def io_def map_err_act_def fs_create_dir_all_def change_quiet realpath_def)
  moreover have v: "\<forall>z. view ?d t' z = view ?d (w_root w) z" by (auto intro!: mkdirs_keeps [OF t'])
  moreover have "stage E st b m k (w\<lparr>w_root := t'\<rparr>)"
    using r mkdirs_Inr [OF t'] mkdirs_keeps_dirs [OF t'] mkdirs_keeps_files [OF t'] v
    by (auto simp: stage_def store_ok_def bucket_at_def fresh_names_def)
  moreover have "kept_outside ?d xs (w_root w) t'" using mkdirs_keeps [OF t'] by (simp add: kept_outside_def)
  ultimately show ?thesis by blast
qed

lemma ready_versioned:
  "upload_ready E st b m k w \<Longrightarrow> versioned_or_false E st b w = (Inr (bm_versioning m), w)"
  by (auto simp: upload_ready_def good_key_def intro!: versioned_or_false_ok)

context stream_reader
begin

lemma put_payload_new:
  assumes "inv s" "0 < cap" "payload_spec enc cph fw_new (rest s) = Inr ct"
  shows "\<exists>fw s'. put_payload rd cap enc cph s fw_new = Some (Inr fw, s')
    \<and> fw_out fw = ct \<and> fw_size fw = length (rest s) \<and> fw_hashed fw = rest s"
proof -
  obtain r s' where r: "put_payload rd cap enc cph s fw_new = Some (r, s')"
    "case r of Inl e \<Rightarrow> payload_spec enc cph fw_new (rest s) = Inl e
     | Inr w' \<Rightarrow> payload_spec enc cph fw_new (rest s) = Inr (fw_out w')
         \<and> fw_size w' = fw_size fw_new + length (rest s) \<and> fw_hashed w' = fw_hashed fw_new @ rest s"
    using put_payload_all [OF assms(1,2), of fw_new enc cph] by (auto simp: fw_new_def)
  with assms(3) show ?thesis by (cases r) (auto simp: fw_new_def)
qed

lemma put_flat_calm:
  assumes "upload_ready E st b m k w" "\<not> bm_versioning m" "inv s" "checksum_ok E checksum (rest s)"
    and "has_kind False (view (kdir st b k) (w_root w) (base_name k @ ''.meta.json''))"
    and "new_cipher_opt E st b k None encryption w = (Inr c, w\<lparr>w_draws := n\<rparr>)" "w_draws w \<le> n"
    and "payload_spec (e_enc E) (map_option (snd \<circ> snd) c) fw_new (rest s) = Inr ct"
  shows "\<exists>w' now lock c'. put_object_flat E st rd b k content_type s checksum encryption w =
        Some (Inr (put_result (flat_meta E k content_type (rest s) now None checksum c lock)), w')
    \<and> stage E st b m k w' \<and> c' \<in> later_names (e_uuid E) (w_draws w)
    \<and> kept_outside (kdir st b k) ({base_name k, base_name k @ ''.meta.json''} \<union> later_names (e_uuid E) (w_draws w)) (w_root w) (w_root w')
    \<and> (\<forall>z. view (kdir st b k) (w_root w') z =
      (if z = base_name k then Some (File ct)
       else if z = base_name k @ ''.meta.json''
       then Some (File (fst (e_object E) (flat_meta E k content_type (rest s) now None checksum c lock)))
       else if z = c' \<and> \<not> has_kind False (view (kdir st b k) (w_root w) (base_name k))
       then view (kdir st b k) (w_root w) (base_name k)
       else view (kdir st b k) (w_root w) z))"
proof -
  let ?d = "kdir st b k" and ?t = "w_root w" and ?fm = "base_name k @ ''.meta.json''"
  let ?S = "{base_name k, ?fm} \<union> later_names (e_uuid E) (w_draws w)"
  note r = assms(1) [unfolded upload_ready_def]
  have gk': "good_key b k" using r by simp
  note gk = good_key_simps [OF gk']
  have inj: "inj (e_uuid E)" using r by (simp add: fresh_names_def)
  define tp where "tp = tmp_name (e_uuid E n)"
  have nv: "new_version E st b w = (Inr None, w)"
    using ready_versioned [OF assms(1)] assms(2) by (simp add: new_version_def act_defs)
  obtain t1 where cp: "create_parent (?d @ [base_name k]) (w\<lparr>w_draws := n\<rparr>) = (Inr (), w\<lparr>w_draws := n, w_root := t1\<rparr>)"
    and s1: "stage E st b m k (w\<lparr>w_draws := n, w_root := t1\<rparr>)" and v1: "\<And>z. view ?d t1 z = view ?d ?t z"
    and k1: "kept_outside ?d ?S ?t t1"
    using prepare_dir [OF ready_draws [OF assms(1,7)], of "base_name k" ?S] by auto
  define w2 where "w2 = w\<lparr>w_root := t1, w_draws := Suc n\<rparr>"
  define w3 where "w3 = w2\<lparr>w_root := set_node (?d @ [tp]) (Some (File [])) t1\<rparr>"
  have s2: "stage E st b m k w2" using stage_draws [OF s1, of "Suc n"] by (simp add: w2_def)
  have d: "is_dir_at ?d t1" "plain ?d" using s2 key_dir_plain [OF gk'] by (auto simp: stage_def store_ok_def w2_def)
  have tpn: "tp \<notin> later_names (e_uuid E) (w_draws w2)" "tp \<noteq> ''.bucket.json''" "tp \<noteq> ''..''"
    using inj by (auto simp: tp_def w2_def)
  have tpf: "tp \<noteq> base_name k" "tp \<noteq> ?fm"
    using names_differ(1) [OF gk'] meta_not_tmp [OF gk'] unfolding tp_def by metis+
  have tpv: "view ?d ?t tp = None" using r assms(7) by (simp add: tp_def fresh_names_def)
  have "\<not> is_dir_at (?d @ [tp]) t1" using tpv v1 by (simp add: is_dir_at_def)
  then have wr: "io (fs_write (?d @ [tp]) []) w2 = (Inr (), w3)"
    using r d tpn(3) by (simp add: io_def map_err_act_def fs_write_def change_quiet write_at_ok w2_def w3_def)
  have s3: "stage E st b m k w3" unfolding w3_def using stage_set [OF s2 gk' tpn(2,1)] by (simp add: w2_def)
  have v3: "view ?d (w_root w3) z = (if z = tp then Some (File []) else view ?d ?t z)" for z
    using d v1 by (simp add: w3_def)
  obtain fw s' where pp: "put_payload rd IO_BUFFER_SIZE (e_enc E) (map_option (snd \<circ> snd) c) s fw_new = Some (Inr fw, s')"
    and fw: "fw_out fw = ct" "fw_size fw = length (rest s)" "fw_hashed fw = rest s"
    using put_payload_new [OF assms(3) _ assms(8), of IO_BUFFER_SIZE] by (auto simp: IO_BUFFER_SIZE_def)
  have "has_kind False (view ?d (w_root w3) ?fm)" using assms(5) v3 tpf by auto
  moreover have "n < w_draws w3" by (simp add: w3_def w2_def)
  moreover have "view ?d (w_root w3) tp = Some (File [])" using v3 by simp
  ultimately obtain w' now lock c' where
    run: "finish_flat E st b k content_type None c checksum (?d @ [tp]) fw w3 =
        (Inr (flat_meta E k content_type (rest s) now None checksum c lock), w')"
    and w': "stage E st b m k w'" "c' \<in> later_names (e_uuid E) (w_draws w3)"
      "within ?d ({base_name k, ?fm, tp} \<union> later_names (e_uuid E) (w_draws w3)) (w_root w3) (w_root w')"
    and v': "\<forall>z. view ?d (w_root w') z =
      (if z = base_name k then Some (File (fw_out fw))
       else if z = ?fm then Some (File (fst (e_object E) (flat_meta E k content_type (rest s) now None checksum c lock)))
       else if z = tp then None
       else if z = c' \<and> \<not> has_kind False (view ?d (w_root w3) (base_name k)) then view ?d (w_root w3) (base_name k)
       else view ?d (w_root w3) z)"
    using finish_flat_calm [OF s3 gk' _ assms(4) _ tp_def _ _ fw(2,3)] r by blast
  let ?meta = "flat_meta E k content_type (rest s) now None checksum c lock"
  have "guard_p (?d @ [tp]) False
        (bind_p (total (io (fs_write (?d @ [tp]) []))) (\<lambda>_.
         bind_p (lift_opt (map_option fst (put_payload rd IO_BUFFER_SIZE (e_enc E) (map_option (snd \<circ> snd) c) s fw_new))) (\<lambda>fw.
           total (finish_flat E st b k content_type None c checksum (?d @ [tp]) fw)))) w2 = Some (Inr ?meta, w')"
    by (simp add: guard_p_def bind_p_def total_def wr lift_opt_def pp run)
  then have out: "put_object_flat E st rd b k content_type s checksum encryption w = Some (Inr (put_result ?meta), w')"
    using nv assms(6) cp
    by (simp add: put_object_flat_def bind_p_def total_def gk Let_def temp_sibling_path_def draw_def tp_def w2_def ok_def)
  have sub: "later_names (e_uuid E) (w_draws w3) \<subseteq> later_names (e_uuid E) (w_draws w)" "tp \<in> later_names (e_uuid E) (w_draws w)"
    using assms(7) inj later_names_mono [of "w_draws w" "Suc n"] by (auto simp: w3_def w2_def tp_def)
  have "within ?d ?S t1 (w_root w3)" using d sub(2) by (auto simp: w3_def intro!: within_set within_refl)
  moreover have "within ?d ?S (w_root w3) (w_root w')" using sub by (intro within_mono [OF w'(3)]) blast
  ultimately have "within ?d ?S t1 (w_root w')" by (rule within_trans)
  from kept_outside_within [OF k1 this] have "kept_outside ?d ?S ?t (w_root w')" .
  moreover have "\<forall>z. view ?d (w_root w') z =
      (if z = base_name k then Some (File ct) else if z = ?fm then Some (File (fst (e_object E) ?meta))
       else if z = c' \<and> \<not> has_kind False (view ?d ?t (base_name k)) then view ?d ?t (base_name k) else view ?d ?t z)"
    using v' v3 tpf tpv fw(1) w'(2) tpn(1) by (auto simp: w3_def)
  ultimately show ?thesis using out w'(1,2) sub(1) by blast
qed

end

section \<open>The whole request\<close>

text \<open>No object at the key, or one that is not protected when the clock is read.\<close>

definition overwritable :: "env \<Rightarrow> FilesystemStorage \<Rightarrow> string \<Rightarrow> string \<Rightarrow> world \<Rightarrow> bool" where
  "overwritable E st b k w \<longleftrightarrow>
     (view (kdir st b k) (w_root w) (base_name k @ ''.meta.json'') = None
      \<or> (\<exists>om. view (kdir st b k) (w_root w) (base_name k @ ''.meta.json'') = Some (File (fst (e_object E) om))
              \<and> \<not> is_object_protected (e_rfc3339 E) (e_micros E (w_draws w)) om))"

text \<open>The record of an object, as \<open>read_object_meta\<close> finds it.\<close>

lemma read_object_meta_calm:
  assumes "json_law (e_object E)" "good_key b k" "store_ok st (w_root w)" "w_faults w = []"
    and "view (kdir st b k) (w_root w) (base_name k @ ''.meta.json'') = Some (File (fst (e_object E) om))"
  shows "read_object_meta E st b k w = (Inr om, w)"
  using read_json_ok [OF assms(1) _ assms(4,5)] key_dir_plain [OF assms(2), of st] assms(3) good_key_simps [OF assms(2)]
  by (simp add: read_object_meta_def store_ok_def)

lemma protected_now_calm:
  "protected_now E om w = (Inr (is_object_protected (e_rfc3339 E) (e_micros E (w_draws w)) om), w\<lparr>w_draws := Suc (w_draws w)\<rparr>)"
  by (simp add: protected_now_def bind_act_def draw_def ok_def)

lemma overwrite_calm:
  assumes "upload_ready E st b m k w"
  shows "ensure_can_overwrite E st b k w =
    (case view (kdir st b k) (w_root w) (base_name k @ ''.meta.json'') of
       None \<Rightarrow> (Inr (), w)
     | Some _ \<Rightarrow> bind_act (read_object_meta E st b k) (\<lambda>meta.
                 bind_act (protected_now E meta) (\<lambda>p. if p then fail (ObjectLocked locked_msg) else ok ())) w)"
proof -
  note r = assms [unfolded upload_ready_def]
  have gk: "good_key b k" using r by simp
  have "plain (kdir st b k @ [base_name k @ ''.meta.json''])" using r key_dir_plain [OF gk] by (auto simp: store_ok_def)
  then have "fs_try_exists (kdir st b k @ [base_name k @ ''.meta.json'']) w =
      (Inr (view (kdir st b k) (w_root w) (base_name k @ ''.meta.json'') \<noteq> None), w)"
    using r exists_free by blast
  then show ?thesis
    by (auto simp: ensure_can_overwrite_def good_key_simps(6) [OF gk] bind_act_def [of "attempt _"] attempt_def ok_def
        split: option.split)
qed

lemma overwritable_calm:
  assumes "upload_ready E st b m k w" "overwritable E st b k w"
  obtains n where "ensure_can_overwrite E st b k w = (Inr (), w\<lparr>w_draws := n\<rparr>)" "w_draws w \<le> n"
proof (cases "view (kdir st b k) (w_root w) (base_name k @ ''.meta.json'')")
  case None
  then show thesis using that [of "w_draws w"] overwrite_calm [OF assms(1)] by simp
next
  case (Some nd)
  with assms(2) obtain om where om: "nd = File (fst (e_object E) om)" "\<not> is_object_protected (e_rfc3339 E) (e_micros E (w_draws w)) om"
    by (auto simp: overwritable_def)
  note r = assms(1) [unfolded upload_ready_def]
  have "read_object_meta E st b k w = (Inr om, w)" using read_object_meta_calm Some om(1) r by blast
  then have "ensure_can_overwrite E st b k w = (Inr (), w\<lparr>w_draws := Suc (w_draws w)\<rparr>)"
    using overwrite_calm [OF assms(1)] Some om(2) by (simp add: bind_act_def protected_now_calm ok_def)
  then show thesis using that by simp
qed

lemma has_kind_overwritable:
  "overwritable E st b k w \<Longrightarrow> has_kind False (view (kdir st b k) (w_root w) (base_name k @ ''.meta.json''))"
  by (auto simp: overwritable_def has_kind_def)

definition flat_bucket :: "FilesystemStorage \<Rightarrow> BucketMeta \<Rightarrow> bool" where
  "flat_bucket st m \<longleftrightarrow> \<not> bm_versioning m \<and> (st_erasure_coding st \<longrightarrow> bm_erasure_coding m = Some False)"

text \<open>Keys, randomness and sizes under which an encryption request succeeds.\<close>

definition can_encrypt :: "env \<Rightarrow> FilesystemStorage \<Rightarrow> EncryptionRequest option \<Rightarrow> nat \<Rightarrow> bool" where
  "can_encrypt E st encryption sz \<longleftrightarrow>
     (\<forall>req. encryption = Some req \<longrightarrow>
        aead_roundtrip (e_enc E) (e_dec E) \<and> b64_law (e_b64 E) \<and> (\<forall>n. rnd_wf (e_rnd E n))
        \<and> keys_for (st_keys st) (st_keys st) req \<and> (\<forall>dek m. e_hmac E dek m \<noteq> []) \<and> sz \<le> 2 ^ 32 * FRAME_CHUNK_SIZE)"

text \<open>The cipher \<open>c\<close> fits the request and turns \<open>body\<close> into \<open>ct\<close>.\<close>

definition sealed_as ::
  "env \<Rightarrow> FilesystemStorage \<Rightarrow> string \<Rightarrow> string \<Rightarrow> string option \<Rightarrow> EncryptionRequest option
     \<Rightarrow> (EncryptionMeta \<times> bytes \<times> cipher) option \<Rightarrow> bytes \<Rightarrow> bytes \<Rightarrow> bool" where
  "sealed_as E st b k vid encryption c body ct \<longleftrightarrow>
     (case encryption of
        None \<Rightarrow> c = None \<and> ct = body
      | Some req \<Rightarrow> (\<exists>em dek pre. c = Some (em, dek, dek, pre, object_aad_builder (e_sha256 E) b k vid)
          \<and> resolve_dek (e_dec E) (e_b64 E) (e_md5 E) (st_keys st) em (er_customer_key req) = Inr dek
          \<and> em_chunk_size em = FRAME_CHUNK_SIZE \<and> length dek = 32
          \<and> encode_frames (e_enc E) dek pre (object_aad_builder (e_sha256 E) b k vid) 0 (chunks_of FRAME_CHUNK_SIZE body) = Inr ct))"

lemma new_cipher_calm:
  assumes "can_encrypt E st encryption (length body)"
  obtains c n ct where "new_cipher_opt E st b k vid encryption w = (Inr c, w\<lparr>w_draws := n\<rparr>)" "w_draws w \<le> n"
    "sealed_as E st b k vid encryption c body ct"
    "payload_spec (e_enc E) (map_option (snd \<circ> snd) c) fw_new body = Inr ct"
proof (cases encryption)
  case None
  have "new_cipher_opt E st b k vid encryption w = (Inr None, w\<lparr>w_draws := w_draws w\<rparr>)"
    using None by (simp add: new_cipher_opt_def ok_def)
  moreover have "sealed_as E st b k vid encryption None body body" using None by (simp add: sealed_as_def)
  ultimately show thesis using that [of None "w_draws w" body] by (simp add: payload_spec_def fw_new_def)
next
  case (Some req)
  let ?rnd = "e_rnd E (w_draws w)" and ?aad = "object_aad_builder (e_sha256 E) b k vid"
  have c: "aead_roundtrip (e_enc E) (e_dec E)" "b64_law (e_b64 E)" "rnd_wf ?rnd" "keys_for (st_keys st) (st_keys st) req"
    "length body \<le> 2 ^ 32 * FRAME_CHUNK_SIZE"
    using assms Some by (auto simp: can_encrypt_def)
  obtain em where em: "prepare_encryption (e_enc E) (e_b64 E) (e_md5 E) ?rnd (st_keys st) req = Inr em"
    "resolve_dek (e_dec E) (e_b64 E) (e_md5 E) (st_keys st) em (er_customer_key req) = Inr (rnd_dek ?rnd)"
    "em_nonce_prefix em = fst (e_b64 E) (rnd_prefix ?rnd)" "em_chunk_size em = FRAME_CHUNK_SIZE"
    using prepared_dek [OF c(1-4)] by blast
  have l: "length (rnd_dek ?rnd) = 32" "length (rnd_prefix ?rnd) = 8" using c(3) by (simp_all add: rnd_wf_def)
  have clen: "length (chunks_of FRAME_CHUNK_SIZE body) \<le> 2 ^ 32"
    using c(5) by (simp add: length_chunks_of FRAME_CHUNK_SIZE_def)
  obtain ct where ct: "encode_frames (e_enc E) (rnd_dek ?rnd) (rnd_prefix ?rnd) ?aad 0 (chunks_of FRAME_CHUNK_SIZE body) = Inr ct"
    using encode_frames_total [OF c(1) l(1), of "chunks_of FRAME_CHUNK_SIZE body" "rnd_prefix ?rnd" 0 ?aad] clen l(2)
      chunks_of_nonempty [OF FRAME_CHUNK_SIZE_pos(1)] by (fastforce simp: FRAME_CHUNK_SIZE_def)
  let ?c = "Some (em, rnd_dek ?rnd, rnd_dek ?rnd, rnd_prefix ?rnd, ?aad)"
  have "new_cipher_opt E st b k vid encryption w = (Inr ?c, w\<lparr>w_draws := Suc (w_draws w)\<rparr>)"
    using Some em c(2)
    by (simp add: new_cipher_opt_def new_cipher_def bind_act_def draw_def lift_res_def as_encryption_error_def ok_def)
  moreover have "sealed_as E st b k vid encryption ?c body ct" using Some em ct l by (simp add: sealed_as_def)
  moreover have "payload_spec (e_enc E) (map_option (snd \<circ> snd) ?c) fw_new body = Inr ct"
    using ct by (simp add: payload_spec_def fw_new_def)
  ultimately show thesis using that [of ?c "Suc (w_draws w)" ct] by simp
qed

text \<open>
  An upload to an unversioned bucket without erasure coding: afterwards the payload and its record
  are the two entries of the key.
\<close>

definition accepted :: "env \<Rightarrow> FilesystemStorage \<Rightarrow> nat option \<Rightarrow> bytes \<Rightarrow> bool" where
  "accepted E st declared body \<longleftrightarrow>
     check_upload_start (st_quota st) (e_disk E 0) declared = Inr () \<and> quota_within (st_quota st) (e_disk E) 0 (length body)"

lemma put_object_calm:
  assumes "upload_ready E st b m k w" "overwritable E st b k w" "flat_bucket st m" "body_inv es"
    and "accepted E st declared (body_bytes es)" "checksum_ok E checksum (body_bytes es)"
    and "can_encrypt E st encryption (length (body_bytes es))"
  shows "\<exists>w' c ct now lock c'. put_object E st body_read b k content_type es checksum encryption declared w =
        Some (Inr (put_result (flat_meta E k content_type (body_bytes es) now None checksum c lock)), w')
    \<and> sealed_as E st b k None encryption c (body_bytes es) ct
    \<and> stage E st b m k w' \<and> c' \<in> later_names (e_uuid E) (w_draws w)
    \<and> kept_outside (kdir st b k) ({base_name k, base_name k @ ''.meta.json''} \<union> later_names (e_uuid E) (w_draws w)) (w_root w) (w_root w')
    \<and> (\<forall>z. view (kdir st b k) (w_root w') z =
      (if z = base_name k then Some (File ct)
       else if z = base_name k @ ''.meta.json''
       then Some (File (fst (e_object E) (flat_meta E k content_type (body_bytes es) now None checksum c lock)))
       else if z = c' \<and> \<not> has_kind False (view (kdir st b k) (w_root w) (base_name k))
       then view (kdir st b k) (w_root w) (base_name k)
       else view (kdir st b k) (w_root w) z))"
proof -
  let ?d = "kdir st b k" and ?body = "body_bytes es" and ?q = "QuotaReader_new es (st_quota st)"
  note r = assms(1) [unfolded upload_ready_def]
  have gk': "good_key b k" using r by simp
  note gk = good_key_simps [OF gk']
  obtain n1 where n1: "ensure_can_overwrite E st b k w = (Inr (), w\<lparr>w_draws := n1\<rparr>)" "w_draws w \<le> n1"
    using overwritable_calm [OF assms(1,2)] by blast
  let ?w1 = "w\<lparr>w_draws := n1\<rparr>"
  have r1: "upload_ready E st b m k ?w1" by (rule ready_draws [OF assms(1) n1(2)])
  have ec: "effective_erasure_coding E st b ?w1 = (Inr False, ?w1)"
    using effective_erasure_coding_ok [of E st ?w1 b m] r1 [unfolded upload_ready_def] gk assms(3)
    by (auto simp: flat_bucket_def)
  obtain c n ct where c: "new_cipher_opt E st b k None encryption ?w1 = (Inr c, w\<lparr>w_draws := n\<rparr>)" "n1 \<le> n"
    and ct: "sealed_as E st b k None encryption c ?body ct" "payload_spec (e_enc E) (map_option (snd \<circ> snd) c) fw_new ?body = Inr ct"
    using new_cipher_calm [OF assms(7), of b k None ?w1] by auto
  have qi: "body_inv (qr_inner ?q) \<and> quota_within (qr_limits ?q) (e_disk E) (qr_written ?q) (qr_written ?q + length (body_bytes (qr_inner ?q)))"
    and qr: "body_bytes (qr_inner ?q) = ?body"
    using assms(4,5) by (simp_all add: QuotaReader_new_def accepted_def)
  have hk: "has_kind False (view ?d (w_root ?w1) (base_name k @ ''.meta.json''))"
    using has_kind_overwritable [OF assms(2)] by simp
  have nv: "\<not> bm_versioning m" using assms(3) by (simp add: flat_bucket_def)
  have c': "new_cipher_opt E st b k None encryption ?w1 = (Inr c, ?w1\<lparr>w_draws := n\<rparr>)" using c by simp
  have "\<exists>w' now lock c'. put_object_flat E st (quota_poll_read body_read (e_disk E)) b k content_type ?q checksum encryption ?w1 =
        Some (Inr (put_result (flat_meta E k content_type ?body now None checksum c lock)), w')
    \<and> stage E st b m k w' \<and> c' \<in> later_names (e_uuid E) (w_draws ?w1)
    \<and> kept_outside ?d ({base_name k, base_name k @ ''.meta.json''} \<union> later_names (e_uuid E) (w_draws ?w1)) (w_root ?w1) (w_root w')
    \<and> (\<forall>z. view ?d (w_root w') z =
      (if z = base_name k then Some (File ct)
       else if z = base_name k @ ''.meta.json'' then Some (File (fst (e_object E) (flat_meta E k content_type ?body now None checksum c lock)))
       else if z = c' \<and> \<not> has_kind False (view ?d (w_root ?w1) (base_name k)) then view ?d (w_root ?w1) (base_name k)
       else view ?d (w_root ?w1) z))"
    using stream_reader.put_flat_calm [OF body.quota_stream r1 nv qi, unfolded qr, OF assms(6) hk c' _ ct(2)] c(2) by simp
  then obtain w' now lock c' where
    out: "put_object_flat E st (quota_poll_read body_read (e_disk E)) b k content_type ?q checksum encryption ?w1 =
        Some (Inr (put_result (flat_meta E k content_type ?body now None checksum c lock)), w')"
    and w': "stage E st b m k w'" "c' \<in> later_names (e_uuid E) n1"
      "kept_outside ?d ({base_name k, base_name k @ ''.meta.json''} \<union> later_names (e_uuid E) n1) (w_root w) (w_root w')"
    and v': "\<forall>z. view ?d (w_root w') z =
      (if z = base_name k then Some (File ct)
       else if z = base_name k @ ''.meta.json'' then Some (File (fst (e_object E) (flat_meta E k content_type ?body now None checksum c lock)))
       else if z = c' \<and> \<not> has_kind False (view ?d (w_root w) (base_name k)) then view ?d (w_root w) (base_name k)
       else view ?d (w_root w) z)" by auto
  have "put_object E st body_read b k content_type es checksum encryption declared w =
        Some (Inr (put_result (flat_meta E k content_type ?body now None checksum c lock)), w')"
    using n1(1) ec out assms(5) gk
    by (simp add: put_object_def bind_p_def total_def bind_act_def lift_res_def accepted_def Let_def)
  moreover have "later_names (e_uuid E) n1 \<subseteq> later_names (e_uuid E) (w_draws w)" using n1(2) by (rule later_names_mono)
  moreover from this w'(3) have "kept_outside ?d ({base_name k, base_name k @ ''.meta.json''} \<union> later_names (e_uuid E) (w_draws w)) (w_root w) (w_root w')"
    unfolding kept_outside_def by blast
  ultimately show ?thesis using ct(1) w'(1,2) v' by blast
qed

end
