(* ===== verification/ObjectProps.thy ===== *)
theory ObjectProps
  imports ObjectLaws
begin

text \<open>
  Reading back what was uploaded, and what protects and destroys stored objects.
\<close>

section \<open>Reading a flat object\<close>

lemma read_to_end_map:
  assumes sim: "\<And>s n. rd' (f s) n = (case rd s n of (r, s') \<Rightarrow> (r, f s'))"
    and "read_to_end rd cap s acc = Some (r, s')"
  shows "read_to_end rd' cap (f s) acc = Some (r, f s')"
proof -
  let ?P = "\<lambda>rd0 cap s acc x. rd0 = rd \<longrightarrow> read_to_end rd' cap (f s) acc = Some (fst x, f (snd x))"
  have "?P rd cap s acc (r, s')"
  proof (rule read_to_end.raw_induct [where P = ?P, OF _ assms(2)], rule impI)
    fix rte rd0 cap s acc x
    assume ih: "\<And>rd0 cap s acc x. rte rd0 cap s acc = Some x \<Longrightarrow> ?P rd0 cap s acc x" and rd0: "rd0 = rd"
      and run: "(case rd0 s cap of (Pending, s') \<Rightarrow> rte rd0 cap s' acc
        | (Ready (Inl e), s') \<Rightarrow> Some (Inl e, s')
        | (Ready (Inr bs), s') \<Rightarrow> if bs = [] then Some (Inr acc, s') else rte rd0 cap s' (acc @ bs)) = Some x"
    show "read_to_end rd' cap (f s) acc = Some (fst x, f (snd x))"
      using ih run unfolding rd0
      by (subst read_to_end.simps) (auto simp: sim split: prod.splits poll.splits sum.splits if_splits)
  qed
  then show ?thesis by simp
qed

text \<open>\<open>r\<close> delivers exactly \<open>data\<close>, for every buffer size.\<close>

definition delivers :: "env \<Rightarrow> object_reader \<Rightarrow> bytes \<Rightarrow> bool" where
  "delivers E r data \<longleftrightarrow> (\<forall>cap > 0. \<exists>r'. read_to_end (object_read E) cap r [] = Some (Inr data, r'))"

lemma delivers_mem: "delivers E (MemStream data) data"
proof -
  have "\<exists>r'. read_to_end (object_read E) cap (MemStream data) [] = Some (Inr data, r')" if pos: "0 < cap" for cap
  proof -
    obtain s' where "read_to_end cursor_read cap data [] = Some (Inr data, s')"
      using cursor.read_to_end_all [of cap data "[]"] pos by auto
    from read_to_end_map [where rd' = "object_read E" and f = MemStream, OF _ this] show ?thesis by auto
  qed
  then show ?thesis by (simp add: delivers_def)
qed

lemma delivers_stream:
  assumes "stream_reader rd I R W" "I s" "R s = data" "\<And>s n. object_read E (f s) n = (case rd s n of (r, s') \<Rightarrow> (r, f s'))"
  shows "delivers E (f s) data"
proof -
  have "\<exists>r'. read_to_end (object_read E) cap (f s) [] = Some (Inr data, r')" if pos: "0 < cap" for cap
  proof -
    obtain s' where "read_to_end rd cap s [] = Some (Inr data, s')"
      using stream_reader.read_to_end_all [OF assms(1,2) pos, of "[]"] assms(3) by auto
    from read_to_end_map [where rd' = "object_read E" and f = f, OF assms(4) this] show ?thesis by auto
  qed
  then show ?thesis by (simp add: delivers_def)
qed

text \<open>The two entries of a flat object, and a record that fits its payload.\<close>

definition flat_at :: "env \<Rightarrow> FilesystemStorage \<Rightarrow> string \<Rightarrow> string \<Rightarrow> world \<Rightarrow> bytes \<Rightarrow> ObjectMeta \<Rightarrow> bool" where
  "flat_at E st b k w ct meta \<longleftrightarrow>
     json_law (e_object E) \<and> good_key b k \<and> store_ok st (w_root w) \<and> w_faults w = []
     \<and> view (kdir st b k) (w_root w) (base_name k) = Some (File ct)
     \<and> view (kdir st b k) (w_root w) (base_name k @ ''.meta.json'') = Some (File (fst (e_object E) meta))
     \<and> \<not> is_dir_at (kdir st b k @ [base_name k @ ''.ec'']) (w_root w)"

definition meta_for ::
  "env \<Rightarrow> string option \<Rightarrow> (EncryptionMeta \<times> bytes \<times> cipher) option \<Rightarrow> bytes \<Rightarrow> ObjectMeta \<Rightarrow> bool" where
  "meta_for E vid c body meta \<longleftrightarrow>
     om_size meta = length body \<and> om_version_id meta = vid
     \<and> (case c of
          None \<Rightarrow> om_encryption meta = None
        | Some (em, dek, _) \<Rightarrow> (\<exists>mac. om_encryption meta = Some (em\<lparr>em_sidecar_mac := mac\<rparr>))
            \<and> verify_sidecar_mac (e_hmac E) meta dek = Inr ())"

lemma flat_meta_fields:
  "om_size (flat_meta E k ct body now vid checksum c lock) = length body"
  "om_version_id (flat_meta E k ct body now vid checksum c lock) = vid"
  "om_etag (flat_meta E k ct body now vid checksum c lock) = etag_of E body"
  "om_key (flat_meta E k ct body now vid checksum c lock) = k"
  "om_content_type (flat_meta E k ct body now vid checksum c lock) = ct"
  "om_is_delete_marker (flat_meta E k ct body now vid checksum c lock) = False"
  by (simp_all add: flat_meta_def seal_opt_def seal_meta_def apply_object_lock_def upload_meta_def plain_object_meta_def Let_def
      split: option.split prod.split)

lemma sealed_verifies:
  assumes "om_encryption meta \<noteq> None" "\<And>m. hmac dek m \<noteq> []"
  shows "verify_sidecar_mac hmac (seal_meta hmac dek meta) dek = Inr ()"
  using assms mac_input_seal [of hmac dek meta]
  by (auto simp: verify_iff seal_meta_def compute_sidecar_mac_def mac_input_def Let_def option.map_comp comp_def)

lemma flat_meta_for:
  assumes "c \<noteq> None \<longrightarrow> (\<forall>dek m. e_hmac E dek m \<noteq> [])"
  shows "meta_for E vid c body (flat_meta E k ct body now vid checksum c lock)"
proof (cases c)
  case None
  then show ?thesis
    by (simp add: meta_for_def flat_meta_def seal_opt_def apply_object_lock_def upload_meta_def plain_object_meta_def split: option.split)
next
  case (Some x)
  obtain em dek cph where x: "x = (em, dek, cph)" by (cases x)
  let ?m = "apply_object_lock (upload_meta k (length body) (etag_of E body) ct now vid None (map_option fst checksum)
        (map_option (\<lambda>c. e_checksum E (fst c) body) checksum) (Some em)) lock"
  have m: "om_encryption ?m = Some em" by (simp add: apply_object_lock_def upload_meta_def split: option.split)
  have "verify_sidecar_mac (e_hmac E) (seal_meta (e_hmac E) dek ?m) dek = Inr ()"
    using sealed_verifies m assms Some by simp
  moreover have "\<exists>mac. om_encryption (seal_meta (e_hmac E) dek ?m) = Some (em\<lparr>em_sidecar_mac := mac\<rparr>)"
    using m by (auto simp: seal_meta_def Let_def)
  ultimately show ?thesis
    using flat_meta_fields(1,2) [of E k ct body now vid checksum c lock] Some x
    by (simp add: meta_for_def flat_meta_def seal_opt_def)
qed

lemma resolve_dek_mac: "resolve_dek dec b64 md5 ks (em\<lparr>em_sidecar_mac := mac\<rparr>) ck = resolve_dek dec b64 md5 ks em ck"
proof -
  let ?e = "em\<lparr>em_sidecar_mac := mac\<rparr>"
  have f: "em_mode ?e = em_mode em" "em_key_id ?e = em_key_id em" "em_kms_key_id ?e = em_kms_key_id em"
    "em_wrapped_dek ?e = em_wrapped_dek em" "em_wrap_nonce ?e = em_wrap_nonce em"
    "em_customer_key_md5 ?e = em_customer_key_md5 em" by simp_all
  show ?thesis unfolding resolve_dek_def f ..
qed

abbreviation customer_key_of :: "EncryptionRequest option \<Rightarrow> bytes option" where
  "customer_key_of encryption \<equiv> Option.bind encryption er_customer_key"

lemma flat_opens:
  assumes "flat_at E st b k w ct meta" "meta_for E vid c body meta" "sealed_as E st b k vid encryption c body ct"
  shows "checked_meta E st b k (customer_key_of encryption) w = (Inr meta, w)"
    and "fs_is_dir (ec_dir (st_buckets_dir st) b k) w = (Inr False :: StorageError + bool, w)"
    and "open_file (NotFound k) (object_path (st_buckets_dir st) b k) w = (Inr ct, w)"
proof -
  note f = assms(1) [unfolded flat_at_def]
  have gk': "good_key b k" using f by simp
  note gk = good_key_simps [OF gk']
  have pl: "plain (kdir st b k)" using f key_dir_plain by (auto simp: store_ok_def)
  have "reject_sse_c_on_plaintext meta (customer_key_of encryption \<noteq> None) = Inr ()"
    using assms(2,3) by (auto simp: reject_sse_c_on_plaintext_def meta_for_def sealed_as_def split: option.splits)
  then show "checked_meta E st b k (customer_key_of encryption) w = (Inr meta, w)"
    using read_object_meta_calm [of E b k st w meta] f gk by (simp add: checked_meta_def bind_act_def lift_res_def ok_def)
  show "fs_is_dir (ec_dir (st_buckets_dir st) b k) w = (Inr False :: StorageError + bool, w)"
    using f pl gk by (auto simp: fs_is_dir_def query_quiet stat_at_plain is_dir_at_def lookup_def split: sum.splits node.splits)
  show "open_file (NotFound k) (object_path (st_buckets_dir st) b k) w = (Inr ct, w)"
    using f pl gk by (simp add: open_file_def or_not_found_def map_err_act_def fs_read_def query_quiet read_at_File)
qed

lemma get_flat_calm:
  assumes "flat_at E st b k w ct meta" "meta_for E vid c body meta" "sealed_as E st b k vid encryption c body ct"
    and "can_encrypt E st encryption (length body)"
  shows "\<exists>r. get_object E st b k (customer_key_of encryption) w = Some (Inr (r, meta), w) \<and> delivers E r body"
proof (cases encryption)
  case None
  with assms(2,3) have "om_encryption meta = None" "ct = body" by (auto simp: meta_for_def sealed_as_def)
  then have "get_object E st b k (customer_key_of encryption) w = Some (Inr (MemStream body, meta), w)"
    using flat_opens [OF assms(1-3)] by (simp add: get_object_def bind_p_def total_def Let_def ok_def)
  then show ?thesis using delivers_mem by blast
next
  case (Some req)
  let ?aad = "object_aad_builder (e_sha256 E) b k vid"
  obtain em dek pre where c: "c = Some (em, dek, dek, pre, ?aad)"
    and dek: "resolve_dek (e_dec E) (e_b64 E) (e_md5 E) (st_keys st) em (er_customer_key req) = Inr dek"
    and em: "em_chunk_size em = FRAME_CHUNK_SIZE" "length dek = 32"
    and ct: "encode_frames (e_enc E) dek pre ?aad 0 (chunks_of FRAME_CHUNK_SIZE body) = Inr ct"
    using assms(3) Some by (auto simp: sealed_as_def)
  obtain mac where mac: "om_encryption meta = Some (em\<lparr>em_sidecar_mac := mac\<rparr>)" "verify_sidecar_mac (e_hmac E) meta dek = Inr ()"
    and mf: "om_size meta = length body" "om_version_id meta = vid"
    using assms(2) c by (auto simp: meta_for_def)
  have ae: "aead_roundtrip (e_enc E) (e_dec E)" and l64: "length body < 2 ^ 64"
    using assms(4) Some by (auto simp: can_encrypt_def FRAME_CHUNK_SIZE_def)
  have "unlock E st meta (em\<lparr>em_sidecar_mac := mac\<rparr>) (er_customer_key req) = Inr dek"
    using dek mac(2) by (simp add: unlock_def resolve_dek_mac)
  moreover obtain d' where pre': "preflight cursor_read (e_dec E) (FrameDecryptor_new ct dek (length body) FRAME_CHUNK_SIZE ?aad) = Some (Inr (), d')"
    and d': "cursor.dec_inv (e_enc E) pre body d'" "dec_rest body d' = body"
    using cursor.new_decryptor_stream [OF ae em(2) l64, of pre ?aad ct] ct by auto
  ultimately have "get_object E st b k (customer_key_of encryption) w = Some (Inr (FrameStream d', meta), w)"
    using flat_opens [OF assms(1-3)] mac(1) mf em(1) Some
    by (simp add: get_object_def open_encrypted_def preflight_frame_decryptor_def bind_p_def total_def Let_def ok_def
        lift_res_def lift_opt_def)
  moreover have "delivers E (FrameStream d') body"
    by (rule delivers_stream [OF cursor.decryptor_stream [OF ae] d']) simp
  ultimately show ?thesis by blast
qed

lemma get_flat_range_calm:
  assumes "flat_at E st b k w ct meta" "meta_for E vid c body meta" "sealed_as E st b k vid encryption c body ct"
    and "can_encrypt E st encryption (length body)" "offset + len \<le> length body"
  shows "\<exists>r. get_object_range E st b k offset len (customer_key_of encryption) w = Some (Inr (r, meta), w)
    \<and> delivers E r (take len (drop offset body))"
proof (cases encryption)
  case None
  with assms(2,3) have "om_encryption meta = None" "ct = body" by (auto simp: meta_for_def sealed_as_def)
  moreover have "file_range body offset len = Inr (take len (drop offset body))" using assms(5) by (auto simp: file_range_def)
  ultimately have "get_object_range E st b k offset len (customer_key_of encryption) w =
      Some (Inr (MemStream (take len (drop offset body)), meta), w)"
    using flat_opens [OF assms(1-3)] by (simp add: get_object_range_def bind_p_def total_def Let_def ok_def lift_opt_def)
  then show ?thesis using delivers_mem by blast
next
  case (Some req)
  let ?aad = "object_aad_builder (e_sha256 E) b k vid" and ?c = FRAME_CHUNK_SIZE
  obtain em dek pre where c: "c = Some (em, dek, dek, pre, ?aad)"
    and dek: "resolve_dek (e_dec E) (e_b64 E) (e_md5 E) (st_keys st) em (er_customer_key req) = Inr dek"
    and em: "em_chunk_size em = ?c" "length dek = 32"
    and ct: "encode_frames (e_enc E) dek pre ?aad 0 (chunks_of ?c body) = Inr ct"
    using assms(3) Some by (auto simp: sealed_as_def)
  obtain mac where mac: "om_encryption meta = Some (em\<lparr>em_sidecar_mac := mac\<rparr>)" "verify_sidecar_mac (e_hmac E) meta dek = Inr ()"
    and mf: "om_size meta = length body" "om_version_id meta = vid"
    using assms(2) c by (auto simp: meta_for_def)
  have ae: "aead_roundtrip (e_enc E) (e_dec E)" and l64: "length body < 2 ^ 64"
    using assms(4) Some by (auto simp: can_encrypt_def FRAME_CHUNK_SIZE_def)
  have ul: "unlock E st meta (em\<lparr>em_sidecar_mac := mac\<rparr>) (er_customer_key req) = Inr dek"
    using dek mac(2) by (simp add: unlock_def resolve_dek_mac)
  let ?co = "offset div ?c * (?c + FRAME_OVERHEAD)"
  let ?d = "for_range_internal (drop ?co ct) dek (length body) ?c (offset div ?c) len (offset mod ?c) ?aad"
  have d: "cursor.dec_inv (e_enc E) pre body ?d" "dec_rest body ?d = take len (drop offset body)"
    using cursor.for_range_stream [OF ae em(2) l64 assms(5) ct, of "drop ?co ct"] by simp_all
  have pos: "?c \<noteq> 0" by (simp add: FRAME_CHUNK_SIZE_def)
  have "get_object_range E st b k offset len (customer_key_of encryption) w = Some (Inr (FrameStream ?d, meta), w)"
    using flat_opens [OF assms(1-3)] mac(1) mf em(1) Some ul pos
    by (simp add: get_object_range_def bind_p_def total_def Let_def ok_def
        lift_res_def lift_opt_def ciphertext_offset_def for_range_def)
  moreover have "delivers E (FrameStream ?d) (take len (drop offset body))"
    by (rule delivers_stream [OF cursor.decryptor_stream [OF ae] d]) simp
  ultimately show ?thesis by blast
qed

lemma flat_after_put:
  assumes "stage E st b m k w'" "good_key b k" "json_law (e_object E)" "c' \<in> later_names (e_uuid E) n"
    and "\<not> is_dir_at (kdir st b k @ [base_name k @ ''.ec'']) (w_root w)"
    and v: "\<forall>z. view (kdir st b k) (w_root w') z =
      (if z = base_name k then Some (File ct)
       else if z = base_name k @ ''.meta.json'' then Some (File (fst (e_object E) meta))
       else if z = c' \<and> \<not> has_kind False (view (kdir st b k) (w_root w) (base_name k))
       then view (kdir st b k) (w_root w) (base_name k)
       else view (kdir st b k) (w_root w) z)"
  shows "flat_at E st b k w' ct meta"
proof -
  have "base_name k @ ''.ec'' \<noteq> c'" using assms(4) ec_not_tmp [OF assms(2)] by (auto simp: later_names_def)
  then have "view (kdir st b k) (w_root w') (base_name k @ ''.ec'') = view (kdir st b k) (w_root w) (base_name k @ ''.ec'')"
    using v names_differ(3) [OF assms(2)] by simp
  then have "\<not> is_dir_at (kdir st b k @ [base_name k @ ''.ec'']) (w_root w')" using assms(5) by (simp add: is_dir_at_def)
  then show ?thesis
    using assms(1-3) v names_differ(2) [OF assms(2)] by (simp add: flat_at_def stage_def)
qed

text \<open>
  C1. An object uploaded with \<open>put_object\<close> is read back. In a bucket without versioning and
  erasure coding, where no chunk directory of the key is left over (\<open>get_object\<close> would prefer it to
  the new payload), for a canonical key and without failing calls, an accepted upload of any
  body, in any fragmentation, plain or encrypted in any of the three SSE modes, returns, and
  reports the size and the ETag of the body. Afterwards \<open>get_object\<close> delivers exactly the
  uploaded bytes and \<open>get_object_range\<close> every range of them, both with the reported record;
  no entry outside the two files of the key and temporary names is touched.
\<close>

theorem put_get_roundtrip:
  assumes "upload_ready E st b m k w" "overwritable E st b k w" "flat_bucket st m" "body_inv es"
    and "accepted E st declared (body_bytes es)" "checksum_ok E checksum (body_bytes es)"
    and "can_encrypt E st encryption (length (body_bytes es))"
    and "\<not> is_dir_at (ec_dir (st_buckets_dir st) b k) (w_root w)"
  shows "\<exists>w' meta. put_object E st body_read b k content_type es checksum encryption declared w = Some (Inr (put_result meta), w')
    \<and> om_key meta = k \<and> om_size meta = length (body_bytes es) \<and> om_etag meta = etag_of E (body_bytes es)
    \<and> om_content_type meta = content_type
    \<and> (\<exists>r. get_object E st b k (customer_key_of encryption) w' = Some (Inr (r, meta), w') \<and> delivers E r (body_bytes es))
    \<and> (\<forall>offset len. offset + len \<le> length (body_bytes es) \<longrightarrow>
         (\<exists>r. get_object_range E st b k offset len (customer_key_of encryption) w' = Some (Inr (r, meta), w')
            \<and> delivers E r (take len (drop offset (body_bytes es)))))
    \<and> kept_outside (kdir st b k) ({base_name k, base_name k @ ''.meta.json''} \<union> later_names (e_uuid E) (w_draws w)) (w_root w) (w_root w')"
proof -
  have gk: "good_key b k" and jl: "json_law (e_object E)" using assms(1) by (simp_all add: upload_ready_def)
  obtain w' c ct now lock c' where
    put: "put_object E st body_read b k content_type es checksum encryption declared w =
        Some (Inr (put_result (flat_meta E k content_type (body_bytes es) now None checksum c lock)), w')"
    and s: "sealed_as E st b k None encryption c (body_bytes es) ct"
    and st: "stage E st b m k w'" and c': "c' \<in> later_names (e_uuid E) (w_draws w)"
    and kept: "kept_outside (kdir st b k) ({base_name k, base_name k @ ''.meta.json''} \<union> later_names (e_uuid E) (w_draws w)) (w_root w) (w_root w')"
    and v: "\<forall>z. view (kdir st b k) (w_root w') z =
      (if z = base_name k then Some (File ct)
       else if z = base_name k @ ''.meta.json''
       then Some (File (fst (e_object E) (flat_meta E k content_type (body_bytes es) now None checksum c lock)))
       else if z = c' \<and> \<not> has_kind False (view (kdir st b k) (w_root w) (base_name k))
       then view (kdir st b k) (w_root w) (base_name k)
       else view (kdir st b k) (w_root w) z)"
    using put_object_calm [OF assms(1-7)] by blast
  let ?meta = "flat_meta E k content_type (body_bytes es) now None checksum c lock"
  have fa: "flat_at E st b k w' ct ?meta"
    using flat_after_put [OF st gk jl c' _ v] assms(8) good_key_simps(7) [OF gk] by simp
  have mf: "meta_for E None c (body_bytes es) ?meta"
    using flat_meta_for s assms(7) by (cases encryption) (auto simp: sealed_as_def can_encrypt_def)
  show ?thesis
    using put flat_meta_fields [of E k content_type "body_bytes es" now None checksum c lock]
      get_flat_calm [OF fa mf s assms(7)] get_flat_range_calm [OF fa mf s assms(7)] kept
    by (intro exI [of _ w'] exI [of _ ?meta]) simp
qed

section \<open>An example\<close>

lemma toy_key: "good_key ''photos'' ''a/b.txt''" "good_key ''photos'' ''a''"
  by (simp_all add: good_key_def toy_valid) code_simp+

lemma toy_dirs: "key_dir [''buckets''] ''photos'' ''a/b.txt'' = [''buckets'', ''photos'', ''a'']" "base_name ''a/b.txt'' = ''b.txt''"
  "key_dir [''buckets''] ''photos'' ''a'' = [''buckets'', ''photos'']" "base_name ''a'' = ''a''"
  by (simp_all add: key_dir_def) code_simp+

lemma inj_show_nat: "inj show_nat"
  proof (rule injI)
  fix x y assume "show_nat x = show_nat y"
  moreover define b where "b = Suc (max x y)"
  ultimately show "x = y" using parse_digits_show_nat [of x b] parse_digits_show_nat [of y b] by simp
qed

lemma toy_ready: "upload_ready toy_env toy_storage ''photos'' toy_bucket ''a/b.txt'' toy_world"
proof -
  have "no_file_on [''buckets'', ''photos'', ''a''] (w_root toy_world)"
    by (auto simp: no_file_on_def prefix_Cons toy_world_def lookup_Cons)
  moreover have "fresh_names (e_uuid toy_env) [''buckets'', ''photos'', ''a''] toy_world"
    by (simp add: fresh_names_def toy_world_def lookup_Cons inj_show_nat)
  moreover have "store_ok toy_storage (w_root toy_world)"
    by (simp add: store_ok_def toy_world_def is_dir_at_def lookup_Cons)
  ultimately show ?thesis
    by (simp add: upload_ready_def toy_json_law toy_key toy_dirs toy_bucket_at)
qed

definition toy_request :: EncryptionRequest where
  "toy_request = sse_c (replicate 32 7)"

abbreviation toy_body :: "bytes option list" where
  "toy_body \<equiv> [Some [1, 2], None, Some [3]]"

lemma toy_accepts:
  "overwritable toy_env toy_storage ''photos'' ''a/b.txt'' toy_world" "flat_bucket toy_storage toy_bucket"
  "body_inv toy_body" "accepted toy_env toy_storage (Some 3) (body_bytes toy_body)"
  "checksum_ok toy_env None (body_bytes toy_body)" "can_encrypt toy_env toy_storage (Some toy_request) (length (body_bytes toy_body))"
  by (simp_all add: overwritable_def toy_dirs toy_world_def lookup_Cons flat_bucket_def toy_bucket_def new_bucket_meta_def
      body_inv_def accepted_def quota_within_def check_upload_start_def check_write_progress_def check_declared_size_def
      check_disk_reserve_def check_object_size_def from_config_def checksum_ok_def can_encrypt_def toy_roundtrip toy_b64_law
      keys_for_def toy_request_def sse_c_def FRAME_CHUNK_SIZE_def toy_hmac_def rnd_wf_def toy_env_def)

theorem put_get_roundtrip_witness:
  "\<exists>w' meta. put_object toy_env toy_storage body_read ''photos'' ''a/b.txt'' ''text/plain'' toy_body None
      (Some toy_request) (Some 3) toy_world = Some (Inr (put_result meta), w')
    \<and> (\<exists>r. get_object toy_env toy_storage ''photos'' ''a/b.txt'' (Some (replicate 32 7)) w' = Some (Inr (r, meta), w')
         \<and> delivers toy_env r [1, 2, 3])
    \<and> (\<exists>r. get_object_range toy_env toy_storage ''photos'' ''a/b.txt'' 1 2 (Some (replicate 32 7)) w' = Some (Inr (r, meta), w')
         \<and> delivers toy_env r [2, 3])"
proof -
  have no_ec: "\<not> is_dir_at (ec_dir (st_buckets_dir toy_storage) ''photos'' ''a/b.txt'') (w_root toy_world)"
    by (simp add: good_key_simps(7) [OF toy_key(1), of toy_storage, simplified] toy_dirs is_dir_at_def toy_world_def lookup_Cons)
  have ck: "customer_key_of (Some toy_request) = Some (replicate 32 7)" by (simp add: toy_request_def sse_c_def)
  obtain w' meta where put: "put_object toy_env toy_storage body_read ''photos'' ''a/b.txt'' ''text/plain'' toy_body None
      (Some toy_request) (Some 3) toy_world = Some (Inr (put_result meta), w')"
    and get: "\<exists>r. get_object toy_env toy_storage ''photos'' ''a/b.txt'' (Some (replicate 32 7)) w' = Some (Inr (r, meta), w')
         \<and> delivers toy_env r (body_bytes toy_body)"
    and rng: "\<forall>offset len. offset + len \<le> length (body_bytes toy_body) \<longrightarrow>
         (\<exists>r. get_object_range toy_env toy_storage ''photos'' ''a/b.txt'' offset len (Some (replicate 32 7)) w' = Some (Inr (r, meta), w')
            \<and> delivers toy_env r (take len (drop offset (body_bytes toy_body))))"
    using put_get_roundtrip [OF toy_ready toy_accepts no_ec, of "''text/plain''", unfolded ck] by blast
  from put get rng [rule_format, of 1 2] show ?thesis by auto
qed

section \<open>Uploads over a directory\<close>

lemma read_json_below_file:
  assumes "plain p" "w_faults w = []" "lookup q (w_root w) = Some (File x)" "p = q @ r" "r \<noteq> []"
  shows "\<exists>e. read_json c e' p w = (Inl e, w)"
proof -
  have "lookup p (w_root w) = None" using assms(3-5) by (cases r) (simp_all add: lookup_append lookup_Cons)
  then have "\<exists>e. read_at p (w_root w) = Inl e"
    using assms(1) by (auto simp: read_at_def stat_at_plain lookup_def split: sum.splits)
  then show ?thesis
    using assms(2) by (auto simp: read_json_def act_defs fs_read_to_string_def query_quiet split: sum.splits)
qed

lemma key_below:
  assumes "good_key b k" "good_key b (k @ ''/'' @ x)"
  shows "\<exists>r. r \<noteq> [] \<and> meta_path (st_buckets_dir st) b (k @ ''/'' @ x) = (kdir st b k @ [base_name k]) @ r"
proof -
  let ?k = "k @ ''/'' @ x"
  have "segs k @ segs x = split_on CHR ''/'' k @ split_on CHR ''/'' x"
    using good_key_simps(3) [OF assms(2)] by (simp add: canonical_key_def flip: segs_slash) (simp add: split_on_append)
  moreover have "segs k = split_on CHR ''/'' k" using good_key_simps(3) [OF assms(1)] by (simp add: canonical_key_def)
  ultimately have ne: "segs x \<noteq> []" by auto
  have "segs k \<noteq> []" using canonical_nonempty good_key_simps(3) [OF assms(1)] by blast
  then have k: "segs k = butlast (segs k) @ [base_name k]" by simp
  have "kdir st b ?k = kdir st b k @ [base_name k] @ butlast (segs x)"
    using ne k unfolding key_dir_def segs_slash by (simp add: butlast_append)
  then show ?thesis using good_key_simps(6) [OF assms(2), of st] by simp
qed

text \<open>
  C3. In a bucket without versioning and erasure coding, an accepted upload to a key that is also a
  directory of other keys, such as \<open>a\<close> beside \<open>a/b.txt\<close>, succeeds and makes every object under that directory unreadable: the directory
  is moved to a temporary name as the backup of the old payload, and the cleanup, which expects
  a file, leaves it there.
\<close>

theorem put_over_directory_hides_objects:
  assumes "upload_ready E st b m k w" "overwritable E st b k w" "flat_bucket st m" "body_inv es"
    and "accepted E st declared (body_bytes es)" "checksum_ok E checksum (body_bytes es)"
    and "can_encrypt E st encryption (length (body_bytes es))"
    and "lookup (object_path (st_buckets_dir st) b k) (w_root w) = Some (Dir ents)"
  shows "\<exists>w' r j. put_object E st body_read b k content_type es checksum encryption declared w = Some (Inr r, w')
    \<and> (\<forall>x ck. good_key b (k @ ''/'' @ x) \<longrightarrow> (\<exists>e. get_object E st b (k @ ''/'' @ x) ck w' = Some (Inl e, w')))
    \<and> lookup (kdir st b k @ [tmp_name (e_uuid E j)]) (w_root w') = Some (Dir ents)"
proof -
  have gk: "good_key b k" using assms(1) by (simp add: upload_ready_def)
  have dir: "view (kdir st b k) (w_root w) (base_name k) = Some (Dir ents)" using assms(8) good_key_simps(5) [OF gk, of st] by simp
  obtain w' c ct now lock c' where
    put: "put_object E st body_read b k content_type es checksum encryption declared w =
        Some (Inr (put_result (flat_meta E k content_type (body_bytes es) now None checksum c lock)), w')"
    and st: "stage E st b m k w'" and c': "c' \<in> later_names (e_uuid E) (w_draws w)"
    and v: "\<forall>z. view (kdir st b k) (w_root w') z =
      (if z = base_name k then Some (File ct)
       else if z = base_name k @ ''.meta.json''
       then Some (File (fst (e_object E) (flat_meta E k content_type (body_bytes es) now None checksum c lock)))
       else if z = c' \<and> \<not> has_kind False (view (kdir st b k) (w_root w) (base_name k))
       then view (kdir st b k) (w_root w) (base_name k)
       else view (kdir st b k) (w_root w) z)"
    using put_object_calm [OF assms(1-7)] by blast
  obtain j where j: "c' = tmp_name (e_uuid E j)" using c' by (auto simp: later_names_def)
  have "\<exists>e. get_object E st b (k @ ''/'' @ x) ck w' = Some (Inl e, w')" if gx: "good_key b (k @ ''/'' @ x)" for x ck
  proof -
    let ?k = "k @ ''/'' @ x"
    obtain r where r: "r \<noteq> []" "meta_path (st_buckets_dir st) b ?k = (kdir st b k @ [base_name k]) @ r"
      using key_below [OF gk gx] by blast
    have "plain (meta_path (st_buckets_dir st) b ?k)"
      using good_key_simps(6) [OF gx, of st] key_dir_plain [OF gx, of st] st by (simp add: stage_def store_ok_def)
    then obtain e where "read_object_meta E st b ?k w' = (Inl e, w')"
      using read_json_below_file [OF _ _ _ r(2,1)] v st unfolding read_object_meta_def by (metis stage_def)
    then show ?thesis
      using good_key_simps(2,4) [OF gx] by (simp add: get_object_def checked_meta_def bind_p_def total_def bind_act_def lift_res_def)
  qed
  moreover have "lookup (kdir st b k @ [tmp_name (e_uuid E j)]) (w_root w') = Some (Dir ents)"
    using v dir names_differ(1) [OF gk, THEN not_sym] meta_not_tmp [OF gk, THEN not_sym] unfolding j by (simp add: has_kind_def)
  ultimately show ?thesis using put by blast
qed

text \<open>
  C2. Object lock. While the current record of a key is protected by a retention period or a legal
  hold, uploads to the key, its deletion (in versioned and unversioned buckets) and the deletion of its \<open>null\<close> version
  are refused with \<open>ObjectLocked\<close>; and while a stored version is protected its deletion
  is refused, whether the current record is protected or not. The tree is not changed. (A protected version
  that is not the current record does not keep the key from being overwritten.) The key is canonical and no
  system call fails.
\<close>

theorem locked_object_kept:
  assumes "upload_ready E st b m k w"
  shows "(\<forall>om. lookup (meta_path (st_buckets_dir st) b k) (w_root w) = Some (File (fst (e_object E) om))
         \<and> is_object_protected (e_rfc3339 E) (e_micros E (w_draws w)) om \<longrightarrow>
         put_object E st rd b k content_type body checksum encryption declared w =
           Some (Inl (ObjectLocked locked_msg), w\<lparr>w_draws := Suc (w_draws w)\<rparr>)
         \<and> delete_object E st b k w = (Inl (ObjectLocked locked_msg), w\<lparr>w_draws := Suc (w_draws w)\<rparr>)
         \<and> delete_object_version E st b k ''null'' w = (Inl (ObjectLocked locked_msg), w\<lparr>w_draws := Suc (w_draws w)\<rparr>))
    \<and> (\<forall>vid vm. vid \<noteq> ''null'' \<and> plain (version_meta_path (st_buckets_dir st) b k vid)
         \<and> lookup (version_meta_path (st_buckets_dir st) b k vid) (w_root w) = Some (File (fst (e_object E) vm))
         \<and> is_object_protected (e_rfc3339 E) (e_micros E (w_draws w)) vm \<longrightarrow>
         delete_object_version E st b k vid w =
           (Inl (ObjectLocked ''object version is protected by retention or legal hold''), w\<lparr>w_draws := Suc (w_draws w)\<rparr>))"
proof (intro conjI allI impI; elim conjE)
  note r = assms [unfolded upload_ready_def]
  have gk: "good_key b k" and jl: "json_law (e_object E)" and nf: "w_faults w = []" using r by simp_all
  note g = good_key_simps [OF gk]
  {
    fix om
    assume l: "lookup (meta_path (st_buckets_dir st) b k) (w_root w) = Some (File (fst (e_object E) om))"
      and p: "is_object_protected (e_rfc3339 E) (e_micros E (w_draws w)) om"
    have v: "view (kdir st b k) (w_root w) (base_name k @ ''.meta.json'') = Some (File (fst (e_object E) om))"
      using l g(6) [of st] by simp
    have rd: "read_object_meta E st b k w = (Inr om, w)" using read_object_meta_calm [OF jl gk _ nf v] r by simp
    have ow: "ensure_can_overwrite E st b k w = (Inl (ObjectLocked locked_msg), w\<lparr>w_draws := Suc (w_draws w)\<rparr>)"
      using overwrite_calm [OF assms] v rd p by (simp add: bind_act_def protected_now_calm fail_def)
    have de: "ensure_can_delete_meta E om w = (Inl (ObjectLocked locked_msg), w\<lparr>w_draws := Suc (w_draws w)\<rparr>)"
      using p by (simp add: ensure_can_delete_meta_def bind_act_def protected_now_calm fail_def)
    have "plain (kdir st b k @ [base_name k @ ''.meta.json''])" using r key_dir_plain [OF gk] by (auto simp: store_ok_def)
    then have ex: "fs_try_exists (meta_path (st_buckets_dir st) b k) w = (Inr True, w)"
      using exists_free nf r v g(6) [of st] by fastforce
    show "put_object E st rd b k content_type body checksum encryption declared w =
        Some (Inl (ObjectLocked locked_msg), w\<lparr>w_draws := Suc (w_draws w)\<rparr>)"
      using ow g by (simp add: put_object_def bind_p_def total_def bind_act_def lift_res_def)
    show "delete_object E st b k w = (Inl (ObjectLocked locked_msg), w\<lparr>w_draws := Suc (w_draws w)\<rparr>)"
      using ex rd de ready_versioned [OF assms] g
      by (simp add: delete_object_def bind_act_def lift_res_def attempt_def Let_def io_def map_err_act_def ok_def)
    show "delete_object_version E st b k ''null'' w = (Inl (ObjectLocked locked_msg), w\<lparr>w_draws := Suc (w_draws w)\<rparr>)"
      using rd de g by (simp add: delete_object_version_def bind_act_def lift_res_def)
  }
  fix vid vm
  assume "vid \<noteq> ''null''" and pl: "plain (version_meta_path (st_buckets_dir st) b k vid)"
    and l: "lookup (version_meta_path (st_buckets_dir st) b k vid) (w_root w) = Some (File (fst (e_object E) vm))"
    and "is_object_protected (e_rfc3339 E) (e_micros E (w_draws w)) vm"
  then show "delete_object_version E st b k vid w =
      (Inl (ObjectLocked ''object version is protected by retention or legal hold''), w\<lparr>w_draws := Suc (w_draws w)\<rparr>)"
    using read_json_ok [OF jl pl nf l] g
    by (simp add: delete_object_version_def read_version_meta_def bind_act_def lift_res_def protected_now_calm fail_def)
qed

definition toy_record :: "string \<Rightarrow> ObjectMeta" where
  "toy_record key = (plain_object_meta key 1 ''e'' ''text/plain'' ''now'')\<lparr>om_legal_hold_status := Some LegalHoldOn\<rparr>"

definition toy_with :: "(string \<times> node) list \<Rightarrow> world" where
  "toy_with es = \<lparr>w_root = Dir [(''buckets'', Dir [(''photos'', Dir ((''.bucket.json'', File (fst toy_json toy_bucket)) # es))])],
     w_faults = [], w_draws = 0\<rparr>"

lemma toy_with_ready:
  assumes "\<And>u. map_of es (tmp_name u) = None"
  shows "upload_ready toy_env toy_storage ''photos'' toy_bucket ''a'' (toy_with es)"
proof -
  have "no_file_on [''buckets'', ''photos''] (w_root (toy_with es))"
    by (auto simp: no_file_on_def prefix_Cons toy_with_def lookup_Cons)
  moreover have "fresh_names (e_uuid toy_env) [''buckets'', ''photos''] (toy_with es)"
    using assms by (auto simp: fresh_names_def toy_with_def lookup_Cons inj_show_nat tmp_name_def)
  moreover have "store_ok toy_storage (w_root (toy_with es))"
    by (simp add: store_ok_def toy_with_def is_dir_at_def lookup_Cons)
  moreover have "bucket_at toy_env toy_storage (w_root (toy_with es)) ''photos'' toy_bucket"
    using bucket_meta_path_eq [OF toy_valid] by (simp add: bucket_at_def toy_with_def lookup_Cons)
  ultimately show ?thesis
    by (simp add: upload_ready_def toy_json_law toy_key toy_dirs toy_with_def)
qed

theorem put_over_directory_hides_objects_witness:
  "\<exists>w' r e. put_object toy_env toy_storage body_read ''photos'' ''a'' ''text/plain'' toy_body None (Some toy_request) (Some 3)
        (toy_with [(''a'', Dir [(''b.txt'', File [1]), (''b.txt.meta.json'', File (fst toy_json (toy_record ''a/b.txt'')))])]) = Some (Inr r, w')
    \<and> get_object toy_env toy_storage ''photos'' ''a/b.txt'' None w' = Some (Inl e, w')"
proof -
  let ?es = "[(''b.txt'', File [1]), (''b.txt.meta.json'', File (fst toy_json (toy_record ''a/b.txt'')))]"
  have r: "upload_ready toy_env toy_storage ''photos'' toy_bucket ''a'' (toy_with [(''a'', Dir ?es)])"
    by (rule toy_with_ready) (simp add: tmp_name_def)
  have o: "overwritable toy_env toy_storage ''photos'' ''a'' (toy_with [(''a'', Dir ?es)])"
    by (simp add: overwritable_def toy_dirs toy_with_def lookup_Cons)
  have d: "lookup (object_path (st_buckets_dir toy_storage) ''photos'' ''a'') (w_root (toy_with [(''a'', Dir ?es)])) = Some (Dir ?es)"
    by (simp add: good_key_simps(5) [OF toy_key(2), of toy_storage, simplified] toy_dirs toy_with_def lookup_Cons)
  show ?thesis
    using put_over_directory_hides_objects [OF r o toy_accepts(2-6) d, of "''text/plain''"] toy_key(1)
    by (auto dest!: spec [of _ "''b.txt''"])
qed

theorem locked_object_kept_witness:
  "put_object toy_env toy_storage body_read ''photos'' ''a'' ''text/plain'' toy_body None None None
     (toy_with [(''a.meta.json'', File (fst toy_json (toy_record ''a'')))]) =
   Some (Inl (ObjectLocked locked_msg), (toy_with [(''a.meta.json'', File (fst toy_json (toy_record ''a'')))])\<lparr>w_draws := 1\<rparr>)"
proof -
  let ?w = "toy_with [(''a.meta.json'', File (fst toy_json (toy_record ''a'')))]"
  have a: "upload_ready toy_env toy_storage ''photos'' toy_bucket ''a'' ?w"
    by (rule toy_with_ready) (simp add: tmp_name_def)
  have l: "lookup (meta_path (st_buckets_dir toy_storage) ''photos'' ''a'') (w_root ?w) = Some (File (fst (e_object toy_env) (toy_record ''a'')))"
    by (simp add: good_key_simps(6) [OF toy_key(2), of toy_storage, simplified] toy_dirs toy_with_def lookup_Cons)
  have p: "is_object_protected (e_rfc3339 toy_env) (e_micros toy_env (w_draws ?w)) (toy_record ''a'')"
    by (simp add: is_object_protected_def toy_record_def)
  show ?thesis
    using locked_object_kept [OF a, of body_read "''text/plain''" toy_body None None None,
      THEN conjunct1, rule_format, of "toy_record ''a''", OF conjI [OF l p], THEN conjunct1]
    by (simp add: toy_with_def)
qed

end
