(* ===== verification/Listing.thy ===== *)
theory Listing
  imports ObjectProps
begin

text \<open>
  Listing (\<open>filesystem/listing.rs\<close>), without the optional metadata index: the walks over the
  tree of a bucket for objects and for versions, and the list of buckets.

  As in deletion, the walk recurses over the nodes that a directory listing reported; opening a
  reported directory is a system call that can fail. A path below the bucket is the list of its
  names, and its key their join with slashes.
\<close>

section \<open>The code\<close>

definition rel_key :: "path \<Rightarrow> string" where
  "rel_key rel = join ''/'' rel"

text \<open>Opening a directory that a listing reported.\<close>

definition open_dir :: "node \<Rightarrow> (io_error, unit) act" where
  "open_dir n = query (\<lambda>_. case n of File _ \<Rightarrow> Inl enotdir | Dir _ \<Rightarrow> Inr ())"

text \<open>\<open>match read_dir\<close>: a missing directory is an empty one.\<close>

definition if_opened :: "(io_error, 'a) act \<Rightarrow> 'b \<Rightarrow> ('a \<Rightarrow> (StorageError, 'b) act) \<Rightarrow> (StorageError, 'b) act" where
  "if_opened m dflt k =
     bind_act (attempt m) (\<lambda>r.
       case r of
         Inr x \<Rightarrow> k x
       | Inl e \<Rightarrow> if io_kind e = NotFoundKind then ok dflt else fail (Io e))"

definition is_skipped :: "string \<Rightarrow> bool" where
  "is_skipped fname \<longleftrightarrow>
     ends_with fname ''.meta.json'' \<or> fname = ''.bucket.json'' \<or> fname = ''.uploads'' \<or> fname = ''.versions'' \<or> fname = ''.folder''"

text \<open>The record of a key that has the prefix and can be read.\<close>

definition object_entry ::
  "env \<Rightarrow> FilesystemStorage \<Rightarrow> string \<Rightarrow> string \<Rightarrow> string \<Rightarrow> (StorageError, ObjectMeta list) act" where
  "object_entry E st bucket pref key =
     (if starts_with key pref
      then bind_act (attempt (read_object_meta E st bucket key)) (\<lambda>r. ok (case r of Inr meta \<Rightarrow> [meta] | Inl _ \<Rightarrow> []))
      else ok [])"

text \<open>The folder marker inside a directory.\<close>

definition folder_entry ::
  "env \<Rightarrow> FilesystemStorage \<Rightarrow> string \<Rightarrow> string \<Rightarrow> path \<Rightarrow> (StorageError, ObjectMeta list) act" where
  "folder_entry E st bucket pref rel =
     (let marker = join_path (st_buckets_dir st) bucket @ rel @ [''.folder.meta.json'']
      in bind_act (attempt (fs_try_exists marker)) (\<lambda>ex.
           if ex = Inr True \<and> starts_with (rel_key rel @ ''/'') pref
           then bind_act (attempt (fs_read_to_string marker)) (\<lambda>r.
                  ok (case r of
                        Inr data \<Rightarrow> (case from_json (e_object E) data of Inr meta \<Rightarrow> [meta] | Inl _ \<Rightarrow> [])
                      | Inl _ \<Rightarrow> []))
           else ok []))"

fun walk_dir :: "env \<Rightarrow> FilesystemStorage \<Rightarrow> string \<Rightarrow> string \<Rightarrow> path \<Rightarrow> node \<Rightarrow> (StorageError, ObjectMeta list) act"
  and walk_entries ::
    "env \<Rightarrow> FilesystemStorage \<Rightarrow> string \<Rightarrow> string \<Rightarrow> path \<Rightarrow> (string \<times> node) list \<Rightarrow> (StorageError, ObjectMeta list) act" where
  "walk_dir E st bucket pref rel (File b) = if_opened (open_dir (File b)) [] (\<lambda>_. ok [])"
| "walk_dir E st bucket pref rel (Dir es) = if_opened (open_dir (Dir es)) [] (\<lambda>_. walk_entries E st bucket pref rel es)"
| "walk_entries E st bucket pref rel [] = ok []"
| "walk_entries E st bucket pref rel ((fname, n) # es) =
     bind_act
       (if is_skipped fname then ok []
        else (case n of
                Dir sub \<Rightarrow>
                  if ends_with fname ''.ec''
                  then object_entry E st bucket pref
                         (case strip_suffix (rel_key (rel @ [fname])) ''.ec'' of Some k \<Rightarrow> k | None \<Rightarrow> rel_key (rel @ [fname]))
                  else bind_act (folder_entry E st bucket pref (rel @ [fname])) (\<lambda>marker.
                       bind_act (walk_dir E st bucket pref (rel @ [fname]) n) (\<lambda>below. ok (marker @ below)))
              | File _ \<Rightarrow> object_entry E st bucket pref (rel_key (rel @ [fname]))))
       (\<lambda>found. bind_act (walk_entries E st bucket pref rel es) (\<lambda>rest. ok (found @ rest)))"

definition list_objects_walk :: "env \<Rightarrow> FilesystemStorage \<Rightarrow> string \<Rightarrow> string \<Rightarrow> (StorageError, ObjectMeta list) act" where
  "list_objects_walk E st bucket pref =
     bind_act (lift_res (validate_bucket_name bucket)) (\<lambda>_.
     bind_act (if_opened (fs_read_dir (join_path (st_buckets_dir st) bucket)) [] (walk_entries E st bucket pref [])) (\<lambda>results.
       ok (sort_key om_key results)))"

definition list_objects :: "env \<Rightarrow> FilesystemStorage \<Rightarrow> string \<Rightarrow> string \<Rightarrow> (StorageError, ObjectMeta list) act" where
  "list_objects = list_objects_walk"

definition count_bucket_objects :: "env \<Rightarrow> FilesystemStorage \<Rightarrow> string \<Rightarrow> (StorageError, nat) act" where
  "count_bucket_objects E st bucket = bind_act (list_objects_walk E st bucket []) (\<lambda>ms. ok (length ms))"

text \<open>The records of the buckets whose file can be read.\<close>

definition bucket_entry :: "env \<Rightarrow> FilesystemStorage \<Rightarrow> string \<times> node \<Rightarrow> (StorageError, BucketMeta list) act" where
  "bucket_entry E st = (\<lambda>(fname, n).
     case n of
       File _ \<Rightarrow> ok []
     | Dir _ \<Rightarrow>
         bind_act (attempt (fs_read_to_string (st_buckets_dir st @ [fname, ''.bucket.json'']))) (\<lambda>r.
           ok (case r of
                 Inr data \<Rightarrow> (case from_json (e_bucket E) data of Inr meta \<Rightarrow> [meta] | Inl _ \<Rightarrow> [])
               | Inl _ \<Rightarrow> [])))"

fun collect :: "'a list \<Rightarrow> ('a \<Rightarrow> ('e, 'b list) act) \<Rightarrow> ('e, 'b list) act" where
  "collect [] f = ok []"
| "collect (x # xs) f = bind_act (f x) (\<lambda>ys. bind_act (collect xs f) (\<lambda>zs. ok (ys @ zs)))"

definition list_buckets :: "env \<Rightarrow> FilesystemStorage \<Rightarrow> (StorageError, BucketMeta list) act" where
  "list_buckets E st =
     bind_act (io (fs_read_dir (st_buckets_dir st))) (\<lambda>es.
     bind_act (collect es (bucket_entry E st)) (\<lambda>buckets. ok (sort_key bm_name buckets)))"

fun sum_counts :: "env \<Rightarrow> FilesystemStorage \<Rightarrow> nat \<Rightarrow> BucketMeta list \<Rightarrow> (StorageError, nat) act" where
  "sum_counts E st acc [] = ok acc"
| "sum_counts E st acc (b # bs) =
     bind_act (count_bucket_objects E st (bm_name b)) (\<lambda>n. sum_counts E st (acc + n) bs)"

definition count_all_objects :: "env \<Rightarrow> FilesystemStorage \<Rightarrow> (StorageError, nat) act" where
  "count_all_objects E st = bind_act (list_buckets E st) (sum_counts E st 0)"

section \<open>Versions\<close>

text \<open>The version records in the directory of one key; what cannot be opened or read is left out.\<close>

definition key_versions ::
  "env \<Rightarrow> FilesystemStorage \<Rightarrow> string \<Rightarrow> string \<Rightarrow> path \<Rightarrow> string \<times> node \<Rightarrow> (StorageError, ObjectMeta list) act" where
  "key_versions E st bucket pref rel = (\<lambda>(key_name, n).
     case n of
       File _ \<Rightarrow> ok []
     | Dir ves \<Rightarrow>
         if \<not> starts_with (if rel = [] then key_name else rel_key rel @ ''/'' @ key_name) pref then ok []
         else bind_act (attempt (open_dir n)) (\<lambda>r.
           case r of
             Inl _ \<Rightarrow> ok []
           | Inr _ \<Rightarrow> collect ves (\<lambda>(vf, _).
               if ends_with vf ''.meta.json''
               then bind_act (attempt (fs_read_to_string
                      (join_path (st_buckets_dir st) bucket @ rel @ [''.versions'', key_name, vf]))) (\<lambda>r.
                      ok (case r of
                            Inr data \<Rightarrow> (case from_json (e_object E) data of Inr meta \<Rightarrow> [meta] | Inl _ \<Rightarrow> [])
                          | Inl _ \<Rightarrow> []))
               else ok [])))"

fun walk_versions :: "env \<Rightarrow> FilesystemStorage \<Rightarrow> string \<Rightarrow> string \<Rightarrow> path \<Rightarrow> node \<Rightarrow> (StorageError, ObjectMeta list) act"
  and walk_version_entries ::
    "env \<Rightarrow> FilesystemStorage \<Rightarrow> string \<Rightarrow> string \<Rightarrow> path \<Rightarrow> (string \<times> node) list \<Rightarrow> (StorageError, ObjectMeta list) act" where
  "walk_versions E st bucket pref rel (File b) = if_opened (open_dir (File b)) [] (\<lambda>_. ok [])"
| "walk_versions E st bucket pref rel (Dir es) =
     if_opened (open_dir (Dir es)) [] (\<lambda>_. walk_version_entries E st bucket pref rel es)"
| "walk_version_entries E st bucket pref rel [] = ok []"
| "walk_version_entries E st bucket pref rel ((fname, n) # es) =
     bind_act
       (case n of
          File _ \<Rightarrow> ok []
        | Dir key_dirs \<Rightarrow>
            if fname = ''.versions''
            then bind_act (attempt (open_dir n)) (\<lambda>r.
                   case r of Inl _ \<Rightarrow> ok [] | Inr _ \<Rightarrow> collect key_dirs (key_versions E st bucket pref rel))
            else if fname \<noteq> ''.uploads'' \<and> fname \<noteq> ''.bucket.json'' then walk_versions E st bucket pref (rel @ [fname]) n
            else ok [])
       (\<lambda>found. bind_act (walk_version_entries E st bucket pref rel es) (\<lambda>rest. ok (found @ rest)))"

text \<open>
  The order of the versions: by key, then by version id, newest first. Two stable sorts, the
  less significant one first, give the sort by both.
\<close>

definition version_key :: "ObjectMeta \<Rightarrow> string" where
  "version_key m = (case om_version_id m of Some v \<Rightarrow> v | None \<Rightarrow> [])"

fun insert_desc :: "ObjectMeta \<Rightarrow> ObjectMeta list \<Rightarrow> ObjectMeta list" where
  "insert_desc m [] = [m]"
| "insert_desc m (x # xs) = (if version_key x \<le> version_key m then m # x # xs else x # insert_desc m xs)"

definition sort_versions :: "ObjectMeta list \<Rightarrow> ObjectMeta list" where
  "sort_versions ms = sort_key om_key (foldr insert_desc ms [])"

definition list_object_versions :: "env \<Rightarrow> FilesystemStorage \<Rightarrow> string \<Rightarrow> string \<Rightarrow> (StorageError, ObjectMeta list) act" where
  "list_object_versions E st bucket pref =
     bind_act (lift_res (validate_bucket_name bucket)) (\<lambda>_.
     bind_act (if_opened (fs_read_dir (join_path (st_buckets_dir st) bucket)) [] (walk_version_entries E st bucket pref [])) (\<lambda>found.
     bind_act (list_objects E st bucket pref) (\<lambda>objects.
       ok (sort_versions (found @ filter (\<lambda>o'. om_version_id o' = None) objects)))))"

section \<open>What the walk visits\<close>

definition name_ok :: "string \<Rightarrow> bool" where
  "name_ok s \<longleftrightarrow> s \<noteq> [] \<and> s \<noteq> ''.'' \<and> s \<noteq> ''..'' \<and> CHR ''/'' \<notin> set s"

fun wf_names :: "node \<Rightarrow> bool" where
  "wf_names (File b) = True"
| "wf_names (Dir es) = (distinct (map fst es) \<and> (\<forall>(x, n) \<in> set es. name_ok x \<and> (\<forall>y. x = y @ ''.ec'' \<longrightarrow> name_ok y) \<and> wf_names n))"

text \<open>The objects and the directories below a directory, in the order of the walk.\<close>

fun dir_items :: "path \<Rightarrow> node \<Rightarrow> (bool \<times> path) list"
  and items :: "path \<Rightarrow> (string \<times> node) list \<Rightarrow> (bool \<times> path) list" where
  "dir_items rel (File b) = []"
| "dir_items rel (Dir es) = items rel es"
| "items rel [] = []"
| "items rel ((fname, n) # es) =
     (if is_skipped fname then []
      else (case n of
              Dir sub \<Rightarrow>
                if ends_with fname ''.ec'' then [(True, rel @ [take (length fname - 3) fname])]
                else (False, rel @ [fname]) # dir_items (rel @ [fname]) n
            | File _ \<Rightarrow> [(True, rel @ [fname])]))
     @ items rel es"

definition record_at :: "env \<Rightarrow> FilesystemStorage \<Rightarrow> string \<Rightarrow> world \<Rightarrow> bool \<times> path \<Rightarrow> ObjectMeta option" where
  "record_at E st b w = (\<lambda>(obj, p).
     if obj then (case fst (read_object_meta E st b (rel_key p) w) of Inr m \<Rightarrow> Some m | Inl _ \<Rightarrow> None)
     else (case read_at (join_path (st_buckets_dir st) b @ p @ [''.folder.meta.json'']) (w_root w) of
             Inr data \<Rightarrow> if utf8_valid data then (case from_json (e_object E) data of Inr m \<Rightarrow> Some m | Inl _ \<Rightarrow> None) else None
           | Inl _ \<Rightarrow> None))"

definition item_key :: "bool \<times> path \<Rightarrow> string" where
  "item_key = (\<lambda>(obj, p). if obj then rel_key p else rel_key p @ ''/'')"

definition item_records :: "env \<Rightarrow> FilesystemStorage \<Rightarrow> string \<Rightarrow> string \<Rightarrow> world \<Rightarrow> bool \<times> path \<Rightarrow> ObjectMeta list" where
  "item_records E st b pref w i =
     (if starts_with (item_key i) pref then (case record_at E st b w i of Some m \<Rightarrow> [m] | None \<Rightarrow> []) else [])"

lemma rel_key_snoc: "rel_key (rel @ [x @ y]) = rel_key (rel @ [x]) @ y"
proof (induction rel)
  case Nil
  then show ?case by (simp add: rel_key_def)
next
  case (Cons a rel)
  then show ?case by (cases rel) (simp_all add: rel_key_def)
qed

lemma read_object_meta_same: "w_faults w = [] \<Longrightarrow> snd (read_object_meta E st b k w) = w"
  by (auto simp: read_object_meta_def read_json_def or_not_found_def map_err_act_def fs_read_to_string_def query_quiet
      bind_act_def lift_res_def split: sum.splits)

lemma object_entry_calm:
  assumes "w_faults w = []"
  shows "object_entry E st b pref (rel_key p) w = (Inr (item_records E st b pref w (True, p)), w)"
proof -
  obtain r where "read_object_meta E st b (rel_key p) w = (r, w)"
    using read_object_meta_same [OF assms, of E st b "rel_key p"] by (metis prod.collapse)
  then show ?thesis
    by (auto simp: object_entry_def item_records_def item_key_def record_at_def bind_act_def attempt_def ok_def split: sum.splits)
qed

lemma folder_entry_calm:
  assumes "w_faults w = []"
  shows "folder_entry E st b pref p w = (Inr (item_records E st b pref w (False, p)), w)"
  using assms
  by (auto simp: folder_entry_def item_records_def item_key_def record_at_def bind_act_def attempt_def ok_def Let_def
      fs_try_exists_def fs_read_to_string_def read_at_def query_quiet split: sum.splits)

lemma walk_calm:
  assumes "w_faults w = []"
  shows "n = Dir es' \<Longrightarrow> walk_dir E st b pref rel n w = (Inr (concat (map (item_records E st b pref w) (dir_items rel n))), w)"
    and "walk_entries E st b pref rel es w = (Inr (concat (map (item_records E st b pref w) (items rel es))), w)"
proof (induction E st b pref rel n and E st b pref rel es arbitrary: es' and rule: walk_dir_walk_entries.induct)
  case (4 E st b pref rel fname n es)
  show ?case
  proof (cases n)
    case (File x)
    then show ?thesis using 4 assms object_entry_calm by (auto simp: bind_act_def ok_def)
  next
    case (Dir sub)
    show ?thesis
    proof (cases "ends_with fname ''.ec''")
      case True
      then obtain x where x: "fname = x @ ''.ec''" by (auto simp: ends_with_def suffix_def)
      then have "strip_suffix (rel_key (rel @ [fname])) ''.ec'' = Some (rel_key (rel @ [x]))"
        by (simp add: strip_suffix_Some rel_key_snoc)
      then show ?thesis using 4 Dir True x object_entry_calm [OF assms, of E st b pref "rel @ [x]"] by (auto simp: bind_act_def ok_def)
    next
      case False
      then show ?thesis using 4 Dir folder_entry_calm [OF assms, of E st b pref "rel @ [fname]"] by (auto simp: bind_act_def ok_def)
    qed
  qed
qed (auto simp: if_opened_def open_dir_def query_quiet assms bind_act_def attempt_def ok_def)

definition payload_in :: "node \<Rightarrow> path \<Rightarrow> bool" where
  "payload_in t p \<longleftrightarrow> p \<noteq> []
     \<and> ((\<exists>c. lookup p t = Some (File c)) \<and> \<not> is_skipped (last p) \<or> is_dir_at (butlast p @ [last p @ ''.ec'']) t)"

definition open_path :: "path \<Rightarrow> bool" where
  "open_path p \<longleftrightarrow> (\<forall>s \<in> set p. \<not> is_skipped s \<and> \<not> ends_with s ''.ec'')"

text \<open>The items of the walk: objects with a payload, and directories, on paths the walk enters.\<close>

definition visited :: "node \<Rightarrow> bool \<times> path \<Rightarrow> bool" where
  "visited t = (\<lambda>(obj, p).
     if obj then open_path (butlast p) \<and> payload_in t p else p \<noteq> [] \<and> open_path p \<and> is_dir_at p t)"

lemma ec_name: "take (length (x @ ''.ec'') - 3) (x @ ''.ec'') = x"
  by simp

lemma not_skipped_ec: "\<not> is_skipped (x @ ''.ec'')"
  by (auto simp: is_skipped_def ends_with_def suffix_def append_eq_append_conv2 append_eq_Cons_conv Cons_eq_append_conv)

lemma is_dir_iff: "is_dir_at p t \<longleftrightarrow> (\<exists>es. lookup p t = Some (Dir es))"
  by (auto simp: is_dir_at_def split: option.splits node.splits)

lemma lookup_Dir_Cons: "lookup (x # p) (Dir es) = Some n \<longleftrightarrow> (\<exists>m. map_of es x = Some m \<and> lookup p m = Some n)"
  by (simp add: lookup_Cons split: option.split)

lemma lookup_File: "p \<noteq> [] \<Longrightarrow> lookup p (File c) = None"
  by (cases p) (simp_all add: lookup_Cons)

lemma visited_nonempty: "visited t (obj, p) \<Longrightarrow> p \<noteq> []"
  by (cases obj) (auto simp: visited_def payload_in_def)

lemma visited_file [simp]: "\<not> visited (File c) (obj, p)"
  by (cases obj) (auto simp: visited_def payload_in_def is_dir_iff lookup_File)

lemma visited_below:
  assumes "p \<noteq> []"
  shows "visited (Dir es) (obj, x # p) \<longleftrightarrow>
    \<not> is_skipped x \<and> \<not> ends_with x ''.ec'' \<and> (\<exists>n. map_of es x = Some n \<and> visited n (obj, p))"
  using assms
  by (cases obj) (auto simp: visited_def open_path_def payload_in_def is_dir_iff lookup_Dir_Cons)

lemma visited_here:
  "visited (Dir es) (True, [x]) \<longleftrightarrow> (\<exists>c. map_of es x = Some (File c)) \<and> \<not> is_skipped x \<or> (\<exists>sub. map_of es (x @ ''.ec'') = Some (Dir sub))"
  "visited (Dir es) (False, [x]) \<longleftrightarrow> \<not> is_skipped x \<and> \<not> ends_with x ''.ec'' \<and> (\<exists>sub. map_of es x = Some (Dir sub))"
  by (auto simp: visited_def open_path_def payload_in_def is_dir_iff lookup_Dir_Cons)

lemma visited_single:
  "visited (Dir [(x, n)]) (obj, p) \<longleftrightarrow>
     obj \<and> p = [x] \<and> \<not> is_skipped x \<and> (\<exists>c. n = File c)
     \<or> obj \<and> (\<exists>y sub. p = [y] \<and> x = y @ ''.ec'' \<and> n = Dir sub)
     \<or> \<not> obj \<and> p = [x] \<and> \<not> is_skipped x \<and> \<not> ends_with x ''.ec'' \<and> (\<exists>sub. n = Dir sub)
     \<or> (\<exists>q. q \<noteq> [] \<and> p = x # q \<and> \<not> is_skipped x \<and> \<not> ends_with x ''.ec'' \<and> visited n (obj, q))"
proof (cases p)
  case Nil
  then show ?thesis using visited_nonempty by blast
next
  case (Cons y q)
  show ?thesis
  proof (cases "q = []")
    case True
    then show ?thesis by (cases obj) (auto simp: Cons visited_here)
  next
    case False
    then show ?thesis by (auto simp: Cons visited_below)
  qed
qed

text \<open>The items of one entry.\<close>

abbreviation entry_items :: "path \<Rightarrow> string \<Rightarrow> node \<Rightarrow> (bool \<times> path) list" where
  "entry_items rel x n \<equiv> items rel [(x, n)]"

lemma visited_Cons:
  assumes "x \<notin> fst ` set es"
  shows "visited (Dir ((x, n) # es)) (obj, p) \<longleftrightarrow> visited (Dir [(x, n)]) (obj, p) \<or> visited (Dir es) (obj, p)"
proof -
  have none: "map_of es x = None" using assms by (simp add: map_of_eq_None_iff)
  show ?thesis
  proof (cases p)
    case Nil
    then show ?thesis using visited_nonempty by blast
  next
    case (Cons y q)
    show ?thesis
    proof (cases "q = []")
      case True
      then show ?thesis using none by (cases obj) (auto simp: Cons visited_here)
    next
      case False
      then show ?thesis using none by (auto simp: Cons visited_below)
    qed
  qed
qed

lemma items_visited:
  "wf_names n \<Longrightarrow> i \<in> set (dir_items rel n) \<longleftrightarrow> (\<exists>p. snd i = rel @ p \<and> visited n (fst i, p))"
  "wf_names (Dir es) \<Longrightarrow> i \<in> set (items rel es) \<longleftrightarrow> (\<exists>p. snd i = rel @ p \<and> visited (Dir es) (fst i, p))"
proof (induction rel n and rel es rule: dir_items_items.induct)
  case (1 rel b)
  then show ?case by simp
next
  case (3 rel)
  have "\<not> visited (Dir []) (obj, p)" for obj p by (cases obj) (auto simp: visited_def payload_in_def is_dir_iff lookup_Cons neq_Nil_conv split: if_splits)
  then show ?case by simp
next
  case (4 rel x n es)
  have d: "x \<notin> fst ` set es" and wf: "wf_names (Dir es)" "wf_names n" using "4.prems" by auto
  have "i \<in> set (entry_items rel x n) \<longleftrightarrow> (\<exists>p. snd i = rel @ p \<and> visited (Dir [(x, n)]) (fst i, p))"
  proof (cases n)
    case (File c)
    then show ?thesis by (cases i) (auto simp: visited_single)
  next
    case (Dir sub)
    show ?thesis
    proof (cases "is_skipped x \<or> ends_with x ''.ec''")
      case True
      then show ?thesis using Dir not_skipped_ec by (cases i) (auto simp: visited_single ends_with_def suffix_def)
    next
      case False
      then have "i \<in> set (dir_items (rel @ [x]) n) \<longleftrightarrow> (\<exists>p. snd i = (rel @ [x]) @ p \<and> visited n (fst i, p))"
        using "4.IH" wf Dir by simp
      then show ?thesis using Dir False visited_nonempty by (cases i) (auto simp: visited_single ends_with_def suffix_def)
    qed
  qed
  moreover have "i \<in> set (items rel es) \<longleftrightarrow> (\<exists>p. snd i = rel @ p \<and> visited (Dir es) (fst i, p))"
    using "4.IH" wf by simp
  moreover have "i \<in> set (items rel ((x, n) # es)) \<longleftrightarrow> i \<in> set (entry_items rel x n) \<or> i \<in> set (items rel es)" by simp
  ultimately show ?case unfolding visited_Cons [OF d] by blast
qed auto

text \<open>No key has both a payload file and a chunk directory.\<close>

definition single_payloads :: "node \<Rightarrow> bool" where
  "single_payloads t \<longleftrightarrow> (\<forall>p c. p \<noteq> [] \<longrightarrow> lookup p t = Some (File c) \<longrightarrow> \<not> is_dir_at (butlast p @ [last p @ ''.ec'']) t)"

lemma single_payloads_below:
  assumes "single_payloads (Dir es)" "map_of es x = Some n"
  shows "single_payloads n"
  unfolding single_payloads_def
proof (intro allI impI)
  fix p c assume p: "p \<noteq> []" "lookup p n = Some (File c)"
  then have "lookup (x # p) (Dir es) = Some (File c)" using assms(2) by (simp add: lookup_Dir_Cons)
  with assms(1) p(1) have "\<not> is_dir_at (x # butlast p @ [last p @ ''.ec'']) (Dir es)" unfolding single_payloads_def
    by (metis append_Cons butlast.simps(2) last.simps list.distinct(1))
  then show "\<not> is_dir_at (butlast p @ [last p @ ''.ec'']) n" using assms(2) by (auto simp: is_dir_iff lookup_Dir_Cons)
qed

lemma items_distinct:
  "wf_names n \<Longrightarrow> single_payloads n \<Longrightarrow> distinct (dir_items rel n)"
  "wf_names (Dir es) \<Longrightarrow> single_payloads (Dir es) \<Longrightarrow> distinct (items rel es)"
proof (induction rel n and rel es rule: dir_items_items.induct)
  case (4 rel x n es)
  have d: "x \<notin> fst ` set es" and wf: "wf_names (Dir es)" "wf_names n" "wf_names (Dir [(x, n)])" using "4.prems"(1) by auto
  then have none: "map_of es x = None" by (simp add: map_of_eq_None_iff)
  have ext: "lookup p (Dir ((x, n) # es)) = Some m" if "lookup p (Dir es) = Some m" "p \<noteq> []" for p m
    using that none by (cases p) (auto simp: lookup_Dir_Cons)
  have "is_dir_at p (Dir ((x, n) # es))" if "is_dir_at p (Dir es)" "p \<noteq> []" for p
    using that ext by (auto simp: is_dir_iff)
  then have sp: "single_payloads n" "single_payloads (Dir es)"
    using "4.prems"(2) single_payloads_below [of "(x, n) # es" x n] ext by (auto simp: single_payloads_def)
  have e: "distinct (entry_items rel x n)"
    using "4.IH"(1) wf(2) sp(1) items_visited(1) [OF wf(2), of "(False, rel @ [x])" "rel @ [x]"] visited_nonempty
    by (cases n) auto
  moreover have "distinct (items rel es)" using "4.IH"(2) wf(1) sp(2) by simp
  moreover have "set (entry_items rel x n) \<inter> set (items rel es) = {}"
  proof -
    have "\<not> (visited (Dir [(x, n)]) (obj, p) \<and> visited (Dir es) (obj, p))" for obj p
    proof
      assume v: "visited (Dir [(x, n)]) (obj, p) \<and> visited (Dir es) (obj, p)"
      then have "(\<exists>c. p = [x] \<and> n = File c \<and> obj) \<or> (\<exists>y sub. p = [y] \<and> x = y @ ''.ec'' \<and> n = Dir sub \<and> obj)"
        using none unfolding visited_single by (auto simp: visited_here visited_below)
      with v none "4.prems"(2) show False
        unfolding single_payloads_def
        by (auto simp: visited_here is_dir_iff lookup_Dir_Cons dest!: spec [of _ p])
    qed
    then show ?thesis using items_visited(2) [OF wf(3)] items_visited(2) [OF wf(1)] by fastforce
  qed
  ultimately show ?case by simp
qed auto

section \<open>Keys and paths\<close>

lemma split_join: "p \<noteq> [] \<Longrightarrow> \<forall>s \<in> set p. CHR ''/'' \<notin> set s \<Longrightarrow> split_on CHR ''/'' (rel_key p) = p"
  unfolding rel_key_def by (rule split_on_join)

lemma visited_names:
  assumes "wf_names t" "visited t (obj, p)"
  shows "\<forall>s \<in> set p. name_ok s"
  using assms
proof (induction p arbitrary: t)
  case (Cons x p)
  obtain es where t: "t = Dir es" using Cons.prems(2) by (cases t) auto
  show ?case
  proof (cases "p = []")
    case True
    then show ?thesis using Cons.prems unfolding t
      by (cases obj) (auto simp: visited_here dest!: map_of_SomeD)
  next
    case False
    then obtain n where "map_of es x = Some n" "visited n (obj, p)" using Cons.prems(2) t visited_below by blast
    then show ?thesis using Cons.IH [of n] Cons.prems(1) t by (auto dest!: map_of_SomeD)
  qed
qed simp

lemma item_key_inj:
  assumes "wf_names t" "visited t i" "visited t j" "item_key i = item_key j"
  shows "i = j"
proof -
  obtain a p where i: "i = (a, p)" by (cases i)
  obtain a' p' where j: "j = (a', p')" by (cases j)
  have p: "p \<noteq> []" "\<forall>s \<in> set p. CHR ''/'' \<notin> set s" "[] \<notin> set p"
    using visited_nonempty [of t a p] visited_names [OF assms(1), of a p] assms(2) i by (auto simp: name_ok_def)
  have p': "p' \<noteq> []" "\<forall>s \<in> set p'. CHR ''/'' \<notin> set s" "[] \<notin> set p'"
    using visited_nonempty [of t a' p'] visited_names [OF assms(1), of a' p'] assms(3) j by (auto simp: name_ok_def)
  have "split_on CHR ''/'' (item_key i) = p @ (if a then [] else [[]])"
    using p split_join by (auto simp: item_key_def i split_on_append)
  moreover have "split_on CHR ''/'' (item_key j) = p' @ (if a' then [] else [[]])"
    using p' split_join by (auto simp: item_key_def j split_on_append)
  ultimately have eq: "p @ (if a then [] else [[]]) = p' @ (if a' then [] else [[]])" using assms(4) by simp
  have "a = a'"
  proof (rule ccontr)
    assume "a \<noteq> a'"
    then have "p = p' @ [[]] \<or> p' = p @ [[]]" using eq by (cases a) auto
    then show False using p(3) p'(3) by auto
  qed
  with eq show ?thesis by (simp add: i j)
qed

section \<open>The listing\<close>

text \<open>
  A bucket in which every record found by the walk carries its own key and no key has two
  payloads.
\<close>

definition tidy_bucket :: "env \<Rightarrow> FilesystemStorage \<Rightarrow> string \<Rightarrow> (string \<times> node) list \<Rightarrow> world \<Rightarrow> bool" where
  "tidy_bucket E st b es w \<longleftrightarrow>
     w_faults w = [] \<and> store_ok st (w_root w) \<and> is_valid_bucket_name b
     \<and> lookup (st_buckets_dir st @ [b]) (w_root w) = Some (Dir es) \<and> wf_names (Dir es) \<and> single_payloads (Dir es)
     \<and> (\<forall>i m. visited (Dir es) i \<and> record_at E st b w i = Some m \<longrightarrow> om_key m = item_key i)"

lemma item_records_map:
  assumes "\<And>m. record_at E st b w i = Some m \<Longrightarrow> om_key m = item_key i"
  shows "map om_key (item_records E st b pref w i) =
    (if starts_with (item_key i) pref \<and> record_at E st b w i \<noteq> None then [item_key i] else [])"
  using assms by (auto simp: item_records_def split: option.splits)

lemma item_records_simps:
  "record_at E st b w i = None \<Longrightarrow> item_records E st b pref w i = []"
  "record_at E st b w i = Some m \<Longrightarrow> item_records E st b pref w i = (if starts_with (item_key i) pref then [m] else [])"
  by (simp_all add: item_records_def)

lemma item_records_in:
  assumes "\<And>m. record_at E st b w i = Some m \<Longrightarrow> om_key m = item_key i"
  shows "m \<in> set (item_records E st b pref w i) \<longleftrightarrow> starts_with (om_key m) pref \<and> record_at E st b w i = Some m"
proof (cases "record_at E st b w i")
  case None
  then show ?thesis by (simp add: item_records_simps)
next
  case (Some m')
  then have "m \<in> set (item_records E st b pref w i) \<longleftrightarrow> m = m' \<and> starts_with (item_key i) pref"
    by (simp add: item_records_simps)
  then show ?thesis using assms Some by (metis option.inject)
qed

lemma list_objects_tidy:
  assumes "tidy_bucket E st b es w"
  shows "\<exists>ms. list_objects E st b pref w = (Inr ms, w) \<and> sorted_wrt (<) (map om_key ms)
    \<and> (\<forall>m. m \<in> set ms \<longleftrightarrow> starts_with (om_key m) pref \<and> (\<exists>i. visited (Dir es) i \<and> record_at E st b w i = Some m))"
proof -
  note t = assms [unfolded tidy_bucket_def]
  let ?found = "concat (map (item_records E st b pref w) (items [] es))"
  have "plain (st_buckets_dir st @ [b])" using t valid_bucket_plain [of b] by (auto simp: store_ok_def)
  moreover have "resolve (st_buckets_dir st @ [b]) (w_root w) = Inr (Dir es)" using t resolve_lookup by blast
  ultimately have dir: "fs_read_dir (join_path (st_buckets_dir st) b) w = (Inr es, w)"
    using t join_bucket [of b] by (simp add: fs_read_dir_def query_quiet stat_at_plain)
  have run: "list_objects E st b pref w = (Inr (sort_key om_key ?found), w)"
    using t dir walk_calm(2) [of w E st b pref "[]" es]
    by (simp add: list_objects_def list_objects_walk_def bind_act_def lift_res_def validate_bucket_name_def if_opened_def attempt_def ok_def)
  have vis: "i \<in> set (items [] es) \<longleftrightarrow> visited (Dir es) i" for i
    using items_visited(2) [of es i "[]"] t by (cases i) simp
  have own: "\<And>i m. visited (Dir es) i \<Longrightarrow> record_at E st b w i = Some m \<Longrightarrow> om_key m = item_key i"
    using t by blast
  have keys: "map om_key ?found =
      map item_key (filter (\<lambda>i. starts_with (item_key i) pref \<and> record_at E st b w i \<noteq> None) (items [] es))"
  proof -
    have "map om_key (concat (map (item_records E st b pref w) is)) =
      map item_key (filter (\<lambda>i. starts_with (item_key i) pref \<and> record_at E st b w i \<noteq> None) is)"
      if "\<forall>i \<in> set is. visited (Dir es) i" for "is"
      using that
    proof (induction "is")
      case (Cons i js)
      then show ?case using item_records_map [of E st b w i pref] own [of i] by simp
    qed simp
    then show ?thesis using vis by blast
  qed
  have "inj_on item_key (set (items [] es))" unfolding inj_on_def using item_key_inj [of "Dir es"] t vis by blast
  then have "distinct (map om_key ?found)"
    unfolding keys using items_distinct(2) [of es "[]"] t by (auto simp: distinct_map intro: inj_on_subset)
  then have "sorted_wrt (<) (map om_key (sort_key om_key ?found))"
    by (auto simp: strict_sorted_iff distinct_map)
  moreover have "m \<in> set ?found \<longleftrightarrow> starts_with (om_key m) pref \<and> (\<exists>i. visited (Dir es) i \<and> record_at E st b w i = Some m)" for m
  proof -
    have "m \<in> set (item_records E st b pref w i) \<longleftrightarrow> starts_with (om_key m) pref \<and> record_at E st b w i = Some m"
      if "visited (Dir es) i" for i
      using item_records_in own [OF that] by blast
    then have "(\<exists>i \<in> set (items [] es). m \<in> set (item_records E st b pref w i)) \<longleftrightarrow>
        starts_with (om_key m) pref \<and> (\<exists>i. visited (Dir es) i \<and> record_at E st b w i = Some m)"
      using vis by blast
    then show ?thesis by simp
  qed
  ultimately show ?thesis using run by auto
qed

text \<open>
  C4. A listing is exact. In a bucket where every record carries its own key and no key has two
  payloads, \<open>list_objects\<close> returns, sorted by key without duplicates, exactly the records
  with the prefix that belong to a payload file, a chunk directory or a folder marker on a path
  without internal names, and \<open>count_bucket_objects\<close> their number.
\<close>

theorem list_objects_exact:
  assumes "tidy_bucket E st b es w"
  shows "\<exists>ms. list_objects E st b pref w = (Inr ms, w) \<and> sorted_wrt (<) (map om_key ms)
    \<and> (\<forall>m. m \<in> set ms \<longleftrightarrow> starts_with (om_key m) pref \<and> (\<exists>i. visited (Dir es) i \<and> record_at E st b w i = Some m))
    \<and> (pref = [] \<longrightarrow> count_bucket_objects E st b w = (Inr (length ms), w))"
proof -
  obtain ms where "list_objects E st b pref w = (Inr ms, w)" "sorted_wrt (<) (map om_key ms)"
    "\<forall>m. m \<in> set ms \<longleftrightarrow> starts_with (om_key m) pref \<and> (\<exists>i. visited (Dir es) i \<and> record_at E st b w i = Some m)"
    using list_objects_tidy [OF assms] by blast
  then show ?thesis by (auto simp: count_bucket_objects_def list_objects_def bind_act_def ok_def)
qed

definition toy_listing :: "(string \<times> node) list" where
  "toy_listing = [(''b'', Dir [(''c'', File [1]), (''c.meta.json'', File (fst toy_json (toy_record ''b/c'')))]),
     (''a'', File [1]), (''a.meta.json'', File (fst toy_json (toy_record ''a'')))]"

lemma toy_key_bc: "good_key ''photos'' ''b/c''"
  by (simp add: good_key_def toy_valid) code_simp

lemma toy_items: "items [] ((''.bucket.json'', File x) # toy_listing) = [(False, [''b'']), (True, [''b'', ''c'']), (True, [''a''])]"
  by (simp add: toy_listing_def is_skipped_def ends_with_def suffix_def append_eq_Cons_conv Cons_eq_append_conv)

lemma toy_with_store [simp]: "store_ok toy_storage (w_root (toy_with es))" "w_faults (toy_with es) = []"
  by (simp_all add: store_ok_def toy_with_def is_dir_at_def lookup_Cons)

lemma toy_records:
  "record_at toy_env toy_storage ''photos'' (toy_with toy_listing) (True, [''b'', ''c'']) = Some (toy_record ''b/c'')"
  "record_at toy_env toy_storage ''photos'' (toy_with toy_listing) (True, [''a'']) = Some (toy_record ''a'')"
  "record_at toy_env toy_storage ''photos'' (toy_with toy_listing) (False, [''b'']) = None"
proof -
  let ?w = "toy_with toy_listing"
  have "key_dir [''buckets''] ''photos'' ''b/c'' = [''buckets'', ''photos'', ''b'']" "base_name ''b/c'' = ''c''"
    by (simp_all add: key_dir_def) code_simp+
  then have "read_object_meta toy_env toy_storage ''photos'' ''b/c'' ?w = (Inr (toy_record ''b/c''), ?w)"
    by (intro read_object_meta_calm toy_key_bc) (simp_all add: toy_json_law, simp_all add: toy_with_def toy_listing_def lookup_Cons)
  moreover have "read_object_meta toy_env toy_storage ''photos'' ''a'' ?w = (Inr (toy_record ''a''), ?w)"
    by (intro read_object_meta_calm toy_key(2)) (simp_all add: toy_json_law, simp_all add: toy_with_def toy_listing_def lookup_Cons toy_dirs)
  ultimately show "record_at toy_env toy_storage ''photos'' ?w (True, [''b'', ''c'']) = Some (toy_record ''b/c'')"
    "record_at toy_env toy_storage ''photos'' ?w (True, [''a'']) = Some (toy_record ''a'')"
    by (simp_all add: record_at_def rel_key_def)
  show "record_at toy_env toy_storage ''photos'' ?w (False, [''b'']) = None"
    by (simp add: record_at_def join_bucket [OF toy_valid] read_at_def stat_at_plain toy_with_def toy_listing_def)
qed

lemma toy_tidy:
  "tidy_bucket toy_env toy_storage ''photos'' ((''.bucket.json'', File (fst toy_json toy_bucket)) # toy_listing) (toy_with toy_listing)"
proof -
  let ?es = "(''.bucket.json'', File (fst toy_json toy_bucket)) # toy_listing"
  have wf: "wf_names (Dir ?es)"
    by (simp add: toy_listing_def name_ok_def)
  have "\<not> is_dir_at (q @ [x @ ''.ec'']) (Dir ?es)" for q x
    by (cases q; cases "tl q")
       (auto simp: is_dir_iff lookup_Cons toy_listing_def append_eq_Cons_conv Cons_eq_append_conv lookup_File split: option.splits node.splits if_splits)
  then have "single_payloads (Dir ?es)" by (simp add: single_payloads_def)
  moreover have "om_key m = item_key i"
    if "visited (Dir ?es) i" "record_at toy_env toy_storage ''photos'' (toy_with toy_listing) i = Some m" for i m
  proof -
    have "i \<in> set (items [] ?es)" using items_visited(2) [OF wf, of i "[]"] that(1) by (cases i) simp
    then show ?thesis unfolding toy_items
      using that(2) toy_records by (auto simp: toy_record_def plain_object_meta_def item_key_def rel_key_def)
  qed
  moreover have "lookup [''buckets'', ''photos''] (w_root (toy_with toy_listing)) = Some (Dir ?es)" by (simp add: toy_with_def lookup_Cons)
  ultimately show ?thesis using wf toy_valid unfolding tidy_bucket_def by simp
qed

theorem list_objects_exact_witness:
  "\<exists>ms. list_objects toy_env toy_storage ''photos'' ''b'' (toy_with toy_listing) = (Inr ms, toy_with toy_listing)
    \<and> toy_record ''b/c'' \<in> set ms"
proof -
  have "visited (Dir ((''.bucket.json'', File (fst toy_json toy_bucket)) # toy_listing)) (True, [''b'', ''c''])"
    using items_visited(2) [of "(''.bucket.json'', File (fst toy_json toy_bucket)) # toy_listing" "(True, [''b'', ''c''])" "[]"]
      toy_tidy unfolding tidy_bucket_def toy_items by simp
  moreover have "starts_with (om_key (toy_record ''b/c'')) ''b''"
    by (simp add: toy_record_def plain_object_meta_def starts_with_def)
  ultimately show ?thesis using list_objects_exact [OF toy_tidy, of "''b''"] toy_records(1) by metis
qed

end
