(* ===== verification/S3Errors.thy ===== *)
theory S3Errors
  imports Quota
begin

text \<open>
  The S3 error values of the server (\<open>error.rs\<close>): codes, their XML names and HTTP status,
  the constructors and the mapping of storage errors. Constructors whose name is also a
  storage error carry the prefix \<open>S3\<close>.
\<close>

datatype S3ErrorCode =
    AccessDenied
  | BadDigest
  | BucketAlreadyOwnedByYou
  | S3BucketNotEmpty
  | InternalError
  | InvalidAccessKeyId
  | InvalidArgument
  | InvalidBucketName
  | InvalidPart
  | MalformedXML
  | NoSuchBucket
  | NoSuchKey
  | NoSuchUpload
  | NoSuchVersion
  | InvalidRange
  | NotImplemented
  | EntityTooSmall
  | EntityTooLarge
  | S3InsufficientStorage
  | ExpiredPresignedUrl
  | NoSuchCORSConfiguration
  | NoSuchLifecycleConfiguration
  | NoSuchBucketPolicy
  | MalformedPolicy
  | PreconditionFailed
  | SignatureDoesNotMatch
  | InvalidEncryptionAlgorithm
  | ServerSideEncryptionConfigurationNotFound
  | SlowDown

record S3Error =
  se_code :: S3ErrorCode
  se_message :: string
  se_resource :: "string option"
  se_retry_after_secs :: "nat option"

fun as_str :: "S3ErrorCode \<Rightarrow> string" where
  "as_str AccessDenied = ''AccessDenied''"
| "as_str BadDigest = ''BadDigest''"
| "as_str BucketAlreadyOwnedByYou = ''BucketAlreadyOwnedByYou''"
| "as_str S3BucketNotEmpty = ''BucketNotEmpty''"
| "as_str InternalError = ''InternalError''"
| "as_str InvalidAccessKeyId = ''InvalidAccessKeyId''"
| "as_str InvalidArgument = ''InvalidArgument''"
| "as_str InvalidBucketName = ''InvalidBucketName''"
| "as_str InvalidPart = ''InvalidPart''"
| "as_str MalformedXML = ''MalformedXML''"
| "as_str NoSuchBucket = ''NoSuchBucket''"
| "as_str NoSuchKey = ''NoSuchKey''"
| "as_str NoSuchUpload = ''NoSuchUpload''"
| "as_str NoSuchVersion = ''NoSuchVersion''"
| "as_str InvalidRange = ''InvalidRange''"
| "as_str NotImplemented = ''NotImplemented''"
| "as_str EntityTooSmall = ''EntityTooSmall''"
| "as_str EntityTooLarge = ''EntityTooLarge''"
| "as_str S3InsufficientStorage = ''InsufficientStorage''"
| "as_str ExpiredPresignedUrl = ''AccessDenied''"
| "as_str NoSuchCORSConfiguration = ''NoSuchCORSConfiguration''"
| "as_str NoSuchLifecycleConfiguration = ''NoSuchLifecycleConfiguration''"
| "as_str NoSuchBucketPolicy = ''NoSuchBucketPolicy''"
| "as_str MalformedPolicy = ''MalformedPolicy''"
| "as_str PreconditionFailed = ''PreconditionFailed''"
| "as_str SignatureDoesNotMatch = ''SignatureDoesNotMatch''"
| "as_str InvalidEncryptionAlgorithm = ''InvalidEncryptionAlgorithmError''"
| "as_str ServerSideEncryptionConfigurationNotFound = ''ServerSideEncryptionConfigurationNotFoundError''"
| "as_str SlowDown = ''SlowDown''"

fun status_code :: "S3ErrorCode \<Rightarrow> nat" where
  "status_code AccessDenied = 403"
| "status_code BucketAlreadyOwnedByYou = 409"
| "status_code S3BucketNotEmpty = 409"
| "status_code InternalError = 500"
| "status_code InvalidAccessKeyId = 403"
| "status_code NoSuchBucket = 404"
| "status_code NoSuchKey = 404"
| "status_code NoSuchUpload = 404"
| "status_code NoSuchVersion = 404"
| "status_code InvalidRange = 416"
| "status_code NotImplemented = 501"
| "status_code S3InsufficientStorage = 507"
| "status_code ExpiredPresignedUrl = 403"
| "status_code NoSuchCORSConfiguration = 404"
| "status_code NoSuchLifecycleConfiguration = 404"
| "status_code NoSuchBucketPolicy = 404"
| "status_code PreconditionFailed = 412"
| "status_code SignatureDoesNotMatch = 403"
| "status_code ServerSideEncryptionConfigurationNotFound = 404"
| "status_code SlowDown = 429"
| "status_code _ = 400"

section \<open>Constructors\<close>

definition internal_error :: "S3Error" where
  "internal_error = \<lparr>se_code = InternalError, se_message = ''We encountered an internal error. Please try again.'', se_resource = None, se_retry_after_secs = None\<rparr>"

definition no_such_bucket :: "string \<Rightarrow> S3Error" where
  "no_such_bucket bucket = \<lparr>se_code = NoSuchBucket, se_message = ''The specified bucket does not exist: '' @ bucket, se_resource = Some (''/'' @ bucket), se_retry_after_secs = None\<rparr>"

definition no_such_key :: "string \<Rightarrow> S3Error" where
  "no_such_key key = \<lparr>se_code = NoSuchKey, se_message = ''The specified key does not exist.'', se_resource = Some key, se_retry_after_secs = None\<rparr>"

definition no_such_upload :: "string \<Rightarrow> S3Error" where
  "no_such_upload upload_id = \<lparr>se_code = NoSuchUpload, se_message = ''The specified multipart upload does not exist.'', se_resource = Some upload_id, se_retry_after_secs = None\<rparr>"

definition bucket_already_owned :: "string \<Rightarrow> S3Error" where
  "bucket_already_owned bucket = \<lparr>se_code = BucketAlreadyOwnedByYou, se_message = ''Your previous request to create the named bucket succeeded and you already own it: '' @ bucket, se_resource = Some (''/'' @ bucket), se_retry_after_secs = None\<rparr>"

definition bucket_not_empty :: "string \<Rightarrow> S3Error" where
  "bucket_not_empty bucket = \<lparr>se_code = S3BucketNotEmpty, se_message = ''The bucket you tried to delete is not empty.'', se_resource = Some (''/'' @ bucket), se_retry_after_secs = None\<rparr>"

definition invalid_bucket_name :: "string \<Rightarrow> S3Error" where
  "invalid_bucket_name name = \<lparr>se_code = InvalidBucketName, se_message = ''The specified bucket is not valid: '' @ name, se_resource = Some (''/'' @ name), se_retry_after_secs = None\<rparr>"

definition invalid_argument :: "string \<Rightarrow> S3Error" where
  "invalid_argument msg = \<lparr>se_code = InvalidArgument, se_message = msg, se_resource = None, se_retry_after_secs = None\<rparr>"

definition bad_digest :: "S3Error" where
  "bad_digest = \<lparr>se_code = BadDigest, se_message = ''The Content-MD5 you specified did not match what we received.'', se_resource = None, se_retry_after_secs = None\<rparr>"

definition bad_checksum :: "string \<Rightarrow> S3Error" where
  "bad_checksum algo = \<lparr>se_code = BadDigest, se_message = ''The '' @ algo @ '' checksum you specified did not match what we received.'', se_resource = None, se_retry_after_secs = None\<rparr>"

definition malformed_xml :: "S3Error" where
  "malformed_xml = \<lparr>se_code = MalformedXML, se_message = ''The XML you provided was not well-formed.'', se_resource = None, se_retry_after_secs = None\<rparr>"

definition invalid_part :: "string \<Rightarrow> S3Error" where
  "invalid_part msg = \<lparr>se_code = InvalidPart, se_message = msg, se_resource = None, se_retry_after_secs = None\<rparr>"

definition entity_too_small :: "S3Error" where
  "entity_too_small = \<lparr>se_code = EntityTooSmall, se_message = ''Your proposed upload is smaller than the minimum allowed object size.'', se_resource = None, se_retry_after_secs = None\<rparr>"

definition entity_too_large :: "nat \<Rightarrow> S3Error" where
  "entity_too_large m = \<lparr>se_code = EntityTooLarge, se_message = ''Your proposed upload exceeds the maximum allowed object size of '' @ show_nat m @ '' bytes.'', se_resource = None, se_retry_after_secs = None\<rparr>"

definition insufficient_storage :: "string \<Rightarrow> S3Error" where
  "insufficient_storage msg = \<lparr>se_code = S3InsufficientStorage, se_message = msg, se_resource = None, se_retry_after_secs = None\<rparr>"

definition expired_presigned_url :: "S3Error" where
  "expired_presigned_url = \<lparr>se_code = ExpiredPresignedUrl, se_message = ''Request has expired'', se_resource = None, se_retry_after_secs = None\<rparr>"

definition access_denied :: "string \<Rightarrow> S3Error" where
  "access_denied msg = \<lparr>se_code = AccessDenied, se_message = msg, se_resource = None, se_retry_after_secs = None\<rparr>"

definition signature_mismatch :: "S3Error" where
  "signature_mismatch = \<lparr>se_code = SignatureDoesNotMatch, se_message = ''The request signature we calculated does not match the signature you provided.'', se_resource = None, se_retry_after_secs = None\<rparr>"

definition invalid_access_key :: "S3Error" where
  "invalid_access_key = \<lparr>se_code = InvalidAccessKeyId, se_message = ''The AWS Access Key Id you provided does not exist in our records.'', se_resource = None, se_retry_after_secs = None\<rparr>"

definition no_such_version :: "string \<Rightarrow> S3Error" where
  "no_such_version version_id = \<lparr>se_code = NoSuchVersion, se_message = ''The specified version does not exist.'', se_resource = Some version_id, se_retry_after_secs = None\<rparr>"

definition invalid_range :: "S3Error" where
  "invalid_range = \<lparr>se_code = InvalidRange, se_message = ''The requested range is not satisfiable'', se_resource = None, se_retry_after_secs = None\<rparr>"

definition not_implemented :: "string \<Rightarrow> S3Error" where
  "not_implemented msg = \<lparr>se_code = NotImplemented, se_message = msg, se_resource = None, se_retry_after_secs = None\<rparr>"

definition no_such_cors_configuration :: "S3Error" where
  "no_such_cors_configuration = \<lparr>se_code = NoSuchCORSConfiguration, se_message = ''The CORS configuration does not exist'', se_resource = None, se_retry_after_secs = None\<rparr>"

definition no_such_lifecycle_configuration :: "S3Error" where
  "no_such_lifecycle_configuration = \<lparr>se_code = NoSuchLifecycleConfiguration, se_message = ''The lifecycle configuration does not exist'', se_resource = None, se_retry_after_secs = None\<rparr>"

definition no_such_bucket_policy :: "S3Error" where
  "no_such_bucket_policy = \<lparr>se_code = NoSuchBucketPolicy, se_message = ''The bucket policy does not exist'', se_resource = None, se_retry_after_secs = None\<rparr>"

definition malformed_policy :: "string \<Rightarrow> S3Error" where
  "malformed_policy msg = \<lparr>se_code = MalformedPolicy, se_message = msg, se_resource = None, se_retry_after_secs = None\<rparr>"

definition precondition_failed :: "S3Error" where
  "precondition_failed = \<lparr>se_code = PreconditionFailed, se_message = ''At least one of the pre-conditions you specified did not hold.'', se_resource = None, se_retry_after_secs = None\<rparr>"

definition invalid_encryption_algorithm :: "S3Error" where
  "invalid_encryption_algorithm = \<lparr>se_code = InvalidEncryptionAlgorithm, se_message = ''The encryption request you specified is not valid. Supported value: AES256.'', se_resource = None, se_retry_after_secs = None\<rparr>"

definition no_such_bucket_encryption :: "string \<Rightarrow> S3Error" where
  "no_such_bucket_encryption bucket = \<lparr>se_code = ServerSideEncryptionConfigurationNotFound, se_message = ''The server side encryption configuration was not found.'', se_resource = Some (''/'' @ bucket), se_retry_after_secs = None\<rparr>"

definition slow_down :: "nat \<Rightarrow> S3Error" where
  "slow_down retry_after_secs = \<lparr>se_code = SlowDown, se_message = ''Please reduce your request rate.'', se_resource = None, se_retry_after_secs = Some retry_after_secs\<rparr>"

section \<open>Storage errors\<close>

fun map_storage_object_error :: "StorageError \<Rightarrow> S3Error" where
  "map_storage_object_error (ObjectLocked msg) = access_denied msg"
| "map_storage_object_error (NotFound key) = no_such_key key"
| "map_storage_object_error (VersionNotFound i) = no_such_version i"
| "map_storage_object_error (InvalidKey msg) = invalid_argument msg"
| "map_storage_object_error _ = internal_error"

fun map_storage_upload_error :: "StorageError \<Rightarrow> S3Error" where
  "map_storage_upload_error (ObjectTooLarge m) = entity_too_large m"
| "map_storage_upload_error (InsufficientStorage msg) = insufficient_storage msg"
| "map_storage_upload_error (InvalidKey msg) = invalid_argument msg"
| "map_storage_upload_error (ChecksumMismatch _) = bad_checksum ''x-amz-checksum''"
| "map_storage_upload_error (EncryptionError msg) = invalid_argument msg"
| "map_storage_upload_error (IntegrityError msg) = invalid_argument msg"
| "map_storage_upload_error e = map_storage_object_error e"

end
