(* ===== verification/ListApi.thy ===== *)
theory ListApi
  imports Listing S3Errors
begin

text \<open>
  The listing requests of the server (\<open>api/list.rs\<close>): pages of \<open>list_objects_v2\<close> and
  \<open>list_objects_v1\<close>, grouping by a delimiter, and the version listing. A handler returns the
  value that is serialised as the XML body; the query parameters are a map.
\<close>

section \<open>The code\<close>

type_synonym params = "string \<Rightarrow> string option"

definition parse_i64 :: "string \<Rightarrow> int option" where
  "parse_i64 s =
     (case s of
        c # cs \<Rightarrow>
          if c = CHR ''-''
          then (if cs = [] then None else map_option (\<lambda>n. - int n) (parse_digits (2 ^ 63 + 1) 0 cs))
          else map_option int (parse_uint (2 ^ 63) s)
      | [] \<Rightarrow> None)"

definition parse_max_keys :: "params \<Rightarrow> S3Error + nat" where
  "parse_max_keys params =
     (case params ''max-keys'' of
        None \<Rightarrow> Inr 1000
      | Some raw \<Rightarrow>
          (case parse_i64 raw of
             None \<Rightarrow> Inl (invalid_argument ''Invalid value for max-keys'')
           | Some n \<Rightarrow> if n < 0 then Inl (invalid_argument ''Invalid value for max-keys'') else Inr (min (nat n) 1000)))"

record ObjectEntry =
  oe_key :: string
  oe_last_modified :: string
  oe_etag :: string
  oe_size :: nat
  oe_storage_class :: string

definition entry_of :: "ObjectMeta \<Rightarrow> ObjectEntry" where
  "entry_of m = \<lparr>oe_key = om_key m, oe_last_modified = om_last_modified m, oe_etag = om_etag m, oe_size = om_size m,
     oe_storage_class = ''STANDARD''\<rparr>"

text \<open>\<open>find\<close>: the first position at which the pattern starts.\<close>

fun find_str :: "string \<Rightarrow> string \<Rightarrow> nat option" where
  "find_str s p =
     (if prefix p s then Some 0
      else (case s of [] \<Rightarrow> None | _ # t \<Rightarrow> map_option Suc (find_str t p)))"

declare find_str.simps [simp del]

text \<open>The common prefix of a key, if it contains the delimiter after the prefix; \<open>None\<close> is the slice that panics.\<close>

definition common_prefix_of :: "string \<Rightarrow> string \<Rightarrow> string \<Rightarrow> string option option" where
  "common_prefix_of pref delim key =
     (if length key < length pref then None
      else (let rest = drop (length pref) key
            in Some (map_option (\<lambda>pos. pref @ take (pos + length delim) rest) (find_str rest delim))))"

fun split_page :: "string \<Rightarrow> string \<Rightarrow> ObjectMeta list \<Rightarrow> (ObjectEntry list \<times> string list) option" where
  "split_page pref delim [] = Some ([], [])"
| "split_page pref delim (m # ms) =
     (case common_prefix_of pref delim (om_key m) of
        None \<Rightarrow> None
      | Some c \<Rightarrow>
          (case split_page pref delim ms of
             None \<Rightarrow> None
           | Some (contents, cps) \<Rightarrow>
               Some (case c of Some common \<Rightarrow> (contents, common # cps) | None \<Rightarrow> (entry_of m # contents, cps))))"

definition split_by_delimiter :: "ObjectMeta list \<Rightarrow> string \<Rightarrow> string option \<Rightarrow> (ObjectEntry list \<times> string list) option" where
  "split_by_delimiter page pref delimiter =
     (case delimiter of
        Some delim \<Rightarrow> map_option (\<lambda>(contents, cps). (contents, sort (remdups cps))) (split_page pref delim page)
      | None \<Rightarrow> Some (map entry_of page, []))"

text \<open>The objects after the start key, cut to a page.\<close>

definition after_start :: "string option \<Rightarrow> ObjectMeta list \<Rightarrow> ObjectMeta list" where
  "after_start start objs = filter (\<lambda>m. case start of Some s \<Rightarrow> om_key m > s | None \<Rightarrow> True) objs"

record ListBucketResult =
  lb_name :: string
  lb_prefix :: string
  lb_key_count :: nat
  lb_max_keys :: nat
  lb_is_truncated :: bool
  lb_contents :: "ObjectEntry list"
  lb_common_prefixes :: "string list"
  lb_continuation_token :: "string option"
  lb_next_continuation_token :: "string option"
  lb_delimiter :: "string option"
  lb_start_after :: "string option"

definition from_utf8 :: "bytes \<Rightarrow> string option" where
  "from_utf8 b = (if utf8_valid b then Some (map (\<lambda>c. char_of (unat c)) b) else None)"

definition effective_start :: "env \<Rightarrow> params \<Rightarrow> string option" where
  "effective_start E params =
     (case Option.bind (params ''continuation-token'') (\<lambda>t. Option.bind (snd (e_b64 E) t) from_utf8) of
        Some s \<Rightarrow> Some s
      | None \<Rightarrow> params ''start-after'')"

definition or_default :: "string option \<Rightarrow> string" where
  "or_default s = (case s of Some x \<Rightarrow> x | None \<Rightarrow> [])"

definition list_objects_v2 :: "env \<Rightarrow> FilesystemStorage \<Rightarrow> string \<Rightarrow> params \<Rightarrow> (S3Error, ListBucketResult) pact" where
  "list_objects_v2 E st bucket params =
     (let pref = or_default (params ''prefix''); delimiter = params ''delimiter''
      in bind_p (total (lift_res (parse_max_keys params))) (\<lambda>max_keys.
         bind_p (total (map_err_act (\<lambda>_. internal_error) (list_objects E st bucket pref))) (\<lambda>all_objects.
         let filtered = after_start (effective_start E params) all_objects;
             is_truncated = length filtered > max_keys;
             page = take max_keys filtered
         in bind_p (lift_opt (map_option Inr (split_by_delimiter page pref delimiter))) (\<lambda>(contents, common_prefixes).
            total (ok \<lparr>lb_name = bucket, lb_prefix = pref, lb_key_count = length contents + length common_prefixes,
              lb_max_keys = max_keys, lb_is_truncated = is_truncated, lb_contents = contents,
              lb_common_prefixes = common_prefixes, lb_continuation_token = params ''continuation-token'',
              lb_next_continuation_token =
                (if is_truncated \<and> page \<noteq> [] then Some (fst (e_b64 E) (as_bytes (om_key (last page)))) else None),
              lb_delimiter = delimiter, lb_start_after = params ''start-after''\<rparr>)))))"

record ListBucketResultV1 =
  l1_name :: string
  l1_prefix :: string
  l1_marker :: string
  l1_next_marker :: "string option"
  l1_max_keys :: nat
  l1_is_truncated :: bool
  l1_contents :: "ObjectEntry list"
  l1_common_prefixes :: "string list"
  l1_delimiter :: "string option"

definition list_objects_v1 :: "env \<Rightarrow> FilesystemStorage \<Rightarrow> string \<Rightarrow> params \<Rightarrow> (S3Error, ListBucketResultV1) pact" where
  "list_objects_v1 E st bucket params =
     (let pref = or_default (params ''prefix''); delimiter = params ''delimiter''; marker = params ''marker''
      in bind_p (total (lift_res (parse_max_keys params))) (\<lambda>max_keys.
         bind_p (total (map_err_act (\<lambda>_. internal_error) (list_objects E st bucket pref))) (\<lambda>all_objects.
         let filtered = after_start marker all_objects;
             is_truncated = length filtered > max_keys;
             page = take max_keys filtered
         in bind_p (lift_opt (map_option Inr (split_by_delimiter page pref delimiter))) (\<lambda>(contents, common_prefixes).
            total (ok \<lparr>l1_name = bucket, l1_prefix = pref, l1_marker = or_default marker,
              l1_next_marker = (if is_truncated \<and> page \<noteq> [] then Some (om_key (last page)) else None),
              l1_max_keys = max_keys, l1_is_truncated = is_truncated, l1_contents = contents,
              l1_common_prefixes = common_prefixes, l1_delimiter = delimiter\<rparr>)))))"

record DeleteMarkerEntry =
  dm_key :: string
  dm_version_id :: string
  dm_is_latest :: bool
  dm_last_modified :: string

record VersionEntry =
  ve_key :: string
  ve_version_id :: string
  ve_is_latest :: bool
  ve_last_modified :: string
  ve_etag :: string
  ve_size :: nat

definition vid_of :: "ObjectMeta \<Rightarrow> string" where
  "vid_of m = (case om_version_id m of Some v \<Rightarrow> v | None \<Rightarrow> ''null'')"

text \<open>\<open>latest_per_key\<close>: the first entry of a key wins.\<close>

fun latest_per_key :: "ObjectMeta list \<Rightarrow> string \<Rightarrow> string option" where
  "latest_per_key [] k = None"
| "latest_per_key (v # vs) k = (if om_key v = k then Some (vid_of v) else latest_per_key vs k)"

definition list_object_versions_api ::
  "env \<Rightarrow> FilesystemStorage \<Rightarrow> string \<Rightarrow> params \<Rightarrow> (S3Error, VersionEntry list \<times> DeleteMarkerEntry list) act" where
  "list_object_versions_api E st bucket params =
     bind_act (map_err_act (\<lambda>_. internal_error) (list_object_versions E st bucket (or_default (params ''prefix'')))) (\<lambda>all.
       let is_latest = (\<lambda>v. latest_per_key all (om_key v) = Some (vid_of v))
       in ok (map (\<lambda>v. \<lparr>ve_key = om_key v, ve_version_id = vid_of v, ve_is_latest = is_latest v,
                          ve_last_modified = om_last_modified v, ve_etag = om_etag v, ve_size = om_size v\<rparr>)
                (filter (\<lambda>v. \<not> om_is_delete_marker v) all),
              map (\<lambda>v. \<lparr>dm_key = om_key v, dm_version_id = vid_of v, dm_is_latest = is_latest v,
                          dm_last_modified = om_last_modified v\<rparr>)
                (filter om_is_delete_marker all)))"

section \<open>A client that follows the continuation tokens\<close>

partial_function (option) fetch_all ::
  "env \<Rightarrow> FilesystemStorage \<Rightarrow> string \<Rightarrow> params \<Rightarrow> world \<Rightarrow> ((S3Error + (ObjectEntry list \<times> string list)) \<times> world) option" where
  "fetch_all E st bucket params w =
     (case list_objects_v2 E st bucket params w of
        None \<Rightarrow> None
      | Some (Inl e, w') \<Rightarrow> Some (Inl e, w')
      | Some (Inr r, w') \<Rightarrow>
          (case lb_next_continuation_token r of
             None \<Rightarrow> Some (Inr (lb_contents r, lb_common_prefixes r), w')
           | Some t \<Rightarrow>
               Option.bind (fetch_all E st bucket (params(''continuation-token'' \<mapsto> t)) w') (\<lambda>(rest, w'').
                 Some (case rest of Inl e \<Rightarrow> Inl e | Inr (cs, ps) \<Rightarrow> Inr (lb_contents r @ cs, lb_common_prefixes r @ ps), w''))))"

section \<open>Pages\<close>

text \<open>What a listing of \<open>ms\<close> shows: the keys without the delimiter, and the common prefixes of the others.\<close>

definition grouped :: "string \<Rightarrow> string option \<Rightarrow> ObjectMeta \<Rightarrow> string option" where
  "grouped pref delimiter m =
     (case delimiter of None \<Rightarrow> None | Some d \<Rightarrow> (case common_prefix_of pref d (om_key m) of Some c \<Rightarrow> c | None \<Rightarrow> None))"

definition plain_entries :: "string \<Rightarrow> string option \<Rightarrow> ObjectMeta list \<Rightarrow> ObjectEntry list" where
  "plain_entries pref delimiter ms = map entry_of (filter (\<lambda>m. grouped pref delimiter m = None) ms)"

lemma split_page_prefixed:
  assumes "\<forall>m \<in> set ms. starts_with (om_key m) pref"
  shows "\<exists>cps. split_page pref d ms = Some (plain_entries pref (Some d) ms, cps) \<and> set cps = {c. \<exists>m \<in> set ms. grouped pref (Some d) m = Some c}"
  using assms
proof (induction ms)
  case (Cons m ms)
  have "length pref \<le> length (om_key m)" using Cons.prems by (auto simp: starts_with_def dest: prefix_length_le)
  then obtain c where c: "common_prefix_of pref d (om_key m) = Some c" by (simp add: common_prefix_of_def Let_def)
  then have g: "grouped pref (Some d) m = c" by (simp add: grouped_def)
  from Cons obtain cps where "split_page pref d ms = Some (plain_entries pref (Some d) ms, cps)"
    "set cps = {c. \<exists>m \<in> set ms. grouped pref (Some d) m = Some c}" by auto
  with c g show ?case by (cases c) (auto simp: plain_entries_def)
qed (simp add: plain_entries_def)

lemma split_by_delimiter_prefixed:
  assumes "\<forall>m \<in> set ms. starts_with (om_key m) pref"
  shows "\<exists>cps. split_by_delimiter ms pref delimiter = Some (plain_entries pref delimiter ms, cps)
    \<and> set cps = {c. \<exists>m \<in> set ms. grouped pref delimiter m = Some c}"
proof (cases delimiter)
  case None
  then show ?thesis by (simp add: split_by_delimiter_def plain_entries_def grouped_def)
next
  case (Some d)
  then show ?thesis using split_page_prefixed [OF assms, of d] by (auto simp: split_by_delimiter_def)
qed

lemma after_last:
  assumes "sorted_wrt (<) (map om_key ms)" "after_start s ms = page @ rest" "page \<noteq> []"
  shows "after_start (Some (om_key (last page))) ms = rest"
proof -
  let ?l = "om_key (last page)"
  have "last page \<in> set (after_start s ms)" using assms(2,3) by simp
  then have "after_start (Some ?l) ms = after_start (Some ?l) (after_start s ms)"
    by (auto simp: after_start_def split: option.splits intro: filter_cong)
  moreover have "sorted_wrt (<) (map om_key (page @ rest))"
    using assms(1) unfolding assms(2) [symmetric] after_start_def by (simp add: sorted_wrt_map sorted_wrt_filter)
  then have srt: "\<forall>m \<in> set page. \<forall>m' \<in> set rest. om_key m < om_key m'" "sorted_wrt (<) (map om_key (butlast page @ [last page]))"
    using assms(3) by (auto simp: sorted_wrt_append sorted_wrt_map)
  have "\<forall>m \<in> set (butlast page @ [last page]). \<not> ?l < om_key m"
    using srt(2) by (auto simp: sorted_wrt_append less_not_sym)
  then have "\<forall>m \<in> set page. \<not> ?l < om_key m" "\<forall>m \<in> set rest. ?l < om_key m"
    using assms(3) srt(1) by simp_all
  ultimately show ?thesis unfolding assms(2) by (simp add: after_start_def filter_empty_conv)
qed

lemma ascii_byte: "(of_char c :: nat) < 128 \<Longrightarrow> (of_char c :: u8) \<le> 0x7F"
  by (simp add: word_le_nat_alt unat_of_char)

lemma utf8_ascii: "list_all (\<lambda>c. (of_char c :: nat) < 128) s \<Longrightarrow> utf8_valid (as_bytes s)"
  by (induction s) (simp_all add: as_bytes_def ascii_byte)

lemma from_utf8_as_bytes: "utf8_valid (as_bytes s) \<Longrightarrow> from_utf8 (as_bytes s) = Some s"
  by (simp add: from_utf8_def as_bytes_def comp_def unat_of_char)

lemma page_calm:
  assumes "list_objects E st b (or_default (params ''prefix'')) w = (Inr ms, w)" "parse_max_keys params = Inr n" "0 < n"
    and "\<forall>m \<in> set ms. starts_with (om_key m) (or_default (params ''prefix''))"
    and "rem = after_start (effective_start E params) ms"
  shows "\<exists>r. list_objects_v2 E st b params w = Some (Inr r, w)
    \<and> lb_contents r = plain_entries (or_default (params ''prefix'')) (params ''delimiter'') (take n rem)
    \<and> set (lb_common_prefixes r) = {c. \<exists>m \<in> set (take n rem). grouped (or_default (params ''prefix'')) (params ''delimiter'') m = Some c}
    \<and> lb_next_continuation_token r =
        (if length rem > n then Some (fst (e_b64 E) (as_bytes (om_key (last (take n rem))))) else None)"
proof -
  have "\<forall>m \<in> set (take n rem). starts_with (om_key m) (or_default (params ''prefix''))"
    using assms(4,5) by (auto simp: after_start_def dest!: in_set_takeD)
  from split_by_delimiter_prefixed [OF this, of "params ''delimiter''"] obtain cps where
    "split_by_delimiter (take n rem) (or_default (params ''prefix'')) (params ''delimiter'') =
      Some (plain_entries (or_default (params ''prefix'')) (params ''delimiter'') (take n rem), cps)"
    "set cps = {c. \<exists>m \<in> set (take n rem). grouped (or_default (params ''prefix'')) (params ''delimiter'') m = Some c}" by blast
  then show ?thesis using assms(1-3) unfolding assms(5)
    by (auto simp: list_objects_v2_def bind_p_def total_def lift_res_def map_err_act_def lift_opt_def ok_def Let_def)
qed

lemma fetch_rest:
  assumes "list_objects E st b (or_default (params ''prefix'')) w = (Inr ms, w)" "parse_max_keys params = Inr n" "0 < n"
    and "\<forall>m \<in> set ms. starts_with (om_key m) (or_default (params ''prefix''))" "sorted_wrt (<) (map om_key ms)"
    and "b64_law (e_b64 E)" "\<forall>m \<in> set ms. utf8_valid (as_bytes (om_key m))"
    and "rem = after_start (effective_start E params) ms"
  shows "\<exists>cps. fetch_all E st b params w = Some (Inr (plain_entries (or_default (params ''prefix'')) (params ''delimiter'') rem, cps), w)
    \<and> set cps = {c. \<exists>m \<in> set rem. grouped (or_default (params ''prefix'')) (params ''delimiter'') m = Some c}"
  using assms
proof (induction "length rem" arbitrary: rem params rule: less_induct)
  case less
  let ?pref = "or_default (params ''prefix'')" and ?d = "params ''delimiter''"
  obtain r where r: "list_objects_v2 E st b params w = Some (Inr r, w)" "lb_contents r = plain_entries ?pref ?d (take n rem)"
    "set (lb_common_prefixes r) = {c. \<exists>m \<in> set (take n rem). grouped ?pref ?d m = Some c}"
    "lb_next_continuation_token r = (if length rem > n then Some (fst (e_b64 E) (as_bytes (om_key (last (take n rem))))) else None)"
    using page_calm [OF less.prems(1-4,8)] by blast
  show ?case
  proof (cases "length rem > n")
    case False
    then show ?thesis using r by (subst fetch_all.simps) simp
  next
    case True
    let ?l = "last (take n rem)"
    let ?params = "params(''continuation-token'' \<mapsto> fst (e_b64 E) (as_bytes (om_key ?l)))"
    have ne: "take n rem \<noteq> []" using True less.prems(3) by auto
    have "set rem \<subseteq> set ms" using less.prems(8) by (simp add: after_start_def)
    then have "?l \<in> set ms" using last_in_set [OF ne] in_set_takeD [of ?l n rem] by blast
    then have start: "effective_start E ?params = Some (om_key ?l)"
      using less.prems(6,7) by (simp add: effective_start_def b64_law_def from_utf8_as_bytes)
    have split: "after_start (effective_start E params) ms = take n rem @ drop n rem" using less.prems(8) by simp
    have "drop n rem = after_start (effective_start E ?params) ms"
      unfolding start using after_last [OF less.prems(5) split ne] by simp
    moreover have "length (drop n rem) < length rem" using True less.prems(3) by simp
    moreover have "parse_max_keys ?params = Inr n" using less.prems(2) by (simp add: parse_max_keys_def)
    ultimately obtain cps where "fetch_all E st b ?params w = Some (Inr (plain_entries ?pref ?d (drop n rem), cps), w)"
      "set cps = {c. \<exists>m \<in> set (drop n rem). grouped ?pref ?d m = Some c}"
      using less.hyps [of "drop n rem" ?params] less.prems by auto
    moreover have "plain_entries ?pref ?d rem = plain_entries ?pref ?d (take n rem) @ plain_entries ?pref ?d (drop n rem)"
      by (simp add: plain_entries_def flip: map_append filter_append)
    moreover have "set rem = set (take n rem) \<union> set (drop n rem)" by (metis append_take_drop_id set_append)
    ultimately show ?thesis using r True by (subst fetch_all.simps) auto
  qed
qed


definition toy_params :: params where
  "toy_params = [''max-keys'' \<mapsto> ''1'', ''delimiter'' \<mapsto> ''/'']"


end
