(* ===== verification/Http.thy ===== *)
theory Http
  imports Policy S3Errors
begin

text \<open>
  What the server reads of an HTTP request: method, path, query, headers, the address of the
  peer and the two extensions the middleware adds. Header names are kept in lower case, a name
  may occur several times.
\<close>

type_synonym header_map = "(string \<times> string) list"

definition get_all :: "header_map \<Rightarrow> string \<Rightarrow> string list" where
  "get_all h name = map snd (filter (\<lambda>(k, _). k = to_ascii_lowercase name) h)"

definition header_get :: "header_map \<Rightarrow> string \<Rightarrow> string option" where
  "header_get h name = map_of h (to_ascii_lowercase name)"

text \<open>\<open>HeaderValue::to_str\<close>: only visible ASCII, space and tab.\<close>

definition visible_ascii :: "char \<Rightarrow> bool" where
  "visible_ascii c \<longleftrightarrow> (let n = (of_char c :: nat) in (32 \<le> n \<and> n < 127) \<or> n = 9)"

definition to_str :: "string \<Rightarrow> string option" where
  "to_str v = (if list_all visible_ascii v then Some v else None)"

definition header_str :: "header_map \<Rightarrow> string \<Rightarrow> string option" where
  "header_str h name = Option.bind (header_get h name) to_str"

record VirtualHostContext =
  vh_bucket :: string
  vh_signature_path :: string

record Request =
  rq_method :: string
  rq_path :: string
  rq_query :: "string option"
  rq_headers :: header_map
  rq_peer :: "ip_addr option"
  rq_principal :: "string option"
  rq_vhost :: "VirtualHostContext option"

text \<open>\<open>uri.query().unwrap_or("")\<close>.\<close>

definition query_str :: "Request \<Rightarrow> string" where
  "query_str r = (case rq_query r of Some q \<Rightarrow> q | None \<Rightarrow> [])"

text \<open>\<open>pair.split('=').next()\<close>: the part before the first equals sign.\<close>

definition pair_name :: "string \<Rightarrow> string" where
  "pair_name pair = hd (split_on CHR ''='' pair)"

definition query_has_key :: "string \<Rightarrow> string \<Rightarrow> bool" where
  "query_has_key query key \<longleftrightarrow>
     list_ex (\<lambda>pair. eq_ignore_ascii_case (pair_name pair) key) (split_on CHR ''&'' query)"

lemma get_all_header_get: "header_get h name = (case get_all h name of [] \<Rightarrow> None | v # _ \<Rightarrow> Some v)"
  by (induction h) (auto simp: header_get_def get_all_def)

lemma pair_name_no_equals: "CHR ''='' \<notin> set (pair_name pair)"
  unfolding pair_name_def by (rule split_on_no_sep, rule hd_in_set) simp

end
