(* ===== verification/Proxy.thy ===== *)
theory Proxy
  imports Http
begin

text \<open>
  Client addresses behind trusted reverse proxies (\<open>proxy.rs\<close>), used for rate limiting and
  for the source address of bucket policies.
\<close>

section \<open>Printing addresses\<close>

text \<open>\<open>Display\<close> of \<open>core::net\<close>: the longest run of two or more zero groups becomes \<open>::\<close>.\<close>

fun show_hex :: "nat \<Rightarrow> string" where
  "show_hex n = (if n < 16 then [if n < 10 then char_of (48 + n) else char_of (87 + n)]
                 else show_hex (n div 16) @ show_hex (n mod 16))"

declare show_hex.simps [simp del]

fun groups :: "bytes \<Rightarrow> nat list" where
  "groups (a # b # os) = (unat a * 256 + unat b) # groups os"
| "groups _ = []"

fun zero_span :: "nat \<Rightarrow> nat list \<Rightarrow> nat \<times> nat \<Rightarrow> nat \<times> nat \<Rightarrow> nat \<times> nat" where
  "zero_span i [] cur best = best"
| "zero_span i (g # gs) cur best =
     (if g = 0
      then let cur' = (if snd cur = 0 then (i, 1) else (fst cur, snd cur + 1))
           in zero_span (Suc i) gs cur' (if snd best < snd cur' then cur' else best)
      else zero_span (Suc i) gs (0, 0) best)"

definition show_v4 :: "bytes \<Rightarrow> string" where
  "show_v4 os = join ''.'' (map (\<lambda>b. show_nat (unat b)) os)"

definition show_groups :: "nat list \<Rightarrow> string" where
  "show_groups gs = join '':'' (map show_hex gs)"

definition show_v6 :: "bytes \<Rightarrow> string" where
  "show_v6 os =
     (if take 12 os = replicate 10 0 @ [0xff, 0xff] then ''::ffff:'' @ show_v4 (drop 12 os)
      else let gs = groups os; (start, len) = zero_span 0 gs (0, 0) (0, 0)
           in if 1 < len then show_groups (take start gs) @ ''::'' @ show_groups (drop (start + len) gs)
              else show_groups gs)"

fun show_ip :: "ip_addr \<Rightarrow> string" where
  "show_ip (V4 os) = show_v4 os"
| "show_ip (V6 os) = show_v6 os"

section \<open>Trusted networks\<close>

record Network =
  nw_addr :: ip_addr
  nw_prefix_len :: nat

type_synonym TrustedProxies = "Network list"

fun max_prefix :: "ip_addr \<Rightarrow> nat" where
  "max_prefix (V4 _) = 32"
| "max_prefix (V6 _) = 128"

definition parse_network :: "string \<Rightarrow> Network option" where
  "parse_network spec =
     (case split_once CHR ''/'' spec of
        Some (addr, pre) \<Rightarrow>
          Option.bind (parse_ip (trim addr)) (\<lambda>addr.
          Option.bind (parse_u8 (trim pre)) (\<lambda>prefix_len.
            if prefix_len > max_prefix addr then None
            else Some \<lparr>nw_addr = addr, nw_prefix_len = prefix_len\<rparr>))
      | None \<Rightarrow>
          Option.bind (parse_ip spec) (\<lambda>addr. Some \<lparr>nw_addr = addr, nw_prefix_len = max_prefix addr\<rparr>))"

definition trusted_parse :: "string \<Rightarrow> TrustedProxies" where
  "trusted_parse spec =
     List.map_filter parse_network (filter (\<lambda>part. part \<noteq> []) (map trim (split_on CHR '','' spec)))"

text \<open>
  \<open>None\<close> is the panic of a shift by a negative amount or a slice out of range; it needs a
  prefix length beyond the address.
\<close>

fun network_contains :: "Network \<Rightarrow> ip_addr \<Rightarrow> bool option" where
  "network_contains n ip =
     (case (nw_addr n, ip) of
        (V4 net, V4 addr) \<Rightarrow>
          if 32 < nw_prefix_len n then None
          else let mask = (if nw_prefix_len n = 0 then 0 else push_bit (32 - nw_prefix_len n) (- 1 :: 32 word))
               in Some (and (be_u32 net) mask = and (be_u32 addr) mask)
      | (V6 net, V6 addr) \<Rightarrow>
          let full_bytes = nw_prefix_len n div 8; remainder = nw_prefix_len n mod 8
          in if 16 < full_bytes then None
             else if take full_bytes net \<noteq> take full_bytes addr then Some False
             else if remainder = 0 then Some True
             else if 16 \<le> full_bytes then None
             else let mask = push_bit (8 - remainder) (0xff :: u8)
                  in Some (and (net ! full_bytes) mask = and (addr ! full_bytes) mask)
      | _ \<Rightarrow> Some False)"

definition trusted_contains :: "TrustedProxies \<Rightarrow> ip_addr \<Rightarrow> bool option" where
  "trusted_contains tp ip = any_opt (\<lambda>n. network_contains n ip) tp"

text \<open>The loop over the chain, on the reversed list: it keeps at least one address.\<close>

fun strip_hops :: "TrustedProxies \<Rightarrow> ip_addr \<Rightarrow> ip_addr list \<Rightarrow> ip_addr list option" where
  "strip_hops tp peer (l # m # rest) =
     Option.bind (trusted_contains tp l) (\<lambda>t.
       if t \<or> l = peer then strip_hops tp peer (m # rest) else Some (l # m # rest))"
| "strip_hops tp peer chain = Some chain"

definition forwarded_chain :: "string \<Rightarrow> ip_addr list" where
  "forwarded_chain forwarded = List.map_filter (\<lambda>s. parse_ip (trim s)) (split_on CHR '','' forwarded)"

definition client_ip :: "TrustedProxies \<Rightarrow> header_map \<Rightarrow> ip_addr \<Rightarrow> string option" where
  "client_ip tp headers peer_ip =
     (if tp = [] then Some (show_ip peer_ip)
      else Option.bind (trusted_contains tp peer_ip) (\<lambda>t.
        if \<not> t then Some (show_ip peer_ip)
        else case header_str headers ''x-forwarded-for'' of
          None \<Rightarrow> Some (show_ip peer_ip)
        | Some forwarded \<Rightarrow>
            Option.bind (strip_hops tp peer_ip (rev (forwarded_chain forwarded @ [peer_ip]))) (\<lambda>chain.
              Some (case rev chain of ip # _ \<Rightarrow> show_ip ip | [] \<Rightarrow> show_ip peer_ip))))"

definition client_ip_from_headers :: "header_map \<Rightarrow> TrustedProxies \<Rightarrow> string" where
  "client_ip_from_headers headers trusted =
     (case header_str headers ''x-forwarded-for'' of
        Some forwarded \<Rightarrow>
          let client = trim (hd (split_on CHR '','' forwarded))
          in if client \<noteq> [] then client else ''unknown''
      | None \<Rightarrow> ''unknown'')"

definition client_ip_from_request :: "Request \<Rightarrow> TrustedProxies \<Rightarrow> string option" where
  "client_ip_from_request request trusted =
     (case rq_peer request of
        Some addr \<Rightarrow> client_ip trusted (rq_headers request) addr
      | None \<Rightarrow> Some ''unknown'')"

section \<open>What the loop computes\<close>

definition network_ok :: "Network \<Rightarrow> bool" where
  "network_ok n \<longleftrightarrow> nw_prefix_len n \<le> max_prefix (nw_addr n)"

lemma parse_network_ok: "parse_network s = Some n \<Longrightarrow> network_ok n"
  by (auto simp: parse_network_def network_ok_def bind_eq_Some_conv split: option.splits if_splits)

lemma trusted_parse_ok: "n \<in> set (trusted_parse spec) \<Longrightarrow> network_ok n"
  by (auto simp: trusted_parse_def map_filter_def parse_network_ok)

lemma network_contains_total: "network_ok n \<Longrightarrow> network_contains n ip \<noteq> None"
proof -
  have "p \<le> 128 \<Longrightarrow> p div 8 = 16 \<Longrightarrow> p mod 8 = 0" for p :: nat by presburger
  then show "network_ok n \<Longrightarrow> network_contains n ip \<noteq> None"
    by (cases "nw_addr n"; cases ip) (auto simp: network_ok_def Let_def)
qed

lemma trusted_contains_total:
  assumes "\<And>n. n \<in> set tp \<Longrightarrow> network_ok n"
  shows "\<exists>b. trusted_contains tp ip = Some b"
  using any_opt_total [of tp "\<lambda>n. network_contains n ip"] network_contains_total assms
  by (auto simp: trusted_contains_def)

lemma strip_hops_last:
  assumes "\<forall>n \<in> set tp. network_ok n" "chain \<noteq> []"
  shows "\<exists>c. strip_hops tp peer chain = Some c \<and> c \<noteq> [] \<and> last c = last chain"
  using assms
proof (induction tp peer chain rule: strip_hops.induct)
  case (1 tp peer l m rest)
  obtain t where t: "trusted_contains tp l = Some t" using trusted_contains_total "1.prems"(1) by blast
  show ?case
  proof (cases "t \<or> l = peer")
    case True
    with "1.IH" [OF t True] "1.prems" t show ?thesis by auto
  qed (simp add: t)
qed auto

text \<open>
  C27. The address the rate limiters and bucket policies see. A peer that is not in a trusted
  network counts under its own address, whatever it sends. For a trusted peer the result is
  the leftmost address of \<open>X-Forwarded-For\<close> that parses (the peer itself if there is none): the
  loop that strips trusted hops from the right never changes the answer, because the result is
  read at the other end of the chain. Proxies append to that header, so its left end is what
  the client itself sent.
\<close>

theorem client_ip_is_leftmost:
  "client_ip (trusted_parse spec) headers peer =
     Some (show_ip (if trusted_contains (trusted_parse spec) peer = Some True
                    then case header_str headers ''x-forwarded-for'' of
                           Some forwarded \<Rightarrow> hd (forwarded_chain forwarded @ [peer])
                         | None \<Rightarrow> peer
                    else peer))"
proof -
  let ?tp = "trusted_parse spec"
  have ok: "\<forall>n \<in> set ?tp. network_ok n" by (simp add: trusted_parse_ok)
  then obtain t where t: "trusted_contains ?tp peer = Some t" using trusted_contains_total by blast
  have empty: "?tp = [] \<Longrightarrow> \<not> t" using t by (auto simp: trusted_contains_def)
  show ?thesis
  proof (cases "header_str headers ''x-forwarded-for''")
    case (Some f)
    let ?chain = "forwarded_chain f @ [peer]"
    obtain c where c: "strip_hops ?tp peer (rev ?chain) = Some c" "c \<noteq> []" "last c = last (rev ?chain)"
      using strip_hops_last [OF ok, of "rev ?chain"] by auto
    then obtain b bs where b: "rev c = b # bs" by (cases "rev c") auto
    then have "b = last c" using c(2) by (metis hd_rev list.sel(1))
    then have rc: "rev c = hd ?chain # bs" using b c(3) by (simp add: last_rev del: rev_append)
    show ?thesis using empty t by (auto simp: client_ip_def Some c(1) rc simp del: rev_append)
  qed (use empty t in \<open>auto simp: client_ip_def\<close>)
qed

end
