(* ===== verification/SigV4.thy ===== *)
theory SigV4
  imports Http "HOL-Library.List_Lexorder" "HOL-Library.Char_ord"
begin

text \<open>
  AWS Signature Version 4 (\<open>auth/signature_v4.rs\<close>, \<open>auth/hmac.rs\<close>): parsing of the
  authorization header and of presigned queries, the canonical request, the signing key and
  the two verifications.

  SHA-256, HMAC, hexadecimal printing and percent coding are parameters: \<open>sg_lossy\<close> is
  \<open>percent_decode_str\<close> with \<open>decode_utf8_lossy\<close>, \<open>sg_utf8\<close> the same with \<open>decode_utf8\<close>, and
  \<open>sg_encode\<close> is \<open>utf8_percent_encode\<close> with the set \<open>S3_URI_ENCODE\<close>.
\<close>

record sig_env =
  sg_sha256 :: "bytes \<Rightarrow> bytes"
  sg_hmac :: "bytes \<Rightarrow> bytes \<Rightarrow> bytes"
  sg_hex :: "bytes \<Rightarrow> string"
  sg_lossy :: "string \<Rightarrow> string"
  sg_utf8 :: "string \<Rightarrow> string option"
  sg_encode :: "string \<Rightarrow> string"

section \<open>Parsing\<close>

record ParsedAuth =
  pa_access_key :: string
  pa_date :: string
  pa_region :: string
  pa_signed_headers :: "string list"
  pa_signature :: string

fun splitn :: "nat \<Rightarrow> char \<Rightarrow> string \<Rightarrow> string list" where
  "splitn 0 c s = []"
| "splitn (Suc n) c s =
     (if n = 0 then [s]
      else case split_once c s of Some (a, b) \<Rightarrow> a # splitn n c b | None \<Rightarrow> [s])"

type_synonym auth_fields = "string option \<times> string option \<times> string option"

definition auth_part :: "auth_fields \<Rightarrow> string \<Rightarrow> auth_fields" where
  "auth_part fs part0 =
     (case fs of (credential, signed_headers, sig) \<Rightarrow>
       let part = trim part0
       in case strip_prefix part ''Credential='' of
            Some val \<Rightarrow> (Some val, signed_headers, sig)
          | None \<Rightarrow> (case strip_prefix part ''SignedHeaders='' of
              Some val \<Rightarrow> (credential, Some val, sig)
            | None \<Rightarrow> (case strip_prefix part ''Signature='' of
                Some val \<Rightarrow> (credential, signed_headers, Some val)
              | None \<Rightarrow> fs)))"

definition ok_or :: "'e \<Rightarrow> 'a option \<Rightarrow> 'e + 'a" where
  "ok_or e x = (case x of Some a \<Rightarrow> Inr a | None \<Rightarrow> Inl e)"

definition auth_of_credential :: "string \<Rightarrow> string \<Rightarrow> string \<Rightarrow> string + ParsedAuth" where
  "auth_of_credential credential signed_headers sig =
     (let cred_parts = splitn 5 CHR ''/'' credential
      in if length cred_parts \<noteq> 5 then Inl ''Invalid Credential format''
         else Inr \<lparr>pa_access_key = cred_parts ! 0, pa_date = cred_parts ! 1, pa_region = cred_parts ! 2,
                   pa_signed_headers = split_on CHR '';'' signed_headers, pa_signature = sig\<rparr>)"

definition parse_authorization_header :: "string \<Rightarrow> string + ParsedAuth" where
  "parse_authorization_header header0 =
     bind_res (ok_or ''Invalid auth algorithm'' (strip_prefix header0 ''AWS4-HMAC-SHA256 '')) (\<lambda>header.
       case foldl auth_part (None, None, None) (split_on CHR '','' header) of
         (credential, signed_headers, sig) \<Rightarrow>
           bind_res (ok_or ''Missing Credential'' credential) (\<lambda>credential.
           bind_res (ok_or ''Missing SignedHeaders'' signed_headers) (\<lambda>signed_headers.
           bind_res (ok_or ''Missing Signature'' sig) (\<lambda>sig.
             auth_of_credential credential signed_headers sig))))"

definition query_has_presigned_signature :: "string \<Rightarrow> bool" where
  "query_has_presigned_signature query \<longleftrightarrow>
     list_ex (\<lambda>pair. eq_ignore_ascii_case (pair_name pair) ''X-Amz-Signature'')
       (filter (\<lambda>s. s \<noteq> []) (split_on CHR ''&'' query))"

definition is_signature_query_pair :: "string \<Rightarrow> bool" where
  "is_signature_query_pair pair \<longleftrightarrow> eq_ignore_ascii_case (pair_name pair) ''X-Amz-Signature''"

text \<open>\<open>splitn(2, '=')\<close> with empty defaults.\<close>

definition key_value :: "string \<Rightarrow> string \<times> string" where
  "key_value pair = (case split_once CHR ''='' pair of Some kv \<Rightarrow> kv | None \<Rightarrow> (pair, []))"

record presigned_fields =
  pf_algorithm :: "string option"
  pf_credential :: "string option"
  pf_date :: "string option"
  pf_expires :: "string option"
  pf_signed_headers :: "string option"
  pf_signature :: "string option"

definition presigned_pair :: "presigned_fields \<Rightarrow> string \<Rightarrow> presigned_fields" where
  "presigned_pair f pair =
     (case key_value pair of (key, val) \<Rightarrow>
        if eq_ignore_ascii_case key ''X-Amz-Algorithm'' then f\<lparr>pf_algorithm := Some val\<rparr>
        else if eq_ignore_ascii_case key ''X-Amz-Credential'' then f\<lparr>pf_credential := Some val\<rparr>
        else if eq_ignore_ascii_case key ''X-Amz-Date'' then f\<lparr>pf_date := Some val\<rparr>
        else if eq_ignore_ascii_case key ''X-Amz-Expires'' then f\<lparr>pf_expires := Some val\<rparr>
        else if eq_ignore_ascii_case key ''X-Amz-SignedHeaders'' then f\<lparr>pf_signed_headers := Some val\<rparr>
        else if eq_ignore_ascii_case key ''X-Amz-Signature'' then f\<lparr>pf_signature := Some val\<rparr>
        else f)"

definition no_fields :: presigned_fields where
  "no_fields = \<lparr>pf_algorithm = None, pf_credential = None, pf_date = None, pf_expires = None,
     pf_signed_headers = None, pf_signature = None\<rparr>"

definition parse_presigned_query :: "sig_env \<Rightarrow> string \<Rightarrow> string + (ParsedAuth \<times> string \<times> nat)" where
  "parse_presigned_query G query =
     (let f = foldl presigned_pair no_fields (split_on CHR ''&'' query)
      in bind_res (ok_or ''Missing X-Amz-Algorithm'' (pf_algorithm f)) (\<lambda>algorithm.
         if algorithm \<noteq> ''AWS4-HMAC-SHA256'' then Inl ''Invalid X-Amz-Algorithm''
         else
         bind_res (ok_or ''Missing X-Amz-Credential'' (pf_credential f)) (\<lambda>credential.
         bind_res (ok_or ''Missing X-Amz-Date'' (pf_date f)) (\<lambda>timestamp.
         bind_res (ok_or ''Missing X-Amz-Expires'' (pf_expires f)) (\<lambda>expires_str.
         bind_res (ok_or ''Missing X-Amz-SignedHeaders'' (pf_signed_headers f)) (\<lambda>signed_headers.
         bind_res (ok_or ''Missing X-Amz-Signature'' (pf_signature f)) (\<lambda>sig.
         bind_res (ok_or ''Invalid X-Amz-Expires'' (parse_u64 expires_str)) (\<lambda>expires_secs.
           if expires_secs > 604800 then Inl ''X-Amz-Expires exceeds maximum of 604800 seconds''
           else
           bind_res (ok_or ''Invalid Credential encoding'' (sg_utf8 G credential)) (\<lambda>credential_decoded.
           bind_res (auth_of_credential credential_decoded signed_headers sig) (\<lambda>parsed.
             Inr (parsed, timestamp, expires_secs)))))))))))"

section \<open>The canonical request\<close>

definition newline :: char where "newline = CHR 10"

definition canonical_uri :: "sig_env \<Rightarrow> string \<Rightarrow> string" where
  "canonical_uri G uri =
     (let path = hd (split_on CHR ''?'' uri)
      in if path = [] \<or> path = ''/'' then ''/''
         else join ''/'' (map (\<lambda>s. sg_encode G (sg_lossy G s)) (split_on CHR ''/'' path)))"

text \<open>The pairs are sorted by name and value: two stable sorts, the less significant first.\<close>

definition decoded_pairs :: "sig_env \<Rightarrow> string \<Rightarrow> (string \<times> string) list" where
  "decoded_pairs G qs =
     map (\<lambda>pair. case key_value pair of (k, v) \<Rightarrow> (sg_lossy G k, sg_lossy G v))
       (filter (\<lambda>s. s \<noteq> []) (split_on CHR ''&'' qs))"

definition canonical_query_string :: "sig_env \<Rightarrow> string \<Rightarrow> string" where
  "canonical_query_string G qs =
     (if qs = [] then []
      else join ''&'' (map (\<lambda>(k, v). sg_encode G k @ ''='' @ sg_encode G v)
                         (sort_key fst (sort_key snd (decoded_pairs G qs)))))"

definition canonical_value :: "header_map \<Rightarrow> string \<Rightarrow> string" where
  "canonical_value headers name = trim (join '','' (List.map_filter to_str (get_all headers name)))"

definition canonical_headers :: "header_map \<Rightarrow> string list \<Rightarrow> string" where
  "canonical_headers headers signed_headers =
     concat (map (\<lambda>name. name @ '':'' @ canonical_value headers name @ [newline]) signed_headers)"

definition payload_hash :: "header_map \<Rightarrow> string" where
  "payload_hash headers =
     (case header_str headers ''x-amz-content-sha256'' of Some v \<Rightarrow> v | None \<Rightarrow> ''UNSIGNED-PAYLOAD'')"

definition build_canonical_request :: "sig_env \<Rightarrow> string \<Rightarrow> string \<Rightarrow> string \<Rightarrow> header_map \<Rightarrow> ParsedAuth \<Rightarrow> string" where
  "build_canonical_request G http_method uri query_string headers parsed =
     http_method @ [newline] @ canonical_uri G uri @ [newline] @ canonical_query_string G query_string @ [newline]
     @ canonical_headers headers (pa_signed_headers parsed) @ [newline] @ join '';'' (pa_signed_headers parsed)
     @ [newline] @ payload_hash headers"

definition build_string_to_sign :: "sig_env \<Rightarrow> string \<Rightarrow> string \<Rightarrow> ParsedAuth \<Rightarrow> string" where
  "build_string_to_sign G canonical_request timestamp parsed =
     (let scope = pa_date parsed @ ''/'' @ pa_region parsed @ ''/s3/aws4_request'';
          canonical_hash = sg_hex G (sg_sha256 G (as_bytes canonical_request))
      in ''AWS4-HMAC-SHA256'' @ [newline] @ timestamp @ [newline] @ scope @ [newline] @ canonical_hash)"

definition derive_signing_key :: "sig_env \<Rightarrow> string \<Rightarrow> string \<Rightarrow> string \<Rightarrow> bytes" where
  "derive_signing_key G secret_key date region =
     (let key = ''AWS4'' @ secret_key;
          date_key = sg_hmac G (as_bytes key) (as_bytes date);
          date_region_key = sg_hmac G date_key (as_bytes region);
          date_region_service_key = sg_hmac G date_region_key (as_bytes ''s3'')
      in sg_hmac G date_region_service_key (as_bytes ''aws4_request''))"

unbundle bit_operations_syntax

definition constant_time_eq :: "bytes \<Rightarrow> bytes \<Rightarrow> bool" where
  "constant_time_eq a b \<longleftrightarrow>
     (if length a \<noteq> length b then False
      else foldl (\<lambda>diff (x, y). diff OR (x XOR y)) 0 (zip a b) = 0)"

definition computed_signature :: "sig_env \<Rightarrow> string \<Rightarrow> ParsedAuth \<Rightarrow> string \<Rightarrow> string" where
  "computed_signature G string_to_sign parsed secret_key =
     sg_hex G (sg_hmac G (derive_signing_key G secret_key (pa_date parsed) (pa_region parsed)) (as_bytes string_to_sign))"

definition amz_date :: "header_map \<Rightarrow> string" where
  "amz_date headers = (case header_str headers ''x-amz-date'' of Some v \<Rightarrow> v | None \<Rightarrow> [])"

definition verify_signature ::
  "sig_env \<Rightarrow> string \<Rightarrow> string \<Rightarrow> string \<Rightarrow> header_map \<Rightarrow> ParsedAuth \<Rightarrow> string \<Rightarrow> bool" where
  "verify_signature G http_method uri query_string headers parsed secret_key \<longleftrightarrow>
     (let canonical_request = build_canonical_request G http_method uri query_string headers parsed;
          string_to_sign = build_string_to_sign G canonical_request (amz_date headers) parsed
      in constant_time_eq (as_bytes (computed_signature G string_to_sign parsed secret_key))
           (as_bytes (pa_signature parsed)))"

definition filtered_qs :: "string \<Rightarrow> string" where
  "filtered_qs query_string =
     join ''&'' (filter (\<lambda>pair. \<not> is_signature_query_pair pair) (split_on CHR ''&'' query_string))"

definition presigned_canonical_request :: "sig_env \<Rightarrow> string \<Rightarrow> string \<Rightarrow> string \<Rightarrow> header_map \<Rightarrow> ParsedAuth \<Rightarrow> string" where
  "presigned_canonical_request G http_method uri query_string headers parsed =
     http_method @ [newline] @ canonical_uri G uri @ [newline] @ canonical_query_string G (filtered_qs query_string) @ [newline]
     @ canonical_headers headers (pa_signed_headers parsed) @ [newline] @ join '';'' (pa_signed_headers parsed)
     @ [newline] @ ''UNSIGNED-PAYLOAD''"

definition verify_presigned_signature ::
  "sig_env \<Rightarrow> string \<Rightarrow> string \<Rightarrow> string \<Rightarrow> header_map \<Rightarrow> ParsedAuth \<Rightarrow> string \<Rightarrow> string \<Rightarrow> bool" where
  "verify_presigned_signature G http_method uri query_string headers parsed timestamp secret_key \<longleftrightarrow>
     (let canonical_request = presigned_canonical_request G http_method uri query_string headers parsed;
          string_to_sign = build_string_to_sign G canonical_request timestamp parsed
      in constant_time_eq (as_bytes (computed_signature G string_to_sign parsed secret_key))
           (as_bytes (pa_signature parsed)))"

section \<open>Comparison\<close>

lemma or_xor_fold:
  fixes d :: u8
  shows "length a = length b \<Longrightarrow> foldl (\<lambda>diff (x, y). diff OR (x XOR y)) d (zip a b) = 0 \<longleftrightarrow> d = 0 \<and> a = b"
proof (induction a b arbitrary: d rule: list_induct2)
  case (Cons x xs y ys)
  have "d OR (x XOR y) = 0 \<longleftrightarrow> d = 0 \<and> x = y"
    by (auto simp: bit_eq_iff bit_simps)
  then show ?case using Cons.IH by auto
qed simp

lemma same_bytes_iff [simp]: "constant_time_eq a b \<longleftrightarrow> a = b"
  using or_xor_fold [of a b 0] by (auto simp: constant_time_eq_def)

section \<open>What a signature covers\<close>

definition sig_laws :: "sig_env \<Rightarrow> bool" where
  "sig_laws G \<longleftrightarrow> (\<forall>s. newline \<notin> set (sg_encode G s)) \<and> (\<forall>b. newline \<notin> set (sg_hex G b)) \<and> inj (sg_hex G)"

text \<open>What parsing guarantees of a header value that is visible ASCII.\<close>

definition wf_auth :: "ParsedAuth \<Rightarrow> bool" where
  "wf_auth p \<longleftrightarrow> pa_signed_headers p \<noteq> [] \<and> (\<forall>n \<in> set (pa_signed_headers p). CHR '';'' \<notin> set n \<and> newline \<notin> set n)
     \<and> CHR ''/'' \<notin> set (pa_date p) \<and> newline \<notin> set (pa_date p) \<and> newline \<notin> set (pa_region p)"

lemma set_join: "set (join sep xs) \<subseteq> set sep \<union> (\<Union>x \<in> set xs. set x)"
  by (induction sep xs rule: join.induct) auto

lemma set_trim: "set (trim s) \<subseteq> set s"
  by (auto simp: trim_def dest!: set_dropWhileD)

lemma newline_not_visible: "\<not> visible_ascii newline"
  by (simp add: visible_ascii_def newline_def)

lemma to_str_no_newline: "to_str v = Some s \<Longrightarrow> newline \<notin> set s"
  using newline_not_visible by (auto simp: to_str_def list_all_iff split: if_splits)

lemma header_str_no_newline: "header_str h n = Some s \<Longrightarrow> newline \<notin> set s"
  by (auto simp: header_str_def bind_eq_Some_conv to_str_no_newline)

lemma canonical_value_no_newline: "newline \<notin> set (canonical_value h n)"
proof
  let ?vs = "List.map_filter to_str (get_all h n)"
  assume "newline \<in> set (canonical_value h n)"
  then have "newline \<in> set (join '','' ?vs)" using set_trim by (auto simp: canonical_value_def)
  then have "newline \<in> (\<Union>x \<in> set ?vs. set x)" using set_join [of "'',''" ?vs] by (auto simp: newline_def)
  then show False by (auto simp: map_filter_def to_str_no_newline)
qed

lemma split_on_set: "t \<in> set (split_on c s) \<Longrightarrow> set t \<subseteq> set s"
proof (induction s arbitrary: t)
  case (Cons x xs)
  obtain y ys where y: "split_on c xs = y # ys" by (cases "split_on c xs") simp_all
  have "set y \<subseteq> set xs" "\<And>z. z \<in> set ys \<Longrightarrow> set z \<subseteq> set xs" using Cons.IH y by auto
  then show ?case using Cons.prems y by (fastforce split: if_splits)
qed simp

lemma canonical_uri_no_newline: "sig_laws G \<Longrightarrow> newline \<notin> set (canonical_uri G u)"
  using set_join [of "''/''" "map (\<lambda>s. sg_encode G (sg_lossy G s)) (split_on CHR ''/'' (hd (split_on CHR ''?'' u)))"]
  by (auto simp: canonical_uri_def sig_laws_def Let_def newline_def)

lemma canonical_query_no_newline: "sig_laws G \<Longrightarrow> newline \<notin> set (canonical_query_string G q)"
  using set_join [of "''&''" "map (\<lambda>(k, v). sg_encode G k @ ''='' @ sg_encode G v) (sort_key fst (sort_key snd (decoded_pairs G q)))"]
  by (auto simp: canonical_query_string_def sig_laws_def newline_def)

definition header_line :: "header_map \<Rightarrow> string \<Rightarrow> string" where
  "header_line h n = n @ '':'' @ canonical_value h n"

definition request_lines :: "string \<Rightarrow> string \<Rightarrow> string \<Rightarrow> header_map \<Rightarrow> string list \<Rightarrow> string \<Rightarrow> string list" where
  "request_lines m u q h names payload = [m, u, q] @ map (header_line h) names @ [[], join '';'' names, payload]"

lemma join_Cons: "ys \<noteq> [] \<Longrightarrow> join sep (x # ys) = x @ sep @ join sep ys"
  by (cases ys) simp_all

lemma join_header_lines:
  "xs \<noteq> [] \<Longrightarrow> join [newline] (map (header_line h) names @ xs) = canonical_headers h names @ join [newline] xs"
  by (induction names) (simp_all add: canonical_headers_def header_line_def join_Cons)

lemma build_canonical_lines:
  "build_canonical_request G m u q h p =
     join [newline] (request_lines m (canonical_uri G u) (canonical_query_string G q) h (pa_signed_headers p) (payload_hash h))"
  unfolding build_canonical_request_def request_lines_def by (simp add: join_header_lines join_Cons)

lemma request_lines_inj:
  assumes "join [newline] (request_lines m u q h names payload) = join [newline] (request_lines m' u' q' h' names' payload')"
    and "\<forall>l \<in> set (request_lines m u q h names payload). newline \<notin> set l"
    and "\<forall>l \<in> set (request_lines m' u' q' h' names' payload'). newline \<notin> set l"
    and "names \<noteq> []" "names' \<noteq> []" "\<forall>n \<in> set names \<union> set names'. CHR '';'' \<notin> set n"
  shows "m = m' \<and> u = u' \<and> q = q' \<and> names = names' \<and> (\<forall>n \<in> set names. canonical_value h n = canonical_value h' n)
    \<and> payload = payload'"
proof -
  have "request_lines m u q h names payload = request_lines m' u' q' h' names' payload'"
    using assms(1) by (rule join_inj) (use assms(2,3) in \<open>simp_all add: request_lines_def\<close>)
  then have eq: "m = m'" "u = u'" "q = q'" "map (header_line h) names = map (header_line h') names'"
      "join '';'' names = join '';'' names'" "payload = payload'"
    by (simp_all add: request_lines_def)
  from eq(5) have "names = names'" by (rule join_inj) (use assms(4-6) in auto)
  with eq show ?thesis by (auto simp: header_line_def)
qed

lemma payload_hash_no_newline: "newline \<notin> set (payload_hash h)"
proof (cases "header_str h ''x-amz-content-sha256''")
  case (Some v)
  then show ?thesis using header_str_no_newline by (simp add: payload_hash_def)
qed (simp add: payload_hash_def newline_def)

lemma amz_date_no_newline: "newline \<notin> set (amz_date h)"
  by (auto simp: amz_date_def header_str_no_newline split: option.splits)

lemma request_lines_no_newline:
  assumes "sig_laws G" "wf_auth p" "newline \<notin> set m" "newline \<notin> set payload"
  shows "\<forall>l \<in> set (request_lines m (canonical_uri G u) (canonical_query_string G q) h (pa_signed_headers p) payload).
     newline \<notin> set l"
proof -
  have "newline \<notin> set (join '';'' (pa_signed_headers p))"
    using set_join [of "'';''" "pa_signed_headers p"] assms(2) by (auto simp: wf_auth_def newline_def)
  moreover have "newline \<notin> set (header_line h n)" if "n \<in> set (pa_signed_headers p)" for n
    using that assms(2) canonical_value_no_newline by (auto simp: header_line_def wf_auth_def newline_def)
  ultimately show ?thesis
    using assms canonical_uri_no_newline canonical_query_no_newline by (auto simp: request_lines_def)
qed

lemma string_to_sign_inj:
  assumes "build_string_to_sign G c t p = build_string_to_sign G c' t' p'"
    and "sig_laws G" "wf_auth p" "wf_auth p'" "newline \<notin> set t" "newline \<notin> set t'"
  shows "t = t' \<and> pa_date p = pa_date p' \<and> pa_region p = pa_region p' \<and> sg_sha256 G (as_bytes c) = sg_sha256 G (as_bytes c')"
proof -
  let ?ls = "\<lambda>c t p. [''AWS4-HMAC-SHA256'', t, pa_date p @ ''/'' @ pa_region p @ ''/s3/aws4_request'', sg_hex G (sg_sha256 G (as_bytes c))]"
  have lines: "build_string_to_sign G c t p = join [newline] (?ls c t p)" for c t p
    by (simp add: build_string_to_sign_def)
  have nl: "newline \<notin> set l" if "wf_auth p" "newline \<notin> set t" "l \<in> set (?ls c t p)" for l c t p
    using that assms(2) by (auto simp: wf_auth_def sig_laws_def newline_def)
  have "?ls c t p = ?ls c' t' p'"
    using assms(1) unfolding lines by (rule join_inj) (use nl assms(3-6) in blast)+
  moreover have "pa_date p = pa_date p' \<and> pa_region p = pa_region p'"
    if "pa_date p @ ''/'' @ pa_region p @ ''/s3/aws4_request'' = pa_date p' @ ''/'' @ pa_region p' @ ''/s3/aws4_request''"
  proof -
    have "pa_date p @ CHR ''/'' # pa_region p = pa_date p' @ CHR ''/'' # pa_region p'" using that by simp
    moreover have "CHR ''/'' \<notin> set (pa_date p)" "CHR ''/'' \<notin> set (pa_date p')" using assms(3,4) by (auto simp: wf_auth_def)
    ultimately show ?thesis by (metis split_once_append option.inject prod.inject)
  qed
  ultimately show ?thesis using assms(2) by (auto simp: sig_laws_def dest: injD)
qed

lemma verify_signature_iff:
  "verify_signature G m u q h p k \<longleftrightarrow>
     pa_signature p = computed_signature G (build_string_to_sign G (build_canonical_request G m u q h p) (amz_date h) p) p k"
  by (auto simp: verify_signature_def as_bytes_inj Let_def)

lemma splitn_parts:
  "length (splitn n c s) = n \<Longrightarrow> i < n - 1 \<Longrightarrow> c \<notin> set (splitn n c s ! i)"
proof (induction n c s arbitrary: i rule: splitn.induct)
  case (2 n c s)
  show ?case
  proof (cases "split_once c s")
    case (Some ab)
    then obtain a b where ab: "split_once c s = Some (a, b)" by (cases ab) auto
    then have "c \<notin> set a" by (simp add: split_once_Some)
    then show ?thesis using 2 ab by (cases i) auto
  qed (use 2 in \<open>auto split: if_splits\<close>)
qed simp

lemma splitn_set: "t \<in> set (splitn n c s) \<Longrightarrow> set t \<subseteq> set s"
proof (induction n c s arbitrary: t rule: splitn.induct)
  case (2 n c s)
  then show ?case by (fastforce simp: split_once_Some split: if_splits option.splits)
qed simp

lemma auth_of_credential_wf:
  assumes "auth_of_credential cr sh sig = Inr p" "newline \<notin> set cr" "newline \<notin> set sh"
  shows "wf_auth p"
proof -
  have len: "length (splitn 5 CHR ''/'' cr) = 5" and
    p: "p = \<lparr>pa_access_key = splitn 5 CHR ''/'' cr ! 0, pa_date = splitn 5 CHR ''/'' cr ! 1, pa_region = splitn 5 CHR ''/'' cr ! 2,
      pa_signed_headers = split_on CHR '';'' sh, pa_signature = sig\<rparr>"
    using assms(1) by (auto simp: auth_of_credential_def Let_def split: if_splits)
  have "set (splitn 5 CHR ''/'' cr ! i) \<subseteq> set cr" if "i < 5" for i
    using splitn_set nth_mem len that by metis
  from this [of 1] this [of 2] have "newline \<notin> set (pa_date p)" "newline \<notin> set (pa_region p)" using assms(2) by (auto simp: p)
  moreover have "\<forall>n \<in> set (pa_signed_headers p). CHR '';'' \<notin> set n \<and> newline \<notin> set n"
    using split_on_no_sep split_on_set assms(3) by (fastforce simp: p)
  moreover have "CHR ''/'' \<notin> set (pa_date p)" using splitn_parts [OF len, of 1] by (simp add: p)
  ultimately show ?thesis by (simp add: wf_auth_def) (simp add: p)
qed

lemma auth_parts_newline:
  assumes "\<forall>t \<in> set parts. newline \<notin> set t" "foldl auth_part fs parts = (c, h, g)"
    and "\<forall>x \<in> set_option (fst fs) \<union> set_option (fst (snd fs)). newline \<notin> set x"
  shows "\<forall>x \<in> set_option c \<union> set_option h. newline \<notin> set x"
  using assms
proof (induction parts arbitrary: fs)
  case (Cons part parts)
  obtain c0 h0 g0 where fs: "fs = (c0, h0, g0)" by (cases fs)
  have "newline \<notin> set (trim part)" using Cons.prems(1) set_trim by fastforce
  then have "\<forall>x \<in> set_option (fst (auth_part fs part)) \<union> set_option (fst (snd (auth_part fs part))). newline \<notin> set x"
    using Cons.prems(3)
    by (auto simp: fs auth_part_def Let_def strip_prefix_Some split: option.splits)
  then show ?case using Cons by auto
qed simp

lemma parse_authorization_wf:
  assumes "parse_authorization_header hdr = Inr p" "newline \<notin> set hdr"
  shows "wf_auth p"
proof -
  obtain h where h: "strip_prefix hdr ''AWS4-HMAC-SHA256 '' = Some h"
    using assms(1) by (auto simp: parse_authorization_header_def ok_or_def split: option.splits)
  let ?ps = "split_on CHR '','' h"
  obtain c sh g where f: "foldl auth_part (None, None, None) ?ps = (c, sh, g)" by (cases "foldl auth_part (None, None, None) ?ps")
  have "\<forall>t \<in> set ?ps. newline \<notin> set t" using split_on_set assms(2) h by (fastforce simp: strip_prefix_Some)
  from auth_parts_newline [OF this f] have nl: "\<forall>x \<in> set_option c \<union> set_option sh. newline \<notin> set x" by simp
  obtain c' sh' g' where "c = Some c'" "sh = Some sh'" "auth_of_credential c' sh' g' = Inr p"
    using assms(1) unfolding parse_authorization_header_def h ok_or_def by (auto simp: f split: option.splits)
  then show ?thesis using nl by (auto intro: auth_of_credential_wf)
qed

text \<open>
  C28. What a header signature covers. Suppose two requests carry the same signature and both
  are accepted under one secret key, and neither HMAC nor SHA-256 collides on the strings they
  hash. Then they agree on the method, the canonical path and query, the list of signed headers
  and the value of each, the payload hash, the time stamp and the scope: a captured signature
  cannot be used for a request that differs in any of these.
\<close>

theorem signature_covers_request:
  fixes G m u q h p m' u' q' h' p' k
  defines "c \<equiv> build_canonical_request G m u q h p" and "c' \<equiv> build_canonical_request G m' u' q' h' p'"
  defines "t \<equiv> build_string_to_sign G c (amz_date h) p" and "t' \<equiv> build_string_to_sign G c' (amz_date h') p'"
  assumes "sig_laws G" "wf_auth p" "wf_auth p'" "newline \<notin> set m" "newline \<notin> set m'"
    and "verify_signature G m u q h p k" "verify_signature G m' u' q' h' p' k" "pa_signature p = pa_signature p'"
    and "sg_hmac G (derive_signing_key G k (pa_date p) (pa_region p)) (as_bytes t)
         = sg_hmac G (derive_signing_key G k (pa_date p') (pa_region p')) (as_bytes t') \<Longrightarrow> t = t'"
    and "sg_sha256 G (as_bytes c) = sg_sha256 G (as_bytes c') \<Longrightarrow> c = c'"
  shows "m = m' \<and> canonical_uri G u = canonical_uri G u' \<and> canonical_query_string G q = canonical_query_string G q'
    \<and> pa_signed_headers p = pa_signed_headers p'
    \<and> (\<forall>n \<in> set (pa_signed_headers p). canonical_value h n = canonical_value h' n)
    \<and> payload_hash h = payload_hash h' \<and> amz_date h = amz_date h'
    \<and> pa_date p = pa_date p' \<and> pa_region p = pa_region p'"
proof -
  have "computed_signature G t p k = computed_signature G t' p' k"
    using assms(10-12) by (simp add: verify_signature_iff c_def c'_def t_def t'_def)
  then have "t = t'" using assms(5,13) by (auto simp: computed_signature_def sig_laws_def dest: injD)
  then have s: "amz_date h = amz_date h' \<and> pa_date p = pa_date p' \<and> pa_region p = pa_region p'
      \<and> sg_sha256 G (as_bytes c) = sg_sha256 G (as_bytes c')"
    unfolding t_def t'_def by (rule string_to_sign_inj) (simp_all add: assms amz_date_no_newline)
  then have c: "c = c'" using assms(14) by simp
  have "m = m' \<and> canonical_uri G u = canonical_uri G u' \<and> canonical_query_string G q = canonical_query_string G q'
      \<and> pa_signed_headers p = pa_signed_headers p'
      \<and> (\<forall>n \<in> set (pa_signed_headers p). canonical_value h n = canonical_value h' n) \<and> payload_hash h = payload_hash h'"
    using c unfolding c_def c'_def build_canonical_lines
    by (rule request_lines_inj
          [OF _ request_lines_no_newline [OF assms(5,6,8) payload_hash_no_newline]
             request_lines_no_newline [OF assms(5,7,9) payload_hash_no_newline]])
      (use assms(6,7) in \<open>auto simp: wf_auth_def\<close>)
  then show ?thesis using s by blast
qed

section \<open>A concrete instance\<close>

fun toy_unhex :: "string \<Rightarrow> bytes" where
  "toy_unhex (a # b # s) = of_nat ((of_char a - 97) * 16 + (of_char b - 97)) # toy_unhex s"
| "toy_unhex _ = []"

definition toy_hex :: "bytes \<Rightarrow> string" where
  "toy_hex b = concat (map (\<lambda>x. [char_of (97 + unat x div 16), char_of (97 + unat x mod 16)]) b)"

definition toy_signer :: sig_env where
  "toy_signer = \<lparr>sg_sha256 = (\<lambda>b. b), sg_hmac = (\<lambda>_ d. d), sg_hex = toy_hex, sg_lossy = (\<lambda>s. s),
     sg_utf8 = Some, sg_encode = filter (\<lambda>c. c \<noteq> newline)\<rparr>"

lemma toy_byte:
  fixes x :: u8
  shows "unat x div 16 + 97 < 256" "unat x mod 16 + 97 < 256"
proof -
  have "unat x < 256" using unsigned_less [of x] by simp
  then show "unat x div 16 + 97 < 256" "unat x mod 16 + 97 < 256" by linarith+
qed

lemma toy_unhex_hex: "toy_unhex (toy_hex b) = b"
  by (induction b) (use toy_byte in \<open>simp_all add: toy_hex_def add.commute\<close>)

lemma toy_hex_no_newline: "newline \<notin> set (toy_hex b)"
proof -
  have "(of_char newline :: nat) < 97" by (simp add: newline_def)
  moreover have "(of_char (char_of (97 + unat x div 16) :: char) :: nat) \<ge> 97" "(of_char (char_of (97 + unat x mod 16) :: char) :: nat) \<ge> 97" for x :: u8
    using toy_byte [of x] by (simp_all add: add.commute)
  ultimately have "newline \<noteq> char_of (97 + unat x div 16) \<and> newline \<noteq> char_of (97 + unat x mod 16)" for x :: u8
    by (metis not_less)
  then show ?thesis by (simp add: toy_hex_def)
qed

lemma toy_signer_laws: "sig_laws toy_signer"
  using toy_hex_no_newline by (auto simp: sig_laws_def toy_signer_def intro: inj_on_inverseI [of _ toy_unhex] toy_unhex_hex)

definition toy_headers :: "string \<Rightarrow> header_map" where
  "toy_headers agent = [(''host'', ''h''), (''x-amz-date'', ''20250101T000000Z''), (''user-agent'', agent)]"

definition toy_scope :: ParsedAuth where
  "toy_scope = \<lparr>pa_access_key = ''AK'', pa_date = ''20250101'', pa_region = ''us-east-1'',
     pa_signed_headers = [''host'', ''x-amz-date''], pa_signature = []\<rparr>"

text \<open>What a client computes, with the scope and the signed headers it has chosen.\<close>

definition sign_request :: "sig_env \<Rightarrow> string \<Rightarrow> string \<Rightarrow> string \<Rightarrow> header_map \<Rightarrow> ParsedAuth \<Rightarrow> string \<Rightarrow> ParsedAuth" where
  "sign_request G m u q h p k =
     p\<lparr>pa_signature :=
       computed_signature G (build_string_to_sign G (build_canonical_request G m u q h p) (amz_date h) p) p k\<rparr>"

lemma sign_request_verifies: "verify_signature G m u q h (sign_request G m u q h p k) k"
  by (simp add: verify_signature_iff sign_request_def computed_signature_def build_string_to_sign_def
      build_canonical_request_def Let_def)

lemma wf_sign_request: "wf_auth (sign_request G m u q h p k) \<longleftrightarrow> wf_auth p"
  by (simp add: wf_auth_def sign_request_def)

theorem signature_covers_request_witness:
  "verify_signature toy_signer ''GET'' ''/b/k'' ''b=2&a=1'' (toy_headers ''x'')
     (sign_request toy_signer ''GET'' ''/b/k'' ''b=2&a=1'' (toy_headers ''x'') toy_scope ''s'') ''s''
   \<and> verify_signature toy_signer ''GET'' ''/b/k'' ''a=1&b=2'' (toy_headers ''y'')
     (sign_request toy_signer ''GET'' ''/b/k'' ''a=1&b=2'' (toy_headers ''y'') toy_scope ''s'') ''s''
   \<and> canonical_query_string toy_signer ''b=2&a=1'' = canonical_query_string toy_signer ''a=1&b=2''"
proof -
  have "build_canonical_request toy_signer ''GET'' ''/b/k'' ''b=2&a=1'' (toy_headers ''x'') toy_scope
      = build_canonical_request toy_signer ''GET'' ''/b/k'' ''a=1&b=2'' (toy_headers ''y'') toy_scope"
    by code_simp
  then have "pa_signature (sign_request toy_signer ''GET'' ''/b/k'' ''b=2&a=1'' (toy_headers ''x'') toy_scope ''s'')
      = pa_signature (sign_request toy_signer ''GET'' ''/b/k'' ''a=1&b=2'' (toy_headers ''y'') toy_scope ''s'')"
    by (simp add: sign_request_def amz_date_def header_str_def header_get_def toy_headers_def to_ascii_lowercase_def
        ascii_lower_def is_ascii_uppercase_def)
  moreover have "wf_auth toy_scope" by (simp add: wf_auth_def toy_scope_def newline_def)
  ultimately have "canonical_query_string toy_signer ''b=2&a=1'' = canonical_query_string toy_signer ''a=1&b=2''"
    by (intro signature_covers_request [OF toy_signer_laws _ _ _ _ sign_request_verifies sign_request_verifies,
          THEN conjunct2, THEN conjunct2, THEN conjunct1])
      (simp_all add: wf_sign_request toy_signer_def as_bytes_inj newline_def)
  then show ?thesis by (simp add: sign_request_verifies)
qed

end
