(* ===== verification/Tenancy.thy ===== *)
theory Tenancy
  imports Buckets Proxy SigV4
begin

text \<open>
  Who may reach a bucket: the credential store (\<open>auth/credentials.rs\<close>), virtual-hosted buckets
  (\<open>api/virtual_host.rs\<close>), tenants (\<open>auth/tenant.rs\<close>, \<open>auth/tenant_middleware.rs\<close>), the bucket
  policy gate (\<open>auth/bucket_policy.rs\<close>) and the gates of the handlers
  (\<open>api/request_context.rs\<close>).

  A gate reads the bucket's metadata from the file system and answers with an S3 error, or the
  request ends in a panic of the policy evaluation (\<open>Panicked\<close>).
\<close>

section \<open>Configuration and credentials\<close>

record Config =
  cf_port :: nat
  cf_address :: string
  cf_access_key :: string
  cf_secret_key :: string
  cf_region :: string
  cf_trusted_proxies :: string
  cf_server_host :: string
  cf_default_tenant :: string
  cf_audit_log :: bool

record CredentialEntry =
  ce_access_key :: string
  ce_secret_key :: string
  ce_enabled :: bool
  ce_description :: "string option"
  ce_tenant_id :: "string option"
  ce_jwt_groups :: "string list"
  ce_jwt_roles :: "string list"

type_synonym CredentialStore = "string \<rightharpoonup> CredentialEntry"

definition DEFAULT_TENANT :: string where
  "DEFAULT_TENANT = ''default''"

definition configured_default_tenant :: "Config \<Rightarrow> string" where
  "configured_default_tenant cfg =
     (let trimmed = trim (cf_default_tenant cfg) in if trimmed = [] then DEFAULT_TENANT else trimmed)"

definition assign_default_tenant :: "string \<Rightarrow> CredentialEntry \<Rightarrow> CredentialEntry" where
  "assign_default_tenant default_tenant entry =
     (case ce_tenant_id entry of
        Some (c # cs) \<Rightarrow> entry
      | _ \<Rightarrow> entry\<lparr>ce_tenant_id := Some default_tenant\<rparr>)"

definition bootstrap_credential :: "Config \<Rightarrow> CredentialEntry" where
  "bootstrap_credential cfg =
     \<lparr>ce_access_key = cf_access_key cfg, ce_secret_key = cf_secret_key cfg, ce_enabled = True,
      ce_description = Some ''server bootstrap credential'', ce_tenant_id = None, ce_jwt_groups = [], ce_jwt_roles = []\<rparr>"

definition add_credential :: "string \<Rightarrow> CredentialStore \<Rightarrow> CredentialEntry \<Rightarrow> CredentialStore" where
  "add_credential default_tenant m entry =
     (if ce_access_key entry = [] \<or> ce_secret_key entry = [] then m
      else m(ce_access_key entry \<mapsto> assign_default_tenant default_tenant entry))"

text \<open>The credentials file is optional; \<open>parse\<close> is \<open>serde_json\<close> for it.\<close>

definition credentials_load :: "(bytes \<Rightarrow> string + CredentialEntry list) \<Rightarrow> path \<Rightarrow> Config \<Rightarrow> (string, CredentialStore) act" where
  "credentials_load parse data_dir cfg =
     (let default_tenant = configured_default_tenant cfg;
          m = Map.empty(cf_access_key cfg \<mapsto> assign_default_tenant default_tenant (bootstrap_credential cfg))
      in bind_act (attempt (fs_read_to_string (data_dir @ [''.maxio-credentials.json'']))) (\<lambda>r.
           case r of
             Inl _ \<Rightarrow> ok m
           | Inr raw \<Rightarrow> bind_act (lift_res (parse raw)) (\<lambda>creds. ok (foldl (add_credential default_tenant) m creds))))"

definition credential_lookup :: "CredentialStore \<Rightarrow> string \<Rightarrow> CredentialEntry option" where
  "credential_lookup s access_key =
     (case s access_key of Some c \<Rightarrow> if ce_enabled c then Some c else None | None \<Rightarrow> None)"

section \<open>The application state\<close>

text \<open>
  \<open>ap_amz_time\<close> parses \<open>%Y%m%dT%H%M%SZ\<close> into seconds, \<open>ap_instant\<close> is the monotonic clock in
  nanoseconds by draw, \<open>ap_rfc3339\<close> formats a time for the logs.
\<close>

record app =
  ap_env :: env
  ap_storage :: FilesystemStorage
  ap_config :: Config
  ap_credentials :: CredentialStore
  ap_server_host :: string
  ap_sig :: sig_env
  ap_amz_time :: "string \<Rightarrow> int option"
  ap_instant :: "nat \<Rightarrow> nat"
  ap_rfc3339 :: "int \<Rightarrow> string"

section \<open>Virtual hosts\<close>

definition object_key_from_signature_path :: "string \<Rightarrow> string option" where
  "object_key_from_signature_path signature_path =
     (let key = trim_start_matches CHR ''/'' signature_path in if key = [] then None else Some key)"

definition resolve_bucket :: "VirtualHostContext option \<Rightarrow> string \<Rightarrow> string" where
  "resolve_bucket vhost path_bucket = (case vhost of Some ctx \<Rightarrow> vh_bucket ctx | None \<Rightarrow> path_bucket)"

definition virtual_host_object_key :: "(string \<rightharpoonup> string) \<Rightarrow> VirtualHostContext option \<Rightarrow> string option" where
  "virtual_host_object_key params vhost =
     (if params \<noteq> Map.empty then None
      else Option.bind vhost (\<lambda>ctx. object_key_from_signature_path (vh_signature_path ctx)))"

definition signature_path_from_request :: "Request \<Rightarrow> string" where
  "signature_path_from_request request =
     (case rq_vhost request of Some ctx \<Rightarrow> vh_signature_path ctx | None \<Rightarrow> rq_path request)"

definition effective_server_host :: "Config \<Rightarrow> nat option \<Rightarrow> string" where
  "effective_server_host cfg listen_port =
     (if trim (cf_server_host cfg) \<noteq> [] then trim (cf_server_host cfg)
      else
        let host = (if cf_address cfg = ''0.0.0.0'' then ''127.0.0.1'' else cf_address cfg);
            port = (case listen_port of Some p \<Rightarrow> p | None \<Rightarrow> cf_port cfg)
        in host @ '':'' @ show_nat port)"

definition extract_virtual_bucket :: "string \<Rightarrow> string \<Rightarrow> string option" where
  "extract_virtual_bucket host0 server_host0 =
     (let host = to_ascii_lowercase (trim host0); server_host = to_ascii_lowercase (trim server_host0)
      in if host = server_host then None
         else case strip_suffix host (''.'' @ server_host) of
                None \<Rightarrow> None
              | Some bucket \<Rightarrow>
                  if bucket = [] then None
                  else (case validate_bucket_name bucket of Inl _ \<Rightarrow> None | Inr _ \<Rightarrow> Some bucket))"

definition host_header_value :: "header_map \<Rightarrow> string option" where
  "host_header_value headers = header_str headers ''host''"

definition apply_virtual_host :: "app \<Rightarrow> Request \<Rightarrow> Request" where
  "apply_virtual_host A request =
     (case host_header_value (rq_headers request) of
        None \<Rightarrow> request
      | Some host \<Rightarrow>
          (case extract_virtual_bucket host (ap_server_host A) of
             None \<Rightarrow> request
           | Some bucket \<Rightarrow> request\<lparr>rq_vhost := Some \<lparr>vh_bucket = bucket, vh_signature_path = rq_path request\<rparr>\<rparr>))"

section \<open>Tenants\<close>

definition effective_tenant_id :: "string option \<Rightarrow> string \<Rightarrow> string" where
  "effective_tenant_id tenant_id dflt = (case tenant_id of Some (c # cs) \<Rightarrow> c # cs | _ \<Rightarrow> dflt)"

definition credential_tenant_id :: "CredentialEntry \<Rightarrow> string \<Rightarrow> string" where
  "credential_tenant_id cred dflt = effective_tenant_id (ce_tenant_id cred) dflt"

definition bucket_tenant_id :: "BucketMeta \<Rightarrow> string \<Rightarrow> string" where
  "bucket_tenant_id meta dflt = effective_tenant_id (bm_tenant_id meta) dflt"

definition is_global_admin :: "string \<Rightarrow> Config \<Rightarrow> bool" where
  "is_global_admin access_key cfg \<longleftrightarrow> access_key = ''admin:bearer'' \<or> access_key = cf_access_key cfg"

definition bucket_access_allowed :: "BucketMeta \<Rightarrow> string \<Rightarrow> CredentialEntry option \<Rightarrow> Config \<Rightarrow> bool" where
  "bucket_access_allowed meta access_key cred cfg \<longleftrightarrow>
     (if is_global_admin access_key cfg then True
      else let dflt = configured_default_tenant cfg
           in case cred of None \<Rightarrow> False | Some c \<Rightarrow> bucket_tenant_id meta dflt = credential_tenant_id c dflt)"

datatype rejection = Rejected S3Error | Panicked

definition find_bucket_meta :: "app \<Rightarrow> string \<Rightarrow> (rejection, BucketMeta option) act" where
  "find_bucket_meta A bucket_name =
     bind_act (attempt (head_bucket (ap_storage A) bucket_name)) (\<lambda>h.
       case h of
         Inr False \<Rightarrow> ok None
       | Inl (InvalidKey _) \<Rightarrow> ok None
       | Inl _ \<Rightarrow> fail (Rejected internal_error)
       | Inr True \<Rightarrow>
           bind_act (attempt (read_bucket_meta (ap_env A) (ap_storage A) bucket_name)) (\<lambda>m.
             case m of
               Inr meta \<Rightarrow> ok (Some meta)
             | Inl (NotFound _) \<Rightarrow> ok None
             | Inl (InvalidKey _) \<Rightarrow> ok None
             | Inl _ \<Rightarrow> fail (Rejected internal_error)))"

definition ensure_bucket_access :: "app \<Rightarrow> string \<Rightarrow> string \<Rightarrow> (rejection, BucketMeta) act" where
  "ensure_bucket_access A access_key bucket_name =
     bind_act (find_bucket_meta A bucket_name) (\<lambda>found.
       case found of
         None \<Rightarrow> fail (Rejected (no_such_bucket bucket_name))
       | Some meta \<Rightarrow>
           if bucket_access_allowed meta access_key (credential_lookup (ap_credentials A) access_key) (ap_config A)
           then ok meta else fail (Rejected (access_denied ''Access Denied'')))"

definition ensure_bucket_access_optional :: "app \<Rightarrow> string option \<Rightarrow> string \<Rightarrow> (rejection, unit) act" where
  "ensure_bucket_access_optional A access_key bucket_name =
     (case access_key of
        Some k \<Rightarrow> bind_act (ensure_bucket_access A k bucket_name) (\<lambda>_. ok ())
      | None \<Rightarrow> ok ())"

definition filter_buckets_for_access :: "BucketMeta list \<Rightarrow> string \<Rightarrow> CredentialStore \<Rightarrow> Config \<Rightarrow> BucketMeta list" where
  "filter_buckets_for_access buckets access_key credentials cfg =
     (if is_global_admin access_key cfg then buckets
      else let dflt = configured_default_tenant cfg;
               cred_tenant = (case credential_lookup credentials access_key of
                                Some c \<Rightarrow> credential_tenant_id c dflt | None \<Rightarrow> dflt)
           in filter (\<lambda>b. bucket_tenant_id b dflt = cred_tenant) buckets)"

definition tenant_for_new_bucket :: "string \<Rightarrow> CredentialStore \<Rightarrow> Config \<Rightarrow> string" where
  "tenant_for_new_bucket access_key credentials cfg =
     (let dflt = configured_default_tenant cfg
      in if is_global_admin access_key cfg then dflt
         else case credential_lookup credentials access_key of
                Some c \<Rightarrow> credential_tenant_id c dflt | None \<Rightarrow> dflt)"

section \<open>The tenant check of the middleware\<close>

definition resolve_bucket_name :: "app \<Rightarrow> Request \<Rightarrow> string \<Rightarrow> string option" where
  "resolve_bucket_name A request path =
     (case Option.bind (host_header_value (rq_headers request)) (\<lambda>host. extract_virtual_bucket host (ap_server_host A)) of
        Some bucket \<Rightarrow> Some bucket
      | None \<Rightarrow>
          (case rq_vhost request of
             Some ctx \<Rightarrow> Some (vh_bucket ctx)
           | None \<Rightarrow>
               let bucket = hd (split_on CHR ''/'' (trim_start_matches CHR ''/'' path))
               in if bucket = [] then None else Some bucket))"

definition is_create_bucket :: "string \<Rightarrow> string \<Rightarrow> bool" where
  "is_create_bucket http_method qry \<longleftrightarrow>
     http_method = ''PUT'' \<and> (qry = [] \<or> CHR ''='' \<notin> set qry)"

record TenantScopePlan =
  ts_access_key :: "string option"
  ts_bucket :: string

definition plan_tenant_scope :: "app \<Rightarrow> Request \<Rightarrow> TenantScopePlan option" where
  "plan_tenant_scope A request =
     (if rq_path request = ''/'' \<or> rq_path request = [] then None
      else case resolve_bucket_name A request (rq_path request) of
             None \<Rightarrow> None
           | Some bucket \<Rightarrow>
               if is_create_bucket (rq_method request) (query_str request) then None
               else Some \<lparr>ts_access_key = rq_principal request, ts_bucket = bucket\<rparr>)"

definition enforce_tenant_scope :: "app \<Rightarrow> Request \<Rightarrow> (rejection, unit) act" where
  "enforce_tenant_scope A request =
     (case plan_tenant_scope A request of
        None \<Rightarrow> ok ()
      | Some plan \<Rightarrow> ensure_bucket_access_optional A (ts_access_key plan) (ts_bucket plan))"

section \<open>The bucket policy gate\<close>

record BucketPolicyTarget =
  pt_bucket :: string
  pt_object_key :: "string option"
  pt_action :: string
  pt_list_prefix :: "string option"

definition is_create_bucket_request :: "string \<Rightarrow> string \<Rightarrow> string \<Rightarrow> bool" where
  "is_create_bucket_request http_method qry path \<longleftrightarrow>
     eq_ignore_ascii_case http_method ''PUT'' \<and> (qry = [] \<or> CHR ''='' \<notin> set qry)
     \<and> hd (split_on CHR ''/'' (trim_start_matches CHR ''/'' path)) \<noteq> []
     \<and> CHR ''/'' \<notin> set (trim_start_matches CHR ''/'' path)"

definition extract_bucket_and_key :: "app \<Rightarrow> string \<Rightarrow> string option \<Rightarrow> string option \<Rightarrow> (string \<times> string option) option" where
  "extract_bucket_and_key A path host signature_path =
     (case Option.bind host (\<lambda>h. extract_virtual_bucket h (ap_server_host A)) of
        Some bucket \<Rightarrow>
          Some (bucket, object_key_from_signature_path (case signature_path of Some p \<Rightarrow> p | None \<Rightarrow> path))
      | None \<Rightarrow>
          let trimmed = trim_start_matches CHR ''/'' path
          in if trimmed = [] then None
             else case split_once CHR ''/'' trimmed of
                    Some (bucket, rest) \<Rightarrow> Some (bucket, if rest = [] then None else Some rest)
                  | None \<Rightarrow> Some (trimmed, None))"

definition s3_action_for_request :: "string \<Rightarrow> string \<Rightarrow> bool \<Rightarrow> string option" where
  "s3_action_for_request http_method qry has_object_key =
     (if query_has_key qry ''uploadId'' \<or> query_has_key qry ''uploads'' then Some ''s3:PutObject''
      else if http_method \<in> {''GET'', ''HEAD''} then Some (if has_object_key then ''s3:GetObject'' else ''s3:ListBucket'')
      else if http_method = ''PUT'' then Some ''s3:PutObject''
      else if http_method = ''DELETE'' then Some ''s3:DeleteObject''
      else if http_method = ''POST'' \<and> query_has_key qry ''delete'' then Some ''s3:DeleteObject''
      else if http_method = ''POST'' \<and> query_has_key qry ''uploads'' then Some ''s3:PutObject''
      else None)"

text \<open>\<open>find_map\<close> over the pairs of the query: the first \<open>prefix\<close> parameter with a value.\<close>

definition list_prefix_of :: "app \<Rightarrow> string \<Rightarrow> string option" where
  "list_prefix_of A qry =
     (case List.map_filter (\<lambda>pair. case split_once CHR ''='' pair of
               None \<Rightarrow> None
             | Some (k, v) \<Rightarrow> if eq_ignore_ascii_case k ''prefix'' then Some (sg_lossy (ap_sig A) v) else None)
            (split_on CHR ''&'' qry) of
        p # _ \<Rightarrow> if p = [] then None else Some p
      | [] \<Rightarrow> None)"

definition resolve_policy_target_from_parts ::
  "app \<Rightarrow> string \<Rightarrow> string \<Rightarrow> string \<Rightarrow> header_map \<Rightarrow> string option \<Rightarrow> BucketPolicyTarget option" where
  "resolve_policy_target_from_parts A http_method path qry headers signature_path =
     (if is_create_bucket_request http_method qry path then None
      else case extract_bucket_and_key A path (host_header_value headers) signature_path of
             None \<Rightarrow> None
           | Some (bucket, object_key) \<Rightarrow>
               Option.bind (s3_action_for_request http_method qry (object_key \<noteq> None)) (\<lambda>action.
                 Some \<lparr>pt_bucket = bucket, pt_object_key = object_key, pt_action = action,
                       pt_list_prefix = list_prefix_of A qry\<rparr>))"

definition resolve_policy_target :: "app \<Rightarrow> Request \<Rightarrow> BucketPolicyTarget option" where
  "resolve_policy_target A request =
     resolve_policy_target_from_parts A (rq_method request) (rq_path request) (query_str request) (rq_headers request)
       (map_option vh_signature_path (rq_vhost request))"

definition policy_context_for_principal :: "app \<Rightarrow> string option \<Rightarrow> string \<Rightarrow> PolicyContext" where
  "policy_context_for_principal A who ip =
     (case Option.bind who (credential_lookup (ap_credentials A)) of
        Some cred \<Rightarrow>
          \<lparr>pc_principal_access_key = who, pc_source_ip = Some ip, pc_is_anonymous = (who = None),
           pc_jwt_groups = ce_jwt_groups cred, pc_jwt_roles = ce_jwt_roles cred, pc_oidc_claims = None\<rparr>
      | None \<Rightarrow>
          \<lparr>pc_principal_access_key = who, pc_source_ip = Some ip, pc_is_anonymous = (who = None),
           pc_jwt_groups = [], pc_jwt_roles = [], pc_oidc_claims = None\<rparr>)"

definition enforce_policy_target :: "app \<Rightarrow> BucketPolicyTarget \<Rightarrow> string option \<Rightarrow> string \<Rightarrow> (rejection, unit) act" where
  "enforce_policy_target A target who ip =
     bind_act (attempt (get_bucket_policy (ap_env A) (ap_storage A) (pt_bucket target))) (\<lambda>r.
       case r of
         Inr None \<Rightarrow> ok ()
       | Inl (NotFound _) \<Rightarrow> ok ()
       | Inl _ \<Rightarrow> fail (Rejected internal_error)
       | Inr (Some policy) \<Rightarrow>
           if \<not> policy_requires_v2_enforcement (e_policy (ap_env A)) (pt_bucket target) policy then ok ()
           else
             let ctx = policy_context_for_principal A who ip;
                 req = \<lparr>pr_action = pt_action target, pr_bucket = pt_bucket target,
                        pr_object_key = pt_object_key target, pr_list_prefix = pt_list_prefix target\<rparr>
             in case evaluate_policy_v2 (e_policy (ap_env A)) policy req ctx of
                  None \<Rightarrow> fail Panicked
                | Some (Inl e) \<Rightarrow> fail (Rejected (malformed_policy e))
                | Some (Inr Allow) \<Rightarrow> ok ()
                | Some (Inr _) \<Rightarrow> fail (Rejected (access_denied ''Access Denied'')))"

definition enforce_bucket_policy_for_target ::
  "app \<Rightarrow> BucketPolicyTarget option \<Rightarrow> string option \<Rightarrow> string \<Rightarrow> (rejection, unit) act" where
  "enforce_bucket_policy_for_target A target who ip =
     (case target of None \<Rightarrow> ok () | Some t \<Rightarrow> enforce_policy_target A t who ip)"

definition enforce_bucket_policy_for_parts ::
  "app \<Rightarrow> string \<Rightarrow> string \<Rightarrow> string \<Rightarrow> header_map \<Rightarrow> VirtualHostContext option \<Rightarrow> string option \<Rightarrow> string
     \<Rightarrow> (rejection, unit) act" where
  "enforce_bucket_policy_for_parts A http_method path qry headers vhost who ip =
     enforce_bucket_policy_for_target A
       (resolve_policy_target_from_parts A http_method path qry headers (map_option vh_signature_path vhost)) who ip"

section \<open>The gates of the handlers\<close>

text \<open>The principal and the virtual host are those of the request's extensions.\<close>

definition enforce_tenant_bucket :: "app \<Rightarrow> Request \<Rightarrow> string \<Rightarrow> (rejection, unit) act" where
  "enforce_tenant_bucket A ctx bucket = ensure_bucket_access_optional A (rq_principal ctx) bucket"

text \<open>
  The parameters are printed in the iteration order of a hash map, which is a parameter: a list
  of the pairs of \<open>params\<close> in some order.
\<close>

definition query_string :: "(string \<times> string) list \<Rightarrow> string" where
  "query_string pairs = join ''&'' (map (\<lambda>(k, v). k @ ''='' @ v) pairs)"

definition enforce_s3_bucket_gates ::
  "app \<Rightarrow> Request \<Rightarrow> string \<Rightarrow> string \<Rightarrow> string option \<Rightarrow> (string \<times> string) list \<Rightarrow> string \<Rightarrow> (rejection, unit) act" where
  "enforce_s3_bucket_gates A ctx http_method bucket object_key params ip =
     bind_act (enforce_tenant_bucket A ctx bucket) (\<lambda>_.
       let path = (case object_key of Some key \<Rightarrow> ''/'' @ bucket @ ''/'' @ key | None \<Rightarrow> ''/'' @ bucket)
       in enforce_bucket_policy_for_parts A http_method path (query_string params) (rq_headers ctx) (rq_vhost ctx)
            (rq_principal ctx) ip)"

definition enforce_copy_source_gates ::
  "app \<Rightarrow> Request \<Rightarrow> string \<Rightarrow> string \<Rightarrow> string \<Rightarrow> (rejection, unit) act" where
  "enforce_copy_source_gates A ctx src_bucket src_key ip =
     bind_act (enforce_tenant_bucket A ctx src_bucket) (\<lambda>_.
       enforce_bucket_policy_for_parts A ''GET'' (''/'' @ src_bucket @ ''/'' @ src_key) [] (rq_headers ctx) (rq_vhost ctx)
         (rq_principal ctx) ip)"

end
