(* ===== verification/Multipart.thy ===== *)
theory Multipart
  imports ObjectProps
begin

text \<open>
  Multipart uploads (\<open>filesystem/multipart.rs\<close>): creating an upload, uploading parts, completing
  it in the flat, chunked and encrypted variants, aborting and listing.

  As for single uploads, what a \<open>BufWriter\<close> passes on appears in a file when the loop that
  writes it is over; a part whose upload fails in the loop is left as the empty file that was
  created.
\<close>

section \<open>Reading upload and part records\<close>

definition read_upload_meta :: "env \<Rightarrow> FilesystemStorage \<Rightarrow> string \<Rightarrow> string \<Rightarrow> (StorageError, MultipartUploadMeta) act" where
  "read_upload_meta E st bucket upload_id =
     read_json (e_upload E) (UploadNotFound upload_id) (upload_meta_path (st_buckets_dir st) bucket upload_id)"

definition read_part_meta :: "env \<Rightarrow> FilesystemStorage \<Rightarrow> string \<Rightarrow> string \<Rightarrow> nat \<Rightarrow> (StorageError, PartMeta) act" where
  "read_part_meta E st bucket upload_id part_number =
     read_json (e_part E) (InvalidKey (''missing part '' @ show_nat part_number))
       (part_meta_path (st_buckets_dir st) bucket upload_id part_number)"

section \<open>Creating an upload\<close>

text \<open>The upload's own data key and nonce prefix; a customer key is used directly and not stored.\<close>

definition augment_spec ::
  "env \<Rightarrow> FilesystemStorage \<Rightarrow> randomness \<Rightarrow> UploadEncryptionSpec \<Rightarrow> StorageError + UploadEncryptionSpec" where
  "augment_spec E st rnd spec0 =
     (let b64 = fst (e_b64 E); spec = spec0\<lparr>ue_upload_nonce_prefix := b64 (rnd_prefix rnd)\<rparr>
      in case ue_mode spec of
           SseS3 \<Rightarrow>
             (let kid = kr_active_id (ks_keyring (st_keys st))
              in bind_res (map_err EncryptionError (wrap_dek (e_enc E) (rnd_nonce rnd) (ks_keyring (st_keys st)) kid (rnd_dek rnd)))
                   (\<lambda>(wrapped, wrap_nonce).
                      Inr (spec\<lparr>ue_upload_dek_wrapped := Some (b64 wrapped), ue_upload_dek_wrap_nonce := Some (b64 wrap_nonce),
                                ue_upload_dek_key_id := Some kid\<rparr>)))
         | SseKms \<Rightarrow>
             bind_res (ok_or (ks_kms (st_keys st)) (EncryptionError ''SSE-KMS not configured'')) (\<lambda>kms.
             bind_res (map_err (\<lambda>e. EncryptionError (kms_error_string e))
                         (generate_data_key (e_enc E) (rnd_dek rnd) (rnd_nonce rnd) kms (ue_kms_key_id spec))) (\<lambda>generated.
               Inr (spec\<lparr>ue_upload_dek_wrapped := Some (b64 (gd_ciphertext generated)),
                         ue_upload_dek_wrap_nonce := Some (b64 (gd_wrap_nonce generated)),
                         ue_kms_key_id := Some (gd_kms_key_id generated)\<rparr>)))
         | SseC \<Rightarrow> Inr spec)"

definition new_upload_spec ::
  "env \<Rightarrow> FilesystemStorage \<Rightarrow> UploadEncryptionSpec option \<Rightarrow> (StorageError, UploadEncryptionSpec option) act" where
  "new_upload_spec E st encryption_spec =
     (case encryption_spec of
        None \<Rightarrow> ok None
      | Some spec \<Rightarrow>
          bind_act (draw (e_rnd E)) (\<lambda>rnd.
          bind_act (lift_res (augment_spec E st rnd spec)) (\<lambda>s. ok (Some s))))"

definition create_multipart_upload ::
  "env \<Rightarrow> FilesystemStorage \<Rightarrow> string \<Rightarrow> string \<Rightarrow> string \<Rightarrow> ChecksumAlgorithm option \<Rightarrow> UploadEncryptionSpec option
     \<Rightarrow> (StorageError, MultipartUploadMeta) act" where
  "create_multipart_upload E st bucket key content_type checksum_algorithm encryption_spec =
     bind_act (lift_res (validate_bucket_name bucket)) (\<lambda>_.
     bind_act (lift_res (validate_key key)) (\<lambda>_.
     bind_act (draw (e_uuid E)) (\<lambda>upload_id.
     bind_act (io (fs_create_dir_all (upload_dir (st_buckets_dir st) bucket upload_id))) (\<lambda>_.
     bind_act (new_upload_spec E st encryption_spec) (\<lambda>spec.
     bind_act (now_string E) (\<lambda>initiated.
     let meta = \<lparr>um_upload_id = upload_id, um_bucket = bucket, um_key = key, um_content_type = content_type,
                  um_initiated = initiated, um_checksum_algorithm = checksum_algorithm, um_encryption_spec = spec\<rparr>
     in bind_act (write_json (e_upload E) (upload_meta_path (st_buckets_dir st) bucket upload_id) meta) (\<lambda>_. ok meta)))))))"

section \<open>Uploading a part\<close>

definition part_cipher ::
  "env \<Rightarrow> FilesystemStorage \<Rightarrow> string \<Rightarrow> nat \<Rightarrow> UploadEncryptionSpec option \<Rightarrow> bytes option \<Rightarrow> StorageError + cipher option" where
  "part_cipher E st upload_id part_number encryption_spec customer_key =
     (case encryption_spec of
        None \<Rightarrow> Inr None
      | Some spec \<Rightarrow>
          bind_res (resolve_upload_dek (e_dec E) (e_b64 E) (e_md5 E) (st_keys st) spec customer_key) (\<lambda>dek.
          bind_res (decode_b64 (e_b64 E) (ue_upload_nonce_prefix spec) (EncryptionError ''invalid upload_nonce_prefix'')) (\<lambda>prefix_bytes.
            if length prefix_bytes \<noteq> 4 \<and> length prefix_bytes \<noteq> 8
            then Inl (EncryptionError ''upload_nonce_prefix must be 4 or 8 bytes'')
            else Inr (Some (dek, prefix_bytes, part_aad_builder (e_sha256 E) upload_id part_number)))))"

definition fs_file_len :: "path \<Rightarrow> (io_error, nat) act" where
  "fs_file_len p = query (\<lambda>t. case read_at p t of Inl e \<Rightarrow> Inl e | Inr data \<Rightarrow> Inr (length data))"

text \<open>What follows the payload loop.\<close>

definition finish_part ::
  "env \<Rightarrow> FilesystemStorage \<Rightarrow> string \<Rightarrow> string \<Rightarrow> nat \<Rightarrow> bool \<Rightarrow> (ChecksumAlgorithm \<times> string option) option
     \<Rightarrow> frame_writer \<Rightarrow> (StorageError, PartMeta) act" where
  "finish_part E st bucket upload_id part_number encrypted checksum fw =
     (let part_path = part_path (st_buckets_dir st) bucket upload_id part_number
      in bind_act (io (fs_write part_path (fw_out fw))) (\<lambda>_.
         bind_act (check_checksum E part_path False checksum (fw_hashed fw)) (\<lambda>(algo, value).
         bind_act (if encrypted then bind_act (io (fs_file_len part_path)) (\<lambda>n. ok (Some n)) else ok None) (\<lambda>ciphertext_size.
         bind_act (now_string E) (\<lambda>now.
         let meta = \<lparr>pm_part_number = part_number, pm_etag = etag_of E (fw_hashed fw), pm_size = fw_size fw, pm_last_modified = now,
                      pm_checksum_algorithm = algo, pm_checksum_value = value, pm_encrypted = encrypted,
                      pm_ciphertext_size = ciphertext_size\<rparr>
         in bind_act (attempt (write_json (e_part E) (part_meta_path (st_buckets_dir st) bucket upload_id part_number) meta)) (\<lambda>r.
              case r of
                Inr _ \<Rightarrow> ok meta
              | Inl e \<Rightarrow> bind_act (ignore (fs_remove_file part_path)) (\<lambda>_. fail e)))))))"

definition upload_part ::
  "env \<Rightarrow> FilesystemStorage \<Rightarrow> 's reader \<Rightarrow> string \<Rightarrow> string \<Rightarrow> nat \<Rightarrow> 's \<Rightarrow> (ChecksumAlgorithm \<times> string option) option
     \<Rightarrow> bytes option \<Rightarrow> nat option \<Rightarrow> (StorageError, PartMeta) pact" where
  "upload_part E st rd bucket upload_id part_number body checksum customer_key declared_size =
     bind_p (total
       (bind_act (lift_res (validate_bucket_name bucket)) (\<lambda>_.
        bind_act (lift_res (validate_upload_id upload_id)) (\<lambda>_.
        bind_act (lift_res (check_upload_start (st_quota st) (e_disk E 0) declared_size)) (\<lambda>_.
        bind_act (if part_number = 0 \<or> part_number > 10000 then fail (InvalidKey ''part number must be 1..=10000'') else ok ()) (\<lambda>_.
        bind_act (io (fs_try_exists (upload_dir (st_buckets_dir st) bucket upload_id))) (\<lambda>there.
        bind_act (if there then ok () else fail (UploadNotFound upload_id)) (\<lambda>_.
        bind_act (read_upload_meta E st bucket upload_id) (\<lambda>upload_meta.
        bind_act (lift_res (part_cipher E st upload_id part_number (um_encryption_spec upload_meta) customer_key)) (\<lambda>cipher_opt.
        bind_act (io (fs_write (part_path (st_buckets_dir st) bucket upload_id part_number) [])) (\<lambda>_.
          ok cipher_opt)))))))))))
       (\<lambda>cipher_opt.
          bind_p (lift_opt (map_option fst (put_payload (quota_poll_read rd (e_disk E)) IO_BUFFER_SIZE (e_enc E) cipher_opt
                    (QuotaReader_new body (st_quota st)) fw_new))) (\<lambda>fw.
            total (finish_part E st bucket upload_id part_number (cipher_opt \<noteq> None) checksum fw)))"

section \<open>Completing an upload\<close>

text \<open>The requested parts; every part but the last has at least 5 MiB.\<close>

fun select_parts ::
  "env \<Rightarrow> FilesystemStorage \<Rightarrow> string \<Rightarrow> string \<Rightarrow> (nat \<times> string) list \<Rightarrow> (StorageError, PartMeta list) act" where
  "select_parts E st bucket upload_id [] = ok []"
| "select_parts E st bucket upload_id ((part_number, requested_etag) # parts) =
     bind_act (read_part_meta E st bucket upload_id part_number) (\<lambda>meta.
       if pm_etag meta \<noteq> requested_etag then fail (InvalidKey (''etag mismatch for part '' @ show_nat part_number))
       else if parts \<noteq> [] \<and> pm_size meta < 5 * 1024 * 1024 then fail (InvalidKey ''part too small'')
       else bind_act (select_parts E st bucket upload_id parts) (\<lambda>selected. ok (meta # selected)))"

text \<open>An opened part: a file, decrypted under the upload's key when the part is encrypted.\<close>

definition open_part ::
  "env \<Rightarrow> FilesystemStorage \<Rightarrow> string \<Rightarrow> string \<Rightarrow> bytes option \<Rightarrow> PartMeta \<Rightarrow> (StorageError, object_reader) act" where
  "open_part E st bucket upload_id upload_dek part =
     (let part_path = part_path (st_buckets_dir st) bucket upload_id (pm_part_number part)
      in if pm_encrypted part
         then bind_act (lift_res (ok_or upload_dek (EncryptionError ''encrypted part but upload spec has no DEK''))) (\<lambda>dek.
              bind_act (io (fs_read part_path)) (\<lambda>file.
                ok (FrameStream (FrameDecryptor_new file dek (pm_size part) FRAME_CHUNK_SIZE
                      (part_aad_builder (e_sha256 E) upload_id (pm_part_number part))))))
         else bind_act (io (fs_read part_path)) (\<lambda>file. ok (MemStream file)))"

definition part_md5 :: "env \<Rightarrow> PartMeta \<Rightarrow> StorageError + bytes" where
  "part_md5 E part = ok_or (e_unhex E (trim_matches CHR 0x22 (pm_etag part))) (InvalidKey ''invalid part etag'')"

text \<open>The ETag of the whole, and the checksum over the checksums of the parts.\<close>

definition multipart_etag :: "env \<Rightarrow> bytes \<Rightarrow> nat \<Rightarrow> string" where
  "multipart_etag E hashed n = [CHR 0x22] @ e_hex E (e_md5 E hashed) @ ''-'' @ show_nat n @ [CHR 0x22]"

definition raw_checksum :: "env \<Rightarrow> PartMeta \<Rightarrow> bytes" where
  "raw_checksum E part =
     (case Option.bind (pm_checksum_value part) (snd (e_b64 E)) of Some raw \<Rightarrow> raw | None \<Rightarrow> [])"

definition composite_checksum ::
  "env \<Rightarrow> ChecksumAlgorithm option \<Rightarrow> PartMeta list \<Rightarrow> ChecksumAlgorithm option \<times> string option" where
  "composite_checksum E checksum_algorithm selected =
     (case checksum_algorithm of
        None \<Rightarrow> (None, None)
      | Some algo \<Rightarrow>
          let raw_checksums = concat (map (raw_checksum E) selected)
          in if raw_checksums \<noteq> []
             then (Some algo, Some (e_checksum E algo raw_checksums @ ''-'' @ show_nat (length selected)))
             else (Some algo, None))"

definition multipart_meta ::
  "env \<Rightarrow> MultipartUploadMeta \<Rightarrow> PartMeta list \<Rightarrow> nat \<Rightarrow> bytes \<Rightarrow> string \<Rightarrow> string option \<Rightarrow> string option
     \<Rightarrow> EncryptionMeta option \<Rightarrow> ObjectMeta" where
  "multipart_meta E um selected total_size hashed now version_id format em =
     (case composite_checksum E (um_checksum_algorithm um) selected of (algo, value) \<Rightarrow>
        (upload_meta (um_key um) total_size (multipart_etag E hashed (length selected)) (um_content_type um) now version_id format
           algo value em)\<lparr>om_part_sizes := Some (map pm_size selected)\<rparr>)"

text \<open>The request under which the completed object is encrypted again.\<close>

definition final_request :: "UploadEncryptionSpec \<Rightarrow> bytes option \<Rightarrow> StorageError + EncryptionRequest" where
  "final_request spec customer_key =
     (case ue_mode spec of
        SseS3 \<Rightarrow> Inr sse_s3
      | SseC \<Rightarrow> bind_res (ok_or customer_key (EncryptionError ''SSE-C requires customer key on CompleteMultipartUpload''))
                  (\<lambda>ck. Inr (sse_c ck))
      | SseKms \<Rightarrow> Inr (sse_kms (ue_kms_key_id spec)))"

definition check_sse_c_continuity :: "env \<Rightarrow> UploadEncryptionSpec option \<Rightarrow> bytes option \<Rightarrow> StorageError + unit" where
  "check_sse_c_continuity E encryption_spec customer_key =
     (case encryption_spec of
        None \<Rightarrow> Inr ()
      | Some spec \<Rightarrow>
          if ue_mode spec = SseC
          then bind_res (ok_or customer_key (EncryptionError ''SSE-C requires customer key on CompleteMultipartUpload'')) (\<lambda>ck.
                 case ue_customer_key_md5 spec of
                   Some stored \<Rightarrow> if fst (e_b64 E) (e_md5 E ck) \<noteq> stored
                                  then Inl (EncryptionError ''SSE-C key changed between Create and Complete'') else Inr ()
                 | None \<Rightarrow> Inr ())
          else Inr ())"

definition show_bool :: "bool \<Rightarrow> string" where
  "show_bool b = (if b then ''true'' else ''false'')"

definition check_part_flag :: "bool \<Rightarrow> PartMeta \<Rightarrow> StorageError + unit" where
  "check_part_flag upload_is_encrypted part =
     (if pm_encrypted part \<noteq> upload_is_encrypted
      then Inl (IntegrityError (''part '' @ show_nat (pm_part_number part) @ '' encryption flag ('' @ show_bool (pm_encrypted part)
             @ '') disagrees with upload spec ('' @ show_bool upload_is_encrypted @ '') '' @ em_dash
             @ '' part meta may be tampered''))
      else Inr ())"

subsection \<open>Into one file\<close>

partial_function (option) copy_part ::
  "'s reader \<Rightarrow> nat \<Rightarrow> aead \<Rightarrow> cipher option \<Rightarrow> 's \<Rightarrow> frame_writer \<Rightarrow> (StorageError + frame_writer) option" where
  "copy_part rd cap enc cipher_opt s w =
     (case rd s cap of
        (Pending, s') \<Rightarrow> copy_part rd cap enc cipher_opt s' w
      | (Ready (Inl e), s') \<Rightarrow> Some (Inl (Io e))
      | (Ready (Inr bs), s') \<Rightarrow>
          (if bs = [] then Some (Inr w)
           else (case accept_bytes enc cipher_opt bs w of
                   Inl e \<Rightarrow> Some (Inl e)
                 | Inr w' \<Rightarrow> copy_part rd cap enc cipher_opt s' w')))"

text \<open>
  The loop over the parts, for each kind of writer: \<open>feed\<close> is the inner loop. The accumulated
  digests of the parts are what the ETag hashes.
\<close>

fun copy_parts ::
  "env \<Rightarrow> FilesystemStorage \<Rightarrow> string \<Rightarrow> string \<Rightarrow> bytes option \<Rightarrow> (object_reader \<Rightarrow> 'w \<Rightarrow> (StorageError + 'w) option)
     \<Rightarrow> PartMeta list \<Rightarrow> 'w \<Rightarrow> bytes \<Rightarrow> (StorageError, 'w \<times> bytes) pact" where
  "copy_parts E st bucket upload_id upload_dek feed [] w hashed = total (ok (w, hashed))"
| "copy_parts E st bucket upload_id upload_dek feed (part # parts) w hashed =
     bind_p (total (open_part E st bucket upload_id upload_dek part)) (\<lambda>part_stream.
     bind_p (lift_opt (feed part_stream w)) (\<lambda>w'.
     bind_p (total (lift_res (part_md5 E part))) (\<lambda>raw_md5.
       copy_parts E st bucket upload_id upload_dek feed parts w' (hashed @ raw_md5))))"

definition upload_dek_opt ::
  "env \<Rightarrow> FilesystemStorage \<Rightarrow> UploadEncryptionSpec option \<Rightarrow> bytes option \<Rightarrow> StorageError + bytes option" where
  "upload_dek_opt E st encryption_spec customer_key =
     (case encryption_spec of
        None \<Rightarrow> Inr None
      | Some spec \<Rightarrow> bind_res (resolve_upload_dek (e_dec E) (e_b64 E) (e_md5 E) (st_keys st) spec customer_key) (\<lambda>dek. Inr (Some dek)))"

definition final_encryption ::
  "env \<Rightarrow> FilesystemStorage \<Rightarrow> UploadEncryptionSpec option \<Rightarrow> bytes option \<Rightarrow> (StorageError, (EncryptionMeta \<times> bytes \<times> bytes) option) act" where
  "final_encryption E st encryption_spec customer_key =
     (case encryption_spec of
        None \<Rightarrow> ok None
      | Some spec \<Rightarrow>
          bind_act (lift_res (final_request spec customer_key)) (\<lambda>req.
          bind_act (draw (e_rnd E)) (\<lambda>rnd.
          bind_act (lift_res (as_encryption_error (prepare_encryption (e_enc E) (e_b64 E) (e_md5 E) rnd (st_keys st) req))) (\<lambda>em.
          bind_act (lift_res (resolve_dek (e_dec E) (e_b64 E) (e_md5 E) (st_keys st) em customer_key)) (\<lambda>dek.
          bind_act (lift_res (decode_b64 (e_b64 E) (em_nonce_prefix em) (EncryptionError ''invalid nonce_prefix''))) (\<lambda>prefix_bytes.
            ok (Some (em, dek, prefix_bytes))))))))"

definition remove_upload :: "FilesystemStorage \<Rightarrow> string \<Rightarrow> string \<Rightarrow> (StorageError, unit) act" where
  "remove_upload st bucket upload_id = io (fs_remove_dir_all (upload_dir (st_buckets_dir st) bucket upload_id))"

definition object_cipher ::
  "env \<Rightarrow> string \<Rightarrow> string \<Rightarrow> string option \<Rightarrow> EncryptionMeta \<times> bytes \<times> bytes \<Rightarrow> EncryptionMeta \<times> bytes \<times> cipher" where
  "object_cipher E bucket key version_id c =
     (case c of (em, dek, pre) \<Rightarrow> (em, dek, dek, pre, object_aad_builder (e_sha256 E) bucket key version_id))"

definition complete_flat ::
  "env \<Rightarrow> FilesystemStorage \<Rightarrow> string \<Rightarrow> string \<Rightarrow> MultipartUploadMeta \<Rightarrow> PartMeta list \<Rightarrow> bytes option \<Rightarrow> (StorageError, PutResult) pact" where
  "complete_flat E st bucket upload_id um selected customer_key =
     bind_p (total
       (bind_act (lift_res (check_sse_c_continuity E (um_encryption_spec um) customer_key)) (\<lambda>_.
        bind_act (lift_res (try_each (check_part_flag (um_encryption_spec um \<noteq> None)) selected)) (\<lambda>_.
        bind_act (lift_res (upload_dek_opt E st (um_encryption_spec um) customer_key)) (\<lambda>upload_dek.
        bind_act (final_encryption E st (um_encryption_spec um) customer_key) (\<lambda>enc.
        bind_act (new_version E st bucket) (\<lambda>version_id.
          ok (upload_dek, map_option (object_cipher E bucket (um_key um) version_id) enc, version_id))))))))
       (\<lambda>(upload_dek, c, version_id).
     let key = um_key um; obj_path = object_path (st_buckets_dir st) bucket key
     in bind_p (total (create_parent obj_path)) (\<lambda>_.
        bind_p (total (temp_sibling_path (e_uuid E) obj_path)) (\<lambda>tmp_obj.
        bind_p
          (guard_p tmp_obj False
             (bind_p (total (io (fs_write tmp_obj []))) (\<lambda>_.
              bind_p (copy_parts E st bucket upload_id upload_dek
                        (copy_part (object_read E) IO_BUFFER_SIZE (e_enc E) (map_option (snd \<circ> snd) c)) selected fw_new []) (\<lambda>(fw0, hashed).
                total
                  (bind_act (lift_res (flush_frame (e_enc E) (map_option (snd \<circ> snd) c) fw0)) (\<lambda>fw.
                   bind_act (io (fs_write tmp_obj (fw_out fw))) (\<lambda>_.
                   bind_act (now_string E) (\<lambda>now.
                   let meta = seal_opt E c (multipart_meta E um selected (fw_size fw) hashed now version_id None (map_option fst c))
                   in bind_act (publish_upload E st bucket key meta tmp_obj obj_path False) (\<lambda>_. ok meta)))))))))
          (\<lambda>meta. total
             (bind_act (if version_id \<noteq> None then write_version E st bucket key meta obj_path else ok ()) (\<lambda>_.
              bind_act (remove_upload st bucket upload_id) (\<lambda>_.
                ok (put_result meta))))))))"

subsection \<open>Into chunks\<close>

partial_function (option) copy_part_chunks ::
  "'s reader \<Rightarrow> nat \<Rightarrow> (bytes \<Rightarrow> string) \<Rightarrow> nat \<Rightarrow> 's \<Rightarrow> chunk_writer \<Rightarrow> (StorageError + chunk_writer) option" where
  "copy_part_chunks rd cap sha chunk_size s w =
     (case rd s cap of
        (Pending, s') \<Rightarrow> copy_part_chunks rd cap sha chunk_size s' w
      | (Ready (Inl e), s') \<Rightarrow> Some (Inl (Io e))
      | (Ready (Inr bs), s') \<Rightarrow>
          (if bs = [] then Some (Inr w)
           else (case write_full_chunks sha chunk_size
                        (w\<lparr>cw_hashed := cw_hashed w @ bs, cw_total := cw_total w + length bs, cw_buf := cw_buf w @ bs\<rparr>) of
                   None \<Rightarrow> None
                 | Some w' \<Rightarrow> copy_part_chunks rd cap sha chunk_size s' w')))"

text \<open>The parts of an unencrypted upload are read as they are.\<close>

definition complete_multipart_chunked ::
  "env \<Rightarrow> FilesystemStorage \<Rightarrow> string \<Rightarrow> string \<Rightarrow> MultipartUploadMeta \<Rightarrow> PartMeta list \<Rightarrow> (StorageError, PutResult) pact" where
  "complete_multipart_chunked E st bucket upload_id um selected =
     (let key = um_key um; ec = ec_dir (st_buckets_dir st) bucket key; sha = e_hex E \<circ> e_sha256 E
      in bind_p (total (temp_sibling_path (e_uuid E) ec)) (\<lambda>tmp_ec.
         bind_p
           (guard_p tmp_ec True
              (bind_p (total (bind_act (create_parent ec) (\<lambda>_. io (fs_create_dir_all tmp_ec)))) (\<lambda>_.
               bind_p (total (new_version E st bucket)) (\<lambda>version_id.
               bind_p (copy_parts E st bucket upload_id None (copy_part_chunks (object_read E) IO_BUFFER_SIZE sha (st_chunk_size st))
                         (map (\<lambda>p. p\<lparr>pm_encrypted := False\<rparr>) selected) cw_new []) (\<lambda>(w, hashed).
               bind_p (lift_opt (Some (finish_chunks sha (e_rs_encode E) (st_chunk_size st) (st_parity_shards st)
                         (if cw_buf w \<noteq> [] then push_chunk sha (cw_buf w) w else w)))) (\<lambda>(manifest, files).
                 total
                   (bind_act (write_chunk_files E tmp_ec manifest files) (\<lambda>_.
                    bind_act (now_string E) (\<lambda>now.
                    let meta = multipart_meta E um selected (cm_total_size manifest) hashed now version_id
                                 (Some (chunk_format manifest)) None
                    in bind_act (publish_upload E st bucket key meta tmp_ec ec True) (\<lambda>_. ok meta))))))))))
           (\<lambda>meta. total
              (bind_act (if om_version_id meta \<noteq> None then write_version_chunked E st bucket key meta else ok ()) (\<lambda>_.
               bind_act (remove_upload st bucket upload_id) (\<lambda>_.
                 ok (put_result meta)))))))"

partial_function (option) copy_part_sealed ::
  "'s reader \<Rightarrow> nat \<Rightarrow> aead \<Rightarrow> cipher \<Rightarrow> (bytes \<Rightarrow> string) \<Rightarrow> nat \<Rightarrow> 's \<Rightarrow> enc_chunk_writer
     \<Rightarrow> (StorageError + enc_chunk_writer) option" where
  "copy_part_sealed rd cap enc cph sha chunk_size s w =
     (case rd s cap of
        (Pending, s') \<Rightarrow> copy_part_sealed rd cap enc cph sha chunk_size s' w
      | (Ready (Inl e), s') \<Rightarrow> Some (Inl (Io e))
      | (Ready (Inr bs), s') \<Rightarrow>
          (if bs = [] then Some (Inr w)
           else (case seal_frames enc cph sha chunk_size
                        (w\<lparr>ew_hashed := ew_hashed w @ bs, ew_plaintext_size := ew_plaintext_size w + length bs,
                           ew_frame_buf := ew_frame_buf w @ bs\<rparr>) of
                   None \<Rightarrow> None
                 | Some (Inl e) \<Rightarrow> Some (Inl e)
                 | Some (Inr w') \<Rightarrow> copy_part_sealed rd cap enc cph sha chunk_size s' w')))"

definition complete_multipart_chunked_encrypted ::
  "env \<Rightarrow> FilesystemStorage \<Rightarrow> string \<Rightarrow> string \<Rightarrow> MultipartUploadMeta \<Rightarrow> PartMeta list \<Rightarrow> bytes option \<Rightarrow> (StorageError, PutResult) pact" where
  "complete_multipart_chunked_encrypted E st bucket upload_id um selected customer_key =
     (let key = um_key um; ec = ec_dir (st_buckets_dir st) bucket key; sha = e_hex E \<circ> e_sha256 E
      in bind_p (total (temp_sibling_path (e_uuid E) ec)) (\<lambda>tmp_ec.
         bind_p
           (guard_p tmp_ec True
              (bind_p (total (bind_act (create_parent ec) (\<lambda>_. io (fs_create_dir_all tmp_ec)))) (\<lambda>_.
               bind_p (total (new_version E st bucket)) (\<lambda>version_id.
               bind_p (total (lift_res (ok_or (um_encryption_spec um)
                         (IntegrityError ''complete_multipart_chunked_encrypted called without encryption_spec'')))) (\<lambda>spec.
               bind_p (total (lift_res (resolve_upload_dek (e_dec E) (e_b64 E) (e_md5 E) (st_keys st) spec customer_key))) (\<lambda>upload_dek.
               bind_p (total (lift_res (final_request spec customer_key))) (\<lambda>req.
               bind_p (total (new_cipher E st bucket key version_id (req\<lparr>er_customer_key := customer_key\<rparr>))) (\<lambda>c.
               bind_p (copy_parts E st bucket upload_id (Some upload_dek)
                         (copy_part_sealed (object_read E) IO_BUFFER_SIZE (e_enc E) (snd (snd c)) sha (st_chunk_size st))
                         selected ew_new []) (\<lambda>(ew0, hashed).
               bind_p (lift_opt (seal_rest (e_enc E) (snd (snd c)) sha (st_chunk_size st) ew0)) (\<lambda>ew.
               bind_p (lift_opt (Some (finish_chunks sha (e_rs_encode E) (st_chunk_size st) (st_parity_shards st) (ew_chunks ew)))) (\<lambda>(m, files).
                 total
                   (let manifest = m\<lparr>cm_plaintext_size := Some (ew_plaintext_size ew)\<rparr>
                    in bind_act (write_chunk_files E tmp_ec manifest files) (\<lambda>_.
                       bind_act (now_string E) (\<lambda>now.
                       let meta = seal_meta (e_hmac E) (fst (snd c))
                             (multipart_meta E um selected (ew_plaintext_size ew) hashed now version_id
                                (Some (chunk_format manifest)) (Some (fst c)))
                       in bind_act (publish_upload E st bucket key meta tmp_ec ec True) (\<lambda>_. ok meta)))))))))))))))
           (\<lambda>meta. total
              (bind_act (if om_version_id meta \<noteq> None then write_version_chunked E st bucket key meta else ok ()) (\<lambda>_.
               bind_act (remove_upload st bucket upload_id) (\<lambda>_.
                 ok (put_result meta)))))))"

subsection \<open>The request\<close>

definition complete_multipart_upload ::
  "env \<Rightarrow> FilesystemStorage \<Rightarrow> string \<Rightarrow> string \<Rightarrow> (nat \<times> string) list \<Rightarrow> bytes option \<Rightarrow> (StorageError, PutResult) pact" where
  "complete_multipart_upload E st bucket upload_id parts customer_key =
     bind_p (total
       (bind_act (lift_res (validate_bucket_name bucket)) (\<lambda>_.
        bind_act (lift_res (validate_upload_id upload_id)) (\<lambda>_.
        bind_act (if parts = [] then fail (InvalidKey ''at least one part is required to complete upload'') else ok ()) (\<lambda>_.
        bind_act (read_upload_meta E st bucket upload_id) (\<lambda>um.
        bind_act (ensure_can_overwrite E st bucket (um_key um)) (\<lambda>_.
        bind_act (select_parts E st bucket upload_id parts) (\<lambda>selected.
        bind_act (lift_res (check_object_size (st_quota st) (sum_list (map pm_size selected)))) (\<lambda>_.
        bind_act (lift_res (check_disk_reserve (st_quota st) (e_disk E 0))) (\<lambda>_.
        bind_act (effective_erasure_coding E st bucket) (\<lambda>ec.
          ok (um, selected, ec))))))))))))
       (\<lambda>(um, selected, ec).
          if \<not> ec then complete_flat E st bucket upload_id um selected customer_key
          else if um_encryption_spec um \<noteq> None
          then bind_p (total (bind_act (lift_res (check_sse_c_continuity E (um_encryption_spec um) customer_key)) (\<lambda>_.
                               lift_res (try_each (check_part_flag True) selected)))) (\<lambda>_.
                 complete_multipart_chunked_encrypted E st bucket upload_id um selected customer_key)
          else complete_multipart_chunked E st bucket upload_id um selected)"

section \<open>Aborting and listing\<close>

definition abort_multipart_upload :: "FilesystemStorage \<Rightarrow> string \<Rightarrow> string \<Rightarrow> (StorageError, unit) act" where
  "abort_multipart_upload st bucket upload_id =
     bind_act (lift_res (validate_bucket_name bucket)) (\<lambda>_.
     bind_act (lift_res (validate_upload_id upload_id)) (\<lambda>_.
     bind_act (io (fs_try_exists (upload_dir (st_buckets_dir st) bucket upload_id))) (\<lambda>there.
       if \<not> there then fail (UploadNotFound upload_id)
       else io (fs_remove_dir_all (upload_dir (st_buckets_dir st) bucket upload_id)))))"

fun collect_parts :: "env \<Rightarrow> path \<Rightarrow> string list \<Rightarrow> (StorageError, PartMeta list) act" where
  "collect_parts E dir [] = ok []"
| "collect_parts E dir (name # names) =
     (if \<not> ends_with name ''.meta.json'' \<or> name = ''.meta.json'' then collect_parts E dir names
      else bind_act (io (fs_read_to_string (dir @ [name]))) (\<lambda>data.
           bind_act (collect_parts E dir names) (\<lambda>parts.
             ok (case snd (e_part E) data of Inr pm \<Rightarrow> pm # parts | Inl _ \<Rightarrow> parts))))"

definition list_parts ::
  "env \<Rightarrow> FilesystemStorage \<Rightarrow> string \<Rightarrow> string \<Rightarrow> (StorageError, MultipartUploadMeta \<times> PartMeta list) act" where
  "list_parts E st bucket upload_id =
     bind_act (lift_res (validate_bucket_name bucket)) (\<lambda>_.
     bind_act (lift_res (validate_upload_id upload_id)) (\<lambda>_.
     bind_act (read_upload_meta E st bucket upload_id) (\<lambda>meta.
     let upload_dir = upload_dir (st_buckets_dir st) bucket upload_id
     in bind_act (io (fs_read_dir upload_dir)) (\<lambda>entries.
        bind_act (collect_parts E upload_dir (map fst entries)) (\<lambda>parts.
          ok (meta, sort_key pm_part_number parts))))))"

fun collect_uploads :: "env \<Rightarrow> FilesystemStorage \<Rightarrow> string \<Rightarrow> (string \<times> node) list \<Rightarrow> (StorageError, MultipartUploadMeta list) act" where
  "collect_uploads E st bucket [] = ok []"
| "collect_uploads E st bucket ((upload_id, File data) # entries) = collect_uploads E st bucket entries"
| "collect_uploads E st bucket ((upload_id, Dir es) # entries) =
     bind_act (attempt (read_upload_meta E st bucket upload_id)) (\<lambda>r.
     bind_act (collect_uploads E st bucket entries) (\<lambda>uploads.
       ok (case r of Inr meta \<Rightarrow> meta # uploads | Inl _ \<Rightarrow> uploads)))"

definition list_multipart_uploads :: "env \<Rightarrow> FilesystemStorage \<Rightarrow> string \<Rightarrow> (StorageError, MultipartUploadMeta list) act" where
  "list_multipart_uploads E st bucket =
     bind_act (lift_res (validate_bucket_name bucket)) (\<lambda>_.
     bind_act (io (fs_try_exists (uploads_dir (st_buckets_dir st) bucket))) (\<lambda>there.
       if \<not> there then ok []
       else bind_act (io (fs_read_dir (uploads_dir (st_buckets_dir st) bucket))) (\<lambda>entries.
            bind_act (collect_uploads E st bucket entries) (\<lambda>uploads.
              ok (sort_key um_initiated uploads)))))"

end
