(* ===== verification/Api.thy ===== *)
theory Api
  imports Tenancy Multipart ListApi
begin

text \<open>
  What the S3 object handlers share: replies, request bodies, SSE and checksum headers, ranges and
  conditions (\<open>api/object.rs\<close>), and the event spool (\<open>events.rs\<close>).

  Parameters, fields of \<open>web\<close>: HTTP and ISO dates in some unit of time, percent decoding, the XML
  reader and serialiser, the JSON codec of event records and the host of a URL. Query parameters
  are the pairs of a hash map in its iteration order, with distinct names.
\<close>

section \<open>Values at the boundary\<close>

text \<open>The events of a pull parser: text may fail to unescape, and the input ends or is malformed.\<close>

datatype xml_event = XStart string | XText "string option" | XEnd string | XOther

record PartEntry =
  pe_part_number :: nat
  pe_last_modified :: string
  pe_etag :: string
  pe_size :: nat

datatype xml_doc =
    CopyObjectResult string string
  | CopyPartResult string string
  | Tagging "(string \<times> string) list"
  | InitiateMultipartUploadResult string string string
  | CompleteMultipartUploadResult string string string string
  | ListPartsResult string string string bool "PartEntry list"
  | ListMultipartUploadsResult string bool "(string \<times> string \<times> string) list"

record RetentionXml =
  rx_mode :: string
  rx_retain_until_date :: "string option"
  rx_days :: "nat option"

record EventRecord =
  ev_id :: string
  ev_event :: string
  ev_bucket :: string
  ev_key :: string
  ev_time :: string
  ev_size :: "nat option"
  ev_etag :: "string option"
  ev_webhook_url :: string

record web =
  wb_app :: app
  wb_iso :: "string \<Rightarrow> int option"
  wb_rfc2822 :: "string \<Rightarrow> int option"
  wb_show_http :: "int \<Rightarrow> string"
  wb_percent_decode :: "string \<Rightarrow> string option"
  wb_xml :: "bytes \<Rightarrow> xml_event list \<times> bool"
  wb_retention :: "bytes \<Rightarrow> RetentionXml option"
  wb_hold :: "bytes \<Rightarrow> string option"
  wb_to_xml :: "xml_doc \<Rightarrow> string option"
  wb_event :: "EventRecord json"
  wb_url_host :: "string \<Rightarrow> string option"

abbreviation wb_env :: "web \<Rightarrow> env" where "wb_env W \<equiv> ap_env (wb_app W)"
abbreviation wb_store :: "web \<Rightarrow> FilesystemStorage" where "wb_store W \<equiv> ap_storage (wb_app W)"

datatype reply_body = NoBody | Text string | Streaming object_reader

record reply =
  rp_status :: nat
  rp_headers :: "(string \<times> string) list"
  rp_body :: reply_body

text \<open>
  \<open>Response::builder()\<close>: a header value that is not allowed makes the final \<open>unwrap\<close> panic.
  Borrowed strings must be visible ASCII, an owned string may contain any byte but controls.
\<close>

definition header :: "string \<Rightarrow> string \<Rightarrow> string \<times> string option" where
  "header name v = (name, to_str v)"

definition owned_header :: "string \<Rightarrow> string \<Rightarrow> string \<times> string option" where
  "owned_header name v =
     (name, if list_all (\<lambda>c. let n = (of_char c :: nat) in (32 \<le> n \<and> n \<noteq> 127) \<or> n = 9) v then Some v else None)"

definition build :: "nat \<Rightarrow> (string \<times> string option) list \<Rightarrow> reply_body \<Rightarrow> rejection + reply" where
  "build status headers body =
     (if list_all (\<lambda>(_, v). v \<noteq> None) headers
      then Inr \<lparr>rp_status = status, rp_headers = map (\<lambda>(name, v). (name, the v)) headers, rp_body = body\<rparr>
      else Inl Panicked)"

definition s3_err :: "(StorageError \<Rightarrow> S3Error) \<Rightarrow> (StorageError, 'a) act \<Rightarrow> (rejection, 'a) act" where
  "s3_err f = map_err_act (Rejected \<circ> f)"

definition s3_err_p :: "(StorageError \<Rightarrow> S3Error) \<Rightarrow> (StorageError, 'a) pact \<Rightarrow> (rejection, 'a) pact" where
  "s3_err_p f m w = map_option (\<lambda>(r, w'). (map_err (Rejected \<circ> f) r, w')) (m w)"

definition reject :: "S3Error + 'a \<Rightarrow> (rejection, 'a) act" where
  "reject r = lift_res (map_err Rejected r)"

definition to_xml :: "web \<Rightarrow> xml_doc \<Rightarrow> S3Error + string" where
  "to_xml W doc = Encryption.ok_or (wb_to_xml W doc) internal_error"

definition query_param :: "(string \<times> string) list \<Rightarrow> string \<Rightarrow> string option" where
  "query_param params name = map_of params name"

definition has_param :: "(string \<times> string) list \<Rightarrow> string \<Rightarrow> bool" where
  "has_param params name \<longleftrightarrow> query_param params name \<noteq> None"

section \<open>Errors of a read\<close>

definition is_sidecar_integrity_violation :: "string \<Rightarrow> bool" where
  "is_sidecar_integrity_violation msg \<longleftrightarrow> contains_str msg ''sidecar_mac'' \<or> contains_str msg ''encryption metadata''"

fun map_read_object_err :: "string \<Rightarrow> StorageError \<Rightarrow> S3Error" where
  "map_read_object_err key (NotFound _) = no_such_key key"
| "map_read_object_err key (VersionNotFound i) = no_such_version i"
| "map_read_object_err key (InvalidKey msg) = invalid_argument msg"
| "map_read_object_err key (DecryptionError msg) = invalid_argument msg"
| "map_read_object_err key (EncryptionError msg) = invalid_argument msg"
| "map_read_object_err key (IntegrityError msg) =
     (if is_sidecar_integrity_violation msg then invalid_argument msg else internal_error)"
| "map_read_object_err key _ = internal_error"

section \<open>Headers of a request\<close>

definition sse_c_key :: "env \<Rightarrow> header_map \<Rightarrow> string \<Rightarrow> string \<Rightarrow> S3Error + bytes" where
  "sse_c_key E headers name label =
     bind_res (Encryption.ok_or (header_str headers name) (invalid_argument (''missing '' @ name))) (\<lambda>key_b64.
     bind_res (Encryption.ok_or (snd (e_b64 E) key_b64) (invalid_argument (''invalid '' @ label @ '' base64''))) (\<lambda>raw.
       if length raw \<noteq> 32 then Inl (invalid_argument (label @ '' must be 32 bytes'')) else Inr raw))"

definition extract_sse_request :: "env \<Rightarrow> header_map \<Rightarrow> S3Error + EncryptionRequest option" where
  "extract_sse_request E headers =
     (case header_str headers ''x-amz-server-side-encryption-customer-algorithm'' of
        Some algo \<Rightarrow>
          if algo \<noteq> ''AES256'' then Inl invalid_encryption_algorithm
          else bind_res (sse_c_key E headers ''x-amz-server-side-encryption-customer-key'' ''SSE-C key'') (\<lambda>key.
               case header_str headers ''x-amz-server-side-encryption-customer-key-md5'' of
                 Some md5_b64 \<Rightarrow>
                   if fst (e_b64 E) (e_md5 E key) \<noteq> md5_b64 then Inl (invalid_argument ''SSE-C key MD5 mismatch'')
                   else Inr (Some (sse_c key))
               | None \<Rightarrow> Inr (Some (sse_c key)))
      | None \<Rightarrow>
          (case header_str headers ''x-amz-server-side-encryption'' of
             Some sse \<Rightarrow>
               if sse = ''AES256'' then Inr (Some sse_s3)
               else if sse = ''aws:kms''
               then Inr (Some (sse_kms (header_str headers ''x-amz-server-side-encryption-aws-kms-key-id'')))
               else Inl invalid_encryption_algorithm
           | None \<Rightarrow> Inr None))"

definition extract_copy_source_customer_key :: "env \<Rightarrow> header_map \<Rightarrow> S3Error + bytes option" where
  "extract_copy_source_customer_key E headers =
     (case header_str headers ''x-amz-copy-source-server-side-encryption-customer-algorithm'' of
        None \<Rightarrow> Inr None
      | Some algo \<Rightarrow>
          if algo \<noteq> ''AES256'' then Inl invalid_encryption_algorithm
          else bind_res (sse_c_key E headers ''x-amz-copy-source-server-side-encryption-customer-key'' ''copy-source SSE-C key'')
                 (\<lambda>key. Inr (Some key)))"

definition extract_customer_key :: "env \<Rightarrow> header_map \<Rightarrow> S3Error + bytes option" where
  "extract_customer_key E headers =
     (case header_str headers ''x-amz-server-side-encryption-customer-algorithm'' of
        None \<Rightarrow> Inr None
      | Some algo \<Rightarrow>
          if algo \<noteq> ''AES256'' then Inl invalid_encryption_algorithm
          else bind_res (sse_c_key E headers ''x-amz-server-side-encryption-customer-key'' ''SSE-C key'') (\<lambda>key. Inr (Some key)))"

definition encryption_from_bucket_default :: "BucketEncryptionConfig \<Rightarrow> EncryptionRequest" where
  "encryption_from_bucket_default cfg =
     (if bec_sse_algorithm cfg = ''aws:kms'' then sse_kms (bec_kms_key_id cfg) else sse_s3)"

definition customer_key_md5 :: "env \<Rightarrow> EncryptionRequest \<Rightarrow> string option" where
  "customer_key_md5 E req = map_option (\<lambda>ck. fst (e_b64 E) (e_md5 E ck)) (er_customer_key req)"

definition spec_from_request :: "env \<Rightarrow> EncryptionRequest \<Rightarrow> UploadEncryptionSpec" where
  "spec_from_request E req =
     \<lparr>ue_mode = er_mode req, ue_customer_key_md5 = customer_key_md5 E req, ue_upload_dek_wrapped = None,
      ue_upload_dek_wrap_nonce = None, ue_upload_dek_key_id = None, ue_kms_key_id = er_kms_key_id req,
      ue_upload_nonce_prefix = []\<rparr>"

definition sse_headers ::
  "(string \<Rightarrow> string \<Rightarrow> string \<times> string option) \<Rightarrow> EncryptionMode option \<Rightarrow> string option \<Rightarrow> (string \<times> string option) list" where
  "sse_headers md5_header mode md5 =
     (case mode of
        Some SseS3 \<Rightarrow> [header ''x-amz-server-side-encryption'' ''AES256'']
      | Some SseC \<Rightarrow> header ''x-amz-server-side-encryption-customer-algorithm'' ''AES256'' #
          (case md5 of Some m \<Rightarrow> [md5_header ''x-amz-server-side-encryption-customer-key-md5'' m] | None \<Rightarrow> [])
      | Some SseKms \<Rightarrow> [header ''x-amz-server-side-encryption'' ''aws:kms'']
      | None \<Rightarrow> [])"

definition add_sse_headers :: "EncryptionMeta option \<Rightarrow> (string \<times> string option) list" where
  "add_sse_headers enc = sse_headers header (map_option em_mode enc) (Option.bind enc em_customer_key_md5)"

definition extract_checksum :: "header_map \<Rightarrow> (ChecksumAlgorithm \<times> string option) option" where
  "extract_checksum headers =
     (case List.map_filter (\<lambda>algo. map_option (\<lambda>v. (algo, Some v)) (header_str headers (header_name algo)))
             [CRC32, CRC32C, SHA1, SHA256] of
        found # _ \<Rightarrow> Some found
      | [] \<Rightarrow> map_option (\<lambda>algo. (algo, None))
                (Option.bind (header_str headers ''x-amz-checksum-algorithm'') from_header_str))"

definition checksum_header :: "ChecksumAlgorithm option \<Rightarrow> string option \<Rightarrow> (string \<times> string option) list" where
  "checksum_header algo value =
     (case (algo, value) of (Some a, Some v) \<Rightarrow> [header (header_name a) v] | _ \<Rightarrow> [])"

definition add_checksum_header :: "ObjectMeta \<Rightarrow> (string \<times> string option) list" where
  "add_checksum_header meta = checksum_header (om_checksum_algorithm meta) (om_checksum_value meta)"

definition version_header :: "string option \<Rightarrow> (string \<times> string option) list" where
  "version_header vid = (case vid of Some v \<Rightarrow> [header ''x-amz-version-id'' v] | None \<Rightarrow> [])"

definition parse_content_length :: "header_map \<Rightarrow> nat option" where
  "parse_content_length headers = Option.bind (header_str headers ''content-length'') parse_u64"

definition content_type_of :: "header_map \<Rightarrow> string" where
  "content_type_of headers =
     (case header_str headers ''content-type'' of Some v \<Rightarrow> v | None \<Rightarrow> ''application/octet-stream'')"

definition parse_copy_source :: "web \<Rightarrow> header_map \<Rightarrow> S3Error + string \<times> string" where
  "parse_copy_source W headers =
     bind_res (Encryption.ok_or (header_str headers ''x-amz-copy-source'') (invalid_argument ''missing x-amz-copy-source header'')) (\<lambda>copy_source.
     bind_res (Encryption.ok_or (wb_percent_decode W copy_source) (invalid_argument ''invalid x-amz-copy-source encoding'')) (\<lambda>decoded.
       Encryption.ok_or (split_once CHR ''/'' (trim_start_matches CHR ''/'' decoded)) (invalid_argument ''invalid x-amz-copy-source format'')))"

definition parse_copy_source_range :: "header_map \<Rightarrow> nat \<Rightarrow> S3Error + (nat \<times> nat) option" where
  "parse_copy_source_range headers src_size =
     (case header_str headers ''x-amz-copy-source-range'' of
        None \<Rightarrow> Inr None
      | Some h \<Rightarrow>
          bind_res (Encryption.ok_or (strip_prefix h ''bytes='') (invalid_argument ''invalid x-amz-copy-source-range format'')) (\<lambda>spec.
          bind_res (Encryption.ok_or (split_once CHR ''-'' spec) (invalid_argument ''invalid x-amz-copy-source-range format'')) (\<lambda>(start_str, end_str).
          bind_res (Encryption.ok_or (parse_u64 start_str) (invalid_argument ''invalid range start'')) (\<lambda>start.
          bind_res (Encryption.ok_or (parse_u64 end_str) (invalid_argument ''invalid range end'')) (\<lambda>last.
            if start > last \<or> last \<ge> src_size then Inl invalid_range else Inr (Some (start, last)))))))"

section \<open>Dates and conditions\<close>

definition to_http_date :: "web \<Rightarrow> string \<Rightarrow> string" where
  "to_http_date W stamp = (case wb_iso W stamp of Some t \<Rightarrow> wb_show_http W t | None \<Rightarrow> stamp)"

datatype ConditionalResult = NotModified | ConditionFailed

definition etag_matches :: "string \<Rightarrow> string \<Rightarrow> bool" where
  "etag_matches header_value object_etag \<longleftrightarrow>
     (let value = trim header_value
      in if value = ''*'' then True
         else list_ex (\<lambda>part. trim_matches CHR 0x22 (trim part) = trim_matches CHR 0x22 object_etag) (split_on CHR '','' value))"

definition check_conditions :: "web \<Rightarrow> header_map \<Rightarrow> ObjectMeta \<Rightarrow> ConditionalResult option" where
  "check_conditions W headers meta =
     (let if_match = header_str headers ''if-match''; if_none_match = header_str headers ''if-none-match'';
          if_modified_since = header_str headers ''if-modified-since'';
          if_unmodified_since = header_str headers ''if-unmodified-since'';
          dates = (\<lambda>value. (wb_rfc2822 W value, wb_iso W (om_last_modified meta)))
      in if (case if_match of
               Some value \<Rightarrow> \<not> etag_matches value (om_etag meta)
             | None \<Rightarrow> (case if_unmodified_since of
                          Some value \<Rightarrow> (case dates value of (Some threshold, Some obj_date) \<Rightarrow> obj_date > threshold | _ \<Rightarrow> False)
                        | None \<Rightarrow> False))
         then Some ConditionFailed
         else if (case if_none_match of
               Some value \<Rightarrow> etag_matches value (om_etag meta)
             | None \<Rightarrow> (case if_modified_since of
                          Some value \<Rightarrow> (case dates value of (Some threshold, Some obj_date) \<Rightarrow> obj_date \<le> threshold | _ \<Rightarrow> False)
                        | None \<Rightarrow> False))
         then Some NotModified
         else None)"

definition not_modified_response :: "web \<Rightarrow> ObjectMeta \<Rightarrow> rejection + reply" where
  "not_modified_response W meta =
     build 304 [header ''ETag'' (om_etag meta), owned_header ''Last-Modified'' (to_http_date W (om_last_modified meta))] NoBody"

definition conditional_reply :: "web \<Rightarrow> ConditionalResult \<Rightarrow> ObjectMeta \<Rightarrow> rejection + reply" where
  "conditional_reply W result meta =
     (case result of NotModified \<Rightarrow> not_modified_response W meta | ConditionFailed \<Rightarrow> Inl (Rejected precondition_failed))"

section \<open>Ranges\<close>

text \<open>\<open>Err(())\<close> is a range that cannot be satisfied, \<open>Ok(None)\<close> one that is ignored.\<close>

definition parse_range :: "string \<Rightarrow> nat \<Rightarrow> unit + (nat \<times> nat) option" where
  "parse_range header0 file_size =
     (case strip_prefix (trim header0) ''bytes='' of
        None \<Rightarrow> Inr None
      | Some s \<Rightarrow>
          let spec = trim s
          in if CHR '','' \<in> set spec then Inr None
             else case split_once CHR ''-'' spec of
               None \<Rightarrow> Inr None
             | Some (start_str, end_str) \<Rightarrow>
                 if file_size = 0 then Inl ()
                 else if start_str = []
                 then bind_res (Encryption.ok_or (parse_u64 end_str) ()) (\<lambda>suffix.
                        if suffix = 0 then Inl () else Inr (Some (file_size - suffix, file_size - 1)))
                 else if end_str = []
                 then bind_res (Encryption.ok_or (parse_u64 start_str) ()) (\<lambda>start.
                        if start \<ge> file_size then Inl () else Inr (Some (start, file_size - 1)))
                 else bind_res (Encryption.ok_or (parse_u64 start_str) ()) (\<lambda>start.
                      bind_res (Encryption.ok_or (parse_u64 end_str) ()) (\<lambda>last.
                        if start \<ge> file_size then Inl ()
                        else if start > min last (file_size - 1) then Inl ()
                        else Inr (Some (start, min last (file_size - 1))))))"

definition content_range :: "nat \<Rightarrow> nat \<Rightarrow> nat \<Rightarrow> string" where
  "content_range start last_byte total_size = ''bytes '' @ show_nat start @ ''-'' @ show_nat last_byte @ ''/'' @ show_nat total_size"

definition part_range :: "ObjectMeta \<Rightarrow> nat \<Rightarrow> S3Error + nat \<times> nat \<times> nat" where
  "part_range meta part_num =
     bind_res (Encryption.ok_or (om_part_sizes meta) (invalid_argument ''object is not a multipart upload'')) (\<lambda>part_sizes.
       if part_num < 1 then Inl (invalid_argument ''partNumber must be >= 1'')
       else if part_num - 1 \<ge> length part_sizes then Inl (invalid_argument ''partNumber exceeds total parts'')
       else Inr (sum_list (take (part_num - 1) part_sizes), part_sizes ! (part_num - 1), length part_sizes))"

definition parse_part_number :: "string \<Rightarrow> S3Error + nat" where
  "parse_part_number s = Encryption.ok_or (parse_u32 s) (invalid_argument ''invalid partNumber'')"

section \<open>Bodies\<close>

text \<open>\<open>BufReader\<close> over the body: buffered bytes and the rest; a line ends with a line feed or the body.\<close>

type_synonym 's buffered = "bytes \<times> 's"

partial_function (option) read_line :: "'s reader \<Rightarrow> nat \<Rightarrow> 's buffered \<Rightarrow> ((io_error + bytes) \<times> 's buffered) option" where
  "read_line rd cap b =
     (if 0x0A \<in> set (fst b)
      then Some (Inr (takeWhile (\<lambda>c. c \<noteq> 0x0A) (fst b) @ [0x0A]), tl (dropWhile (\<lambda>c. c \<noteq> 0x0A) (fst b)), snd b)
      else (case rd (snd b) cap of
              (Pending, s') \<Rightarrow> read_line rd cap (fst b, s')
            | (Ready (Inl e), s') \<Rightarrow> Some (Inl e, fst b, s')
            | (Ready (Inr bs), s') \<Rightarrow>
                (if bs = [] then Some (Inr (fst b), [], s') else read_line rd cap (fst b @ bs, s'))))"

partial_function (option) read_exact :: "'s reader \<Rightarrow> nat \<Rightarrow> nat \<Rightarrow> 's buffered \<Rightarrow> ((io_error + bytes) \<times> 's buffered) option" where
  "read_exact rd cap n b =
     (if n \<le> length (fst b) then Some (Inr (take n (fst b)), drop n (fst b), snd b)
      else (case rd (snd b) cap of
              (Pending, s') \<Rightarrow> read_exact rd cap n (fst b, s')
            | (Ready (Inl e), s') \<Rightarrow> Some (Inl e, [], s')
            | (Ready (Inr bs), s') \<Rightarrow>
                (if bs = [] then Some (Inl early_eof, [], s') else read_exact rd cap n (fst b @ bs, s'))))"

definition hex_val :: "char \<Rightarrow> nat option" where
  "hex_val c =
     (let n = (of_char c :: nat)
      in if 48 \<le> n \<and> n \<le> 57 then Some (n - 48)
         else if 97 \<le> n \<and> n \<le> 102 then Some (n - 87)
         else if 65 \<le> n \<and> n \<le> 70 then Some (n - 55)
         else None)"

fun parse_hex_digits :: "nat \<Rightarrow> string \<Rightarrow> nat option" where
  "parse_hex_digits acc [] = Some acc"
| "parse_hex_digits acc (c # cs) =
     (case hex_val c of
        None \<Rightarrow> None
      | Some d \<Rightarrow> if acc * 16 + d < 2 ^ 64 then parse_hex_digits (acc * 16 + d) cs else None)"

text \<open>\<open>usize::from_str_radix(s, 16)\<close>.\<close>

definition from_str_radix16 :: "string \<Rightarrow> nat option" where
  "from_str_radix16 s =
     (let ds = (case s of c # cs \<Rightarrow> if c = CHR ''+'' then cs else s | [] \<Rightarrow> [])
      in if ds = [] then None else parse_hex_digits 0 ds)"

definition trim_line :: "string \<Rightarrow> string" where
  "trim_line line = rev (dropWhile (\<lambda>c. c = CHR 0x0D \<or> c = CHR 0x0A) (rev line))"

definition chunk_size_of :: "string \<Rightarrow> nat option" where
  "chunk_size_of line = from_str_radix16 (trim (hd (split_on CHR '';'' (trim_line line))))"

text \<open>
  The chunks of a \<open>STREAMING-AWS4-HMAC-SHA256-PAYLOAD\<close> body. A line that is not UTF-8 is an error
  of \<open>read_line\<close>; \<open>vec![0u8; n]\<close> panics for \<open>n\<close> above \<open>isize::MAX\<close>.
\<close>

partial_function (option) decode_chunks :: "'s reader \<Rightarrow> nat \<Rightarrow> 's buffered \<Rightarrow> bytes \<Rightarrow> (rejection + bytes) option" where
  "decode_chunks rd cap b decoded =
     Option.bind (read_line rd cap b) (\<lambda>x.
       case x of
         (Inl e, b1) \<Rightarrow> Some (Inl (Rejected internal_error))
       | (Inr line, b1) \<Rightarrow>
           (if line = [] then Some (Inr decoded)
            else (case from_utf8 line of
                    None \<Rightarrow> Some (Inl (Rejected internal_error))
                  | Some text \<Rightarrow>
                      (case chunk_size_of text of
                         None \<Rightarrow> Some (Inl (Rejected internal_error))
                       | Some chunk_size \<Rightarrow>
                           (if chunk_size = 0 then Some (Inr decoded)
                            else if chunk_size \<ge> 2 ^ 63 then Some (Inl Panicked)
                            else Option.bind (read_exact rd cap chunk_size b1) (\<lambda>y.
                                   case y of
                                     (Inl e, b2) \<Rightarrow> Some (Inl (Rejected internal_error))
                                   | (Inr chunk, b2) \<Rightarrow>
                                       Option.bind (read_exact rd cap 2 b2) (\<lambda>z.
                                         decode_chunks rd cap (snd z) (decoded @ chunk))))))))"

datatype 's payload = Raw 's | Decoded bytes | Stored object_reader

fun payload_read :: "env \<Rightarrow> 's reader \<Rightarrow> 's payload reader" where
  "payload_read E rd (Raw s) n = (case rd s n of (r, s') \<Rightarrow> (r, Raw s'))"
| "payload_read E rd (Decoded bs) n = (case cursor_read bs n of (r, bs') \<Rightarrow> (r, Decoded bs'))"
| "payload_read E rd (Stored r) n = (case object_read E r n of (p, r') \<Rightarrow> (p, Stored r'))"

definition BUF_READER_SIZE :: nat where "BUF_READER_SIZE = 8 * 1024"

definition body_to_reader :: "'s reader \<Rightarrow> header_map \<Rightarrow> 's \<Rightarrow> (rejection, 's payload) pact" where
  "body_to_reader rd headers body =
     (if header_str headers ''x-amz-content-sha256'' = Some ''STREAMING-AWS4-HMAC-SHA256-PAYLOAD''
      then lift_opt (map_option (map_sum id Decoded) (decode_chunks rd BUF_READER_SIZE ([], body) []))
      else total (ok (Raw body)))"

text \<open>\<open>axum::body::to_bytes(body, limit)\<close>.\<close>

partial_function (option) to_bytes :: "'s reader \<Rightarrow> nat \<Rightarrow> 's \<Rightarrow> bytes \<Rightarrow> (S3Error + bytes) option" where
  "to_bytes rd limit s acc =
     (case rd s (2 ^ 63) of
        (Pending, s') \<Rightarrow> to_bytes rd limit s' acc
      | (Ready (Inl e), s') \<Rightarrow> Some (Inl internal_error)
      | (Ready (Inr bs), s') \<Rightarrow>
          (if bs = [] then Some (Inr acc)
           else if length acc + length bs > limit then Some (Inl internal_error)
           else to_bytes rd limit s' (acc @ bs)))"

definition body_bytes_upto :: "'s reader \<Rightarrow> nat \<Rightarrow> 's \<Rightarrow> (rejection, bytes) pact" where
  "body_bytes_upto rd limit body = lift_opt (map_option (map_err Rejected) (to_bytes rd limit body []))"

section \<open>Event notifications\<close>

fun is_internal_ip :: "ip_addr \<Rightarrow> bool" where
  "is_internal_ip (V4 o4) \<longleftrightarrow>
     o4 ! 0 = 127 \<or> o4 ! 0 = 10 \<or> (o4 ! 0 = 172 \<and> 16 \<le> o4 ! 1 \<and> o4 ! 1 \<le> 31) \<or> (o4 ! 0 = 192 \<and> o4 ! 1 = 168)
     \<or> (o4 ! 0 = 169 \<and> o4 ! 1 = 254)"
| "is_internal_ip (V6 o6) \<longleftrightarrow> o6 = replicate 15 0 @ [1] \<or> (o6 ! 0 = 0xFC \<or> o6 ! 0 = 0xFD)"

definition is_internal_webhook_url :: "web \<Rightarrow> string \<Rightarrow> bool" where
  "is_internal_webhook_url W url =
     (case wb_url_host W url of
        None \<Rightarrow> False
      | Some host \<Rightarrow>
          if host = ''localhost'' then True
          else (case parse_ip host of Some ip \<Rightarrow> is_internal_ip ip | None \<Rightarrow> False))"

definition validate_webhook_url :: "web \<Rightarrow> string \<Rightarrow> bool \<Rightarrow> string + unit" where
  "validate_webhook_url W url allow_external =
     (if url = [] then Inl ''webhook URL must not be empty''
      else if \<not> starts_with url ''http://'' \<and> \<not> starts_with url ''https://'' then Inl ''webhook URL must use http or https''
      else if allow_external \<or> is_internal_webhook_url W url then Inr ()
      else Inl ''webhook URL must target an internal address (RFC1918/localhost); set MAXIO_ALLOW_EXTERNAL_WEBHOOKS=1 to override'')"

text \<open>\<open>trim_end_matches(":*")\<close> removes every such suffix.\<close>

function trim_wildcards :: "string \<Rightarrow> string" where
  "trim_wildcards e = (if ends_with e '':*'' then trim_wildcards (take (length e - 2) e) else e)"
  by pat_completeness auto
termination
  by (relation "measure length") (auto simp: ends_with_def suffix_def)

declare trim_wildcards.simps [simp del]

definition event_matches :: "BucketNotificationConfig \<Rightarrow> string \<Rightarrow> bool" where
  "event_matches config event_name =
     list_ex (\<lambda>e. e = event_name \<or> ends_with e '':*'' \<and> starts_with event_name (trim_wildcards e)) (bn_events config)"

definition spool_dir :: "web \<Rightarrow> path" where
  "spool_dir W = st_data_root (wb_store W) @ [''.maxio-event-spool'']"

definition enqueue :: "web \<Rightarrow> EventRecord \<Rightarrow> (io_error, unit) act" where
  "enqueue W record =
     bind_act (fs_create_dir_all (spool_dir W)) (\<lambda>_.
       fs_write (spool_dir W @ [ev_id record @ ''.json'']) (fst (wb_event W) record))"

definition emit :: "web \<Rightarrow> string \<Rightarrow> string \<Rightarrow> string \<Rightarrow> nat option \<Rightarrow> string option \<Rightarrow> ('e, unit) act" where
  "emit W event bucket key sz etag =
     bind_act (attempt (get_bucket_notification (wb_env W) (wb_store W) bucket)) (\<lambda>r.
       case r of
         Inr (Some config) \<Rightarrow>
           if \<not> event_matches config event then ok ()
           else bind_act (draw (e_uuid (wb_env W))) (\<lambda>i.
                bind_act (draw (e_micros (wb_env W))) (\<lambda>now.
                  ignore (enqueue W \<lparr>ev_id = i, ev_event = event, ev_bucket = bucket, ev_key = key,
                    ev_time = ap_rfc3339 (wb_app W) now, ev_size = sz, ev_etag = etag, ev_webhook_url = bn_webhook_url config\<rparr>)))
       | _ \<Rightarrow> ok ())"

definition emit_object_created :: "web \<Rightarrow> string \<Rightarrow> string \<Rightarrow> nat \<Rightarrow> string \<Rightarrow> ('e, unit) act" where
  "emit_object_created W bucket key sz etag = emit W ''s3:ObjectCreated:Put'' bucket key (Some sz) (Some etag)"

definition emit_object_removed :: "web \<Rightarrow> string \<Rightarrow> string \<Rightarrow> ('e, unit) act" where
  "emit_object_removed W bucket key = emit W ''s3:ObjectRemoved:Delete'' bucket key None None"

text \<open>
  One pass over the spool: \<open>post url record n\<close> is the status of the \<open>n\<close>-th request, if it is
  answered. A failing call to list the rest of the directory ends the pass, which no caller sees.
\<close>

fun drain_entries ::
  "web \<Rightarrow> (string \<Rightarrow> EventRecord \<Rightarrow> nat \<Rightarrow> nat option) \<Rightarrow> string list \<Rightarrow> nat \<Rightarrow> ('e, nat) act" where
  "drain_entries W post [] delivered = ok delivered"
| "drain_entries W post (name # names) delivered =
     (if \<not> (ends_with name ''.json'' \<and> name \<noteq> ''.json'') then drain_entries W post names delivered
      else
        let path = spool_dir W @ [name]
        in bind_act (attempt (fs_read_to_string path)) (\<lambda>r.
             case r of
               Inl _ \<Rightarrow> drain_entries W post names delivered
             | Inr data \<Rightarrow>
                 (case snd (wb_event W) data of
                    Inl _ \<Rightarrow> bind_act (ignore (fs_remove_file path)) (\<lambda>_. drain_entries W post names delivered)
                  | Inr record \<Rightarrow>
                      if validate_webhook_url W (ev_webhook_url record) False \<noteq> Inr ()
                      then bind_act (ignore (fs_remove_file path)) (\<lambda>_. drain_entries W post names delivered)
                      else bind_act (draw (post (ev_webhook_url record) record)) (\<lambda>answer.
                             case answer of
                               Some status \<Rightarrow>
                                 if 200 \<le> status \<and> status < 300
                                 then bind_act (ignore (fs_remove_file path)) (\<lambda>_. drain_entries W post names (Suc delivered))
                                 else drain_entries W post names delivered
                             | None \<Rightarrow> drain_entries W post names delivered))))"

definition drain_once :: "web \<Rightarrow> (string \<Rightarrow> EventRecord \<Rightarrow> nat \<Rightarrow> nat option) \<Rightarrow> ('e, nat) act" where
  "drain_once W post =
     bind_act (attempt (fs_read_dir (spool_dir W))) (\<lambda>r.
       case r of
         Inl _ \<Rightarrow> ok 0
       | Inr entries \<Rightarrow> drain_entries W post (map fst entries) 0)"

end
