(* ===== verification/ObjectApi.thy ===== *)
theory ObjectApi
  imports Api
begin

text \<open>
  The S3 object handlers (\<open>api/object.rs\<close>, \<open>api/multipart.rs\<close>): every request on an object, with
  its dispatch on query parameters, its gates, the storage calls it makes and the reply. Handlers
  whose name is that of the storage operation carry the suffix \<open>_api\<close>. Metrics are not modelled.
\<close>

section \<open>Multipart requests\<close>

definition ensure_bucket_exists :: "web \<Rightarrow> string \<Rightarrow> (rejection, unit) act" where
  "ensure_bucket_exists W bucket =
     bind_act (s3_err (\<lambda>_. internal_error) (head_bucket (wb_store W) bucket)) (\<lambda>there.
       if there then ok () else fail (Rejected (no_such_bucket bucket)))"

fun map_storage_err :: "StorageError \<Rightarrow> S3Error" where
  "map_storage_err (ObjectTooLarge m) = entity_too_large m"
| "map_storage_err (InsufficientStorage msg) = insufficient_storage msg"
| "map_storage_err (ChecksumMismatch _) = bad_checksum ''x-amz-checksum''"
| "map_storage_err (UploadNotFound upload_id) = no_such_upload upload_id"
| "map_storage_err (InvalidKey msg) =
     (if contains_str msg ''part too small'' then entity_too_small
      else if contains_str msg ''part'' \<or> contains_str msg ''etag'' \<or> contains_str msg ''upload''
              \<or> contains_str msg ''at least one'' then invalid_part msg
      else invalid_argument msg)"
| "map_storage_err (EncryptionError msg) = invalid_argument msg"
| "map_storage_err (DecryptionError msg) = invalid_argument msg"
| "map_storage_err (IntegrityError msg) = invalid_argument msg"
| "map_storage_err _ = internal_error"

record part_scan =
  ps_parts :: "(nat \<times> string) list"
  ps_in_part :: bool
  ps_in_part_number :: bool
  ps_in_etag :: bool
  ps_part_number :: "nat option"
  ps_etag :: "string option"

definition part_scan_new :: part_scan where
  "part_scan_new = \<lparr>ps_parts = [], ps_in_part = False, ps_in_part_number = False, ps_in_etag = False,
     ps_part_number = None, ps_etag = None\<rparr>"

definition quoted :: "string \<Rightarrow> string" where
  "quoted value =
     (if starts_with value [CHR 0x22] \<and> ends_with value [CHR 0x22] then value else [CHR 0x22] @ value @ [CHR 0x22])"

definition part_event :: "xml_event \<Rightarrow> part_scan \<Rightarrow> S3Error + part_scan" where
  "part_event event st =
     (case event of
        XStart name \<Rightarrow>
          Inr (if name = ''Part'' then st\<lparr>ps_in_part := True, ps_part_number := None, ps_etag := None\<rparr>
               else if name = ''PartNumber'' \<and> ps_in_part st then st\<lparr>ps_in_part_number := True\<rparr>
               else if name = ''ETag'' \<and> ps_in_part st then st\<lparr>ps_in_etag := True\<rparr>
               else st)
      | XText t \<Rightarrow>
          if ps_in_part_number st
          then bind_res (Encryption.ok_or t malformed_xml) (\<lambda>value.
               bind_res (Encryption.ok_or (parse_u32 value) (invalid_part ''invalid part number'')) (\<lambda>n.
                 Inr (st\<lparr>ps_part_number := Some n, ps_in_part_number := False\<rparr>)))
          else if ps_in_etag st
          then bind_res (Encryption.ok_or t malformed_xml) (\<lambda>value.
                 Inr (st\<lparr>ps_etag := Some (quoted value), ps_in_etag := False\<rparr>))
          else Inr st
      | XEnd name \<Rightarrow>
          if name = ''PartNumber'' then Inr (st\<lparr>ps_in_part_number := False\<rparr>)
          else if name = ''ETag'' then Inr (st\<lparr>ps_in_etag := False\<rparr>)
          else if name = ''Part''
          then bind_res (Encryption.ok_or (ps_part_number st) malformed_xml) (\<lambda>n.
               bind_res (Encryption.ok_or (ps_etag st) malformed_xml) (\<lambda>tag.
                 Inr (st\<lparr>ps_parts := ps_parts st @ [(n, tag)], ps_in_part := False\<rparr>)))
          else Inr st
      | XOther \<Rightarrow> Inr st)"

text \<open>Every reader loop: handle the events in turn; the input then ends or is malformed.\<close>

fun scan_xml :: "(xml_event \<Rightarrow> 's \<Rightarrow> S3Error + 's) \<Rightarrow> xml_event list \<Rightarrow> bool \<Rightarrow> 's \<Rightarrow> S3Error + 's" where
  "scan_xml step [] eof st = (if eof then Inr st else Inl malformed_xml)"
| "scan_xml step (event # events) eof st = bind_res (step event st) (scan_xml step events eof)"

definition parse_complete_parts :: "web \<Rightarrow> bytes \<Rightarrow> S3Error + (nat \<times> string) list" where
  "parse_complete_parts W xml =
     (case wb_xml W xml of (events, eof) \<Rightarrow>
        bind_res (scan_xml part_event events eof part_scan_new) (\<lambda>st. Inr (ps_parts st)))"

definition xml_reply :: "web \<Rightarrow> nat \<Rightarrow> (string \<times> string option) list \<Rightarrow> xml_doc \<Rightarrow> (rejection, reply) act" where
  "xml_reply W status headers doc =
     bind_act (reject (to_xml W doc)) (\<lambda>xml.
       lift_res (build status (header ''content-type'' ''application/xml'' # headers) (Text xml)))"

definition explicit_or_default ::
  "web \<Rightarrow> header_map \<Rightarrow> string \<Rightarrow> (rejection, EncryptionRequest option) act" where
  "explicit_or_default W headers bucket =
     bind_act (reject (extract_sse_request (wb_env W) headers)) (\<lambda>encryption.
       if encryption \<noteq> None then ok encryption
       else bind_act (attempt (get_bucket_encryption (wb_env W) (wb_store W) bucket)) (\<lambda>r.
              ok (case r of Inr (Some cfg) \<Rightarrow> Some (encryption_from_bucket_default cfg) | _ \<Rightarrow> None)))"

definition create_multipart_upload_api :: "web \<Rightarrow> string \<Rightarrow> string \<Rightarrow> header_map \<Rightarrow> (rejection, reply) act" where
  "create_multipart_upload_api W bucket key headers =
     bind_act (ensure_bucket_exists W bucket) (\<lambda>_.
     bind_act (explicit_or_default W headers bucket) (\<lambda>encryption.
     bind_act (s3_err map_storage_err (create_multipart_upload (wb_env W) (wb_store W) bucket key (content_type_of headers)
                 (Option.bind (header_str headers ''x-amz-checksum-algorithm'') from_header_str)
                 (map_option (spec_from_request (wb_env W)) encryption))) (\<lambda>upload.
       xml_reply W 200 (sse_headers header (map_option er_mode encryption) None)
         (InitiateMultipartUploadResult bucket key (um_upload_id upload)))))"

definition part_params :: "(string \<times> string) list \<Rightarrow> S3Error + string \<times> nat" where
  "part_params params =
     bind_res (Encryption.ok_or (query_param params ''uploadId'') (invalid_argument ''missing uploadId'')) (\<lambda>upload_id.
     bind_res (Encryption.ok_or (query_param params ''partNumber'') (invalid_argument ''missing partNumber'')) (\<lambda>n.
     bind_res (Encryption.ok_or (parse_u32 n) (invalid_part ''invalid part number'')) (\<lambda>part_number. Inr (upload_id, part_number))))"

definition upload_id_param :: "(string \<times> string) list \<Rightarrow> S3Error + string" where
  "upload_id_param params = Encryption.ok_or (query_param params ''uploadId'') (invalid_argument ''missing uploadId'')"

definition upload_part_api ::
  "web \<Rightarrow> 's reader \<Rightarrow> string \<Rightarrow> (string \<times> string) list \<Rightarrow> header_map \<Rightarrow> 's \<Rightarrow> (rejection, reply) pact" where
  "upload_part_api W rd bucket params headers body =
     bind_p (total (ensure_bucket_exists W bucket)) (\<lambda>_.
     bind_p (total (reject (part_params params))) (\<lambda>(upload_id, part_number).
     bind_p (total (reject (extract_customer_key (wb_env W) headers))) (\<lambda>customer_key.
     bind_p (body_to_reader rd headers body) (\<lambda>reader.
     bind_p (s3_err_p map_storage_err (upload_part (wb_env W) (wb_store W) (payload_read (wb_env W) rd) bucket upload_id part_number
               reader (extract_checksum headers) customer_key (parse_content_length headers))) (\<lambda>part.
       total (lift_res (build 200
         (header ''ETag'' (pm_etag part) # checksum_header (pm_checksum_algorithm part) (pm_checksum_value part)) NoBody)))))))"

definition COMPLETE_BODY_MAX :: nat where "COMPLETE_BODY_MAX = 1024 * 1024"

definition complete_multipart_upload_api ::
  "web \<Rightarrow> 's reader \<Rightarrow> string \<Rightarrow> string \<Rightarrow> (string \<times> string) list \<Rightarrow> header_map \<Rightarrow> 's \<Rightarrow> (rejection, reply) pact" where
  "complete_multipart_upload_api W rd bucket key params headers body =
     bind_p (total (ensure_bucket_exists W bucket)) (\<lambda>_.
     bind_p (total (reject (upload_id_param params))) (\<lambda>upload_id.
     bind_p (body_bytes_upto rd COMPLETE_BODY_MAX body) (\<lambda>xml.
     bind_p (total (reject (parse_complete_parts W xml))) (\<lambda>parts.
     bind_p (total (reject (extract_customer_key (wb_env W) headers))) (\<lambda>customer_key.
     bind_p (s3_err_p map_storage_err (complete_multipart_upload (wb_env W) (wb_store W) bucket upload_id parts customer_key)) (\<lambda>result.
       total (xml_reply W 200 (checksum_header (pr_checksum_algorithm result) (pr_checksum_value result))
         (CompleteMultipartUploadResult (''/'' @ bucket @ ''/'' @ key) bucket key (pr_etag result)))))))))"

definition abort_multipart_upload_api :: "web \<Rightarrow> string \<Rightarrow> (string \<times> string) list \<Rightarrow> (rejection, reply) act" where
  "abort_multipart_upload_api W bucket params =
     bind_act (ensure_bucket_exists W bucket) (\<lambda>_.
     bind_act (reject (upload_id_param params)) (\<lambda>upload_id.
     bind_act (s3_err map_storage_err (abort_multipart_upload (wb_store W) bucket upload_id)) (\<lambda>_.
       lift_res (build 204 [] NoBody))))"

definition list_parts_api :: "web \<Rightarrow> string \<Rightarrow> (string \<times> string) list \<Rightarrow> (rejection, reply) act" where
  "list_parts_api W bucket params =
     bind_act (ensure_bucket_exists W bucket) (\<lambda>_.
     bind_act (reject (upload_id_param params)) (\<lambda>upload_id.
     bind_act (s3_err map_storage_err (list_parts (wb_env W) (wb_store W) bucket upload_id)) (\<lambda>(upload, parts).
       xml_reply W 200 [] (ListPartsResult bucket (um_key upload) upload_id False
         (map (\<lambda>p. \<lparr>pe_part_number = pm_part_number p, pe_last_modified = pm_last_modified p, pe_etag = pm_etag p,
                     pe_size = pm_size p\<rparr>) parts)))))"

definition list_multipart_uploads_api :: "web \<Rightarrow> string \<Rightarrow> (rejection, reply) act" where
  "list_multipart_uploads_api W bucket =
     bind_act (ensure_bucket_exists W bucket) (\<lambda>_.
     bind_act (s3_err map_storage_err (list_multipart_uploads (wb_env W) (wb_store W) bucket)) (\<lambda>uploads.
       xml_reply W 200 [] (ListMultipartUploadsResult bucket False
         (map (\<lambda>u. (um_key u, um_upload_id u, um_initiated u)) uploads))))"

section \<open>Copies\<close>

fun map_copy_source_err :: "string \<Rightarrow> StorageError \<Rightarrow> S3Error" where
  "map_copy_source_err src_key (NotFound _) = no_such_key src_key"
| "map_copy_source_err src_key (InvalidKey msg) = invalid_argument msg"
| "map_copy_source_err src_key (DecryptionError msg) = invalid_argument msg"
| "map_copy_source_err src_key (IntegrityError msg) = invalid_argument msg"
| "map_copy_source_err src_key _ = internal_error"

fun map_head_source_err :: "string \<Rightarrow> StorageError \<Rightarrow> S3Error" where
  "map_head_source_err src_key (NotFound _) = no_such_key src_key"
| "map_head_source_err src_key _ = internal_error"

definition upload_part_copy ::
  "web \<Rightarrow> string \<Rightarrow> (string \<times> string) list \<Rightarrow> header_map \<Rightarrow> (rejection, reply) pact" where
  "upload_part_copy W bucket params headers =
     bind_p (total (reject (parse_copy_source W headers))) (\<lambda>(src_bucket, src_key).
     bind_p (total (reject (part_params params))) (\<lambda>(upload_id, part_number).
     bind_p (total (ensure_bucket_exists W bucket)) (\<lambda>_.
     bind_p (total (s3_err (map_head_source_err src_key) (head_object (wb_env W) (wb_store W) src_bucket src_key))) (\<lambda>src_meta.
     bind_p (total (reject (parse_copy_source_range headers (om_size src_meta)))) (\<lambda>range.
     bind_p (total (reject (extract_customer_key (wb_env W) headers))) (\<lambda>src_ck.
     bind_p (s3_err_p (map_copy_source_err src_key)
               (case range of
                  None \<Rightarrow> get_object (wb_env W) (wb_store W) src_bucket src_key src_ck
                | Some (start, last_byte) \<Rightarrow>
                    get_object_range (wb_env W) (wb_store W) src_bucket src_key start (last_byte - start + 1) src_ck)) (\<lambda>(reader, _).
     bind_p (total (reject (extract_customer_key (wb_env W) headers))) (\<lambda>dst_ck.
     bind_p (s3_err_p map_storage_err (upload_part (wb_env W) (wb_store W) (object_read (wb_env W)) bucket upload_id part_number
               reader (extract_checksum headers) dst_ck (parse_content_length headers))) (\<lambda>part.
       total (xml_reply W 200 [] (CopyPartResult (pm_etag part) (om_last_modified src_meta))))))))))))"

definition copied_content_type :: "header_map \<Rightarrow> ObjectMeta \<Rightarrow> S3Error + string" where
  "copied_content_type headers src_meta =
     (let directive = (case header_str headers ''x-amz-metadata-directive'' of Some d \<Rightarrow> d | None \<Rightarrow> ''COPY'')
      in if directive = ''COPY'' then Inr (om_content_type src_meta)
         else if directive = ''REPLACE'' then Inr (content_type_of headers)
         else Inl (invalid_argument ''invalid x-amz-metadata-directive''))"

definition copy_object :: "web \<Rightarrow> string \<Rightarrow> string \<Rightarrow> header_map \<Rightarrow> (rejection, reply) pact" where
  "copy_object W bucket key headers =
     bind_p (total (reject (parse_copy_source W headers))) (\<lambda>(src_bucket, src_key).
     bind_p (total (ensure_bucket_exists W bucket)) (\<lambda>_.
     bind_p (total (reject (extract_copy_source_customer_key (wb_env W) headers))) (\<lambda>src_ck.
     bind_p (s3_err_p (map_copy_source_err src_key) (get_object (wb_env W) (wb_store W) src_bucket src_key src_ck)) (\<lambda>(reader, src_meta).
     bind_p (total (reject (copied_content_type headers src_meta))) (\<lambda>content_type.
     bind_p (total (explicit_or_default W headers bucket)) (\<lambda>encryption.
     bind_p (s3_err_p map_storage_upload_error (put_object (wb_env W) (wb_store W) (object_read (wb_env W)) bucket key content_type reader
               (map_option (\<lambda>algo. (algo, None)) (om_checksum_algorithm src_meta)) encryption (Some (om_size src_meta)))) (\<lambda>result.
     bind_p (total (s3_err (\<lambda>_. internal_error) (head_object (wb_env W) (wb_store W) bucket key))) (\<lambda>dst_meta.
       total (xml_reply W 200 (version_header (pr_version_id result) @ add_sse_headers (om_encryption dst_meta))
         (CopyObjectResult (pr_etag result) (om_last_modified dst_meta)))))))))))"

section \<open>Tags, retention and legal hold\<close>

fun map_tagging_err :: "string \<Rightarrow> StorageError \<Rightarrow> S3Error" where
  "map_tagging_err key (NotFound _) = no_such_key key"
| "map_tagging_err key (InvalidKey msg) = invalid_argument msg"
| "map_tagging_err key _ = internal_error"

definition get_object_tagging_api :: "web \<Rightarrow> string \<Rightarrow> string \<Rightarrow> (rejection, reply) act" where
  "get_object_tagging_api W bucket key =
     bind_act (s3_err (map_tagging_err key) (get_object_tagging (wb_env W) (wb_store W) bucket key)) (\<lambda>tags.
     bind_act (reject (to_xml W (Tagging (sort_key fst tags)))) (\<lambda>xml.
       lift_res (build 200 [header ''Content-Type'' ''application/xml''] (Text xml))))"

record tag_scan =
  tg_tags :: "(string \<times> string) list"
  tg_current_key :: "string option"
  tg_in_key :: bool
  tg_in_value :: bool

definition insert_tag :: "string \<Rightarrow> string \<Rightarrow> (string \<times> string) list \<Rightarrow> (string \<times> string) list" where
  "insert_tag k v tags = AList.update k v tags"

definition tag_event :: "xml_event \<Rightarrow> tag_scan \<Rightarrow> S3Error + tag_scan" where
  "tag_event event st =
     (case event of
        XStart name \<Rightarrow>
          Inr (if name = ''Key'' then st\<lparr>tg_in_key := True\<rparr> else if name = ''Value'' then st\<lparr>tg_in_value := True\<rparr> else st)
      | XText t \<Rightarrow>
          let text = (case t of Some x \<Rightarrow> x | None \<Rightarrow> [])
          in Inr (if tg_in_key st then st\<lparr>tg_current_key := Some text, tg_in_key := False\<rparr>
                  else if tg_in_value st
                  then (case tg_current_key st of
                          Some k \<Rightarrow> st\<lparr>tg_tags := insert_tag k text (tg_tags st), tg_current_key := None, tg_in_value := False\<rparr>
                        | None \<Rightarrow> st\<lparr>tg_in_value := False\<rparr>)
                  else st)
      | XEnd name \<Rightarrow>
          Inr (if name = ''Key'' then st\<lparr>tg_in_key := False\<rparr> else if name = ''Value'' then st\<lparr>tg_in_value := False\<rparr> else st)
      | XOther \<Rightarrow> Inr st)"

definition check_tags :: "(string \<times> string) list \<Rightarrow> S3Error + unit" where
  "check_tags tags =
     (if length tags > 10 then Inl (invalid_argument ''Object tags cannot exceed 10 entries'')
      else try_each (\<lambda>(k, v).
             if length k > 128 then Inl (invalid_argument ''Tag key exceeds maximum length of 128 characters'')
             else if length v > 256 then Inl (invalid_argument ''Tag value exceeds maximum length of 256 characters'')
             else Inr ()) tags)"

definition TAGGING_BODY_MAX :: nat where "TAGGING_BODY_MAX = 64 * 1024"

definition parse_tags :: "web \<Rightarrow> bytes \<Rightarrow> S3Error + (string \<times> string) list" where
  "parse_tags W xml =
     (case wb_xml W xml of (events, eof) \<Rightarrow>
        bind_res (scan_xml tag_event events eof \<lparr>tg_tags = [], tg_current_key = None, tg_in_key = False, tg_in_value = False\<rparr>) (\<lambda>st.
        bind_res (check_tags (tg_tags st)) (\<lambda>_. Inr (tg_tags st))))"

definition put_object_tagging_api :: "web \<Rightarrow> 's reader \<Rightarrow> string \<Rightarrow> string \<Rightarrow> 's \<Rightarrow> (rejection, reply) pact" where
  "put_object_tagging_api W rd bucket key body =
     bind_p (body_bytes_upto rd TAGGING_BODY_MAX body) (\<lambda>xml.
       total
         (bind_act (reject (parse_tags W xml)) (\<lambda>tags.
          bind_act (s3_err (map_tagging_err key) (put_object_tagging (wb_env W) (wb_store W) bucket key tags)) (\<lambda>_.
            lift_res (build 200 [] NoBody)))))"

definition delete_object_tagging_api :: "web \<Rightarrow> string \<Rightarrow> string \<Rightarrow> (rejection, reply) act" where
  "delete_object_tagging_api W bucket key =
     bind_act (s3_err (map_tagging_err key) (delete_object_tagging (wb_env W) (wb_store W) bucket key)) (\<lambda>_.
       lift_res (build 204 [] NoBody))"

definition upper_char :: "char \<Rightarrow> char" where
  "upper_char c = (if is_ascii_lowercase c then char_of ((of_char c :: nat) - 32) else c)"

definition to_ascii_uppercase :: "string \<Rightarrow> string" where
  "to_ascii_uppercase s = map upper_char s"

definition parse_lock_mode :: "string \<Rightarrow> S3Error + ObjectLockMode" where
  "parse_lock_mode raw =
     (if to_ascii_uppercase raw = ''GOVERNANCE'' then Inr Governance
      else if to_ascii_uppercase raw = ''COMPLIANCE'' then Inr Compliance
      else Inl (invalid_argument ''invalid ObjectLock retention Mode''))"

definition retention_from_xml :: "env \<Rightarrow> RetentionXml \<Rightarrow> (rejection, ObjectLockRetention) act" where
  "retention_from_xml E xml =
     bind_act (reject (parse_lock_mode (rx_mode xml))) (\<lambda>mode.
       case (rx_retain_until_date xml, rx_days xml) of
         (Some until, _) \<Rightarrow> ok \<lparr>olr_mode = mode, olr_retain_until_date = until\<rparr>
       | (None, Some days) \<Rightarrow>
           bind_act (draw (e_micros E)) (\<lambda>now.
             ok \<lparr>olr_mode = mode, olr_retain_until_date = e_fmt E (now + int days * micros_per_day)\<rparr>)
       | (None, None) \<Rightarrow> fail (Rejected (invalid_argument ''Retention must specify RetainUntilDate or Days'')))"

definition put_object_retention_api ::
  "web \<Rightarrow> 's reader \<Rightarrow> string \<Rightarrow> string \<Rightarrow> (string \<times> string) list \<Rightarrow> 's \<Rightarrow> (rejection, reply) pact" where
  "put_object_retention_api W rd bucket key params body =
     bind_p (body_bytes_upto rd (64 * 1024) body) (\<lambda>bytes.
       total
         (bind_act (reject (Encryption.ok_or (wb_retention W bytes) malformed_xml)) (\<lambda>xml.
          bind_act (retention_from_xml (wb_env W) xml) (\<lambda>retention.
          bind_act (s3_err map_storage_object_error
                      (put_object_retention (wb_env W) (wb_store W) bucket key (query_param params ''versionId'') retention)) (\<lambda>_.
            lift_res (build 200 [] NoBody))))))"

definition xml_declaration :: string where
  "xml_declaration = ''<?xml version='' @ [CHR 0x22] @ ''1.0'' @ [CHR 0x22] @ '' encoding='' @ [CHR 0x22] @ ''UTF-8'' @ [CHR 0x22] @ ''?>''"

definition get_object_retention_api :: "web \<Rightarrow> string \<Rightarrow> string \<Rightarrow> (string \<times> string) list \<Rightarrow> (rejection, reply) act" where
  "get_object_retention_api W bucket key params =
     bind_act (s3_err map_storage_object_error
                 (get_object_retention (wb_env W) (wb_store W) bucket key (query_param params ''versionId''))) (\<lambda>retention.
       lift_res (build 200 [header ''content-type'' ''application/xml'']
         (Text (xml_declaration @ ''<Retention><Mode>''
            @ (case olr_mode retention of Governance \<Rightarrow> ''GOVERNANCE'' | Compliance \<Rightarrow> ''COMPLIANCE'')
            @ ''</Mode><RetainUntilDate>'' @ olr_retain_until_date retention @ ''</RetainUntilDate></Retention>''))))"

definition put_object_legal_hold_api ::
  "web \<Rightarrow> 's reader \<Rightarrow> string \<Rightarrow> string \<Rightarrow> (string \<times> string) list \<Rightarrow> 's \<Rightarrow> (rejection, reply) pact" where
  "put_object_legal_hold_api W rd bucket key params body =
     bind_p (body_bytes_upto rd (64 * 1024) body) (\<lambda>bytes.
       total
         (bind_act (reject (Encryption.ok_or (wb_hold W bytes) malformed_xml)) (\<lambda>status_str.
          bind_act (reject (if to_ascii_uppercase status_str = ''ON'' then Inr LegalHoldOn
                            else if to_ascii_uppercase status_str = ''OFF'' then Inr LegalHoldOff
                            else Inl (invalid_argument ''LegalHold Status must be ON or OFF''))) (\<lambda>status.
          bind_act (s3_err map_storage_object_error
                      (put_object_legal_hold (wb_env W) (wb_store W) bucket key (query_param params ''versionId'') status)) (\<lambda>_.
            lift_res (build 200 [] NoBody))))))"

definition get_object_legal_hold_api :: "web \<Rightarrow> string \<Rightarrow> string \<Rightarrow> (string \<times> string) list \<Rightarrow> (rejection, reply) act" where
  "get_object_legal_hold_api W bucket key params =
     bind_act (s3_err map_storage_object_error
                 (get_object_legal_hold (wb_env W) (wb_store W) bucket key (query_param params ''versionId''))) (\<lambda>status.
       lift_res (build 200 [header ''content-type'' ''application/xml'']
         (Text (xml_declaration @ ''<LegalHold><Status>''
            @ (case status of LegalHoldOn \<Rightarrow> ''ON'' | LegalHoldOff \<Rightarrow> ''OFF'') @ ''</Status></LegalHold>''))))"

section \<open>Uploads\<close>

text \<open>The address of the client, for the policies.\<close>

definition handler_ip :: "web \<Rightarrow> Request \<Rightarrow> string" where
  "handler_ip W ctx = client_ip_from_headers (rq_headers ctx) (trusted_parse (cf_trusted_proxies (ap_config (wb_app W))))"

definition gates :: "web \<Rightarrow> Request \<Rightarrow> string \<Rightarrow> string \<Rightarrow> string option \<Rightarrow> (string \<times> string) list \<Rightarrow> (rejection, unit) act" where
  "gates W ctx http_method bucket key params =
     enforce_s3_bucket_gates (wb_app W) ctx http_method bucket key params (handler_ip W ctx)"

definition copy_gates :: "web \<Rightarrow> Request \<Rightarrow> string \<Rightarrow> string \<Rightarrow> (string \<times> string) list \<Rightarrow> (rejection, unit) act" where
  "copy_gates W ctx bucket key params =
     bind_act (gates W ctx ''PUT'' bucket (Some key) params) (\<lambda>_.
     bind_act (reject (parse_copy_source W (rq_headers ctx))) (\<lambda>(src_bucket, src_key).
       enforce_copy_source_gates (wb_app W) ctx src_bucket src_key (handler_ip W ctx)))"

text \<open>A body with \<open>Content-MD5\<close> is buffered and compared first.\<close>

definition check_content_md5 ::
  "env \<Rightarrow> 's reader \<Rightarrow> header_map \<Rightarrow> 's payload \<Rightarrow> (rejection, 's payload) pact" where
  "check_content_md5 E rd headers reader =
     (case header_str headers ''content-md5'' of
        None \<Rightarrow> total (ok reader)
      | Some expected \<Rightarrow>
          bind_p (lift_opt (map_option (map_err (\<lambda>_. Rejected internal_error) \<circ> fst)
                    (read_to_end (payload_read E rd) BUF_READER_SIZE reader []))) (\<lambda>buf.
            total (if fst (e_b64 E) (e_md5 E buf) \<noteq> expected then fail (Rejected bad_digest) else ok (Decoded buf))))"

definition put_encryption :: "web \<Rightarrow> header_map \<Rightarrow> string \<Rightarrow> (rejection, EncryptionRequest option) act" where
  "put_encryption W headers bucket =
     bind_act (reject (extract_sse_request (wb_env W) headers)) (\<lambda>encryption.
       if encryption \<noteq> None then ok encryption
       else bind_act (s3_err (\<lambda>_. internal_error) (get_bucket_encryption (wb_env W) (wb_store W) bucket)) (\<lambda>cfg.
              ok (map_option encryption_from_bucket_default cfg)))"

definition store_object ::
  "web \<Rightarrow> 's reader \<Rightarrow> Request \<Rightarrow> string \<Rightarrow> string \<Rightarrow> (string \<times> string) list \<Rightarrow> 's \<Rightarrow> (rejection, reply) pact" where
  "store_object W rd ctx bucket key params body =
     (let headers = rq_headers ctx; E = wb_env W
      in bind_p (total (ensure_bucket_exists W bucket)) (\<lambda>_.
         bind_p (total (gates W ctx ''PUT'' bucket (Some key) params)) (\<lambda>_.
         bind_p (body_to_reader rd headers body) (\<lambda>reader0.
         bind_p (check_content_md5 E rd headers reader0) (\<lambda>reader.
         bind_p (total (put_encryption W headers bucket)) (\<lambda>encryption.
         bind_p (s3_err_p map_storage_upload_error (put_object E (wb_store W) (payload_read E rd) bucket key (content_type_of headers)
                   reader (extract_checksum headers) encryption (parse_content_length headers))) (\<lambda>result.
         bind_p (total (emit_object_created W bucket key (pr_size result) (pr_etag result))) (\<lambda>_.
           total (lift_res (build 200
             ([header ''ETag'' (pr_etag result), owned_header ''Content-Length'' (show_nat (pr_size result))]
              @ version_header (pr_version_id result)
              @ checksum_header (pr_checksum_algorithm result) (pr_checksum_value result)
              @ sse_headers owned_header (map_option er_mode encryption) (Option.bind encryption (customer_key_md5 E))) NoBody))))))))))"

definition put_object_api ::
  "web \<Rightarrow> 's reader \<Rightarrow> Request \<Rightarrow> string \<Rightarrow> string \<Rightarrow> (string \<times> string) list \<Rightarrow> 's \<Rightarrow> (rejection, reply) pact" where
  "put_object_api W rd ctx bucket key params body =
     (let headers = rq_headers ctx; copying = header_get headers ''x-amz-copy-source'' \<noteq> None
      in if has_param params ''retention'' then put_object_retention_api W rd bucket key params body
         else if has_param params ''legal-hold'' then put_object_legal_hold_api W rd bucket key params body
         else if has_param params ''uploadId'' \<and> copying
         then bind_p (total (copy_gates W ctx bucket key params)) (\<lambda>_. upload_part_copy W bucket params headers)
         else if copying
         then bind_p (total (copy_gates W ctx bucket key params)) (\<lambda>_. copy_object W bucket key headers)
         else if has_param params ''tagging'' then put_object_tagging_api W rd bucket key body
         else if has_param params ''uploadId'' then upload_part_api W rd bucket params headers body
         else store_object W rd ctx bucket key params body)"

section \<open>Reads\<close>

definition base_headers :: "web \<Rightarrow> ObjectMeta \<Rightarrow> nat \<Rightarrow> (string \<times> string option) list \<Rightarrow> (string \<times> string option) list" where
  "base_headers W meta len hs =
     [header ''Content-Type'' (om_content_type meta), owned_header ''Content-Length'' (show_nat len)] @ hs @
     [header ''ETag'' (om_etag meta), owned_header ''Last-Modified'' (to_http_date W (om_last_modified meta))]"

text \<open>\<open>offset + length - 1\<close> wraps around when the first part is empty.\<close>

definition part_headers :: "web \<Rightarrow> ObjectMeta \<Rightarrow> nat \<times> nat \<times> nat \<Rightarrow> (string \<times> string option) list" where
  "part_headers W meta r =
     (case r of (offset, len, total_parts) \<Rightarrow>
        base_headers W meta len
          [owned_header ''Content-Range'' (content_range offset ((offset + len + 2 ^ 64 - 1) mod 2 ^ 64) (om_size meta))]
        @ [owned_header ''x-amz-mp-parts-count'' (show_nat total_parts)])"

definition get_part :: "web \<Rightarrow> string \<Rightarrow> string \<Rightarrow> string \<Rightarrow> bytes option \<Rightarrow> (rejection, reply) pact" where
  "get_part W bucket key part_num_str customer_key =
     bind_p (total (reject (parse_part_number part_num_str))) (\<lambda>part_num.
     bind_p (total (s3_err (map_read_object_err key) (head_object (wb_env W) (wb_store W) bucket key))) (\<lambda>meta.
     bind_p (total (reject (part_range meta part_num))) (\<lambda>(offset, len, total_parts).
     bind_p (s3_err_p (map_read_object_err key) (get_object_range (wb_env W) (wb_store W) bucket key offset len customer_key)) (\<lambda>(reader, _).
       total (lift_res (build 206 (part_headers W meta (offset, len, total_parts)) (Streaming reader)))))))"

definition get_whole ::
  "web \<Rightarrow> header_map \<Rightarrow> string \<Rightarrow> string \<Rightarrow> string option \<Rightarrow> bytes option \<Rightarrow> (rejection, reply) pact" where
  "get_whole W headers bucket key version_id customer_key =
     bind_p (s3_err_p (map_read_object_err key)
               (case version_id of
                  Some vid \<Rightarrow> get_object_version (wb_env W) (wb_store W) bucket key vid customer_key
                | None \<Rightarrow> get_object (wb_env W) (wb_store W) bucket key customer_key)) (\<lambda>(reader, meta).
       case check_conditions W headers meta of
         Some result \<Rightarrow> total (lift_res (conditional_reply W result meta))
       | None \<Rightarrow>
           total (lift_res (build 200
             (base_headers W meta (om_size meta) [header ''Accept-Ranges'' ''bytes''] @ version_header (om_version_id meta)
              @ add_checksum_header meta @ add_sse_headers (om_encryption meta)) (Streaming reader))))"

definition get_ranged ::
  "web \<Rightarrow> header_map \<Rightarrow> string \<Rightarrow> string \<Rightarrow> string \<Rightarrow> string option \<Rightarrow> bytes option \<Rightarrow> (rejection, reply) pact" where
  "get_ranged W headers bucket key range_str version_id customer_key =
     bind_p (total (s3_err (map_read_object_err key) (head_object (wb_env W) (wb_store W) bucket key))) (\<lambda>meta.
       case check_conditions W headers meta of
         Some result \<Rightarrow> total (lift_res (conditional_reply W result meta))
       | None \<Rightarrow>
           (case parse_range range_str (om_size meta) of
              Inl _ \<Rightarrow> total (fail (Rejected invalid_range))
            | Inr None \<Rightarrow> get_whole W headers bucket key version_id customer_key
            | Inr (Some (start, last_byte)) \<Rightarrow>
                bind_p (s3_err_p (map_read_object_err key)
                          (get_object_range (wb_env W) (wb_store W) bucket key start (last_byte - start + 1) customer_key)) (\<lambda>(reader, _).
                  total (lift_res (build 206
                    (base_headers W meta (last_byte - start + 1)
                       [owned_header ''Content-Range'' (content_range start last_byte (om_size meta)), header ''Accept-Ranges'' ''bytes''])
                    (Streaming reader))))))"

definition get_object_api ::
  "web \<Rightarrow> Request \<Rightarrow> string \<Rightarrow> string \<Rightarrow> (string \<times> string) list \<Rightarrow> (rejection, reply) pact" where
  "get_object_api W ctx bucket key params =
     (let headers = rq_headers ctx
      in bind_p (total (gates W ctx ''GET'' bucket (Some key) params)) (\<lambda>_.
         if has_param params ''retention'' then total (get_object_retention_api W bucket key params)
         else if has_param params ''legal-hold'' then total (get_object_legal_hold_api W bucket key params)
         else if has_param params ''tagging'' then total (get_object_tagging_api W bucket key)
         else if has_param params ''uploadId'' then total (list_parts_api W bucket params)
         else
           bind_p (total (reject (extract_customer_key (wb_env W) headers))) (\<lambda>customer_key.
             case query_param params ''partNumber'' of
               Some part_num_str \<Rightarrow> get_part W bucket key part_num_str customer_key
             | None \<Rightarrow>
                 (case header_str headers ''range'' of
                    Some range_str \<Rightarrow> get_ranged W headers bucket key range_str (query_param params ''versionId'') customer_key
                  | None \<Rightarrow> get_whole W headers bucket key (query_param params ''versionId'') customer_key))))"

fun map_head_err :: "string \<Rightarrow> StorageError \<Rightarrow> S3Error" where
  "map_head_err key (NotFound _) = no_such_key key"
| "map_head_err key (InvalidKey msg) = invalid_argument msg"
| "map_head_err key _ = internal_error"

fun map_head_version_err :: "string \<Rightarrow> string \<Rightarrow> StorageError \<Rightarrow> S3Error" where
  "map_head_version_err key version_id (VersionNotFound _) = no_such_version version_id"
| "map_head_version_err key version_id e = map_head_err key e"

definition head_object_api :: "web \<Rightarrow> Request \<Rightarrow> string \<Rightarrow> string \<Rightarrow> (string \<times> string) list \<Rightarrow> (rejection, reply) act" where
  "head_object_api W ctx bucket key params =
     (let headers = rq_headers ctx
      in bind_act (gates W ctx ''HEAD'' bucket (Some key) params) (\<lambda>_.
         bind_act (case query_param params ''versionId'' of
                     Some vid \<Rightarrow> s3_err (map_head_version_err key vid) (head_object_version (wb_env W) (wb_store W) bucket key vid)
                   | None \<Rightarrow> s3_err (map_head_err key) (head_object (wb_env W) (wb_store W) bucket key)) (\<lambda>meta.
           case check_conditions W headers meta of
             Some result \<Rightarrow> lift_res (conditional_reply W result meta)
           | None \<Rightarrow>
               (case query_param params ''partNumber'' of
                  Some part_num_str \<Rightarrow>
                    bind_act (reject (parse_part_number part_num_str)) (\<lambda>part_num.
                    bind_act (reject (part_range meta part_num)) (\<lambda>r.
                      lift_res (build 206 (part_headers W meta r @ version_header (om_version_id meta)) NoBody)))
                | None \<Rightarrow>
                    lift_res (build 200 (base_headers W meta (om_size meta) [] @ [header ''Accept-Ranges'' ''bytes'']
                      @ version_header (om_version_id meta) @ add_checksum_header meta @ add_sse_headers (om_encryption meta)) NoBody)))))"

section \<open>Deletions\<close>

fun map_delete_version_err :: "string \<Rightarrow> StorageError \<Rightarrow> S3Error" where
  "map_delete_version_err version_id (VersionNotFound _) = no_such_version version_id"
| "map_delete_version_err version_id _ = internal_error"

definition marker_header :: "bool \<Rightarrow> (string \<times> string option) list" where
  "marker_header is_delete_marker = (if is_delete_marker then [header ''x-amz-delete-marker'' ''true''] else [])"

definition delete_object_api :: "web \<Rightarrow> Request \<Rightarrow> string \<Rightarrow> string \<Rightarrow> (string \<times> string) list \<Rightarrow> (rejection, reply) act" where
  "delete_object_api W ctx bucket key params =
     (if has_param params ''tagging'' then delete_object_tagging_api W bucket key
      else if has_param params ''uploadId'' then abort_multipart_upload_api W bucket params
      else
        bind_act (ensure_bucket_exists W bucket) (\<lambda>_.
        bind_act (gates W ctx ''DELETE'' bucket (Some key) params) (\<lambda>_.
          case query_param params ''versionId'' of
            Some vid \<Rightarrow>
              bind_act (s3_err (map_delete_version_err vid) (delete_object_version (wb_env W) (wb_store W) bucket key vid)) (\<lambda>deleted.
                lift_res (build 204 (header ''x-amz-version-id'' vid # marker_header (om_is_delete_marker deleted)) NoBody))
          | None \<Rightarrow>
              bind_act (s3_err map_storage_object_error (delete_object (wb_env W) (wb_store W) bucket key)) (\<lambda>result.
              bind_act (emit_object_removed W bucket key) (\<lambda>_.
                lift_res (build 204 (version_header (dr_version_id result) @ marker_header (dr_is_delete_marker result)) NoBody))))))"

definition post_object_api ::
  "web \<Rightarrow> 's reader \<Rightarrow> Request \<Rightarrow> string \<Rightarrow> string \<Rightarrow> (string \<times> string) list \<Rightarrow> 's \<Rightarrow> (rejection, reply) pact" where
  "post_object_api W rd ctx bucket key params body =
     bind_p (total (gates W ctx ''POST'' bucket (Some key) params)) (\<lambda>_.
       if has_param params ''uploads'' then total (create_multipart_upload_api W bucket key (rq_headers ctx))
       else if has_param params ''uploadId'' then complete_multipart_upload_api W rd bucket key params (rq_headers ctx) body
       else total (fail (Rejected (not_implemented ''Unsupported POST object operation''))))"

text \<open>
  Multi-object delete: the gates of every key come first; then the objects are deleted, here one
  after the other. A failed deletion is an entry of the reply.
\<close>

definition DELETE_BODY_MAX :: nat where "DELETE_BODY_MAX = 1024 * 1024"

definition delete_key_event :: "xml_event \<Rightarrow> string list \<times> bool \<Rightarrow> S3Error + string list \<times> bool" where
  "delete_key_event event st =
     (case st of (keys, in_key) \<Rightarrow>
        Inr (case event of
               XStart name \<Rightarrow> if name = ''Key'' then (keys, True) else st
             | XText t \<Rightarrow> if in_key then (keys @ [case t of Some x \<Rightarrow> x | None \<Rightarrow> []], False) else st
             | XEnd name \<Rightarrow> if name = ''Key'' then (keys, False) else st
             | XOther \<Rightarrow> st))"

fun delete_keys :: "web \<Rightarrow> string \<Rightarrow> string list \<Rightarrow> ('e, (string \<times> (StorageError + DeleteResult)) list) act" where
  "delete_keys W bucket [] = ok []"
| "delete_keys W bucket (key # keys) =
     bind_act (attempt (delete_object (wb_env W) (wb_store W) bucket key)) (\<lambda>r.
     bind_act (delete_keys W bucket keys) (\<lambda>rs. ok ((key, r) # rs)))"

definition delete_objects ::
  "web \<Rightarrow> 's reader \<Rightarrow> Request \<Rightarrow> string \<Rightarrow> 's \<Rightarrow> (rejection, (string \<times> (StorageError + DeleteResult)) list) pact" where
  "delete_objects W rd ctx bucket body =
     bind_p (total (bind_act (ensure_bucket_exists W bucket) (\<lambda>_. gates W ctx ''POST'' bucket None [(''delete'', [])]))) (\<lambda>_.
     bind_p (body_bytes_upto rd DELETE_BODY_MAX body) (\<lambda>bytes.
       total
         (bind_act (reject (case wb_xml W bytes of (events, eof) \<Rightarrow> scan_xml delete_key_event events eof ([], False))) (\<lambda>(keys, _).
          bind_act (if length keys > 1000
                    then fail (Rejected (invalid_argument ''Cannot delete more than 1000 objects in a single request'')) else ok ()) (\<lambda>_.
          bind_act (for_each keys (\<lambda>key. gates W ctx ''DELETE'' bucket (Some key) [])) (\<lambda>_.
            delete_keys W bucket keys))))))"

end
