(* ===== verification/RateLimit.thy ===== *)
theory RateLimit
  imports Prelude
begin

text \<open>
  Rate limiting (\<open>rate_limit.rs\<close>): the in-memory limiter of S3 authentication failures, PUT
  requests, admin requests and console logins, and the login limiter on a Redis store. Instants
  are nanoseconds of a monotonic clock; counters are 32-bit and wrap.
\<close>

section \<open>The code\<close>

record Bucket =
  bu_count :: nat
  bu_window_start :: nat

record SlidingWindowLimiter =
  sl_buckets :: "string \<rightharpoonup> Bucket"
  sl_max :: nat
  sl_window_secs :: nat

definition limiter_new :: "nat \<Rightarrow> nat \<Rightarrow> SlidingWindowLimiter" where
  "limiter_new m window_secs = \<lparr>sl_buckets = Map.empty, sl_max = m, sl_window_secs = window_secs\<rparr>"

definition is_enabled :: "SlidingWindowLimiter \<Rightarrow> bool" where
  "is_enabled l \<longleftrightarrow> sl_max l > 0"

text \<open>\<open>now.duration_since(start).as_secs()\<close>.\<close>

definition secs_since :: "nat \<Rightarrow> nat \<Rightarrow> nat" where
  "secs_since start now = (now - start) div 1000000000"

definition retain :: "nat \<Rightarrow> nat \<Rightarrow> (string \<rightharpoonup> Bucket) \<Rightarrow> (string \<rightharpoonup> Bucket)" where
  "retain window now m = (\<lambda>k. case m k of
     Some b \<Rightarrow> if secs_since (bu_window_start b) now < (window * 2) mod 2 ^ 64 then Some b else None
   | None \<Rightarrow> None)"

definition try_acquire :: "nat \<Rightarrow> string \<Rightarrow> SlidingWindowLimiter \<Rightarrow> nat option \<times> SlidingWindowLimiter" where
  "try_acquire now key l =
     (if \<not> is_enabled l then (None, l)
      else
        let window = sl_window_secs l;
            m = retain window now (sl_buckets l);
            b0 = (case m key of Some b \<Rightarrow> b | None \<Rightarrow> \<lparr>bu_count = 0, bu_window_start = now\<rparr>);
            b1 = (if secs_since (bu_window_start b0) now \<ge> window then \<lparr>bu_count = 0, bu_window_start = now\<rparr> else b0);
            b2 = b1\<lparr>bu_count := (bu_count b1 + 1) mod 2 ^ 32\<rparr>
        in (if bu_count b2 > sl_max l then Some (max (window - secs_since (bu_window_start b2) now) 1) else None,
            l\<lparr>sl_buckets := m(key \<mapsto> b2)\<rparr>))"

text \<open>
  The console limiter. The Redis commands are parameters: \<open>INCR\<close> may fail, \<open>EXPIRE\<close> is ignored,
  \<open>TTL\<close> defaults to 1.
\<close>

datatype LoginRateLimiter = MemoryBackend SlidingWindowLimiter | RedisBackend nat nat

definition DEFAULT_MAX :: nat where "DEFAULT_MAX = 10"
definition DEFAULT_WINDOW_SECS :: nat where "DEFAULT_WINDOW_SECS = 300"

record 'r redis =
  rd_incr :: "string \<Rightarrow> 'r \<Rightarrow> nat option \<times> 'r"
  rd_expire :: "string \<Rightarrow> nat \<Rightarrow> 'r \<Rightarrow> 'r"
  rd_ttl :: "string \<Rightarrow> 'r \<Rightarrow> int option \<times> 'r"

definition redis_check_and_increment :: "'r redis \<Rightarrow> string \<Rightarrow> nat \<Rightarrow> nat \<Rightarrow> 'r \<Rightarrow> nat option \<times> 'r" where
  "redis_check_and_increment R ip m window_secs s =
     (if m = 0 then (None, s)
      else
        let key = ''maxio:login:'' @ ip
        in case rd_incr R key s of
             (None, s1) \<Rightarrow> (None, s1)
           | (Some count, s1) \<Rightarrow>
               let s2 = (if count = 1 then rd_expire R key window_secs s1 else s1)
               in if count > m
                  then (case rd_ttl R key s2 of (ttl, s3) \<Rightarrow> (Some (nat (max (case ttl of Some t \<Rightarrow> t | None \<Rightarrow> 1) 1)), s3))
                  else (None, s2))"

definition in_memory :: "nat \<Rightarrow> nat \<Rightarrow> LoginRateLimiter" where
  "in_memory m window_secs = MemoryBackend (limiter_new m window_secs)"

definition login_new :: LoginRateLimiter where
  "login_new = in_memory DEFAULT_MAX DEFAULT_WINDOW_SECS"

text \<open>Opening the URL and connecting is a parameter, which gives an error or succeeds.\<close>

definition login_from_config :: "(string \<Rightarrow> string option) \<Rightarrow> string option \<Rightarrow> string + LoginRateLimiter" where
  "login_from_config connect redis_url =
     (case redis_url of
        Some url \<Rightarrow>
          if trim url = [] then Inr login_new
          else (case connect url of Some e \<Rightarrow> Inl e | None \<Rightarrow> Inr (RedisBackend DEFAULT_MAX DEFAULT_WINDOW_SECS))
      | None \<Rightarrow> Inr login_new)"

fun login_check_and_increment ::
  "'r redis \<Rightarrow> nat \<Rightarrow> string \<Rightarrow> LoginRateLimiter \<times> 'r \<Rightarrow> nat option \<times> LoginRateLimiter \<times> 'r" where
  "login_check_and_increment R now ip (MemoryBackend l, s) =
     (case try_acquire now ip l of (r, l') \<Rightarrow> (r, MemoryBackend l', s))"
| "login_check_and_increment R now ip (RedisBackend m w, s) =
     (case redis_check_and_increment R ip m w s of (r, s') \<Rightarrow> (r, RedisBackend m w, s'))"

record S3RateLimiter =
  s3_auth_failures :: SlidingWindowLimiter
  s3_put_requests :: SlidingWindowLimiter

definition s3_from_config :: "nat \<Rightarrow> nat \<Rightarrow> nat \<Rightarrow> nat \<Rightarrow> S3RateLimiter" where
  "s3_from_config auth_max auth_window_secs put_max put_window_secs =
     \<lparr>s3_auth_failures = limiter_new auth_max auth_window_secs, s3_put_requests = limiter_new put_max put_window_secs\<rparr>"

record AdminRateLimiter =
  ar_inner :: SlidingWindowLimiter

definition admin_from_config :: "nat \<Rightarrow> nat \<Rightarrow> AdminRateLimiter" where
  "admin_from_config m window_secs = \<lparr>ar_inner = limiter_new m window_secs\<rparr>"

definition admin_check_and_increment :: "nat \<Rightarrow> string \<Rightarrow> AdminRateLimiter \<Rightarrow> nat option \<times> AdminRateLimiter" where
  "admin_check_and_increment now ip a =
     (case try_acquire now ip (ar_inner a) of (r, l) \<Rightarrow> (r, a\<lparr>ar_inner := l\<rparr>))"

section \<open>Runs\<close>

text \<open>Requests at non-decreasing instants, newest first, with the answer: allowed or not.\<close>

inductive limiter_run :: "nat \<Rightarrow> nat \<Rightarrow> nat \<Rightarrow> SlidingWindowLimiter \<Rightarrow> (string \<times> nat \<times> bool) list \<Rightarrow> bool"
  for m W where
  start: "limiter_run m W 0 (limiter_new m W) []"
| request: "limiter_run m W clock l h \<Longrightarrow> clock \<le> now \<Longrightarrow> try_acquire now k l = (r, l')
    \<Longrightarrow> limiter_run m W now l' ((k, now, r = None) # h)"

definition allowed_times :: "string \<Rightarrow> (string \<times> nat \<times> bool) list \<Rightarrow> nat list" where
  "allowed_times k h = map (\<lambda>(_, t, _). t) (filter (\<lambda>(k', _, a). k' = k \<and> a) h)"

abbreviation nanos :: "nat \<Rightarrow> nat" where
  "nanos W \<equiv> W * 1000000000"

text \<open>
  The history of one key: each allowed request with the start of the window it was counted in.
\<close>

definition in_window :: "nat \<Rightarrow> (nat \<times> nat) list \<Rightarrow> nat" where
  "in_window s g = length (filter (\<lambda>(_, s'). s' = s) g)"

definition windows_ok :: "nat \<Rightarrow> nat \<Rightarrow> (nat \<times> nat) list \<Rightarrow> bool" where
  "windows_ok m W g \<longleftrightarrow>
     (\<forall>(a, s) \<in> set g. s \<le> a \<and> a < s + nanos W)
     \<and> (\<forall>s \<in> snd ` set g. (s, s) \<in> set g \<and> in_window s g \<le> m)
     \<and> (\<forall>s \<in> snd ` set g. \<forall>s' \<in> snd ` set g. s < s' \<longrightarrow> s + nanos W \<le> s')"

definition key_inv :: "nat \<Rightarrow> nat \<Rightarrow> nat \<Rightarrow> nat \<Rightarrow> Bucket option \<Rightarrow> (nat \<times> nat) list \<Rightarrow> bool" where
  "key_inv m W clock n b g \<longleftrightarrow> windows_ok m W g \<and>
     (case b of
        None \<Rightarrow> \<forall>s \<in> snd ` set g. s + nanos W \<le> clock
      | Some b \<Rightarrow> bu_window_start b \<le> clock \<and> bu_count b \<le> n
          \<and> (\<forall>s \<in> snd ` set g. s \<noteq> bu_window_start b \<longrightarrow> s + nanos W \<le> bu_window_start b)
          \<and> (bu_window_start b, bu_window_start b) \<in> set g \<and> in_window (bu_window_start b) g = min (bu_count b) m)"

lemma secs_since_ge: "start \<le> now \<Longrightarrow> W \<le> secs_since start now \<longleftrightarrow> start + nanos W \<le> now"
  by (simp add: secs_since_def div_less_iff_less_mult less_eq_div_iff_mult_less_eq) linarith

definition expired :: "nat \<Rightarrow> nat \<Rightarrow> Bucket option \<Rightarrow> bool" where
  "expired W now b \<longleftrightarrow> (case b of None \<Rightarrow> True | Some b \<Rightarrow> bu_window_start b + nanos W \<le> now)"

definition next_bucket :: "nat \<Rightarrow> nat \<Rightarrow> Bucket option \<Rightarrow> Bucket" where
  "next_bucket W now b =
     (if expired W now b then \<lparr>bu_count = 1, bu_window_start = now\<rparr>
      else (the b)\<lparr>bu_count := (bu_count (the b) + 1) mod 2 ^ 32\<rparr>)"

lemma acquire_effect:
  assumes "try_acquire now k l = (r, l')" "0 < sl_max l" "sl_window_secs l * 2 < 2 ^ 64" "0 < sl_window_secs l"
    and "\<forall>k' b. sl_buckets l k' = Some b \<longrightarrow> bu_window_start b \<le> now"
  shows "sl_max l' = sl_max l" "sl_window_secs l' = sl_window_secs l"
    "sl_buckets l' k = Some (next_bucket (sl_window_secs l) now (sl_buckets l k))"
    "r = None \<longleftrightarrow> bu_count (next_bucket (sl_window_secs l) now (sl_buckets l k)) \<le> sl_max l"
    "k' \<noteq> k \<Longrightarrow> sl_buckets l' k' = sl_buckets l k' \<or>
       (\<exists>b. sl_buckets l k' = Some b \<and> sl_buckets l' k' = None \<and> bu_window_start b + nanos (sl_window_secs l) \<le> now)"
proof -
  let ?W = "sl_window_secs l"
  let ?m = "retain ?W now (sl_buckets l)"
  let ?b0 = "case ?m k of Some b \<Rightarrow> b | None \<Rightarrow> \<lparr>bu_count = 0, bu_window_start = now\<rparr>"
  let ?b1 = "if secs_since (bu_window_start ?b0) now \<ge> ?W then \<lparr>bu_count = 0, bu_window_start = now\<rparr> else ?b0"
  have w: "(?W * 2) mod 2 ^ 64 = ?W * 2" using assms(3) by simp
  have nb: "?b1\<lparr>bu_count := (bu_count ?b1 + 1) mod 2 ^ 32\<rparr> = next_bucket ?W now (sl_buckets l k)"
  proof (cases "sl_buckets l k")
    case None
    then show ?thesis using assms(4) by (simp add: retain_def next_bucket_def expired_def secs_since_def)
  next
    case (Some b)
    have "?W \<le> secs_since (bu_window_start b) now \<longleftrightarrow> bu_window_start b + nanos ?W \<le> now"
      using secs_since_ge assms(5) Some by blast
    then show ?thesis using Some assms(4) unfolding retain_def w by (auto simp: next_bucket_def expired_def)
  qed
  have acq: "try_acquire now k l =
      (if bu_count (next_bucket ?W now (sl_buckets l k)) > sl_max l
       then Some (max (?W - secs_since (bu_window_start (next_bucket ?W now (sl_buckets l k))) now) 1) else None,
       l\<lparr>sl_buckets := ?m(k \<mapsto> next_bucket ?W now (sl_buckets l k))\<rparr>)"
    using assms(2) unfolding try_acquire_def is_enabled_def Let_def nb by simp
  show "sl_max l' = sl_max l" "sl_window_secs l' = sl_window_secs l"
    "sl_buckets l' k = Some (next_bucket ?W now (sl_buckets l k))"
    "r = None \<longleftrightarrow> bu_count (next_bucket ?W now (sl_buckets l k)) \<le> sl_max l"
    using acq assms(1) by (auto split: if_splits)
  show "sl_buckets l' k' = sl_buckets l k' \<or>
       (\<exists>b. sl_buckets l k' = Some b \<and> sl_buckets l' k' = None \<and> bu_window_start b + nanos ?W \<le> now)" if "k' \<noteq> k"
  proof (cases "sl_buckets l k'")
    case None
    then show ?thesis using acq assms(1) that by (auto simp: retain_def)
  next
    case (Some b)
    have "?W \<le> secs_since (bu_window_start b) now \<longleftrightarrow> bu_window_start b + nanos ?W \<le> now"
      using secs_since_ge assms(5) Some by blast
    then have "?m k' = Some b \<or> ?m k' = None \<and> bu_window_start b + nanos ?W \<le> now"
      using Some unfolding retain_def w by auto
    then show ?thesis using acq assms(1) that Some by auto
  qed
qed

text \<open>A request keeps the invariant of its own key, and of every other key.\<close>

lemma windows_ok_fresh:
  assumes "windows_ok m W g" "\<forall>s \<in> snd ` set g. s + nanos W \<le> now" "0 < m" "0 < W"
  shows "windows_ok m W ((now, now) # g)" "in_window now ((now, now) # g) = 1"
proof -
  have lt: "\<forall>s \<in> snd ` set g. s < now" using assms(2,4) by fastforce
  then have "filter (\<lambda>(_, s'). s' = now) g = []" by (auto simp: filter_empty_conv)
  then show one: "in_window now ((now, now) # g) = 1" by (simp add: in_window_def)
  have same: "in_window s ((now, now) # g) = in_window s g" if "s \<in> snd ` set g" for s
    using that lt by (auto simp: in_window_def)
  note ok = assms(1) [unfolded windows_ok_def]
  have "\<forall>s \<in> snd ` set ((now, now) # g). (s, s) \<in> set ((now, now) # g) \<and> in_window s ((now, now) # g) \<le> m"
    using ok same one assms(3) by simp
  moreover have "\<forall>s \<in> snd ` set ((now, now) # g). \<forall>s' \<in> snd ` set ((now, now) # g). s < s' \<longrightarrow> s + nanos W \<le> s'"
    using ok assms(2) lt by (auto dest: less_asym)
  ultimately show "windows_ok m W ((now, now) # g)"
    using ok assms(4) unfolding windows_ok_def by simp
qed

lemma windows_ok_more:
  assumes "windows_ok m W g" "(s, s) \<in> set g" "in_window s g < m" "s \<le> now" "now < s + nanos W"
  shows "windows_ok m W ((now, s) # g)" "in_window s ((now, s) # g) = Suc (in_window s g)"
proof -
  show one: "in_window s ((now, s) # g) = Suc (in_window s g)" by (simp add: in_window_def)
  have same: "in_window s' ((now, s) # g) = in_window s' g" if "s' \<noteq> s" for s' using that by (simp add: in_window_def)
  have im: "snd ` set ((now, s) # g) = snd ` set g" using assms(2) by force
  note ok = assms(1) [unfolded windows_ok_def]
  have "in_window s' ((now, s) # g) \<le> m" if "s' \<in> snd ` set g" for s'
    using ok same one assms(3) that by (cases "s' = s") auto
  then show "windows_ok m W ((now, s) # g)"
    using ok assms(4,5) unfolding windows_ok_def im by simp
qed

lemma request_inv:
  assumes "key_inv m W clock n b g" "clock \<le> now" "0 < m" "0 < W" "Suc n < 2 ^ 32"
  shows "\<exists>g'. map fst g' = (if bu_count (next_bucket W now b) \<le> m then now # map fst g else map fst g)
    \<and> key_inv m W now (Suc n) (Some (next_bucket W now b)) g'"
proof (cases "expired W now b")
  case True
  then have old: "\<forall>s \<in> snd ` set g. s + nanos W \<le> now"
    using assms(1,2) by (cases b) (fastforce simp: key_inv_def expired_def)+
  have "windows_ok m W g" using assms(1) by (simp add: key_inv_def)
  from windows_ok_fresh [OF this old assms(3,4)] True assms(3) old show ?thesis
    by (intro exI [of _ "(now, now) # g"]) (auto simp: key_inv_def next_bucket_def)
next
  case False
  then obtain c where b: "b = Some c" "now < bu_window_start c + nanos W" by (cases b) (auto simp: expired_def)
  note i = assms(1) [unfolded key_inv_def b(1) option.case]
  have nb: "next_bucket W now b = c\<lparr>bu_count := bu_count c + 1\<rparr>"
    using False b i assms(5) by (simp add: next_bucket_def)
  show ?thesis
  proof (cases "bu_count c + 1 \<le> m")
    case True
    then have "in_window (bu_window_start c) g < m" using i by simp
    from windows_ok_more [OF _ _ this, of W now] i b(2) True assms(2) show ?thesis
      by (intro exI [of _ "(now, bu_window_start c) # g"]) (auto simp: key_inv_def nb)
  next
    case False
    then show ?thesis using i assms(2) by (intro exI [of _ g]) (auto simp: key_inv_def nb)
  qed
qed

lemma key_inv_later: "key_inv m W clock n b g \<Longrightarrow> clock \<le> now \<Longrightarrow> n \<le> n' \<Longrightarrow> key_inv m W now n' b g"
  by (cases b) (auto simp: key_inv_def)

lemma key_inv_dropped:
  "key_inv m W clock n (Some b) g \<Longrightarrow> bu_window_start b + nanos W \<le> now \<Longrightarrow> key_inv m W now n' None g"
  by (fastforce simp: key_inv_def)

lemma run_inv:
  assumes "limiter_run m W clock l h" "0 < m" "0 < W" "W * 2 < 2 ^ 64" "length h < 2 ^ 32"
  shows "sl_max l = m \<and> sl_window_secs l = W
    \<and> (\<forall>k. \<exists>g. map fst g = allowed_times k h \<and> key_inv m W clock (length h) (sl_buckets l k) g)"
  using assms(1,5)
proof (induction rule: limiter_run.induct)
  case start
  then show ?case by (auto simp: limiter_new_def allowed_times_def key_inv_def windows_ok_def)
next
  case (request clock l h now k r l')
  have inv: "sl_max l = m" "sl_window_secs l = W"
    "\<And>k. \<exists>g. map fst g = allowed_times k h \<and> key_inv m W clock (length h) (sl_buckets l k) g"
    using request.IH request.prems by auto
  have "bu_window_start b \<le> now" if "sl_buckets l k' = Some b" for k' b
    using inv(3) [of k'] that request.hyps(2) by (auto simp: key_inv_def)
  then have "\<forall>k' b. sl_buckets l k' = Some b \<longrightarrow> bu_window_start b \<le> now" by blast
  note eff = acquire_effect [OF request.hyps(3), unfolded inv(1,2), OF assms(2,4,3) this]
  have "\<exists>g. map fst g = allowed_times k' ((k, now, r = None) # h) \<and> key_inv m W now (Suc (length h)) (sl_buckets l' k') g" for k'
  proof (cases "k' = k")
    case True
    obtain g where g: "map fst g = allowed_times k h" "key_inv m W clock (length h) (sl_buckets l k) g" using inv(3) by blast
    from request_inv [OF g(2) request.hyps(2) assms(2,3)] request.prems eff(3,4) g(1) show ?thesis
      by (auto simp: True allowed_times_def)
  next
    case False
    obtain g where g: "map fst g = allowed_times k' h" "key_inv m W clock (length h) (sl_buckets l k') g" using inv(3) by blast
    then have "key_inv m W now (Suc (length h)) (sl_buckets l' k') g"
      using eff(5) [OF False] key_inv_later [OF g(2) request.hyps(2), of "Suc (length h)"] key_inv_dropped g(2) by fastforce
    with g(1) False show ?thesis by (auto simp: allowed_times_def)
  qed
  with eff(1,2) show ?case by simp
qed

section \<open>The bound\<close>

lemma in_interval_bound:
  assumes "windows_ok m W g" "0 < m"
  shows "length (filter (\<lambda>x. t \<le> fst x \<and> fst x < t + nanos W) g) \<le> 2 * m - 1"
proof -
  define G where "G = filter (\<lambda>x. t \<le> fst x \<and> fst x < t + nanos W) g"
  note ok = assms(1) [unfolded windows_ok_def]
  have sub: "set G \<subseteq> set g" by (simp add: G_def)
  have split: "filter (\<lambda>x. snd x = s) G = filter (\<lambda>x. t \<le> fst x \<and> fst x < t + nanos W) (filter (\<lambda>(_, s'). s' = s) g)" for s
    unfolding G_def filter_filter by (rule filter_cong) auto
  then have part: "length (filter (\<lambda>x. snd x = s) G) \<le> in_window s g" for s
    by (simp add: in_window_def del: filter_filter)
  have rng: "t < snd x + nanos W \<and> snd x < t + nanos W" if x: "x \<in> set G" for x
  proof -
    have "snd x \<le> fst x" "fst x < snd x + nanos W" using x sub conjunct1 [OF ok] by (auto simp: case_prod_unfold)
    moreover have "t \<le> fst x" "fst x < t + nanos W" using x by (simp_all add: G_def)
    ultimately show ?thesis by linarith
  qed
  have win: "(snd x, snd x) \<in> set g" "in_window (snd x) g \<le> m" if "x \<in> set G" for x using ok that sub by blast+
  have "length G \<le> 2 * m - 1"
  proof (cases "\<exists>x \<in> set G. \<exists>y \<in> set G. snd x < snd y")
    case False
    show ?thesis
    proof (cases G)
      case (Cons x G')
      then have x: "x \<in> set G" by simp
      then have "\<forall>y \<in> set G. snd y = snd x" using False by (meson linorder_neqE_nat)
      then have "filter (\<lambda>y. snd y = snd x) G = G" by (simp add: filter_id_conv)
      then have "length G \<le> m" using part [of "snd x"] win(2) [OF x] by simp
      then show ?thesis using assms(2) by linarith
    qed simp
  next
    case True
    then obtain x y where xy: "x \<in> set G" "y \<in> set G" "snd x < snd y" by blast
    have sep: "snd u + nanos W \<le> snd v" if "u \<in> set G" "v \<in> set G" "snd u < snd v" for u v
      using ok that sub by blast
    have two: "snd z = snd x \<or> snd z = snd y" if z: "z \<in> set G" for z
      using rng [OF xy(1)] rng [OF xy(2)] rng [OF z] sep [OF xy] sep [OF xy(1) z] sep [OF z xy(1)] sep [OF xy(2) z] sep [OF z xy(2)]
      by linarith
    have lt: "snd x < t" using sep [OF xy] rng [OF xy(2)] by linarith
    have "(snd x, snd x) \<in> set (filter (\<lambda>(_, s'). s' = snd x) g)" using win(1) [OF xy(1)] by simp
    then have "length (filter (\<lambda>z. snd z = snd x) G) < in_window (snd x) g"
      unfolding split in_window_def using lt by (intro length_filter_less) auto
    moreover have "filter (\<lambda>z. snd z \<noteq> snd x) G = filter (\<lambda>z. snd z = snd y) G"
      using two xy(3) by (intro filter_cong) auto
    then have "length G = length (filter (\<lambda>z. snd z = snd x) G) + length (filter (\<lambda>z. snd z = snd y) G)"
      using sum_length_filter_compl [of "\<lambda>z. snd z = snd x" G] by simp
    ultimately show ?thesis using part [of "snd y"] win(2) [OF xy(1)] win(2) [OF xy(2)] by linarith
  qed
  then show ?thesis by (simp add: G_def)
qed

text \<open>
  C26. The limiter counts in fixed windows that begin with a request, not in a sliding window.
  After any sequence of requests at non-decreasing instants, for every client the number of
  allowed requests in any interval of the configured length is at most twice the maximum minus
  one. The example reaches the bound: a client can get nearly twice the configured rate.
\<close>

theorem rate_limit_bound:
  assumes "limiter_run m W clock l h" "0 < m" "0 < W" "W * 2 < 2 ^ 64" "length h < 2 ^ 32"
  shows "length (filter (\<lambda>a. t \<le> a \<and> a < t + nanos W) (allowed_times k h)) \<le> 2 * m - 1"
proof -
  obtain g where g: "map fst g = allowed_times k h" "key_inv m W clock (length h) (sl_buckets l k) g"
    using run_inv [OF assms] by blast
  then have "length (filter (\<lambda>x. t \<le> fst x \<and> fst x < t + nanos W) g) \<le> 2 * m - 1"
    using in_interval_bound assms(2) by (auto simp: key_inv_def)
  then show ?thesis unfolding g(1) [symmetric] by (simp add: filter_map comp_def)
qed

fun serve :: "(string \<times> nat) list \<Rightarrow> SlidingWindowLimiter \<Rightarrow> (string \<times> nat \<times> bool) list \<Rightarrow> SlidingWindowLimiter \<times> (string \<times> nat \<times> bool) list" where
  "serve [] l h = (l, h)"
| "serve ((k, now) # rs) l h = (case try_acquire now k l of (r, l') \<Rightarrow> serve rs l' ((k, now, r = None) # h))"

lemma serve_run:
  "limiter_run m W clock l h \<Longrightarrow> sorted (clock # map snd rs) \<Longrightarrow> \<exists>clock'. limiter_run m W clock' (fst (serve rs l h)) (snd (serve rs l h))"
proof (induction rs arbitrary: clock l h)
  case (Cons x rs)
  obtain k now where x: "x = (k, now)" by (cases x)
  obtain r l' where a: "try_acquire now k l = (r, l')" by (cases "try_acquire now k l")
  have "limiter_run m W now l' ((k, now, r = None) # h)" using limiter_run.request [OF Cons.prems(1) _ a] Cons.prems(2) x by simp
  then show ?case using Cons.IH [of now l' "(k, now, r = None) # h"] Cons.prems(2) by (simp add: x a)
qed auto

abbreviation toy_requests :: "(string \<times> nat) list" where
  "toy_requests \<equiv> [(''c'', 0), (''c'', 59 * 1000000000), (''c'', 60 * 1000000000), (''c'', 60 * 1000000000), (''c'', 61 * 1000000000)]"

theorem rate_limit_bound_witness:
  "length (filter (\<lambda>a. 59 * 1000000000 \<le> a \<and> a < 59 * 1000000000 + nanos 60)
     (allowed_times ''c'' (snd (serve toy_requests (limiter_new 2 60) [])))) = 2 * 2 - 1"
proof -
  let ?h = "snd (serve toy_requests (limiter_new 2 60) [])"
  have h: "?h = [(''c'', 61 * 1000000000, False), (''c'', 60 * 1000000000, True), (''c'', 60 * 1000000000, True),
      (''c'', 59 * 1000000000, True), (''c'', 0, True)]"
    by (simp add: limiter_new_def try_acquire_def is_enabled_def retain_def secs_since_def Let_def)
  obtain clock where "limiter_run 2 60 clock (fst (serve toy_requests (limiter_new 2 60) [])) ?h"
    using serve_run [OF limiter_run.start, of toy_requests 2 60] by auto
  from rate_limit_bound [OF this, of "59 * 1000000000" "''c''"] show ?thesis
    unfolding h by (simp add: allowed_times_def)
qed

end
