(* ===== verification/AccessLogs.thy ===== *)
theory AccessLogs
  imports Buckets Objects
begin

text \<open>
  Delivery of server access logs (\<open>filesystem/access_logging.rs\<close>): a line is appended to a
  log object of the target bucket, by direct writes to its payload and metadata files.
\<close>

record AccessLogEntry =
  al_timestamp :: string
  al_source_bucket :: string
  al_remote_ip :: string
  al_requester :: string
  al_request_id :: string
  al_operation :: string
  al_key :: string
  al_request_uri :: string
  al_http_status :: nat
  al_error_code :: string
  al_bytes_sent :: nat
  al_object_size :: nat
  al_total_time_ms :: nat
  al_user_agent :: string

definition format_line :: "AccessLogEntry \<Rightarrow> string" where
  "format_line e =
     join '' '' [al_source_bucket e, al_timestamp e, al_remote_ip e, al_requester e, al_request_id e, al_operation e,
       al_key e, al_request_uri e, show_nat (al_http_status e), al_error_code e, show_nat (al_bytes_sent e),
       show_nat (al_object_size e), show_nat (al_total_time_ms e), al_user_agent e] @ [CHR 10]"

definition log_key_of :: "string \<Rightarrow> string \<Rightarrow> string \<Rightarrow> string" where
  "log_key_of pref source_bucket date =
     (if pref = [] then source_bucket @ ''/'' @ date @ ''.log''
      else (if ends_with pref ''/'' then pref else pref @ ''/'') @ source_bucket @ ''/'' @ date @ ''.log'')"

text \<open>\<open>match fs::read\<close>: a missing log starts empty.\<close>

definition read_existing :: "path \<Rightarrow> (StorageError, bytes) act" where
  "read_existing p =
     bind_act (attempt (fs_read p)) (\<lambda>r.
       case r of
         Inr data \<Rightarrow> ok data
       | Inl e \<Rightarrow> if io_kind e = NotFoundKind then ok [] else fail (Io e))"

definition deliver_access_log :: "env \<Rightarrow> FilesystemStorage \<Rightarrow> AccessLogEntry \<Rightarrow> (StorageError, unit) act" where
  "deliver_access_log E st entry =
     bind_act (read_bucket_meta E st (al_source_bucket entry)) (\<lambda>meta.
       case bm_logging_target_bucket meta of
         None \<Rightarrow> ok ()
       | Some target_bucket \<Rightarrow>
           if target_bucket = al_source_bucket entry then ok ()
           else
             bind_act (draw (e_micros E)) (\<lambda>t.
             let pref = (case bm_logging_target_prefix meta of Some p \<Rightarrow> p | None \<Rightarrow> []);
                 log_key = log_key_of pref (al_source_bucket entry) (e_date E t);
                 obj_path = object_path (st_buckets_dir st) target_bucket log_key;
                 mpath = meta_path (st_buckets_dir st) target_bucket log_key
             in bind_act (create_parent obj_path) (\<lambda>_.
                bind_act (read_existing obj_path) (\<lambda>old.
                let existing = old @ as_bytes (format_line entry)
                in bind_act (io (fs_write obj_path existing)) (\<lambda>_.
                   bind_act (now_string E) (\<lambda>now.
                   bind_act (create_parent mpath) (\<lambda>_.
                     write_json (e_object E) mpath
                       (plain_object_meta log_key (length existing) (etag_of E existing) ''text/plain'' now))))))))"

section \<open>The effect of a delivery\<close>

lemma read_existing_calm:
  assumes "w_faults w = []" "is_dir_at d (w_root w)" "plain (d @ [f])" "\<not> is_dir_at (d @ [f]) (w_root w)"
  shows "read_existing (d @ [f]) w =
    (Inr (case lookup (d @ [f]) (w_root w) of Some (File b) \<Rightarrow> b | _ \<Rightarrow> []), w)"
proof (cases "lookup (d @ [f]) (w_root w)")
  case None
  then show ?thesis using assms
    by (simp add: read_existing_def act_defs fs_read_def query_quiet read_at_absent)
next
  case (Some n)
  then obtain b where "n = File b" using assms(4) by (cases n) (auto simp: is_dir_at_def)
  then show ?thesis using assms Some
    by (simp add: read_existing_def act_defs fs_read_def query_quiet read_at_File)
qed

lemma create_dir_all_calm:
  assumes "w_faults w = []" "plain (d @ [f])" "no_file_on d (w_root w)"
  shows "\<exists>t. create_parent (d @ [f]) w = (Inr (), w\<lparr>w_root := t\<rparr>) \<and> is_dir_at d t
    \<and> (\<forall>q. \<not> prefix q d \<longrightarrow> lookup q t = lookup q (w_root w))"
proof -
  obtain t where t: "mkdirs d (w_root w) = Inr t" using mkdirs_ok [OF assms(3)] by blast
  then have "create_parent (d @ [f]) w = (Inr (), w\<lparr>w_root := t\<rparr>)"
    using assms(1,2) by (simp add: create_parent_def fs_create_dir_all_def act_defs change_quiet realpath_def)
  then show ?thesis using mkdirs_Inr [OF t] mkdirs_keeps [OF t] by blast
qed

lemma world_update_order: "w\<lparr>w_draws := n, w_root := t\<rparr> = w\<lparr>w_root := t, w_draws := n\<rparr>"
  by (cases w) simp

lemma deliver_effect:
  assumes "good_buckets E st w" "is_valid_bucket_name (al_source_bucket e)"
    and "bucket_table E st w (al_source_bucket e) = Some meta"
    and "bm_logging_target_bucket meta = Some tgt" "tgt \<noteq> al_source_bucket e"
    and "object_path (st_buckets_dir st) tgt (log_key_of (case bm_logging_target_prefix meta of Some p \<Rightarrow> p | None \<Rightarrow> [])
          (al_source_bucket e) (e_date E (e_micros E (w_draws w)))) = d @ [f]"
    and "meta_path (st_buckets_dir st) tgt (log_key_of (case bm_logging_target_prefix meta of Some p \<Rightarrow> p | None \<Rightarrow> [])
          (al_source_bucket e) (e_date E (e_micros E (w_draws w)))) = d @ [f']"
    and "f \<noteq> f'" "plain (d @ [f])" "plain (d @ [f'])" "no_file_on d (w_root w)"
    and "\<not> is_dir_at (d @ [f]) (w_root w)" "\<not> is_dir_at (d @ [f']) (w_root w)"
  shows "\<exists>w'. deliver_access_log E st e w = (Inr (), w')
    \<and> lookup (d @ [f]) (w_root w') =
        Some (File ((case lookup (d @ [f]) (w_root w) of Some (File b) \<Rightarrow> b | _ \<Rightarrow> []) @ as_bytes (format_line e)))"
proof -
  let ?W = "\<lambda>t n. w\<lparr>w_root := t, w_draws := n\<rparr>" and ?n = "Suc (w_draws w)"
  have calm: "w_faults w = []" using assms(1) by (simp add: good_buckets_def)
  obtain t where t: "create_parent (d @ [f]) (w\<lparr>w_draws := ?n\<rparr>) = (Inr (), ?W t ?n)" "is_dir_at d t"
      "\<And>q. \<not> prefix q d \<Longrightarrow> lookup q t = lookup q (w_root w)"
    using create_dir_all_calm [of "w\<lparr>w_draws := ?n\<rparr>" d f] assms(9,11) calm by (auto simp: world_update_order)
  have same: "lookup (d @ [x]) t = lookup (d @ [x]) (w_root w)" for x by (rule t(3)) simp
  define old where "old = (case lookup (d @ [f]) (w_root w) of Some (File b) \<Rightarrow> b | _ \<Rightarrow> [])"
  define new where "new = old @ as_bytes (format_line e)"
  define t2 where "t2 = set_node (d @ [f]) (Some (File new)) t"
  have nd: "\<not> is_dir_at (d @ [f]) t" "\<not> is_dir_at (d @ [f']) t" using assms(12,13) same by (auto simp: is_dir_at_def)
  have r: "read_existing (d @ [f]) (?W t ?n) = (Inr old, ?W t ?n)"
    using read_existing_calm [of "?W t ?n" d f] calm t(2) assms(9) nd(1) same by (simp add: old_def)
  have wr: "fs_write (d @ [f]) new (?W t ?n) = (Inr (), ?W t2 ?n)"
    using calm assms(9) t(2) nd(1) by (simp add: fs_write_def change_quiet write_at_ok t2_def)
  have d2: "is_dir_at d t2" using is_dir_at_set_above [OF t(2), of "[f]"] by (simp add: t2_def)
  have ap: "apart (d @ [f']) (d @ [f])" "apart (d @ [f]) (d @ [f'])" using assms(8) by (auto simp: apart_def)
  have nd2: "\<not> is_dir_at (d @ [f']) t2" using nd(2) ap by (simp add: is_dir_at_set_apart t2_def)
  have cp: "create_parent (d @ [f']) (?W t2 (Suc ?n)) = (Inr (), ?W t2 (Suc ?n))"
    using create_parent_calm [of "?W t2 (Suc ?n)" d f'] calm d2 assms(10) by simp
  have wj: "write_json (e_object E) (d @ [f']) x (?W t2 (Suc ?n)) =
      (Inr (), ?W (set_node (d @ [f']) (Some (File (fst (e_object E) x))) t2) (Suc ?n))" for x
    using write_json_ok [of "d @ [f']" "?W t2 (Suc ?n)"] calm d2 nd2 assms(10) by (simp add: world_update_order)
  have rb: "read_bucket_meta E st (al_source_bucket e) w = (Inr meta, w)" using bt.read_present assms(1-3) by blast
  have res: "lookup (d @ [f]) (set_node (d @ [f']) v t2) = Some (File new)" for v
    using lookup_set_same [of "d @ [f]" t "Some (File new)"] t(2) ap by (simp add: lookup_set_apart t2_def)
  have dr: "draw g v = (Inr (g (w_draws v)), v\<lparr>w_draws := Suc (w_draws v)\<rparr>)" for g :: "nat \<Rightarrow> int" and v
    by (simp add: draw_def)
  show ?thesis
    unfolding deliver_access_log_def old_def [symmetric] now_string_def using assms(4,5)
    by (simp add: rb assms(6,7) bind_act_def t(1) r io_def map_err_act_def wr ok_def dr cp wj res Let_def flip: new_def)
qed

section \<open>A prefix is not confined to the target bucket\<close>

lemma segs_absolute:
  assumes "\<forall>x \<in> set xs. CHR ''/'' \<notin> set x \<and> x \<noteq> [] \<and> x \<noteq> ''.''" "xs \<noteq> []"
  shows "segs (CHR ''/'' # join ''/'' xs) = xs"
proof -
  have "split_on CHR ''/'' (join ''/'' xs) = xs" by (rule split_on_join) (use assms in auto)
  then show ?thesis using assms(1) by (auto simp: segs_def intro: filter_True)
qed

definition plain_name :: "string \<Rightarrow> bool" where
  "plain_name s \<longleftrightarrow> CHR ''/'' \<notin> set s \<and> s \<noteq> [] \<and> s \<noteq> ''.'' \<and> s \<noteq> ''..''"

lemma plain_name_ext: "plain_name s \<Longrightarrow> CHR ''/'' \<notin> set x \<Longrightarrow> length x \<ge> 3 \<Longrightarrow> plain_name (s @ x)"
  by (auto simp: plain_name_def append_eq_Cons_conv)

lemma absolute_log_paths:
  assumes "plain_name d" "plain_name b" "plain_name date"
  defines "k \<equiv> log_key_of (''/'' @ d) b date"
  shows "object_path bd tgt k = [d, b, date @ ''.log'']" "meta_path bd tgt k = [d, b, date @ ''.log.meta.json'']"
proof -
  have nd: "\<not> ends_with (''/'' @ d) ''/''"
    using assms(1) by (auto simp: ends_with_def suffix_def plain_name_def Cons_eq_append_conv)
  have k: "k = CHR ''/'' # join ''/'' [d, b, date @ ''.log'']"
    using nd by (simp add: k_def log_key_of_def)
  have "\<not> ends_with k ''/''" by (auto simp: k ends_with_def suffix_def dest!: arg_cong [where f = rev])
  moreover have "k @ ''.meta.json'' = CHR ''/'' # join ''/'' [d, b, date @ ''.log.meta.json'']" by (simp add: k)
  ultimately show "object_path bd tgt k = [d, b, date @ ''.log'']" "meta_path bd tgt k = [d, b, date @ ''.log.meta.json'']"
    using assms(1-3) segs_absolute [of "[d, b, date @ ''.log'']"] segs_absolute [of "[d, b, date @ ''.log.meta.json'']"]
    by (simp_all add: object_path_def meta_path_def join_path_def starts_with_def k plain_name_def)
qed

text \<open>
  C29. The prefix of a logging configuration is stored as given and joined to the target bucket's
  path without validation. If it is absolute (here one component outside the storage directory), then after \<open>put_bucket_logging\<close> has accepted it
  the next delivery creates the log file under that absolute path, outside the storage
  directory: whoever may configure logging of a bucket makes the server write files, with
  partly chosen content, anywhere it has permission to.
\<close>

theorem log_prefix_escapes:
  assumes "good_buckets E st w" "is_valid_bucket_name src" "is_valid_bucket_name tgt" "src \<noteq> tgt"
    and "bucket_table E st w src = Some m" "bucket_table E st w tgt \<noteq> None"
    and "plain_name d" "\<not> prefix [d] (st_buckets_dir st)" "st_buckets_dir st \<noteq> []"
    and "no_file_on [d, src] (w_root w)" "plain_name date" "e_date E (e_micros E (w_draws w)) = date"
    and "lookup [d, src, date @ ''.log''] (w_root w) = None" "lookup [d, src, date @ ''.log.meta.json''] (w_root w) = None"
    and "al_source_bucket e = src"
  shows "\<exists>w1 w2. put_bucket_logging E st src tgt (''/'' @ d) w = (Inr (), w1)
    \<and> deliver_access_log E st e w1 = (Inr (), w2)
    \<and> lookup [d, src, date @ ''.log''] (w_root w2) = Some (File (as_bytes (format_line e)))
    \<and> \<not> prefix (st_buckets_dir st) [d, src, date @ ''.log'']"
proof -
  let ?f = "\<lambda>m. m\<lparr>bm_logging_target_bucket := Some tgt, bm_logging_target_prefix := Some (''/'' @ d)\<rparr>"
  let ?p = "st_buckets_dir st @ [src, ''.bucket.json'']"
  let ?w1 = "w\<lparr>w_root := set_node ?p (Some (File (fst (e_bucket E) (?f m)))) (w_root w)\<rparr>"
  obtain c cs where bd: "st_buckets_dir st = c # cs" "c \<noteq> d" using assms(8,9) by (cases "st_buckets_dir st") auto
  have ed: "edit_bucket_meta E st src ?f w = (Inr (), ?w1)" using edit_bucket_meta_exact [OF assms(1,2,5)] by blast
  then have put: "put_bucket_logging E st src tgt (''/'' @ d) w = (Inr (), ?w1)"
    using assms(2,3,4,6) head_bucket_table [OF assms(1,3)]
    by (simp add: put_bucket_logging_def validate_bucket_name_def bind_act_def)
  obtain w1 where w1: "edit_bucket_meta E st src ?f w = (Inr (), w1)" "good_buckets E st w1" "bucket_table E st w1 src = Some (?f m)"
    using bt.edit_present [OF assms(1,2,5), of ?f] by blast
  then have g: "good_buckets E st ?w1" "bucket_table E st ?w1 src = Some (?f m)" using ed by auto
  have frame: "lookup q (w_root ?w1) = lookup q (w_root w)" if pq: "prefix [d] q" for q
  proof -
    obtain r where "q = d # r" using pq by (cases q) auto
    then have "apart ?p q" using bd by (auto simp: apart_def)
    then show ?thesis by (simp add: lookup_set_apart)
  qed
  have nf: "no_file_on [d, src] (w_root ?w1)"
    unfolding no_file_on_def
  proof (intro allI impI)
    fix q b assume q: "prefix q [d, src]"
    show "lookup q (w_root ?w1) \<noteq> Some (File b)"
    proof (cases q)
      case Nil
      have "is_dir_at [] (w_root ?w1)"
        using g(1) is_dir_at_prefix [of "[]" "st_buckets_dir st"] by (simp add: good_buckets_def store_ok_def)
      then show ?thesis using Nil by (auto simp: is_dir_at_def)
    next
      case (Cons x xs)
      then have "prefix [d] q" using q by (auto simp: prefix_Cons)
      then show ?thesis using frame assms(10) q by (simp add: no_file_on_def)
    qed
  qed
  have src: "plain_name src"
    using assms(2) valid_bucket_plain [OF assms(2)] valid_bucket_name_chars [OF assms(2), of "CHR ''/''"]
    by (auto simp: plain_name_def is_ascii_lowercase_def is_ascii_digit_def)
  have nd: "\<not> is_dir_at [d, src, date @ x] (w_root ?w1)" if "lookup [d, src, date @ x] (w_root w) = None" for x
    using frame [of "[d, src, date @ x]"] that by (simp add: is_dir_at_def)
  note lp = absolute_log_paths [OF assms(7) src assms(11)]
  have "\<exists>w'. deliver_access_log E st e ?w1 = (Inr (), w')
    \<and> lookup ([d, src] @ [date @ ''.log'']) (w_root w') =
        Some (File ((case lookup ([d, src] @ [date @ ''.log'']) (w_root ?w1) of Some (File b) \<Rightarrow> b | _ \<Rightarrow> []) @ as_bytes (format_line e)))"
  proof (rule deliver_effect [OF g(1), where meta = "?f m" and tgt = tgt and f' = "date @ ''.log.meta.json''"])
    show "is_valid_bucket_name (al_source_bucket e)" "tgt \<noteq> al_source_bucket e" using assms(2,4,15) by auto
    show "bucket_table E st ?w1 (al_source_bucket e) = Some (?f m)" unfolding assms(15) by (rule g(2))
    show "plain ([d, src] @ [date @ ''.log''])" "plain ([d, src] @ [date @ ''.log.meta.json''])"
      using assms(7,11) src by (auto simp: plain_name_def)
    show "no_file_on [d, src] (w_root ?w1)" by (rule nf)
    show "\<not> is_dir_at ([d, src] @ [date @ ''.log'']) (w_root ?w1)" "\<not> is_dir_at ([d, src] @ [date @ ''.log.meta.json'']) (w_root ?w1)"
      using nd assms(13,14) by simp_all
  qed (use lp assms(12,15) in simp_all)
  then obtain w2 where "deliver_access_log E st e ?w1 = (Inr (), w2)"
      "lookup [d, src, date @ ''.log''] (w_root w2) = Some (File (as_bytes (format_line e)))"
    using frame [of "[d, src, date @ ''.log'']"] assms(13) by auto
  then show ?thesis using put bd by (auto simp: prefix_Cons)
qed

definition toy_two_buckets :: world where
  "toy_two_buckets =
     \<lparr>w_root = Dir [(''buckets'', Dir [(''photos'', Dir [(''.bucket.json'', File (fst toy_json toy_bucket))]),
                                      (''logs'', Dir [(''.bucket.json'', File (fst toy_json toy_bucket))])])],
      w_faults = [], w_draws = 0\<rparr>"

lemma toy_two_buckets_good: "good_buckets toy_env toy_storage toy_two_buckets"
proof -
  have "bucket_entry_ok toy_env toy_storage (w_root toy_two_buckets) b" for b
    by (auto simp: bucket_entry_ok_def toy_two_buckets_def lookup_Cons is_dir_at_def)
  then show ?thesis
    by (simp add: good_buckets_def toy_json_law store_ok_def toy_two_buckets_def lookup_Cons is_dir_at_def)
qed

lemma toy_logs_valid: "is_valid_bucket_name ''logs''"
  by code_simp

lemma toy_two_buckets_table:
  "bucket_table toy_env toy_storage toy_two_buckets ''photos'' = Some toy_bucket"
  "bucket_table toy_env toy_storage toy_two_buckets ''logs'' = Some toy_bucket"
  using bucket_table_Some [OF toy_two_buckets_good toy_valid] bucket_table_Some [OF toy_two_buckets_good toy_logs_valid]
  by (simp_all add: bucket_at_def bucket_meta_path_eq [OF toy_valid] bucket_meta_path_eq [OF toy_logs_valid]
      toy_two_buckets_def lookup_Cons)

definition toy_entry :: AccessLogEntry where
  "toy_entry = \<lparr>al_timestamp = ''t'', al_source_bucket = ''photos'', al_remote_ip = ''10.0.0.1'', al_requester = ''AK'',
     al_request_id = ''-'', al_operation = ''REST.GET.OBJECT'', al_key = ''k'', al_request_uri = ''/photos/k'',
     al_http_status = 200, al_error_code = ''-'', al_bytes_sent = 3, al_object_size = 0, al_total_time_ms = 1,
     al_user_agent = ''curl''\<rparr>"

theorem log_prefix_escapes_witness:
  "\<exists>w1 w2. put_bucket_logging toy_env toy_storage ''photos'' ''logs'' ''/etc'' toy_two_buckets = (Inr (), w1)
    \<and> deliver_access_log toy_env toy_storage toy_entry w1 = (Inr (), w2)
    \<and> lookup [''etc'', ''photos'', ''0.log''] (w_root w2) = Some (File (as_bytes (format_line toy_entry)))"
proof -
  have nf: "no_file_on [''etc'', ''photos''] (w_root toy_two_buckets)"
    by (auto simp: no_file_on_def prefix_Cons toy_two_buckets_def lookup_Cons)
  have zero: "show_nat 0 = ''0''" by code_simp
  have date: "e_date toy_env (e_micros toy_env (w_draws toy_two_buckets)) = ''0''"
    by (simp add: toy_env_def toy_two_buckets_def zero)
  have "lookup [''etc'', ''photos'', x] (w_root toy_two_buckets) = None" for x by (simp add: toy_two_buckets_def lookup_Cons)
  then show ?thesis
    using log_prefix_escapes [OF toy_two_buckets_good toy_valid toy_logs_valid _ toy_two_buckets_table(1) _ _ _ _ nf _ date, of toy_entry]
      toy_two_buckets_table(2)
    by (simp add: plain_name_def toy_entry_def)
qed

end
