(* ===== verification/Middleware.thy ===== *)
theory Middleware
  imports Tenancy RateLimit AccessLogs
begin

text \<open>
  The middleware in front of the S3 handlers (\<open>auth/middleware.rs\<close>) with the log records it
  produces (\<open>access_log.rs\<close>, \<open>audit.rs\<close>).

  The state is that of the two limiters, the counter of slowed-down requests and the world. The
  handler is a parameter \<open>nxt\<close>; its response is returned together with the access log entry whose
  delivery the middleware spawns and the audit record it writes.
\<close>

section \<open>Actions of the server\<close>

record server_state =
  sv_limits :: S3RateLimiter
  sv_slow_downs :: nat

type_synonym ('e, 'a) srv = "server_state \<times> world \<Rightarrow> ('e + 'a) \<times> (server_state \<times> world)"

definition srv_ok :: "'a \<Rightarrow> ('e, 'a) srv" where
  "srv_ok x s = (Inr x, s)"

definition srv_fail :: "'e \<Rightarrow> ('e, 'a) srv" where
  "srv_fail e s = (Inl e, s)"

definition bind_srv :: "('e, 'a) srv \<Rightarrow> ('a \<Rightarrow> ('e, 'b) srv) \<Rightarrow> ('e, 'b) srv" where
  "bind_srv m k s = (case m s of (Inl e, s') \<Rightarrow> (Inl e, s') | (Inr x, s') \<Rightarrow> k x s')"

definition srv_act :: "('e, 'a) act \<Rightarrow> ('e, 'a) srv" where
  "srv_act m s = (case m (snd s) of (r, w) \<Rightarrow> (r, fst s, w))"

text \<open>\<open>try_acquire\<close> on one of the limiters, at the next instant.\<close>

definition acquire_auth :: "app \<Rightarrow> string \<Rightarrow> ('e, nat option) srv" where
  "acquire_auth A ip s =
     (case s of (sv, w) \<Rightarrow>
        case try_acquire (ap_instant A (w_draws w)) ip (s3_auth_failures (sv_limits sv)) of
          (r, l) \<Rightarrow> (Inr r, sv\<lparr>sv_limits := (sv_limits sv)\<lparr>s3_auth_failures := l\<rparr>\<rparr>, w\<lparr>w_draws := Suc (w_draws w)\<rparr>))"

definition acquire_put :: "app \<Rightarrow> string \<Rightarrow> ('e, nat option) srv" where
  "acquire_put A ip s =
     (case s of (sv, w) \<Rightarrow>
        case try_acquire (ap_instant A (w_draws w)) ip (s3_put_requests (sv_limits sv)) of
          (r, l) \<Rightarrow> (Inr r, sv\<lparr>sv_limits := (sv_limits sv)\<lparr>s3_put_requests := l\<rparr>\<rparr>, w\<lparr>w_draws := Suc (w_draws w)\<rparr>))"

definition record_slow_down :: "('e, unit) srv" where
  "record_slow_down s = (Inr (), (fst s)\<lparr>sv_slow_downs := Suc (sv_slow_downs (fst s))\<rparr>, snd s)"

section \<open>Access log and audit records\<close>

record Response =
  rs_status :: nat
  rs_headers :: header_map
  rs_body :: bytes

record AccessLogCapture =
  ac_started :: nat
  ac_uri :: string
  ac_client_ip :: string
  ac_user_agent :: string
  ac_request_id :: string
  ac_principal :: string
  ac_bucket :: "string option"
  ac_key :: "string option"
  ac_operation :: string

definition or_dash :: "string option \<Rightarrow> string" where
  "or_dash x = (case x of Some v \<Rightarrow> v | None \<Rightarrow> ''-'')"

definition parse_s3_target :: "string \<Rightarrow> string \<Rightarrow> string option \<times> string option \<times> string" where
  "parse_s3_target http_method uri_path =
     (let path = trim_start_matches CHR ''/'' uri_path
      in if path = [] then (None, None, ''ListBuckets'')
         else
           let segments = split_on CHR ''/'' path;
               key = (if length segments > 1 then Some (join ''/'' (tl segments)) else None);
               operation = (if http_method \<in> {''PUT'', ''GET'', ''HEAD'', ''DELETE'', ''POST''}
                            then ''REST.'' @ http_method @ (if key \<noteq> None then ''.OBJECT'' else ''.BUCKET'')
                            else ''REST.'' @ http_method)
           in (Some (hd segments), key, operation))"

text \<open>The printed form of a request's URI: path and query.\<close>

definition uri_string :: "Request \<Rightarrow> string" where
  "uri_string r = rq_path r @ (case rq_query r of Some q \<Rightarrow> ''?'' @ q | None \<Rightarrow> [])"

text \<open>
  \<open>client_ip_from_request\<close> with the networks parsed from the configuration; these never make it
  panic, so \<open>peer_address\<close> is total.
\<close>

definition peer_address :: "app \<Rightarrow> Request \<Rightarrow> string" where
  "peer_address A request =
     (case client_ip_from_request request (trusted_parse (cf_trusted_proxies (ap_config A))) of
        Some ip \<Rightarrow> ip | None \<Rightarrow> [])"

definition begin_access_log :: "app \<Rightarrow> nat \<Rightarrow> Request \<Rightarrow> AccessLogCapture" where
  "begin_access_log A started request =
     (case parse_s3_target (rq_method request) (rq_path request) of (bucket, key, operation) \<Rightarrow>
        \<lparr>ac_started = started, ac_uri = uri_string request, ac_client_ip = peer_address A request,
         ac_user_agent = or_dash (header_str (rq_headers request) ''user-agent''),
         ac_request_id = or_dash (header_str (rq_headers request) ''x-request-id''),
         ac_principal = or_dash (rq_principal request), ac_bucket = bucket, ac_key = key, ac_operation = operation\<rparr>)"

definition finish_access_log :: "AccessLogCapture \<Rightarrow> string \<Rightarrow> nat \<Rightarrow> Response \<Rightarrow> AccessLogEntry option" where
  "finish_access_log capture timestamp finished response =
     (case ac_bucket capture of
        None \<Rightarrow> None
      | Some bucket \<Rightarrow> Some
          \<lparr>al_timestamp = timestamp, al_source_bucket = bucket, al_remote_ip = ac_client_ip capture,
           al_requester = ac_principal capture, al_request_id = ac_request_id capture, al_operation = ac_operation capture,
           al_key = (case ac_key capture of Some k \<Rightarrow> k | None \<Rightarrow> []), al_request_uri = ac_uri capture,
           al_http_status = rs_status response, al_error_code = (if rs_status response \<ge> 400 then ''Error'' else ''-''),
           al_bytes_sent = (case Option.bind (header_str (rs_headers response) ''content-length'') parse_u64 of
                              Some n \<Rightarrow> n | None \<Rightarrow> 0),
           al_object_size = 0, al_total_time_ms = (finished - ac_started capture) div 1000000,
           al_user_agent = ac_user_agent capture\<rparr>)"

record AuditRecord =
  ar_timestamp :: string
  ar_source :: string
  ar_action :: string
  ar_method :: string
  ar_path :: string
  ar_bucket :: "string option"
  ar_key :: "string option"
  ar_principal :: string
  ar_client_ip :: string
  ar_status :: nat
  ar_outcome :: string

definition is_mutating :: "string \<Rightarrow> bool" where
  "is_mutating http_method \<longleftrightarrow> http_method \<in> {''PUT'', ''POST'', ''DELETE'', ''PATCH''}"

definition infer_principal :: "string \<Rightarrow> string" where
  "infer_principal path =
     (if starts_with path ''/api/admin/'' then ''admin''
      else if starts_with path ''/api/'' then ''console''
      else ''anonymous'')"

definition parse_audit_target :: "string \<Rightarrow> string \<Rightarrow> string \<Rightarrow> string \<times> string option \<times> string option \<times> string" where
  "parse_audit_target http_method path qry =
     (if starts_with path ''/api/admin/v1/''
      then (''admin'', None, None,
            ''admin:'' @ (case strip_prefix path ''/api/admin/v1/'' of Some r \<Rightarrow> r | None \<Rightarrow> path))
      else if starts_with path ''/api/'' then (''console'', None, None, ''console:'' @ http_method @ '' '' @ path)
      else
        let segments = split_on CHR ''/'' (trim_start_matches CHR ''/'' path);
            key = (if tl segments = [] then None else Some (join ''/'' (tl segments)))
        in (''s3'', Some (hd segments), (if key = Some [] then None else key),
            ''s3:'' @ http_method @ '' '' @ path @ (if qry = [] then [] else ''?'' @ qry)))"

definition finish_s3_request_audit ::
  "app \<Rightarrow> Request \<Rightarrow> string option \<Rightarrow> string \<Rightarrow> string \<Rightarrow> Response \<Rightarrow> AuditRecord option" where
  "finish_s3_request_audit A request who ip timestamp response =
     (if \<not> cf_audit_log (ap_config A) \<or> \<not> is_mutating (rq_method request) then None
      else case parse_audit_target (rq_method request) (rq_path request) (query_str request) of
        (source, bucket, key, action) \<Rightarrow> Some
          \<lparr>ar_timestamp = timestamp, ar_source = source, ar_action = action, ar_method = rq_method request,
           ar_path = rq_path request, ar_bucket = bucket, ar_key = key,
           ar_principal = (case who of Some p \<Rightarrow> p | None \<Rightarrow> infer_principal (rq_path request)), ar_client_ip = ip,
           ar_status = rs_status response, ar_outcome = (if rs_status response < 400 then ''success'' else ''failure'')\<rparr>)"

record served =
  sd_response :: Response
  sd_access_log :: "AccessLogEntry option"
  sd_audit :: "AuditRecord option"

section \<open>Authentication\<close>

definition auth_failure :: "app \<Rightarrow> string \<Rightarrow> S3Error \<Rightarrow> (rejection, 'a) srv" where
  "auth_failure A ip err s =
     (if is_enabled (s3_auth_failures (sv_limits (fst s)))
      then bind_srv (acquire_auth A ip) (\<lambda>r. srv_fail (Rejected (case r of Some retry_after \<Rightarrow> slow_down retry_after | None \<Rightarrow> err))) s
      else srv_fail (Rejected err) s)"

definition lookup_secret_key :: "app \<Rightarrow> string \<Rightarrow> S3Error + string" where
  "lookup_secret_key A access_key =
     (case credential_lookup (ap_credentials A) access_key of
        Some c \<Rightarrow> Inr (ce_secret_key c) | None \<Rightarrow> Inl invalid_access_key)"

definition PUBLIC_BYPASS_FORBIDDEN_QUERY_KEYS :: "string list" where
  "PUBLIC_BYPASS_FORBIDDEN_QUERY_KEYS =
     [''delete'', ''uploads'', ''tagging'', ''versioning'', ''cors'', ''encryption'', ''policy'', ''acl'', ''lifecycle'',
      ''logging'', ''notification'', ''object-lock'', ''erasure'', ''versions'', ''retention'', ''legal-hold'',
      ''uploadId'', ''partNumber'']"

fun any_pair_named :: "string list \<Rightarrow> string \<Rightarrow> bool" where
  "any_pair_named [] key = False"
| "any_pair_named (pair # pairs) key = (if eq_ignore_ascii_case (pair_name pair) key then True else any_pair_named pairs key)"

definition has_query_key :: "string \<Rightarrow> string \<Rightarrow> bool" where
  "has_query_key qry key = any_pair_named (split_on CHR ''&'' qry) key"

definition query_has_forbidden_public_subresource :: "string \<Rightarrow> bool" where
  "query_has_forbidden_public_subresource qry = list_ex (has_query_key qry) PUBLIC_BYPASS_FORBIDDEN_QUERY_KEYS"

definition split_bucket_path :: "string \<Rightarrow> string \<times> string" where
  "split_bucket_path trimmed =
     (case split_once CHR ''/'' trimmed of Some (b, r) \<Rightarrow> (b, r) | None \<Rightarrow> (trimmed, []))"

definition public_target :: "app \<Rightarrow> string \<Rightarrow> string option \<Rightarrow> string option \<Rightarrow> (string \<times> string) option" where
  "public_target A path host signature_path =
     (case host of
        Some host \<Rightarrow>
          (case extract_virtual_bucket host (ap_server_host A) of
             Some bucket \<Rightarrow>
               let object_path = (case signature_path of Some p \<Rightarrow> p | None \<Rightarrow> path)
               in Some (bucket, case object_key_from_signature_path object_path of
                                  Some k \<Rightarrow> k | None \<Rightarrow> trim_start_matches CHR ''/'' object_path)
           | None \<Rightarrow>
               if path = ''/'' \<or> path = [] then None
               else Some (split_bucket_path (trim_start_matches CHR ''/'' path)))
      | None \<Rightarrow>
          let trimmed = trim_start_matches CHR ''/'' path
          in if trimmed = [] then None else Some (split_bucket_path trimmed))"

definition is_public_bypass_allowed ::
  "app \<Rightarrow> string \<Rightarrow> string \<Rightarrow> string \<Rightarrow> string option \<Rightarrow> string option \<Rightarrow> ('e, bool) act" where
  "is_public_bypass_allowed A http_method path qry host signature_path =
     (if http_method \<notin> {''GET'', ''HEAD'', ''OPTIONS''} then ok False
      else if query_has_forbidden_public_subresource qry then ok False
      else case public_target A path host signature_path of
        None \<Rightarrow> ok False
      | Some (bucket, rest) \<Rightarrow>
          if bucket = [] then ok False
          else bind_act (attempt (get_bucket_public (ap_env A) (ap_storage A) bucket)) (\<lambda>r.
                 ok (case r of
                       Inr (public_read, public_list) \<Rightarrow> if rest = [] then public_list else public_read
                     | Inl _ \<Rightarrow> False)))"

definition finalize_s3_request ::
  "app \<Rightarrow> (Request \<Rightarrow> world \<Rightarrow> Response \<times> world) \<Rightarrow> Request \<Rightarrow> string option \<Rightarrow> string \<Rightarrow> (rejection, served) srv" where
  "finalize_s3_request A nxt request who ip =
     bind_srv (srv_act (draw (ap_instant A))) (\<lambda>started.
     let capture = begin_access_log A started request
     in bind_srv (srv_act (enforce_tenant_scope A request)) (\<lambda>_.
        bind_srv (srv_act (enforce_bucket_policy_for_target A (resolve_policy_target A request) who ip)) (\<lambda>_.
        bind_srv (srv_act (\<lambda>w. case nxt request w of (resp, w') \<Rightarrow> (Inr resp, w'))) (\<lambda>response.
        bind_srv (srv_act (draw (e_micros (ap_env A)))) (\<lambda>t.
        bind_srv (srv_act (draw (ap_instant A))) (\<lambda>finished.
          srv_ok \<lparr>sd_response = response,
                  sd_access_log = finish_access_log capture (ap_rfc3339 A t) finished response,
                  sd_audit = finish_s3_request_audit A request who ip (ap_rfc3339 A t) response\<rparr>))))))"

text \<open>Times are microseconds; a difference is truncated to seconds.\<close>

definition skew_secs :: "int \<Rightarrow> int \<Rightarrow> int" where
  "skew_secs now_micros request_secs = \<bar>now_micros - request_secs * 1000000\<bar> div 1000000"

definition admit :: "app \<Rightarrow> (Request \<Rightarrow> world \<Rightarrow> Response \<times> world) \<Rightarrow> Request \<Rightarrow> string \<Rightarrow> string \<Rightarrow> (rejection, served) srv" where
  "admit A nxt request access_key ip =
     finalize_s3_request A nxt (request\<lparr>rq_principal := Some access_key\<rparr>) (Some access_key) ip"

definition handle_presigned ::
  "app \<Rightarrow> (Request \<Rightarrow> world \<Rightarrow> Response \<times> world) \<Rightarrow> string \<Rightarrow> Request \<Rightarrow> (rejection, served) srv" where
  "handle_presigned A nxt ip request =
     (case parse_presigned_query (ap_sig A) (query_str request) of
        Inl e \<Rightarrow> auth_failure A ip (access_denied e)
      | Inr (parsed, timestamp, expires_secs) \<Rightarrow>
          (case lookup_secret_key A (pa_access_key parsed) of
             Inl e \<Rightarrow> auth_failure A ip e
           | Inr secret_key \<Rightarrow>
               if \<not> SigV4.constant_time_eq (as_bytes (pa_region parsed)) (as_bytes (cf_region (ap_config A)))
               then auth_failure A ip (access_denied ''Invalid region in credential scope'')
               else (case ap_amz_time A timestamp of
                       None \<Rightarrow> auth_failure A ip (access_denied ''Invalid X-Amz-Date format'')
                     | Some issued_at \<Rightarrow>
                         bind_srv (srv_act (draw (e_micros (ap_env A)))) (\<lambda>now.
                         if now > (issued_at + int expires_secs) * 1000000 then auth_failure A ip expired_presigned_url
                         else if issued_at * 1000000 > now + 15 * 60 * 1000000
                         then auth_failure A ip (access_denied ''X-Amz-Date is too far in the future'')
                         else if \<not> verify_presigned_signature (ap_sig A) (rq_method request) (signature_path_from_request request)
                                     (query_str request) (rq_headers request) parsed timestamp secret_key
                         then auth_failure A ip signature_mismatch
                         else admit A nxt request (pa_access_key parsed) ip))))"

definition authenticate_header ::
  "app \<Rightarrow> (Request \<Rightarrow> world \<Rightarrow> Response \<times> world) \<Rightarrow> string \<Rightarrow> Request \<Rightarrow> (rejection, served) srv" where
  "authenticate_header A nxt ip request =
     (case header_get (rq_headers request) ''authorization'' of
        None \<Rightarrow> auth_failure A ip (access_denied ''Missing Authorization header'')
      | Some h \<Rightarrow>
          (case to_str h of
             None \<Rightarrow> auth_failure A ip (access_denied ''Invalid Authorization header'')
           | Some auth_header \<Rightarrow>
               (case parse_authorization_header auth_header of
                  Inl e \<Rightarrow> auth_failure A ip (access_denied e)
                | Inr parsed \<Rightarrow>
                    (case lookup_secret_key A (pa_access_key parsed) of
                       Inl e \<Rightarrow> auth_failure A ip e
                     | Inr secret_key \<Rightarrow>
                         if \<not> SigV4.constant_time_eq (as_bytes (pa_region parsed)) (as_bytes (cf_region (ap_config A)))
                         then auth_failure A ip (access_denied ''Invalid region in credential scope'')
                         else (case ap_amz_time A (amz_date (rq_headers request)) of
                                 None \<Rightarrow> auth_failure A ip (access_denied ''Invalid or missing X-Amz-Date header'')
                               | Some request_time \<Rightarrow>
                                   bind_srv (srv_act (draw (e_micros (ap_env A)))) (\<lambda>now.
                                   if skew_secs now request_time > 15 * 60
                                   then auth_failure A ip (access_denied ''RequestTimeTooSkewed: The difference between the request time and the current time is too large.'')
                                   else if \<not> verify_signature (ap_sig A) (rq_method request) (signature_path_from_request request)
                                               (query_str request) (rq_headers request) parsed secret_key
                                   then auth_failure A ip signature_mismatch
                                   else admit A nxt request (pa_access_key parsed) ip))))))"

definition slow_down_put :: "app \<Rightarrow> string \<Rightarrow> string \<Rightarrow> (rejection, unit) srv" where
  "slow_down_put A http_method ip s =
     (if http_method = ''PUT'' \<and> is_enabled (s3_put_requests (sv_limits (fst s)))
      then bind_srv (acquire_put A ip) (\<lambda>r.
             case r of
               Some retry_after \<Rightarrow> bind_srv record_slow_down (\<lambda>_. srv_fail (Rejected (slow_down retry_after)))
             | None \<Rightarrow> srv_ok ()) s
      else srv_ok () s)"

definition auth_middleware ::
  "app \<Rightarrow> (Request \<Rightarrow> world \<Rightarrow> Response \<times> world) \<Rightarrow> Request \<Rightarrow> (rejection, served) srv" where
  "auth_middleware A nxt request0 =
     (let ip = peer_address A request0; request = apply_virtual_host A request0
      in bind_srv (slow_down_put A (rq_method request0) ip) (\<lambda>_.
         if query_has_presigned_signature (query_str request) then handle_presigned A nxt ip request
         else
           bind_srv
             (if header_get (rq_headers request) ''authorization'' = None
              then srv_act (is_public_bypass_allowed A (rq_method request) (rq_path request) (query_str request)
                              (host_header_value (rq_headers request)) (map_option vh_signature_path (rq_vhost request)))
              else srv_ok False)
             (\<lambda>bypass. if bypass then finalize_s3_request A nxt request None ip
                       else authenticate_header A nxt ip request)))"

section \<open>Reading does not change files\<close>

named_theorems keeps \<open>actions that leave the tree as it is\<close>

definition reads_only :: "('e, 'a) act \<Rightarrow> bool" where
  "reads_only m \<longleftrightarrow> (\<forall>w r w'. m w = (r, w') \<longrightarrow> w_root w' = w_root w \<and> (w_faults w = [] \<longrightarrow> w_faults w' = []))"

lemma reads_only_basic [keeps, simp]:
  "reads_only (ok x)" "reads_only (fail e)" "reads_only (draw g)" "reads_only (query f)"
  by (auto simp: reads_only_def ok_def fail_def draw_def query_def Let_def split: option.splits)

lemma reads_only_lift [keeps, simp]: "reads_only (lift_res x)"
  by (cases x) (auto simp: lift_res_def reads_only_def ok_def fail_def)

lemma reads_only_bind [keeps]: "reads_only m \<Longrightarrow> (\<And>x. reads_only (k x)) \<Longrightarrow> reads_only (bind_act m k)"
  unfolding reads_only_def bind_act_def by (fastforce split: prod.splits sum.splits)

lemma reads_only_attempt [keeps]: "reads_only m \<Longrightarrow> reads_only (attempt m)"
  unfolding reads_only_def attempt_def by (auto split: prod.splits)

lemma reads_only_map_err [keeps]: "reads_only m \<Longrightarrow> reads_only (map_err_act f m)"
  unfolding reads_only_def map_err_act_def by (auto split: prod.splits sum.splits)

lemma reads_only_or_not_found [keeps]: "reads_only m \<Longrightarrow> reads_only (or_not_found e m)"
  unfolding reads_only_def or_not_found_def map_err_act_def by (auto split: prod.splits sum.splits)

lemma reads_only_meta [keeps, simp]: "reads_only (read_bucket_meta E st b)"
  unfolding read_bucket_meta_def read_json_def fs_read_to_string_def by (intro keeps)

lemma reads_only_head [keeps, simp]: "reads_only (head_bucket st b)"
  unfolding head_bucket_def io_def fs_try_exists_def by (intro keeps)

lemma reads_only_tenant [keeps]: "reads_only (ensure_bucket_access_optional A k b)"
  unfolding ensure_bucket_access_optional_def ensure_bucket_access_def find_bucket_meta_def
  by (cases k) (auto intro!: keeps split: sum.splits bool.splits StorageError.splits option.splits)

lemma reads_only_scope [keeps]: "reads_only (enforce_tenant_scope A r)"
  unfolding enforce_tenant_scope_def by (auto intro!: keeps split: option.splits)

lemma reads_only_policy [keeps]: "reads_only (enforce_bucket_policy_for_target A t k ip)"
  unfolding enforce_bucket_policy_for_target_def enforce_policy_target_def get_bucket_policy_def Let_def
  by (cases t) (auto intro!: keeps split: sum.splits option.splits StorageError.splits PolicyDecision.splits)

lemma reads_only_bypass [keeps]: "reads_only (is_public_bypass_allowed A m p q h sp)"
  unfolding is_public_bypass_allowed_def get_bucket_public_def
  by (auto intro!: keeps split: option.splits)

section \<open>What reaches the handler\<close>

text \<open>
  The outcome \<open>r\<close> of a run from \<open>w\<close> to \<open>w'\<close>: it failed and changed no file, or the handler ran on
  a request with property \<open>P\<close>, from a world with the same files.
\<close>

definition reaches ::
  "(Request \<Rightarrow> world \<Rightarrow> Response \<times> world) \<Rightarrow> (Request \<Rightarrow> bool) \<Rightarrow> world \<Rightarrow> rejection + served \<Rightarrow> world \<Rightarrow> bool" where
  "reaches nxt P w r w' \<longleftrightarrow>
     (case r of
        Inl _ \<Rightarrow> w_root w' = w_root w
      | Inr out \<Rightarrow> \<exists>req w1 w2. P req \<and> nxt req w1 = (sd_response out, w2) \<and> w_root w1 = w_root w \<and> w_root w' = w_root w2)"

text \<open>A world with the same files, and without faults if there are none.\<close>

definition similar :: "world \<Rightarrow> world \<Rightarrow> bool" where
  "similar w w' \<longleftrightarrow> w_root w' = w_root w \<and> (w_faults w = [] \<longrightarrow> w_faults w' = [])"

lemma similar_refl [simp]: "similar w w"
  by (simp add: similar_def)

lemma similar_trans: "similar u v \<Longrightarrow> similar v w \<Longrightarrow> similar u w"
  by (auto simp: similar_def)

lemma reads_onlyD: "reads_only m \<Longrightarrow> m w = (r, w') \<Longrightarrow> similar w w'"
  by (auto simp: reads_only_def similar_def)

lemma reaches_mono: "reaches nxt P w r w' \<Longrightarrow> similar v w \<Longrightarrow> (\<And>q. P q \<Longrightarrow> Q q) \<Longrightarrow> reaches nxt Q v r w'"
  by (cases r) (auto simp: reaches_def similar_def)

definition passes_gates :: "app \<Rightarrow> world \<Rightarrow> string \<Rightarrow> Request \<Rightarrow> bool" where
  "passes_gates A w ip req \<longleftrightarrow>
     (\<exists>wa wb. similar w wa \<and> enforce_tenant_scope A req wa = (Inr (), wb))
     \<and> (\<exists>wa wb. similar w wa \<and> enforce_bucket_policy_for_target A (resolve_policy_target A req) (rq_principal req) ip wa = (Inr (), wb))"

definition signed_request :: "app \<Rightarrow> Request \<Rightarrow> string \<Rightarrow> bool" where
  "signed_request A r k \<longleftrightarrow>
     (\<exists>parsed cred n. let G = ap_sig A; now = e_micros (ap_env A) n; path = signature_path_from_request r in
        credential_lookup (ap_credentials A) k = Some cred \<and> pa_access_key parsed = k \<and> pa_region parsed = cf_region (ap_config A)
        \<and> ((\<exists>hdr t. header_str (rq_headers r) ''authorization'' = Some hdr \<and> parse_authorization_header hdr = Inr parsed
              \<and> ap_amz_time A (amz_date (rq_headers r)) = Some t \<and> skew_secs now t \<le> 15 * 60
              \<and> verify_signature G (rq_method r) path (query_str r) (rq_headers r) parsed (ce_secret_key cred))
           \<or> (\<exists>timestamp expires t. parse_presigned_query G (query_str r) = Inr (parsed, timestamp, expires)
              \<and> ap_amz_time A timestamp = Some t \<and> now \<le> (t + int expires) * 1000000 \<and> t * 1000000 \<le> now + 15 * 60 * 1000000
              \<and> verify_presigned_signature G (rq_method r) path (query_str r) (rq_headers r) parsed timestamp (ce_secret_key cred))))"

definition anonymous_request :: "app \<Rightarrow> world \<Rightarrow> Request \<Rightarrow> bool" where
  "anonymous_request A w r \<longleftrightarrow>
     header_get (rq_headers r) ''authorization'' = None \<and> rq_method r \<in> {''GET'', ''HEAD'', ''OPTIONS''}
     \<and> \<not> query_has_forbidden_public_subresource (query_str r)
     \<and> (\<exists>b rest wa wb pub_read pub_list.
          public_target A (rq_path r) (host_header_value (rq_headers r)) (map_option vh_signature_path (rq_vhost r)) = Some (b, rest)
          \<and> similar w wa \<and> get_bucket_public (ap_env A) (ap_storage A) b wa = (Inr (pub_read, pub_list), wb)
          \<and> (if rest = [] then pub_list else pub_read))"

lemma srv_act_step: "srv_act m (sv, w) = (r, s') \<Longrightarrow> \<exists>w'. m w = (r, w') \<and> s' = (sv, w')"
  by (auto simp: srv_act_def split: prod.splits)

lemma auth_failure_reaches:
  "auth_failure A ip e (sv, w) = (r, sv', w') \<Longrightarrow> reaches nxt P w r w'"
  by (auto simp: auth_failure_def bind_srv_def acquire_auth_def srv_fail_def reaches_def split: if_splits prod.splits)

lemma finalize_reaches:
  assumes "finalize_s3_request A nxt req (rq_principal req) ip (sv, w) = (r, sv', w')"
  shows "reaches nxt (\<lambda>q. q = req \<and> passes_gates A w ip q) w r w'"
proof -
  define w0 where "w0 = w\<lparr>w_draws := Suc (w_draws w)\<rparr>"
  have s0: "similar w w0" by (simp add: similar_def w0_def)
  obtain rt w1 where t: "enforce_tenant_scope A req w0 = (rt, w1)" by (cases "enforce_tenant_scope A req w0")
  then have s1: "similar w w1" using reads_onlyD [OF reads_only_scope] s0 similar_trans by blast
  let ?pol = "enforce_bucket_policy_for_target A (resolve_policy_target A req) (rq_principal req) ip"
  obtain rp w2 where p: "?pol w1 = (rp, w2)" by (cases "?pol w1")
  then have s2: "similar w w2" using reads_onlyD [OF reads_only_policy] s1 similar_trans by blast
  obtain resp w3 where n: "nxt req w2 = (resp, w3)" by (cases "nxt req w2")
  show ?thesis
  proof (cases rt)
    case (Inl e)
    with assms t s1 show ?thesis
      by (auto simp: finalize_s3_request_def bind_srv_def srv_act_def draw_def reaches_def similar_def Let_def simp flip: w0_def)
  next
    case rt: (Inr u)
    show ?thesis
    proof (cases rp)
      case (Inl e)
      with assms t p rt s2 show ?thesis
        by (auto simp: finalize_s3_request_def bind_srv_def srv_act_def draw_def reaches_def similar_def Let_def simp flip: w0_def)
    next
      case (Inr v)
      have "passes_gates A w ip req" using t p rt Inr s0 s1 by (auto simp: passes_gates_def)
      moreover have "\<exists>u v. nxt req u = (resp, v) \<and> w_root u = w_root w \<and> w_root w3 = w_root v"
        using s2 n by (auto simp: similar_def)
      ultimately show ?thesis using assms t p rt Inr n
        by (auto simp: finalize_s3_request_def bind_srv_def srv_act_def draw_def reaches_def srv_ok_def Let_def simp flip: w0_def)
          blast
    qed
  qed
qed

lemma admit_reaches:
  assumes "admit A nxt req k ip (sv, w) = (r, sv', w')"
  shows "reaches nxt (\<lambda>q. q = req\<lparr>rq_principal := Some k\<rparr> \<and> passes_gates A w ip q) w r w'"
  using assms finalize_reaches [of A nxt "req\<lparr>rq_principal := Some k\<rparr>"] by (simp add: admit_def)

lemma passes_gates_similar: "passes_gates A w' ip q \<Longrightarrow> similar w w' \<Longrightarrow> passes_gates A w ip q"
  unfolding passes_gates_def using similar_trans by blast

lemma lookup_secret_key_Inr:
  "lookup_secret_key A k = Inr sk \<longleftrightarrow> (\<exists>c. credential_lookup (ap_credentials A) k = Some c \<and> ce_secret_key c = sk)"
  by (auto simp: lookup_secret_key_def split: option.splits)

definition admitted :: "app \<Rightarrow> world \<Rightarrow> string \<Rightarrow> Request \<Rightarrow> Request \<Rightarrow> bool" where
  "admitted A w ip r q \<longleftrightarrow> passes_gates A w ip q \<and>
     ((\<exists>k. q = r\<lparr>rq_principal := Some k\<rparr> \<and> signed_request A r k) \<or> (q = r \<and> anonymous_request A w r))"

lemma draw_step: "similar w (w\<lparr>w_draws := n\<rparr>)"
  by (simp add: similar_def)

lemma presigned_reaches:
  assumes "handle_presigned A nxt ip r (sv, w) = (res, sv', w')"
  shows "reaches nxt (admitted A w ip r) w res w'"
proof (cases "parse_presigned_query (ap_sig A) (query_str r)")
  case (Inl e)
  then show ?thesis using assms auth_failure_reaches by (simp add: handle_presigned_def)
next
  case (Inr x)
  obtain parsed ts ex where p: "parse_presigned_query (ap_sig A) (query_str r) = Inr (parsed, ts, ex)" using Inr by (cases x) auto
  let ?w = "w\<lparr>w_draws := Suc (w_draws w)\<rparr>"
  show ?thesis
  proof (cases "\<exists>sk t. lookup_secret_key A (pa_access_key parsed) = Inr sk \<and> pa_region parsed = cf_region (ap_config A)
      \<and> ap_amz_time A ts = Some t \<and> e_micros (ap_env A) (w_draws w) \<le> (t + int ex) * 1000000
      \<and> t * 1000000 \<le> e_micros (ap_env A) (w_draws w) + 15 * 60 * 1000000
      \<and> verify_presigned_signature (ap_sig A) (rq_method r) (signature_path_from_request r) (query_str r) (rq_headers r) parsed ts sk")
    case True
    then obtain sk t where c: "lookup_secret_key A (pa_access_key parsed) = Inr sk" "pa_region parsed = cf_region (ap_config A)"
      "ap_amz_time A ts = Some t" "e_micros (ap_env A) (w_draws w) \<le> (t + int ex) * 1000000"
      "t * 1000000 \<le> e_micros (ap_env A) (w_draws w) + 15 * 60 * 1000000"
      "verify_presigned_signature (ap_sig A) (rq_method r) (signature_path_from_request r) (query_str r) (rq_headers r) parsed ts sk"
      by blast
    have "admit A nxt r (pa_access_key parsed) ip (sv, ?w) = (res, sv', w')"
      using assms c by (simp add: handle_presigned_def p bind_srv_def srv_act_def draw_def as_bytes_inj)
    from admit_reaches [OF this] show ?thesis
    proof (rule reaches_mono [OF _ draw_step])
      fix q assume q: "q = r\<lparr>rq_principal := Some (pa_access_key parsed)\<rparr> \<and> passes_gates A ?w ip q"
      have "signed_request A r (pa_access_key parsed)"
        using c p by (auto simp: signed_request_def lookup_secret_key_Inr Let_def)
      with q show "admitted A w ip r q" using passes_gates_similar [OF _ draw_step] by (auto simp: admitted_def)
    qed
  next
    case False
    then show ?thesis using assms
      by (auto simp: handle_presigned_def p bind_srv_def srv_act_def draw_def as_bytes_inj not_less
          split: sum.splits option.splits if_splits
          intro: auth_failure_reaches reaches_mono [OF auth_failure_reaches draw_step])
  qed
qed

lemma header_reaches:
  assumes "authenticate_header A nxt ip r (sv, w) = (res, sv', w')"
  shows "reaches nxt (admitted A w ip r) w res w'"
proof (cases "\<exists>hdr parsed. header_str (rq_headers r) ''authorization'' = Some hdr \<and> parse_authorization_header hdr = Inr parsed")
  case False
  then show ?thesis using assms
    by (auto simp: authenticate_header_def header_str_def split: option.splits sum.splits intro: auth_failure_reaches)
next
  case True
  then obtain hdr parsed where h: "header_str (rq_headers r) ''authorization'' = Some hdr"
    and p: "parse_authorization_header hdr = Inr parsed" by blast
  then obtain v where v: "header_get (rq_headers r) ''authorization'' = Some v" "to_str v = Some hdr"
    by (auto simp: header_str_def bind_eq_Some_conv)
  let ?w = "w\<lparr>w_draws := Suc (w_draws w)\<rparr>"
  show ?thesis
  proof (cases "\<exists>sk t. lookup_secret_key A (pa_access_key parsed) = Inr sk \<and> pa_region parsed = cf_region (ap_config A)
      \<and> ap_amz_time A (amz_date (rq_headers r)) = Some t \<and> skew_secs (e_micros (ap_env A) (w_draws w)) t \<le> 15 * 60
      \<and> verify_signature (ap_sig A) (rq_method r) (signature_path_from_request r) (query_str r) (rq_headers r) parsed sk")
    case True
    then obtain sk t where c: "lookup_secret_key A (pa_access_key parsed) = Inr sk" "pa_region parsed = cf_region (ap_config A)"
      "ap_amz_time A (amz_date (rq_headers r)) = Some t" "skew_secs (e_micros (ap_env A) (w_draws w)) t \<le> 15 * 60"
      "verify_signature (ap_sig A) (rq_method r) (signature_path_from_request r) (query_str r) (rq_headers r) parsed sk"
      by blast
    have "admit A nxt r (pa_access_key parsed) ip (sv, ?w) = (res, sv', w')"
      using assms c by (simp add: authenticate_header_def v p bind_srv_def srv_act_def draw_def as_bytes_inj)
    from admit_reaches [OF this] show ?thesis
    proof (rule reaches_mono [OF _ draw_step])
      fix q assume q: "q = r\<lparr>rq_principal := Some (pa_access_key parsed)\<rparr> \<and> passes_gates A ?w ip q"
      have "signed_request A r (pa_access_key parsed)"
        using c p h by (auto simp: signed_request_def lookup_secret_key_Inr Let_def)
      with q show "admitted A w ip r q" using passes_gates_similar [OF _ draw_step] by (auto simp: admitted_def)
    qed
  next
    case False
    then show ?thesis using assms
      by (auto simp: authenticate_header_def v p bind_srv_def srv_act_def draw_def as_bytes_inj not_less
          split: sum.splits option.splits if_splits
          intro: auth_failure_reaches reaches_mono [OF auth_failure_reaches draw_step])
  qed
qed

lemma bypass_anonymous:
  assumes "is_public_bypass_allowed A (rq_method r) (rq_path r) (query_str r) (host_header_value (rq_headers r))
      (map_option vh_signature_path (rq_vhost r)) w = (Inr True, w')"
    and "header_get (rq_headers r) ''authorization'' = None"
  shows "anonymous_request A w r"
proof -
  have m: "rq_method r \<in> {''GET'', ''HEAD'', ''OPTIONS''}" "\<not> query_has_forbidden_public_subresource (query_str r)"
    using assms(1) unfolding is_public_bypass_allowed_def ok_def by (auto split: if_splits)
  obtain b rest where t: "public_target A (rq_path r) (host_header_value (rq_headers r)) (map_option vh_signature_path (rq_vhost r)) = Some (b, rest)"
    using assms(1) m unfolding is_public_bypass_allowed_def ok_def by (auto split: option.splits)
  obtain x wb where g: "get_bucket_public (ap_env A) (ap_storage A) b w = (x, wb)"
    by (cases "get_bucket_public (ap_env A) (ap_storage A) b w")
  have "(if b = [] then ok False w else (Inr (case x of Inr (pr, pl) \<Rightarrow> if rest = [] then pl else pr | Inl _ \<Rightarrow> False), wb)) = (Inr True :: 'a + bool, w')"
    using m(1) assms(1) m(2) t g
    by (cases "b = []"; elim insertE emptyE) (simp_all add: is_public_bypass_allowed_def bind_act_def attempt_def ok_def)
  then have "case x of Inr (pr, pl) \<Rightarrow> if rest = [] then pl else pr | Inl _ \<Rightarrow> False"
    by (cases "b = []"; cases "rest = []") (simp_all add: ok_def)
  then obtain y where y: "x = Inr y" "case y of (pr, pl) \<Rightarrow> if rest = [] then pl else pr" by (cases x) simp_all
  obtain pr pl where "y = (pr, pl)" by (cases y)
  with y have x: "x = Inr (pr, pl)" "if rest = [] then pl else pr" by simp_all
  show ?thesis
    unfolding anonymous_request_def
    using assms(2) m t g x similar_refl by (intro conjI exI [of _ b] exI [of _ rest] exI [of _ w] exI [of _ wb] exI [of _ pr] exI [of _ pl]) simp_all
qed

lemma anonymous_similar: "similar w w' \<Longrightarrow> anonymous_request A w' r \<Longrightarrow> anonymous_request A w r"
  unfolding anonymous_request_def by (meson similar_trans)

lemma slow_down_similar:
  "slow_down_put A m ip (sv, w) = (res, sv', w') \<Longrightarrow> similar w w'"
  by (auto simp: slow_down_put_def bind_srv_def acquire_put_def record_slow_down_def srv_ok_def srv_fail_def similar_def
      split: if_splits prod.splits option.splits)

lemma auth_middleware_reaches:
  assumes "auth_middleware A nxt r (sv, w) = (res, sv', w')" "rq_principal r = None"
  shows "reaches nxt (admitted A w (peer_address A r) (apply_virtual_host A r)) w res w'"
proof -
  let ?r = "apply_virtual_host A r" and ?ip = "peer_address A r"
  obtain r1 sv1 w1 where s: "slow_down_put A (rq_method r) ?ip (sv, w) = (r1, sv1, w1)"
    by (cases "slow_down_put A (rq_method r) ?ip (sv, w)") auto
  have sim: "similar w w1" using slow_down_similar [OF s] .
  have "reaches nxt (admitted A w1 ?ip ?r) w1 res w'" if r1: "r1 = Inr ()"
  proof (cases "query_has_presigned_signature (query_str ?r)")
    case True
    then have "handle_presigned A nxt ?ip ?r (sv1, w1) = (res, sv', w')"
      using assms(1) s r1 by (simp add: auth_middleware_def bind_srv_def Let_def)
    then show ?thesis by (rule presigned_reaches)
  next
    case not_presigned: False
    show ?thesis
    proof (cases "header_get (rq_headers ?r) ''authorization'' = None")
      case False
      then have "authenticate_header A nxt ?ip ?r (sv1, w1) = (res, sv', w')"
        using assms(1) s r1 not_presigned by (auto simp: auth_middleware_def bind_srv_def srv_ok_def Let_def)
      then show ?thesis by (rule header_reaches)
    next
      case True
      let ?by = "is_public_bypass_allowed A (rq_method ?r) (rq_path ?r) (query_str ?r) (host_header_value (rq_headers ?r))
          (map_option vh_signature_path (rq_vhost ?r)) :: (rejection, bool) act"
      obtain b w2 where b: "?by w1 = (b, w2)" by (cases "?by w1")
      have sim2: "similar w1 w2" using reads_onlyD [OF reads_only_bypass b] .
      show ?thesis
      proof (cases b)
        case (Inl e)
        then show ?thesis using assms(1) s r1 not_presigned True b sim2
          by (auto simp: auth_middleware_def bind_srv_def srv_act_def reaches_def similar_def Let_def)
      next
        case (Inr yes)
        have "reaches nxt (admitted A w2 ?ip ?r) w2 res w'" if "\<not> yes"
          using assms(1) s r1 not_presigned True b Inr that
          by (auto simp: auth_middleware_def bind_srv_def srv_act_def Let_def intro!: header_reaches)
        moreover have "reaches nxt (\<lambda>q. q = ?r \<and> passes_gates A w2 ?ip q) w2 res w'" if "yes"
        proof -
          have "finalize_s3_request A nxt ?r (rq_principal ?r) ?ip (sv1, w2) = (res, sv', w')"
            using assms s r1 not_presigned True b Inr that
            by (auto simp: auth_middleware_def bind_srv_def srv_act_def apply_virtual_host_def Let_def split: option.splits)
          then show ?thesis by (rule finalize_reaches)
        qed
        moreover have "anonymous_request A w1 ?r" if "yes"
          by (rule bypass_anonymous [where w' = w2]) (use True b Inr that in simp_all)
        ultimately show ?thesis
          using sim2 passes_gates_similar [OF _ sim2] anonymous_similar [OF sim2]
          by (cases yes) (auto elim!: reaches_mono simp: admitted_def)
      qed
    qed
  qed
  moreover have "w_root w' = w_root w \<and> isl res" if "\<not> (r1 = Inr ())"
    using that assms(1) s sim by (cases r1) (auto simp: auth_middleware_def bind_srv_def similar_def Let_def)
  moreover have "admitted A w ?ip ?r q" if "admitted A w1 ?ip ?r q" for q
    using that passes_gates_similar [OF _ sim] anonymous_similar [OF sim] by (auto simp: admitted_def)
  ultimately show ?thesis
    using reaches_mono [OF _ sim] by (cases "r1 = Inr ()") (blast, auto simp: reaches_def split: sum.splits)
qed

text \<open>
  C30. The middleware is the only way to a handler. Whatever the handler, a request either ends in
  an error and no file was changed, or the handler ran exactly once on that request after the
  tenant and policy gates had passed, and the request was either signed with the secret of an
  enabled credential, for this server's region, within the allowed time, by a header or a
  presigned query, or it was an anonymous read, without a protected sub-resource, of a bucket
  whose stored metadata grants it to the public.
\<close>

theorem auth_middleware_sound:
  assumes "auth_middleware A nxt r (sv, w) = (res, sv', w')" "rq_principal r = None"
  shows "case res of
      Inl _ \<Rightarrow> w_root w' = w_root w
    | Inr out \<Rightarrow> \<exists>req w1 w2. nxt req w1 = (sd_response out, w2) \<and> w_root w1 = w_root w \<and> w_root w' = w_root w2
        \<and> passes_gates A w (peer_address A r) req
        \<and> ((\<exists>k. req = (apply_virtual_host A r)\<lparr>rq_principal := Some k\<rparr> \<and> signed_request A (apply_virtual_host A r) k)
           \<or> (req = apply_virtual_host A r \<and> anonymous_request A w (apply_virtual_host A r)))"
  using auth_middleware_reaches [OF assms] unfolding reaches_def admitted_def by (cases res) auto

section \<open>Tenants\<close>

lemma good_similar:
  assumes "good_buckets E st w" "similar w w'"
  shows "good_buckets E st w' \<and> bucket_table E st w' = bucket_table E st w"
  using assms by (auto simp: good_buckets_def similar_def bucket_table_def fun_eq_iff)

lemma find_bucket_meta_good:
  assumes "good_buckets (ap_env A) (ap_storage A) w"
  shows "find_bucket_meta A b w =
    (Inr (if is_valid_bucket_name b then bucket_table (ap_env A) (ap_storage A) w b else None), w)"
proof (cases "is_valid_bucket_name b")
  case False
  then show ?thesis by (simp add: find_bucket_meta_def head_bucket_def validate_bucket_name_def bind_act_def attempt_def fail_def ok_def)
next
  case True
  note h = head_bucket_table [OF assms True]
  show ?thesis
  proof (cases "bucket_table (ap_env A) (ap_storage A) w b")
    case None
    then show ?thesis using h True by (simp add: find_bucket_meta_def bind_act_def attempt_def ok_def)
  next
    case (Some m)
    then show ?thesis using h True bt.read_present [OF assms True Some]
      by (simp add: find_bucket_meta_def bind_act_def attempt_def ok_def)
  qed
qed

lemma ensure_bucket_access_good:
  assumes "good_buckets (ap_env A) (ap_storage A) w" "ensure_bucket_access A k b w = (Inr meta, w')"
  shows "bucket_table (ap_env A) (ap_storage A) w b = Some meta
    \<and> bucket_access_allowed meta k (credential_lookup (ap_credentials A) k) (ap_config A)"
  using assms(2) find_bucket_meta_good [OF assms(1), of b]
  by (auto simp: ensure_bucket_access_def bind_act_def ok_def fail_def split: if_splits option.splits)

text \<open>
  C31. Tenants. When a handler runs for a signed request that names a bucket and is not a PUT without
  an equals sign in its query, the bucket exists and belongs to the tenant of the credential that
  signed it, unless that credential is the administrator's. (The excluded requests are those the
  middleware takes for bucket creations; for them the handlers have to check.)
\<close>

theorem tenant_isolation:
  assumes "auth_middleware A nxt r (sv, w) = (Inr out, sv', w')" "rq_principal r = None"
    and "good_buckets (ap_env A) (ap_storage A) w"
    and "rq_path r \<noteq> ''/''" "rq_path r \<noteq> []" "resolve_bucket_name A (apply_virtual_host A r) (rq_path r) = Some b"
    and "\<not> is_create_bucket (rq_method r) (query_str r)"
  shows "\<exists>req w1 w2. nxt req w1 = (sd_response out, w2) \<and> w_root w1 = w_root w \<and> w_root w' = w_root w2
    \<and> (\<forall>k. rq_principal req = Some k \<and> \<not> is_global_admin k (ap_config A) \<longrightarrow>
        (\<exists>cred meta. credential_lookup (ap_credentials A) k = Some cred
           \<and> bucket_table (ap_env A) (ap_storage A) w b = Some meta
           \<and> bucket_tenant_id meta (configured_default_tenant (ap_config A))
             = credential_tenant_id cred (configured_default_tenant (ap_config A))))"
proof -
  obtain req w1 w2 where q: "admitted A w (peer_address A r) (apply_virtual_host A r) req"
      "nxt req w1 = (sd_response out, w2)" "w_root w1 = w_root w" "w_root w' = w_root w2"
    using auth_middleware_reaches [OF assms(1,2)] by (auto simp: reaches_def)
  then obtain wa wb where g: "similar w wa" "enforce_tenant_scope A req wa = (Inr (), wb)"
    by (auto simp: admitted_def passes_gates_def)
  have same: "rq_path (apply_virtual_host A r) = rq_path r" "rq_method (apply_virtual_host A r) = rq_method r"
      "rq_query (apply_virtual_host A r) = rq_query r"
    by (auto simp: apply_virtual_host_def split: option.splits)
  have req: "rq_path req = rq_path r" "rq_method req = rq_method r" "rq_query req = rq_query r"
      "rq_headers req = rq_headers (apply_virtual_host A r)" "rq_vhost req = rq_vhost (apply_virtual_host A r)"
    using q(1) same by (auto simp: admitted_def)
  then have "resolve_bucket_name A req (rq_path req) = Some b"
    using assms(6) unfolding resolve_bucket_name_def req by simp
  then have "plan_tenant_scope A req = Some \<lparr>ts_access_key = rq_principal req, ts_bucket = b\<rparr>"
    using assms(4,5,7) req by (simp add: plan_tenant_scope_def query_str_def)
  then have e: "ensure_bucket_access_optional A (rq_principal req) b wa = (Inr (), wb)"
    using g(2) by (simp add: enforce_tenant_scope_def)
  have "\<exists>cred meta. credential_lookup (ap_credentials A) k = Some cred \<and> bucket_table (ap_env A) (ap_storage A) w b = Some meta
      \<and> bucket_tenant_id meta (configured_default_tenant (ap_config A)) = credential_tenant_id cred (configured_default_tenant (ap_config A))"
    if k: "rq_principal req = Some k" "\<not> is_global_admin k (ap_config A)" for k
  proof -
    obtain meta where "ensure_bucket_access A k b wa = (Inr meta, wb)"
      using e k(1) by (auto simp: ensure_bucket_access_optional_def bind_act_def ok_def split: prod.splits sum.splits)
    with ensure_bucket_access_good good_similar [OF assms(3) g(1)]
    have "bucket_table (ap_env A) (ap_storage A) w b = Some meta"
        "bucket_access_allowed meta k (credential_lookup (ap_credentials A) k) (ap_config A)" by metis+
    then show ?thesis using k(2) by (auto simp: bucket_access_allowed_def Let_def split: option.splits)
  qed
  then show ?thesis using q by blast
qed

section \<open>A concrete request\<close>

text \<open>
  A server with one bucket and one credential beside the administrator's; its signatures do not
  depend on what is signed.
\<close>

definition toy_config :: Config where
  "toy_config = \<lparr>cf_port = 9000, cf_address = ''0.0.0.0'', cf_access_key = ''root'', cf_secret_key = ''s'',
     cf_region = ''us-east-1'', cf_trusted_proxies = [], cf_server_host = [], cf_default_tenant = [], cf_audit_log = False\<rparr>"

definition toy_credential :: "string \<Rightarrow> CredentialEntry" where
  "toy_credential tenant = \<lparr>ce_access_key = ''AK'', ce_secret_key = ''s'', ce_enabled = True, ce_description = None,
     ce_tenant_id = Some tenant, ce_jwt_groups = [], ce_jwt_roles = []\<rparr>"

definition toy_app :: "string \<Rightarrow> app" where
  "toy_app tenant = \<lparr>ap_env = toy_env, ap_storage = toy_storage, ap_config = toy_config,
     ap_credentials = [''AK'' \<mapsto> toy_credential tenant], ap_server_host = ''h'',
     ap_sig = toy_signer\<lparr>sg_hex := \<lambda>_. ''00''\<rparr>, ap_amz_time = (\<lambda>_. Some 0), ap_instant = (\<lambda>n. n), ap_rfc3339 = (\<lambda>_. ''t'')\<rparr>"

definition toy_get :: "string \<Rightarrow> string \<Rightarrow> string option \<Rightarrow> Request" where
  "toy_get m path q = \<lparr>rq_method = m, rq_path = path, rq_query = q,
     rq_headers = [(''host'', ''h''), (''x-amz-date'', ''20250101T000000Z''),
       (''authorization'', ''AWS4-HMAC-SHA256 Credential=AK/20250101/us-east-1/s3/aws4_request,SignedHeaders=host,Signature=00'')],
     rq_peer = None, rq_principal = None, rq_vhost = None\<rparr>"

definition toy_limits :: server_state where
  "toy_limits = \<lparr>sv_limits = s3_from_config 0 60 0 60, sv_slow_downs = 0\<rparr>"

lemma toy_app_simps [simp]:
  "ap_env (toy_app t) = toy_env" "ap_storage (toy_app t) = toy_storage" "ap_config (toy_app t) = toy_config"
  "ap_credentials (toy_app t) = [''AK'' \<mapsto> toy_credential t]" "ap_server_host (toy_app t) = ''h''"
  "ap_amz_time (toy_app t) d = Some 0" "cf_region toy_config = ''us-east-1''" "e_micros toy_env = int"
  "ce_secret_key (toy_credential t) = ''s''" "ce_enabled (toy_credential t)"
  by (simp_all add: toy_app_def toy_config_def toy_credential_def toy_env_def)

lemma toy_auth_header:
  "parse_authorization_header ''AWS4-HMAC-SHA256 Credential=AK/20250101/us-east-1/s3/aws4_request,SignedHeaders=host,Signature=00'' =
     Inr \<lparr>pa_access_key = ''AK'', pa_date = ''20250101'', pa_region = ''us-east-1'', pa_signed_headers = [''host''], pa_signature = ''00''\<rparr>"
  by code_simp

lemma toy_headers_read:
  "header_get (rq_headers (toy_get m p q)) ''authorization'' =
     Some ''AWS4-HMAC-SHA256 Credential=AK/20250101/us-east-1/s3/aws4_request,SignedHeaders=host,Signature=00''"
  "host_header_value (rq_headers (toy_get m p q)) = Some ''h''"
proof -
  have l: "to_ascii_lowercase ''authorization'' = ''authorization''" "to_ascii_lowercase ''host'' = ''host''" by code_simp+
  have v: "to_str ''h'' = Some ''h''" by code_simp
  show "header_get (rq_headers (toy_get m p q)) ''authorization'' =
     Some ''AWS4-HMAC-SHA256 Credential=AK/20250101/us-east-1/s3/aws4_request,SignedHeaders=host,Signature=00''"
    "host_header_value (rq_headers (toy_get m p q)) = Some ''h''"
    by (simp_all add: toy_get_def header_get_def host_header_value_def header_str_def l v)
qed

lemma toy_visible:
  "to_str ''AWS4-HMAC-SHA256 Credential=AK/20250101/us-east-1/s3/aws4_request,SignedHeaders=host,Signature=00'' =
     Some ''AWS4-HMAC-SHA256 Credential=AK/20250101/us-east-1/s3/aws4_request,SignedHeaders=host,Signature=00''"
  by code_simp

lemma toy_no_vhost: "extract_virtual_bucket ''h'' ''h'' = None"
  by code_simp

text \<open>The signature of every toy request is accepted, so it reaches the gates.\<close>

lemma toy_reaches_gates:
  assumes "\<not> query_has_presigned_signature (query_str (toy_get m p q))" "w_draws w < 1000000"
  shows "auth_middleware (toy_app t) nxt (toy_get m p q) (toy_limits, w) =
    finalize_s3_request (toy_app t) nxt ((toy_get m p q)\<lparr>rq_principal := Some ''AK''\<rparr>) (Some ''AK'') ''unknown''
      (toy_limits, w\<lparr>w_draws := Suc (w_draws w)\<rparr>)"
proof -
  let ?r = "toy_get m p q"
  have ip: "peer_address (toy_app t) ?r = ''unknown''"
    by (simp add: peer_address_def client_ip_from_request_def toy_get_def)
  have vh: "apply_virtual_host (toy_app t) ?r = ?r"
    by (simp add: apply_virtual_host_def toy_headers_read toy_no_vhost)
  have slow: "slow_down_put (toy_app t) (rq_method ?r) ''unknown'' (toy_limits, w) = (Inr (), toy_limits, w)"
    by (simp add: slow_down_put_def toy_limits_def s3_from_config_def is_enabled_def limiter_new_def srv_ok_def)
  have sig: "verify_signature (ap_sig (toy_app t)) x y z h
      \<lparr>pa_access_key = ''AK'', pa_date = ''20250101'', pa_region = ''us-east-1'', pa_signed_headers = [''host''], pa_signature = ''00''\<rparr> k" for x y z h k
    by (simp add: verify_signature_iff computed_signature_def toy_app_def)
  have skew: "skew_secs (int (w_draws w)) 0 \<le> 900" using assms(2) by (simp add: skew_secs_def)
  have "authenticate_header (toy_app t) nxt ''unknown'' ?r (toy_limits, w) =
    admit (toy_app t) nxt ?r ''AK'' ''unknown'' (toy_limits, w\<lparr>w_draws := Suc (w_draws w)\<rparr>)"
    using skew sig
    by (simp add: authenticate_header_def toy_headers_read toy_visible toy_auth_header lookup_secret_key_def credential_lookup_def
        bind_srv_def srv_act_def draw_def)
  then show ?thesis
    unfolding auth_middleware_def Let_def ip vh by (simp add: bind_srv_def slow assms(1) toy_headers_read srv_ok_def admit_def)
qed

definition toy_handler :: "Request \<Rightarrow> world \<Rightarrow> Response \<times> world" where
  "toy_handler req w = (\<lparr>rs_status = 200, rs_headers = [], rs_body = []\<rparr>, w)"

lemma toy_meta_read:
  assumes "w_root w = w_root toy_world" "w_faults w = []"
  shows "read_bucket_meta toy_env toy_storage ''photos'' w = (Inr toy_bucket, w)"
    "head_bucket toy_storage ''photos'' w = (Inr True, w)"
proof -
  have s: "similar toy_world w" using assms by (simp add: similar_def)
  have g: "good_buckets toy_env toy_storage w" "bucket_table toy_env toy_storage w ''photos'' = Some toy_bucket"
    using good_similar [OF toy_good_buckets s] bucket_table_Some [OF toy_good_buckets toy_valid] toy_bucket_at by simp_all
  show "read_bucket_meta toy_env toy_storage ''photos'' w = (Inr toy_bucket, w)" using bt.read_present [OF g(1) toy_valid g(2)] .
  show "head_bucket toy_storage ''photos'' w = (Inr True, w)" using head_bucket_table [OF g(1) toy_valid] g(2) by simp
qed

lemma toy_request_simps [simp]:
  "rq_method (toy_get m p q) = m" "rq_path (toy_get m p q) = p" "rq_query (toy_get m p q) = q"
  "rq_principal (toy_get m p q) = None" "rq_vhost (toy_get m p q) = None"
  by (simp_all add: toy_get_def)

lemma toy_photos: "hd (split_on CHR ''/'' (trim_start_matches CHR ''/'' ''/photos'')) = ''photos''"
  by code_simp

lemma toy_enforce_policy:
  assumes "w_root w = w_root toy_world" "w_faults w = []" "\<forall>tgt. t = Some tgt \<longrightarrow> pt_bucket tgt = ''photos''"
  shows "enforce_bucket_policy_for_target (toy_app x) t k ip w = (Inr (), w)"
  using assms toy_meta_read [OF assms(1,2)]
  by (cases t) (auto simp: enforce_bucket_policy_for_target_def enforce_policy_target_def get_bucket_policy_def bind_act_def
      attempt_def ok_def toy_bucket_def new_bucket_meta_def)

lemma toy_list_passes:
  "\<exists>out s'. auth_middleware (toy_app ''default'') toy_handler (toy_get ''GET'' ''/photos'' (Some ''list-type=2'')) (toy_limits, toy_world)
     = (Inr out, s')"
proof -
  let ?r = "(toy_get ''GET'' ''/photos'' (Some ''list-type=2''))\<lparr>rq_principal := Some ''AK''\<rparr>"
  let ?w = "toy_world\<lparr>w_draws := Suc (Suc 0)\<rparr>"
  have q: "query_str (toy_get ''GET'' ''/photos'' (Some ''list-type=2'')) = ''list-type=2''" "query_str ?r = ''list-type=2''"
    by (simp_all add: query_str_def)
  have np: "\<not> query_has_presigned_signature ''list-type=2''" by code_simp
  have "resolve_bucket_name (toy_app ''default'') ?r ''/photos'' = Some ''photos''"
    using toy_headers_read(2) [of "''GET''" "''/photos''" "Some ''list-type=2''"]
    unfolding resolve_bucket_name_def Let_def toy_photos by (simp add: toy_no_vhost)
  then have plan: "plan_tenant_scope (toy_app ''default'') ?r = Some \<lparr>ts_access_key = Some ''AK'', ts_bucket = ''photos''\<rparr>"
    by (simp add: plan_tenant_scope_def is_create_bucket_def)
  have w: "w_root ?w = w_root toy_world" "w_faults ?w = []" by simp_all
  have "ensure_bucket_access_optional (toy_app ''default'') (Some ''AK'') ''photos'' ?w = (Inr (), ?w)"
    using toy_meta_read [OF w]
    by (simp add: ensure_bucket_access_optional_def ensure_bucket_access_def find_bucket_meta_def bind_act_def attempt_def ok_def
        bucket_access_allowed_def is_global_admin_def credential_lookup_def Let_def)
      (simp add: toy_bucket_def new_bucket_meta_def toy_credential_def toy_config_def bucket_tenant_id_def credential_tenant_id_def
        effective_tenant_id_def configured_default_tenant_def DEFAULT_TENANT_def trim_def)
  then have sc: "enforce_tenant_scope (toy_app ''default'') ?r ?w = (Inr (), ?w)" by (simp add: enforce_tenant_scope_def plan)
  have "extract_bucket_and_key (toy_app ''default'') ''/photos'' (Some ''h'') None = Some (''photos'', None)"
  proof -
    have "trim_start_matches CHR ''/'' ''/photos'' = ''photos''" "split_once CHR ''/'' ''photos'' = None" by code_simp+
    then show ?thesis by (simp add: extract_bucket_and_key_def toy_no_vhost)
  qed
  then have tg: "\<forall>tgt. resolve_policy_target (toy_app ''default'') ?r = Some tgt \<longrightarrow> pt_bucket tgt = ''photos''"
    using toy_headers_read(2) [of "''GET''" "''/photos''" "Some ''list-type=2''"]
    by (auto simp: resolve_policy_target_def resolve_policy_target_from_parts_def bind_eq_Some_conv split: if_splits)
  show ?thesis
    unfolding toy_reaches_gates [of "''GET''" "''/photos''" "Some ''list-type=2''" toy_world, unfolded q, OF np, simplified]
      finalize_s3_request_def Let_def
    using sc toy_enforce_policy [OF w tg]
    by (simp add: bind_srv_def srv_act_def draw_def toy_handler_def srv_ok_def)
qed

abbreviation toy_list :: Request where
  "toy_list \<equiv> toy_get ''GET'' ''/photos'' (Some ''list-type=2'')"

theorem auth_middleware_sound_witness:
  "\<exists>out sv' w'. auth_middleware (toy_app ''default'') toy_handler toy_list (toy_limits, toy_world) = (Inr out, sv', w')
     \<and> w_root w' = w_root toy_world
     \<and> (\<exists>k. signed_request (toy_app ''default'') (apply_virtual_host (toy_app ''default'') toy_list) k)"
proof -
  obtain out sv' w' where run: "auth_middleware (toy_app ''default'') toy_handler toy_list (toy_limits, toy_world) = (Inr out, sv', w')"
    using toy_list_passes by auto
  have "\<not> anonymous_request (toy_app ''default'') toy_world (apply_virtual_host (toy_app ''default'') toy_list)"
    using toy_headers_read(1) [of "''GET''" "''/photos''" "Some ''list-type=2''"]
    by (auto simp: anonymous_request_def apply_virtual_host_def split: option.splits)
  with auth_middleware_sound [OF run] run show ?thesis by (auto simp: toy_handler_def)
qed

theorem tenant_isolation_witness:
  "\<exists>out sv' w'. auth_middleware (toy_app ''default'') toy_handler toy_list (toy_limits, toy_world) = (Inr out, sv', w')
     \<and> w_root w' = w_root toy_world"
proof -
  obtain out sv' w' where run: "auth_middleware (toy_app ''default'') toy_handler toy_list (toy_limits, toy_world) = (Inr out, sv', w')"
    using toy_list_passes by auto
  have vh: "apply_virtual_host (toy_app ''default'') toy_list = toy_list"
    by (simp add: apply_virtual_host_def toy_headers_read toy_no_vhost)
  have b: "resolve_bucket_name (toy_app ''default'') toy_list ''/photos'' = Some ''photos''"
    unfolding resolve_bucket_name_def Let_def toy_photos by (simp add: toy_no_vhost toy_headers_read)
  have "\<not> is_create_bucket ''GET'' (query_str toy_list)" by (simp add: is_create_bucket_def)
  with tenant_isolation [OF run] b vh toy_good_buckets run show ?thesis by (auto simp: toy_handler_def)
qed

end
