(* ===== verification/MultipartLaws.thy ===== *)
theory MultipartLaws
  imports Multipart
begin

text \<open>
  Multipart uploads when no system call fails: what each request leaves in the directory of the
  upload, and that completing it gives the concatenation of the parts.
\<close>

section \<open>The directory of an upload\<close>

definition good_upload_id :: "string \<Rightarrow> bool" where
  "good_upload_id u \<longleftrightarrow> validate_upload_id u = Inr () \<and> u \<noteq> ''.''"

definition udir :: "FilesystemStorage \<Rightarrow> string \<Rightarrow> string \<Rightarrow> path" where
  "udir st b u = st_buckets_dir st @ [b, ''.uploads'', u]"

abbreviation part_record :: "nat \<Rightarrow> string" where
  "part_record n \<equiv> show_nat n @ ''.meta.json''"

lemma good_upload_plain:
  assumes "good_upload_id u"
  shows "u \<noteq> ''..''" "segs u = [u]" "\<not> starts_with u ''/''"
proof -
  have v: "u \<noteq> []" "CHR ''/'' \<notin> set u" "\<not> contains_str u ''..''" "u \<noteq> ''.''"
    using assms by (auto simp: good_upload_id_def validate_upload_id_def split: if_splits)
  show "u \<noteq> ''..''" using v(3) by (auto simp: contains_str_def)
  show "segs u = [u]" using v by (intro segs_name) auto
  show "\<not> starts_with u ''/''" using v(2) by (auto simp: starts_with_slash)
qed

lemma upload_paths:
  assumes "is_valid_bucket_name b" "good_upload_id u"
  shows "upload_dir (st_buckets_dir st) b u = udir st b u"
    "upload_meta_path (st_buckets_dir st) b u = udir st b u @ [''.meta.json'']"
    "part_path (st_buckets_dir st) b u n = udir st b u @ [show_nat n]"
    "part_meta_path (st_buckets_dir st) b u n = udir st b u @ [part_record n]"
proof -
  show d: "upload_dir (st_buckets_dir st) b u = udir st b u"
    using good_upload_plain [OF assms(2)] join_bucket [OF assms(1)]
    by (simp add: upload_dir_def uploads_dir_def join_key udir_def)
  show "upload_meta_path (st_buckets_dir st) b u = udir st b u @ [''.meta.json'']"
    "part_path (st_buckets_dir st) b u n = udir st b u @ [show_nat n]"
    "part_meta_path (st_buckets_dir st) b u n = udir st b u @ [part_record n]"
    unfolding upload_meta_path_def part_path_def part_meta_path_def d by simp_all
qed

lemma digit_char_not_dot: "d < 10 \<Longrightarrow> CHR ''.'' \<noteq> digit_char d"
  unfolding digit_char_def by (rule notI, drule arg_cong [of _ _ "of_char :: char \<Rightarrow> nat"]) simp

lemma show_nat_no_dot: "CHR ''.'' \<notin> set (show_nat n)"
proof (induction n rule: show_nat.induct)
  case (1 n)
  show ?case
  proof (cases "n < 10")
    case True
    then have "show_nat n = [digit_char n]" by (simp add: show_nat.simps [of n])
    with digit_char_not_dot [OF True] show ?thesis by (metis empty_iff list.set(1) set_ConsD)
  next
    case False
    then have s: "show_nat n = show_nat (n div 10) @ [digit_char (n mod 10)]" by (simp add: show_nat.simps [of n])
    have "CHR ''.'' \<noteq> digit_char (n mod 10)" by (rule digit_char_not_dot) simp
    with 1 [OF False] show ?thesis unfolding s by (metis Un_iff empty_iff list.set(1) set_ConsD set_append)
  qed
qed

lemma show_nat_inj: "show_nat m = show_nat n \<longleftrightarrow> m = n"
proof
  assume e: "show_nat m = show_nat n"
  have "parse_digits (Suc (m + n)) 0 (show_nat m) = Some m" "parse_digits (Suc (m + n)) 0 (show_nat n) = Some n"
    by (rule parse_digits_show_nat, simp)+
  then show "m = n" unfolding e by simp
qed simp

lemma show_nat_nonempty [simp]: "show_nat n \<noteq> []"
  using show_nat_Cons [of n] by auto

lemma part_names:
  "show_nat n \<noteq> ''.meta.json''" "part_record n \<noteq> ''.meta.json''" "show_nat n \<noteq> part_record m"
  "part_record n = part_record m \<longleftrightarrow> n = m" "show_nat n \<noteq> ''..''" "part_record n \<noteq> ''..''"
proof -
  have d: "CHR ''.'' \<in> set s \<Longrightarrow> show_nat n \<noteq> s" for s using show_nat_no_dot by metis
  show "show_nat n \<noteq> ''.meta.json''" "show_nat n \<noteq> part_record m" "show_nat n \<noteq> ''..''" by (rule d, simp)+
  show "part_record n \<noteq> ''.meta.json''" "part_record n = part_record m \<longleftrightarrow> n = m"
    by (simp_all add: show_nat_inj)
  show "part_record n \<noteq> ''..''" by (simp add: append_eq_Cons_conv)
qed

section \<open>Uploads and their parts\<close>

text \<open>The key of an encrypted upload can be recovered with the customer key \<open>ck\<close>.\<close>

definition upload_key :: "env \<Rightarrow> FilesystemStorage \<Rightarrow> UploadEncryptionSpec \<Rightarrow> bytes option \<Rightarrow> bytes \<Rightarrow> bytes \<Rightarrow> bool" where
  "upload_key E st spec ck dek pre \<longleftrightarrow>
     aead_roundtrip (e_enc E) (e_dec E) \<and> b64_law (e_b64 E)
     \<and> resolve_upload_dek (e_dec E) (e_b64 E) (e_md5 E) (st_keys st) spec ck = Inr dek
     \<and> snd (e_b64 E) (ue_upload_nonce_prefix spec) = Some pre \<and> length dek = 32 \<and> length pre = 8"

definition part_sealed ::
  "env \<Rightarrow> FilesystemStorage \<Rightarrow> UploadEncryptionSpec option \<Rightarrow> bytes option \<Rightarrow> string \<Rightarrow> nat \<Rightarrow> bytes \<Rightarrow> bytes \<Rightarrow> bool" where
  "part_sealed E st spec ck u n body ct \<longleftrightarrow>
     (case spec of
        None \<Rightarrow> ct = body
      | Some s \<Rightarrow> \<exists>dek pre. upload_key E st s ck dek pre \<and> length body \<le> 2 ^ 32 * FRAME_CHUNK_SIZE
          \<and> encode_frames (e_enc E) dek pre (part_aad_builder (e_sha256 E) u n) 0 (chunks_of FRAME_CHUNK_SIZE body) = Inr ct)"

definition part_at ::
  "env \<Rightarrow> FilesystemStorage \<Rightarrow> string \<Rightarrow> string \<Rightarrow> MultipartUploadMeta \<Rightarrow> bytes option \<Rightarrow> node \<Rightarrow> nat \<Rightarrow> PartMeta \<Rightarrow> bytes \<Rightarrow> bool" where
  "part_at E st b u um ck t n pm body \<longleftrightarrow>
     pm_part_number pm = n \<and> pm_size pm = length body \<and> pm_etag pm = etag_of E body
     \<and> pm_encrypted pm = (um_encryption_spec um \<noteq> None)
     \<and> lookup (udir st b u @ [part_record n]) t = Some (File (fst (e_part E) pm))
     \<and> (\<exists>ct. lookup (udir st b u @ [show_nat n]) t = Some (File ct) \<and> part_sealed E st (um_encryption_spec um) ck u n body ct)"

text \<open>An upload in progress, with the parts \<open>ps\<close> uploaded so far.\<close>

definition upload_at ::
  "env \<Rightarrow> FilesystemStorage \<Rightarrow> string \<Rightarrow> string \<Rightarrow> MultipartUploadMeta \<Rightarrow> bytes option \<Rightarrow> (nat \<rightharpoonup> PartMeta \<times> bytes) \<Rightarrow> node \<Rightarrow> bool" where
  "upload_at E st b u um ck ps t \<longleftrightarrow>
     json_law (e_upload E) \<and> json_law (e_part E) \<and> is_valid_bucket_name b \<and> good_upload_id u
     \<and> store_ok st t \<and> is_dir_at (udir st b u) t
     \<and> lookup (udir st b u @ [''.meta.json'']) t = Some (File (fst (e_upload E) um))
     \<and> (\<forall>x\<in>range show_nat \<union> range part_record. \<not> is_dir_at (udir st b u @ [x]) t)
     \<and> (\<forall>n pm body. ps n = Some (pm, body) \<longrightarrow> part_at E st b u um ck t n pm body)"

lemma upload_plain: "upload_at E st b u um ck ps t \<Longrightarrow> plain (udir st b u)"
  using valid_bucket_plain [of b] good_upload_plain [of u] by (auto simp: upload_at_def store_ok_def udir_def)

lemma read_upload_calm:
  assumes "upload_at E st b u um ck ps (w_root w)" "w_faults w = []"
  shows "read_upload_meta E st b u w = (Inr um, w)"
proof -
  have p: "plain (udir st b u @ [''.meta.json''])" using upload_plain [OF assms(1)] by simp
  show ?thesis
    using assms read_json_ok [OF _ p assms(2), of "e_upload E" um]
    by (simp add: read_upload_meta_def upload_paths upload_at_def)
qed

lemma read_part_calm:
  assumes "upload_at E st b u um ck ps (w_root w)" "w_faults w = []" "ps n = Some (pm, body)"
  shows "read_part_meta E st b u n w = (Inr pm, w)"
proof -
  have p: "plain (udir st b u @ [part_record n])" using upload_plain [OF assms(1)] part_names by simp
  show ?thesis
    using assms read_json_ok [OF _ p assms(2), of "e_part E" pm]
    by (simp add: read_part_meta_def upload_paths upload_at_def part_at_def)
qed

text \<open>Writing an entry of the directory of the upload.\<close>

lemma upload_at_set:
  assumes "upload_at E st b u um ck ps t" "x \<noteq> ''.meta.json''" "\<forall>n \<in> dom ps. x \<noteq> show_nat n \<and> x \<noteq> part_record n"
  shows "upload_at E st b u um ck ps (set_node (udir st b u @ [x]) (Some (File data)) t)"
proof -
  let ?d = "udir st b u" and ?t = "set_node (udir st b u @ [x]) (Some (File data)) t"
  note a = assms(1) [unfolded upload_at_def]
  have look: "lookup (?d @ [y]) ?t = (if y = x then Some (File data) else lookup (?d @ [y]) t)" for y
  proof (cases "y = x")
    case True
    then show ?thesis using lookup_set_same [of "?d @ [x]" t] a by simp
  next
    case False
    then have "apart (?d @ [x]) (?d @ [y])" using apart_append [of ?d "[x]" "[y]"] by simp
    with False show ?thesis by (simp add: lookup_set_apart)
  qed
  have "is_dir_at ?d ?t" by (rule is_dir_at_set_above) (use a in auto)
  moreover have "is_dir_at (st_buckets_dir st) ?t"
    using is_dir_at_set_above [of "st_buckets_dir st" t "[b, ''.uploads'', u, x]"] a by (auto simp: store_ok_def udir_def)
  moreover have "part_at E st b u um ck ?t n pm body" if "ps n = Some (pm, body)" for n pm body
  proof -
    have "x \<noteq> show_nat n" "x \<noteq> part_record n" using assms(3) that by auto
    then show ?thesis using a that unfolding part_at_def look by auto
  qed
  moreover have "\<not> is_dir_at (?d @ [y]) ?t" if "y \<in> range show_nat \<union> range part_record" for y
    using a that unfolding is_dir_at_def look by auto
  ultimately show ?thesis using a assms(2) unfolding upload_at_def look by (auto simp: store_ok_def)
qed

section \<open>Uploading a part\<close>

text \<open>The customer key recovers the upload's key, and the part is not too long for the nonce format.\<close>

definition can_seal :: "env \<Rightarrow> FilesystemStorage \<Rightarrow> UploadEncryptionSpec option \<Rightarrow> bytes option \<Rightarrow> nat \<Rightarrow> bool" where
  "can_seal E st spec ck sz \<longleftrightarrow>
     (\<forall>s. spec = Some s \<longrightarrow> (\<exists>dek pre. upload_key E st s ck dek pre) \<and> sz \<le> 2 ^ 32 * FRAME_CHUNK_SIZE)"

lemma part_cipher_calm:
  assumes "can_seal E st spec ck (length body)"
  obtains c ct where "part_cipher E st u n spec ck = Inr c" "payload_spec (e_enc E) c fw_new body = Inr ct"
    "part_sealed E st spec ck u n body ct" "c \<noteq> None \<longleftrightarrow> spec \<noteq> None"
proof (cases spec)
  case None
  then show thesis using that [of None body] by (simp add: part_cipher_def payload_spec_def part_sealed_def fw_new_def)
next
  case (Some s)
  let ?aad = "part_aad_builder (e_sha256 E) u n"
  obtain dek pre where k: "upload_key E st s ck dek pre" and len: "length body \<le> 2 ^ 32 * FRAME_CHUNK_SIZE"
    using assms Some by (auto simp: can_seal_def)
  note k' = k [unfolded upload_key_def]
  have "length (chunks_of FRAME_CHUNK_SIZE body) \<le> 2 ^ 32" using len by (simp add: length_chunks_of FRAME_CHUNK_SIZE_def)
  then obtain ct where ct: "encode_frames (e_enc E) dek pre ?aad 0 (chunks_of FRAME_CHUNK_SIZE body) = Inr ct"
    using encode_frames_total [of "e_enc E" "e_dec E" dek "chunks_of FRAME_CHUNK_SIZE body" pre 0 ?aad] k'
      chunks_of_nonempty [OF FRAME_CHUNK_SIZE_pos(1)] by (fastforce simp: FRAME_CHUNK_SIZE_def)
  have "part_cipher E st u n spec ck = Inr (Some (dek, pre, ?aad))"
    using Some k' by (simp add: part_cipher_def decode_b64_def)
  moreover have "payload_spec (e_enc E) (Some (dek, pre, ?aad)) fw_new body = Inr ct"
    using ct by (simp add: payload_spec_def fw_new_def)
  moreover have "part_sealed E st spec ck u n body ct" using Some k len ct by (auto simp: part_sealed_def)
  ultimately show thesis using that Some by simp
qed

lemma write_calm:
  assumes "w_faults w = []" "is_dir_at d (w_root w)" "plain d" "x \<noteq> ''..''" "\<not> is_dir_at (d @ [x]) (w_root w)"
  shows "io (fs_write (d @ [x]) data) w = (Inr (), w\<lparr>w_root := set_node (d @ [x]) (Some (File data)) (w_root w)\<rparr>)"
  using assms by (simp add: io_def map_err_act_def fs_write_def change_quiet write_at_ok)

lemma set_node_again:
  "set_node (d @ [x]) v (set_node (d @ [x]) (Some n) t) = set_node (d @ [x]) v t"
  by (rule set_node_twice) simp

definition part_meta_of ::
  "env \<Rightarrow> nat \<Rightarrow> bytes \<Rightarrow> string \<Rightarrow> (ChecksumAlgorithm \<times> string option) option \<Rightarrow> nat option \<Rightarrow> PartMeta" where
  "part_meta_of E n body now checksum ct_size =
     \<lparr>pm_part_number = n, pm_etag = etag_of E body, pm_size = length body, pm_last_modified = now,
      pm_checksum_algorithm = map_option fst checksum, pm_checksum_value = map_option (\<lambda>c. e_checksum E (fst c) body) checksum,
      pm_encrypted = (ct_size \<noteq> None), pm_ciphertext_size = ct_size\<rparr>"

lemma finish_part_calm:
  assumes "upload_at E st b u um ck ps (w_root w)" "w_faults w = []" "checksum_ok E checksum body"
    and "fw_size fw = length body" "fw_hashed fw = body"
  shows "\<exists>now. let pm = part_meta_of E n body now checksum (if enc then Some (length (fw_out fw)) else None) in
    finish_part E st b u n enc checksum fw w = (Inr pm,
      w\<lparr>w_root := set_node (udir st b u @ [part_record n]) (Some (File (fst (e_part E) pm)))
           (set_node (udir st b u @ [show_nat n]) (Some (File (fw_out fw))) (w_root w)), w_draws := Suc (w_draws w)\<rparr>)"
proof -
  let ?d = "udir st b u" and ?now = "e_fmt E (e_micros E (w_draws w))"
  let ?pm = "part_meta_of E n body ?now checksum (if enc then Some (length (fw_out fw)) else None)"
  note a = assms(1) [unfolded upload_at_def]
  have v: "is_valid_bucket_name b" "good_upload_id u" using a by auto
  note paths = upload_paths [OF v, of st]
  have pl: "plain ?d" by (rule upload_plain [OF assms(1)])
  define w1 where "w1 = w\<lparr>w_root := set_node (?d @ [show_nat n]) (Some (File (fw_out fw))) (w_root w)\<rparr>"
  have wr: "io (fs_write (?d @ [show_nat n]) (fw_out fw)) w = (Inr (), w1)"
    unfolding w1_def by (rule write_calm [OF assms(2) _ pl]) (use a part_names in auto)
  have d1: "is_dir_at ?d (w_root w1)" unfolding w1_def using is_dir_at_set_above [of ?d "w_root w" "[show_nat n]"] a by simp
  have f1: "w_faults w1 = []" using assms(2) by (simp add: w1_def)
  have same: "lookup (?d @ [show_nat n]) (w_root w1) = Some (File (fw_out fw))"
    unfolding w1_def using lookup_set_same [of "?d @ [show_nat n]" "w_root w"] a by simp
  have len: "io (fs_file_len (?d @ [show_nat n])) w1 = (Inr (length (fw_out fw)), w1)"
  proof -
    have p: "plain (?d @ [show_nat n])" using pl part_names(5) [of n] by auto
    show ?thesis using f1 read_at_File [OF p same] by (simp add: io_def map_err_act_def fs_file_len_def query_quiet)
  qed
  have "apart (?d @ [show_nat n]) (?d @ [part_record n])"
    using apart_append [of ?d "[show_nat n]" "[part_record n]"] part_names by simp
  then have nd: "\<not> is_dir_at (?d @ [part_record n]) (w_root w1)"
    unfolding w1_def using a by (simp add: is_dir_at_set_apart)
  let ?w2 = "w1\<lparr>w_draws := Suc (w_draws w)\<rparr>"
  have js: "write_json (e_part E) (?d @ [part_record n]) ?pm ?w2 =
      (Inr (), ?w2\<lparr>w_root := set_node (?d @ [part_record n]) (Some (File (fst (e_part E) ?pm))) (w_root w1)\<rparr>)"
    using write_json_ok [of "?d @ [part_record n]" ?w2 "e_part E" ?pm] pl part_names f1 d1 nd by simp
  have now: "now_string E w1 = (Inr ?now :: StorageError + string, ?w2)"
    by (simp add: now_string_def bind_act_def draw_def ok_def w1_def)
  have "finish_part E st b u n enc checksum fw w = (Inr ?pm,
      ?w2\<lparr>w_root := set_node (?d @ [part_record n]) (Some (File (fst (e_part E) ?pm))) (w_root w1)\<rparr>)"
    unfolding finish_part_def paths Let_def assms(5) check_checksum_calm [OF assms(3)]
    using js now len assms(4,5)
    by (cases enc) (simp_all add: bind_act_def wr ok_def attempt_def part_meta_of_def)
  then show ?thesis unfolding Let_def w1_def by (intro exI [of _ ?now]) simp
qed

lemma upload_part_calm:
  assumes "upload_at E st b u um ck ps (w_root w)" "w_faults w = []" "checksum_ok E checksum (body_bytes es)" "body_inv es"
    and "accepted E st declared (body_bytes es)" "can_seal E st (um_encryption_spec um) ck (length (body_bytes es))"
    and "1 \<le> n" "n \<le> 10000"
  shows "\<exists>pm w'. upload_part E st body_read b u n es checksum ck declared w = Some (Inr pm, w')
    \<and> w_faults w' = [] \<and> w_draws w \<le> w_draws w' \<and> pm_etag pm = etag_of E (body_bytes es)
    \<and> upload_at E st b u um ck (ps(n \<mapsto> (pm, body_bytes es))) (w_root w')
    \<and> kept_outside (udir st b u) {show_nat n, part_record n} (w_root w) (w_root w')"
proof -
  let ?d = "udir st b u" and ?body = "body_bytes es" and ?q = "QuotaReader_new es (st_quota st)"
  note a = assms(1) [unfolded upload_at_def]
  have v: "is_valid_bucket_name b" "good_upload_id u" using a by auto
  note paths = upload_paths [OF v, of st]
  have pl: "plain ?d" by (rule upload_plain [OF assms(1)])
  obtain c ct where c: "part_cipher E st u n (um_encryption_spec um) ck = Inr c" "payload_spec (e_enc E) c fw_new ?body = Inr ct"
    "part_sealed E st (um_encryption_spec um) ck u n ?body ct" "c \<noteq> None \<longleftrightarrow> um_encryption_spec um \<noteq> None"
    using part_cipher_calm [OF assms(6), of u n] by blast
  have qi: "body_inv (qr_inner ?q) \<and> quota_within (qr_limits ?q) (e_disk E) (qr_written ?q) (qr_written ?q + length (body_bytes (qr_inner ?q)))"
    and qr: "body_bytes (qr_inner ?q) = ?body"
    using assms(4,5) by (simp_all add: QuotaReader_new_def accepted_def)
  obtain fw s' where pp: "put_payload (quota_poll_read body_read (e_disk E)) IO_BUFFER_SIZE (e_enc E) c ?q fw_new = Some (Inr fw, s')"
    and fw: "fw_out fw = ct" "fw_size fw = length ?body" "fw_hashed fw = ?body"
    using stream_reader.put_payload_new [OF body.quota_stream qi, unfolded qr, OF _ c(2), of IO_BUFFER_SIZE]
    by (auto simp: IO_BUFFER_SIZE_def)
  define w1 where "w1 = w\<lparr>w_root := set_node (?d @ [show_nat n]) (Some (File [])) (w_root w)\<rparr>"
  have there: "io (fs_try_exists ?d) w = (Inr True, w)"
  proof -
    obtain es where "lookup ?d (w_root w) = Some (Dir es)" using a by (auto simp: is_dir_at_Dir)
    then show ?thesis
      using assms(2) pl by (simp add: io_def map_err_act_def fs_try_exists_def query_quiet stat_at_plain resolve_lookup)
  qed
  have wr: "io (fs_write (?d @ [show_nat n]) []) w = (Inr (), w1)"
    unfolding w1_def by (rule write_calm [OF assms(2) _ pl]) (use a part_names in auto)
  let ?ps = "ps(n := None)"
  have a0: "upload_at E st b u um ck ?ps (w_root w)" using a by (auto simp: upload_at_def)
  have free: "x \<noteq> ''.meta.json''" "\<forall>m \<in> dom ?ps. x \<noteq> show_nat m \<and> x \<noteq> part_record m"
    if "x = show_nat n \<or> x = part_record n" for x
    using that part_names(1,2) [of n] part_names(3) [of n] part_names(3) [of _ n] part_names(4) [of n] show_nat_inj [of n]
    by (auto simp del: same_append_eq append_same_eq append_eq_append_conv) metis+
  have a1: "upload_at E st b u um ck ?ps (w_root w1)" and f1: "w_faults w1 = []"
    unfolding w1_def using upload_at_set [OF a0 free [of "show_nat n"]] assms(2) by simp_all
  obtain now where fin: "let pm = part_meta_of E n ?body now checksum (if c \<noteq> None then Some (length (fw_out fw)) else None) in
    finish_part E st b u n (c \<noteq> None) checksum fw w1 = (Inr pm,
      w1\<lparr>w_root := set_node (?d @ [part_record n]) (Some (File (fst (e_part E) pm)))
           (set_node (?d @ [show_nat n]) (Some (File (fw_out fw))) (w_root w1)), w_draws := Suc (w_draws w1)\<rparr>)"
    using finish_part_calm [OF a1 f1 assms(3) fw(2,3)] by blast
  define pm where "pm = part_meta_of E n ?body now checksum (if c \<noteq> None then Some (length ct) else None)"
  define t2 where "t2 = set_node (?d @ [show_nat n]) (Some (File ct)) (w_root w)"
  define t3 where "t3 = set_node (?d @ [part_record n]) (Some (File (fst (e_part E) pm))) t2"
  have run: "finish_part E st b u n (c \<noteq> None) checksum fw w1 = (Inr pm, w\<lparr>w_root := t3, w_draws := Suc (w_draws w)\<rparr>)"
    using fin unfolding Let_def fw(1) pm_def [symmetric] by (simp add: w1_def set_node_again t3_def t2_def)
  have "upload_part E st body_read b u n es checksum ck declared w = Some (Inr pm, w\<lparr>w_root := t3, w_draws := Suc (w_draws w)\<rparr>)"
    using v(2) assms(5,7,8) there read_upload_calm [OF assms(1,2)] c(1) wr pp run v(1)
    unfolding upload_part_def paths
    by (simp add: bind_p_def total_def bind_act_def lift_res_def accepted_def ok_def good_upload_id_def validate_bucket_name_def
        lift_opt_def)
  moreover have "upload_at E st b u um ck (ps(n \<mapsto> (pm, ?body))) t3"
  proof -
    have a2: "upload_at E st b u um ck ?ps t2" unfolding t2_def using upload_at_set [OF a0 free [of "show_nat n"]] by simp
    have a3: "upload_at E st b u um ck ?ps t3" unfolding t3_def using upload_at_set [OF a2 free [of "part_record n"]] by simp
    have d2: "is_dir_at ?d t2" "is_dir_at ?d (w_root w)" using a2 a by (simp_all add: upload_at_def)
    have "apart (?d @ [part_record n]) (?d @ [show_nat n])"
      using apart_append [of ?d "[part_record n]" "[show_nat n]"] part_names(3) [of n n] by (simp add: eq_commute)
    then have "lookup (?d @ [show_nat n]) t3 = Some (File ct)"
      unfolding t3_def using lookup_set_same [of "?d @ [show_nat n]" "w_root w"] d2
      by (simp add: lookup_set_apart t2_def)
    moreover have "lookup (?d @ [part_record n]) t3 = Some (File (fst (e_part E) pm))"
      unfolding t3_def using lookup_set_same [of "?d @ [part_record n]" t2] d2 by simp
    ultimately have "part_at E st b u um ck t3 n pm ?body"
      using c(3,4) by (auto simp: part_at_def pm_def part_meta_of_def)
    then show ?thesis using a3 by (auto simp: upload_at_def)
  qed
  moreover have "kept_outside ?d {show_nat n, part_record n} (w_root w) t3"
    unfolding kept_outside_def t3_def t2_def by (simp add: lookup_set_apart)
  moreover have "pm_etag pm = etag_of E ?body" by (simp add: pm_def part_meta_of_def)
  ultimately show ?thesis using assms(2) by (intro exI conjI) (assumption | simp)+
qed

section \<open>Copying the parts\<close>

context stream_reader
begin

lemma copy_part_all:
  assumes "inv s" "0 < cap" "length (fw_buf w) < FRAME_CHUNK_SIZE" "payload_spec enc c w (rest s @ t) = Inr x"
  shows "\<exists>w'. copy_part rd cap enc c s w = Some (Inr w') \<and> payload_spec enc c w' t = Inr x
    \<and> length (fw_buf w') < FRAME_CHUNK_SIZE \<and> fw_size w' = fw_size w + length (rest s)"
  using assms(1,3,4)
proof (induction s arbitrary: w rule: wf_induct_rule
    [OF wf_measures [of "[\<lambda>s. length (rest s), wait]"]])
  case (1 s)
  note unfold = copy_part.simps [of rd cap enc c s w]
  from "1.prems"(1) assms(2) show ?case
  proof (cases rule: poll_cases)
    case (pending s')
    with "1.IH" [of s' w] "1.prems" show ?thesis by (simp add: unfold)
  next
    case (eof s')
    with "1.prems" show ?thesis by (simp add: unfold)
  next
    case (data bs s')
    note spec = accept_bytes_spec [OF "1.prems"(2), of enc c bs "rest s' @ t"]
    obtain w1 where w1: "accept_bytes enc c bs w = Inr w1"
      using spec "1.prems"(3) data by (cases "accept_bytes enc c bs w") auto
    with "1.IH" [of s' w1] spec "1.prems"(3) data show ?thesis by (simp add: unfold add.assoc)
  qed
qed

end

text \<open>A stream wrapped in a constructor is the same stream.\<close>

lemma stream_wrapped:
  assumes "stream_reader rd I R W" "inj f" "\<And>s n. rd' (f s) n = (case rd s n of (r, s') \<Rightarrow> (r, f s'))"
  shows "stream_reader rd' (\<lambda>r. \<exists>s. r = f s \<and> I s) (\<lambda>r. R (the_inv f r)) (\<lambda>r. W (the_inv f r))"
proof -
  have f: "the_inv f (f s) = s" for s by (rule the_inv_f_f [OF assms(2)])
  show ?thesis
  proof (unfold_locales, goal_cases)
    case (1 r n bs r')
    then obtain s s' where "r = f s" "I s" "rd s n = (Ready (Inr bs), s')" "r' = f s'"
      by (auto simp: assms(3) split: prod.splits)
    with stream_reader.reads [OF assms(1), of s n bs s'] 1(2) show ?case by (auto simp: f)
  next
    case (2 r n e r')
    then obtain s where "r = f s" "I s" by auto
    with stream_reader.never_fails [OF assms(1), of s n e] 2(2) show ?case by (auto simp: assms(3) split: prod.splits)
  next
    case (3 r n r')
    then obtain s s' where "r = f s" "I s" "rd s n = (Pending, s')" "r' = f s'"
      by (auto simp: assms(3) split: prod.splits)
    with stream_reader.suspends [OF assms(1), of s n s'] 3(2) show ?case by (auto simp: f)
  qed
qed

definition streams :: "env \<Rightarrow> object_reader \<Rightarrow> bytes \<Rightarrow> bool" where
  "streams E r body \<longleftrightarrow> (\<exists>I R W. stream_reader (object_read E) I R W \<and> I r \<and> R r = body)"

lemma streams_wrapped:
  assumes "stream_reader rd I R W" "inj f" "\<And>s n. object_read E (f s) n = (case rd s n of (r, s') \<Rightarrow> (r, f s'))" "I s" "R s = body"
  shows "streams E (f s) body"
  unfolding streams_def
  by (intro exI conjI, rule stream_wrapped [OF assms(1-3)]) (auto simp: the_inv_f_f [OF assms(2)] assms(4,5))

lemma streams_copied:
  assumes "streams E r body" "length (fw_buf w) < FRAME_CHUNK_SIZE" "payload_spec enc c w (body @ t) = Inr x"
  shows "\<exists>w'. copy_part (object_read E) IO_BUFFER_SIZE enc c r w = Some (Inr w') \<and> payload_spec enc c w' t = Inr x
    \<and> length (fw_buf w') < FRAME_CHUNK_SIZE \<and> fw_size w' = fw_size w + length body"
proof -
  obtain I R W where s: "stream_reader (object_read E) I R W" "I r" "R r = body" using assms(1) by (auto simp: streams_def)
  show ?thesis using stream_reader.copy_part_all [OF s(1,2) _ assms(2), of IO_BUFFER_SIZE enc c t x] assms(3) s(3)
    by (simp add: IO_BUFFER_SIZE_def)
qed

lemma part_stream:
  assumes "upload_at E st b u um ck ps (w_root w)" "w_faults w = []" "ps n = Some (pm, body)"
    and "upload_dek_opt E st (um_encryption_spec um) ck = Inr dek"
  shows "\<exists>r. open_part E st b u dek pm w = (Inr r, w) \<and> streams E r body"
proof -
  let ?d = "udir st b u"
  note a = assms(1) [unfolded upload_at_def]
  have p: "part_at E st b u um ck (w_root w) n pm body" using a assms(3) by blast
  then obtain ct where ct: "lookup (?d @ [show_nat n]) (w_root w) = Some (File ct)"
      "part_sealed E st (um_encryption_spec um) ck u n body ct"
    and pm: "pm_part_number pm = n" "pm_size pm = length body" "pm_encrypted pm = (um_encryption_spec um \<noteq> None)"
    by (auto simp: part_at_def)
  have pl: "plain (?d @ [show_nat n])" using upload_plain [OF assms(1)] part_names(5) [of n] by auto
  have rd: "io (fs_read (?d @ [show_nat n])) w = (Inr ct, w)"
    using assms(2) read_at_File [OF pl ct(1)] by (simp add: io_def map_err_act_def fs_read_def query_quiet)
  have path: "part_path (st_buckets_dir st) b u n = ?d @ [show_nat n]" using a by (simp add: upload_paths)
  show ?thesis
  proof (cases "um_encryption_spec um")
    case None
    then have "open_part E st b u dek pm w = (Inr (MemStream body), w)"
      using pm ct(2) rd by (simp add: open_part_def path bind_act_def ok_def part_sealed_def)
    moreover have "streams E (MemStream body) body"
      by (rule streams_wrapped [OF cursor.stream_reader_axioms]) (simp_all add: inj_on_def)
    ultimately show ?thesis by blast
  next
    case (Some spec)
    let ?aad = "part_aad_builder (e_sha256 E) u n"
    obtain k pre where k: "upload_key E st spec ck k pre" and len: "length body \<le> 2 ^ 32 * FRAME_CHUNK_SIZE"
      and enc: "encode_frames (e_enc E) k pre ?aad 0 (chunks_of FRAME_CHUNK_SIZE body) = Inr ct"
      using ct(2) Some by (auto simp: part_sealed_def)
    note k' = k [unfolded upload_key_def]
    have dek: "dek = Some k" using assms(4) Some k' by (simp add: upload_dek_opt_def)
    have ae: "aead_roundtrip (e_enc E) (e_dec E)" and l: "length k = 32" "length body < 2 ^ 64"
      using k' len by (auto simp: FRAME_CHUNK_SIZE_def)
    let ?dd = "FrameDecryptor_new ct k (length body) FRAME_CHUNK_SIZE ?aad"
    have d: "cursor.dec_inv (e_enc E) pre body ?dd" "dec_rest body ?dd = body"
      using cursor.for_range_stream [OF ae l, of 0 "length body" pre ?aad ct ct] enc
      by (simp_all add: FrameDecryptor_new_def)
    have "open_part E st b u dek pm w = (Inr (FrameStream ?dd), w)"
      using pm Some dek rd by (simp add: open_part_def path bind_act_def ok_def lift_res_def)
    moreover have "streams E (FrameStream ?dd) body"
      by (rule streams_wrapped [OF cursor.decryptor_stream [OF ae] _ _ d]) (simp_all add: inj_on_def)
    ultimately show ?thesis by blast
  qed
qed

text \<open>Hexadecimal digits are read back and contain no quotes.\<close>

definition hex_law :: "env \<Rightarrow> bool" where
  "hex_law E \<longleftrightarrow> (\<forall>x. e_unhex E (e_hex E x) = Some x \<and> CHR 0x22 \<notin> set (e_hex E x))"

lemma trim_matches_quoted: "c \<notin> set h \<Longrightarrow> trim_matches c (c # h @ [c]) = h"
proof -
  assume a: "c \<notin> set h"
  have id: "c \<notin> set t \<Longrightarrow> dropWhile ((=) c) t = t" for t by (cases t) auto
  have "dropWhile ((=) c) (h @ [c]) = (if h = [] then [] else h @ [c])" using a by (cases h) auto
  then show ?thesis using a id [of "rev h"] by (simp add: trim_matches_def trim_start_matches_def trim_end_matches_def)
qed

lemma part_md5_calm:
  assumes "hex_law E" "pm_etag pm = etag_of E body"
  shows "part_md5 E pm = Inr (e_md5 E body)"
proof -
  have "trim_matches CHR 0x22 (etag_of E body) = e_hex E (e_md5 E body)"
    using assms(1) by (simp add: etag_of_def trim_matches_quoted hex_law_def)
  then show ?thesis using assms by (simp add: part_md5_def hex_law_def)
qed

lemma copy_parts_calm:
  assumes "upload_at E st b u um ck ps (w_root w)" "w_faults w = []" "hex_law E"
    and "upload_dek_opt E st (um_encryption_spec um) ck = Inr dek"
    and "\<forall>(pm, body) \<in> set sel. ps (pm_part_number pm) = Some (pm, body)"
    and "length (fw_buf fw) < FRAME_CHUNK_SIZE" "payload_spec enc c fw (concat (map snd sel)) = Inr x"
  shows "\<exists>fw'. copy_parts E st b u dek (copy_part (object_read E) IO_BUFFER_SIZE enc c) (map fst sel) fw h w
      = Some (Inr (fw', h @ concat (map (e_md5 E \<circ> snd) sel)), w)
    \<and> payload_spec enc c fw' [] = Inr x \<and> length (fw_buf fw') < FRAME_CHUNK_SIZE
    \<and> fw_size fw' = fw_size fw + length (concat (map snd sel))"
  using assms(5-7)
proof (induction sel arbitrary: fw h)
  case Nil
  then show ?case by (simp add: total_def ok_def)
next
  case (Cons e sel)
  obtain pm body where e: "e = (pm, body)" by (cases e)
  have ps: "ps (pm_part_number pm) = Some (pm, body)" using Cons.prems(1) e by simp
  obtain r where r: "open_part E st b u dek pm w = (Inr r, w)" "streams E r body"
    using part_stream [OF assms(1,2) ps assms(4)] by blast
  obtain fw1 where fw1: "copy_part (object_read E) IO_BUFFER_SIZE enc c r fw = Some (Inr fw1)"
      "payload_spec enc c fw1 (concat (map snd sel)) = Inr x" "length (fw_buf fw1) < FRAME_CHUNK_SIZE"
      "fw_size fw1 = fw_size fw + length body"
    using streams_copied [OF r(2) Cons.prems(2), of enc c "concat (map snd sel)" x] Cons.prems(3) e by auto
  have "pm_etag pm = etag_of E body" using assms(1) ps by (auto simp: upload_at_def part_at_def)
  then have md: "part_md5 E pm = Inr (e_md5 E body)" by (rule part_md5_calm [OF assms(3)])
  show ?case
    using Cons.IH [OF _ fw1(3,2), of "h @ e_md5 E body"] Cons.prems(1) e r(1) fw1(1,4) md
    by (auto simp: bind_p_def total_def lift_opt_def lift_res_def ok_def)
qed

section \<open>The directories of keys and of uploads\<close>

lemma tmp_not_uploads [simp]: "tmp_name u \<noteq> ''.uploads''" "''.uploads'' \<noteq> tmp_name u"
  by (simp_all add: tmp_name_def)

lemma upload_apart:
  assumes "good_key b k" "x \<noteq> ''.uploads''"
  shows "apart (kdir st b k @ [x]) (udir st b u @ q)" "\<not> prefix (udir st b u @ q) (kdir st b k)"
proof -
  have s: "s \<noteq> ''.uploads''" if "butlast (segs k) = s # ss" for s ss
  proof -
    have "s \<in> set (segs k)" using that by (metis in_set_butlastD list.set_intros(1))
    then have "\<not> is_reserved_segment s" using valid_key_facts(3) good_key_simps(2) [OF assms(1)] by blast
    then show ?thesis by (auto simp: is_reserved_segment_def)
  qed
  show "apart (kdir st b k @ [x]) (udir st b u @ q)"
  proof (cases "butlast (segs k)")
    case Nil
    with assms(2) show ?thesis by (simp add: key_dir_def udir_def apart_def)
  next
    case (Cons y ys)
    with s [OF Cons] show ?thesis by (simp add: key_dir_def udir_def apart_def)
  qed
  show "\<not> prefix (udir st b u @ q) (kdir st b k)"
    using s by (cases "butlast (segs k)") (auto simp: key_dir_def udir_def)
qed

lemma upload_kept:
  assumes "good_key b k" "''.uploads'' \<notin> xs" "kept_outside (kdir st b k) xs t t'"
  shows "lookup (udir st b u @ q) t' = lookup (udir st b u @ q) t"
proof -
  have "\<forall>x\<in>xs. apart (kdir st b k @ [x]) (udir st b u @ q)" using upload_apart(1) [OF assms(1)] assms(2) by metis
  then show ?thesis using assms(3) upload_apart(2) [OF assms(1), of "[]"] by (auto simp: kept_outside_def)
qed

lemma upload_at_kept:
  assumes "upload_at E st b u um ck ps t" "good_key b k" "''.uploads'' \<notin> xs" "kept_outside (kdir st b k) xs t t'" "store_ok st t'"
  shows "upload_at E st b u um ck ps t'"
proof -
  note look = upload_kept [OF assms(2-4), of u]
  have d: "is_dir_at (udir st b u @ q) t' = is_dir_at (udir st b u @ q) t" for q by (simp add: is_dir_at_def look)
  show ?thesis
    using assms(1,5) d [of "[]"] unfolding upload_at_def part_at_def look by (auto simp: d)
qed

lemma kept_within: "within d xs t t' \<Longrightarrow> kept_outside d xs t t'"
  by (simp add: kept_outside_def within_def)

lemma kept_trans: "kept_outside d xs t u \<Longrightarrow> kept_outside d xs u v \<Longrightarrow> kept_outside d xs t v"
  by (simp add: kept_outside_def)

lemma kept_mono: "kept_outside d xs t u \<Longrightarrow> xs \<subseteq> ys \<Longrightarrow> kept_outside d ys t u"
  unfolding kept_outside_def by blast

section \<open>Completing an upload\<close>

lemma select_calm:
  assumes "upload_at E st b u um ck ps (w_root w)" "w_faults w = []"
    and "\<forall>(pm, body) \<in> set sel. ps (pm_part_number pm) = Some (pm, body)"
    and "\<forall>(pm, body) \<in> set (butlast sel). 5 * 1024 * 1024 \<le> length body"
  shows "select_parts E st b u (map (\<lambda>(pm, _). (pm_part_number pm, pm_etag pm)) sel) w = (Inr (map fst sel), w)"
  using assms(3,4)
proof (induction sel)
  case Nil
  then show ?case by (simp add: ok_def)
next
  case (Cons e sel)
  obtain pm body where e: "e = (pm, body)" by (cases e)
  have ps: "ps (pm_part_number pm) = Some (pm, body)" using Cons.prems(1) e by simp
  have sz: "pm_size pm = length body" using assms(1) ps by (auto simp: upload_at_def part_at_def)
  have big: "sel \<noteq> [] \<Longrightarrow> 5 * 1024 * 1024 \<le> pm_size pm" using Cons.prems(2) e sz by auto
  have "select_parts E st b u (map (\<lambda>(pm, _). (pm_part_number pm, pm_etag pm)) sel) w = (Inr (map fst sel), w)"
    using Cons by (cases sel) auto
  then show ?case
    using e read_part_calm [OF assms(1,2) ps] big by (auto simp: bind_act_def ok_def)
qed

definition final_requests :: "UploadEncryptionSpec option \<Rightarrow> bytes option \<Rightarrow> StorageError + EncryptionRequest option" where
  "final_requests spec ck = (case spec of None \<Rightarrow> Inr None | Some s \<Rightarrow> bind_res (final_request s ck) (\<lambda>r. Inr (Some r)))"

lemma final_encryption_calm:
  assumes "final_requests spec ck = Inr encryption" "ck = customer_key_of encryption"
    and "new_cipher_opt E st b k vid encryption w = (Inr c, w')"
  shows "\<exists>e. final_encryption E st spec ck w = (Inr e, w') \<and> map_option (object_cipher E b k vid) e = c"
proof (cases spec)
  case None
  with assms show ?thesis by (auto simp: final_requests_def final_encryption_def new_cipher_opt_def ok_def)
next
  case (Some s)
  then obtain req where req: "final_request s ck = Inr req" "encryption = Some req"
    using assms(1) by (cases "final_request s ck") (auto simp: final_requests_def)
  let ?rnd = "e_rnd E (w_draws w)"
  obtain em where em: "prepare_encryption (e_enc E) (e_b64 E) (e_md5 E) ?rnd (st_keys st) req = Inr em"
    using assms(3) req(2)
    by (cases "prepare_encryption (e_enc E) (e_b64 E) (e_md5 E) ?rnd (st_keys st) req")
      (auto simp: new_cipher_opt_def new_cipher_def act_defs as_encryption_error_def)
  obtain dek where dek: "resolve_dek (e_dec E) (e_b64 E) (e_md5 E) (st_keys st) em (er_customer_key req) = Inr dek"
    using assms(3) req(2) em
    by (cases "resolve_dek (e_dec E) (e_b64 E) (e_md5 E) (st_keys st) em (er_customer_key req)")
      (auto simp: new_cipher_opt_def new_cipher_def act_defs as_encryption_error_def)
  show ?thesis
    using assms(2,3) req em dek Some
    by (auto simp: new_cipher_opt_def new_cipher_def final_encryption_def act_defs as_encryption_error_def object_cipher_def
        split: sum.splits)
qed

text \<open>The record of the completed object.\<close>

definition completed_meta ::
  "env \<Rightarrow> MultipartUploadMeta \<Rightarrow> (PartMeta \<times> bytes) list \<Rightarrow> string \<Rightarrow> (EncryptionMeta \<times> bytes \<times> cipher) option \<Rightarrow> ObjectMeta" where
  "completed_meta E um sel now c =
     seal_opt E c (multipart_meta E um (map fst sel) (length (concat (map snd sel))) (concat (map (e_md5 E \<circ> snd) sel))
       now None None (map_option fst c))"

lemma sealed_meta_for:
  assumes "c \<noteq> None \<longrightarrow> (\<forall>dek m. e_hmac E dek m \<noteq> [])"
    and "om_size m = length body" "om_version_id m = vid" "om_encryption m = map_option fst c"
  shows "meta_for E vid c body (seal_opt E c m)"
proof (cases c)
  case None
  with assms show ?thesis by (simp add: meta_for_def seal_opt_def)
next
  case (Some x)
  obtain em dek cph where x: "x = (em, dek, cph)" by (cases x)
  have "verify_sidecar_mac (e_hmac E) (seal_meta (e_hmac E) dek m) dek = Inr ()"
    using sealed_verifies [of m "e_hmac E" dek] assms Some x by simp
  then show ?thesis
    using assms(2-4) Some x by (auto simp: meta_for_def seal_opt_def seal_meta_def Let_def)
qed

lemma completed_meta_for:
  assumes "c \<noteq> None \<longrightarrow> (\<forall>dek m. e_hmac E dek m \<noteq> [])"
  shows "meta_for E None c (concat (map snd sel)) (completed_meta E um sel now c)"
  unfolding completed_meta_def
  by (rule sealed_meta_for [OF assms]) (simp_all add: multipart_meta_def upload_meta_def plain_object_meta_def split: prod.split)

text \<open>The payload is written, stamped and published.\<close>

lemma install_completed:
  fixes mk :: "string \<Rightarrow> ObjectMeta"
  assumes "stage E st b m k w" "good_key b k" "tp = tmp_name (e_uuid E j)" "j < w_draws w"
    and "view (kdir st b k) (w_root w) tp = Some (File x)"
    and "has_kind False (view (kdir st b k) (w_root w) (base_name k @ ''.meta.json''))"
  defines "meta \<equiv> mk (e_fmt E (e_micros E (w_draws w)))"
  shows "\<exists>w' c'. bind_act (io (fs_write (kdir st b k @ [tp]) ct)) (\<lambda>_.
        bind_act (now_string E) (\<lambda>now.
        bind_act (publish_upload E st b k (mk now) (kdir st b k @ [tp]) (kdir st b k @ [base_name k]) False) (\<lambda>_. ok (mk now)))) w
        = (Inr meta, w')
    \<and> stage E st b m k w' \<and> c' \<in> later_names (e_uuid E) (w_draws w)
    \<and> within (kdir st b k) ({base_name k, base_name k @ ''.meta.json'', tp} \<union> later_names (e_uuid E) (w_draws w)) (w_root w) (w_root w')
    \<and> (\<forall>z. view (kdir st b k) (w_root w') z =
        (if z = base_name k then Some (File ct) else if z = base_name k @ ''.meta.json'' then Some (File (fst (e_object E) meta))
         else if z = tp then None
         else if z = c' \<and> \<not> has_kind False (view (kdir st b k) (w_root w) (base_name k))
         then view (kdir st b k) (w_root w) (base_name k)
         else view (kdir st b k) (w_root w) z))"
proof -
  let ?d = "kdir st b k" and ?t = "w_root w" and ?fm = "base_name k @ ''.meta.json''"
  note s = assms(1) [unfolded stage_def]
  have d: "is_dir_at ?d ?t" "plain ?d" using s key_dir_plain [OF assms(2)] by (auto simp: store_ok_def)
  have inj: "inj (e_uuid E)" using s by (simp add: fresh_names_def)
  define w1 where "w1 = w\<lparr>w_root := set_node (?d @ [tp]) (Some (File ct)) ?t\<rparr>"
  define w2 where "w2 = w1\<lparr>w_draws := Suc (w_draws w)\<rparr>"
  have tpn: "tp \<notin> later_names (e_uuid E) (w_draws w)" "tp \<noteq> ''.bucket.json''" "tp \<noteq> ''..''"
    using inj assms(3,4) by auto
  have tpf: "tp \<noteq> base_name k" "tp \<noteq> ?fm" using names_differ(1) [OF assms(2)] meta_not_tmp [OF assms(2)] assms(3) by metis+
  have wr: "io (fs_write (?d @ [tp]) ct) w = (Inr (), w1)"
    unfolding w1_def by (rule write_calm [OF _ d tpn(3)]) (use s assms(5) in \<open>auto simp: is_dir_at_def\<close>)
  have s1: "stage E st b m k w1" unfolding w1_def by (rule stage_set [OF assms(1,2) tpn(2,1)])
  have s2: "stage E st b m k w2" unfolding w2_def using stage_draws [OF s1, of "Suc (w_draws w)"] by (simp add: w1_def)
  have v2: "view ?d (w_root w2) z = (if z = tp then Some (File ct) else view ?d ?t z)" for z
    using d by (simp add: w2_def w1_def)
  have now: "now_string E w1 = (Inr (e_fmt E (e_micros E (w_draws w))) :: StorageError + string, w2)"
    by (simp add: now_string_def bind_act_def draw_def ok_def w2_def w1_def)
  have sub: "later_names (e_uuid E) (w_draws w2) \<subseteq> later_names (e_uuid E) (w_draws w)"
    by (rule later_names_mono) (simp add: w2_def w1_def)
  have "\<exists>w' c'. publish_upload E st b k meta (?d @ [tp]) (?d @ [base_name k]) False w2 = (Inr (), w')
    \<and> stage E st b m k w' \<and> c' \<in> later_names (e_uuid E) (w_draws w2)
    \<and> within ?d ({base_name k, ?fm, tp} \<union> later_names (e_uuid E) (w_draws w2)) (w_root w2) (w_root w')
    \<and> (\<forall>z. view ?d (w_root w') z =
      (if z = base_name k then Some (File ct) else if z = ?fm then Some (File (fst (e_object E) meta))
       else if z = tp then None
       else if z = c' \<and> \<not> has_kind False (view ?d (w_root w2) (base_name k)) then view ?d (w_root w2) (base_name k)
       else view ?d (w_root w2) z))"
    using assms(4,6) tpf
    by (intro publish_upload_calm [OF s2 assms(2) _ _ assms(3)]) (auto simp: v2 has_kind_def, simp add: w2_def)
  then obtain w' c' where pu: "publish_upload E st b k meta (?d @ [tp]) (?d @ [base_name k]) False w2 = (Inr (), w')"
    and w': "stage E st b m k w'" "c' \<in> later_names (e_uuid E) (w_draws w2)"
      "within ?d ({base_name k, ?fm, tp} \<union> later_names (e_uuid E) (w_draws w2)) (w_root w2) (w_root w')"
    and v': "\<forall>z. view ?d (w_root w') z =
      (if z = base_name k then Some (File ct) else if z = ?fm then Some (File (fst (e_object E) meta))
       else if z = tp then None
       else if z = c' \<and> \<not> has_kind False (view ?d (w_root w2) (base_name k)) then view ?d (w_root w2) (base_name k)
       else view ?d (w_root w2) z)" by blast
  have "within ?d ({base_name k, ?fm, tp} \<union> later_names (e_uuid E) (w_draws w)) ?t (w_root w2)"
    using d by (auto simp: w2_def w1_def intro!: within_set within_refl)
  then have "within ?d ({base_name k, ?fm, tp} \<union> later_names (e_uuid E) (w_draws w)) ?t (w_root w')"
    by (rule within_trans) (use sub in \<open>intro within_mono [OF w'(3)], blast\<close>)
  moreover have "\<forall>z. view ?d (w_root w') z =
      (if z = base_name k then Some (File ct) else if z = ?fm then Some (File (fst (e_object E) meta))
       else if z = tp then None
       else if z = c' \<and> \<not> has_kind False (view ?d ?t (base_name k)) then view ?d ?t (base_name k)
       else view ?d ?t z)"
    using v' v2 tpf by auto
  moreover have "bind_act (io (fs_write (?d @ [tp]) ct)) (\<lambda>_. bind_act (now_string E) (\<lambda>now.
        bind_act (publish_upload E st b k (mk now) (?d @ [tp]) (?d @ [base_name k]) False) (\<lambda>_. ok (mk now)))) w
      = (Inr meta, w')"
    using pu by (simp add: bind_act_def wr now ok_def meta_def)
  ultimately show ?thesis using w'(1,2) sub by blast
qed

text \<open>Removing the directory of the upload leaves the directory of the key as it is.\<close>

lemma remove_upload_calm:
  assumes "stage E st b m k w" "good_key b k" "good_upload_id u" "is_dir_at (udir st b u) (w_root w)"
  shows "\<exists>w'. remove_upload st b u w = (Inr (), w') \<and> stage E st b m k w' \<and> lookup (udir st b u) (w_root w') = None
    \<and> (\<forall>z. z \<noteq> ''.uploads'' \<longrightarrow> view (kdir st b k) (w_root w') z = view (kdir st b k) (w_root w) z)"
proof -
  let ?u = "udir st b u" and ?d = "kdir st b k"
  note s = assms(1) [unfolded stage_def] and gk = good_key_simps [OF assms(2)]
  have pl: "plain ?u"
    using s valid_bucket_plain [OF gk(1)] good_upload_plain [OF assms(3)] by (auto simp: udir_def store_ok_def)
  have ne: "?u \<noteq> []" by (simp add: udir_def)
  obtain es where es: "lookup ?u (w_root w) = Some (Dir es)" using assms(4) by (auto simp: is_dir_at_Dir)
  define w' where "w' = w\<lparr>w_root := set_node ?u None (w_root w)\<rparr>"
  have run: "remove_upload st b u w = (Inr (), w')"
    using s upload_paths(1) [OF gk(1) assms(3), of st] rmtree_at_ok [OF pl ne es]
    by (simp add: remove_upload_def io_def map_err_act_def fs_remove_dir_all_def change_quiet w'_def)
  have v: "view ?d (w_root w') z = view ?d (w_root w) z" if "z \<noteq> ''.uploads''" for z
    using upload_apart(1) [OF assms(2) that, of st u "[]"] apart_sym by (auto simp: w'_def lookup_set_apart)
  have gone: "lookup ?u (w_root w') = None"
    using lookup_set_same [of ?u "w_root w" None] exists_parent [OF es ne] ne by (simp add: w'_def)
  have bm: "apart ?u (st_buckets_dir st @ [b, ''.bucket.json''])" by (simp add: udir_def apart_def)
  have "is_dir_at ?d (w_root w')"
    using s upload_apart(2) [OF assms(2), of "[]" st u "[]"] by (auto simp: w'_def intro!: is_dir_at_set)
  moreover have "is_dir_at (st_buckets_dir st) (w_root w')"
    using s by (auto simp: w'_def udir_def store_ok_def intro!: is_dir_at_set_above)
  moreover have "fresh_names (e_uuid E) ?d w'" using s v by (auto simp: fresh_names_def w'_def)
  ultimately have "stage E st b m k w'"
    using s bm unfolding stage_def store_ok_def bucket_at_def gk(9) by (simp add: w'_def lookup_set_apart)
  then show ?thesis using run gone v by blast
qed

text \<open>
  The whole of the completion: the selected parts, in the order of the request, become the payload
  of the object, and the directory of the upload is removed.
\<close>

definition may_complete ::
  "env \<Rightarrow> FilesystemStorage \<Rightarrow> UploadEncryptionSpec option \<Rightarrow> bytes option \<Rightarrow> EncryptionRequest option \<Rightarrow> nat \<Rightarrow> bool" where
  "may_complete E st spec ck encryption sz \<longleftrightarrow>
     hex_law E \<and> final_requests spec ck = Inr encryption \<and> ck = customer_key_of encryption \<and> can_encrypt E st encryption sz
     \<and> check_sse_c_continuity E spec ck = Inr () \<and> (\<exists>dek. upload_dek_opt E st spec ck = Inr dek)
     \<and> check_object_size (st_quota st) sz = Inr () \<and> check_disk_reserve (st_quota st) (e_disk E 0) = Inr ()"

definition requested_parts :: "(PartMeta \<times> bytes) list \<Rightarrow> (nat \<times> string) list" where
  "requested_parts sel = map (\<lambda>(pm, _). (pm_part_number pm, pm_etag pm)) sel"

lemma complete_flat_calm:
  assumes "upload_at E st b u um ck ps (w_root w)" "upload_ready E st b m (um_key um) w" "\<not> bm_versioning m"
    and "may_complete E st (um_encryption_spec um) ck encryption (length (concat (map snd sel)))"
    and "\<forall>(pm, body) \<in> set sel. ps (pm_part_number pm) = Some (pm, body)"
    and "has_kind False (view (kdir st b (um_key um)) (w_root w) (base_name (um_key um) @ ''.meta.json''))"
  shows "\<exists>w' now c ct c'. complete_flat E st b u um (map fst sel) ck w = Some (Inr (put_result (completed_meta E um sel now c)), w')
    \<and> sealed_as E st b (um_key um) None encryption c (concat (map snd sel)) ct
    \<and> stage E st b m (um_key um) w' \<and> lookup (udir st b u) (w_root w') = None \<and> c' \<in> later_names (e_uuid E) (w_draws w)
    \<and> (\<forall>z. z \<noteq> ''.uploads'' \<longrightarrow> view (kdir st b (um_key um)) (w_root w') z =
      (if z = base_name (um_key um) then Some (File ct)
       else if z = base_name (um_key um) @ ''.meta.json'' then Some (File (fst (e_object E) (completed_meta E um sel now c)))
       else if z = c' \<and> \<not> has_kind False (view (kdir st b (um_key um)) (w_root w) (base_name (um_key um)))
       then view (kdir st b (um_key um)) (w_root w) (base_name (um_key um))
       else view (kdir st b (um_key um)) (w_root w) z))"
proof -
  let ?k = "um_key um" and ?body = "concat (map snd sel)" and ?spec = "um_encryption_spec um"
  let ?d = "kdir st b (um_key um)" and ?t = "w_root w" and ?fm = "base_name (um_key um) @ ''.meta.json''"
  note mc = assms(4) [unfolded may_complete_def] and r = assms(2) [unfolded upload_ready_def]
  have gk': "good_key b ?k" using r by simp
  note gk = good_key_simps [OF gk']
  have inj: "inj (e_uuid E)" using r by (simp add: fresh_names_def)
  obtain dek where dek: "upload_dek_opt E st ?spec ck = Inr dek" using mc by blast
  obtain c n ct where c: "new_cipher_opt E st b ?k None encryption w = (Inr c, w\<lparr>w_draws := n\<rparr>)" "w_draws w \<le> n"
    and ct: "sealed_as E st b ?k None encryption c ?body ct" "payload_spec (e_enc E) (map_option (snd \<circ> snd) c) fw_new ?body = Inr ct"
    using new_cipher_calm mc by blast
  obtain e where e: "final_encryption E st ?spec ck w = (Inr e, w\<lparr>w_draws := n\<rparr>)" "map_option (object_cipher E b ?k None) e = c"
    using final_encryption_calm [OF _ _ c(1)] mc by blast
  have flags: "try_each (check_part_flag (?spec \<noteq> None)) (map fst sel) = Inr ()"
  proof -
    have "check_part_flag (?spec \<noteq> None) pm = Inr ()" if "pm \<in> set (map fst sel)" for pm
    proof -
      from that obtain body where "(pm, body) \<in> set sel" by auto
      then have "ps (pm_part_number pm) = Some (pm, body)" using assms(5) by auto
      then have "pm_encrypted pm = (?spec \<noteq> None)" using assms(1) by (auto simp: upload_at_def part_at_def)
      then show ?thesis by (simp add: check_part_flag_def)
    qed
    then show ?thesis by (induction sel) auto
  qed
  have nv: "new_version E st b (w\<lparr>w_draws := n\<rparr>) = (Inr None, w\<lparr>w_draws := n\<rparr>)"
    using ready_versioned [OF ready_draws [OF assms(2) c(2)]] assms(3) by (simp add: new_version_def act_defs)
  let ?S = "{base_name ?k, ?fm} \<union> later_names (e_uuid E) (w_draws w)"
  obtain t1 where cp: "create_parent (?d @ [base_name ?k]) (w\<lparr>w_draws := n\<rparr>) = (Inr (), w\<lparr>w_draws := n, w_root := t1\<rparr>)"
    and s1: "stage E st b m ?k (w\<lparr>w_draws := n, w_root := t1\<rparr>)" and v1: "\<And>z. view ?d t1 z = view ?d ?t z"
    and k1: "kept_outside ?d ?S ?t t1"
    using prepare_dir [OF ready_draws [OF assms(2) c(2)], of "base_name ?k" ?S] by auto
  define tp where "tp = tmp_name (e_uuid E n)"
  define w2 where "w2 = w\<lparr>w_root := t1, w_draws := Suc n\<rparr>"
  define w3 where "w3 = w2\<lparr>w_root := set_node (?d @ [tp]) (Some (File [])) t1\<rparr>"
  have s2: "stage E st b m ?k w2" using stage_draws [OF s1, of "Suc n"] by (simp add: w2_def)
  have d: "is_dir_at ?d t1" "plain ?d" using s2 key_dir_plain [OF gk'] by (auto simp: stage_def store_ok_def w2_def)
  have tpn: "tp \<notin> later_names (e_uuid E) (w_draws w2)" "tp \<noteq> ''.bucket.json''" "tp \<noteq> ''..''" "tp \<noteq> ''.uploads''"
    using inj by (auto simp: tp_def w2_def)
  have tpf: "tp \<noteq> base_name ?k" "tp \<noteq> ?fm" using names_differ(1) [OF gk'] meta_not_tmp [OF gk'] unfolding tp_def by metis+
  have tpv: "view ?d ?t tp = None" using r c(2) by (simp add: tp_def fresh_names_def)
  have wr: "io (fs_write (?d @ [tp]) []) w2 = (Inr (), w3)"
    unfolding w3_def using write_calm [of w2 ?d tp "[]"] r d tpn(3) tpv v1 by (simp add: w2_def is_dir_at_def)
  have s3: "stage E st b m ?k w3" unfolding w3_def using stage_set [OF s2 gk' tpn(2,1)] by (simp add: w2_def)
  have v3: "view ?d (w_root w3) z = (if z = tp then Some (File []) else view ?d ?t z)" for z
    using d v1 by (simp add: w3_def)
  have Su: "''.uploads'' \<notin> ?S" "tp \<in> ?S"
    using gk(11) c(2) inj by (auto simp: later_names_def tp_def is_reserved_segment_def append_eq_Cons_conv)
  have k3: "kept_outside ?d ?S ?t (w_root w3)"
    by (rule kept_trans [OF k1], rule kept_within) (use d Su(2) in \<open>auto simp: w3_def intro!: within_set within_refl\<close>)
  have u3: "upload_at E st b u um ck ps (w_root w3)"
    by (rule upload_at_kept [OF assms(1) gk' Su(1) k3]) (use s3 in \<open>simp add: stage_def\<close>)
  obtain fw where fw: "copy_parts E st b u dek (copy_part (object_read E) IO_BUFFER_SIZE (e_enc E) (map_option (snd \<circ> snd) c)) (map fst sel) fw_new [] w3
      = Some (Inr (fw, concat (map (e_md5 E \<circ> snd) sel)), w3)"
    "payload_spec (e_enc E) (map_option (snd \<circ> snd) c) fw [] = Inr ct" "length (fw_buf fw) < FRAME_CHUNK_SIZE" "fw_size fw = length ?body"
    using copy_parts_calm [OF u3 _ _ dek assms(5) _ ct(2), of "[]"] mc s3 FRAME_CHUNK_SIZE_pos by (auto simp: fw_new_def stage_def)
  obtain fw' where fl: "flush_frame (e_enc E) (map_option (snd \<circ> snd) c) fw = Inr fw'" "fw_out fw' = ct" "fw_size fw' = length ?body"
    using flush_frame_spec [OF fw(3), of "e_enc E" "map_option (snd \<circ> snd) c"] fw(2,4)
    by (cases "flush_frame (e_enc E) (map_option (snd \<circ> snd) c) fw") auto
  let ?mk = "\<lambda>now. completed_meta E um sel now c"
  have "has_kind False (view ?d (w_root w3) ?fm)" using assms(6) v3 tpf by auto
  moreover have "n < w_draws w3" by (simp add: w3_def w2_def)
  moreover have "view ?d (w_root w3) tp = Some (File [])" using v3 by simp
  ultimately obtain w4 c' where
    run: "bind_act (io (fs_write (?d @ [tp]) ct)) (\<lambda>_. bind_act (now_string E) (\<lambda>now.
        bind_act (publish_upload E st b ?k (?mk now) (?d @ [tp]) (?d @ [base_name ?k]) False) (\<lambda>_. ok (?mk now)))) w3
        = (Inr (?mk (e_fmt E (e_micros E (w_draws w3)))), w4)"
    and w4: "stage E st b m ?k w4" "c' \<in> later_names (e_uuid E) (w_draws w3)"
      "within ?d ({base_name ?k, ?fm, tp} \<union> later_names (e_uuid E) (w_draws w3)) (w_root w3) (w_root w4)"
    and v4: "\<forall>z. view ?d (w_root w4) z =
        (if z = base_name ?k then Some (File ct)
         else if z = ?fm then Some (File (fst (e_object E) (?mk (e_fmt E (e_micros E (w_draws w3))))))
         else if z = tp then None
         else if z = c' \<and> \<not> has_kind False (view ?d (w_root w3) (base_name ?k)) then view ?d (w_root w3) (base_name ?k)
         else view ?d (w_root w3) z)"
    using install_completed [OF s3 gk' tp_def, where mk = ?mk and ct = ct] by blast
  define meta where "meta = ?mk (e_fmt E (e_micros E (w_draws w3)))"
  have "lookup (udir st b u) (w_root w4) = lookup (udir st b u) (w_root w3)"
    using upload_kept [OF gk' _ kept_within [OF w4(3)], of u "[]"] tpn(4) gk(11)
    by (auto simp: later_names_def is_reserved_segment_def append_eq_Cons_conv)
  then have "is_dir_at (udir st b u) (w_root w4)" using u3 by (simp add: upload_at_def is_dir_at_def)
  then obtain w5 where rm: "remove_upload st b u w4 = (Inr (), w5)" and w5: "stage E st b m ?k w5" "lookup (udir st b u) (w_root w5) = None"
    and v5: "\<And>z. z \<noteq> ''.uploads'' \<Longrightarrow> view ?d (w_root w5) z = view ?d (w_root w4) z"
  proof -
    assume there: "is_dir_at (udir st b u) (w_root w4)"
    have "good_upload_id u" using assms(1) by (simp add: upload_at_def)
    from remove_upload_calm [OF w4(1) gk' this there] that show thesis by blast
  qed
  have tail: "bind_act (lift_res (flush_frame (e_enc E) (map_option (snd \<circ> snd) c) fw)) (\<lambda>fw.
      bind_act (io (fs_write (?d @ [tp]) (fw_out fw))) (\<lambda>_. bind_act (now_string E) (\<lambda>now.
      bind_act (publish_upload E st b ?k (seal_opt E c (multipart_meta E um (map fst sel) (fw_size fw)
        (concat (map (e_md5 E \<circ> snd) sel)) now None None (map_option fst c))) (?d @ [tp]) (?d @ [base_name ?k]) False)
       (\<lambda>_. ok (seal_opt E c (multipart_meta E um (map fst sel) (fw_size fw)
        (concat (map (e_md5 E \<circ> snd) sel)) now None None (map_option fst c))))))) w3 = (Inr meta, w4)"
    using run fl by (simp add: completed_meta_def meta_def)
  have cont: "check_sse_c_continuity E ?spec ck = Inr ()" using mc by blast
  have head: "bind_act (lift_res (check_sse_c_continuity E ?spec ck)) (\<lambda>_.
      bind_act (lift_res (try_each (check_part_flag (?spec \<noteq> None)) (map fst sel))) (\<lambda>_.
      bind_act (lift_res (upload_dek_opt E st ?spec ck)) (\<lambda>upload_dek.
      bind_act (final_encryption E st ?spec ck) (\<lambda>enc.
      bind_act (new_version E st b) (\<lambda>version_id.
        ok (upload_dek, map_option (object_cipher E b ?k version_id) enc, version_id)))))) w
      = (Inr (dek, c, None), w\<lparr>w_draws := n\<rparr>)"
    unfolding cont flags dek bind_act_simps bind_act_ok [of "final_encryption E st ?spec ck", OF e(1)]
      bind_act_ok [of "new_version E st b", OF nv] e(2) ok_def ..
  have guarded: "guard_p (?d @ [tp]) False
      (bind_p (total (io (fs_write (?d @ [tp]) []))) (\<lambda>_.
       bind_p (copy_parts E st b u dek (copy_part (object_read E) IO_BUFFER_SIZE (e_enc E) (map_option (snd \<circ> snd) c)) (map fst sel) fw_new []) (\<lambda>(fw0, hashed).
         total (bind_act (lift_res (flush_frame (e_enc E) (map_option (snd \<circ> snd) c) fw0)) (\<lambda>fw.
           bind_act (io (fs_write (?d @ [tp]) (fw_out fw))) (\<lambda>_. bind_act (now_string E) (\<lambda>now.
           bind_act (publish_upload E st b ?k (seal_opt E c (multipart_meta E um (map fst sel) (fw_size fw) hashed now None None (map_option fst c)))
             (?d @ [tp]) (?d @ [base_name ?k]) False)
            (\<lambda>_. ok (seal_opt E c (multipart_meta E um (map fst sel) (fw_size fw) hashed now None None (map_option fst c)))))))))))
      w2 = Some (Inr meta, w4)"
    by (simp only: guard_p_def bind_p_def total_def wr fw(1) tail option.case prod.case sum.case)
  have tmp: "temp_sibling_path (e_uuid E) (?d @ [base_name ?k]) (w\<lparr>w_draws := n, w_root := t1\<rparr>) = (Inr (?d @ [tp]) :: StorageError + path, w2)"
    by (simp add: temp_sibling_path_def draw_def tp_def w2_def)
  have last: "bind_act (if None \<noteq> (None :: string option) then write_version E st b ?k meta (?d @ [base_name ?k]) else ok ()) (\<lambda>_.
      bind_act (remove_upload st b u) (\<lambda>_. ok (put_result meta))) w4 = (Inr (put_result meta), w5)"
    by (simp add: bind_act_ok [of "remove_upload st b u", OF rm] ok_def [of "put_result meta"])
  have "complete_flat E st b u um (map fst sel) ck w = Some (Inr (put_result meta), w5)"
    unfolding complete_flat_def Let_def gk(5)
    by (simp only: bind_p_def [of "total _"] total_def head cp tmp option.case prod.case sum.case)
      (simp only: bind_p_def [of "guard_p _ _ _"] guarded option.case prod.case sum.case total_def last)
  moreover have "\<forall>z. z \<noteq> ''.uploads'' \<longrightarrow> view ?d (w_root w5) z =
      (if z = base_name ?k then Some (File ct) else if z = ?fm then Some (File (fst (e_object E) meta))
       else if z = c' \<and> \<not> has_kind False (view ?d ?t (base_name ?k)) then view ?d ?t (base_name ?k) else view ?d ?t z)"
  proof -
    have "c' \<noteq> tp" using w4(2) tpn(1) by (auto simp: w3_def w2_def)
    then show ?thesis using v5 v4 v3 tpf tpv by (auto simp: meta_def)
  qed
  moreover have "c' \<in> later_names (e_uuid E) (w_draws w)"
    using w4(2) later_names_mono [of "w_draws w" "Suc n" "e_uuid E"] c(2) by (auto simp: w3_def w2_def)
  ultimately show ?thesis using ct(1) w5 unfolding meta_def by blast
qed

lemma complete_calm:
  assumes "upload_at E st b u um ck ps (w_root w)" "upload_ready E st b m (um_key um) w" "overwritable E st b (um_key um) w"
    and "flat_bucket st m" "sel \<noteq> []"
    and "may_complete E st (um_encryption_spec um) ck encryption (length (concat (map snd sel)))"
    and "\<forall>(pm, body) \<in> set sel. ps (pm_part_number pm) = Some (pm, body)"
    and "\<forall>(pm, body) \<in> set (butlast sel). 5 * 1024 * 1024 \<le> length body"
    and "\<not> is_dir_at (ec_dir (st_buckets_dir st) b (um_key um)) (w_root w)"
  shows "\<exists>w' now c ct. complete_multipart_upload E st b u (requested_parts sel) ck w =
        Some (Inr (put_result (completed_meta E um sel now c)), w')
    \<and> sealed_as E st b (um_key um) None encryption c (concat (map snd sel)) ct
    \<and> flat_at E st b (um_key um) w' ct (completed_meta E um sel now c)
    \<and> lookup (udir st b u) (w_root w') = None"
proof -
  let ?k = "um_key um"
  note r = assms(2) [unfolded upload_ready_def] and a = assms(1) [unfolded upload_at_def]
  have gk': "good_key b ?k" using r by simp
  note gk = good_key_simps [OF gk']
  obtain n1 where n1: "ensure_can_overwrite E st b ?k w = (Inr (), w\<lparr>w_draws := n1\<rparr>)" "w_draws w \<le> n1"
    using overwritable_calm [OF assms(2,3)] by blast
  let ?w1 = "w\<lparr>w_draws := n1\<rparr>"
  have r1: "upload_ready E st b m ?k ?w1" by (rule ready_draws [OF assms(2) n1(2)])
  have ec: "effective_erasure_coding E st b ?w1 = (Inr False, ?w1)"
    using effective_erasure_coding_ok [of E st ?w1 b m] r1 [unfolded upload_ready_def] gk assms(4) by (auto simp: flat_bucket_def)
  have u1: "upload_at E st b u um ck ps (w_root ?w1)" "w_faults ?w1 = []" using assms(1) r by simp_all
  have sz: "sum_list (map pm_size (map fst sel)) = length (concat (map snd sel))"
  proof -
    have "pm_size (fst e) = length (snd e)" if "e \<in> set sel" for e
      using that assms(7) a by (cases e) (auto simp: part_at_def)
    then have "map (pm_size \<circ> fst) sel = map (length \<circ> snd) sel" by auto
    then show ?thesis unfolding map_map length_concat by (rule arg_cong)
  qed
  have hk: "has_kind False (view (kdir st b ?k) (w_root ?w1) (base_name ?k @ ''.meta.json''))"
    using has_kind_overwritable [OF assms(3)] by simp
  have nv: "\<not> bm_versioning m" using assms(4) by (simp add: flat_bucket_def)
  obtain w' now c ct c' where
    run: "complete_flat E st b u um (map fst sel) ck ?w1 = Some (Inr (put_result (completed_meta E um sel now c)), w')"
    and w': "sealed_as E st b ?k None encryption c (concat (map snd sel)) ct" "stage E st b m ?k w'"
      "lookup (udir st b u) (w_root w') = None" "c' \<in> later_names (e_uuid E) (w_draws ?w1)"
    and v': "\<forall>z. z \<noteq> ''.uploads'' \<longrightarrow> view (kdir st b ?k) (w_root w') z =
      (if z = base_name ?k then Some (File ct)
       else if z = base_name ?k @ ''.meta.json'' then Some (File (fst (e_object E) (completed_meta E um sel now c)))
       else if z = c' \<and> \<not> has_kind False (view (kdir st b ?k) (w_root ?w1) (base_name ?k))
       then view (kdir st b ?k) (w_root ?w1) (base_name ?k)
       else view (kdir st b ?k) (w_root ?w1) z)"
    using complete_flat_calm [OF u1(1) r1 nv assms(6,7) hk] by (elim exE conjE) (rule that)
  have names: "base_name ?k \<noteq> ''.uploads''" "base_name ?k @ ''.meta.json'' \<noteq> ''.uploads''" "base_name ?k @ ''.ec'' \<noteq> ''.uploads''"
    "base_name ?k @ ''.ec'' \<noteq> c'" "base_name ?k @ ''.ec'' \<noteq> base_name ?k"
    using gk(11) w'(4) ec_not_tmp [OF gk'] by (auto simp: is_reserved_segment_def append_eq_Cons_conv later_names_def)
  have "\<not> is_dir_at (kdir st b ?k @ [base_name ?k @ ''.ec'']) (w_root w')"
    using assms(9) v' names names_differ(3) [OF gk'] unfolding gk(7) is_dir_at_def by simp
  then have "flat_at E st b ?k w' ct (completed_meta E um sel now c)"
    using w'(2) r gk' v' names names_differ(2) [OF gk'] by (simp add: flat_at_def stage_def)
  moreover have "complete_multipart_upload E st b u (requested_parts sel) ck w =
        Some (Inr (put_result (completed_meta E um sel now c)), w')"
    using gk a assms(5,6) n1(1) ec run sz read_upload_calm [OF assms(1)] r
      select_calm [OF u1 assms(7,8)]
    by (simp add: complete_multipart_upload_def bind_p_def total_def bind_act_def lift_res_def may_complete_def ok_def
        good_upload_id_def requested_parts_def)
  ultimately show ?thesis using w'(1,3) by blast
qed

end
