(* ===== verification/MultipartProps.thy ===== *)
theory MultipartProps
  imports MultipartLaws
begin

text \<open>
  Properties of multipart uploads: an upload keeps every part it acknowledged, completing it gives
  the concatenation of the requested parts, and what an upload identifier \<open>.\<close> aborts.
\<close>

section \<open>Starting an upload\<close>

text \<open>What a request for an encrypted upload needs: keys of the server, or a customer key that fits the recorded MD5.\<close>

definition spec_ready :: "env \<Rightarrow> FilesystemStorage \<Rightarrow> UploadEncryptionSpec \<Rightarrow> bytes option \<Rightarrow> bool" where
  "spec_ready E st spec ck \<longleftrightarrow>
     aead_roundtrip (e_enc E) (e_dec E) \<and> b64_law (e_b64 E) \<and> (\<forall>n. rnd_wf (e_rnd E n))
     \<and> (case ue_mode spec of
          SseS3 \<Rightarrow> \<exists>k. kr_keys (ks_keyring (st_keys st)) (kr_active_id (ks_keyring (st_keys st))) = Some k \<and> length k = 32
        | SseKms \<Rightarrow> \<exists>kms. ks_kms (st_keys st) = Some kms \<and> length (lk_master_key kms) = 32
        | SseC \<Rightarrow> \<exists>k. ck = Some k \<and> length k = 32 \<and> ue_customer_key_md5 spec = Some (fst (e_b64 E) (e_md5 E k)))"

lemma augment_spec_key:
  assumes "spec_ready E st spec ck"
  shows "\<exists>spec' dek. augment_spec E st (e_rnd E n) spec = Inr spec' \<and> upload_key E st spec' ck dek (rnd_prefix (e_rnd E n))
    \<and> ue_mode spec' = ue_mode spec"
proof -
  let ?r = "e_rnd E n"
  note s = assms [unfolded spec_ready_def]
  have ae: "aead_roundtrip (e_enc E) (e_dec E)" and b64: "b64_law (e_b64 E)" using s by simp_all
  have b: "snd (e_b64 E) (fst (e_b64 E) x) = Some x" for x using s by (simp add: b64_law_def)
  have r: "length (rnd_dek ?r) = 32" "length (rnd_dek ?r) \<le> 2 ^ 36" "length (rnd_nonce ?r) = 12" "length (rnd_prefix ?r) = 8"
    using s by (auto simp: rnd_wf_def)
  show ?thesis
  proof (cases "ue_mode spec")
    case SseS3
    then obtain k where k: "kr_keys (ks_keyring (st_keys st)) (kr_active_id (ks_keyring (st_keys st))) = Some k" "length k = 32"
      using s by auto
    from wrap_unwrap [OF ae k r(3,1)] obtain w where
      "wrap_dek (e_enc E) (rnd_nonce ?r) (ks_keyring (st_keys st)) (kr_active_id (ks_keyring (st_keys st))) (rnd_dek ?r) = Inr (w, rnd_nonce ?r)"
      "unwrap_dek (e_dec E) (ks_keyring (st_keys st)) (kr_active_id (ks_keyring (st_keys st))) w (rnd_nonce ?r) = Inr (rnd_dek ?r)"
      using k by blast
    with SseS3 ae b64 b r show ?thesis
      by (simp add: augment_spec_def upload_key_def resolve_upload_dek_def Let_def decode_b64_def decode_nonce_def)
  next
    case SseKms
    then obtain kms where k: "ks_kms (st_keys st) = Some kms" "length (lk_master_key kms) = 32" using s by auto
    define kid where "kid = (case ue_kms_key_id spec of Some s \<Rightarrow> if s \<noteq> [] then s else lk_default_key_id kms
                        | None \<Rightarrow> lk_default_key_id kms)"
    obtain c where c: "e_enc E (lk_master_key kms) (rnd_nonce ?r) (as_bytes kid) (rnd_dek ?r) = Some c"
      "e_dec E (lk_master_key kms) (rnd_nonce ?r) (as_bytes kid) c = Some (rnd_dek ?r)"
      using aead_seal [OF ae k(2) r(3,2)] by blast
    from c(1) have "generate_data_key (e_enc E) (rnd_dek ?r) (rnd_nonce ?r) kms (ue_kms_key_id spec) =
        Inr \<lparr>gd_plaintext = rnd_dek ?r, gd_ciphertext = c, gd_wrap_nonce = rnd_nonce ?r, gd_kms_key_id = kid\<rparr>"
      unfolding generate_data_key_def Let_def kid_def [symmetric] by simp
    with SseKms k c ae b64 b r show ?thesis
      by (simp add: augment_spec_def upload_key_def resolve_upload_dek_def Let_def decode_b64_def decode_nonce_def decrypt_data_key_def)
  next
    case SseC
    with s b r show ?thesis by (auto simp: augment_spec_def upload_key_def resolve_upload_dek_def Let_def)
  qed
qed

definition spec_opt_ready :: "env \<Rightarrow> FilesystemStorage \<Rightarrow> UploadEncryptionSpec option \<Rightarrow> bytes option \<Rightarrow> bool" where
  "spec_opt_ready E st spec ck \<longleftrightarrow> (\<forall>s. spec = Some s \<longrightarrow> spec_ready E st s ck)"

lemma new_upload_spec_calm:
  assumes "spec_opt_ready E st spec ck"
  obtains spec' n where "new_upload_spec E st spec w = (Inr spec', w\<lparr>w_draws := n\<rparr>)" "w_draws w \<le> n"
    "\<forall>sz \<le> 2 ^ 32 * FRAME_CHUNK_SIZE. can_seal E st spec' ck sz" "map_option ue_mode spec' = map_option ue_mode spec"
proof (cases spec)
  case None
  then show thesis using that [of None "w_draws w"] by (simp add: new_upload_spec_def ok_def can_seal_def)
next
  case (Some s)
  then obtain s' dek where "augment_spec E st (e_rnd E (w_draws w)) s = Inr s'"
    "upload_key E st s' ck dek (rnd_prefix (e_rnd E (w_draws w)))" "ue_mode s' = ue_mode s"
    using augment_spec_key [of E st s ck "w_draws w"] assms by (auto simp: spec_opt_ready_def)
  then show thesis
    using Some that [of "Some s'" "Suc (w_draws w)"]
    by (auto simp: new_upload_spec_def bind_act_def draw_def lift_res_def ok_def can_seal_def)
qed

text \<open>Nothing is in the way of the directory of the next upload.\<close>

definition create_ready :: "env \<Rightarrow> FilesystemStorage \<Rightarrow> string \<Rightarrow> world \<Rightarrow> bool" where
  "create_ready E st b w \<longleftrightarrow>
     json_law (e_upload E) \<and> json_law (e_part E) \<and> is_valid_bucket_name b \<and> store_ok st (w_root w) \<and> w_faults w = []
     \<and> good_upload_id (e_uuid E (w_draws w)) \<and> no_file_on (udir st b (e_uuid E (w_draws w))) (w_root w)
     \<and> lookup (udir st b (e_uuid E (w_draws w))) (w_root w) = None"

lemma fresh_below:
  assumes "lookup d t = None" "mkdirs d t = Inr t'" "d \<noteq> []"
  shows "lookup (d @ [x]) t' = None"
proof -
  have "lookup (d @ [x]) t' = lookup (d @ [x]) t"
    by (rule mkdirs_keeps [OF assms(2)]) (simp add: prefix_def)
  then show ?thesis using assms(1) by (simp add: lookup_append)
qed

lemma create_calm:
  assumes "create_ready E st b w" "validate_key key = Inr ()" "spec_opt_ready E st spec ck"
  shows "\<exists>um w'. create_multipart_upload E st b key content_type algo spec w = (Inr um, w')
    \<and> w_faults w' = [] \<and> um_upload_id um = e_uuid E (w_draws w) \<and> um_key um = key \<and> um_content_type um = content_type
    \<and> um_checksum_algorithm um = algo \<and> map_option ue_mode (um_encryption_spec um) = map_option ue_mode spec
    \<and> (\<forall>sz \<le> 2 ^ 32 * FRAME_CHUNK_SIZE. can_seal E st (um_encryption_spec um) ck sz)
    \<and> upload_at E st b (um_upload_id um) um ck Map.empty (w_root w')
    \<and> (\<forall>q. \<not> prefix q (udir st b (um_upload_id um)) \<and> \<not> prefix (udir st b (um_upload_id um)) q
         \<longrightarrow> lookup q (w_root w') = lookup q (w_root w))"
proof -
  define u where "u = e_uuid E (w_draws w)"
  note a = assms(1) [unfolded create_ready_def, folded u_def]
  have v: "is_valid_bucket_name b" "good_upload_id u" using a by simp_all
  note paths = upload_paths [OF v, of st]
  let ?d = "udir st b u"
  have pl: "plain ?d" using v a valid_bucket_plain [of b] good_upload_plain [of u] by (auto simp: udir_def store_ok_def)
  have ne: "?d \<noteq> []" by (simp add: udir_def)
  obtain t1 where t1: "mkdirs ?d (w_root w) = Inr t1" using mkdirs_ok a by blast
  define w1 where "w1 = w\<lparr>w_draws := Suc (w_draws w), w_root := t1\<rparr>"
  have mk: "io (fs_create_dir_all ?d) (w\<lparr>w_draws := Suc (w_draws w)\<rparr>) = (Inr (), w1)"
    using a t1 pl by (simp add: io_def map_err_act_def fs_create_dir_all_def change_quiet realpath_def w1_def)
  obtain spec' n where sp: "new_upload_spec E st spec w1 = (Inr spec', w1\<lparr>w_draws := n\<rparr>)" "w_draws w1 \<le> n"
    "\<forall>sz \<le> 2 ^ 32 * FRAME_CHUNK_SIZE. can_seal E st spec' ck sz" "map_option ue_mode spec' = map_option ue_mode spec"
    using new_upload_spec_calm [OF assms(3)] by blast
  define um where "um = \<lparr>um_upload_id = u, um_bucket = b, um_key = key, um_content_type = content_type,
      um_initiated = e_fmt E (e_micros E n), um_checksum_algorithm = algo, um_encryption_spec = spec'\<rparr>"
  let ?w2 = "w1\<lparr>w_draws := Suc n\<rparr>"
  define t3 where "t3 = set_node (?d @ [''.meta.json'']) (Some (File (fst (e_upload E) um))) t1"
  have d1: "is_dir_at ?d t1" by (rule mkdirs_Inr [OF t1])
  have none: "lookup (?d @ [x]) t1 = None" for x by (rule fresh_below [OF _ t1 ne]) (use a in simp)
  have js: "write_json (e_upload E) (?d @ [''.meta.json'']) um ?w2 = (Inr (), ?w2\<lparr>w_root := t3\<rparr>)"
    using write_json_ok [of "?d @ [''.meta.json'']" ?w2 "e_upload E" um] pl a d1 none [of "''.meta.json''"]
    by (simp add: w1_def t3_def is_dir_at_def)
  have now: "now_string E (w1\<lparr>w_draws := n\<rparr>) = (Inr (e_fmt E (e_micros E n)) :: StorageError + string, ?w2)"
    by (simp add: now_string_def bind_act_def draw_def ok_def)
  have run: "create_multipart_upload E st b key content_type algo spec w = (Inr um, ?w2\<lparr>w_root := t3\<rparr>)"
    using v(1) assms(2) mk sp(1) now js
    by (simp add: create_multipart_upload_def bind_act_def lift_res_def validate_bucket_name_def draw_def Let_def paths ok_def
        um_def [symmetric] u_def [symmetric])
  have look: "lookup (?d @ [y]) t3 = (if y = ''.meta.json'' then Some (File (fst (e_upload E) um)) else None)" for y
  proof (cases "y = ''.meta.json''")
    case True
    then show ?thesis using lookup_set_same [of "?d @ [''.meta.json'']" t1] d1 by (simp add: t3_def)
  next
    case False
    then have "apart (?d @ [''.meta.json'']) (?d @ [y])" using apart_append [of ?d "[''.meta.json'']" "[y]"] by simp
    with False none show ?thesis by (simp add: t3_def lookup_set_apart)
  qed
  have "is_dir_at ?d t3" unfolding t3_def by (rule is_dir_at_set_above) (use d1 in auto)
  moreover have "is_dir_at (st_buckets_dir st) t3"
    using is_dir_at_set_above [of "st_buckets_dir st" t1 "[b, ''.uploads'', u, ''.meta.json'']"] mkdirs_keeps_dirs [OF t1] a
    by (auto simp: t3_def store_ok_def udir_def)
  moreover have "\<not> is_dir_at (?d @ [y]) t3" for y unfolding is_dir_at_def look by simp
  ultimately have at: "upload_at E st b u um ck Map.empty t3" using a look by (simp add: upload_at_def store_ok_def)
  have frame: "lookup q t3 = lookup q (w_root w)" if "\<not> prefix q ?d" "\<not> prefix ?d q" for q
  proof -
    have "apart (?d @ [''.meta.json'']) q" using that by (auto simp: apart_def prefix_snoc dest: append_prefixD)
    then show ?thesis using mkdirs_keeps [OF t1 that(1)] by (simp add: t3_def lookup_set_apart)
  qed
  show ?thesis
    using run sp(3,4) at frame a
    by (intro exI [of _ um] exI [of _ "?w2\<lparr>w_root := t3\<rparr>"]) (auto simp: um_def w1_def u_def [symmetric])
qed

text \<open>
  C33. A multipart upload keeps what it acknowledged. Starting an upload makes an empty upload
  under the drawn identifier, for a plain, SSE-S3, SSE-KMS or SSE-C request, and touches nothing
  but its directory. Uploading a part to an upload with the parts \<open>ps\<close> succeeds, answers with the
  ETag of the bytes sent, in whatever fragments, and leaves the upload with exactly that part
  added or replaced; every other part of the upload, and everything outside the two files of the
  part, stays as it was.
\<close>

theorem multipart_parts_kept:
  "(create_ready E st b w \<and> validate_key key = Inr () \<and> spec_opt_ready E st spec ck \<longrightarrow>
     (\<exists>um w'. create_multipart_upload E st b key content_type algo spec w = (Inr um, w')
        \<and> w_faults w' = [] \<and> um_upload_id um = e_uuid E (w_draws w) \<and> um_key um = key
        \<and> (\<forall>sz \<le> 2 ^ 32 * FRAME_CHUNK_SIZE. can_seal E st (um_encryption_spec um) ck sz)
        \<and> upload_at E st b (um_upload_id um) um ck Map.empty (w_root w')
        \<and> (\<forall>q. \<not> prefix q (udir st b (um_upload_id um)) \<and> \<not> prefix (udir st b (um_upload_id um)) q
             \<longrightarrow> lookup q (w_root w') = lookup q (w_root w))))
   \<and> (upload_at E st b u um ck ps (w_root w) \<and> w_faults w = [] \<and> checksum_ok E checksum (body_bytes es) \<and> body_inv es
     \<and> accepted E st declared (body_bytes es) \<and> can_seal E st (um_encryption_spec um) ck (length (body_bytes es))
     \<and> 1 \<le> n \<and> n \<le> 10000 \<longrightarrow>
     (\<exists>pm w'. upload_part E st body_read b u n es checksum ck declared w = Some (Inr pm, w')
        \<and> w_faults w' = [] \<and> pm_etag pm = etag_of E (body_bytes es)
        \<and> upload_at E st b u um ck (ps(n \<mapsto> (pm, body_bytes es))) (w_root w')
        \<and> kept_outside (udir st b u) {show_nat n, part_record n} (w_root w) (w_root w')))"
proof (intro conjI impI)
  assume "create_ready E st b w \<and> validate_key key = Inr () \<and> spec_opt_ready E st spec ck"
  then have "create_ready E st b w" "validate_key key = Inr ()" "spec_opt_ready E st spec ck" by simp_all
  from create_calm [OF this, of content_type algo] show "\<exists>um w'. create_multipart_upload E st b key content_type algo spec w = (Inr um, w')
        \<and> w_faults w' = [] \<and> um_upload_id um = e_uuid E (w_draws w) \<and> um_key um = key
        \<and> (\<forall>sz \<le> 2 ^ 32 * FRAME_CHUNK_SIZE. can_seal E st (um_encryption_spec um) ck sz)
        \<and> upload_at E st b (um_upload_id um) um ck Map.empty (w_root w')
        \<and> (\<forall>q. \<not> prefix q (udir st b (um_upload_id um)) \<and> \<not> prefix (udir st b (um_upload_id um)) q
             \<longrightarrow> lookup q (w_root w') = lookup q (w_root w))" by blast
next
  assume h: "upload_at E st b u um ck ps (w_root w) \<and> w_faults w = [] \<and> checksum_ok E checksum (body_bytes es) \<and> body_inv es
     \<and> accepted E st declared (body_bytes es) \<and> can_seal E st (um_encryption_spec um) ck (length (body_bytes es))
     \<and> 1 \<le> n \<and> n \<le> 10000"
  have "\<exists>pm w'. upload_part E st body_read b u n es checksum ck declared w = Some (Inr pm, w')
    \<and> w_faults w' = [] \<and> w_draws w \<le> w_draws w' \<and> pm_etag pm = etag_of E (body_bytes es)
    \<and> upload_at E st b u um ck (ps(n \<mapsto> (pm, body_bytes es))) (w_root w')
    \<and> kept_outside (udir st b u) {show_nat n, part_record n} (w_root w) (w_root w')"
    by (rule upload_part_calm) (use h in simp_all)
  then show "\<exists>pm w'. upload_part E st body_read b u n es checksum ck declared w = Some (Inr pm, w')
        \<and> w_faults w' = [] \<and> pm_etag pm = etag_of E (body_bytes es)
        \<and> upload_at E st b u um ck (ps(n \<mapsto> (pm, body_bytes es))) (w_root w')
        \<and> kept_outside (udir st b u) {show_nat n, part_record n} (w_root w) (w_root w')" by blast
qed

section \<open>Completing\<close>


section \<open>An example\<close>

text \<open>The example environment with a coding of bytes that can be read back.\<close>

definition toy_mp_env :: env where
  "toy_mp_env = toy_env\<lparr>e_hex := (\<lambda>x. replicate (to_nat (map unat x)) CHR ''a''),
     e_unhex := (\<lambda>h. Some (map of_nat (from_nat (length h) :: nat list)))\<rparr>"

lemma toy_mp_env_simps [simp]:
  "e_bucket toy_mp_env = toy_json" "e_manifest toy_mp_env = toy_json" "e_object toy_mp_env = toy_json" "e_upload toy_mp_env = toy_json" "e_part toy_mp_env = toy_json"
  "e_uuid toy_mp_env = show_nat" "e_enc toy_mp_env = toy_enc" "e_dec toy_mp_env = toy_dec" "e_b64 toy_mp_env = toy_b64"
  "e_hmac toy_mp_env = toy_hmac" "e_disk toy_mp_env = (\<lambda>_. None)" "e_md5 toy_mp_env = (\<lambda>b. b)"
  by (simp_all add: toy_mp_env_def toy_env_def)

lemma toy_hex_law: "hex_law toy_mp_env"
proof -
  have "map of_nat (map unat x) = x" for x :: bytes by (simp add: map_idI)
  then show ?thesis by (auto simp: hex_law_def toy_mp_env_def)
qed

definition toy_spec :: UploadEncryptionSpec where
  "toy_spec = \<lparr>ue_mode = SseC, ue_customer_key_md5 = Some (fst toy_b64 (replicate 32 7)), ue_upload_dek_wrapped = None,
     ue_upload_dek_wrap_nonce = None, ue_upload_dek_key_id = None, ue_kms_key_id = None, ue_upload_nonce_prefix = []\<rparr>"

theorem multipart_parts_kept_witness:
  "\<exists>um w' pm w''. create_multipart_upload toy_mp_env toy_storage ''photos'' ''a/b.txt'' ''text/plain'' None (Some toy_spec) toy_world = (Inr um, w')
     \<and> upload_part toy_mp_env toy_storage body_read ''photos'' ''0'' 1 toy_body None (Some (replicate 32 7)) (Some 3) w' = Some (Inr pm, w'')
     \<and> upload_at toy_mp_env toy_storage ''photos'' ''0'' um (Some (replicate 32 7)) [1 \<mapsto> (pm, [1, 2, 3])] (w_root w'')"
proof -
  have u: "show_nat 0 = ''0''" "good_upload_id ''0''" by (simp_all add: good_upload_id_def) code_simp+
  have d: "udir toy_storage ''photos'' ''0'' = [''buckets'', ''photos'', ''.uploads'', ''0'']" by (simp add: udir_def)
  have "store_ok toy_storage (w_root toy_world)" by (simp add: store_ok_def toy_world_def is_dir_at_def lookup_Cons)
  then have cr: "create_ready toy_mp_env toy_storage ''photos'' toy_world"
    unfolding create_ready_def using u
    by (auto simp: toy_json_law toy_valid d no_file_on_def prefix_Cons toy_world_def lookup_Cons)
  have sp: "spec_opt_ready toy_mp_env toy_storage (Some toy_spec) (Some (replicate 32 7))"
    by (simp add: spec_opt_ready_def spec_ready_def toy_roundtrip toy_b64_law toy_spec_def rnd_wf_def toy_mp_env_def toy_env_def)
  have vk: "validate_key ''a/b.txt'' = Inr ()" using good_key_simps(2) [OF toy_key(1)] by simp
  obtain um w' where um: "create_multipart_upload toy_mp_env toy_storage ''photos'' ''a/b.txt'' ''text/plain'' None (Some toy_spec) toy_world = (Inr um, w')"
    "w_faults w' = []" "upload_at toy_mp_env toy_storage ''photos'' ''0'' um (Some (replicate 32 7)) Map.empty (w_root w')"
    "\<forall>sz \<le> 2 ^ 32 * FRAME_CHUNK_SIZE. can_seal toy_mp_env toy_storage (um_encryption_spec um) (Some (replicate 32 7)) sz"
    using multipart_parts_kept [THEN conjunct1, rule_format, of toy_mp_env toy_storage "''photos''" toy_world "''a/b.txt''"
        "Some toy_spec" "Some (replicate 32 7)" "''text/plain''" None] cr sp vk u by auto
  have "can_seal toy_mp_env toy_storage (um_encryption_spec um) (Some (replicate 32 7)) (length (body_bytes toy_body))"
    using um(4) by (auto simp: FRAME_CHUNK_SIZE_def)
  moreover have "accepted toy_mp_env toy_storage (Some 3) (body_bytes toy_body)" "checksum_ok toy_mp_env None (body_bytes toy_body)"
    by (simp_all add: accepted_def quota_within_def check_upload_start_def check_write_progress_def check_declared_size_def
        check_disk_reserve_def check_object_size_def from_config_def checksum_ok_def)
  ultimately obtain pm w'' where
    "upload_part toy_mp_env toy_storage body_read ''photos'' ''0'' 1 toy_body None (Some (replicate 32 7)) (Some 3) w' = Some (Inr pm, w'')"
    "upload_at toy_mp_env toy_storage ''photos'' ''0'' um (Some (replicate 32 7)) [1 \<mapsto> (pm, body_bytes toy_body)] (w_root w'')"
    using multipart_parts_kept [THEN conjunct2, rule_format, of toy_mp_env toy_storage "''photos''" "''0''" um
        "Some (replicate 32 7)" Map.empty w' None toy_body "Some 3" 1] um(2,3) toy_accepts(3) by auto
  then show ?thesis using um(1) by auto
qed

text \<open>A storage with an upload of one part.\<close>

definition toy_upload :: MultipartUploadMeta where
  "toy_upload = \<lparr>um_upload_id = ''u'', um_bucket = ''photos'', um_key = ''a/b.txt'', um_content_type = ''text/plain'',
     um_initiated = ''now'', um_checksum_algorithm = None, um_encryption_spec = None\<rparr>"

definition toy_part :: PartMeta where
  "toy_part = part_meta_of toy_mp_env 1 [1, 2, 3] ''now'' None None"

definition toy_mp_world :: world where
  "toy_mp_world = toy_with [(''.uploads'', Dir [(''u'', Dir [(''.meta.json'', File (fst toy_json toy_upload)), (''1'', File [1, 2, 3]),
     (''1.meta.json'', File (fst toy_json toy_part))])])]"

lemma toy_mp_world_simps [simp]: "w_faults toy_mp_world = []" "w_draws toy_mp_world = 0"
  by (simp_all add: toy_mp_world_def toy_with_def)

lemma toy_upload_at:
  "upload_at toy_mp_env toy_storage ''photos'' ''u'' toy_upload None [1 \<mapsto> (toy_part, [1, 2, 3])] (w_root toy_mp_world)"
proof -
  have s1: "show_nat 1 = ''1''" by code_simp
  have u: "good_upload_id ''u''" by (simp add: good_upload_id_def) code_simp
  have d: "udir toy_storage ''photos'' ''u'' = [''buckets'', ''photos'', ''.uploads'', ''u'']" by (simp add: udir_def)
  have "store_ok toy_storage (w_root toy_mp_world)"
    by (simp add: store_ok_def toy_mp_world_def toy_with_def is_dir_at_def lookup_Cons)
  moreover have "\<not> is_dir_at (udir toy_storage ''photos'' ''u'' @ [x]) (w_root toy_mp_world)" for x
    by (simp add: d toy_mp_world_def toy_with_def is_dir_at_def lookup_Cons)
  moreover have "part_at toy_mp_env toy_storage ''photos'' ''u'' toy_upload None (w_root toy_mp_world) 1 toy_part [1, 2, 3]"
    using s1 [simplified]
    by (simp add: part_at_def toy_part_def part_meta_of_def d toy_mp_world_def toy_with_def lookup_Cons toy_upload_def part_sealed_def)
  ultimately show ?thesis
    using u by (auto simp: upload_at_def toy_json_law toy_valid d toy_mp_world_def toy_with_def is_dir_at_def lookup_Cons)
qed

lemma toy_mp_ready: "upload_ready toy_mp_env toy_storage ''photos'' toy_bucket ''a/b.txt'' toy_mp_world"
proof -
  have "no_file_on [''buckets'', ''photos'', ''a''] (w_root toy_mp_world)"
    by (auto simp: no_file_on_def prefix_Cons toy_mp_world_def toy_with_def lookup_Cons)
  moreover have "fresh_names (e_uuid toy_mp_env) [''buckets'', ''photos'', ''a''] toy_mp_world"
    by (simp add: fresh_names_def toy_mp_world_def toy_with_def lookup_Cons inj_show_nat)
  moreover have "store_ok toy_storage (w_root toy_mp_world)"
    by (simp add: store_ok_def toy_mp_world_def toy_with_def is_dir_at_def lookup_Cons)
  moreover have "bucket_at toy_mp_env toy_storage (w_root toy_mp_world) ''photos'' toy_bucket"
    using bucket_meta_path_eq [OF toy_valid] by (simp add: bucket_at_def toy_mp_world_def toy_with_def lookup_Cons)
  ultimately show ?thesis
    by (simp add: upload_ready_def toy_json_law toy_key toy_dirs)
qed


end
