(* ===== verification/ApiProps.thy ===== *)
theory ApiProps
  imports ObjectApi Middleware MultipartProps
begin

text \<open>
  Properties of the object handlers: the decoding of chunked uploads, range requests, and what the
  handlers without a gate let through.
\<close>

section \<open>Chunked bodies\<close>

definition first_line :: "bytes \<Rightarrow> bytes" where
  "first_line bs = (if 0x0A \<in> set bs then takeWhile (\<lambda>c. c \<noteq> 0x0A) bs @ [0x0A] else bs)"

definition after_line :: "bytes \<Rightarrow> bytes" where
  "after_line bs = tl (dropWhile (\<lambda>c. c \<noteq> 0x0A) bs)"

context stream_reader
begin

lemma read_line_all:
  assumes "inv s" "0 < cap"
  shows "\<exists>buf' s'. inv s' \<and> read_line rd cap (buf, s) = Some (Inr (first_line (buf @ rest s)), buf', s')
    \<and> buf' @ rest s' = after_line (buf @ rest s)"
  using assms(1)
proof (induction s arbitrary: buf rule: wf_induct_rule [OF wf_measures [of "[\<lambda>s. length (rest s), wait]"]])
  case (1 s)
  note unfold = read_line.simps [of rd cap "(buf, s)"]
  show ?case
  proof (cases "0x0A \<in> set buf")
    case True
    then obtain x ys where buf: "buf = x @ 0x0A # ys" "0x0A \<notin> set x" by (meson split_list_first)
    then have "takeWhile (\<lambda>c. c \<noteq> 0x0A) x = x" "dropWhile (\<lambda>c. c \<noteq> 0x0A) x = []" by auto
    with buf have "read_line rd cap (buf, s) = Some (Inr (x @ [0x0A]), ys, s)" unfolding unfold by simp
    moreover have "\<forall>c \<in> set x. c \<noteq> 0x0A" using buf(2) by metis
    ultimately show ?thesis using "1.prems" buf(1) by (intro exI [of _ ys] exI [of _ s]) (simp add: first_line_def after_line_def)
  next
    case False
    from "1.prems" assms(2) show ?thesis
    proof (cases rule: poll_cases)
      case (pending s')
      with "1.IH" [of s' buf] False show ?thesis by (simp add: unfold)
    next
      case (eof s')
      have "dropWhile (\<lambda>c. c \<noteq> 0x0A) buf = []" using False unfolding dropWhile_eq_Nil_conv by metis
      then have "after_line buf = []" unfolding after_line_def by (simp only: list.sel)
      with False eof show ?thesis by (simp add: unfold first_line_def)
    next
      case (data bs s')
      with "1.IH" [of s' "buf @ bs"] False show ?thesis by (simp add: unfold)
    qed
  qed
qed

lemma read_exact_all:
  assumes "inv s" "0 < cap" "n \<le> length (buf @ rest s)"
  shows "\<exists>buf' s'. inv s' \<and> read_exact rd cap n (buf, s) = Some (Inr (take n (buf @ rest s)), buf', s')
    \<and> buf' @ rest s' = drop n (buf @ rest s)"
  using assms(1,3)
proof (induction s arbitrary: buf rule: wf_induct_rule [OF wf_measures [of "[\<lambda>s. length (rest s), wait]"]])
  case (1 s)
  note unfold = read_exact.simps [of rd cap n "(buf, s)"]
  show ?case
  proof (cases "n \<le> length buf")
    case True
    with "1.prems" show ?thesis by (simp add: unfold)
  next
    case False
    from "1.prems"(1) assms(2) show ?thesis
    proof (cases rule: poll_cases)
      case (pending s')
      with "1.IH" [of s' buf] False "1.prems" show ?thesis by (simp add: unfold)
    next
      case (eof s')
      with False "1.prems" show ?thesis by simp
    next
      case (data bs s')
      with "1.IH" [of s' "buf @ bs"] False "1.prems" show ?thesis by (simp add: unfold)
    qed
  qed
qed

end

text \<open>A chunk: its size in hexadecimal, an extension such as its signature, and its data.\<close>

definition line_ok :: "string \<Rightarrow> string \<Rightarrow> bool" where
  "line_ok hx ext \<longleftrightarrow>
     list_all (\<lambda>c. hex_val c \<noteq> None) hx \<and> hx \<noteq> [] \<and> (ext = [] \<or> hd ext = CHR '';'')
     \<and> list_all (\<lambda>c. let n = (of_char c :: nat) in n < 128 \<and> n \<noteq> 10 \<and> n \<noteq> 13) ext"

definition aws_line :: "string \<Rightarrow> string \<Rightarrow> bytes" where
  "aws_line hx ext = as_bytes (hx @ ext) @ [0x0D, 0x0A]"

definition aws_chunk :: "string \<times> string \<times> bytes \<Rightarrow> bytes" where
  "aws_chunk c = (case c of (hx, ext, data) \<Rightarrow> aws_line hx ext @ data @ [0x0D, 0x0A])"

definition chunk_ok :: "string \<times> string \<times> bytes \<Rightarrow> bool" where
  "chunk_ok c = (case c of (hx, ext, data) \<Rightarrow>
     line_ok hx ext \<and> data \<noteq> [] \<and> length data < 2 ^ 63 \<and> from_str_radix16 hx = Some (length data))"

lemma hex_char_plain:
  assumes "hex_val c \<noteq> None"
  shows "c \<noteq> CHR '';''" "\<not> is_ws c" "(of_char c :: nat) < 128"
  using assms by (auto simp: hex_val_def is_ws_def Let_def split: if_splits)

lemma line_split:
  assumes "line_ok hx ext"
  shows "hd (split_on CHR '';'' (hx @ ext)) = hx"
proof -
  have hx: "CHR '';'' \<notin> set hx" using assms hex_char_plain(1) unfolding line_ok_def list_all_iff by metis
  show ?thesis
  proof (cases ext)
    case Nil
    with hx show ?thesis by (simp add: split_on_single)
  next
    case (Cons c cs)
    with assms have "c = CHR '';''" by (simp add: line_ok_def)
    with Cons hx show ?thesis by (simp add: split_on_append split_on_single)
  qed
qed

lemma line_chars:
  assumes "line_ok hx ext" "c \<in> set (hx @ ext)"
  shows "(of_char c :: nat) < 128" "(of_char c :: nat) \<noteq> 10" "(of_char c :: nat) \<noteq> 13"
proof -
  have "(of_char c :: nat) < 128 \<and> (of_char c :: nat) \<noteq> 10 \<and> (of_char c :: nat) \<noteq> 13"
  proof (cases "c \<in> set hx")
    case True
    then have "hex_val c \<noteq> None" using assms(1) by (auto simp: line_ok_def list_all_iff)
    from hex_char_plain [OF this] show ?thesis by (auto simp: is_ws_def Let_def)
  next
    case False
    with assms show ?thesis by (auto simp: line_ok_def list_all_iff Let_def)
  qed
  then show "(of_char c :: nat) < 128" "(of_char c :: nat) \<noteq> 10" "(of_char c :: nat) \<noteq> 13" by auto
qed

lemma trim_line_crlf:
  assumes "line_ok hx ext"
  shows "trim_line (hx @ ext @ [CHR 0x0D, CHR 0x0A]) = hx @ ext"
proof -
  have "hx @ ext \<noteq> []" using assms by (simp add: line_ok_def)
  then obtain xs x where e: "hx @ ext = xs @ [x]" by (meson rev_exhaust)
  then have "x \<in> set (hx @ ext)" by simp
  from line_chars(2,3) [OF assms this] have "x \<noteq> CHR 0x0D" "x \<noteq> CHR 0x0A" by auto
  then show ?thesis using e by (simp add: trim_line_def flip: append_assoc)
qed

lemma line_read:
  assumes "line_ok hx ext"
  shows "from_utf8 (aws_line hx ext) = Some (hx @ ext @ [CHR 0x0D, CHR 0x0A])"
    and "chunk_size_of (hx @ ext @ [CHR 0x0D, CHR 0x0A]) = from_str_radix16 hx"
    and "takeWhile (\<lambda>c. c \<noteq> 0x0A) (aws_line hx ext @ t) = butlast (aws_line hx ext)"
    and "tl (dropWhile (\<lambda>c. c \<noteq> 0x0A) (aws_line hx ext @ t)) = t"
proof -
  have b: "aws_line hx ext = as_bytes (hx @ ext @ [CHR 0x0D, CHR 0x0A])" by (simp add: aws_line_def as_bytes_def)
  have "list_all (\<lambda>c. (of_char c :: nat) < 128) (hx @ ext @ [CHR 0x0D, CHR 0x0A])"
    using line_chars(1) [OF assms] by (auto simp: list_all_iff)
  then show "from_utf8 (aws_line hx ext) = Some (hx @ ext @ [CHR 0x0D, CHR 0x0A])"
    unfolding b by (intro from_utf8_as_bytes utf8_ascii)
  have "trim hx = hx" using assms hex_char_plain(2) by (intro trim_id) (auto simp: line_ok_def list_all_iff)
  then show "chunk_size_of (hx @ ext @ [CHR 0x0D, CHR 0x0A]) = from_str_radix16 hx"
    unfolding chunk_size_of_def trim_line_crlf [OF assms] line_split [OF assms] by simp
  have "\<forall>c \<in> set (as_bytes (hx @ ext)). c \<noteq> 0x0A"
  proof
    fix c assume "c \<in> set (as_bytes (hx @ ext))"
    then obtain x where x: "x \<in> set (hx @ ext)" "c = of_char x" by (auto simp: as_bytes_def)
    show "c \<noteq> 0x0A"
    proof
      assume "c = 0x0A"
      then have "unat c = 10" by simp
      with line_chars(2) [OF assms x(1)] show False by (simp add: x(2) unat_of_char)
    qed
  qed
  then have p: "\<forall>c \<in> set (as_bytes (hx @ ext) @ [0x0D]). c \<noteq> 0x0A" by simp
  have l: "aws_line hx ext @ t = (as_bytes (hx @ ext) @ [0x0D]) @ 0x0A # t" by (simp add: aws_line_def)
  show "takeWhile (\<lambda>c. c \<noteq> 0x0A) (aws_line hx ext @ t) = butlast (aws_line hx ext)"
    "tl (dropWhile (\<lambda>c. c \<noteq> 0x0A) (aws_line hx ext @ t)) = t"
    unfolding l using p by (subst takeWhile_append2 dropWhile_append2; auto simp: aws_line_def butlast_append)+
qed

lemma line_first: "0x0A \<in> set (aws_line hx ext @ t)" "butlast (aws_line hx ext) @ [0x0A] = aws_line hx ext" "aws_line hx ext \<noteq> []"
  by (simp_all add: aws_line_def butlast_append)

context stream_reader
begin

lemma decode_line:
  assumes "inv s" "0 < cap" "line_ok hx ext" "from_str_radix16 hx = Some n" "n < 2 ^ 63" "buf @ rest s = aws_line hx ext @ t"
  obtains buf' s' where "inv s'" "buf' @ rest s' = t"
    "decode_chunks rd cap (buf, s) decoded =
       (if n = 0 then Some (Inr decoded)
        else Option.bind (read_exact rd cap n (buf', s')) (\<lambda>y.
               case y of
                 (Inl e, b2) \<Rightarrow> Some (Inl (Rejected internal_error))
               | (Inr chunk, b2) \<Rightarrow> Option.bind (read_exact rd cap 2 b2) (\<lambda>z. decode_chunks rd cap (snd z) (decoded @ chunk))))"
proof -
  obtain buf' s' where l: "inv s'" "read_line rd cap (buf, s) = Some (Inr (aws_line hx ext), buf', s')" "buf' @ rest s' = t"
    using read_line_all [OF assms(1,2), of buf] line_read(3,4) [OF assms(3), of t] line_first(1) [of hx ext t]
    unfolding assms(6) first_line_def after_line_def by (auto simp: line_first(2) simp del: set_append)
  show thesis
    by (rule that [OF l(1,3)], subst decode_chunks.simps)
      (use l(2) line_read(1,2) [OF assms(3)] line_first(3) assms(4,5) in simp)
qed

lemma decode_all:
  assumes "0 < cap" "list_all chunk_ok chunks" "line_ok hx0 ext0" "from_str_radix16 hx0 = Some 0"
    and "inv s" "buf @ rest s = concat (map aws_chunk chunks) @ aws_line hx0 ext0 @ trailer"
  shows "decode_chunks rd cap (buf, s) decoded = Some (Inr (decoded @ concat (map (\<lambda>(_, _, data). data) chunks)))"
  using assms(2,5,6)
proof (induction chunks arbitrary: buf s decoded)
  case Nil
  obtain buf' s' where "decode_chunks rd cap (buf, s) decoded = Some (Inr decoded)"
    using decode_line [OF Nil.prems(2) assms(1,3,4)] Nil.prems(3) by simp metis
  then show ?case by simp
next
  case (Cons c chunks)
  obtain hx ext data where c: "c = (hx, ext, data)" by (cases c)
  let ?t = "concat (map aws_chunk chunks) @ aws_line hx0 ext0 @ trailer"
  have ok: "line_ok hx ext" "data \<noteq> []" "length data < 2 ^ 63" "from_str_radix16 hx = Some (length data)"
    using Cons.prems(1) c by (simp_all add: chunk_ok_def)
  have body: "buf @ rest s = aws_line hx ext @ data @ [0x0D, 0x0A] @ ?t" using Cons.prems(3) c aws_chunk_def [of c] by simp
  obtain b1 s1 where l: "inv s1" "b1 @ rest s1 = data @ [0x0D, 0x0A] @ ?t"
    and run: "decode_chunks rd cap (buf, s) decoded =
       (if length data = 0 then Some (Inr decoded)
        else Option.bind (read_exact rd cap (length data) (b1, s1)) (\<lambda>y.
               case y of
                 (Inl e, b2) \<Rightarrow> Some (Inl (Rejected internal_error))
               | (Inr chunk, b2) \<Rightarrow> Option.bind (read_exact rd cap 2 b2) (\<lambda>z. decode_chunks rd cap (snd z) (decoded @ chunk))))"
    by (rule decode_line [OF Cons.prems(2) assms(1) ok(1,4,3) body, where decoded = decoded])
  obtain b2 s2 where d: "inv s2" "read_exact rd cap (length data) (b1, s1) = Some (Inr data, b2, s2)" "b2 @ rest s2 = [0x0D, 0x0A] @ ?t"
    using read_exact_all [OF l(1) assms(1), of "length data" b1] l(2) by auto
  obtain b3 s3 where e: "inv s3" "read_exact rd cap 2 (b2, s2) = Some (Inr [0x0D, 0x0A], b3, s3)" "b3 @ rest s3 = ?t"
    using read_exact_all [OF d(1) assms(1), of 2 b2] d(3) by auto
  have "decode_chunks rd cap (b3, s3) (decoded @ data) = Some (Inr ((decoded @ data) @ concat (map (\<lambda>(_, _, data). data) chunks)))"
    by (rule Cons.IH) (use Cons.prems(1) e in simp_all)
  then show ?case using run d(2) e(2) ok(2) c by simp
qed

end

text \<open>
  C36. A chunked upload is decoded to its data. A body that consists of chunks, each a size in
  hexadecimal digits with an optional extension (the chunk signature), a line end, that many
  bytes and a line end, then a chunk of size zero and any trailer, is decoded to the concatenation
  of the data in whatever fragments it arrives, and the decoding ends.
\<close>

theorem aws_chunked_roundtrip:
  assumes "header_str headers ''x-amz-content-sha256'' = Some ''STREAMING-AWS4-HMAC-SHA256-PAYLOAD''"
    and "list_all chunk_ok chunks" "line_ok hx ext" "from_str_radix16 hx = Some 0" "body_inv es"
    and "body_bytes es = concat (map aws_chunk chunks) @ aws_line hx ext @ trailer"
  shows "body_to_reader body_read headers es w = Some (Inr (Decoded (concat (map (\<lambda>(_, _, data). data) chunks))), w)"
proof -
  have "decode_chunks body_read BUF_READER_SIZE ([], es) [] = Some (Inr ([] @ concat (map (\<lambda>(_, _, data). data) chunks)))"
    by (rule body.decode_all [OF _ assms(2-4)]) (use assms(5,6) in \<open>simp_all add: BUF_READER_SIZE_def\<close>)
  then show ?thesis using assms(1) by (simp add: body_to_reader_def lift_opt_def)
qed

section \<open>Range requests\<close>

lemma digit_char_plain:
  assumes "d < 10"
  shows "\<not> is_ws (digit_char d)" "visible_ascii (digit_char d)" "digit_char d \<noteq> CHR '',''" "digit_char d \<noteq> CHR ''-''" "digit_char d \<noteq> CHR ''+''"
proof -
  have n: "(of_char (digit_char d) :: nat) = 48 + d" by (rule of_char_digit_char [OF assms])
  show "\<not> is_ws (digit_char d)" "visible_ascii (digit_char d)" using assms by (simp_all add: is_ws_def visible_ascii_def n)
  show "digit_char d \<noteq> CHR '',''" "digit_char d \<noteq> CHR ''-''" "digit_char d \<noteq> CHR ''+''"
    by (rule notI, use n in simp)+
qed

lemma show_nat_chars: "list_all (\<lambda>c. \<exists>d < 10. c = digit_char d) (show_nat n)"
proof (induction n rule: show_nat.induct)
  case (1 n)
  then show ?case by (cases "n < 10") (auto simp: show_nat.simps [of n] intro: exI [of _ "n mod 10"])
qed

lemma show_nat_plain:
  "c \<in> set (show_nat n) \<Longrightarrow> \<not> is_ws c" "list_all visible_ascii (show_nat n)" "CHR '','' \<notin> set (show_nat n)" "CHR ''-'' \<notin> set (show_nat n)"
  using show_nat_chars [of n] digit_char_plain unfolding list_all_iff by metis+

lemma parse_range_bounds: "parse_range h n = Inr (Some (a, b)) \<Longrightarrow> a \<le> b \<and> b < n"
  by (auto simp: parse_range_def Let_def bind_res_Inr Encryption.ok_or_def split: if_splits option.splits)

text \<open>What the three forms of a range header ask for.\<close>

lemma parse_range_forms:
  assumes "a < 2 ^ 64" "b < 2 ^ 64"
  shows "parse_range (''bytes='' @ show_nat a @ ''-'' @ show_nat b) n =
      (if n \<le> a \<or> b < a then Inl () else Inr (Some (a, min b (n - 1))))"
    and "parse_range (''bytes='' @ show_nat a @ ''-'') n = (if n \<le> a then Inl () else Inr (Some (a, n - 1)))"
    and "parse_range (''bytes=-'' @ show_nat b) n = (if n = 0 \<or> b = 0 then Inl () else Inr (Some (n - b, n - 1)))"
proof -
  have ws: "\<not> is_ws CHR ''-''" "\<not> is_ws CHR ''b''" "\<not> is_ws CHR ''y''" "\<not> is_ws CHR ''t''" "\<not> is_ws CHR ''e''" "\<not> is_ws CHR ''s''"
    "\<not> is_ws CHR ''=''" by (simp_all add: is_ws_def)
  have split: "split_once CHR ''-'' (show_nat a @ CHR ''-'' # y) = Some (show_nat a, y)" for y
    by (rule split_once_append [OF show_nat_plain(4)])
  have t: "trim (''bytes='' @ x) = ''bytes='' @ x \<and> trim x = x" if "\<forall>c \<in> set x. \<not> is_ws c" for x
    using that ws by (intro conjI trim_id) auto
  have pre: "parse_range (''bytes='' @ x) n = (case split_once CHR ''-'' x of
               None \<Rightarrow> Inr None
             | Some (start_str, end_str) \<Rightarrow>
                 if n = 0 then Inl ()
                 else if start_str = []
                 then bind_res (Encryption.ok_or (parse_u64 end_str) ()) (\<lambda>suffix.
                        if suffix = 0 then Inl () else Inr (Some (n - suffix, n - 1)))
                 else if end_str = []
                 then bind_res (Encryption.ok_or (parse_u64 start_str) ()) (\<lambda>start.
                        if start \<ge> n then Inl () else Inr (Some (start, n - 1)))
                 else bind_res (Encryption.ok_or (parse_u64 start_str) ()) (\<lambda>start.
                      bind_res (Encryption.ok_or (parse_u64 end_str) ()) (\<lambda>last.
                        if start \<ge> n then Inl ()
                        else if start > min last (n - 1) then Inl ()
                        else Inr (Some (start, min last (n - 1))))))"
    if "\<forall>c \<in> set x. \<not> is_ws c" "CHR '','' \<notin> set x" for x
    using t [OF that(1)] that(2) by (simp add: parse_range_def strip_prefix_def starts_with_def)
  show "parse_range (''bytes='' @ show_nat a @ ''-'' @ show_nat b) n =
      (if n \<le> a \<or> b < a then Inl () else Inr (Some (a, min b (n - 1))))"
    using assms ws show_nat_plain split by (subst pre) (auto simp: Encryption.ok_or_def)
  show "parse_range (''bytes='' @ show_nat a @ ''-'') n = (if n \<le> a then Inl () else Inr (Some (a, n - 1)))"
    using assms ws show_nat_plain split [of "[]"] by (subst pre) (auto simp: Encryption.ok_or_def)
  show "parse_range (''bytes=-'' @ show_nat b) n = (if n = 0 \<or> b = 0 then Inl () else Inr (Some (n - b, n - 1)))"
    using assms ws show_nat_plain pre [of "''-'' @ show_nat b"] by (auto simp: Encryption.ok_or_def)
qed

definition printable :: "web \<Rightarrow> ObjectMeta \<Rightarrow> bool" where
  "printable W meta \<longleftrightarrow> list_all visible_ascii (om_content_type meta) \<and> list_all visible_ascii (om_etag meta)
     \<and> list_all visible_ascii (to_http_date W (om_last_modified meta))"

lemma header_visible:
  assumes "list_all visible_ascii v"
  shows "header name v = (name, Some v)" "owned_header name v = (name, Some v)"
  using assms by (auto simp: header_def owned_header_def to_str_def list_all_iff visible_ascii_def Let_def)

lemma content_range_visible: "list_all visible_ascii (content_range a b n)"
  using show_nat_plain(2) by (simp add: content_range_def visible_ascii_def)

text \<open>A stored object, and a read of it that passes the gates and asks for nothing special.\<close>

definition stored ::
  "env \<Rightarrow> FilesystemStorage \<Rightarrow> string \<Rightarrow> string \<Rightarrow> EncryptionRequest option \<Rightarrow> ObjectMeta \<Rightarrow> bytes \<Rightarrow> world \<Rightarrow> bool" where
  "stored E st b k encryption meta body w \<longleftrightarrow>
     (\<exists>c ct vid. flat_at E st b k w ct meta \<and> meta_for E vid c body meta \<and> sealed_as E st b k vid encryption c body ct)
     \<and> can_encrypt E st encryption (length body)"

definition plain_read ::
  "web \<Rightarrow> Request \<Rightarrow> string \<Rightarrow> string \<Rightarrow> (string \<times> string) list \<Rightarrow> bytes option \<Rightarrow> ObjectMeta \<Rightarrow> world \<Rightarrow> bool" where
  "plain_read W ctx b k params ck meta w \<longleftrightarrow>
     gates W ctx ''GET'' b (Some k) params w = (Inr (), w)
     \<and> list_all (\<lambda>name. \<not> has_param params name) [''retention'', ''legal-hold'', ''tagging'', ''uploadId'', ''partNumber'']
     \<and> extract_customer_key (wb_env W) (rq_headers ctx) = Inr ck
     \<and> check_conditions W (rq_headers ctx) meta = None \<and> printable W meta"

lemma head_stored: "stored E st b k encryption meta body w \<Longrightarrow> head_object E st b k w = (Inr meta, w)"
  using good_key_simps(2,4) [of b k] read_object_meta_calm [of E b k st w meta]
  by (auto simp: stored_def flat_at_def head_object_def bind_act_def lift_res_def)

text \<open>
  C35. Range requests. For an object stored flat (not erasure-coded), a GET that passes the gates,
  has none of the parameters \<open>partNumber\<close>, \<open>uploadId\<close>, \<open>tagging\<close>, \<open>retention\<close> and
  \<open>legal-hold\<close>, whose conditional headers do not end it early, and which carries a \<open>Range\<close> header is answered, for every range that can be
  satisfied, by status 206 with exactly the bytes of the range, of the current object whatever
  version the request names, their number as \<open>Content-Length\<close> and their position as
  \<open>Content-Range\<close>; a range that cannot be satisfied is refused with \<open>InvalidRange\<close>; and
  \<open>bytes=a-b\<close>, \<open>bytes=a-\<close> and \<open>bytes=-n\<close> ask for the bytes from \<open>a\<close> to \<open>b\<close> as far as they exist,
  from \<open>a\<close> on, and the last \<open>n\<close>.
\<close>

theorem ranged_get:
  assumes "stored (wb_env W) (wb_store W) b k encryption meta body w" "ck = customer_key_of encryption"
    and "plain_read W ctx b k params ck meta w" "header_str (rq_headers ctx) ''range'' = Some r"
  shows "(\<forall>x y. parse_range r (length body) = Inr (Some (x, y)) \<longrightarrow>
       x \<le> y \<and> y < length body
       \<and> (\<exists>rdr hs. get_object_api W ctx b k params w = Some (Inr \<lparr>rp_status = 206, rp_headers = hs, rp_body = Streaming rdr\<rparr>, w)
            \<and> delivers (wb_env W) rdr (take (y - x + 1) (drop x body))
            \<and> map_of hs ''Content-Length'' = Some (show_nat (length (take (y - x + 1) (drop x body))))
            \<and> map_of hs ''Content-Range'' = Some (content_range x y (length body))))
    \<and> (parse_range r (length body) = Inl () \<longrightarrow> get_object_api W ctx b k params w = Some (Inl (Rejected invalid_range), w))
    \<and> (\<forall>a n. a < 2 ^ 64 \<and> n < 2 ^ 64 \<longrightarrow>
         parse_range (''bytes='' @ show_nat a @ ''-'' @ show_nat n) (length body) =
           (if length body \<le> a \<or> n < a then Inl () else Inr (Some (a, min n (length body - 1))))
         \<and> parse_range (''bytes='' @ show_nat a @ ''-'') (length body) =
             (if length body \<le> a then Inl () else Inr (Some (a, length body - 1)))
         \<and> parse_range (''bytes=-'' @ show_nat n) (length body) =
             (if length body = 0 \<or> n = 0 then Inl () else Inr (Some (length body - n, length body - 1))))"
proof -
  note p = assms(3) [unfolded plain_read_def]
  have sz: "om_size meta = length body" using assms(1) by (auto simp: stored_def meta_for_def)
  have run: "get_object_api W ctx b k params w = get_ranged W (rq_headers ctx) b k r (query_param params ''versionId'') ck w"
    using p assms(4) by (simp add: get_object_api_def Let_def bind_p_def total_def reject_def lift_res_def has_param_def)
  have head: "s3_err f (head_object (wb_env W) (wb_store W) b k) w = (Inr meta, w)" for f
    using head_stored [OF assms(1)] by (simp add: s3_err_def map_err_act_def)
  have "x \<le> y \<and> y < length body
       \<and> (\<exists>rdr hs. get_object_api W ctx b k params w = Some (Inr \<lparr>rp_status = 206, rp_headers = hs, rp_body = Streaming rdr\<rparr>, w)
            \<and> delivers (wb_env W) rdr (take (y - x + 1) (drop x body))
            \<and> map_of hs ''Content-Length'' = Some (show_nat (length (take (y - x + 1) (drop x body))))
            \<and> map_of hs ''Content-Range'' = Some (content_range x y (length body)))"
    if pr: "parse_range r (length body) = Inr (Some (x, y))" for x y
  proof -
    have xy: "x \<le> y" "y < length body" using parse_range_bounds [OF pr] by auto
    obtain c ct vid where o: "flat_at (wb_env W) (wb_store W) b k w ct meta" "meta_for (wb_env W) vid c body meta"
      "sealed_as (wb_env W) (wb_store W) b k vid encryption c body ct" "can_encrypt (wb_env W) (wb_store W) encryption (length body)"
      using assms(1) by (auto simp: stored_def)
    obtain rdr where g: "get_object_range (wb_env W) (wb_store W) b k x (y - x + 1) ck w = Some (Inr (rdr, meta), w)"
      "delivers (wb_env W) rdr (take (y - x + 1) (drop x body))"
      using get_flat_range_calm [OF o, of x "y - x + 1"] xy assms(2) by auto
    have len: "length (take (y - x + 1) (drop x body)) = y - x + 1" using xy by simp
    have vis: "list_all visible_ascii ''bytes''" by (simp add: visible_ascii_def)
    have "get_object_api W ctx b k params w = Some (Inr \<lparr>rp_status = 206, rp_headers =
        [(''Content-Type'', om_content_type meta), (''Content-Length'', show_nat (y - x + 1)),
         (''Content-Range'', content_range x y (length body)), (''Accept-Ranges'', ''bytes''), (''ETag'', om_etag meta),
         (''Last-Modified'', to_http_date W (om_last_modified meta))], rp_body = Streaming rdr\<rparr>, w)"
      using run p pr g(1) head show_nat_plain(2) content_range_visible vis sz
      by (simp add: get_ranged_def bind_p_def total_def s3_err_p_def lift_res_def build_def base_headers_def header_visible printable_def)
    then show ?thesis using xy g(2) len by auto
  qed
  moreover have "get_object_api W ctx b k params w = Some (Inl (Rejected invalid_range), w)" if "parse_range r (length body) = Inl ()"
    using run p that head sz by (simp add: get_ranged_def bind_p_def total_def fail_def)
  ultimately show ?thesis using parse_range_forms by blast
qed

section \<open>Requests that no gate sees\<close>

context stream_reader
begin

lemma to_bytes_all:
  assumes "inv s" "length acc + length (rest s) \<le> limit"
  shows "to_bytes rd limit s acc = Some (Inr (acc @ rest s))"
  using assms
proof (induction s arbitrary: acc rule: wf_induct_rule [OF wf_measures [of "[\<lambda>s. length (rest s), wait]"]])
  case (1 s)
  note unfold = to_bytes.simps [of rd limit s acc]
  have "(0 :: nat) < 2 ^ 63" by simp
  with "1.prems"(1) show ?case
  proof (cases rule: poll_cases)
    case (pending s')
    with "1.IH" [of s' acc] "1.prems" show ?thesis by (simp add: unfold)
  next
    case (eof s')
    then show ?thesis by (simp add: unfold)
  next
    case (data bs s')
    with "1.IH" [of s' "acc @ bs"] "1.prems" show ?thesis by (simp add: unfold)
  qed
qed

end

lemma put_tagging_calm:
  assumes "json_law (e_object E)" "good_key b k" "store_ok st (w_root w)" "w_faults w = []"
    and "lookup (meta_path (st_buckets_dir st) b k) (w_root w) = Some (File (fst (e_object E) om))"
  shows "\<exists>w'. put_object_tagging E st b k tags w = (Inr (), w')
    \<and> lookup (meta_path (st_buckets_dir st) b k) (w_root w') =
        Some (File (fst (e_object E) (om\<lparr>om_tags := if tags = [] then None else Some tags\<rparr>)))"
proof -
  let ?p = "kdir st b k @ [base_name k @ ''.meta.json'']" and ?om = "om\<lparr>om_tags := if tags = [] then None else Some tags\<rparr>"
  note g = good_key_simps [OF assms(2)]
  have v: "lookup ?p (w_root w) = Some (File (fst (e_object E) om))" using assms(5) g(6) [of st] by simp
  have rd: "read_object_meta E st b k w = (Inr om, w)" by (rule read_object_meta_calm [OF assms(1-4) v])
  have pl: "plain ?p" using key_dir_plain [OF assms(2), of st] assms(3) by (auto simp: store_ok_def)
  have d: "is_dir_at (kdir st b k) (w_root w)" using exists_parent [OF v] by simp
  have "write_json (e_object E) ?p ?om w = (Inr (), w\<lparr>w_root := set_node ?p (Some (File (fst (e_object E) ?om))) (w_root w)\<rparr>)"
    using write_json_ok [of ?p w "e_object E" ?om] pl assms(4) d v by (simp add: is_dir_at_def)
  then have "put_object_tagging E st b k tags w = (Inr (), w\<lparr>w_root := set_node ?p (Some (File (fst (e_object E) ?om))) (w_root w)\<rparr>)"
    using rd g by (simp add: put_object_tagging_def bind_act_def lift_res_def)
  moreover have "lookup ?p (set_node ?p (Some (File (fst (e_object E) ?om))) (w_root w)) = Some (File (fst (e_object E) ?om))"
    using lookup_set_same [of ?p "w_root w"] d by simp
  ultimately show ?thesis using g(6) [of st] by auto
qed

text \<open>
  C34. A gap between tenants. A PUT whose query has no equals sign counts as the creation of a
  bucket for the tenant check of the middleware, and the tagging handler has no gate of its own:
  a request \<open>PUT /b/k?tagging\<close> replaces the tags of an object in a bucket to which the
  credential that signed it has no access.
\<close>

theorem tagging_crosses_tenants:
  assumes "good_buckets (wb_env W) (wb_store W) w" "bucket_table (wb_env W) (wb_store W) w b = Some m"
    and "json_law (e_object (wb_env W))" "good_key b k"
    and "lookup (meta_path (st_buckets_dir (wb_store W)) b k) (w_root w) = Some (File (fst (e_object (wb_env W)) om))"
    and "\<not> bucket_access_allowed m who (credential_lookup (ap_credentials (wb_app W)) who) (ap_config (wb_app W))"
    and "rq_method r = ''PUT''" "rq_query r = Some ''tagging''" "rq_principal r = Some who"
    and "header_get (rq_headers r) ''x-amz-copy-source'' = None"
    and "body_inv es" "length (body_bytes es) \<le> TAGGING_BODY_MAX" "parse_tags W (body_bytes es) = Inr tags"
  shows "ensure_bucket_access (wb_app W) who b w = (Inl (Rejected (access_denied ''Access Denied'')), w)
    \<and> enforce_tenant_scope (wb_app W) r w = (Inr (), w)
    \<and> (\<exists>w'. put_object_api W body_read r b k [(''tagging'', [])] es w =
           Some (Inr \<lparr>rp_status = 200, rp_headers = [], rp_body = NoBody\<rparr>, w')
         \<and> lookup (meta_path (st_buckets_dir (wb_store W)) b k) (w_root w') =
             Some (File (fst (e_object (wb_env W)) (om\<lparr>om_tags := if tags = [] then None else Some tags\<rparr>))))"
proof -
  have nf: "store_ok (wb_store W) (w_root w)" "w_faults w = []" using assms(1) by (auto simp: good_buckets_def)
  obtain w' where put: "put_object_tagging (wb_env W) (wb_store W) b k tags w = (Inr (), w')"
    and look: "lookup (meta_path (st_buckets_dir (wb_store W)) b k) (w_root w') =
        Some (File (fst (e_object (wb_env W)) (om\<lparr>om_tags := if tags = [] then None else Some tags\<rparr>)))"
    using put_tagging_calm [OF assms(3,4) nf assms(5), of tags] by blast
  have v: "is_valid_bucket_name b" using good_key_simps(1) [OF assms(4)] .
  have "ensure_bucket_access (wb_app W) who b w = (Inl (Rejected (access_denied ''Access Denied'')), w)"
    using find_bucket_meta_good [OF assms(1), of b] assms(2,6) v by (simp add: ensure_bucket_access_def bind_act_def fail_def)
  moreover have "enforce_tenant_scope (wb_app W) r w = (Inr (), w)"
    using assms(7,8) by (simp add: enforce_tenant_scope_def plan_tenant_scope_def is_create_bucket_def query_str_def ok_def split: option.split)
  moreover have "body_bytes_upto body_read TAGGING_BODY_MAX es w = Some (Inr (body_bytes es), w)"
    using body.to_bytes_all [of es "[]" TAGGING_BODY_MAX] assms(11,12) by (simp add: body_bytes_upto_def lift_opt_def)
  then have "put_object_api W body_read r b k [(''tagging'', [])] es w = Some (Inr \<lparr>rp_status = 200, rp_headers = [], rp_body = NoBody\<rparr>, w')"
    using assms(10,13) put
    by (simp add: put_object_api_def has_param_def query_param_def put_object_tagging_api_def bind_p_def total_def bind_act_def
        reject_def lift_res_def s3_err_def map_err_act_def build_def)
  ultimately show ?thesis using look by blast
qed

section \<open>An example\<close>

text \<open>Dates are numbers, every XML body is one tag.\<close>

definition toy_web :: "string \<Rightarrow> web" where
  "toy_web tenant = \<lparr>wb_app = toy_app tenant, wb_iso = (\<lambda>_. None), wb_rfc2822 = (\<lambda>_. None), wb_show_http = (\<lambda>_. ''d''),
     wb_percent_decode = Some,
     wb_xml = (\<lambda>_. ([XStart ''Key'', XText (Some ''k''), XEnd ''Key'', XStart ''Value'', XText (Some ''v''), XEnd ''Value''], True)),
     wb_retention = (\<lambda>_. None), wb_hold = (\<lambda>_. None), wb_to_xml = (\<lambda>_. None),
     wb_event = (\<lambda>_. [], \<lambda>_. Inl ''no events''), wb_url_host = (\<lambda>_. None)\<rparr>"

definition toy_plain :: ObjectMeta where
  "toy_plain = plain_object_meta ''a'' 3 ''e'' ''text/plain'' ''now''"

abbreviation toy_stored :: world where
  "toy_stored \<equiv> toy_with [(''a'', File [1, 2, 3]), (''a.meta.json'', File (fst toy_json toy_plain))]"

lemma toy_stored_ready: "upload_ready toy_env toy_storage ''photos'' toy_bucket ''a'' toy_stored"
  by (rule toy_with_ready) (simp add: tmp_name_def)

lemma toy_stored_meta:
  "read_bucket_meta toy_env toy_storage ''photos'' toy_stored = (Inr toy_bucket, toy_stored)"
  using toy_stored_ready by (intro read_bucket_meta_ok) (auto simp: upload_ready_def toy_json_law toy_valid)

lemma toy_stored_object: "stored toy_env toy_storage ''photos'' ''a'' None toy_plain [1, 2, 3] toy_stored"
proof -
  have "flat_at toy_env toy_storage ''photos'' ''a'' toy_stored [1, 2, 3] toy_plain"
    using toy_stored_ready by (simp add: flat_at_def upload_ready_def toy_dirs toy_with_def lookup_Cons is_dir_at_def)
  moreover have "meta_for toy_env None None [1, 2, 3] toy_plain"
    by (simp add: meta_for_def toy_plain_def plain_object_meta_def)
  moreover have "sealed_as toy_env toy_storage ''photos'' ''a'' None None None [1, 2, 3] [1, 2, 3]" by (simp add: sealed_as_def)
  moreover have "can_encrypt toy_env toy_storage None (length [1, 2, 3 :: u8])" by (simp add: can_encrypt_def)
  ultimately show ?thesis unfolding stored_def by blast
qed

definition toy_ranged :: Request where
  "toy_ranged = \<lparr>rq_method = ''GET'', rq_path = ''/photos/a'', rq_query = Some ''versionId=v1'', rq_headers = [(''range'', ''bytes=1-9'')],
     rq_peer = None, rq_principal = None, rq_vhost = None\<rparr>"

lemma toy_gates:
  "gates (toy_web t) toy_ranged ''GET'' ''photos'' (Some ''a'') [(''versionId'', ''v1'')] toy_stored = (Inr (), toy_stored)"
proof -
  have policy: "enforce_policy_target (toy_app t) tgt k ip toy_stored = (Inr (), toy_stored)" if "pt_bucket tgt = ''photos''" for tgt k ip
    using that toy_stored_meta
    by (simp add: enforce_policy_target_def get_bucket_policy_def bind_act_def attempt_def ok_def toy_bucket_def new_bucket_meta_def)
  have "extract_bucket_and_key (toy_app t) ''/photos/a'' None None = Some (''photos'', Some ''a'')"
  proof -
    have "trim_start_matches CHR ''/'' ''/photos/a'' = ''photos/a''" "split_once CHR ''/'' ''photos/a'' = Some (''photos'', ''a'')" by code_simp+
    then show ?thesis by (simp add: extract_bucket_and_key_def)
  qed
  moreover have "host_header_value (rq_headers toy_ranged) = None"
    unfolding toy_ranged_def by code_simp
  ultimately have "pt_bucket tgt = ''photos''"
    if "resolve_policy_target_from_parts (toy_app t) ''GET'' ''/photos/a'' q (rq_headers toy_ranged) None = Some tgt" for tgt q
    using that by (auto simp: resolve_policy_target_from_parts_def bind_eq_Some_conv split: if_splits)
  with policy have "enforce_bucket_policy_for_target (toy_app t)
      (resolve_policy_target_from_parts (toy_app t) ''GET'' ''/photos/a'' q (rq_headers toy_ranged) None) k ip toy_stored = (Inr (), toy_stored)" for q k ip
    by (auto simp: enforce_bucket_policy_for_target_def ok_def split: option.split)
  then show ?thesis
    by (simp add: gates_def enforce_s3_bucket_gates_def enforce_tenant_bucket_def ensure_bucket_access_optional_def
        bind_act_def ok_def enforce_bucket_policy_for_parts_def Let_def toy_web_def)
      (simp add: toy_ranged_def ok_def)
qed

theorem ranged_get_witness:
  "\<exists>rdr hs. get_object_api (toy_web ''default'') toy_ranged ''photos'' ''a'' [(''versionId'', ''v1'')] toy_stored =
       Some (Inr \<lparr>rp_status = 206, rp_headers = hs, rp_body = Streaming rdr\<rparr>, toy_stored)
     \<and> delivers toy_env rdr [2, 3]"
proof -
  have h: "header_str (rq_headers toy_ranged) ''range'' = Some ''bytes=1-9''" unfolding toy_ranged_def by code_simp
  have none: "header_str (rq_headers toy_ranged) x = None" if "to_ascii_lowercase x \<noteq> ''range''" for x
    using that by (simp add: toy_ranged_def header_str_def header_get_def)
  have hs: "header_str (rq_headers toy_ranged) ''x-amz-server-side-encryption-customer-algorithm'' = None"
    "header_str (rq_headers toy_ranged) ''if-match'' = None" "header_str (rq_headers toy_ranged) ''if-none-match'' = None"
    "header_str (rq_headers toy_ranged) ''if-modified-since'' = None" "header_str (rq_headers toy_ranged) ''if-unmodified-since'' = None"
    by (rule none, code_simp)+
  have vis: "list_all visible_ascii ''text/plain''" "list_all visible_ascii ''e''" "list_all visible_ascii ''now''" by code_simp+
  have p: "plain_read (toy_web ''default'') toy_ranged ''photos'' ''a'' [(''versionId'', ''v1'')] None toy_plain toy_stored"
    using toy_gates hs vis
    by (simp add: plain_read_def has_param_def query_param_def extract_customer_key_def check_conditions_def printable_def
        toy_plain_def plain_object_meta_def to_http_date_def toy_web_def)
  have w: "wb_env (toy_web ''default'') = toy_env" "wb_store (toy_web ''default'') = toy_storage" by (simp_all add: toy_web_def)
  have "show_nat 1 = ''1''" "show_nat 9 = ''9''" by code_simp+
  then have pr: "parse_range ''bytes=1-9'' (length [1, 2, 3 :: u8]) = Inr (Some (1, 2))"
    using parse_range_forms(1) [of 1 9 "length [1, 2, 3 :: u8]"] by simp
  show ?thesis
    using ranged_get [of "toy_web ''default''" "''photos''" "''a''" None toy_plain "[1, 2, 3]" toy_stored None toy_ranged,
        unfolded w, OF toy_stored_object _ p h] pr by auto
qed

definition toy_tag_request :: Request where
  "toy_tag_request = (toy_get ''PUT'' ''/photos/a'' (Some ''tagging''))\<lparr>rq_principal := Some ''AK''\<rparr>"

theorem tagging_crosses_tenants_witness:
  "ensure_bucket_access (toy_app ''other'') ''AK'' ''photos'' toy_stored = (Inl (Rejected (access_denied ''Access Denied'')), toy_stored)
    \<and> (\<exists>w'. put_object_api (toy_web ''other'') body_read toy_tag_request ''photos'' ''a'' [(''tagging'', [])] [] toy_stored =
           Some (Inr \<lparr>rp_status = 200, rp_headers = [], rp_body = NoBody\<rparr>, w')
         \<and> lookup [''buckets'', ''photos'', ''a.meta.json''] (w_root w') = Some (File (fst toy_json (toy_plain\<lparr>om_tags := Some [(''k'', ''v'')]\<rparr>))))"
proof -
  have w: "wb_app (toy_web ''other'') = toy_app ''other''" by (simp add: toy_web_def)
  have "bucket_entry_ok toy_env toy_storage (w_root toy_stored) b" for b
    by (auto simp: bucket_entry_ok_def toy_with_def lookup_Cons is_dir_at_def)
  then have g: "good_buckets toy_env toy_storage toy_stored"
    by (simp add: good_buckets_def toy_json_law store_ok_def toy_with_def lookup_Cons is_dir_at_def)
  have t: "bucket_table toy_env toy_storage toy_stored ''photos'' = Some toy_bucket"
    using bucket_table_Some [OF g toy_valid] toy_stored_ready by (simp add: upload_ready_def)
  have denied: "\<not> bucket_access_allowed toy_bucket ''AK'' (credential_lookup (ap_credentials (toy_app ''other'')) ''AK'') (ap_config (toy_app ''other''))"
    by (simp add: bucket_access_allowed_def is_global_admin_def credential_lookup_def Let_def)
      (simp add: toy_bucket_def new_bucket_meta_def toy_credential_def toy_config_def bucket_tenant_id_def credential_tenant_id_def
        effective_tenant_id_def configured_default_tenant_def DEFAULT_TENANT_def trim_def)
  have mp: "meta_path (st_buckets_dir toy_storage) ''photos'' ''a'' = [''buckets'', ''photos'', ''a.meta.json'']"
    using good_key_simps(6) [OF toy_key(2), of toy_storage] toy_dirs by simp
  have l: "lookup (meta_path (st_buckets_dir toy_storage) ''photos'' ''a'') (w_root toy_stored) = Some (File (fst (e_object toy_env) toy_plain))"
    unfolding mp by (simp add: toy_with_def lookup_Cons)
  have hd: "header_get (rq_headers toy_tag_request) ''x-amz-copy-source'' = None"
    unfolding toy_tag_request_def toy_get_def by code_simp
  have tags: "parse_tags (toy_web ''other'') (body_bytes []) = Inr [(''k'', ''v'')]"
    by (simp add: parse_tags_def toy_web_def tag_event_def insert_tag_def check_tags_def)
  show ?thesis
    using tagging_crosses_tenants [of "toy_web ''other''" toy_stored "''photos''" toy_bucket "''a''" toy_plain "''AK''" toy_tag_request "[]",
        unfolded w toy_app_simps(1,2), OF g t _ toy_key(2) l denied _ _ _ hd _ _ tags]
    by (simp add: toy_json_law toy_tag_request_def body_inv_def TAGGING_BODY_MAX_def mp [simplified])
qed

theorem aws_chunked_roundtrip_witness:
  "body_to_reader body_read [(''x-amz-content-sha256'', ''STREAMING-AWS4-HMAC-SHA256-PAYLOAD'')]
     [Some (as_bytes ''3;chunk-signature=ab''), None, Some ([0x0D, 0x0A, 1, 2, 3, 0x0D] @ [0x0A] @ as_bytes ''0;x''), Some [0x0D, 0x0A]] toy_world
   = Some (Inr (Decoded [1, 2, 3]), toy_world)"
proof -
  let ?h = "[(''x-amz-content-sha256'', ''STREAMING-AWS4-HMAC-SHA256-PAYLOAD'')]"
  let ?es = "[Some (as_bytes ''3;chunk-signature=ab''), None, Some ([0x0D, 0x0A, 1, 2, 3, 0x0D] @ [0x0A] @ as_bytes ''0;x''), Some [0x0D, 0x0A]]"
  have h: "header_str ?h ''x-amz-content-sha256'' = Some ''STREAMING-AWS4-HMAC-SHA256-PAYLOAD''" by code_simp
  have l: "line_ok ''3'' '';chunk-signature=ab''" "line_ok ''0'' '';x''" by code_simp+
  have n: "from_str_radix16 ''3'' = Some 3" "from_str_radix16 ''0'' = Some 0" by (simp_all add: from_str_radix16_def hex_val_def)
  show ?thesis
    using aws_chunked_roundtrip [OF h, of "[(''3'', '';chunk-signature=ab'', [1, 2, 3])]" "''0''" "'';x''" ?es "[]" toy_world] l n
    by (simp add: chunk_ok_def aws_chunk_def aws_line_def body_inv_def as_bytes_def)
qed

end
