(* ===== verification/Shards.thy ===== *)
theory Shards
  imports Recovery Toy ListApi MultipartLaws
begin

text \<open>
  Distributed erasure coding of the storage tier: placement of shards on nodes, reading and
  writing them, reconstruction (\<open>maxio-cluster/src/ec/mod.rs\<close>), and the bitrot scanner that
  verifies the local shards and heals the corrupt ones (\<open>ec/bitrot.rs\<close>).

  The nodes of one process are storages in one tree; peers of other processes are reached by
  \<open>http_get\<close>, a parameter that maps a URL to the body of a successful response. The maps
  \<open>nodes\<close> and \<open>peer_urls\<close> are association lists; their order stands for the iteration order.
  A panic is the error \<open>AnyPanic\<close>, which no \<open>match\<close> of the code handles.
\<close>

datatype any_error = AnyIo io_error | AnyMsg string | AnyPanic

type_synonym 'a any_act = "(any_error, 'a) act"

definition any_io :: "(io_error, 'a) act \<Rightarrow> 'a any_act" where
  "any_io = map_err_act AnyIo"

record EcShardPlacement =
  sp_bucket :: string
  sp_key :: string
  sp_data_shards :: nat
  sp_parity_shards :: nat
  sp_placements :: "(nat \<times> string) list"

type_synonym node_map = "(string \<times> FilesystemStorage) list"

section \<open>Placement, reads and writes\<close>

text \<open>The sum of two \<open>u32\<close> wraps in a release build; indexing by \<open>i mod 0\<close> panics.\<close>

definition place_shards :: "string \<Rightarrow> string \<Rightarrow> nat \<Rightarrow> nat \<Rightarrow> string list \<Rightarrow> EcShardPlacement option" where
  "place_shards bucket key data_shards parity_shards node_ids =
     (let total = as_u32 (data_shards + parity_shards)
      in if 0 < total \<and> node_ids = [] then None
         else Some \<lparr>sp_bucket = bucket, sp_key = key, sp_data_shards = data_shards, sp_parity_shards = parity_shards,
                sp_placements = map (\<lambda>shard. (shard, node_ids ! (shard mod length node_ids))) [0..<total]\<rparr>)"

definition shard_path :: "path \<Rightarrow> string \<Rightarrow> string \<Rightarrow> nat \<Rightarrow> path" where
  "shard_path data_root bucket key shard =
     join_path (join_path (data_root @ [''.cluster-shards'']) bucket) key @ [chunk_name shard]"

text \<open>\<open>file_name\<close> is none for the root and after \<open>..\<close>; \<open>with_file_name\<close> then appends.\<close>

definition checksum_sidecar :: "path \<Rightarrow> path" where
  "checksum_sidecar shard_file =
     (if shard_file = [] \<or> last shard_file = ''..'' then shard_file @ [''shard.sha256'']
      else butlast shard_file @ [last shard_file @ ''.sha256''])"

definition shard_checksum_hex :: "env \<Rightarrow> bytes \<Rightarrow> string" where
  "shard_checksum_hex E data = e_hex E (e_sha256 E data)"

definition write_checksum_sidecar :: "env \<Rightarrow> path \<Rightarrow> bytes \<Rightarrow> unit any_act" where
  "write_checksum_sidecar E shard_file data =
     (let sidecar = checksum_sidecar shard_file
      in bind_act (any_io (fs_create_dir_all (butlast sidecar))) (\<lambda>_.
           any_io (fs_write sidecar (as_bytes (shard_checksum_hex E data @ [CHR 0x0A])))))"

definition write_shard ::
  "env \<Rightarrow> node_map \<Rightarrow> EcShardPlacement \<Rightarrow> nat \<Rightarrow> bytes \<Rightarrow> unit any_act" where
  "write_shard E nodes placement shard_index data =
     (case map_of (sp_placements placement) shard_index of
        None \<Rightarrow> fail (AnyMsg (''shard '' @ show_nat shard_index @ '' not placed''))
      | Some owner \<Rightarrow>
          (case map_of nodes owner of
             None \<Rightarrow> fail (AnyMsg (''unknown node '' @ owner))
           | Some fs \<Rightarrow>
               (let path = shard_path (st_data_root fs) (sp_bucket placement) (sp_key placement) shard_index
                in bind_act (any_io (fs_create_dir_all (butlast path))) (\<lambda>_.
                   bind_act (any_io (fs_write path data)) (\<lambda>_.
                     write_checksum_sidecar E path data)))))"

definition write_shard_on_node ::
  "node_map \<Rightarrow> string \<Rightarrow> string \<Rightarrow> string \<Rightarrow> nat \<Rightarrow> bytes \<Rightarrow> unit any_act" where
  "write_shard_on_node nodes node_id bucket key shard_index data =
     (case map_of nodes node_id of
        None \<Rightarrow> fail (AnyMsg (''unknown node '' @ node_id))
      | Some fs \<Rightarrow>
          (let path = shard_path (st_data_root fs) bucket key shard_index
           in bind_act (any_io (fs_create_dir_all (butlast path))) (\<lambda>_. any_io (fs_write path data))))"

fun peer_fetch :: "node_map \<Rightarrow> string \<Rightarrow> EcShardPlacement \<Rightarrow> nat \<Rightarrow> bytes option any_act" where
  "peer_fetch [] owner placement shard_index = ok None"
| "peer_fetch ((node_id, peer) # nodes) owner placement shard_index =
     (if node_id = owner then peer_fetch nodes owner placement shard_index
      else bind_act
             (attempt (fs_read (shard_path (st_data_root peer) (sp_bucket placement) (sp_key placement) shard_index)))
             (\<lambda>r. case r of Inr b \<Rightarrow> ok (Some b) | Inl _ \<Rightarrow> peer_fetch nodes owner placement shard_index))"

definition read_shard :: "node_map \<Rightarrow> EcShardPlacement \<Rightarrow> nat \<Rightarrow> bytes any_act" where
  "read_shard nodes placement shard_index =
     (case map_of (sp_placements placement) shard_index of
        None \<Rightarrow> fail (AnyMsg (''shard '' @ show_nat shard_index @ '' not placed''))
      | Some owner \<Rightarrow>
          (case map_of nodes owner of
             None \<Rightarrow> fail (AnyMsg (''unknown node '' @ owner))
           | Some fs \<Rightarrow>
               bind_act (attempt (fs_read
                   (shard_path (st_data_root fs) (sp_bucket placement) (sp_key placement) shard_index))) (\<lambda>r.
                 case r of
                   Inr b \<Rightarrow> ok b
                 | Inl e \<Rightarrow>
                     if io_kind e = NotFoundKind
                     then bind_act (peer_fetch nodes owner placement shard_index) (\<lambda>found.
                            case found of Some b \<Rightarrow> ok b | None \<Rightarrow> fail (AnyIo e))
                     else fail (AnyIo e))))"

text \<open>\<open>GET /internal/shard\<close> on the node that holds the file.\<close>

definition get_shard :: "FilesystemStorage \<Rightarrow> string \<Rightarrow> string \<Rightarrow> nat \<Rightarrow> (nat, bytes) act" where
  "get_shard st bucket key index =
     map_err_act (\<lambda>_. 404) (fs_read (shard_path (st_data_root st) bucket key index))"

section \<open>Reconstruction\<close>

fun place_present :: "nat \<Rightarrow> nat \<Rightarrow> (nat \<times> bytes) list \<Rightarrow> bytes option list \<Rightarrow> any_error + bytes option list" where
  "place_present n shard_size [] shards = Inr shards"
| "place_present n shard_size ((idx, data) # present) shards =
     (if n \<le> idx then Inl (AnyMsg (''shard index '' @ show_nat idx @ '' out of range''))
      else place_present n shard_size present (shards[idx := Some (resize shard_size data)]))"

definition rs_new :: "nat \<Rightarrow> nat \<Rightarrow> string + unit" where
  "rs_new k m =
     (if k = 0 then Inl ''Too few data shards'' else if m = 0 then Inl ''Too few parity shards''
      else if k + m > 256 then Inl ''Too many shards'' else Inr ())"

definition reconstruct_shard ::
  "env \<Rightarrow> nat \<Rightarrow> nat \<Rightarrow> nat \<Rightarrow> (nat \<times> bytes) list \<Rightarrow> nat \<Rightarrow> any_error + bytes" where
  "reconstruct_shard E k m shard_size present target =
     bind_res (map_err (\<lambda>e. AnyMsg (''RS init: '' @ e)) (rs_new k m)) (\<lambda>_.
     bind_res (place_present (k + m) shard_size present (replicate (k + m) None)) (\<lambda>shards.
     (let available = length (filter (\<lambda>s. s \<noteq> None) shards)
      in if available < k
         then Inl (AnyMsg (''need at least '' @ show_nat k @ '' shards for reconstruction, have '' @ show_nat available))
         else bind_res (map_err (\<lambda>e. AnyMsg (''RS reconstruct: '' @ e)) (e_rs_decode E k m shards)) (\<lambda>rebuilt.
                if length rebuilt \<le> target then Inl AnyPanic
                else (case rebuilt ! target of
                        Some d \<Rightarrow> Inr d
                      | None \<Rightarrow> Inl (AnyMsg (''reconstruction produced no shard '' @ show_nat target)))))))"

section \<open>The bitrot scanner\<close>

record BitrotMetrics =
  bit_shards_scanned :: "64 word"
  bit_corrupt_detected :: "64 word"
  bit_shards_healed :: "64 word"
  bit_scan_errors :: "64 word"

text \<open>The contents of the sidecar as a string of its bytes.\<close>

definition text_of :: "bytes \<Rightarrow> string" where
  "text_of data = map (\<lambda>b. char_of (unat b)) data"

definition verify_shard_checksum :: "env \<Rightarrow> path \<Rightarrow> bytes \<Rightarrow> bool any_act" where
  "verify_shard_checksum E shard_file data =
     bind_act (attempt (fs_read_to_string (checksum_sidecar shard_file))) (\<lambda>r.
       case r of
         Inr s \<Rightarrow> ok (shard_checksum_hex E data = to_ascii_lowercase (trim (text_of s)))
       | Inl e \<Rightarrow>
           if io_kind e = NotFoundKind
           then bind_act (write_checksum_sidecar E shard_file data) (\<lambda>_. ok True)
           else fail (AnyIo e))"

definition fetch_shard_http ::
  "(string \<Rightarrow> any_error + bytes) \<Rightarrow> string \<Rightarrow> string \<Rightarrow> string \<Rightarrow> nat \<Rightarrow> any_error + bytes" where
  "fetch_shard_http http_get peer_base_url bucket key shard_index =
     http_get (trim_end_matches CHR ''/'' peer_base_url @ ''/internal/shard?bucket='' @ bucket @ ''&key='' @ key
       @ ''&index='' @ show_nat shard_index)"

text \<open>The shards of a process: its storage, node id, peers by number and by name, and the network.\<close>

record shard_site =
  ss_local_fs :: FilesystemStorage
  ss_local_node_id :: string
  ss_peer_urls :: "(nat \<times> string) list"
  ss_nodes :: "node_map option"
  ss_http_get :: "string \<Rightarrow> any_error + bytes"

definition local_shard :: "shard_site \<Rightarrow> EcShardPlacement \<Rightarrow> nat \<Rightarrow> path" where
  "local_shard S placement idx =
     shard_path (st_data_root (ss_local_fs S)) (sp_bucket placement) (sp_key placement) idx"

definition fetch_from_peer :: "shard_site \<Rightarrow> EcShardPlacement \<Rightarrow> nat \<Rightarrow> string \<Rightarrow> bytes option" where
  "fetch_from_peer S placement idx owner =
     (case parse_u64 owner of
        None \<Rightarrow> None
      | Some node_id \<Rightarrow>
          (case map_of (ss_peer_urls S) node_id of
             None \<Rightarrow> None
           | Some base \<Rightarrow>
               (case fetch_shard_http (ss_http_get S) base (sp_bucket placement) (sp_key placement) idx of
                  Inr b \<Rightarrow> Some b | Inl _ \<Rightarrow> None)))"

text \<open>\<open>if let Ok(b) = m\<close>.\<close>

definition ok_only :: "('e, 'a) act \<Rightarrow> 'a option any_act" where
  "ok_only m = bind_act (attempt m) (\<lambda>r. ok (case r of Inr b \<Rightarrow> Some b | Inl _ \<Rightarrow> None))"

definition gather_one :: "shard_site \<Rightarrow> EcShardPlacement \<Rightarrow> nat \<Rightarrow> string \<Rightarrow> bytes option any_act" where
  "gather_one S placement idx owner =
     bind_act (if owner = ss_local_node_id S then ok_only (fs_read (local_shard S placement idx)) else ok None) (\<lambda>r.
       if r \<noteq> None then ok r
       else bind_act (case ss_nodes S of None \<Rightarrow> ok None | Some nodes \<Rightarrow> ok_only (read_shard nodes placement idx)) (\<lambda>r.
              if r \<noteq> None then ok r else ok (fetch_from_peer S placement idx owner)))"

fun gather_loop ::
  "shard_site \<Rightarrow> EcShardPlacement \<Rightarrow> nat option \<Rightarrow> (nat \<times> string) list \<Rightarrow> (nat \<times> bytes) list any_act" where
  "gather_loop S placement skip [] = ok []"
| "gather_loop S placement skip ((idx, owner) # rest) =
     (if skip = Some idx then gather_loop S placement skip rest
      else bind_act (gather_one S placement idx owner) (\<lambda>r.
           bind_act (gather_loop S placement skip rest) (\<lambda>present.
             ok (case r of Some b \<Rightarrow> (idx, b) # present | None \<Rightarrow> present))))"

definition gather_shards :: "shard_site \<Rightarrow> EcShardPlacement \<Rightarrow> nat option \<Rightarrow> (nat \<times> bytes) list any_act" where
  "gather_shards S placement skip = gather_loop S placement skip (sp_placements placement)"

definition shard_size_from_present :: "(nat \<times> bytes) list \<Rightarrow> nat" where
  "shard_size_from_present present = foldr (\<lambda>(_, b) n. max (length b) n) present 0"

definition heal_local_shard :: "env \<Rightarrow> shard_site \<Rightarrow> EcShardPlacement \<Rightarrow> nat \<Rightarrow> unit any_act" where
  "heal_local_shard E S placement corrupt_index =
     bind_act (gather_shards S placement (Some corrupt_index)) (\<lambda>present.
     (let shard_size = shard_size_from_present present
      in if shard_size = 0
         then fail (AnyMsg (''no peer shards available to heal shard '' @ show_nat corrupt_index))
         else bind_act (lift_res (reconstruct_shard E (sp_data_shards placement) (sp_parity_shards placement)
                          shard_size present corrupt_index)) (\<lambda>rebuilt.
              (let path = local_shard S placement corrupt_index
               in bind_act (any_io (fs_create_dir_all (butlast path))) (\<lambda>_.
                  bind_act (any_io (fs_write path rebuilt)) (\<lambda>_.
                    write_checksum_sidecar E path rebuilt))))))"

definition scan_verdict ::
  "env \<Rightarrow> shard_site \<Rightarrow> EcShardPlacement \<Rightarrow> nat \<Rightarrow> any_error + bool \<Rightarrow> BitrotMetrics \<Rightarrow> BitrotMetrics any_act" where
  "scan_verdict E S placement idx verdict mx =
     (case verdict of
        Inr True \<Rightarrow> ok mx
      | Inr False \<Rightarrow>
          (let mx = mx\<lparr>bit_corrupt_detected := bit_corrupt_detected mx + 1\<rparr>
           in bind_act (attempt (heal_local_shard E S placement idx)) (\<lambda>r.
                case r of
                  Inr _ \<Rightarrow> ok (mx\<lparr>bit_shards_healed := bit_shards_healed mx + 1\<rparr>)
                | Inl AnyPanic \<Rightarrow> fail AnyPanic
                | Inl _ \<Rightarrow> ok (mx\<lparr>bit_scan_errors := bit_scan_errors mx + 1\<rparr>)))
      | Inl _ \<Rightarrow> ok (mx\<lparr>bit_scan_errors := bit_scan_errors mx + 1\<rparr>))"

definition scan_shard ::
  "env \<Rightarrow> shard_site \<Rightarrow> EcShardPlacement \<Rightarrow> nat \<Rightarrow> string \<Rightarrow> BitrotMetrics \<Rightarrow> BitrotMetrics any_act" where
  "scan_shard E S placement idx owner mx =
     (if owner \<noteq> ss_local_node_id S then ok mx
      else bind_act (attempt (fs_read (local_shard S placement idx))) (\<lambda>r.
             case r of
               Inl _ \<Rightarrow> ok (mx\<lparr>bit_scan_errors := bit_scan_errors mx + 1\<rparr>)
             | Inr data \<Rightarrow>
                 (let mx = mx\<lparr>bit_shards_scanned := bit_shards_scanned mx + 1\<rparr>
                  in bind_act (attempt (verify_shard_checksum E (local_shard S placement idx) data)) (\<lambda>verdict.
                       scan_verdict E S placement idx verdict mx))))"

fun scan_placement ::
  "env \<Rightarrow> shard_site \<Rightarrow> EcShardPlacement \<Rightarrow> (nat \<times> string) list \<Rightarrow> BitrotMetrics \<Rightarrow> BitrotMetrics any_act" where
  "scan_placement E S placement [] mx = ok mx"
| "scan_placement E S placement ((idx, owner) # rest) mx =
     bind_act (scan_shard E S placement idx owner mx) (\<lambda>mx. scan_placement E S placement rest mx)"

fun scan_placements :: "env \<Rightarrow> shard_site \<Rightarrow> EcShardPlacement list \<Rightarrow> BitrotMetrics \<Rightarrow> BitrotMetrics any_act" where
  "scan_placements E S [] mx = ok mx"
| "scan_placements E S (placement # rest) mx =
     bind_act (scan_placement E S placement (sp_placements placement) mx) (\<lambda>mx. scan_placements E S rest mx)"


section \<open>Names and sidecars\<close>

abbreviation side_name :: "nat \<Rightarrow> string" where
  "side_name i \<equiv> chunk_name i @ ''.sha256''"

definition shard_dir :: "shard_site \<Rightarrow> EcShardPlacement \<Rightarrow> path" where
  "shard_dir S pl =
     join_path (join_path (st_data_root (ss_local_fs S) @ [''.cluster-shards'']) (sp_bucket pl)) (sp_key pl)"

lemma local_shard_eq: "local_shard S pl i = shard_dir S pl @ [chunk_name i]"
  by (simp add: local_shard_def shard_dir_def shard_path_def)

lemma chunk_name_no_dot: "CHR ''.'' \<notin> set (chunk_name i)"
  using show_nat_no_dot [of i] by (auto simp: chunk_name_def)

lemma chunk_name_not_side [simp]: "chunk_name i \<noteq> side_name j" "side_name j \<noteq> chunk_name i"
  "chunk_name i \<noteq> ''..''" "side_name i \<noteq> ''..''" "''..'' \<noteq> chunk_name i" "''..'' \<noteq> side_name i"
proof -
  show a: "chunk_name i \<noteq> side_name j" for i j using chunk_name_no_dot [of i] by auto
  show "side_name j \<noteq> chunk_name i" using a [of i j] by metis
  show b: "chunk_name i \<noteq> ''..''" using chunk_name_no_dot [of i] by auto
  show c: "side_name i \<noteq> ''..''" by (auto dest: arg_cong [of _ _ length])
  show "''..'' \<noteq> chunk_name i" "''..'' \<noteq> side_name i" using b c by metis+
qed

lemma chunk_name_eq [simp]: "chunk_name i = chunk_name j \<longleftrightarrow> i = j"
  using chunk_name_inj by blast

lemma checksum_sidecar_shard [simp]: "checksum_sidecar (d @ [chunk_name i]) = d @ [side_name i]"
  by (simp add: checksum_sidecar_def)

text \<open>What the code relies on for \<open>hex::encode\<close>: lower case hexadecimal digits.\<close>

definition digits_law :: "env \<Rightarrow> bool" where
  "digits_law E \<longleftrightarrow> (\<forall>b. list_all (\<lambda>c. c \<in> set ''0123456789abcdef'') (e_hex E b))"

definition side_bytes :: "env \<Rightarrow> bytes \<Rightarrow> bytes" where
  "side_bytes E data = as_bytes (shard_checksum_hex E data @ [CHR 0x0A])"

lemma text_of_as_bytes [simp]: "text_of (as_bytes s) = s"
  by (simp add: text_of_def as_bytes_def comp_def unat_of_char)

lemma hex_char:
  assumes "c \<in> set ''0123456789abcdef''"
  shows "\<not> is_ws c" "ascii_lower c = c" "(of_char c :: nat) < 128"
  using assms by (auto simp: is_ws_def ascii_lower_def is_ascii_uppercase_def)

lemma trim_newline: "(\<And>c. c \<in> set s \<Longrightarrow> \<not> is_ws c) \<Longrightarrow> trim (s @ [CHR 0x0A]) = s"
proof -
  assume ns: "\<And>c. c \<in> set s \<Longrightarrow> \<not> is_ws c"
  show ?thesis
  proof (cases s)
    case Nil
    then show ?thesis by (simp add: trim_def is_ws_def)
  next
    case (Cons c r)
    with ns have "dropWhile is_ws (s @ [CHR 0x0A]) = s @ [CHR 0x0A]" by simp
    moreover have "dropWhile is_ws (rev s) = rev s" using ns by (cases "rev s") (auto dest: arg_cong [of _ _ set])
    ultimately show ?thesis by (simp add: trim_def is_ws_def)
  qed
qed

lemma side_text:
  assumes "digits_law E"
  shows "to_ascii_lowercase (trim (text_of (side_bytes E data))) = shard_checksum_hex E data"
    and "utf8_valid (side_bytes E data)"
proof -
  let ?h = "shard_checksum_hex E data"
  have h: "\<And>c. c \<in> set ?h \<Longrightarrow> c \<in> set ''0123456789abcdef''"
    using assms unfolding digits_law_def shard_checksum_hex_def list_all_iff by blast
  have "trim (?h @ [CHR 0x0A]) = ?h" by (rule trim_newline) (use h hex_char(1) in blast)
  moreover have "to_ascii_lowercase ?h = ?h"
    unfolding to_ascii_lowercase_def by (rule map_idI) (use h hex_char(2) in blast)
  ultimately show "to_ascii_lowercase (trim (text_of (side_bytes E data))) = ?h" by (simp add: side_bytes_def)
  show "utf8_valid (side_bytes E data)"
    unfolding side_bytes_def using h hex_char(3) by (intro utf8_ascii) (simp add: list_all_iff)
qed

section \<open>Scanning without failing calls\<close>

text \<open>The directory of the shards of one object on this node, and a shard file with the sidecar of \<open>x\<close>.\<close>

definition quiet_dir :: "path \<Rightarrow> world \<Rightarrow> bool" where
  "quiet_dir d w \<longleftrightarrow> w_faults w = [] \<and> plain d \<and> is_dir_at d (w_root w)"

definition shard_file :: "env \<Rightarrow> path \<Rightarrow> nat \<Rightarrow> bytes \<Rightarrow> bytes \<Rightarrow> node \<Rightarrow> bool" where
  "shard_file E d i data x t \<longleftrightarrow>
     view d t (chunk_name i) = Some (File data) \<and> view d t (side_name i) = Some (File (side_bytes E x))"

lemma read_quiet: "quiet_dir d w \<Longrightarrow> shard_file E d i data x (w_root w) \<Longrightarrow> fs_read (d @ [chunk_name i]) w = (Inr data, w)"
  by (simp add: quiet_dir_def shard_file_def fs_read_def query_quiet read_at_File)

lemma verify_quiet:
  assumes "digits_law E" "quiet_dir d w" "shard_file E d i data x (w_root w)"
  shows "verify_shard_checksum E (d @ [chunk_name i]) data w =
    (Inr (shard_checksum_hex E data = shard_checksum_hex E x), w)"
proof -
  have "fs_read_to_string (d @ [side_name i]) w = (Inr (side_bytes E x), w)"
    using assms(2,3) side_text(2) [OF assms(1)]
    by (simp add: quiet_dir_def shard_file_def fs_read_to_string_def query_quiet read_at_File)
  then show ?thesis
    by (simp add: verify_shard_checksum_def act_defs side_text(1) [OF assms(1)])
qed

definition put_shard :: "env \<Rightarrow> path \<Rightarrow> nat \<Rightarrow> bytes \<Rightarrow> node \<Rightarrow> node" where
  "put_shard E d i x t =
     set_node (d @ [side_name i]) (Some (File (side_bytes E x))) (set_node (d @ [chunk_name i]) (Some (File x)) t)"

lemma mkdir_quiet: "quiet_dir d w \<Longrightarrow> fs_create_dir_all d w = (Inr (), w)"
  by (simp add: quiet_dir_def fs_create_dir_all_def change_quiet realpath_def mkdirs_existing)

lemma write_quiet:
  assumes "quiet_dir d w" "f \<noteq> ''..''" "\<not> is_dir_at (d @ [f]) (w_root w)"
  shows "fs_write (d @ [f]) b w = (Inr (), w\<lparr>w_root := set_node (d @ [f]) (Some (File b)) (w_root w)\<rparr>)"
  using assms by (simp add: quiet_dir_def fs_write_def change_quiet write_at_ok)

lemma quiet_set: "quiet_dir d w \<Longrightarrow> quiet_dir d (w\<lparr>w_root := set_node (d @ [f]) v (w_root w)\<rparr>)"
  by (simp add: quiet_dir_def)

lemma write_shard_quiet:
  assumes "quiet_dir d w" "\<not> is_dir_at (d @ [chunk_name i]) (w_root w)" "\<not> is_dir_at (d @ [side_name i]) (w_root w)"
  shows "bind_act (any_io (fs_create_dir_all d)) (\<lambda>_. bind_act (any_io (fs_write (d @ [chunk_name i]) x)) (\<lambda>_.
      write_checksum_sidecar E (d @ [chunk_name i]) x)) w = (Inr (), w\<lparr>w_root := put_shard E d i x (w_root w)\<rparr>)"
proof -
  let ?w1 = "w\<lparr>w_root := set_node (d @ [chunk_name i]) (Some (File x)) (w_root w)\<rparr>"
  have q1: "quiet_dir d ?w1" using assms(1) by (rule quiet_set)
  have w1: "fs_write (d @ [chunk_name i]) x w = (Inr (), ?w1)" using assms(1,2) by (simp add: write_quiet)
  have "\<not> is_dir_at (d @ [side_name i]) (w_root ?w1)"
    using assms(1,3) by (simp add: is_dir_at_def quiet_dir_def)
  then have w2: "fs_write (d @ [side_name i]) (side_bytes E x) ?w1 = (Inr (), w\<lparr>w_root := put_shard E d i x (w_root w)\<rparr>)"
    using write_quiet [OF q1, of "side_name i"] by (simp add: put_shard_def)
  show ?thesis
    using mkdir_quiet [OF assms(1)] mkdir_quiet [OF q1] w1 w2
    by (simp add: any_io_def act_defs write_checksum_sidecar_def side_bytes_def)
qed

lemma put_shard_quiet: "quiet_dir d w \<Longrightarrow> quiet_dir d (w\<lparr>w_root := put_shard E d i x (w_root w)\<rparr>)"
  by (simp add: quiet_dir_def put_shard_def)

lemma put_shard_file:
  assumes "is_dir_at d t"
  shows "shard_file E d i x x (put_shard E d i x t)"
    and "j \<noteq> i \<Longrightarrow> shard_file E d j data y (put_shard E d i x t) \<longleftrightarrow> shard_file E d j data y t"
  using assms by (simp_all add: shard_file_def put_shard_def)


section \<open>Gathering and rebuilding\<close>

text \<open>The bytes that \<open>gather_shards\<close> finds for a shard when no map of in-process nodes is given.\<close>

definition on_hand :: "shard_site \<Rightarrow> EcShardPlacement \<Rightarrow> node \<Rightarrow> nat \<Rightarrow> string \<Rightarrow> bytes option" where
  "on_hand S pl t i owner =
     (case (if owner = ss_local_node_id S then view (shard_dir S pl) t (chunk_name i) else None) of
        Some (File b) \<Rightarrow> Some b
      | _ \<Rightarrow> fetch_from_peer S pl i owner)"

lemma gather_one_quiet:
  assumes "quiet_dir (shard_dir S pl) w" "ss_nodes S = None"
  shows "gather_one S pl i owner w = (Inr (on_hand S pl (w_root w) i owner), w)"
proof -
  let ?d = "shard_dir S pl"
  have "fs_read (?d @ [chunk_name i]) w =
    ((case view ?d (w_root w) (chunk_name i) of Some (File b) \<Rightarrow> Inr b | Some (Dir _) \<Rightarrow> Inl eisdir | None \<Rightarrow> Inl enoent), w)"
    using assms(1)
    by (auto simp: quiet_dir_def fs_read_def query_quiet read_at_def stat_at_plain resolve_lookup resolve_absent
        split: option.split node.split)
  then show ?thesis
    using assms(2)
    by (auto simp: gather_one_def local_shard_eq ok_only_def act_defs on_hand_def split: option.split node.split)
qed

definition found_shard :: "shard_site \<Rightarrow> EcShardPlacement \<Rightarrow> node \<Rightarrow> nat option \<Rightarrow> nat \<times> string \<Rightarrow> (nat \<times> bytes) option" where
  "found_shard S pl t skip = (\<lambda>(i, owner). if skip = Some i then None else map_option (Pair i) (on_hand S pl t i owner))"

lemma gather_quiet:
  assumes "quiet_dir (shard_dir S pl) w" "ss_nodes S = None"
  shows "gather_loop S pl skip ps w = (Inr (List.map_filter (found_shard S pl (w_root w) skip) ps), w)"
proof (induction ps)
  case (Cons p ps)
  obtain i owner where p: "p = (i, owner)" by force
  from Cons gather_one_quiet [OF assms, of i owner] show ?case
    by (auto simp: p found_shard_def List.map_filter_def act_defs split: option.split)
qed (simp add: List.map_filter_def ok_def)

lemma place_present_ok:
  assumes "\<forall>p\<in>set present. fst p < n" "length shards = n" "distinct (map fst present)"
  shows "place_present n l present shards =
    Inr (map (\<lambda>i. case map_of present i of Some b \<Rightarrow> Some (resize l b) | None \<Rightarrow> shards ! i) [0..<n])"
  using assms
proof (induction present arbitrary: shards)
  case Nil
  then show ?case by (auto simp: map_nth)
next
  case (Cons p present)
  obtain i b where p: "p = (i, b)" by force
  have "map_of present i = None" using Cons.prems(3) by (auto simp: p map_of_eq_None_iff)
  moreover have "place_present n l present (shards[i := Some (resize l b)]) =
      Inr (map (\<lambda>j. case map_of present j of Some b \<Rightarrow> Some (resize l b) | None \<Rightarrow> shards[i := Some (resize l b)] ! j) [0..<n])"
    using Cons.prems by (intro Cons.IH) (simp_all add: p)
  ultimately show ?case
    using Cons.prems(1,2) by (simp add: p) (auto intro!: map_cong simp: nth_list_update split: option.split)
qed

lemma map_of_found:
  "map_of (List.map_filter (found_shard S pl t skip) (map (\<lambda>i. (i, own i)) is)) j =
     (if j \<in> set is \<and> skip \<noteq> Some j then on_hand S pl t j (own j) else None)"
proof (induction "is")
  case (Cons i js)
  then show ?case
    by (cases "skip = Some i"; cases "on_hand S pl t i (own i)"; cases "j = i")
       (simp_all add: List.map_filter_simps found_shard_def)
qed (simp add: List.map_filter_simps)

lemma found_keys:
  "map fst (List.map_filter (found_shard S pl t skip) (map (\<lambda>i. (i, own i)) is)) =
     filter (\<lambda>i. skip \<noteq> Some i \<and> on_hand S pl t i (own i) \<noteq> None) is"
  by (induction "is") (auto simp: List.map_filter_def found_shard_def split: option.split)

text \<open>An encoded stripe: \<open>k\<close> data shards of one length with their parity.\<close>

definition stripe :: "env \<Rightarrow> nat \<Rightarrow> nat \<Rightarrow> bytes list \<Rightarrow> bool" where
  "stripe E k m xs \<longleftrightarrow> 0 < k \<and> 0 < m \<and> k + m \<le> 256 \<and> length xs = k + m \<and> hd xs \<noteq> []
     \<and> (\<forall>x\<in>set xs. length x = length (hd xs)) \<and> e_rs_encode E k m (take k xs) = Inr (drop k xs)"

lemma stripe_decode:
  assumes "rs_law (e_rs_encode E) (e_rs_decode E) k m" "stripe E k m xs" "length ss = k + m"
    and "\<forall>i<k + m. ss ! i = None \<or> ss ! i = Some (xs ! i)" "k \<le> length (filter (\<lambda>s. s \<noteq> None) ss)"
  shows "e_rs_decode E k m ss = Inr (map Some xs)"
proof -
  have pre: "0 < k \<and> 0 < m \<and> k + m \<le> 256 \<and> length (take k xs) = k \<and> 0 < length (hd xs)
      \<and> (\<forall>d\<in>set (take k xs). length d = length (hd xs))"
    using assms(2) by (auto simp: stripe_def dest: in_set_takeD)
  obtain ps where enc: "e_rs_encode E k m (take k xs) = Inr ps"
    and dec: "\<forall>ss. length ss = k + m \<and> (\<forall>i<k + m. ss ! i = None \<or> ss ! i = Some ((take k xs @ ps) ! i))
      \<and> k \<le> length (filter (\<lambda>s. s \<noteq> None) ss) \<longrightarrow> e_rs_decode E k m ss = Inr (map Some (take k xs @ ps))"
    using assms(1) pre unfolding rs_law_def by blast
  have "ps = drop k xs" using enc assms(2) by (simp add: stripe_def)
  then have "take k xs @ ps = xs" by simp
  with dec assms(3-5) show ?thesis by auto
qed

lemma size_present:
  assumes "present \<noteq> []" "\<forall>p\<in>set present. length (snd p) = l"
  shows "shard_size_from_present present = l"
  using assms
proof (induction present)
  case (Cons p present)
  then show ?case by (cases "present = []") (auto simp: shard_size_from_present_def split_beta)
qed simp

lemma reconstruct_stripe:
  assumes law: "rs_law (e_rs_encode E) (e_rs_decode E) k m" and st: "stripe E k m xs" and c: "c < k + m"
    and own: "sp_placements pl = map (\<lambda>i. (i, own i)) [0..<k + m]"
    and hand: "\<forall>i<k + m. i \<noteq> c \<longrightarrow> on_hand S pl t i (own i) \<in> {None, Some (xs ! i)}"
    and many: "k \<le> card {i. i < k + m \<and> i \<noteq> c \<and> on_hand S pl t i (own i) \<noteq> None}"
    and pres: "present = List.map_filter (found_shard S pl t (Some c)) (sp_placements pl)"
  shows "shard_size_from_present present = length (hd xs)"
    and "reconstruct_shard E k m (length (hd xs)) present c = Inr (xs ! c)"
proof -
  let ?l = "length (hd xs)" and ?n = "k + m"
  let ?P = "\<lambda>i. Some c \<noteq> Some i \<and> on_hand S pl t i (own i) \<noteq> None"
  have keys: "map fst present = filter ?P [0..<?n]" by (simp add: pres own found_keys)
  have vals: "map_of present i = (if i < ?n \<and> i \<noteq> c then on_hand S pl t i (own i) else None)" for i
    by (simp add: pres own map_of_found)
  have "map_of present (fst p) = Some (snd p)" if "p \<in> set present" for p
  proof -
    have "distinct (map fst present)" unfolding keys by simp
    with that show ?thesis by (metis map_of_is_SomeI prod.collapse)
  qed
  then have len: "\<forall>p\<in>set present. length (snd p) = ?l"
    using vals hand st by (force simp: stripe_def split: if_splits)
  have card: "length present = card {i. i < ?n \<and> ?P i}"
  proof -
    have "length present = length (filter ?P [0..<?n])" using keys by (metis length_map)
    also have "\<dots> = card (set (filter ?P [0..<?n]))" by (rule distinct_card [symmetric]) simp
    also have "set (filter ?P [0..<?n]) = {i. i < ?n \<and> ?P i}" by auto
    finally show ?thesis .
  qed
  have eqs: "{i. i < ?n \<and> ?P i} = {i. i < ?n \<and> i \<noteq> c \<and> on_hand S pl t i (own i) \<noteq> None}" by auto
  then have "k \<le> length present" using card many by (simp only:)
  then have "0 < length present" using st unfolding stripe_def by linarith
  then have ne: "present \<noteq> []" by simp
  show size: "shard_size_from_present present = ?l" by (rule size_present [OF ne len])
  define ss where "ss = map (\<lambda>i. case map_of present i of Some b \<Rightarrow> Some (resize ?l b) | None \<Rightarrow> replicate ?n None ! i) [0..<?n]"
  have pp: "place_present ?n ?l present (replicate ?n None) = Inr ss"
    unfolding ss_def
  proof (rule place_present_ok)
    have "set (map fst present) \<subseteq> {..<?n}" unfolding keys by auto
    then show "\<forall>p\<in>set present. fst p < ?n" by auto
    show "distinct (map fst present)" unfolding keys by simp
  qed simp
  have res: "resize ?l (xs ! i) = xs ! i" if "i < ?n" for i using that st by (simp add: stripe_def resize_def)
  have ssi: "ss ! i = (if i \<noteq> c \<and> on_hand S pl t i (own i) \<noteq> None then Some (xs ! i) else None)" if "i < ?n" for i
    using that hand res [OF that] by (auto simp: ss_def vals split: option.split)
  have cnt: "length (filter (\<lambda>s. s \<noteq> None) ss) = card {i. i < ?n \<and> i \<noteq> c \<and> on_hand S pl t i (own i) \<noteq> None}"
  proof -
    have "length (filter (\<lambda>s. s \<noteq> None) ss) = card {i. i < length ss \<and> ss ! i \<noteq> None}" by (rule length_filter_conv_card)
    also have "{i. i < length ss \<and> ss ! i \<noteq> None} = {i. i < ?n \<and> i \<noteq> c \<and> on_hand S pl t i (own i) \<noteq> None}"
    proof (intro Collect_cong)
      fix i show "(i < length ss \<and> ss ! i \<noteq> None) \<longleftrightarrow> (i < ?n \<and> i \<noteq> c \<and> on_hand S pl t i (own i) \<noteq> None)"
        using ssi [of i] by (cases "i < ?n") (simp_all add: ss_def)
    qed
    finally show ?thesis .
  qed
  have dec: "e_rs_decode E k m ss = Inr (map Some xs)"
    by (rule stripe_decode [OF law st]) (use ssi cnt many in \<open>auto simp: ss_def\<close>)
  show "reconstruct_shard E k m ?l present c = Inr (xs ! c)"
    using st c pp cnt many dec by (simp add: reconstruct_shard_def rs_new_def map_err_def stripe_def Let_def)
qed

lemma heal_writes:
  assumes "quiet_dir (shard_dir S pl) w" "ss_nodes S = None" "shard_file E (shard_dir S pl) c bad x (w_root w)"
    and "present = List.map_filter (found_shard S pl (w_root w) (Some c)) (sp_placements pl)"
    and "shard_size_from_present present = l" "0 < l"
    and "reconstruct_shard E (sp_data_shards pl) (sp_parity_shards pl) l present c = Inr y"
  shows "heal_local_shard E S pl c w = (Inr (), w\<lparr>w_root := put_shard E (shard_dir S pl) c y (w_root w)\<rparr>)"
proof -
  have g: "gather_shards S pl (Some c) w = (Inr present, w)"
    by (simp add: gather_shards_def assms(4) gather_quiet [OF assms(1,2)])
  have nd: "\<not> is_dir_at (shard_dir S pl @ [chunk_name c]) (w_root w)" "\<not> is_dir_at (shard_dir S pl @ [side_name c]) (w_root w)"
    using assms(3) by (simp_all add: shard_file_def is_dir_at_def)
  show ?thesis
    using write_shard_quiet [OF assms(1) nd, of y E] assms(5-7)
    by (simp add: heal_local_shard_def bind_act_ok [of "gather_shards S pl (Some c)", OF g] local_shard_eq Let_def)
qed

lemma heal_quiet:
  assumes law: "rs_law (e_rs_encode E) (e_rs_decode E) (sp_data_shards pl) (sp_parity_shards pl)"
    and st: "stripe E (sp_data_shards pl) (sp_parity_shards pl) xs" and n: "n = sp_data_shards pl + sp_parity_shards pl"
    and c: "c < n" and own: "sp_placements pl = map (\<lambda>i. (i, own i)) [0..<n]"
    and q: "quiet_dir (shard_dir S pl) w" "ss_nodes S = None" "shard_file E (shard_dir S pl) c bad x (w_root w)"
    and hand: "\<forall>i<n. i \<noteq> c \<longrightarrow> on_hand S pl (w_root w) i (own i) \<in> {None, Some (xs ! i)}"
    and many: "sp_data_shards pl \<le> card {i. i < n \<and> i \<noteq> c \<and> on_hand S pl (w_root w) i (own i) \<noteq> None}"
  shows "heal_local_shard E S pl c w = (Inr (), w\<lparr>w_root := put_shard E (shard_dir S pl) c (xs ! c) (w_root w)\<rparr>)"
proof -
  define present where "present = List.map_filter (found_shard S pl (w_root w) (Some c)) (sp_placements pl)"
  note r = reconstruct_stripe [OF law st c [unfolded n] own [unfolded n] hand [unfolded n] many [unfolded n] present_def]
  show ?thesis by (rule heal_writes [OF q present_def r(1) _ r(2)]) (use st in \<open>simp add: stripe_def\<close>)
qed

section \<open>A scan\<close>

abbreviation is_local :: "shard_site \<Rightarrow> nat \<times> string \<Rightarrow> bool" where
  "is_local S \<equiv> \<lambda>(_, owner). owner = ss_local_node_id S"

definition scanned :: "nat \<Rightarrow> nat \<Rightarrow> BitrotMetrics \<Rightarrow> BitrotMetrics" where
  "scanned n h mx = mx\<lparr>bit_shards_scanned := bit_shards_scanned mx + of_nat n,
     bit_corrupt_detected := bit_corrupt_detected mx + of_nat h, bit_shards_healed := bit_shards_healed mx + of_nat h\<rparr>"

lemma scanned_comp: "scanned a b (scanned c d mx) = scanned (a + c) (b + d) mx"
  by (simp add: scanned_def algebra_simps)

lemma scan_healthy:
  assumes "digits_law E" "quiet_dir (shard_dir S pl) w"
    and "\<forall>(i, owner)\<in>set ps. owner = ss_local_node_id S \<longrightarrow> (\<exists>x. shard_file E (shard_dir S pl) i x x (w_root w))"
  shows "scan_placement E S pl ps mx w = (Inr (scanned (length (filter (is_local S) ps)) 0 mx), w)"
  using assms(3)
proof (induction ps arbitrary: mx)
  case Nil
  then show ?case by (simp add: ok_def scanned_def)
next
  case (Cons p ps)
  obtain i owner where p: "p = (i, owner)" by force
  have IH: "scan_placement E S pl ps mx w = (Inr (scanned (length (filter (is_local S) ps)) 0 mx), w)" for mx
    using Cons by simp
  show ?case
  proof (cases "owner = ss_local_node_id S")
    case True
    then obtain x where x: "shard_file E (shard_dir S pl) i x x (w_root w)" using Cons.prems by (auto simp: p)
    have "scan_shard E S pl i owner mx w = (Inr (scanned 1 0 mx), w)"
      using True read_quiet [OF assms(2) x] verify_quiet [OF assms(1,2) x]
      by (simp add: scan_shard_def local_shard_eq act_defs scan_verdict_def scanned_def Let_def)
    then show ?thesis using IH True by (simp add: p bind_act_def scanned_comp)
  qed (use IH in \<open>simp add: p scan_shard_def\<close>)
qed

lemma scan_corrupt:
  assumes "digits_law E" "quiet_dir (shard_dir S pl) w" "shard_file E (shard_dir S pl) c bad x (w_root w)"
    and "shard_checksum_hex E bad \<noteq> shard_checksum_hex E x" and "heal_local_shard E S pl c w = (Inr (), w')"
  shows "scan_shard E S pl c (ss_local_node_id S) mx w = (Inr (scanned 1 1 mx), w')"
  using read_quiet [OF assms(2,3)] verify_quiet [OF assms(1-3)] assms(4,5)
  by (simp add: scan_shard_def local_shard_eq act_defs scan_verdict_def scanned_def Let_def)

lemma scan_placement_append:
  "scan_placement E S pl (ps @ qs) mx = bind_act (scan_placement E S pl ps mx) (scan_placement E S pl qs)"
  by (induction ps arbitrary: mx) (auto simp: fun_eq_iff bind_act_def split: sum.split prod.split)

lemma place_shards_placements:
  assumes "place_shards b key k m ids = Some pl" "k + m \<le> 256"
  shows "sp_placements pl = map (\<lambda>i. (i, ids ! (i mod length ids))) [0..<k + m]"
    and "sp_data_shards pl = k" "sp_parity_shards pl = m"
  using assms by (auto simp: place_shards_def Let_def as_u32_def split: if_splits)

text \<open>
  C37. The scanner repairs bitrot. Take an object whose \<open>k\<close> data and \<open>m\<close> parity shards were placed
  on the nodes by \<open>place_shards\<close>, one local shard \<open>c\<close> whose contents no longer have the checksum in
  its sidecar; every other local shard is intact, every peer, reached over HTTP, serves the right bytes of
  its shard or nothing, and at least \<open>k\<close> other shards are available in this way (the gathering does not verify
  what it collects, so a second corrupt shard could spoil the repair). Then a scan succeeds, rewrites exactly that shard and its sidecar with the original bytes, and
  counts every local shard as scanned and this one as corrupt and healed.
\<close>

theorem bitrot_scan_heals:
  assumes "digits_law E" and "rs_law (e_rs_encode E) (e_rs_decode E) k m" and "stripe E k m xs"
    and "place_shards b key k m ids = Some pl" and "ss_nodes S = None" and "quiet_dir (shard_dir S pl) w"
    and "c < k + m" and "ids ! (c mod length ids) = ss_local_node_id S"
    and "shard_file E (shard_dir S pl) c bad (xs ! c) (w_root w)"
    and "shard_checksum_hex E bad \<noteq> shard_checksum_hex E (xs ! c)"
    and "\<forall>i<k + m. i \<noteq> c \<longrightarrow>
      (if ids ! (i mod length ids) = ss_local_node_id S then shard_file E (shard_dir S pl) i (xs ! i) (xs ! i) (w_root w)
       else fetch_from_peer S pl i (ids ! (i mod length ids)) \<in> {None, Some (xs ! i)})"
    and "k \<le> card {i. i < k + m \<and> i \<noteq> c \<and>
      (ids ! (i mod length ids) = ss_local_node_id S \<or> fetch_from_peer S pl i (ids ! (i mod length ids)) \<noteq> None)}"
  shows "scan_placements E S [pl] mx w =
      (Inr (scanned (length (filter (is_local S) (sp_placements pl))) 1 mx),
       w\<lparr>w_root := put_shard E (shard_dir S pl) c (xs ! c) (w_root w)\<rparr>)
    \<and> (\<forall>i<k + m. ids ! (i mod length ids) = ss_local_node_id S \<longrightarrow>
         shard_file E (shard_dir S pl) i (xs ! i) (xs ! i) (put_shard E (shard_dir S pl) c (xs ! c) (w_root w)))"
proof -
  let ?d = "shard_dir S pl" and ?own = "\<lambda>i. ids ! (i mod length ids)" and ?n = "k + m"
  let ?t = "put_shard E ?d c (xs ! c) (w_root w)"
  let ?w = "w\<lparr>w_root := ?t\<rparr>"
  have small: "k + m \<le> 256" using assms(3) by (simp add: stripe_def)
  note pls = place_shards_placements [OF assms(4) small]
  have hand: "on_hand S pl (w_root w) i (?own i) =
      (if ?own i = ss_local_node_id S then Some (xs ! i) else fetch_from_peer S pl i (?own i))" if "i < ?n" "i \<noteq> c" for i
    using assms(11) that by (auto simp: on_hand_def shard_file_def split: if_splits)
  have dir: "is_dir_at ?d (w_root w)" using assms(6) by (simp add: quiet_dir_def)
  have heal: "heal_local_shard E S pl c w = (Inr (), ?w)"
  proof (rule heal_quiet [where n = ?n and own = ?own and bad = bad and x = "xs ! c"])
    show "\<forall>i<?n. i \<noteq> c \<longrightarrow> on_hand S pl (w_root w) i (?own i) \<in> {None, Some (xs ! i)}"
      using hand assms(11) by auto
    have "{i. i < ?n \<and> i \<noteq> c \<and> on_hand S pl (w_root w) i (?own i) \<noteq> None} = {i. i < ?n \<and> i \<noteq> c \<and>
      (?own i = ss_local_node_id S \<or> fetch_from_peer S pl i (?own i) \<noteq> None)}"
    proof (intro Collect_cong)
      fix i show "(i < ?n \<and> i \<noteq> c \<and> on_hand S pl (w_root w) i (?own i) \<noteq> None) \<longleftrightarrow> (i < ?n \<and> i \<noteq> c \<and>
        (?own i = ss_local_node_id S \<or> fetch_from_peer S pl i (?own i) \<noteq> None))"
        using hand [of i] by (cases "i < ?n"; cases "i = c"; cases "?own i = ss_local_node_id S") simp_all
    qed
    then show "sp_data_shards pl \<le> card {i. i < ?n \<and> i \<noteq> c \<and> on_hand S pl (w_root w) i (?own i) \<noteq> None}"
      using assms(12) pls by simp
  qed (use assms pls in simp_all)
  have before: "shard_file E ?d i (xs ! i) (xs ! i) (w_root w)" if "i < ?n" "i \<noteq> c" "?own i = ss_local_node_id S" for i
    using that assms(11) by auto
  have after: "shard_file E ?d i (xs ! i) (xs ! i) ?t" if "i < ?n" "?own i = ss_local_node_id S" for i
    using that assms(11) put_shard_file [OF dir] by (cases "i = c") auto
  let ?pre = "map (\<lambda>i. (i, ?own i)) [0..<c]" and ?post = "map (\<lambda>i. (i, ?own i)) [Suc c..<?n]"
  have "[0..<?n] = [0..<c] @ c # [Suc c..<?n]"
    using assms(7) by (metis less_imp_add_positive upt_add_eq_append upt_conv_Cons zero_le le_add1 less_imp_le add.commute)
  then have split: "sp_placements pl = ?pre @ (c, ss_local_node_id S) # ?post" using pls(1) assms(8) by simp
  have pre: "scan_placement E S pl ?pre mx w = (Inr (scanned (length (filter (is_local S) ?pre)) 0 mx), w)" for mx
    by (rule scan_healthy [OF assms(1,6)]) (use assms(7) in \<open>auto intro!: exI before\<close>)
  have post: "scan_placement E S pl ?post mx ?w = (Inr (scanned (length (filter (is_local S) ?post)) 0 mx), ?w)" for mx
    by (rule scan_healthy [OF assms(1) put_shard_quiet [OF assms(6)]]) (auto intro!: exI after)
  have "scan_placement E S pl (sp_placements pl) mx w =
      (Inr (scanned (length (filter (is_local S) (sp_placements pl))) 1 mx), ?w)"
    using pre post scan_corrupt [OF assms(1,6,9,10) heal]
    by (simp add: split scan_placement_append bind_act_def scanned_comp add_ac)
  then show ?thesis using after by (simp add: bind_act_def ok_def)
qed


text \<open>For the witness: two nodes, exclusive or as the code, and a digest that shows the bytes.\<close>

definition toy_digits :: "bytes \<Rightarrow> string" where
  "toy_digits data = map (\<lambda>b. hex_digit (unat b mod 16)) data"

definition toy_ec_env :: env where
  "toy_ec_env = toy_env\<lparr>e_hex := toy_digits, e_rs_encode := xor_encode, e_rs_decode := xor_reconstruct\<rparr>"

definition toy_site :: shard_site where
  "toy_site = \<lparr>ss_local_fs = toy_storage, ss_local_node_id = ''1'', ss_peer_urls = [(2, ''http://b/'')], ss_nodes = None,
     ss_http_get = (\<lambda>url. if url = ''http://b/internal/shard?bucket=photos&key=cat&index=1'' then Inr [2] else Inl (AnyMsg ''status''))\<rparr>"

definition toy_placement :: EcShardPlacement where
  "toy_placement = \<lparr>sp_bucket = ''photos'', sp_key = ''cat'', sp_data_shards = 2, sp_parity_shards = 1,
     sp_placements = [(0, ''1''), (1, ''2''), (2, ''1'')]\<rparr>"

definition toy_shards_world :: "bytes \<Rightarrow> bytes \<Rightarrow> world" where
  "toy_shards_world a p = \<lparr>w_root = Dir [(''.cluster-shards'', Dir [(''photos'', Dir [(''cat'', Dir
       [(''000000'', File a), (''000000.sha256'', File (as_bytes (''1'' @ [CHR 0x0A]))),
        (''000002'', File p), (''000002.sha256'', File (as_bytes (''3'' @ [CHR 0x0A])))])])])],
     w_faults = [], w_draws = 0\<rparr>"

definition no_metrics :: BitrotMetrics where
  "no_metrics = \<lparr>bit_shards_scanned = 0, bit_corrupt_detected = 0, bit_shards_healed = 0, bit_scan_errors = 0\<rparr>"

lemma toy_digits_law: "digits_law toy_ec_env"
proof -
  have "hex_digit n \<in> set ''0123456789abcdef''" if "n < 16" for n
  proof -
    have "n \<in> set [0..<16]" using that by simp
    moreover have "list_all (\<lambda>n. hex_digit n \<in> set ''0123456789abcdef'') [0..<16]" by code_simp
    ultimately show ?thesis unfolding list_all_iff by blast
  qed
  then show ?thesis by (simp add: digits_law_def toy_ec_env_def toy_digits_def list_all_iff del: hex_digit.simps)
qed

lemma toy_names: "chunk_name 0 = ''000000''" "chunk_name 1 = ''000001''" "chunk_name 2 = ''000002''"
  by code_simp+

lemma toy_shard_dir: "shard_dir toy_site toy_placement = [''.cluster-shards'', ''photos'', ''cat'']"
  by code_simp

lemma toy_fetch: "fetch_from_peer toy_site toy_placement 1 ''2'' = Some [2]"
proof -
  have "''2'' = show_nat 2" by code_simp
  then have "parse_u64 ''2'' = Some 2" using parse_uint_show_nat [of 2 "2 ^ 64"] by (metis less_exp one_less_numeral_iff power_strict_increasing_iff power_one_right semiring_norm(76) numeral_less_iff)
  moreover have "fetch_shard_http (ss_http_get toy_site) ''http://b/'' ''photos'' ''cat'' 1 = Inr [2]" by code_simp
  ultimately show ?thesis by (simp add: fetch_from_peer_def toy_site_def toy_placement_def)
qed

lemma toy_quiet: "quiet_dir (shard_dir toy_site toy_placement) (toy_shards_world a p)"
  by (simp add: quiet_dir_def toy_shard_dir toy_shards_world_def is_dir_at_Dir lookup_Cons)

lemma toy_checksum: "shard_checksum_hex toy_ec_env data = toy_digits data"
  by (simp add: shard_checksum_hex_def toy_ec_env_def toy_env_def)

lemma toy_digests: "toy_digits [1] = ''1''" "toy_digits [3] = ''3''" "toy_digits [8] = ''8''" "toy_digits [9] = ''9''"
  by code_simp+

lemma toy_shard_files:
  "shard_file toy_ec_env (shard_dir toy_site toy_placement) 0 a [1] (w_root (toy_shards_world a p))"
  "shard_file toy_ec_env (shard_dir toy_site toy_placement) 2 p [3] (w_root (toy_shards_world a p))"
  by (simp_all add: shard_file_def toy_shard_dir toy_names toy_shards_world_def lookup_Cons side_bytes_def
      toy_checksum toy_digests)

theorem bitrot_scan_heals_witness:
  "fst (scan_placements toy_ec_env toy_site [toy_placement] no_metrics (toy_shards_world [9] [3]))
     = Inr (scanned 2 1 no_metrics)"
proof -
  let ?d = "shard_dir toy_site toy_placement" and ?w = "toy_shards_world [9] [3]" and ?ids = "[''1'', ''2'']"
  have pl: "place_shards ''photos'' ''cat'' 2 1 ?ids = Some toy_placement"
    by (simp add: place_shards_def as_u32_def toy_placement_def upt_conv_Cons)
  have st: "stripe toy_ec_env 2 1 [[1], [2], [3]]"
    by (simp add: stripe_def toy_ec_env_def xor_encode_def xor_bytes_def)
  have law: "rs_law (e_rs_encode toy_ec_env) (e_rs_decode toy_ec_env) 2 1"
    using xor_law by (simp add: toy_ec_env_def)
  note q = toy_quiet [of "[9]" "[3]"] and f = toy_shard_files [where a = "[9]" and p = "[3]"]
  have two: "(2::nat) mod Suc (Suc 0) = 0" by (simp add: numeral_2_eq_2)
  have local: "ss_local_node_id toy_site = ''1''" by (simp add: toy_site_def)
  have three: "i < 2 + 1 \<longleftrightarrow> i = 0 \<or> i = 1 \<or> i = 2" for i :: nat by auto
  have card: "2 \<le> card {i. i < 2 + 1 \<and> i \<noteq> 0 \<and> (?ids ! (i mod length ?ids) = ss_local_node_id toy_site
      \<or> fetch_from_peer toy_site toy_placement i (?ids ! (i mod length ?ids)) \<noteq> None)}"
  proof -
    have "{1, 2} \<subseteq> {i. i < 2 + 1 \<and> i \<noteq> 0 \<and> (?ids ! (i mod length ?ids) = ss_local_node_id toy_site
      \<or> fetch_from_peer toy_site toy_placement i (?ids ! (i mod length ?ids)) \<noteq> None)}"
      using toy_fetch two by (simp add: local)
    from card_mono [OF _ this] show ?thesis by simp
  qed
  have others: "\<forall>i<2 + 1. i \<noteq> 0 \<longrightarrow>
      (if ?ids ! (i mod length ?ids) = ss_local_node_id toy_site
       then shard_file toy_ec_env ?d i ([[1], [2], [3]] ! i) ([[1], [2], [3]] ! i) (w_root ?w)
       else fetch_from_peer toy_site toy_placement i (?ids ! (i mod length ?ids)) \<in> {None, Some ([[1], [2], [3]] ! i)})"
    unfolding three using f(2) toy_fetch two by (auto simp: local)
  have "shard_checksum_hex toy_ec_env [9] \<noteq> shard_checksum_hex toy_ec_env ([[1], [2], [3]] ! 0)"
    by (simp add: toy_checksum toy_digests)
  then have "scan_placements toy_ec_env toy_site [toy_placement] no_metrics ?w =
      (Inr (scanned (length (filter (is_local toy_site) (sp_placements toy_placement))) 1 no_metrics),
       ?w\<lparr>w_root := put_shard toy_ec_env ?d 0 ([[1], [2], [3]] ! 0) (w_root ?w)\<rparr>)"
    using bitrot_scan_heals [OF toy_digits_law law st pl _ q _ _ _ _ others card, of "[9]" no_metrics] f
    by (simp add: toy_site_def)
  moreover have "length (filter (is_local toy_site) (sp_placements toy_placement)) = 2"
    by (simp add: toy_placement_def toy_site_def)
  ultimately show ?thesis by simp
qed

text \<open>
  The shards used for healing are not verified themselves. With both local shards corrupt the
  scanner rebuilds the first from the second and reports both as healed: the object is still
  damaged, and every sidecar now matches, so that no later scan finds it.
\<close>

lemma heal_launders_corruption:
  "\<exists>w. scan_placements toy_ec_env toy_site [toy_placement] no_metrics (toy_shards_world [9] [8])
       = (Inr (scanned 2 2 no_metrics), w)
     \<and> shard_file toy_ec_env (shard_dir toy_site toy_placement) 0 [10] [10] (w_root w)
     \<and> shard_file toy_ec_env (shard_dir toy_site toy_placement) 2 [8] [8] (w_root w)
     \<and> scan_placements toy_ec_env toy_site [toy_placement] no_metrics w = (Inr (scanned 2 0 no_metrics), w)"
proof -
  let ?E = toy_ec_env and ?S = toy_site and ?pl = toy_placement and ?d = "shard_dir toy_site toy_placement"
  let ?w = "toy_shards_world [9] [8]"
  define w1 where "w1 = ?w\<lparr>w_root := put_shard ?E ?d 0 [10] (w_root ?w)\<rparr>"
  define w2 where "w2 = w1\<lparr>w_root := put_shard ?E ?d 2 [8] (w_root w1)\<rparr>"
  have simps: "ss_nodes ?S = None" "ss_local_node_id ?S = ''1''" "sp_placements ?pl = [(0, ''1''), (1, ''2''), (2, ''1'')]"
    "sp_data_shards ?pl = 2" "sp_parity_shards ?pl = 1" "e_rs_decode ?E = xor_reconstruct"
    by (simp_all add: toy_site_def toy_placement_def toy_ec_env_def)
  have q: "quiet_dir ?d ?w" "quiet_dir ?d w1" "quiet_dir ?d w2"
    using toy_quiet put_shard_quiet unfolding w2_def w1_def by blast+
  then have d: "is_dir_at ?d (w_root ?w)" "is_dir_at ?d (w_root w1)" by (simp_all add: quiet_dir_def)
  note f = toy_shard_files [where a = "[9]" and p = "[8]"]
  have f1: "shard_file ?E ?d 0 [10] [10] (w_root w1)" "shard_file ?E ?d 2 [8] [3] (w_root w1)"
    using put_shard_file [where E = ?E, OF d(1)] f by (simp_all add: w1_def)
  have f2: "shard_file ?E ?d 0 [10] [10] (w_root w2)" "shard_file ?E ?d 2 [8] [8] (w_root w2)"
    using put_shard_file [where E = ?E, OF d(2)] f1 by (simp_all add: w2_def)
  have "on_hand ?S ?pl (w_root ?w) 2 ''1'' = Some [8]" "on_hand ?S ?pl (w_root w1) 0 ''1'' = Some [10]"
    "on_hand ?S ?pl t 1 ''2'' = Some [2]" for t
    using f(2) f1(1) toy_fetch by (simp_all add: on_hand_def simps shard_file_def)
  then have p: "List.map_filter (found_shard ?S ?pl (w_root ?w) (Some 0)) (sp_placements ?pl) = [(1, [2]), (2, [8])]"
    "List.map_filter (found_shard ?S ?pl (w_root w1) (Some 2)) (sp_placements ?pl) = [(0, [10]), (1, [2])]"
    by (simp_all add: simps List.map_filter_simps found_shard_def)
  have rep: "replicate (2 + 1) None = [None, None, None]" by (simp add: numeral_3_eq_3)
  have r: "reconstruct_shard ?E 2 1 1 [(1, [2]), (2, [8])] 0 = Inr [10]" "reconstruct_shard ?E 2 1 1 [(0, [10]), (1, [2])] 2 = Inr [8]"
    unfolding reconstruct_shard_def rs_new_def rep Let_def simps
    by (simp_all add: map_err_def resize_def xor_reconstruct_def xor_bytes_def)
  have h1: "heal_local_shard ?E ?S ?pl 0 ?w = (Inr (), w1)"
    unfolding w1_def
    by (rule heal_writes [OF q(1) simps(1) f(1) p(1) [symmetric], of 1]) (simp_all add: shard_size_from_present_def r [simplified] simps)
  have h2: "heal_local_shard ?E ?S ?pl 2 w1 = (Inr (), w2)"
    unfolding w2_def
    by (rule heal_writes [OF q(2) simps(1) f1(2) p(2) [symmetric], of 1]) (simp_all add: shard_size_from_present_def r [simplified] simps)
  have ne: "shard_checksum_hex ?E [9] \<noteq> shard_checksum_hex ?E [1]" "shard_checksum_hex ?E [8] \<noteq> shard_checksum_hex ?E [3]"
    by (simp_all add: toy_checksum toy_digests)
  have s: "scan_shard ?E ?S ?pl 0 ''1'' mx ?w = (Inr (scanned 1 1 mx), w1)" "scan_shard ?E ?S ?pl 2 ''1'' mx w1 = (Inr (scanned 1 1 mx), w2)"
    "scan_shard ?E ?S ?pl (Suc 0) ''2'' mx = ok mx" for mx
    using scan_corrupt [OF toy_digits_law q(1) f(1) ne(1) h1] scan_corrupt [OF toy_digits_law q(2) f1(2) ne(2) h2]
    by (simp_all add: simps scan_shard_def)
  have "scan_placements ?E ?S [?pl] no_metrics ?w = (Inr (scanned 2 2 no_metrics), w2)"
    using s by (simp add: simps bind_act_def ok_def scanned_comp numeral_2_eq_2)
  moreover have "scan_placement ?E ?S ?pl (sp_placements ?pl) no_metrics w2
      = (Inr (scanned (length (filter (is_local ?S) (sp_placements ?pl))) 0 no_metrics), w2)"
    by (rule scan_healthy [OF toy_digits_law q(3)]) (use f2 in \<open>auto simp: simps\<close>)
  moreover have "length (filter (is_local ?S) (sp_placements ?pl)) = 2" by (simp add: simps)
  ultimately have "scan_placements ?E ?S [?pl] no_metrics ?w = (Inr (scanned 2 2 no_metrics), w2)"
    "scan_placements ?E ?S [?pl] no_metrics w2 = (Inr (scanned 2 0 no_metrics), w2)"
    by (simp_all add: bind_act_def ok_def)
  then show ?thesis using f2 by blast
qed

end
