(* ===== verification/Raft.thy ===== *)
theory Raft
  imports Shards "HOL-Library.Finite_Map"
begin

text \<open>
  The storage of a Raft node (\<open>maxio-cluster/src/storage/raft_store.rs\<close>): the log, the vote, the
  snapshot and the replicated state machine that applies \<open>StorageMutation\<close>s to the node's file
  system (\<open>maxio-storage/src/raft/mod.rs\<close>).

  Consensus itself is the library \<open>openraft\<close>; its log identifiers and votes are plain records
  here and the type of a membership is a parameter. \<open>raft_codec\<close> holds the JSON codecs of entries
  and of the state machine and the \<open>Display\<close> of a leader id. The log is a list sorted by
  index; the set and the map of the state machine are finite sets and maps, the order in which a
  \<open>HashMap\<close> is iterated is a parameter.
\<close>

section \<open>Data\<close>

record LogId =
  lid_leader :: "nat \<times> nat"
  lid_index :: nat

record Vote =
  vt_leader :: "nat \<times> nat"
  vt_committed :: bool

datatype StorageMutation =
    CreateBucket string string
  | DeleteBucket string
  | PutShardMap string string EcShardPlacement

datatype 'm EntryPayload = Blank | Normal StorageMutation | Membership 'm

record 'm Entry =
  en_log_id :: LogId
  en_payload :: "'m EntryPayload"

record 'm SmData =
  sm_last_applied_log :: "LogId option"
  sm_last_membership :: "LogId option \<times> 'm"
  sm_buckets :: "string fset"
  sm_shard_maps :: "(string, EcShardPlacement) fmap"

record 'm SnapshotMeta =
  sn_last_log_id :: "LogId option"
  sn_last_membership :: "LogId option \<times> 'm"
  sn_snapshot_id :: string

type_synonym 'm StoredSnapshot = "'m SnapshotMeta \<times> bytes"

record 'm StorageRaftStore =
  rs_fs :: FilesystemStorage
  rs_last_purged_log_id :: "LogId option"
  rs_committed :: "LogId option"
  rs_log :: "(nat \<times> bytes) list"
  rs_sm :: "'m SmData"
  rs_vote :: "Vote option"
  rs_snapshot_idx :: "64 word"
  rs_current_snapshot :: "'m StoredSnapshot option"

record 'm raft_codec =
  rc_entry :: "'m Entry json"
  rc_sm :: "'m SmData json"
  rc_show_leader :: "nat \<times> nat \<Rightarrow> string"

datatype raft_error = WriteStateMachine StorageError | ReadLogs string | ReadSnapshot string

definition sm_default :: "'m \<Rightarrow> 'm SmData" where
  "sm_default mem0 = \<lparr>sm_last_applied_log = None, sm_last_membership = (None, mem0), sm_buckets = {||}, sm_shard_maps = fmempty\<rparr>"

definition raft_store_new :: "'m \<Rightarrow> FilesystemStorage \<Rightarrow> 'm StorageRaftStore" where
  "raft_store_new mem0 fs =
     \<lparr>rs_fs = fs, rs_last_purged_log_id = None, rs_committed = None, rs_log = [], rs_sm = sm_default mem0,
      rs_vote = None, rs_snapshot_idx = 0, rs_current_snapshot = None\<rparr>"

definition store_buckets :: "'m StorageRaftStore \<Rightarrow> string set" where
  "store_buckets s = fset (sm_buckets (rs_sm s))"

definition shard_map_id :: "string \<Rightarrow> string \<Rightarrow> string" where
  "shard_map_id bucket key = bucket @ ''/'' @ key"

definition shard_map :: "'m StorageRaftStore \<Rightarrow> string \<Rightarrow> string \<Rightarrow> EcShardPlacement option" where
  "shard_map s bucket key = fmlookup (sm_shard_maps (rs_sm s)) (shard_map_id bucket key)"

definition all_shard_maps :: "'m StorageRaftStore \<Rightarrow> EcShardPlacement set" where
  "all_shard_maps s = fset (fmran (sm_shard_maps (rs_sm s)))"

section \<open>The log\<close>

fun btree_insert :: "nat \<Rightarrow> 'a \<Rightarrow> (nat \<times> 'a) list \<Rightarrow> (nat \<times> 'a) list" where
  "btree_insert k v [] = [(k, v)]"
| "btree_insert k v ((j, u) # ps) =
     (if k < j then (k, v) # (j, u) # ps else if k = j then (k, v) # ps else (j, u) # btree_insert k v ps)"

datatype bound = Included nat | Excluded nat | Unbounded

fun above :: "bound \<Rightarrow> nat \<Rightarrow> bool" where
  "above (Included a) i \<longleftrightarrow> a \<le> i" | "above (Excluded a) i \<longleftrightarrow> a < i" | "above Unbounded i \<longleftrightarrow> True"

fun below :: "bound \<Rightarrow> nat \<Rightarrow> bool" where
  "below (Included b) i \<longleftrightarrow> i \<le> b" | "below (Excluded b) i \<longleftrightarrow> i < b" | "below Unbounded i \<longleftrightarrow> True"

text \<open>\<open>BTreeMap::range\<close> panics when the start is greater than the end, or equal with both excluded.\<close>

fun range_panics :: "bound \<Rightarrow> bound \<Rightarrow> bool" where
  "range_panics (Included a) (Included b) \<longleftrightarrow> b < a"
| "range_panics (Included a) (Excluded b) \<longleftrightarrow> b < a"
| "range_panics (Excluded a) (Included b) \<longleftrightarrow> b < a"
| "range_panics (Excluded a) (Excluded b) \<longleftrightarrow> b \<le> a"
| "range_panics _ _ \<longleftrightarrow> False"

definition append_to_log :: "'m raft_codec \<Rightarrow> 'm Entry list \<Rightarrow> 'm StorageRaftStore \<Rightarrow> 'm StorageRaftStore" where
  "append_to_log C entries s =
     s\<lparr>rs_log := foldl (\<lambda>log entry. btree_insert (lid_index (en_log_id entry)) (fst (rc_entry C) entry) log) (rs_log s) entries\<rparr>"

fun parse_entries :: "'m raft_codec \<Rightarrow> bytes list \<Rightarrow> raft_error + 'm Entry list" where
  "parse_entries C [] = Inr []"
| "parse_entries C (b # bs) =
     bind_res (map_err ReadLogs (snd (rc_entry C) b)) (\<lambda>e. bind_res (parse_entries C bs) (\<lambda>es. Inr (e # es)))"

definition try_get_log_entries ::
  "'m raft_codec \<Rightarrow> bound \<Rightarrow> bound \<Rightarrow> 'm StorageRaftStore \<Rightarrow> (raft_error + 'm Entry list) option" where
  "try_get_log_entries C lo hi s =
     (if range_panics lo hi then None
      else Some (parse_entries C (map snd (filter (\<lambda>(i, _). above lo i \<and> below hi i) (rs_log s)))))"

text \<open>\<open>LogState\<close>: the last purged id and the last id.\<close>

definition get_log_state :: "'m raft_codec \<Rightarrow> 'm StorageRaftStore \<Rightarrow> LogId option \<times> LogId option" where
  "get_log_state C s =
     (let last_id = (if rs_log s = [] then None
                     else (case snd (rc_entry C) (snd (last (rs_log s))) of Inr e \<Rightarrow> Some (en_log_id e) | Inl _ \<Rightarrow> None));
          last_purged = rs_last_purged_log_id s
      in (last_purged, case last_id of Some l \<Rightarrow> Some l | None \<Rightarrow> last_purged))"

definition delete_conflict_logs_since :: "LogId \<Rightarrow> 'm StorageRaftStore \<Rightarrow> 'm StorageRaftStore" where
  "delete_conflict_logs_since log_id s = s\<lparr>rs_log := filter (\<lambda>(i, _). \<not> lid_index log_id \<le> i) (rs_log s)\<rparr>"

definition purge_logs_upto :: "LogId \<Rightarrow> 'm StorageRaftStore \<Rightarrow> 'm StorageRaftStore" where
  "purge_logs_upto log_id s =
     s\<lparr>rs_last_purged_log_id := Some log_id, rs_log := filter (\<lambda>(i, _). \<not> i \<le> lid_index log_id) (rs_log s)\<rparr>"

definition save_vote :: "Vote \<Rightarrow> 'm StorageRaftStore \<Rightarrow> 'm StorageRaftStore" where
  "save_vote v s = s\<lparr>rs_vote := Some v\<rparr>"

definition read_vote :: "'m StorageRaftStore \<Rightarrow> Vote option" where
  "read_vote s = rs_vote s"

definition save_committed :: "LogId option \<Rightarrow> 'm StorageRaftStore \<Rightarrow> 'm StorageRaftStore" where
  "save_committed c s = s\<lparr>rs_committed := c\<rparr>"

definition read_committed :: "'m StorageRaftStore \<Rightarrow> LogId option" where
  "read_committed s = rs_committed s"

section \<open>The state machine\<close>

definition last_applied_state :: "'m StorageRaftStore \<Rightarrow> LogId option \<times> (LogId option \<times> 'm)" where
  "last_applied_state s = (sm_last_applied_log (rs_sm s), sm_last_membership (rs_sm s))"

text \<open>An operation on the store and on the node's file system.\<close>

type_synonym ('m, 'a) raft_act = "'m StorageRaftStore \<Rightarrow> world \<Rightarrow> (raft_error + 'a) \<times> 'm StorageRaftStore \<times> world"

definition edit_sm :: "('m SmData \<Rightarrow> 'm SmData) \<Rightarrow> 'm StorageRaftStore \<Rightarrow> 'm StorageRaftStore" where
  "edit_sm f s = s\<lparr>rs_sm := f (rs_sm s)\<rparr>"

definition on_fs ::
  "(StorageError, bool) act \<Rightarrow> ('m SmData \<Rightarrow> 'm SmData) \<Rightarrow> ('m, unit) raft_act" where
  "on_fs m f s w =
     (case m w of
        (Inl e, w') \<Rightarrow> (Inl (WriteStateMachine e), s, w')
      | (Inr _, w') \<Rightarrow> (Inr (), edit_sm f s, w'))"

fun apply_mutation :: "env \<Rightarrow> StorageMutation \<Rightarrow> ('m, unit) raft_act" where
  "apply_mutation E (CreateBucket name region) s w =
     on_fs (bind_act (now_string E) (\<lambda>now. create_bucket E (rs_fs s) (new_bucket_meta name now region)))
       (\<lambda>sm. sm\<lparr>sm_buckets := finsert name (sm_buckets sm)\<rparr>) s w"
| "apply_mutation E (DeleteBucket name) s w =
     on_fs (delete_bucket (rs_fs s) name) (\<lambda>sm. sm\<lparr>sm_buckets := sm_buckets sm |-| {|name|}\<rparr>) s w"
| "apply_mutation E (PutShardMap bucket key placement) s w =
     (Inr (), edit_sm (\<lambda>sm. sm\<lparr>sm_shard_maps := fmupd (shard_map_id bucket key) placement (sm_shard_maps sm)\<rparr>) s, w)"

text \<open>\<open>MutationResponse\<close> is the flag \<open>ok\<close>.\<close>

fun apply_to_state_machine :: "env \<Rightarrow> 'm Entry list \<Rightarrow> ('m, bool list) raft_act" where
  "apply_to_state_machine E [] s w = (Inr [], s, w)"
| "apply_to_state_machine E (entry # entries) s w =
     (let s1 = edit_sm (\<lambda>sm. sm\<lparr>sm_last_applied_log := Some (en_log_id entry)\<rparr>) s;
          (r, s2, w2) =
            (case en_payload entry of
               Blank \<Rightarrow> (Inr (), s1, w)
             | Normal mutation \<Rightarrow> apply_mutation E mutation s1 w
             | Membership mem \<Rightarrow>
                 (Inr (), edit_sm (\<lambda>sm. sm\<lparr>sm_last_membership := (Some (en_log_id entry), mem)\<rparr>) s1, w))
      in case r of
           Inl e \<Rightarrow> (Inl e, s2, w2)
         | Inr _ \<Rightarrow>
             (let (r', s3, w3) = apply_to_state_machine E entries s2 w2
              in (bind_res r' (\<lambda>oks. Inr (True # oks)), s3, w3)))"

section \<open>Snapshots\<close>

definition build_snapshot :: "'m raft_codec \<Rightarrow> 'm StorageRaftStore \<Rightarrow> 'm StoredSnapshot \<times> 'm StorageRaftStore" where
  "build_snapshot C s =
     (let sm = rs_sm s; data = fst (rc_sm C) sm; idx = rs_snapshot_idx s + 1;
          snapshot_id = (case sm_last_applied_log sm of
             Some l \<Rightarrow> rc_show_leader C (lid_leader l) @ ''-'' @ show_nat (lid_index l) @ ''-'' @ show_nat (unat idx)
           | None \<Rightarrow> ''--'' @ show_nat (unat idx));
          meta = \<lparr>sn_last_log_id = sm_last_applied_log sm, sn_last_membership = sm_last_membership sm, sn_snapshot_id = snapshot_id\<rparr>
      in ((meta, data), s\<lparr>rs_snapshot_idx := idx, rs_current_snapshot := Some (meta, data)\<rparr>))"

definition begin_receiving_snapshot :: bytes where
  "begin_receiving_snapshot = []"

definition install_snapshot ::
  "'m raft_codec \<Rightarrow> 'm StoredSnapshot \<Rightarrow> 'm StorageRaftStore \<Rightarrow> (raft_error + unit) \<times> 'm StorageRaftStore" where
  "install_snapshot C snapshot s =
     (case snd (rc_sm C) (snd snapshot) of
        Inl e \<Rightarrow> (Inl (ReadSnapshot e), s)
      | Inr new_sm \<Rightarrow> (Inr (), s\<lparr>rs_sm := new_sm, rs_current_snapshot := Some snapshot\<rparr>))"

definition get_current_snapshot :: "'m StorageRaftStore \<Rightarrow> 'm StoredSnapshot option" where
  "get_current_snapshot s = rs_current_snapshot s"

text \<open>
  One tick of the background scanner: the placements in the iteration order of the map, none of
  the other nodes in the process.
\<close>

definition bitrot_tick ::
  "env \<Rightarrow> (EcShardPlacement set \<Rightarrow> EcShardPlacement list) \<Rightarrow> shard_site \<Rightarrow> 'm StorageRaftStore \<Rightarrow> BitrotMetrics \<Rightarrow> BitrotMetrics any_act" where
  "bitrot_tick E iter S s mx =
     (let placements = iter (all_shard_maps s)
      in if placements = [] then ok mx else scan_placements E (S\<lparr>ss_nodes := None\<rparr>) placements mx)"

section \<open>The log as a map\<close>

definition sorted_keys :: "(nat \<times> 'a) list \<Rightarrow> bool" where
  "sorted_keys ps \<longleftrightarrow> sorted_wrt (<) (map fst ps)"

lemma btree_insert_keys: "set (map fst (btree_insert k v ps)) = insert k (set (map fst ps))"
  by (induction k v ps rule: btree_insert.induct) auto

lemma btree_insert_sorted: "sorted_keys ps \<Longrightarrow> sorted_keys (btree_insert k v ps)"
proof (induction k v ps rule: btree_insert.induct)
  case (2 k v j u ps)
  then show ?case using btree_insert_keys [of k v ps] by (auto simp: sorted_keys_def)
qed (simp add: sorted_keys_def)

lemma btree_insert_map_of: "sorted_keys ps \<Longrightarrow> map_of (btree_insert k v ps) = (map_of ps)(k \<mapsto> v)"
proof (induction k v ps rule: btree_insert.induct)
  case (2 k v j u ps)
  then show ?case by (auto simp: sorted_keys_def fun_eq_iff)
qed (simp add: fun_eq_iff)

lemma sorted_keys_filter: "sorted_keys ps \<Longrightarrow> sorted_keys (filter P ps)"
  by (induction ps) (auto simp: sorted_keys_def)

lemma map_of_filter_key: "map_of (filter (\<lambda>(i, _). P i) ps) i = (if P i then map_of ps i else None)"
  by (induction ps) auto

lemma sorted_keys_distinct: "sorted_keys ps \<Longrightarrow> distinct (map fst ps)"
  unfolding sorted_keys_def by (induction ps) auto

section \<open>The contract of a log store\<close>

text \<open>
  What \<open>openraft\<close> expects of a log store: the calls act on a map from indices to entries with the
  last purged id, the vote and the committed id beside it, and a read returns the entries of a range in
  the order of their indices.
\<close>

datatype 'e log_op =
  Append "'e list" | DeleteSince LogId | PurgeUpto LogId | SaveVote Vote | SaveCommitted "LogId option"

record 'e raft_log =
  rl_entries :: "nat \<rightharpoonup> 'e"
  rl_purged :: "LogId option"
  rl_vote :: "Vote option"
  rl_committed :: "LogId option"

primrec spec_op :: "('e \<Rightarrow> LogId) \<Rightarrow> 'e log_op \<Rightarrow> 'e raft_log \<Rightarrow> 'e raft_log" where
  "spec_op ident (Append es) a =
     a\<lparr>rl_entries := foldl (\<lambda>m e. m(lid_index (ident e) \<mapsto> e)) (rl_entries a) es\<rparr>"
| "spec_op ident (DeleteSince l) a = a\<lparr>rl_entries := (\<lambda>j. if lid_index l \<le> j then None else rl_entries a j)\<rparr>"
| "spec_op ident (PurgeUpto l) a =
     a\<lparr>rl_purged := Some l, rl_entries := (\<lambda>j. if j \<le> lid_index l then None else rl_entries a j)\<rparr>"
| "spec_op ident (SaveVote v) a = a\<lparr>rl_vote := Some v\<rparr>"
| "spec_op ident (SaveCommitted c) a = a\<lparr>rl_committed := c\<rparr>"

definition reads_range ::
  "('e \<Rightarrow> LogId) \<Rightarrow> (nat \<rightharpoonup> 'e) \<Rightarrow> bound \<Rightarrow> bound \<Rightarrow> ('x + 'e list) option \<Rightarrow> bool" where
  "reads_range ident m lo hi r \<longleftrightarrow>
     (\<exists>es. r = Some (Inr es) \<and> sorted_wrt (<) (map (\<lambda>e. lid_index (ident e)) es)
        \<and> set es = {e. \<exists>i. m i = Some e \<and> above lo i \<and> below hi i})"

text \<open>The last id: of the entry with the greatest index, or the purged one when no entry is left.\<close>

definition last_of :: "('e \<Rightarrow> LogId) \<Rightarrow> 'e raft_log \<Rightarrow> LogId option \<Rightarrow> bool" where
  "last_of ident a l \<longleftrightarrow>
     (rl_entries a = Map.empty \<and> l = rl_purged a
      \<or> (\<exists>i e. rl_entries a i = Some e \<and> (\<forall>j>i. rl_entries a j = None) \<and> l = Some (ident e)))"

locale raft_log_store =
  fixes good :: "'s \<Rightarrow> bool" and abs :: "'s \<Rightarrow> 'e raft_log" and ident :: "'e \<Rightarrow> LogId"
    and step :: "'e log_op \<Rightarrow> 's \<Rightarrow> 's" and read :: "bound \<Rightarrow> bound \<Rightarrow> 's \<Rightarrow> ('x + 'e list) option"
    and state :: "'s \<Rightarrow> LogId option \<times> LogId option"
  assumes step_good: "good s \<Longrightarrow> good (step x s)"
    and step_abs: "good s \<Longrightarrow> abs (step x s) = spec_op ident x (abs s)"
    and read_abs: "good s \<Longrightarrow> \<not> range_panics lo hi \<Longrightarrow> reads_range ident (rl_entries (abs s)) lo hi (read lo hi s)"
    and state_abs: "good s \<Longrightarrow> fst (state s) = rl_purged (abs s) \<and> last_of ident (abs s) (snd (state s))"
begin

lemma run_refines: "good s \<Longrightarrow> good (fold step xs s) \<and> abs (fold step xs s) = fold (spec_op ident) xs (abs s)"
proof (induction xs arbitrary: s)
  case (Cons x xs)
  from step_good [OF Cons.prems, of x] step_abs [OF Cons.prems, of x] Cons.IH [of "step x s"] show ?case by simp
qed simp

lemma run_read:
  assumes "good s" "\<not> range_panics lo hi"
  shows "reads_range ident (rl_entries (fold (spec_op ident) xs (abs s))) lo hi (read lo hi (fold step xs s))"
    and "fst (state (fold step xs s)) = rl_purged (fold (spec_op ident) xs (abs s))"
    and "last_of ident (fold (spec_op ident) xs (abs s)) (snd (state (fold step xs s)))"
  using run_refines [OF assms(1), of xs] read_abs [OF _ assms(2)] state_abs by metis+

end

section \<open>The store implements it\<close>

primrec store_op :: "'m raft_codec \<Rightarrow> 'm Entry log_op \<Rightarrow> 'm StorageRaftStore \<Rightarrow> 'm StorageRaftStore" where
  "store_op C (Append es) = append_to_log C es"
| "store_op C (DeleteSince l) = delete_conflict_logs_since l"
| "store_op C (PurgeUpto l) = purge_logs_upto l"
| "store_op C (SaveVote v) = save_vote v"
| "store_op C (SaveCommitted c) = save_committed c"

definition log_good :: "'m raft_codec \<Rightarrow> 'm StorageRaftStore \<Rightarrow> bool" where
  "log_good C s \<longleftrightarrow> json_law (rc_entry C) \<and> sorted_keys (rs_log s)
     \<and> (\<forall>(i, b)\<in>set (rs_log s). \<exists>e. b = fst (rc_entry C) e \<and> lid_index (en_log_id e) = i)"

definition decode :: "'m raft_codec \<Rightarrow> bytes \<Rightarrow> 'm Entry option" where
  "decode C b = (case snd (rc_entry C) b of Inr e \<Rightarrow> Some e | Inl _ \<Rightarrow> None)"

definition log_abs :: "'m raft_codec \<Rightarrow> 'm StorageRaftStore \<Rightarrow> 'm Entry raft_log" where
  "log_abs C s = \<lparr>rl_entries = (\<lambda>i. Option.bind (map_of (rs_log s) i) (decode C)), rl_purged = rs_last_purged_log_id s,
     rl_vote = rs_vote s, rl_committed = rs_committed s\<rparr>"

lemma decode_fst: "json_law (rc_entry C) \<Longrightarrow> decode C (fst (rc_entry C) e) = Some e"
  by (simp add: decode_def json_law_def)

lemma btree_insert_set: "set (btree_insert k v ps) \<subseteq> insert (k, v) (set ps)"
  by (induction k v ps rule: btree_insert.induct) auto

lemma append_good:
  assumes "log_good C s"
  shows "log_good C (append_to_log C es s)
    \<and> rl_entries (log_abs C (append_to_log C es s)) = foldl (\<lambda>m e. m(lid_index (en_log_id e) \<mapsto> e)) (rl_entries (log_abs C s)) es"
  using assms
proof (induction es arbitrary: s)
  case Nil
  then show ?case by (simp add: append_to_log_def)
next
  case (Cons e es)
  define s1 where "s1 = append_to_log C [e] s"
  have law: "json_law (rc_entry C)" and srt: "sorted_keys (rs_log s)" using Cons.prems by (simp_all add: log_good_def)
  have l1: "rs_log s1 = btree_insert (lid_index (en_log_id e)) (fst (rc_entry C) e) (rs_log s)"
    by (simp add: s1_def append_to_log_def)
  have "\<forall>(i, b)\<in>set (rs_log s1). \<exists>e. b = fst (rc_entry C) e \<and> lid_index (en_log_id e) = i"
    using Cons.prems btree_insert_set [of "lid_index (en_log_id e)" "fst (rc_entry C) e" "rs_log s"]
    unfolding l1 log_good_def by fast
  then have g1: "log_good C s1" using law btree_insert_sorted [OF srt] by (simp add: log_good_def l1)
  have e1: "rl_entries (log_abs C s1) = (rl_entries (log_abs C s))(lid_index (en_log_id e) \<mapsto> e)"
    using decode_fst [OF law] by (auto simp: log_abs_def l1 btree_insert_map_of [OF srt] fun_eq_iff)
  have "append_to_log C (e # es) s = append_to_log C es s1" by (simp add: s1_def append_to_log_def)
  with Cons.IH [OF g1] e1 show ?case by simp
qed

lemma filter_good: "log_good C s \<Longrightarrow> log_good C (s\<lparr>rs_log := filter P (rs_log s)\<rparr>)"
  by (auto simp: log_good_def sorted_keys_filter)

lemma parse_entries_ok:
  "json_law (rc_entry C) \<Longrightarrow> parse_entries C (map (fst (rc_entry C)) es) = Inr es"
  by (induction es) (simp_all add: json_law_def map_err_def)

text \<open>The entries of a good log, in order.\<close>

lemma log_good_entries:
  assumes "log_good C s"
  shows "\<exists>es. rs_log s = map (\<lambda>e. (lid_index (en_log_id e), fst (rc_entry C) e)) es
    \<and> sorted_wrt (<) (map (\<lambda>e. lid_index (en_log_id e)) es)
    \<and> (\<forall>i e. rl_entries (log_abs C s) i = Some e \<longleftrightarrow> e \<in> set es \<and> lid_index (en_log_id e) = i)"
proof -
  have law: "json_law (rc_entry C)" using assms by (simp add: log_good_def)
  have "\<exists>es. rs_log s = map (\<lambda>e. (lid_index (en_log_id e), fst (rc_entry C) e)) es"
    unfolding ex_map_conv using assms unfolding log_good_def by fast
  then obtain es where es: "rs_log s = map (\<lambda>e. (lid_index (en_log_id e), fst (rc_entry C) e)) es" ..
  have srt: "sorted_wrt (<) (map (\<lambda>e. lid_index (en_log_id e)) es)"
    using assms by (simp add: log_good_def es sorted_keys_def comp_def)
  have dis: "distinct (map fst (rs_log s))" using assms by (intro sorted_keys_distinct) (simp add: log_good_def)
  have "rl_entries (log_abs C s) i = Some e \<longleftrightarrow> e \<in> set es \<and> lid_index (en_log_id e) = i" for i e
  proof -
    have "rl_entries (log_abs C s) i = Some e \<longleftrightarrow> (\<exists>b. (i, b) \<in> set (rs_log s) \<and> decode C b = Some e)"
      using map_of_eq_Some_iff [OF dis, of i] by (auto simp: log_abs_def bind_eq_Some_conv)
    also have "\<dots> \<longleftrightarrow> e \<in> set es \<and> lid_index (en_log_id e) = i"
      using decode_fst [OF law] by (auto simp: es)
    finally show ?thesis .
  qed
  with es srt show ?thesis by blast
qed

lemma read_good:
  assumes "log_good C s" "\<not> range_panics lo hi"
  shows "reads_range en_log_id (rl_entries (log_abs C s)) lo hi (try_get_log_entries C lo hi s)"
proof -
  obtain es where es: "rs_log s = map (\<lambda>e. (lid_index (en_log_id e), fst (rc_entry C) e)) es"
    "sorted_wrt (<) (map (\<lambda>e. lid_index (en_log_id e)) es)"
    "\<And>i e. rl_entries (log_abs C s) i = Some e \<longleftrightarrow> e \<in> set es \<and> lid_index (en_log_id e) = i"
    using log_good_entries [OF assms(1)] by blast
  let ?in = "\<lambda>e. above lo (lid_index (en_log_id e)) \<and> below hi (lid_index (en_log_id e))"
  have "map snd (filter (\<lambda>(i, _). above lo i \<and> below hi i) (rs_log s)) = map (fst (rc_entry C)) (filter ?in es)"
    by (simp add: es(1) filter_map comp_def)
  then have "try_get_log_entries C lo hi s = Some (Inr (filter ?in es))"
    using assms by (simp add: try_get_log_entries_def parse_entries_ok log_good_def)
  moreover have "sorted_wrt (<) (map (\<lambda>e. lid_index (en_log_id e)) (filter ?in es))"
    using es(2) by (simp add: sorted_wrt_map sorted_wrt_filter)
  ultimately show ?thesis using es(3) by (auto simp: reads_range_def)
qed

lemma state_good:
  assumes "log_good C s"
  shows "fst (get_log_state C s) = rl_purged (log_abs C s) \<and> last_of en_log_id (log_abs C s) (snd (get_log_state C s))"
proof -
  obtain es where es: "rs_log s = map (\<lambda>e. (lid_index (en_log_id e), fst (rc_entry C) e)) es"
    "sorted_wrt (<) (map (\<lambda>e. lid_index (en_log_id e)) es)"
    "\<And>i e. rl_entries (log_abs C s) i = Some e \<longleftrightarrow> e \<in> set es \<and> lid_index (en_log_id e) = i"
    using log_good_entries [OF assms] by blast
  have law: "snd (rc_entry C) (fst (rc_entry C) e) = Inr e" for e using assms by (simp add: log_good_def json_law_def)
  show ?thesis
  proof (cases es rule: rev_cases)
    case Nil
    then have "rl_entries (log_abs C s) = Map.empty" using es(3) by (intro ext) (metis empty_iff list.set(1) not_None_eq)
    with es(1) Nil show ?thesis by (simp add: get_log_state_def last_of_def log_abs_def Let_def)
  next
    case (snoc fs e)
    have "rl_entries (log_abs C s) (lid_index (en_log_id e)) = Some e" using es(3) snoc by simp
    moreover have "rl_entries (log_abs C s) j = None" if "j > lid_index (en_log_id e)" for j
    proof (rule ccontr)
      assume "rl_entries (log_abs C s) j \<noteq> None"
      then obtain a where "rl_entries (log_abs C s) j = Some a" by blast
      then have "a \<in> set es" "lid_index (en_log_id a) = j" using es(3) by simp_all
      with that es(2) show False by (auto simp: snoc sorted_wrt_append)
    qed
    ultimately show ?thesis
      using snoc es(1) law by (auto simp: get_log_state_def last_of_def log_abs_def Let_def)
  qed
qed

interpretation store_log: raft_log_store "log_good C" "log_abs C" en_log_id "store_op C" "try_get_log_entries C" "get_log_state C"
  for C :: "'m raft_codec"
proof unfold_locales
  fix s :: "'m StorageRaftStore" and x assume g: "log_good C s"
  show "log_good C (store_op C x s)"
    using g append_good [OF g] filter_good [OF g]
    by (cases x) (auto simp: delete_conflict_logs_since_def purge_logs_upto_def save_vote_def save_committed_def log_good_def)
  show "log_abs C (store_op C x s) = spec_op en_log_id x (log_abs C s)"
    using append_good [OF g]
    by (cases x) (auto simp: delete_conflict_logs_since_def purge_logs_upto_def save_vote_def save_committed_def
        log_abs_def map_of_filter_key append_to_log_def)
qed (simp_all add: read_good state_good)



section \<open>Applying entries\<close>

text \<open>The effect of an entry on the replicated data, which does not depend on the node.\<close>

fun sm_mutate :: "StorageMutation \<Rightarrow> 'm SmData \<Rightarrow> 'm SmData" where
  "sm_mutate (CreateBucket name region) sm = sm\<lparr>sm_buckets := finsert name (sm_buckets sm)\<rparr>"
| "sm_mutate (DeleteBucket name) sm = sm\<lparr>sm_buckets := sm_buckets sm |-| {|name|}\<rparr>"
| "sm_mutate (PutShardMap bucket key placement) sm =
     sm\<lparr>sm_shard_maps := fmupd (shard_map_id bucket key) placement (sm_shard_maps sm)\<rparr>"

definition reached :: "'m Entry \<Rightarrow> 'm SmData \<Rightarrow> 'm SmData" where
  "reached e sm = sm\<lparr>sm_last_applied_log := Some (en_log_id e)\<rparr>"

definition sm_apply :: "'m Entry \<Rightarrow> 'm SmData \<Rightarrow> 'm SmData" where
  "sm_apply e sm =
     (case en_payload e of
        Blank \<Rightarrow> reached e sm
      | Normal m \<Rightarrow> sm_mutate m (reached e sm)
      | Membership mem \<Rightarrow> (reached e sm)\<lparr>sm_last_membership := (Some (en_log_id e), mem)\<rparr>)"

text \<open>The entries that change the node's files, and so may fail.\<close>

fun on_disk :: "'m EntryPayload \<Rightarrow> bool" where
  "on_disk (Normal (CreateBucket _ _)) = True"
| "on_disk (Normal (DeleteBucket _)) = True"
| "on_disk _ = False"

text \<open>One entry, as the loop of \<open>apply_to_state_machine\<close> runs it.\<close>

definition apply_entry :: "env \<Rightarrow> 'm Entry \<Rightarrow> ('m, unit) raft_act" where
  "apply_entry E e s w =
     (let s1 = edit_sm (reached e) s
      in case en_payload e of
           Blank \<Rightarrow> (Inr (), s1, w)
         | Normal mutation \<Rightarrow> apply_mutation E mutation s1 w
         | Membership mem \<Rightarrow> (Inr (), edit_sm (\<lambda>sm. sm\<lparr>sm_last_membership := (Some (en_log_id e), mem)\<rparr>) s1, w))"

lemma apply_Cons:
  "apply_to_state_machine E (e # es) s w =
     (case apply_entry E e s w of
        (Inl x, s', w') \<Rightarrow> (Inl x, s', w')
      | (Inr _, s', w') \<Rightarrow>
          (case apply_to_state_machine E es s' w' of (r, s3, w3) \<Rightarrow> (bind_res r (\<lambda>oks. Inr (True # oks)), s3, w3)))"
  unfolding apply_to_state_machine.simps apply_entry_def reached_def [abs_def] Let_def
  by (cases "en_payload e") (auto split: prod.split sum.split)

lemma edit_sm_comp [simp]: "edit_sm f (edit_sm g s) = edit_sm (\<lambda>sm. f (g sm)) s"
  by (simp add: edit_sm_def)

lemma on_fs_cases:
  "on_fs m f s w = (r, s', w') \<Longrightarrow>
     (r = Inr () \<and> s' = edit_sm f s) \<or> ((\<exists>x. r = Inl (WriteStateMachine x)) \<and> s' = s)"
  by (auto simp: on_fs_def split: prod.splits sum.splits)

lemma apply_entry_cases:
  assumes "apply_entry E e s w = (r, s', w')"
  shows "(r = Inr () \<and> s' = edit_sm (sm_apply e) s)
    \<or> ((\<exists>x. r = Inl (WriteStateMachine x)) \<and> on_disk (en_payload e) \<and> s' = edit_sm (reached e) s)"
proof (cases "en_payload e")
  case (Normal m)
  with assms show ?thesis
    by (cases m) (auto simp: apply_entry_def sm_apply_def [abs_def] Let_def dest: on_fs_cases)
qed (use assms in \<open>auto simp: apply_entry_def sm_apply_def [abs_def] Let_def\<close>)

text \<open>
  The store after a batch: every entry applied, or exactly those before the first one whose bucket
  operation failed, with the last applied log id moved past that one.
\<close>

lemma apply_exact:
  assumes "apply_to_state_machine E es s w = (r, s', w')"
  shows "(r = Inr (replicate (length es) True) \<and> s' = edit_sm (fold sm_apply es) s)
    \<or> (\<exists>n x. n < length es \<and> on_disk (en_payload (es ! n)) \<and> r = Inl (WriteStateMachine x)
          \<and> s' = edit_sm (\<lambda>sm. reached (es ! n) (fold sm_apply (take n es) sm)) s)"
  using assms
proof (induction es arbitrary: s w r)
  case Nil
  then show ?case by (simp add: edit_sm_def)
next
  case (Cons e es)
  obtain r1 s1 w1 where e: "apply_entry E e s w = (r1, s1, w1)" by (metis prod_cases3)
  obtain r2 s2 w2 where es: "apply_to_state_machine E es s1 w1 = (r2, s2, w2)" by (metis prod_cases3)
  from apply_entry_cases [OF e] show ?case
  proof (elim disjE conjE)
    assume ok: "r1 = Inr ()" "s1 = edit_sm (sm_apply e) s"
    have res: "r = bind_res r2 (\<lambda>oks. Inr (True # oks))" "s' = s2" "w' = w2"
      using Cons.prems unfolding apply_Cons by (simp_all add: e es ok(1))
    from Cons.IH [OF es [folded res(2,3)]] show ?case
    proof
      assume "r2 = Inr (replicate (length es) True) \<and> s' = edit_sm (fold sm_apply es) s1"
      then show ?thesis using res(1) ok(2) by simp
    next
      assume "\<exists>n x. n < length es \<and> on_disk (en_payload (es ! n)) \<and> r2 = Inl (WriteStateMachine x)
          \<and> s' = edit_sm (\<lambda>sm. reached (es ! n) (fold sm_apply (take n es) sm)) s1"
      then obtain n x where n: "n < length es" "on_disk (en_payload (es ! n))" "r2 = Inl (WriteStateMachine x)"
        "s' = edit_sm (\<lambda>sm. reached (es ! n) (fold sm_apply (take n es) sm)) s1" by blast
      have "Suc n < length (e # es) \<and> on_disk (en_payload ((e # es) ! Suc n)) \<and> r = Inl (WriteStateMachine x)
          \<and> s' = edit_sm (\<lambda>sm. reached ((e # es) ! Suc n) (fold sm_apply (take (Suc n) (e # es)) sm)) s"
        using n res(1) ok(2) by simp
      then show ?thesis by blast
    qed
  next
    assume bad: "\<exists>x. r1 = Inl (WriteStateMachine x)" "on_disk (en_payload e)" "s1 = edit_sm (reached e) s"
    from bad(1) obtain x where x: "r1 = Inl (WriteStateMachine x)" ..
    have "r = Inl (WriteStateMachine x) \<and> s' = s1" using Cons.prems unfolding apply_Cons by (simp add: e x)
    then have "0 < length (e # es) \<and> on_disk (en_payload ((e # es) ! 0)) \<and> r = Inl (WriteStateMachine x)
        \<and> s' = edit_sm (\<lambda>sm. reached ((e # es) ! 0) (fold sm_apply (take 0 (e # es)) sm)) s"
      using bad(2,3) by simp
    then show ?thesis by blast
  qed
qed


section \<open>The replicated buckets and the disk\<close>

definition tree_ok :: "FilesystemStorage \<Rightarrow> node \<Rightarrow> bool" where
  "tree_ok fs t \<longleftrightarrow> store_ok fs t \<and> (\<forall>b n. is_valid_bucket_name b \<and> view (st_buckets_dir fs) t b = Some n \<longrightarrow> wf_node n)"

definition node_ok :: "'m StorageRaftStore \<Rightarrow> world \<Rightarrow> bool" where
  "node_ok s w \<longleftrightarrow> w_faults w = [] \<and> tree_ok (rs_fs s) (w_root w)"

definition buckets_on_disk :: "'m StorageRaftStore \<Rightarrow> world \<Rightarrow> bool" where
  "buckets_on_disk s w \<longleftrightarrow>
     (\<forall>b\<in>store_buckets s. is_valid_bucket_name b \<and> view (st_buckets_dir (rs_fs s)) (w_root w) b \<noteq> None)"

lemma tree_ok_set:
  assumes "tree_ok fs t" "\<And>n. v = Some n \<Longrightarrow> wf_node n"
  shows "tree_ok fs (set_node (st_buckets_dir fs @ [b]) v t)"
  using assms by (auto simp: tree_ok_def store_ok_def split: if_splits)

text \<open>Whatever a bucket operation answers, it changes at most the directory of its bucket.\<close>

lemma create_bucket_frame:
  assumes "w_faults w = []" "tree_ok fs (w_root w)" "create_bucket E fs m w = (r, w')"
  shows "w_faults w' = [] \<and> tree_ok fs (w_root w')
    \<and> (\<forall>b. view (st_buckets_dir fs) (w_root w) b \<noteq> None \<longrightarrow> view (st_buckets_dir fs) (w_root w') b \<noteq> None)
    \<and> (r \<in> range Inr \<longrightarrow> is_valid_bucket_name (bm_name m) \<and> view (st_buckets_dir fs) (w_root w') (bm_name m) \<noteq> None)"
proof (cases "is_valid_bucket_name (bm_name m)")
  case True
  have st: "store_ok fs (w_root w)" using assms(2) by (simp add: tree_ok_def)
  then have d: "is_dir_at (st_buckets_dir fs) (w_root w)" by (simp add: store_ok_def)
  show ?thesis
    using create_bucket_calm [OF st assms(1) True refl, of E] assms
      tree_ok_set [OF assms(2), of "Some (Dir [(''.bucket.json'', File (fst (e_bucket E) m))])" "bm_name m"] True d
    by (auto split: if_splits)
next
  case False
  then have "\<exists>x. create_bucket E fs m w = (Inl x, w)"
    by (auto simp: create_bucket_def validate_bucket_name_def fail_def split: if_splits)
  with assms show ?thesis by auto
qed

lemma delete_bucket_frame:
  assumes "w_faults w = []" "tree_ok fs (w_root w)" "delete_bucket fs name w = (r, w')"
  shows "w_faults w' = [] \<and> tree_ok fs (w_root w')
    \<and> (\<forall>b. b \<noteq> name \<or> r \<notin> range Inr \<longrightarrow> view (st_buckets_dir fs) (w_root w') b = view (st_buckets_dir fs) (w_root w) b)"
proof (cases "is_valid_bucket_name name")
  case True
  have st: "store_ok fs (w_root w)" using assms(2) by (simp add: tree_ok_def)
  then have d: "is_dir_at (st_buckets_dir fs) (w_root w)" by (simp add: store_ok_def)
  show ?thesis
  proof (cases "view (st_buckets_dir fs) (w_root w) name")
    case None
    from delete_bucket_absent [OF st assms(1) True None] assms show ?thesis by simp
  next
    case (Some n)
    show ?thesis
    proof (cases n)
      case (File b)
      from delete_bucket_file [OF st assms(1) True Some [unfolded File]] assms show ?thesis by simp
    next
      case (Dir es)
      then have "wf_node (Dir es)" using assms(2) True Some unfolding tree_ok_def by blast
      from delete_bucket_calm [OF st assms(1) True Some [unfolded Dir] this] assms tree_ok_set [OF assms(2), of None name] d
      show ?thesis by (auto split: if_splits)
    qed
  qed
next
  case False
  then have "\<exists>x. delete_bucket fs name w = (Inl x, w)"
    by (auto simp: delete_bucket_def validate_bucket_name_def fail_def)
  with assms show ?thesis by auto
qed

lemma edit_sm_simps [simp]: "rs_fs (edit_sm f s) = rs_fs s" "rs_sm (edit_sm f s) = f (rs_sm s)"
  by (simp_all add: edit_sm_def)

lemma reached_buckets [simp]: "sm_buckets (reached e sm) = sm_buckets sm"
  by (simp add: reached_def)

lemma apply_entry_on_disk:
  assumes "node_ok s w" "buckets_on_disk s w" "apply_entry E e s w = (r, s', w')"
  shows "node_ok s' w' \<and> buckets_on_disk s' w'"
proof (cases "on_disk (en_payload e)")
  case False
  then have "w' = w \<and> rs_fs s' = rs_fs s \<and> sm_buckets (rs_sm s') = sm_buckets (rs_sm s)"
    using assms(3) by (cases "en_payload e" rule: on_disk.cases) (auto simp: apply_entry_def Let_def)
  with assms(1,2) show ?thesis by (simp add: node_ok_def buckets_on_disk_def store_buckets_def)
next
  case True
  let ?s = "edit_sm (reached e) s"
  have n: "w_faults w = []" "tree_ok (rs_fs s) (w_root w)" using assms(1) by (simp_all add: node_ok_def)
  from True consider (create) name region where "en_payload e = Normal (CreateBucket name region)"
    | (delete) name where "en_payload e = Normal (DeleteBucket name)"
    by (cases "en_payload e" rule: on_disk.cases) auto
  then show ?thesis
  proof cases
    case create
    let ?w = "w\<lparr>w_draws := Suc (w_draws w)\<rparr>" and ?m = "new_bucket_meta name (e_fmt E (e_micros E (w_draws w))) region"
    obtain r1 w1 where c: "create_bucket E (rs_fs s) ?m ?w = (r1, w1)" by force
    have w1: "w' = w1" and s': "s' = (if r1 \<in> range Inr then edit_sm (\<lambda>sm. sm\<lparr>sm_buckets := finsert name (sm_buckets sm)\<rparr>) ?s else ?s)"
      using assms(3) c
      by (auto simp: apply_entry_def Let_def create on_fs_def now_string_def draw_def bind_act_def ok_def split: sum.splits)
    have "bm_name ?m = name" by (simp add: new_bucket_meta_def)
    with create_bucket_frame [OF _ _ c] n assms(2) show ?thesis
      unfolding w1 s' by (auto simp: node_ok_def buckets_on_disk_def store_buckets_def)
  next
    case delete
    obtain r1 w1 where c: "delete_bucket (rs_fs s) name w = (r1, w1)" by force
    have w1: "w' = w1" and s': "s' = (if r1 \<in> range Inr then edit_sm (\<lambda>sm. sm\<lparr>sm_buckets := sm_buckets sm |-| {|name|}\<rparr>) ?s else ?s)"
      using assms(3) c by (auto simp: apply_entry_def Let_def delete on_fs_def split: sum.splits)
    from delete_bucket_frame [OF n c] assms(2) show ?thesis
      unfolding w1 s' by (auto simp: node_ok_def buckets_on_disk_def store_buckets_def)
  qed
qed

lemma apply_on_disk:
  "node_ok s w \<Longrightarrow> buckets_on_disk s w \<Longrightarrow> apply_to_state_machine E es s w = (r, s', w') \<Longrightarrow>
     node_ok s' w' \<and> buckets_on_disk s' w'"
proof (induction es arbitrary: s w r)
  case (Cons e es)
  obtain r1 s1 w1 where e: "apply_entry E e s w = (r1, s1, w1)" by (metis prod_cases3)
  obtain r2 s2 w2 where es: "apply_to_state_machine E es s1 w1 = (r2, s2, w2)" by (metis prod_cases3)
  have ok: "node_ok s1 w1 \<and> buckets_on_disk s1 w1" by (rule apply_entry_on_disk [OF Cons.prems(1,2) e])
  show ?case
  proof (cases r1)
    case (Inl x)
    with Cons.prems(3) ok show ?thesis unfolding apply_Cons by (simp add: e)
  next
    case (Inr u)
    with Cons.prems(3) have "s' = s2" "w' = w2" unfolding apply_Cons by (simp_all add: e es)
    with Cons.IH [of s1 w1] ok es show ?thesis by blast
  qed
qed simp


section \<open>Properties\<close>

text \<open>
  C38. The log store keeps its contract. After any sequence of appends, truncations, purges and
  saved votes and commit indices on a new store, a read of any range returns, in the order of their indices, exactly the entries that
  the same sequence leaves in a map from indices to entries; the log state names the last
  purged id and the last id; the vote and the commit index are the last ones saved.
\<close>

theorem raft_log_refines:
  assumes "json_law (rc_entry C)" and "\<not> range_panics lo hi"
    and "s = fold (store_op C) xs (raft_store_new mem0 fs)"
    and "a = fold (spec_op en_log_id) xs \<lparr>rl_entries = Map.empty, rl_purged = None, rl_vote = None, rl_committed = None\<rparr>"
  shows "reads_range en_log_id (rl_entries a) lo hi (try_get_log_entries C lo hi s)
    \<and> fst (get_log_state C s) = rl_purged a \<and> last_of en_log_id a (snd (get_log_state C s))
    \<and> read_vote s = rl_vote a \<and> read_committed s = rl_committed a"
proof -
  let ?s = "raft_store_new mem0 fs"
  have good: "log_good C ?s" using assms(1) by (simp add: log_good_def raft_store_new_def sorted_keys_def)
  have abs: "log_abs C ?s = \<lparr>rl_entries = Map.empty, rl_purged = None, rl_vote = None, rl_committed = None\<rparr>"
    by (simp add: log_abs_def raft_store_new_def)
  have "log_abs C s = a" using store_log.run_refines [OF good, of xs] by (simp add: assms(3,4) abs)
  then have "read_vote s = rl_vote a" "read_committed s = rl_committed a"
    by (auto simp: read_vote_def read_committed_def log_abs_def)
  then show ?thesis using store_log.run_read [OF good assms(2), of xs] by (simp add: assms(3,4) abs)
qed

text \<open>For the witnesses: entries and state machines of a membership type with one value.\<close>

instance LogId_ext :: (countable) countable
  by (rule countable_classI [of "\<lambda>r. to_nat (lid_leader r, lid_index r, LogId.more r)"]) (auto intro: LogId.equality)

instance EcShardPlacement_ext :: (countable) countable
  by (rule countable_classI [of "\<lambda>r. to_nat (sp_bucket r, sp_key r, sp_data_shards r, sp_parity_shards r, sp_placements r,
    EcShardPlacement.more r)"]) (auto intro: EcShardPlacement.equality)

instance StorageMutation :: countable by countable_datatype
instance EntryPayload :: (countable) countable by countable_datatype

instance Entry_ext :: (countable, countable) countable
  by (rule countable_classI [of "\<lambda>r. to_nat (en_log_id r, en_payload r, Entry.more r)"]) (auto intro: Entry.equality)

instance SmData_ext :: (countable, countable) countable
  by (rule countable_classI [of "\<lambda>r. to_nat (sm_last_applied_log r, sm_last_membership r, sm_buckets r, sm_shard_maps r, SmData.more r)"])
     (auto intro: SmData.equality)

definition toy_codec :: "unit raft_codec" where
  "toy_codec = \<lparr>rc_entry = toy_json, rc_sm = toy_json, rc_show_leader = (\<lambda>(t, n). show_nat t)\<rparr>"

definition toy_log_entry :: "nat \<Rightarrow> unit EntryPayload \<Rightarrow> unit Entry" where
  "toy_log_entry i p = \<lparr>en_log_id = \<lparr>lid_leader = (1, 1), lid_index = i\<rparr>, en_payload = p\<rparr>"

definition toy_raft_store :: "unit StorageRaftStore" where
  "toy_raft_store = raft_store_new () toy_storage"

lemma toy_codec_law: "json_law (rc_entry toy_codec)" "json_law (rc_sm toy_codec)"
  by (simp_all add: toy_codec_def toy_json_law)

theorem raft_log_refines_witness:
  "reads_range en_log_id [7 \<mapsto> toy_log_entry 7 Blank, 8 \<mapsto> toy_log_entry 8 Blank] (Included 3) Unbounded
     (try_get_log_entries toy_codec (Included 3) Unbounded
       (fold (store_op toy_codec) [Append [toy_log_entry 7 Blank, toy_log_entry 8 Blank]] (raft_store_new () toy_storage)))"
  using raft_log_refines [OF toy_codec_law(1), of "Included 3" Unbounded, OF _ refl refl,
      of "[Append [toy_log_entry 7 Blank, toy_log_entry 8 Blank]]" "()" toy_storage]
  by (simp add: toy_log_entry_def)

text \<open>
  C39. A snapshot replaces the log. A node that installs the snapshot of a node that applied \<open>es1\<close>
  has the same state machine, and whatever it applies next leaves it with the state of a
  replay: all of \<open>es1 @ es2\<close> when it succeeds, and otherwise everything up to the entry whose bucket
  operation failed on its disk. The log, the vote and the metadata of the snapshot are kept.
\<close>

theorem snapshot_replaces_replay:
  assumes "json_law (rc_sm C)" and "apply_to_state_machine E es1 a w = (Inr oks, a1, w1)"
    and "build_snapshot C a1 = (snap, a2)"
  shows "\<exists>b1. install_snapshot C snap b = (Inr (), b1) \<and> rs_sm b1 = fold sm_apply es1 (rs_sm a)
    \<and> last_applied_state b1 = (sn_last_log_id (fst snap), sn_last_membership (fst snap))
    \<and> get_current_snapshot b1 = Some snap \<and> get_current_snapshot a2 = Some snap
    \<and> rs_log b1 = rs_log b \<and> read_vote b1 = read_vote b
    \<and> (\<forall>es2 w2. \<exists>r b2 w3. apply_to_state_machine E es2 b1 w2 = (r, b2, w3) \<and>
         (r = Inr (replicate (length es2) True) \<and> rs_sm b2 = fold sm_apply (es1 @ es2) (rs_sm a)
          \<or> (\<exists>n x. n < length es2 \<and> on_disk (en_payload (es2 ! n)) \<and> r = Inl (WriteStateMachine x)
                \<and> rs_sm b2 = reached (es2 ! n) (fold sm_apply (es1 @ take n es2) (rs_sm a)))))"
proof -
  have a1: "rs_sm a1 = fold sm_apply es1 (rs_sm a)" using apply_exact [OF assms(2)] by auto
  have snap: "snd snap = fst (rc_sm C) (rs_sm a1)" "sn_last_log_id (fst snap) = sm_last_applied_log (rs_sm a1)"
    "sn_last_membership (fst snap) = sm_last_membership (rs_sm a1)" "rs_current_snapshot a2 = Some snap"
    using assms(3) by (auto simp: build_snapshot_def Let_def)
  define b1 where "b1 = b\<lparr>rs_sm := rs_sm a1, rs_current_snapshot := Some snap\<rparr>"
  have inst: "install_snapshot C snap b = (Inr (), b1)"
    using assms(1) by (simp add: install_snapshot_def snap(1) json_law_def b1_def)
  have replay: "\<exists>r b2 w3. apply_to_state_machine E es2 b1 w2 = (r, b2, w3) \<and>
      (r = Inr (replicate (length es2) True) \<and> rs_sm b2 = fold sm_apply (es1 @ es2) (rs_sm a)
       \<or> (\<exists>n x. n < length es2 \<and> on_disk (en_payload (es2 ! n)) \<and> r = Inl (WriteStateMachine x)
             \<and> rs_sm b2 = reached (es2 ! n) (fold sm_apply (es1 @ take n es2) (rs_sm a))))" for es2 w2
  proof -
    obtain r b2 w3 where run: "apply_to_state_machine E es2 b1 w2 = (r, b2, w3)" by (metis prod_cases3)
    have "rs_sm b1 = fold sm_apply es1 (rs_sm a)" by (simp add: b1_def a1)
    with apply_exact [OF run] have
      "r = Inr (replicate (length es2) True) \<and> rs_sm b2 = fold sm_apply (es1 @ es2) (rs_sm a)
       \<or> (\<exists>n x. n < length es2 \<and> on_disk (en_payload (es2 ! n)) \<and> r = Inl (WriteStateMachine x)
             \<and> rs_sm b2 = reached (es2 ! n) (fold sm_apply (es1 @ take n es2) (rs_sm a)))" by auto
    with run show ?thesis by blast
  qed
  show ?thesis
  proof (intro exI [of _ b1] conjI allI)
    show "install_snapshot C snap b = (Inr (), b1)" by (rule inst)
    fix es2 w2
    show "\<exists>r b2 w3. apply_to_state_machine E es2 b1 w2 = (r, b2, w3) \<and>
      (r = Inr (replicate (length es2) True) \<and> rs_sm b2 = fold sm_apply (es1 @ es2) (rs_sm a)
       \<or> (\<exists>n x. n < length es2 \<and> on_disk (en_payload (es2 ! n)) \<and> r = Inl (WriteStateMachine x)
             \<and> rs_sm b2 = reached (es2 ! n) (fold sm_apply (es1 @ take n es2) (rs_sm a))))" by (rule replay)
  qed (simp_all add: snap b1_def a1 last_applied_state_def get_current_snapshot_def read_vote_def)
qed

theorem snapshot_replaces_replay_witness:
  "\<exists>a1 w1 b1. apply_to_state_machine toy_env
        [toy_log_entry 1 Blank, toy_log_entry 2 (Normal (PutShardMap ''photos'' ''cat'' toy_placement))] toy_raft_store toy_world
      = (Inr [True, True], a1, w1)
    \<and> install_snapshot toy_codec (fst (build_snapshot toy_codec a1)) toy_raft_store = (Inr (), b1)
    \<and> shard_map b1 ''photos'' ''cat'' = Some toy_placement"
proof -
  let ?es = "[toy_log_entry 1 Blank, toy_log_entry 2 (Normal (PutShardMap ''photos'' ''cat'' toy_placement))]"
  obtain a1 where run: "apply_to_state_machine toy_env ?es toy_raft_store toy_world = (Inr [True, True], a1, toy_world)"
    by (simp add: toy_log_entry_def)
  obtain snap a2 where "build_snapshot toy_codec a1 = (snap, a2)" by (cases "build_snapshot toy_codec a1") blast
  from snapshot_replaces_replay [OF toy_codec_law(2) run this, of toy_raft_store] run this show ?thesis
    by (fastforce simp: shard_map_def toy_log_entry_def sm_apply_def shard_map_id_def)
qed

text \<open>
  C40. What the replicated state lists is on the disk. On a node without failing calls whose bucket
  directories are well formed, applying any entries, with success or up to an entry that fails, keeps every
  bucket of the replicated set a valid name with an entry in the node's bucket directory.
\<close>

theorem raft_buckets_on_disk:
  assumes "node_ok s w" and "buckets_on_disk s w" and "apply_to_state_machine E es s w = (r, s', w')"
  shows "node_ok s' w' \<and> buckets_on_disk s' w'"
  by (rule apply_on_disk [OF assms])

theorem raft_buckets_on_disk_witness:
  "\<exists>r s' w'. apply_to_state_machine toy_env [toy_log_entry 1 (Normal (CreateBucket ''photos'' ''here''))] toy_raft_store toy_world = (r, s', w')
    \<and> store_buckets s' = {''photos''} \<and> buckets_on_disk s' w'"
proof -
  let ?es = "[toy_log_entry 1 (Normal (CreateBucket ''photos'' ''here''))]"
  have st: "store_ok toy_storage (w_root toy_world)" using toy_good_buckets by (simp add: good_buckets_def)
  have n: "node_ok toy_raft_store toy_world"
    using st by (auto simp: node_ok_def tree_ok_def toy_raft_store_def raft_store_new_def toy_world_def lookup_Cons split: if_splits)
  have d: "buckets_on_disk toy_raft_store toy_world"
    by (simp add: buckets_on_disk_def store_buckets_def toy_raft_store_def raft_store_new_def sm_default_def)
  obtain r s' w' where run: "apply_to_state_machine toy_env ?es toy_raft_store toy_world = (r, s', w')" by (metis prod_cases3)
  have "create_bucket toy_env toy_storage (new_bucket_meta ''photos'' now ''here'') (toy_world\<lparr>w_draws := 1\<rparr>) = (Inr False, toy_world\<lparr>w_draws := 1\<rparr>)" for now
    using create_bucket_calm [of toy_storage "toy_world\<lparr>w_draws := 1\<rparr>" "new_bucket_meta ''photos'' now ''here''"] st toy_valid
    by (simp add: new_bucket_meta_def) (simp add: toy_world_def lookup_Cons)
  then have "store_buckets s' = {''photos''}"
    using run
    by (auto simp: toy_log_entry_def on_fs_def now_string_def bind_act_def draw_def ok_def store_buckets_def toy_raft_store_def
        raft_store_new_def sm_default_def)
  with run raft_buckets_on_disk [OF n d run] show ?thesis by blast
qed

text \<open>
  Installing a snapshot does not create the directories of its buckets: the node then lists buckets that
  it does not have.
\<close>

lemma snapshot_misses_disk:
  assumes "json_law (rc_sm C)" "build_snapshot C a = (snap, a')" "install_snapshot C snap b = (Inr (), b1)"
    and "name \<in> store_buckets a" "view (st_buckets_dir (rs_fs b)) (w_root w) name = None"
  shows "\<not> buckets_on_disk b1 w"
proof -
  have "rs_sm b1 = rs_sm a" "rs_fs b1 = rs_fs b"
    using assms(1-3) by (auto simp: build_snapshot_def install_snapshot_def json_law_def Let_def)
  with assms(4,5) show ?thesis by (auto simp: buckets_on_disk_def store_buckets_def)
qed

text \<open>An entry with an invalid bucket name fails on every node, in every state.\<close>

lemma invalid_name_poisons:
  assumes "\<not> is_valid_bucket_name name" "en_payload e = Normal (DeleteBucket name)"
  shows "\<exists>x s' w'. apply_to_state_machine E (e # es) s w = (Inl (WriteStateMachine x), s', w')"
  using assms by (auto simp: on_fs_def delete_bucket_def validate_bucket_name_def fail_def)

end
